(* ===== verification/Prelude.thy ===== *)
theory Prelude
  imports Complex_Main "HOL-Library.Word" "HOL-Library.Multiset"
begin

text \<open>
  Shared vocabulary of the development: the macros of \<^verbatim>\<open>src/src/libredp2p.h\<close> and
  \<^verbatim>\<open>src/src/libredp2p.c\<close>, C strings, character classes, and the generic list and word
  lemmas that the component theories use.

  C conventions. A \<^verbatim>\<open>const char *\<close> is a \<open>string\<close> without its terminating NUL
  (\<open>string option\<close> where the code tests for a null pointer); comparisons of characters
  are comparisons of their byte values. The target is LP64: \<^verbatim>\<open>long\<close>,
  \<^verbatim>\<open>size_t\<close> and \<^verbatim>\<open>time_t\<close> have 64 bits.
\<close>

unbundle bit_operations_syntax

named_theorems macros \<open>values of the source's macros\<close>
named_theorems wf_intros \<open>preservation of the well-formedness invariants\<close>

type_synonym byte = "8 word"
type_synonym u32 = "32 word"
type_synonym u64 = "64 word"

section \<open>Status codes and limits\<close>

definition REDP2P_OK :: int where [macros]: "REDP2P_OK = 0"
definition REDP2P_ERROR :: int where [macros]: "REDP2P_ERROR = -1"
definition REDP2P_ENET :: int where [macros]: "REDP2P_ENET = -2"
definition REDP2P_ENOENT :: int where [macros]: "REDP2P_ENOENT = -3"
definition REDP2P_ETIMEOUT :: int where [macros]: "REDP2P_ETIMEOUT = -4"
definition REDP2P_EFULL :: int where [macros]: "REDP2P_EFULL = -5"
definition REDP2P_EINVAL :: int where [macros]: "REDP2P_EINVAL = -6"
definition REDP2P_EPROTO :: int where [macros]: "REDP2P_EPROTO = -7"
definition REDP2P_EAUTH :: int where [macros]: "REDP2P_EAUTH = -8"
definition REDP2P_EVERSION :: int where [macros]: "REDP2P_EVERSION = -9"
definition REDP2P_EPUNCH :: int where [macros]: "REDP2P_EPUNCH = -10"

definition REDP2P_ID_MAX :: nat where [macros]: "REDP2P_ID_MAX = 63"
definition REDP2P_ADDR_MAX :: nat where [macros]: "REDP2P_ADDR_MAX = 47"
definition REDP2P_BUF :: nat where [macros]: "REDP2P_BUF = 4096"
definition REDP2P_KEY_SZ :: nat where [macros]: "REDP2P_KEY_SZ = 16"
definition REDP2P_KEY_STR_SZ :: nat where [macros]: "REDP2P_KEY_STR_SZ = 33"
definition REDP2P_PASS_MAX :: nat where [macros]: "REDP2P_PASS_MAX = 255"
definition REDP2P_STATE_DIR_MAX :: nat where [macros]: "REDP2P_STATE_DIR_MAX = 511"
definition REDP2P_PEER_CANDIDATES_MAX :: nat where [macros]: "REDP2P_PEER_CANDIDATES_MAX = 8"
definition REDP2P_CANDIDATES_MAX :: nat where [macros]: "REDP2P_CANDIDATES_MAX = 16"
definition REDP2P_PROTO_TCP :: int where [macros]: "REDP2P_PROTO_TCP = 1"
definition REDP2P_PROTO_UDP :: int where [macros]: "REDP2P_PROTO_UDP = 2"
definition REDP2P_SWEEP_MAX :: int where [macros]: "REDP2P_SWEEP_MAX = 1024"
definition REDP2P_POW_MAX :: int where [macros]: "REDP2P_POW_MAX = 32"
definition REDP2P_CTRL_SESSION_MAX :: nat where [macros]: "REDP2P_CTRL_SESSION_MAX = 63"
definition REDP2P_MAX_PENDING_CALLS :: nat where [macros]: "REDP2P_MAX_PENDING_CALLS = 32"
definition REDP2P_PENDING_CALL_TTL_S :: u64 where [macros]: "REDP2P_PENDING_CALL_TTL_S = 30"
definition REDP2P_MAX_CONNECTIONS :: nat where [macros]: "REDP2P_MAX_CONNECTIONS = 128"
definition REDP2P_HTTP_LINE_MAX :: nat where [macros]: "REDP2P_HTTP_LINE_MAX = 256"
definition REDP2P_HTTP_HEADERS_MAX :: nat where [macros]: "REDP2P_HTTP_HEADERS_MAX = 32"
definition REDP2P_HTTP_BODY_MAX :: nat where [macros]: "REDP2P_HTTP_BODY_MAX = 4096"
definition REDP2P_HTTP_TIMEOUT_S :: nat where [macros]: "REDP2P_HTTP_TIMEOUT_S = 5"
definition REDP2P_HTTP_BUF_MAX :: nat where [macros]: "REDP2P_HTTP_BUF_MAX = 256 * 32 + 4096 + 128"

text \<open>\<^verbatim>\<open>SIZE_MAX\<close> and \<^verbatim>\<open>sizeof(redp2p_peer_t)\<close> on an LP64 target.\<close>

definition SIZE_MAX :: nat where [macros]: "SIZE_MAX = 2 ^ 64 - 1"
definition sizeof_peer :: nat where [macros]: "sizeof_peer = 608"
definition sizeof_vip :: nat where [macros]: "sizeof_vip = 320"

section \<open>Characters and C strings\<close>

abbreviation ord :: "char \<Rightarrow> nat" where "ord c \<equiv> of_char c"

definition NUL :: char where "NUL = CHR 0x00"
definition LF :: char where "LF = CHR 0x0A"
definition CR :: char where "CR = CHR 0x0D"

definition between :: "char \<Rightarrow> char \<Rightarrow> char \<Rightarrow> bool" where
  "between lo hi c \<longleftrightarrow> ord lo \<le> ord c \<and> ord c \<le> ord hi"

abbreviation is_digit :: "char \<Rightarrow> bool" where
  "is_digit \<equiv> between (CHR ''0'') (CHR ''9'')"

abbreviation is_lower :: "char \<Rightarrow> bool" where
  "is_lower \<equiv> between (CHR ''a'') (CHR ''z'')"

abbreviation is_upper :: "char \<Rightarrow> bool" where
  "is_upper \<equiv> between (CHR ''A'') (CHR ''Z'')"

definition is_alnum :: "char \<Rightarrow> bool" where
  "is_alnum c \<longleftrightarrow> is_lower c \<or> is_upper c \<or> is_digit c"

definition is_hex_digit :: "char \<Rightarrow> bool" where
  "is_hex_digit c \<longleftrightarrow> is_digit c \<or> between (CHR ''a'') (CHR ''f'') c
     \<or> between (CHR ''A'') (CHR ''F'') c"

text \<open>What a C function sees of a buffer that may hold a NUL: the prefix before it.\<close>

definition c_str :: "string \<Rightarrow> string" where
  "c_str s = takeWhile (\<lambda>c. c \<noteq> NUL) s"

lemma c_str_id: "NUL \<notin> set s \<Longrightarrow> c_str s = s"
  unfolding c_str_def by (rule takeWhile_eq_all_conv [THEN iffD2]) auto

lemma c_str_no_NUL: "NUL \<notin> set (c_str s)"
  unfolding c_str_def by (auto dest: set_takeWhileD)

lemma c_str_idem [simp]: "c_str (c_str s) = c_str s"
  by (rule c_str_id [OF c_str_no_NUL])

lemma special_not_alnum [simp]:
  "\<not> is_alnum (CHR '':'')" "\<not> is_alnum LF" "\<not> is_alnum CR" "\<not> is_alnum NUL"
  "\<not> is_alnum (CHR ''-'')" "\<not> is_alnum (CHR '' '')"
  by (simp_all add: is_alnum_def between_def LF_def CR_def NUL_def)

lemma special_distinct [simp]:
  "LF \<noteq> CHR ''-''" "CR \<noteq> CHR ''-''" "LF \<noteq> CHR '':''" "CR \<noteq> CHR '':''" "CR \<noteq> LF" "LF \<noteq> CR"
  "NUL \<noteq> CR" "NUL \<noteq> LF"
  by (simp_all add: LF_def CR_def NUL_def)

lemma list_all_notin: "list_all P xs \<Longrightarrow> \<not> P x \<Longrightarrow> x \<notin> set xs"
  by (auto simp: list_all_iff)

text \<open>
  The scanning loop shared by the token validators: every character must satisfy \<open>P\<close>
  and position \<open>i\<close> must stay below the limit.
\<close>

fun scan_token :: "(char \<Rightarrow> bool) \<Rightarrow> nat \<Rightarrow> nat \<Rightarrow> string \<Rightarrow> bool" where
  "scan_token P m i [] = True"
| "scan_token P m i (c # cs) =
     (if i \<ge> m then False else if \<not> P c then False else scan_token P m (Suc i) cs)"

lemma scan_token_iff: "i \<le> m \<Longrightarrow> scan_token P m i t \<longleftrightarrow> length t + i \<le> m \<and> list_all P t"
  by (induction t arbitrary: i) auto

section \<open>Lists\<close>

lemma map_of_distinct_nth:
  "distinct (map f xs) \<Longrightarrow> i < length xs \<Longrightarrow> j < length xs \<Longrightarrow> f (xs ! i) = f (xs ! j) \<Longrightarrow> i = j"
  by (metis length_map nth_eq_iff_index_eq nth_map)

lemma find_Some_iff_distinct:
  assumes "distinct (map f xs)"
  shows "find (\<lambda>x. f x = k) xs = Some x \<longleftrightarrow> x \<in> set xs \<and> f x = k"
proof -
  have "find (\<lambda>x. f x = k) xs = Some x" if "x \<in> set xs" "f x = k"
    using assms that by (induction xs) (auto simp: rev_image_eqI)
  moreover have "x \<in> set xs \<and> f x = k" if "find (\<lambda>x. f x = k) xs = Some x"
    using that by (auto simp: find_Some_iff)
  ultimately show ?thesis by blast
qed

lemma set_list_update_distinct:
  assumes "distinct (map f xs)" "i < length xs" "f y = f (xs ! i)"
  shows "set (xs[i := y]) = insert y {x \<in> set xs. f x \<noteq> f (xs ! i)}"
proof (rule set_eqI)
  fix z
  have "z \<in> set (xs[i := y]) \<longleftrightarrow> (\<exists>j < length xs. z = (if j = i then y else xs ! j))"
    by (auto simp: in_set_conv_nth nth_list_update)
  also have "\<dots> \<longleftrightarrow> z = y \<or> (\<exists>j < length xs. j \<noteq> i \<and> z = xs ! j)"
    using assms(2) by auto
  also have "\<dots> \<longleftrightarrow> z = y \<or> (z \<in> set xs \<and> f z \<noteq> f (xs ! i))"
    using map_of_distinct_nth [OF assms(1) _ assms(2)]
    by (auto simp: in_set_conv_nth)
  finally show "z \<in> set (xs[i := y]) \<longleftrightarrow> z \<in> insert y {x \<in> set xs. f x \<noteq> f (xs ! i)}"
    by simp
qed

text \<open>The index of the first element that satisfies \<open>P\<close>: the table searches of the source.\<close>

fun first_index :: "('a \<Rightarrow> bool) \<Rightarrow> 'a list \<Rightarrow> nat option" where
  "first_index P [] = None"
| "first_index P (x # xs) = (if P x then Some 0 else map_option Suc (first_index P xs))"

lemma first_index_None: "first_index P xs = None \<longleftrightarrow> (\<forall>x \<in> set xs. \<not> P x)"
  by (induction xs) auto

lemma first_index_Some: "first_index P xs = Some i \<Longrightarrow> i < length xs \<and> P (xs ! i)"
  by (induction xs arbitrary: i) (auto split: if_splits)

lemma first_index_Some_distinct:
  assumes "distinct (map f xs)"
  shows "first_index (\<lambda>x. f x = k) xs = Some i \<longleftrightarrow> i < length xs \<and> f (xs ! i) = k"
proof
  assume r: "i < length xs \<and> f (xs ! i) = k"
  then have "\<not> (\<forall>x \<in> set xs. f x \<noteq> k)" by auto
  then obtain j where j: "first_index (\<lambda>x. f x = k) xs = Some j"
    by (auto simp flip: first_index_None)
  from first_index_Some [OF j] r have "j = i" using map_of_distinct_nth [OF assms] by metis
  with j show "first_index (\<lambda>x. f x = k) xs = Some i" by simp
qed (rule first_index_Some)

text \<open>Deleting position \<open>i\<close> by moving the tail down, as \<^verbatim>\<open>memmove\<close> does.\<close>

definition delete_at :: "nat \<Rightarrow> 'a list \<Rightarrow> 'a list" where
  "delete_at i xs = take i xs @ drop (Suc i) xs"

lemma length_delete_at: "i < length xs \<Longrightarrow> length (delete_at i xs) = length xs - 1"
  by (simp add: delete_at_def)

lemma delete_at_distinct:
  assumes "distinct (map f xs)" "i < length xs"
  shows "delete_at i xs = filter (\<lambda>x. f x \<noteq> f (xs ! i)) xs"
  using assms
proof (induction xs arbitrary: i)
  case (Cons x xs)
  show ?case
  proof (cases i)
    case 0
    have "filter (\<lambda>y. f y \<noteq> f x) xs = xs"
      using Cons.prems(1) by (intro filter_True) (auto simp: image_iff)
    then show ?thesis by (simp add: 0 delete_at_def)
  next
    case (Suc j)
    with Cons.prems have "f (xs ! j) \<in> f ` set xs" by simp
    with Cons Suc show ?thesis by (auto simp: delete_at_def)
  qed
qed simp

text \<open>Deleting position \<open>i\<close> by overwriting it with the last element.\<close>

definition swap_remove :: "nat \<Rightarrow> 'a list \<Rightarrow> 'a list" where
  "swap_remove i xs = take (length xs - 1) (xs[i := xs ! (length xs - 1)])"

lemma length_swap_remove [simp]: "length (swap_remove i xs) = length xs - 1"
  by (simp add: swap_remove_def)

lemma swap_remove_split:
  assumes "i < length xs"
  shows "swap_remove i xs =
    (if i = length xs - 1 then take i xs
     else take i xs @ [last xs] @ take (length xs - Suc (Suc i)) (drop (Suc i) xs))"
proof -
  from assms have ne: "xs \<noteq> []" by auto
  show ?thesis
    using assms ne
    by (auto simp: swap_remove_def upd_conv_take_nth_drop take_Cons' last_conv_nth min_def)
qed

lemma take_swap_remove: "i < length xs \<Longrightarrow> take i (swap_remove i xs) = take i xs"
  by (simp add: swap_remove_split)

lemma mset_drop_swap_remove:
  assumes "i < length xs"
  shows "mset (drop i (swap_remove i xs)) = mset (drop (Suc i) xs)"
proof (cases "i = length xs - 1")
  case True
  then show ?thesis using assms by (simp add: swap_remove_split)
next
  case False
  define ys where "ys = drop (Suc i) xs"
  have ne: "ys \<noteq> []" using assms False by (simp add: ys_def)
  have l: "last xs = last ys" using assms False by (simp add: ys_def last_drop)
  have t: "take (length xs - Suc (Suc i)) ys = butlast ys"
    by (simp add: ys_def butlast_conv_take)
  have "drop i (swap_remove i xs) = last ys # butlast ys"
    using assms False by (simp add: swap_remove_split l flip: ys_def) (simp add: t)
  moreover have "mset (last ys # butlast ys) = mset ys"
    using ne by (metis append_butlast_last_id mset.simps(2) union_code mset_append add.commute
        append.simps(1) mset_single_iff_right union_mset_add_mset_right mset.simps(1) add_0_right)
  ultimately show ?thesis by (simp add: ys_def)
qed

text \<open>
  The sweep that the pending-call loops share: position \<open>i\<close> is examined, removed by swapping
  in the last element and appended to \<open>out\<close> when it satisfies \<open>P\<close>, skipped otherwise.
\<close>

function sweep_out :: "('a \<Rightarrow> bool) \<Rightarrow> nat \<Rightarrow> 'a list \<Rightarrow> 'a list \<Rightarrow> 'a list \<times> 'a list" where
  "sweep_out P i xs out =
     (if i < length xs
      then if P (xs ! i) then sweep_out P i (swap_remove i xs) (out @ [xs ! i])
           else sweep_out P (Suc i) xs out
      else (out, xs))"
  by pat_completeness auto
termination
  by (relation "measure (\<lambda>(P, i, xs, out). length xs - i)") auto

declare sweep_out.simps [simp del]

lemma mset_drop_nth: "i < length xs \<Longrightarrow> mset (drop i xs) = add_mset (xs ! i) (mset (drop (Suc i) xs))"
  by (simp add: Cons_nth_drop_Suc [symmetric])

lemma mset_sweep:
  "mset (fst (sweep_out P i xs out)) = mset out + filter_mset P (mset (drop i xs))"
  "mset (snd (sweep_out P i xs out)) = mset (take i xs) + filter_mset (\<lambda>x. \<not> P x) (mset (drop i xs))"
proof (induction P i xs out rule: sweep_out.induct)
  case (1 P i xs out)
  {
    case 1
    show ?case
      by (subst sweep_out.simps) (simp add: "1.IH" mset_drop_nth mset_drop_swap_remove)
  next
    case 2
    show ?case
      by (subst sweep_out.simps)
        (simp add: "1.IH" mset_drop_nth mset_drop_swap_remove take_swap_remove take_Suc_conv_app_nth)
  }
qed

corollary sweep_whole:
  "mset (fst (sweep_out P 0 xs [])) = filter_mset P (mset xs)"
  "mset (snd (sweep_out P 0 xs [])) = filter_mset (\<lambda>x. \<not> P x) (mset xs)"
  by (simp_all add: mset_sweep)

lemma set_sweep:
  "set (fst (sweep_out P 0 xs [])) = {x \<in> set xs. P x}"
  "set (snd (sweep_out P 0 xs [])) = {x \<in> set xs. \<not> P x}"
  using sweep_whole [of P xs] by (metis mset_filter set_filter set_mset_mset)+

lemma length_sweep_le: "length (snd (sweep_out P 0 xs [])) \<le> length xs"
  using sweep_whole(2) [of P xs] by (metis mset_filter size_mset length_filter_le)

section \<open>Sockets\<close>

text \<open>Descriptors of sockets that a call obtains and closes before it returns, in order.\<close>

datatype sock_event = Sock_opened int | Sock_closed int

fun sock_opened :: "sock_event list \<Rightarrow> int list" where
  "sock_opened [] = []"
| "sock_opened (e # es) = (case e of Sock_opened fd \<Rightarrow> fd # sock_opened es | Sock_closed _ \<Rightarrow> sock_opened es)"

fun sock_closed :: "sock_event list \<Rightarrow> int list" where
  "sock_closed [] = []"
| "sock_closed (e # es) = (case e of Sock_opened _ \<Rightarrow> sock_closed es | Sock_closed fd \<Rightarrow> fd # sock_closed es)"

lemma sock_append [simp]:
  "sock_opened (a @ b) = sock_opened a @ sock_opened b" "sock_closed (a @ b) = sock_closed a @ sock_closed b"
  by (induction a) (simp_all split: sock_event.splits)

section \<open>Words\<close>

lemma unat_sub_64: "b \<le> a \<Longrightarrow> unat (a - b :: 64 word) = unat a - unat b"
  by (rule unat_sub)

lemma word_elapsed_iff:
  "b \<le> (a :: u64) \<Longrightarrow> a - b > t \<longleftrightarrow> unat a - unat b > unat t"
  by (simp add: word_less_nat_alt unat_sub)

end
