(* ===== verification/Text_Util.thy ===== *)
theory Text_Util
  imports Prelude
begin

text \<open>
  The strict text parsers and validators of \<^verbatim>\<open>src/src/libredp2p.c\<close>: decimal numbers,
  identifiers, password and session tokens, hexadecimal encoding, colon-delimited fields
  and the UDP punch packets. Each loop of the source is a recursive function over the
  remaining text; the lemmas characterise the accepted language and the result.
\<close>

section \<open>Definitions\<close>

text \<open>\<^verbatim>\<open>redp2p_parse_u\<close>: the loop keeps a 64-bit unsigned value and the unsigned limit.\<close>

fun parse_u_loop :: "u64 \<Rightarrow> string \<Rightarrow> u64 \<Rightarrow> u64 option" where
  "parse_u_loop limit [] value = Some value"
| "parse_u_loop limit (c # cs) value =
     (if \<not> is_digit c then None
      else let digit = (of_nat (ord c - ord (CHR ''0'')) :: u64)
           in if digit > limit then None
              else if value > (limit - digit) div 10 then None
              else parse_u_loop limit cs (value * 10 + digit))"

definition redp2p_parse_u :: "string option \<Rightarrow> int \<Rightarrow> int \<Rightarrow> int option" where
  "redp2p_parse_u text lo hi =
     (case text of
        None \<Rightarrow> None
      | Some t \<Rightarrow>
          if t = [] \<or> lo < 0 \<or> hi < lo then None
          else (case parse_u_loop (word_of_int hi) t 0 of
                  None \<Rightarrow> None
                | Some v \<Rightarrow> if v < word_of_int lo then None else Some (sint v)))"

definition redp2p_parse_env :: "string option \<Rightarrow> int \<Rightarrow> int \<Rightarrow> int option" where
  "redp2p_parse_env text lo hi =
     (case text of None \<Rightarrow> None
      | Some t \<Rightarrow> if t = [] then None else redp2p_parse_u (Some t) lo hi)"

fun parse_size_loop :: "string \<Rightarrow> u64 \<Rightarrow> u64 option" where
  "parse_size_loop [] value = Some value"
| "parse_size_loop (c # cs) value =
     (if \<not> is_digit c then None
      else let digit = (of_nat (ord c - ord (CHR ''0'')) :: u64)
           in if value > (- 1 - digit) div 10 then None
              else parse_size_loop cs (value * 10 + digit))"

definition redp2p_parse_size :: "string option \<Rightarrow> nat option" where
  "redp2p_parse_size text =
     (case text of None \<Rightarrow> None
      | Some t \<Rightarrow> if t = [] then None else map_option unat (parse_size_loop t 0))"

text \<open>\<^verbatim>\<open>redp2p_ascii_casecmp\<close> compares byte by byte up to the common NUL.\<close>

definition fold_case :: "char \<Rightarrow> int" where
  "fold_case c = (if is_upper c then int (ord c) - 65 + 97 else int (ord c))"

fun redp2p_ascii_casecmp :: "string \<Rightarrow> string \<Rightarrow> int" where
  "redp2p_ascii_casecmp [] [] = 0"
| "redp2p_ascii_casecmp [] (b # bs) = 0 - fold_case b"
| "redp2p_ascii_casecmp (a # as) [] = fold_case a"
| "redp2p_ascii_casecmp (a # as) (b # bs) =
     (if fold_case a \<noteq> fold_case b then fold_case a - fold_case b
      else if fold_case a = 0 then 0 else redp2p_ascii_casecmp as bs)"

definition redp2p_is_space :: "char \<Rightarrow> bool" where
  "redp2p_is_space ch \<longleftrightarrow> ch = CHR '' '' \<or> ch = CHR 0x09 \<or> ch = LF \<or> ch = CR
     \<or> ch = CHR 0x0C \<or> ch = CHR 0x0B"

definition redp2p_is_valid_id :: "string \<Rightarrow> bool" where
  "redp2p_is_valid_id t \<longleftrightarrow> t \<noteq> [] \<and> scan_token is_alnum REDP2P_ID_MAX 0 t"

definition redp2p_is_pass_char :: "char \<Rightarrow> bool" where
  "redp2p_is_pass_char ch \<longleftrightarrow> is_lower ch \<or> is_upper ch \<or> is_digit ch
     \<or> ch = CHR ''.'' \<or> ch = CHR ''_'' \<or> ch = CHR ''-'' \<or> ch = CHR ''+''
     \<or> ch = CHR ''='' \<or> ch = CHR '','' \<or> ch = CHR '':'' \<or> ch = CHR ''@''
     \<or> ch = CHR ''%'' \<or> ch = CHR ''/''"

definition redp2p_is_valid_pass_token :: "string \<Rightarrow> bool" where
  "redp2p_is_valid_pass_token t \<longleftrightarrow> t \<noteq> [] \<and> scan_token redp2p_is_pass_char REDP2P_PASS_MAX 0 t"

definition redp2p_trim :: "string \<Rightarrow> string" where
  "redp2p_trim t = rev (dropWhile redp2p_is_space (rev (dropWhile redp2p_is_space t)))"

definition redp2p_bounded_copy :: "nat \<Rightarrow> string \<Rightarrow> string" where
  "redp2p_bounded_copy cap src =
     (let len = length src; len = (if len \<ge> cap then cap - 1 else len) in take len src)"

definition redp2p_parse_field :: "nat \<Rightarrow> char option \<Rightarrow> string \<Rightarrow> (string \<times> string) option" where
  "redp2p_parse_field cap delim start =
     (if cap = 0 then None
      else case delim of
        None \<Rightarrow>
          (let len = length start
           in if len = 0 \<or> len \<ge> cap then None else Some (start, []))
      | Some d \<Rightarrow>
          (if d \<notin> set start then None
           else let field = takeWhile (\<lambda>c. c \<noteq> d) start; len = length field
                in if len = 0 \<or> len \<ge> cap then None
                   else Some (field, drop (len + 1) start)))"

definition redp2p_is_hex_token :: "string \<Rightarrow> nat \<Rightarrow> bool" where
  "redp2p_is_hex_token t len \<longleftrightarrow> length t = len \<and> list_all is_hex_digit t"

definition redp2p_is_session_token :: "string \<Rightarrow> bool" where
  "redp2p_is_session_token t \<longleftrightarrow> t \<noteq> [] \<and> scan_token is_alnum REDP2P_CTRL_SESSION_MAX 0 t"

definition redp2p_is_punch_id :: "string \<Rightarrow> bool" where
  "redp2p_is_punch_id t \<longleftrightarrow>
     t \<noteq> [] \<and> scan_token (\<lambda>c. is_alnum c \<or> c = CHR ''-'') REDP2P_ID_MAX 0 t"

definition redp2p_control_bytes_valid :: "string \<Rightarrow> bool" where
  "redp2p_control_bytes_valid data \<longleftrightarrow>
     list_all (\<lambda>c. c = CR \<or> \<not> (ord c < 0x20 \<or> ord c = 0x7f)) data"

text \<open>Hexadecimal encoding and decoding; \<open>out_cap\<close> is the size of the output buffer.\<close>

definition hex_digits :: string where
  "hex_digits = ''0123456789abcdef''"

fun hex_pairs :: "byte list \<Rightarrow> string" where
  "hex_pairs [] = []"
| "hex_pairs (b # bs) =
     hex_digits ! unat (drop_bit 4 b AND 0x0f) # hex_digits ! unat (b AND 0x0f) # hex_pairs bs"

definition redp2p_hex_encode :: "byte list \<Rightarrow> nat \<Rightarrow> string option" where
  "redp2p_hex_encode hash out_cap =
     (if out_cap < length hash * 2 + 1 then None else Some (hex_pairs hash))"

definition redp2p_hex_decode_nibble :: "char \<Rightarrow> int" where
  "redp2p_hex_decode_nibble c =
     (if is_digit c then int (ord c) - 48
      else if between (CHR ''a'') (CHR ''f'') c then int (ord c) - 97 + 10
      else if between (CHR ''A'') (CHR ''F'') c then int (ord c) - 65 + 10
      else -1)"

fun redp2p_hex_decode :: "string \<Rightarrow> nat \<Rightarrow> byte list option" where
  "redp2p_hex_decode hex 0 = Some []"
| "redp2p_hex_decode (h # l # hex) (Suc n) =
     (let hi = redp2p_hex_decode_nibble h; lo = redp2p_hex_decode_nibble l
      in if hi < 0 \<or> lo < 0 then None
         else map_option (\<lambda>bs. word_of_int (push_bit 4 hi OR lo) # bs) (redp2p_hex_decode hex n))"
| "redp2p_hex_decode _ (Suc n) = None"

text \<open>UDP punch packets: \<open>prefix session:from:to\<close>, the last field without its line end.\<close>

definition REDP2P_CTRTOK_PUNCH_PING :: string where
  "REDP2P_CTRTOK_PUNCH_PING = ''REDP2P_CTRTOK_PUNCH_PING:''"

definition REDP2P_CTRTOK_PUNCH_PONG :: string where
  "REDP2P_CTRTOK_PUNCH_PONG = ''REDP2P_CTRTOK_PUNCH_PONG:''"

definition strip_line_end :: "string \<Rightarrow> string" where
  "strip_line_end t = rev (dropWhile (\<lambda>c. c = LF \<or> c = CR) (rev t))"

definition redp2p_parse_punch_packet :: "string \<Rightarrow> string \<Rightarrow> (string \<times> string \<times> string) option" where
  "redp2p_parse_punch_packet text prefix =
     (if take (length prefix) text \<noteq> prefix then None
      else case redp2p_parse_field (REDP2P_CTRL_SESSION_MAX + 1) (Some (CHR '':''))
                  (drop (length prefix) text) of
        None \<Rightarrow> None
      | Some (sess_id, cur1) \<Rightarrow>
        (case redp2p_parse_field (REDP2P_ID_MAX + 1) (Some (CHR '':'')) cur1 of
           None \<Rightarrow> None
         | Some (from_id, cur2) \<Rightarrow>
           (case redp2p_parse_field (REDP2P_ID_MAX + 1) None cur2 of
              None \<Rightarrow> None
            | Some (to_id, cur3) \<Rightarrow>
                if cur3 \<noteq> [] then None
                else let to_id = strip_line_end to_id
                     in if redp2p_is_session_token sess_id \<and> redp2p_is_punch_id from_id
                           \<and> redp2p_is_punch_id to_id
                        then Some (sess_id, from_id, to_id) else None)))"

text \<open>The message text \<^verbatim>\<open>redp2p_punch_select\<close> prints into its 256-byte buffer.\<close>

definition punch_message :: "string \<Rightarrow> string \<Rightarrow> string \<Rightarrow> string \<Rightarrow> string" where
  "punch_message prefix session_id from_id to_id =
     take 255 (prefix @ session_id @ '':'' @ from_id @ '':'' @ to_id @ [LF])"

text \<open>The reply codes of the index and their meaning for the client.\<close>

definition redp2p_http_map_error :: "string option \<Rightarrow> int" where
  "redp2p_http_map_error code =
     (case code of None \<Rightarrow> REDP2P_EPROTO
      | Some c \<Rightarrow>
          if c = ''bad_request'' \<or> c = ''busy'' then REDP2P_EPROTO
          else if c = ''invalid_id'' then REDP2P_EINVAL
          else if c = ''auth_failed'' \<or> c = ''invalid_key'' then REDP2P_EAUTH
          else if c = ''not_found'' then REDP2P_ENOENT
          else if c = ''table_full'' then REDP2P_EFULL
          else if c = ''internal'' then REDP2P_ERROR
          else REDP2P_EPROTO)"

definition redp2p_strerror :: "int \<Rightarrow> string" where
  "redp2p_strerror code =
     (if code = REDP2P_OK then ''OK''
      else if code = REDP2P_ERROR then ''general error''
      else if code = REDP2P_ENET then ''network error''
      else if code = REDP2P_ENOENT then ''peer not found''
      else if code = REDP2P_ETIMEOUT then ''timeout''
      else if code = REDP2P_EFULL then ''peer table full''
      else if code = REDP2P_EINVAL then ''invalid argument''
      else if code = REDP2P_EPROTO then ''protocol error''
      else if code = REDP2P_EAUTH then ''authentication failed''
      else if code = REDP2P_EVERSION then ''unsupported protocol version''
      else if code = REDP2P_EPUNCH then ''direct connectivity failed''
      else ''unknown error'')"

section \<open>Decimal numbers\<close>

text \<open>The number a digit string denotes, continuing from \<open>v\<close>.\<close>

fun dec_from :: "nat \<Rightarrow> string \<Rightarrow> nat" where
  "dec_from v [] = v"
| "dec_from v (c # cs) = dec_from (v * 10 + (ord c - ord (CHR ''0''))) cs"

lemma dec_from_ge: "v \<le> dec_from v t"
proof (induction t arbitrary: v)
  case (Cons c cs)
  have "v \<le> v * 10 + (ord c - ord (CHR ''0''))" by simp
  also have "\<dots> \<le> dec_from (v * 10 + (ord c - ord (CHR ''0''))) cs" by (rule Cons.IH)
  finally show ?case by simp
qed simp

text \<open>Decimal text of a natural number, as \<^verbatim>\<open>printf\<close> writes it for \<^verbatim>\<open>%u\<close> and \<^verbatim>\<open>%d\<close>.\<close>

fun dec_text :: "nat \<Rightarrow> string" where
  "dec_text n = (if n < 10 then [char_of (48 + n)] else dec_text (n div 10) @ [char_of (48 + n mod 10)])"

declare dec_text.simps [simp del]

lemma dec_from_append: "dec_from v (s @ t) = dec_from (dec_from v s) t"
  by (induction s arbitrary: v) auto

lemma dec_text_digits: "list_all is_digit (dec_text n)"
proof (induction n rule: dec_text.induct)
  case (1 n)
  have "is_digit (char_of (48 + n))" if "n < 10" using that by (simp add: between_def)
  moreover have "is_digit (char_of (48 + n mod 10))" by (simp add: between_def)
  ultimately show ?case using 1 by (subst dec_text.simps) simp
qed

lemma dec_text_not_Nil [simp]: "dec_text n \<noteq> []"
  by (subst dec_text.simps) simp

lemma dec_from_text: "dec_from 0 (dec_text n) = n"
  by (induction n rule: dec_text.induct) (subst dec_text.simps, simp add: dec_from_append)

lemma length_dec_text_le: "n < 10 ^ k \<Longrightarrow> 0 < k \<Longrightarrow> length (dec_text n) \<le> k"
proof (induction n arbitrary: k rule: dec_text.induct)
  case (1 n)
  show ?case
  proof (cases "n < 10")
    case False
    with "1.prems" obtain j where k: "k = Suc j" "0 < j" by (cases k; cases "k - 1") auto
    have "n div 10 < 10 ^ j" using "1.prems"(1) by (simp add: k less_mult_imp_div_less mult.commute)
    with "1.IH" [OF False, of j] k show ?thesis by (subst dec_text.simps) simp
  qed (use "1.prems" in \<open>simp add: dec_text.simps\<close>)
qed

lemma digit_value: "is_digit c \<Longrightarrow> ord c - ord (CHR ''0'') \<le> 9"
  by (auto simp: between_def)

lemma nat_digit_guard: "(d::nat) \<le> L \<Longrightarrow> v > (L - d) div 10 \<longleftrightarrow> L < v * 10 + d"
  by linarith

lemma word_digit_guard:
  fixes limit val :: u64
  assumes d: "d \<le> 9" "d \<le> unat limit"
  shows "val > (limit - of_nat d) div 10 \<longleftrightarrow> unat limit < unat val * 10 + d"
proof -
  have ud: "unat (of_nat d :: u64) = d" using d(1) by (simp add: unat_of_nat)
  have "of_nat d \<le> limit" using d(2) ud by (simp add: word_le_nat_alt)
  then have "unat ((limit - of_nat d) div 10) = (unat limit - d) div 10"
    by (simp add: unat_div unat_sub ud)
  then show ?thesis
    using nat_digit_guard [OF d(2), of "unat val"] by (simp add: word_less_nat_alt)
qed

lemma word_digit_step:
  fixes val limit :: u64
  assumes "unat val * 10 + d \<le> unat limit"
  shows "unat (val * 10 + of_nat d) = unat val * 10 + d"
proof -
  have "unat limit < 2 ^ 64" using unsigned_less [of limit, where ?'a = nat] by simp
  with assms have lt: "unat val * 10 + d < 2 ^ 64" by linarith
  have "val * 10 + of_nat d = (of_nat (unat val * 10 + d) :: u64)"
    by simp
  then have "unat (val * 10 + of_nat d) = (unat val * 10 + d) mod 2 ^ 64"
    by (simp only: unat_of_nat) simp
  then show ?thesis using lt by simp
qed

lemma parse_u_loop_eq:
  "unat val \<le> unat limit \<Longrightarrow>
   parse_u_loop limit t val =
     (if list_all is_digit t \<and> dec_from (unat val) t \<le> unat limit
      then Some (of_nat (dec_from (unat val) t)) else None)"
proof (induction t arbitrary: val)
  case (Cons c cs)
  define d where "d = ord c - ord (CHR ''0'')"
  show ?case
  proof (cases "is_digit c")
    case True
    then have d9: "d \<le> 9" unfolding d_def by (rule digit_value)
    have ud: "unat (of_nat d :: u64) = d" using d9 by (simp add: unat_of_nat)
    show ?thesis
    proof (cases "unat val * 10 + d \<le> unat limit")
      case le: True
      then have dl: "d \<le> unat limit" by linarith
      have g1: "\<not> (of_nat d > limit)" using dl ud by (simp add: word_less_nat_alt)
      have g2: "\<not> (val > (limit - of_nat d) div 10)"
        using word_digit_guard [OF d9 dl, of val] le by simp
      note st = word_digit_step [OF le]
      have "parse_u_loop limit (c # cs) val = parse_u_loop limit cs (val * 10 + of_nat d)"
        using True g1 g2 by (simp add: Let_def d_def)
      then show ?thesis using Cons.IH [of "val * 10 + of_nat d"] st le True by (simp add: d_def)
    next
      case gt: False
      then have big: "\<not> dec_from (unat val) (c # cs) \<le> unat limit"
        using dec_from_ge [of "unat val * 10 + d" cs] by (simp add: d_def)
      have "parse_u_loop limit (c # cs) val = None"
      proof (cases "d \<le> unat limit")
        case True
        then have "val > (limit - of_nat d) div 10"
          using word_digit_guard [OF d9 True, of val] gt by simp
        then show ?thesis by (simp add: Let_def d_def)
      next
        case False
        then have "of_nat d > limit" using ud by (simp add: word_less_nat_alt)
        then show ?thesis by (simp add: Let_def d_def)
      qed
      with big show ?thesis by simp
    qed
  next
    case False
    then show ?thesis by simp
  qed
qed simp

lemma take_bit_int_id: "0 \<le> (k::int) \<Longrightarrow> k < 2 ^ n \<Longrightarrow> take_bit n k = k"
  by (simp add: take_bit_int_eq_self)

lemma unat_word_of_int_64: "0 \<le> k \<Longrightarrow> k < 2 ^ 63 \<Longrightarrow> unat (word_of_int k :: u64) = nat k"
  by (simp add: unsigned_of_int take_bit_int_id)

lemma sint_of_nat_small:
  assumes "int n < 2 ^ 63"
  shows "sint (of_nat n :: u64) = int n"
proof -
  have "signed_take_bit 63 (int n) = int n"
    using assms by (intro signed_take_bit_int_eq_self) simp_all
  then show ?thesis by (simp add: signed_of_nat)
qed

lemma redp2p_parse_u_eq:
  assumes "0 \<le> lo" "lo \<le> hi" "hi < 2 ^ 63"
  shows "redp2p_parse_u (Some t) lo hi =
    (if t \<noteq> [] \<and> list_all is_digit t \<and> lo \<le> int (dec_from 0 t) \<and> int (dec_from 0 t) \<le> hi
     then Some (int (dec_from 0 t)) else None)"
proof -
  have uhi: "unat (word_of_int hi :: u64) = nat hi"
    using assms by (simp add: unat_word_of_int_64)
  have ulo: "unat (word_of_int lo :: u64) = nat lo"
    using assms by (simp add: unat_word_of_int_64)
  let ?n = "dec_from 0 t"
  have loop: "parse_u_loop (word_of_int hi) t 0 =
      (if list_all is_digit t \<and> ?n \<le> nat hi then Some (of_nat ?n) else None)"
    using parse_u_loop_eq [of 0 "word_of_int hi" t] by (simp add: uhi)
  have cmp: "(of_nat ?n :: u64) < word_of_int lo \<longleftrightarrow> int ?n < lo" if "?n \<le> nat hi"
    using that assms by (auto simp: word_less_nat_alt ulo unat_of_nat)
  have sint: "sint (of_nat ?n :: u64) = int ?n" if "?n \<le> nat hi"
    using that assms by (intro sint_of_nat_small) linarith
  show ?thesis
    using assms cmp sint by (auto simp: redp2p_parse_u_def loop)
qed

lemma parse_size_loop_eq_u: "parse_size_loop t v = parse_u_loop (- 1) t v"
proof (induction t arbitrary: v)
  case (Cons c cs)
  have "\<not> (of_nat (ord c - ord (CHR ''0'')) > (- 1 :: u64))"
    by (simp add: word_le_nat_alt not_less)
  then show ?case by (simp add: Cons.IH Let_def)
qed simp

lemma redp2p_parse_size_eq:
  "redp2p_parse_size (Some t) =
    (if t \<noteq> [] \<and> list_all is_digit t \<and> dec_from 0 t \<le> SIZE_MAX
     then Some (dec_from 0 t) else None)"
proof -
  have m: "unat (- 1 :: u64) = SIZE_MAX" by (simp add: unsigned_minus_1_eq_mask mask_eq_exp_minus_1 macros)
  have "unat (of_nat n :: u64) = n" if "n \<le> SIZE_MAX" for n
    using that by (simp add: unat_of_nat macros)
  then show ?thesis
    using parse_u_loop_eq [of 0 "- 1" t]
    by (auto simp: redp2p_parse_size_def parse_size_loop_eq_u m)
qed

section \<open>Tokens\<close>

lemma redp2p_is_valid_id_iff:
  "redp2p_is_valid_id t \<longleftrightarrow> t \<noteq> [] \<and> length t \<le> 63 \<and> list_all is_alnum t"
  by (simp add: redp2p_is_valid_id_def scan_token_iff macros)

lemma redp2p_is_session_token_iff:
  "redp2p_is_session_token t \<longleftrightarrow> t \<noteq> [] \<and> length t \<le> 63 \<and> list_all is_alnum t"
  by (simp add: redp2p_is_session_token_def scan_token_iff macros)

lemma redp2p_is_punch_id_iff:
  "redp2p_is_punch_id t \<longleftrightarrow>
     t \<noteq> [] \<and> length t \<le> 63 \<and> list_all (\<lambda>c. is_alnum c \<or> c = CHR ''-'') t"
  by (simp add: redp2p_is_punch_id_def scan_token_iff macros)

lemma redp2p_is_valid_pass_token_iff:
  "redp2p_is_valid_pass_token t \<longleftrightarrow>
     t \<noteq> [] \<and> length t \<le> 255 \<and> list_all redp2p_is_pass_char t"
  by (simp add: redp2p_is_valid_pass_token_def scan_token_iff macros)

lemmas token_iffs = redp2p_is_valid_id_iff redp2p_is_session_token_iff redp2p_is_punch_id_iff
  redp2p_is_valid_pass_token_iff

lemma valid_id_punch_id: "redp2p_is_valid_id t \<Longrightarrow> redp2p_is_punch_id t"
  by (auto simp: token_iffs list_all_iff)

lemma alnum_no_NUL: "list_all is_alnum t \<Longrightarrow> NUL \<notin> set t"
  by (erule list_all_notin) simp

lemma redp2p_bounded_copy_id: "length src < cap \<Longrightarrow> redp2p_bounded_copy cap src = src"
  by (simp add: redp2p_bounded_copy_def Let_def)

lemma length_redp2p_bounded_copy: "0 < cap \<Longrightarrow> length (redp2p_bounded_copy cap src) < cap"
  by (auto simp: redp2p_bounded_copy_def Let_def)

section \<open>Hexadecimal text\<close>

lemma length_hex_pairs [simp]: "length (hex_pairs bs) = 2 * length bs"
  by (induction bs) auto

lemma hex_digit_range: "n < 16 \<Longrightarrow> hex_digits ! n \<in> set hex_digits"
  by (rule nth_mem) (simp add: hex_digits_def)

lemma hex_digits_are_hex: "c \<in> set hex_digits \<Longrightarrow> is_hex_digit c"
  by (auto simp: hex_digits_def is_hex_digit_def between_def)

lemma nibble_bound: "unat (x AND 0x0f :: byte) < 16"
proof -
  have "x AND 0x0f \<le> 0x0f" by (rule word_and_le1)
  then show ?thesis by (simp add: word_le_nat_alt)
qed

lemma list_all_hex_pairs: "list_all is_hex_digit (hex_pairs bs)"
  by (induction bs) (auto intro!: hex_digits_are_hex hex_digit_range nibble_bound)

lemma hex_pairs_token: "redp2p_is_hex_token (hex_pairs bs) (2 * length bs)"
  by (simp add: redp2p_is_hex_token_def list_all_hex_pairs)

lemma decode_nibble_digit: "n < 16 \<Longrightarrow> redp2p_hex_decode_nibble (hex_digits ! n) = int n"
proof -
  have "list_all (\<lambda>n. redp2p_hex_decode_nibble (hex_digits ! n) = int n) [0..<16]"
    by code_simp
  then show "n < 16 \<Longrightarrow> ?thesis" by (simp add: list_all_iff)
qed

lemma byte_of_nibbles:
  "word_of_int (push_bit 4 (uint (drop_bit 4 b AND 0x0f)) OR uint (b AND 0x0f)) = (b :: byte)"
proof -
  have f: "(0x0f :: byte) = mask 4" by (simp add: mask_eq_exp_minus_1)
  show ?thesis
    unfolding f by (rule bit_word_eqI) (auto simp: bit_simps)
qed

lemma redp2p_hex_decode_pairs: "redp2p_hex_decode (hex_pairs bs) (length bs) = Some bs"
  by (induction bs) (simp_all add: Let_def decode_nibble_digit nibble_bound byte_of_nibbles)

lemma hex_pairs_inj: "hex_pairs as = hex_pairs bs \<longleftrightarrow> as = bs"
proof
  assume eq: "hex_pairs as = hex_pairs bs"
  then have "length as = length bs" by (metis length_hex_pairs mult_cancel1 zero_neq_numeral)
  with eq show "as = bs" by (metis redp2p_hex_decode_pairs option.inject)
qed simp

section \<open>Fields and punch packets\<close>

lemma takeWhile_field: "d \<notin> set f \<Longrightarrow> takeWhile (\<lambda>c. c \<noteq> d) (f @ d # rest) = f"
  by (subst takeWhile_append2) auto

lemma redp2p_parse_field_delim:
  "f \<noteq> [] \<Longrightarrow> length f < cap \<Longrightarrow> d \<notin> set f \<Longrightarrow>
   redp2p_parse_field cap (Some d) (f @ d # rest) = Some (f, rest)"
  by (simp add: redp2p_parse_field_def takeWhile_field Let_def)

lemma redp2p_parse_field_final:
  "0 < cap \<Longrightarrow> redp2p_parse_field cap None t = (if t = [] \<or> length t \<ge> cap then None else Some (t, []))"
  by (simp add: redp2p_parse_field_def Let_def)

lemma strip_line_end_snoc: "LF \<notin> set t \<Longrightarrow> CR \<notin> set t \<Longrightarrow> strip_line_end (t @ [LF]) = t"
  by (cases t rule: rev_cases) (auto simp: strip_line_end_def)

lemma punch_id_chars:
  "redp2p_is_punch_id t \<Longrightarrow> CHR '':'' \<notin> set t \<and> LF \<notin> set t \<and> CR \<notin> set t"
  by (simp add: token_iffs list_all_notin [where P = "\<lambda>c. is_alnum c \<or> c = CHR ''-''"])

lemma session_token_chars: "redp2p_is_session_token t \<Longrightarrow> CHR '':'' \<notin> set t"
  by (simp add: token_iffs list_all_notin [where P = is_alnum])

lemma parse_punch_packet_fields:
  assumes "redp2p_is_session_token s" "redp2p_is_punch_id f"
  shows "redp2p_parse_punch_packet (prefix @ s @ '':'' @ f @ '':'' @ rest) prefix =
    (if rest = [] \<or> length rest \<ge> 64 then None
     else if redp2p_is_punch_id (strip_line_end rest) then Some (s, f, strip_line_end rest)
     else None)"
proof -
  have "redp2p_parse_field (REDP2P_CTRL_SESSION_MAX + 1) (Some (CHR '':'')) (s @ '':'' @ f @ '':'' @ rest)
      = Some (s, f @ '':'' @ rest)"
    using assms(1) session_token_chars [OF assms(1)]
    by (simp add: redp2p_parse_field_delim token_iffs macros)
  moreover have "redp2p_parse_field (REDP2P_ID_MAX + 1) (Some (CHR '':'')) (f @ '':'' @ rest)
      = Some (f, rest)"
    using assms(2) punch_id_chars [OF assms(2)]
    by (simp add: redp2p_parse_field_delim token_iffs macros)
  ultimately show ?thesis
    using assms
    by (simp add: redp2p_parse_punch_packet_def redp2p_parse_field_final Let_def macros)
qed

lemma punch_message_untruncated:
  assumes "redp2p_is_session_token s" "redp2p_is_punch_id f" "redp2p_is_punch_id t"
    and "length prefix \<le> 32"
  shows "punch_message prefix s f t = prefix @ s @ '':'' @ f @ '':'' @ (t @ [LF])"
proof -
  have "length (prefix @ s @ '':'' @ f @ '':'' @ t @ [LF]) \<le> 255"
    using assms by (simp add: token_iffs)
  then show ?thesis unfolding punch_message_def by (simp only: take_all append_assoc)
qed

section \<open>Properties\<close>

text \<open>
  \<^verbatim>\<open>redp2p_parse_u\<close> accepts exactly the nonempty strings of decimal digits whose
  value lies within the bounds, and returns that value: the 64-bit accumulator never wraps
  around, however long the text is.
\<close>

theorem redp2p_parse_u_exact:
  assumes "0 \<le> lo" "lo \<le> hi" "hi < 2 ^ 63"
  shows "redp2p_parse_u (Some t) lo hi = Some v \<longleftrightarrow>
    t \<noteq> [] \<and> list_all is_digit t \<and> v = int (dec_from 0 t) \<and> lo \<le> v \<and> v \<le> hi"
  by (auto simp: redp2p_parse_u_eq [OF assms])

theorem redp2p_parse_u_exact_witness:
  "redp2p_parse_u (Some ''65535'') 1 65535 = Some 65535
   \<and> redp2p_parse_u (Some ''99999999999999999999999'') 1 65535 \<noteq> Some 65535"
  using redp2p_parse_u_exact [of 1 65535 "''65535''" 65535]
    redp2p_parse_u_exact [of 1 65535 "''99999999999999999999999''" 65535]
  by (simp add: between_def)

text \<open>
  A punch packet printed by \<^verbatim>\<open>redp2p_punch_select\<close> is read back by
  \<^verbatim>\<open>redp2p_parse_punch_packet\<close> with the same session, source and destination, for every
  valid session token and every pair of identifiers whose destination is at most 62
  characters long.
\<close>

theorem punch_packet_roundtrip:
  assumes "redp2p_is_session_token s" "redp2p_is_punch_id f" "redp2p_is_punch_id t"
    and "length t \<le> 62" and "length prefix \<le> 32"
  shows "redp2p_parse_punch_packet (punch_message prefix s f t) prefix = Some (s, f, t)"
proof -
  have "strip_line_end (t @ [LF]) = t"
    using punch_id_chars [OF assms(3)] by (simp add: strip_line_end_snoc)
  then show ?thesis
    unfolding punch_message_untruncated [OF assms(1-3,5)]
    using assms parse_punch_packet_fields [OF assms(1,2), of prefix "t @ [LF]"] by simp
qed

theorem punch_packet_roundtrip_witness:
  "redp2p_parse_punch_packet (punch_message REDP2P_CTRTOK_PUNCH_PING ''0a1b'' ''c1'' ''web'')
     REDP2P_CTRTOK_PUNCH_PING = Some (''0a1b'', ''c1'', ''web'')"
  by (rule punch_packet_roundtrip)
    (simp_all add: token_iffs REDP2P_CTRTOK_PUNCH_PING_def is_alnum_def between_def)

text \<open>
  The trailing newline of the printed packet counts against the 64-byte field buffer,
  so a destination identifier of the maximal valid length 63 is always rejected: a peer
  with such an identifier never recognises a punch packet addressed to it.
\<close>

theorem punch_packet_max_id_rejected:
  assumes "redp2p_is_session_token s" "redp2p_is_punch_id f" "redp2p_is_valid_id t"
    and "length t = REDP2P_ID_MAX" and "length prefix \<le> 32"
  shows "redp2p_parse_punch_packet (punch_message prefix s f t) prefix = None"
  using parse_punch_packet_fields [OF assms(1,2), of prefix "t @ [LF]"] assms(4)
  unfolding punch_message_untruncated [OF assms(1,2) valid_id_punch_id [OF assms(3)] assms(5)]
  by (simp add: macros)

theorem punch_packet_max_id_rejected_witness:
  "redp2p_is_valid_id (replicate 63 (CHR ''a'')) \<and>
   redp2p_parse_punch_packet
     (punch_message REDP2P_CTRTOK_PUNCH_PING ''0a1b'' ''c1'' (replicate 63 (CHR ''a'')))
     REDP2P_CTRTOK_PUNCH_PING = None"
proof
  show v: "redp2p_is_valid_id (replicate 63 (CHR ''a''))"
    by (simp add: token_iffs list_all_iff is_alnum_def between_def)
  show "redp2p_parse_punch_packet
     (punch_message REDP2P_CTRTOK_PUNCH_PING ''0a1b'' ''c1'' (replicate 63 (CHR ''a'')))
     REDP2P_CTRTOK_PUNCH_PING = None"
    by (rule punch_packet_max_id_rejected [OF _ _ v])
      (simp_all add: token_iffs REDP2P_CTRTOK_PUNCH_PING_def is_alnum_def between_def macros)
qed

text \<open>
  Hexadecimal encoding round-trips: with room for the terminator,
  \<^verbatim>\<open>redp2p_hex_encode\<close> produces a token of exactly two hexadecimal digits per byte, and
  \<^verbatim>\<open>redp2p_hex_decode\<close> of that token returns the bytes.
\<close>

theorem redp2p_hex_roundtrip:
  assumes "length bs * 2 < cap"
  shows "\<exists>t. redp2p_hex_encode bs cap = Some t \<and> redp2p_is_hex_token t (2 * length bs)
    \<and> redp2p_hex_decode t (length bs) = Some bs"
  using assms by (simp add: redp2p_hex_encode_def hex_pairs_token redp2p_hex_decode_pairs)

theorem redp2p_hex_roundtrip_witness:
  "\<exists>t. redp2p_hex_encode [0xca, 0xfe] 5 = Some t \<and> redp2p_is_hex_token t 4
    \<and> redp2p_hex_decode t 2 = Some [0xca, 0xfe]"
  using redp2p_hex_roundtrip [of "[0xca, 0xfe]" 5] by (simp add: eval_nat_numeral)

end
