(* ===== verification/Candidate.thy ===== *)
theory Candidate
  imports Text_Util "HOL-Library.List_Lexorder" "HOL-Library.Product_Lexorder" "HOL-Library.Multiset"
begin

text \<open>
  Candidate endpoints: classification, local priority, ordering, and the normalisation that
  removes duplicate endpoints and sorts the list. The address parser \<^verbatim>\<open>inet_pton\<close> belongs
  to the platform's socket library; it is the parameter \<open>net\<close>, one partial function per
  address family.
\<close>

section \<open>Definitions\<close>

record inet_ops =
  pton4 :: "string \<Rightarrow> u32 option"
  pton6 :: "string \<Rightarrow> 128 word option"

datatype redp2p_candidate_type_t =
  CAND_HOST | CAND_LAN | CAND_PUBLIC | CAND_SRFLX | CAND_PRFLX | CAND_PREDICTED | CAND_PROXY

fun cand_code :: "redp2p_candidate_type_t \<Rightarrow> nat" where
  "cand_code CAND_HOST = 1"
| "cand_code CAND_LAN = 2"
| "cand_code CAND_PUBLIC = 3"
| "cand_code CAND_SRFLX = 4"
| "cand_code CAND_PRFLX = 5"
| "cand_code CAND_PREDICTED = 6"
| "cand_code CAND_PROXY = 7"

record redp2p_candidate_t =
  cand_type :: redp2p_candidate_type_t
  cand_addr :: string
  cand_port :: "16 word"
  cand_priority :: nat

text \<open>A \<^verbatim>\<open>sockaddr_storage\<close>: an IPv4 or IPv6 endpoint, or a family the code does not handle.\<close>

datatype sockaddr_storage = SA_in "16 word" u32 | SA_in6 "16 word" "128 word" | SA_other

datatype family = AF_INET | AF_INET6 | AF_UNSPEC

fun ss_family :: "sockaddr_storage \<Rightarrow> family" where
  "ss_family (SA_in _ _) = AF_INET"
| "ss_family (SA_in6 _ _) = AF_INET6"
| "ss_family SA_other = AF_UNSPEC"

fun redp2p_sockaddr_len :: "sockaddr_storage \<Rightarrow> nat" where
  "redp2p_sockaddr_len (SA_in _ _) = 16"
| "redp2p_sockaddr_len (SA_in6 _ _) = 28"
| "redp2p_sockaddr_len SA_other = 0"

fun redp2p_sockaddr_port :: "sockaddr_storage \<Rightarrow> 16 word" where
  "redp2p_sockaddr_port (SA_in p _) = p"
| "redp2p_sockaddr_port (SA_in6 p _) = p"
| "redp2p_sockaddr_port SA_other = 0"

fun redp2p_sockaddr_set_port :: "sockaddr_storage \<Rightarrow> 16 word \<Rightarrow> sockaddr_storage option" where
  "redp2p_sockaddr_set_port (SA_in _ a) p = Some (SA_in p a)"
| "redp2p_sockaddr_set_port (SA_in6 _ a) p = Some (SA_in6 p a)"
| "redp2p_sockaddr_set_port SA_other p = None"

definition redp2p_sockaddr_equal :: "sockaddr_storage \<Rightarrow> sockaddr_storage \<Rightarrow> bool" where
  "redp2p_sockaddr_equal a b =
     (if ss_family a \<noteq> ss_family b then False
      else case (a, b) of
        (SA_in p x, SA_in q y) \<Rightarrow> p = q \<and> x = y
      | (SA_in6 p x, SA_in6 q y) \<Rightarrow> p = q \<and> x = y
      | _ \<Rightarrow> False)"

definition redp2p_parse_candidate_type :: "string \<Rightarrow> redp2p_candidate_type_t option" where
  "redp2p_parse_candidate_type text =
     (if text = ''host'' then Some CAND_HOST
      else if text = ''lan'' then Some CAND_LAN
      else if text = ''public'' then Some CAND_PUBLIC
      else if text = ''srflx'' then Some CAND_SRFLX
      else None)"

definition redp2p_candidate_type_name :: "redp2p_candidate_type_t \<Rightarrow> string" where
  "redp2p_candidate_type_name type =
     (if type = CAND_LAN then ''lan''
      else if type = CAND_PUBLIC then ''public''
      else if type = CAND_SRFLX then ''srflx''
      else ''host'')"

definition redp2p_candidate_family :: "inet_ops \<Rightarrow> redp2p_candidate_t \<Rightarrow> family" where
  "redp2p_candidate_family net c =
     (if pton4 net (cand_addr c) \<noteq> None then AF_INET
      else if pton6 net (cand_addr c) \<noteq> None then AF_INET6
      else AF_UNSPEC)"

definition redp2p_candidate_priority :: "inet_ops \<Rightarrow> redp2p_candidate_t \<Rightarrow> nat" where
  "redp2p_candidate_priority net c =
     (let family = redp2p_candidate_family net c
      in if family = AF_UNSPEC then 900
         else let base = (if family = AF_INET6 then 100 else 200)
              in if cand_type c = CAND_HOST then base
                 else if cand_type c = CAND_LAN then base + 10
                 else if cand_type c = CAND_PUBLIC then base + 20
                 else if cand_type c = CAND_SRFLX then base + 30
                 else if cand_type c = CAND_PRFLX then base + 40
                 else if cand_type c = CAND_PREDICTED then base + 50
                 else 900)"

definition redp2p_candidate_sockaddr :: "inet_ops \<Rightarrow> redp2p_candidate_t \<Rightarrow> sockaddr_storage option" where
  "redp2p_candidate_sockaddr net c =
     (if cand_port c = 0 then None
      else case pton4 net (cand_addr c) of
        Some a \<Rightarrow> Some (SA_in (cand_port c) a)
      | None \<Rightarrow>
          (case pton6 net (cand_addr c) of
             Some a \<Rightarrow> Some (SA_in6 (cand_port c) a)
           | None \<Rightarrow> None))"

definition redp2p_candidate_same_endpoint ::
  "inet_ops \<Rightarrow> redp2p_candidate_t \<Rightarrow> redp2p_candidate_t \<Rightarrow> bool" where
  "redp2p_candidate_same_endpoint net a b =
     (if cand_port a \<noteq> cand_port b then False
      else if redp2p_candidate_family net a \<noteq> redp2p_candidate_family net b then False
      else case redp2p_candidate_sockaddr net a of
        None \<Rightarrow> False
      | Some aa \<Rightarrow>
          (case redp2p_candidate_sockaddr net b of
             None \<Rightarrow> False
           | Some bb \<Rightarrow> redp2p_sockaddr_equal aa bb))"

text \<open>\<^verbatim>\<open>strcmp\<close>, of which the code uses the sign.\<close>

fun strcmp :: "string \<Rightarrow> string \<Rightarrow> int" where
  "strcmp [] [] = 0"
| "strcmp [] (b # bs) = -1"
| "strcmp (a # as) [] = 1"
| "strcmp (a # as) (b # bs) =
     (if ord a < ord b then -1 else if ord b < ord a then 1 else strcmp as bs)"

definition redp2p_candidate_compare :: "redp2p_candidate_t \<Rightarrow> redp2p_candidate_t \<Rightarrow> int" where
  "redp2p_candidate_compare a b =
     (if cand_priority a \<noteq> cand_priority b
      then (if cand_priority a < cand_priority b then -1 else 1)
      else if cand_type a \<noteq> cand_type b
      then int (cand_code (cand_type a)) - int (cand_code (cand_type b))
      else let cmp = strcmp (cand_addr a) (cand_addr b)
           in if cmp \<noteq> 0 then cmp
              else int (unat (cand_port a)) - int (unat (cand_port b)))"

text \<open>
  \<^verbatim>\<open>redp2p_normalize_candidates\<close>: the first loop keeps a duplicate-free prefix (an equal
  endpoint is replaced when the new candidate sorts before it); the second is an insertion
  sort that shifts from the right end of the sorted prefix, here kept reversed.
\<close>

fun keep_candidate ::
  "inet_ops \<Rightarrow> redp2p_candidate_t \<Rightarrow> redp2p_candidate_t list \<Rightarrow> redp2p_candidate_t list" where
  "keep_candidate net c [] = [c]"
| "keep_candidate net c (k # ks) =
     (if \<not> redp2p_candidate_same_endpoint net k c then k # keep_candidate net c ks
      else (if redp2p_candidate_compare c k < 0 then c else k) # ks)"

fun normalize_loop ::
  "inet_ops \<Rightarrow> redp2p_candidate_t list \<Rightarrow> redp2p_candidate_t list \<Rightarrow> redp2p_candidate_t list option" where
  "normalize_loop net [] kept = Some kept"
| "normalize_loop net (c # cs) kept =
     (if cand_port c = 0 then None
      else if redp2p_candidate_family net c = AF_UNSPEC then None
      else let c = c\<lparr>cand_priority := redp2p_candidate_priority net c\<rparr>
           in if cand_priority c \<ge> 900 then None
              else normalize_loop net cs (keep_candidate net c kept))"

fun shift_insert ::
  "redp2p_candidate_t \<Rightarrow> redp2p_candidate_t list \<Rightarrow> redp2p_candidate_t list" where
  "shift_insert item [] = [item]"
| "shift_insert item (x # xs) =
     (if redp2p_candidate_compare item x < 0 then x # shift_insert item xs else item # x # xs)"

definition redp2p_normalize_candidates ::
  "inet_ops \<Rightarrow> redp2p_candidate_t list \<Rightarrow> redp2p_candidate_t list option" where
  "redp2p_normalize_candidates net cands =
     (if length cands > REDP2P_CANDIDATES_MAX then None
      else case normalize_loop net cands [] of
        None \<Rightarrow> None
      | Some kept \<Rightarrow> Some (rev (fold shift_insert kept [])))"

text \<open>
  \<^verbatim>\<open>redp2p_gather_candidates\<close>. The socket calls are its inputs: \<open>udp_sa\<close> is the result of
  \<^verbatim>\<open>getsockname\<close> (\<open>None\<close> on failure), \<open>probe\<close> the descriptor of the
  probe socket and the address found when it was connected, \<open>stun\<close> the outcome of \<^verbatim>\<open>redp2p_stun_binding\<close>.
\<close>

definition add_candidate ::
  "inet_ops \<Rightarrow> nat \<Rightarrow> redp2p_candidate_type_t \<Rightarrow> string \<Rightarrow> 16 word \<Rightarrow> redp2p_candidate_t list
     \<Rightarrow> redp2p_candidate_t list" where
  "add_candidate net out_cap type addr port out =
     (if length out < out_cap
      then let c = \<lparr>cand_type = type, cand_addr = addr, cand_port = port, cand_priority = 0\<rparr>
           in out @ [c\<lparr>cand_priority := redp2p_candidate_priority net c\<rparr>]
      else out)"

definition local_address :: "int \<times> string option \<Rightarrow> string option \<times> sock_event list" where
  "local_address probe =
     (case probe of (test_fd, ip) \<Rightarrow> if test_fd < 0 then (None, []) else (ip, [Sock_opened test_fd, Sock_closed test_fd]))"

definition redp2p_gather_candidates ::
  "inet_ops \<Rightarrow> string \<Rightarrow> sockaddr_storage option \<Rightarrow> int \<times> string option \<Rightarrow> (string \<times> 16 word) option \<Rightarrow> nat
     \<Rightarrow> int \<times> redp2p_candidate_t list \<times> sock_event list" where
  "redp2p_gather_candidates net stun_url udp_sa probe stun out_cap =
     (let (out, evs) =
        (case udp_sa of
           None \<Rightarrow> ([], [])
         | Some sa \<Rightarrow>
             let udp_port = redp2p_sockaddr_port sa;
                 out = add_candidate net out_cap CAND_HOST
                         (if ss_family sa = AF_INET6 then ''::1'' else ''127.0.0.1'') udp_port [];
                 (local_ip, evs) = local_address probe;
                 out = (case local_ip of
                          None \<Rightarrow> out
                        | Some ip \<Rightarrow>
                            if ip \<noteq> ''127.0.0.1'' \<and> ip \<noteq> ''0.0.0.0''
                            then add_candidate net out_cap CAND_LAN ip udp_port out else out);
                 (stun_ip, stun_port) =
                   (if stun_url \<noteq> [] then (case stun of None \<Rightarrow> ([], 0) | Some r \<Rightarrow> r) else ([], 0))
             in (if stun_ip \<noteq> []
                 then add_candidate net out_cap CAND_SRFLX (take 47 stun_ip)
                        (if stun_port \<noteq> 0 then stun_port else udp_port) out
                 else out, evs))
      in case redp2p_normalize_candidates net out of
           None \<Rightarrow> (REDP2P_ERROR, out, evs)
         | Some cs \<Rightarrow> (REDP2P_OK, cs, evs))"

lemma gather_candidates_balanced:
  "redp2p_gather_candidates net url sa probe stun cap = (rc, cs, evs) \<Longrightarrow> sock_opened evs = sock_closed evs"
  by (auto simp: redp2p_gather_candidates_def local_address_def Let_def split: option.splits prod.splits if_splits)

section \<open>The comparison is a total order on keys\<close>

definition cand_key :: "redp2p_candidate_t \<Rightarrow> nat \<times> nat \<times> nat list \<times> nat" where
  "cand_key c = (cand_priority c, cand_code (cand_type c), map ord (cand_addr c), unat (cand_port c))"

lemma strcmp_less: "strcmp a b < 0 \<longleftrightarrow> map ord a < (map ord b :: nat list)"
  by (induction a b rule: strcmp.induct) auto

lemma strcmp_zero: "strcmp a b = 0 \<longleftrightarrow> a = b"
  by (induction a b rule: strcmp.induct) auto

lemma cand_code_inj: "cand_code a = cand_code b \<longleftrightarrow> a = b"
  by (cases a; cases b) simp_all

lemma map_ord_inj: "map ord a = (map ord b :: nat list) \<longleftrightarrow> a = b"
  by (simp add: inj_map_eq_map inj_on_def)

lemma compare_less: "redp2p_candidate_compare a b < 0 \<longleftrightarrow> cand_key a < cand_key b"
proof -
  have "unat (cand_port a) < unat (cand_port b) \<longleftrightarrow> uint (cand_port a) < uint (cand_port b)"
    by (simp flip: word_less_nat_alt word_less_def)
  then show ?thesis
    using cand_code_inj [of "cand_type a" "cand_type b"]
    by (auto simp: redp2p_candidate_compare_def cand_key_def Let_def strcmp_less strcmp_zero
        map_ord_inj order_le_less)
qed

lemma cand_key_inj: "cand_key a = cand_key b \<longleftrightarrow> a = b"
  by (auto simp: cand_key_def cand_code_inj map_ord_inj word_unat_eq_iff
      intro!: redp2p_candidate_t.equality)

section \<open>Normalisation\<close>

text \<open>Candidates the normaliser accepts, and the form in which it keeps them.\<close>

definition usable :: "inet_ops \<Rightarrow> redp2p_candidate_t \<Rightarrow> bool" where
  "usable net c \<longleftrightarrow> cand_port c \<noteq> 0 \<and> redp2p_candidate_family net c \<noteq> AF_UNSPEC
     \<and> cand_type c \<noteq> CAND_PROXY"

definition ranked :: "inet_ops \<Rightarrow> redp2p_candidate_t \<Rightarrow> redp2p_candidate_t" where
  "ranked net c = c\<lparr>cand_priority := redp2p_candidate_priority net c\<rparr>"

abbreviation endpoint :: "inet_ops \<Rightarrow> redp2p_candidate_t \<Rightarrow> sockaddr_storage option" where
  "endpoint \<equiv> redp2p_candidate_sockaddr"

lemma ranked_simps [simp]:
  "cand_port (ranked net c) = cand_port c" "cand_addr (ranked net c) = cand_addr c"
  "cand_type (ranked net c) = cand_type c" "endpoint net (ranked net c) = endpoint net c"
  "redp2p_candidate_family net (ranked net c) = redp2p_candidate_family net c"
  by (simp_all add: ranked_def redp2p_candidate_sockaddr_def redp2p_candidate_family_def
      split: option.split)

lemma priority_bound: "redp2p_candidate_priority net c \<ge> 900 \<longleftrightarrow>
    redp2p_candidate_family net c = AF_UNSPEC \<or> cand_type c = CAND_PROXY"
  by (cases "cand_type c") (simp_all add: redp2p_candidate_priority_def Let_def)

lemma usable_endpoint: "usable net c \<longleftrightarrow> endpoint net c \<noteq> None \<and> cand_type c \<noteq> CAND_PROXY"
  by (auto simp: usable_def redp2p_candidate_sockaddr_def redp2p_candidate_family_def
      split: option.splits if_splits)

lemma usable_ranked [simp]: "usable net (ranked net c) = usable net c"
  by (simp add: usable_def)

lemma same_endpoint_iff:
  assumes "usable net a" "usable net b"
  shows "redp2p_candidate_same_endpoint net a b \<longleftrightarrow> endpoint net a = endpoint net b"
  using assms
  by (auto simp: usable_def redp2p_candidate_same_endpoint_def redp2p_candidate_sockaddr_def
      redp2p_candidate_family_def redp2p_sockaddr_equal_def split: option.splits if_splits)

lemma normalize_loop_eq:
  "normalize_loop net cs kept =
     (if list_all (usable net) cs then Some (fold (keep_candidate net) (map (ranked net) cs) kept) else None)"
proof (induction cs arbitrary: kept)
  case (Cons c cs)
  have "cand_priority (ranked net c) \<ge> 900 \<longleftrightarrow> cand_type c = CAND_PROXY" if "redp2p_candidate_family net c \<noteq> AF_UNSPEC"
    using that by (simp add: ranked_def priority_bound)
  then show ?case by (auto simp: Cons.IH usable_def Let_def simp flip: ranked_def)
qed simp

text \<open>The kept list has one candidate per endpoint, the least one seen for it.\<close>

definition kept_for :: "inet_ops \<Rightarrow> redp2p_candidate_t set \<Rightarrow> redp2p_candidate_t list \<Rightarrow> bool" where
  "kept_for net S ks \<longleftrightarrow> distinct (map (endpoint net) ks) \<and> set ks \<subseteq> S \<and>
     (\<forall>c \<in> S. \<exists>k \<in> set ks. endpoint net k = endpoint net c \<and> cand_key k \<le> cand_key c)"

lemma keep_candidate_endpoints:
  assumes "usable net c" "\<forall>k \<in> set ks. usable net k"
  shows "map (endpoint net) (keep_candidate net c ks) =
    (if endpoint net c \<in> endpoint net ` set ks then map (endpoint net) ks
     else map (endpoint net) ks @ [endpoint net c])"
  using assms(2) by (induction ks) (auto simp: same_endpoint_iff assms(1))

lemma set_keep_candidate: "set (keep_candidate net c ks) \<subseteq> insert c (set ks)"
  by (induction ks) auto

lemma keep_candidate_dominates:
  assumes "usable net c" "\<forall>k \<in> set ks. usable net k"
  shows "\<forall>x \<in> insert c (set ks). \<exists>k \<in> set (keep_candidate net c ks).
    endpoint net k = endpoint net x \<and> cand_key k \<le> cand_key x"
  using assms(2)
proof (induction ks)
  case (Cons k ks)
  then show ?case
    by (fastforce simp: same_endpoint_iff assms(1) compare_less not_less)
qed simp

lemma kept_for_insert:
  assumes "kept_for net S ks" "\<forall>c \<in> S. usable net c" "usable net c"
  shows "kept_for net (insert c S) (keep_candidate net c ks)"
proof -
  have u: "\<forall>k \<in> set ks. usable net k" using assms by (auto simp: kept_for_def)
  have d: "distinct (map (endpoint net) (keep_candidate net c ks))"
    using assms(1) by (simp add: keep_candidate_endpoints [OF assms(3) u] kept_for_def)
  have s: "set (keep_candidate net c ks) \<subseteq> insert c S"
    using set_keep_candidate assms(1) by (fastforce simp: kept_for_def)
  note dom = keep_candidate_dominates [OF assms(3) u]
  have "\<exists>k \<in> set (keep_candidate net c ks). endpoint net k = endpoint net x \<and> cand_key k \<le> cand_key x"
    if x: "x \<in> insert c S" for x
  proof (cases "x = c")
    case True
    then show ?thesis using dom by blast
  next
    case False
    with x assms(1) obtain y where y: "y \<in> set ks" "endpoint net y = endpoint net x" "cand_key y \<le> cand_key x"
      by (auto simp: kept_for_def)
    with dom obtain k where "k \<in> set (keep_candidate net c ks)" "endpoint net k = endpoint net y"
      "cand_key k \<le> cand_key y" by blast
    with y show ?thesis by (metis order_trans)
  qed
  with d s show ?thesis by (simp add: kept_for_def)
qed

lemma kept_for_fold:
  "kept_for net S ks \<Longrightarrow> \<forall>c \<in> S. usable net c \<Longrightarrow> \<forall>c \<in> set cs. usable net c \<Longrightarrow>
   kept_for net (S \<union> set cs) (fold (keep_candidate net) cs ks)"
proof (induction cs arbitrary: S ks)
  case (Cons c cs)
  have "kept_for net (insert c S) (keep_candidate net c ks)"
    using Cons.prems by (intro kept_for_insert) auto
  from Cons.IH [OF this] Cons.prems show ?case by (simp add: insert_commute Un_insert_left)
qed simp

lemma mset_shift_insert: "mset (shift_insert x xs) = add_mset x (mset xs)"
  by (induction xs) auto

lemma sorted_shift_insert:
  "sorted (rev (map cand_key xs)) \<Longrightarrow> sorted (rev (map cand_key (shift_insert x xs)))"
proof (induction xs)
  case (Cons y ys)
  have "set (shift_insert x ys) = insert x (set ys)"
    using mset_shift_insert [of x ys] by (metis set_mset_add_mset_insert set_mset_mset)
  with Cons show ?case
    by (auto simp: sorted_append compare_less)
qed simp

lemma insertion_sort_props:
  "sorted (rev (map cand_key acc)) \<Longrightarrow> sorted (rev (map cand_key (fold shift_insert xs acc)))"
  "mset (fold shift_insert xs acc) = mset xs + mset acc"
proof -
  show "sorted (rev (map cand_key acc)) \<Longrightarrow> sorted (rev (map cand_key (fold shift_insert xs acc)))"
    by (induction xs arbitrary: acc) (simp_all add: sorted_shift_insert)
  show "mset (fold shift_insert xs acc) = mset xs + mset acc"
    by (induction xs arbitrary: acc) (simp_all add: mset_shift_insert)
qed

lemma kept_for_mset:
  assumes "kept_for net S ks" "mset ks' = mset ks"
  shows "kept_for net S ks'"
proof -
  have "set ks' = set ks" using assms(2) by (rule mset_eq_setD)
  moreover have "distinct (map (endpoint net) ks')"
    using assms by (metis kept_for_def mset_eq_imp_distinct_iff mset_map)
  ultimately show ?thesis using assms(1) by (simp add: kept_for_def)
qed

lemma normalize_candidates_spec:
  assumes "redp2p_normalize_candidates net cs = Some out"
  shows "sorted (map cand_key out)" "kept_for net (ranked net ` set cs) out"
    "list_all (usable net) cs" "length cs \<le> REDP2P_CANDIDATES_MAX"
proof -
  let ?ks = "fold (keep_candidate net) (map (ranked net) cs) []"
  have u: "list_all (usable net) cs" and l: "length cs \<le> REDP2P_CANDIDATES_MAX"
    and out: "out = rev (fold shift_insert ?ks [])"
    using assms by (auto simp: redp2p_normalize_candidates_def normalize_loop_eq split: if_splits)
  show "list_all (usable net) cs" "length cs \<le> REDP2P_CANDIDATES_MAX" by (fact u, fact l)
  have "kept_for net ({} \<union> set (map (ranked net) cs)) ?ks"
    using u by (intro kept_for_fold) (auto simp: kept_for_def list_all_iff)
  moreover have "mset out = mset ?ks" by (simp add: out insertion_sort_props(2))
  ultimately show "kept_for net (ranked net ` set cs) out"
    using kept_for_mset by fastforce
  show "sorted (map cand_key out)"
    using insertion_sort_props(1) [of "[]" ?ks] by (simp add: out rev_map)
qed

section \<open>Properties\<close>

text \<open>
  C32: \<^verbatim>\<open>redp2p_normalize_candidates\<close> succeeds exactly on lists of at most 16 candidates
  that all have a nonzero port, a literal address and a rankable type; the result is sorted
  by the comparison, has no two candidates with the same endpoint, contains only input
  candidates with their recomputed priority, and for every input candidate it holds one
  with the same endpoint that does not sort after it.
\<close>

theorem redp2p_normalize_candidates_correct:
  "(redp2p_normalize_candidates net cs \<noteq> None \<longleftrightarrow>
      length cs \<le> REDP2P_CANDIDATES_MAX \<and> list_all (usable net) cs)
   \<and> (\<forall>out. redp2p_normalize_candidates net cs = Some out \<longrightarrow>
        sorted (map cand_key out) \<and> distinct (map (redp2p_candidate_sockaddr net) out) \<and>
        set out \<subseteq> ranked net ` set cs \<and>
        (\<forall>c \<in> set cs. \<exists>k \<in> set out. redp2p_candidate_sockaddr net k = redp2p_candidate_sockaddr net c
           \<and> \<not> redp2p_candidate_compare (ranked net c) k < 0))"
proof (intro conjI allI impI)
  show "redp2p_normalize_candidates net cs \<noteq> None \<longleftrightarrow>
      length cs \<le> REDP2P_CANDIDATES_MAX \<and> list_all (usable net) cs"
    by (simp add: redp2p_normalize_candidates_def normalize_loop_eq)
next
  fix out assume "redp2p_normalize_candidates net cs = Some out"
  note spec = normalize_candidates_spec [OF this]
  show "sorted (map cand_key out)" by (fact spec(1))
  show "distinct (map (redp2p_candidate_sockaddr net) out)" "set out \<subseteq> ranked net ` set cs"
    using spec(2) by (simp_all add: kept_for_def)
  show "\<forall>c \<in> set cs. \<exists>k \<in> set out. redp2p_candidate_sockaddr net k = redp2p_candidate_sockaddr net c
           \<and> \<not> redp2p_candidate_compare (ranked net c) k < 0"
    using spec(2) by (simp add: kept_for_def compare_less not_less)
qed

text \<open>The address parser of the witnesses: two IPv4 literals and one IPv6 literal.\<close>

definition demo_net :: inet_ops where
  "demo_net = \<lparr>pton4 = (\<lambda>s. if s = ''127.0.0.1'' then Some 0x7f000001
                          else if s = ''10.0.0.7'' then Some 0x0a000007 else None),
              pton6 = (\<lambda>s. if s = ''::1'' then Some 1 else None)\<rparr>"

definition demo_cand :: "redp2p_candidate_type_t \<Rightarrow> string \<Rightarrow> 16 word \<Rightarrow> redp2p_candidate_t" where
  "demo_cand ty a p = \<lparr>cand_type = ty, cand_addr = a, cand_port = p, cand_priority = 0\<rparr>"

theorem redp2p_normalize_candidates_correct_witness:
  "redp2p_normalize_candidates demo_net
     [demo_cand CAND_SRFLX ''10.0.0.7'' 9, demo_cand CAND_LAN ''10.0.0.7'' 9, demo_cand CAND_HOST ''::1'' 4]
   \<noteq> None"
  using redp2p_normalize_candidates_correct [of demo_net
      "[demo_cand CAND_SRFLX ''10.0.0.7'' 9, demo_cand CAND_LAN ''10.0.0.7'' 9, demo_cand CAND_HOST ''::1'' 4]"]
  by (simp add: usable_def demo_cand_def demo_net_def redp2p_candidate_family_def macros)

lemma parse_type_name:
  "redp2p_parse_candidate_type t = Some ty \<Longrightarrow>
   redp2p_candidate_type_name ty = t \<and> ty \<in> {CAND_HOST, CAND_LAN, CAND_PUBLIC, CAND_SRFLX}"
  by (auto simp: redp2p_parse_candidate_type_def redp2p_candidate_type_name_def split: if_splits)

lemma parse_type_of_name:
  "ty \<in> {CAND_HOST, CAND_LAN, CAND_PUBLIC, CAND_SRFLX} \<Longrightarrow>
   redp2p_parse_candidate_type (redp2p_candidate_type_name ty) = Some ty"
  by (auto simp: redp2p_parse_candidate_type_def redp2p_candidate_type_name_def)

end
