(* ===== verification/Registry.thy ===== *)
theory Registry
  imports Text_Util Candidate
begin

text \<open>
  The context of \<^verbatim>\<open>src/src/libredp2p.c\<close> (\<^verbatim>\<open>struct redp2p\<close>) and the operations on its
  tables: configuration setters, reserved (VIP) seats, online publishers and pending punch
  calls. A table with its count is a list (the live prefix of the C array); the allocated
  capacity is kept beside it, so that the invariant \<open>length \<le> capacity\<close> is the absence of
  out-of-bounds writes. Time is the monotonic clock in seconds at 64 bits, an argument of
  every operation that reads it; \<open>alloc n\<close> tells whether an allocation of \<open>n\<close> bytes succeeds;
  random bytes are an argument, \<open>None\<close> when the source fails. A context pointer is never null.
\<close>

section \<open>State\<close>

record redp2p_vip_entry_t =
  vip_id :: string
  vip_pass :: string

record redp2p_peer_t =
  peer_id :: string
  peer_key :: string
  last_seen :: u64
  peer_proto :: int
  peer_udp_port :: "16 word"
  peer_candidates :: "redp2p_candidate_t list"

record redp2p_pending_call_t =
  caller_id :: string
  target_id :: string
  sess_id :: string
  call_candidates :: "redp2p_candidate_t list"
  call_ts :: u64

record redp2p_index_conn_t =
  conn_fd :: int
  conn_buf :: string
  conn_ts :: u64

record redp2p =
  peers :: "redp2p_peer_t list"
  peers_alloc :: nat
  n_peers_cap :: nat
  nonvip_cap :: nat
  seats_set :: bool
  vips :: "redp2p_vip_entry_t list"
  vips_cap :: nat
  conns :: "redp2p_index_conn_t list"
  conns_cap :: nat
  ctx_key :: string
  ctx_pass :: string
  pow_bits :: int
  bind_port :: "16 word"
  explicit_port :: bool
  ctx_proto :: int
  ctx_sweep :: int
  stun_url :: string
  state_dir :: string
  err_buf :: string
  fault_drop_counter :: int
  fault_reorder_counter :: int
  prune_interval_s :: u64
  etimeout_sec :: u64
  heartbeat_s :: u64
  punch_poll_ms :: u64
  pending_calls :: "redp2p_pending_call_t list"
  stop_requested :: bool

section \<open>Opening and configuring a context\<close>

text \<open>
  One environment override of \<^verbatim>\<open>redp2p_open\<close>: \<^verbatim>\<open>v\<close> starts at zero,
  \<^verbatim>\<open>redp2p_parse_u\<close> returns 1 and writes it or returns 0 and leaves it, and the result is
  compared with \<^verbatim>\<open>REDP2P_OK\<close>.
\<close>

definition env_override :: "(string \<Rightarrow> string option) \<Rightarrow> string \<Rightarrow> int \<Rightarrow> int \<Rightarrow> u64 \<Rightarrow> u64" where
  "env_override getenv name lo hi dflt =
     (case getenv name of
        None \<Rightarrow> dflt
      | Some env \<Rightarrow>
          let (rc, v) = (case redp2p_parse_u (Some env) lo hi of None \<Rightarrow> (0, 0) | Some n \<Rightarrow> (1, n))
          in if rc = REDP2P_OK then word_of_int v else dflt)"

definition redp2p_open :: "(string \<Rightarrow> string option) \<Rightarrow> bool \<Rightarrow> redp2p option" where
  "redp2p_open getenv calloc_ok =
     (if \<not> calloc_ok then None
      else Some
        \<lparr>peers = [], peers_alloc = 0, n_peers_cap = 0, nonvip_cap = 0, seats_set = False,
         vips = [], vips_cap = 0, conns = [], conns_cap = 0, ctx_key = [], ctx_pass = [],
         pow_bits = 0, bind_port = 0, explicit_port = False, ctx_proto = REDP2P_PROTO_TCP,
         ctx_sweep = 0, stun_url = [], state_dir = [], err_buf = [],
         fault_drop_counter = 0, fault_reorder_counter = 0,
         prune_interval_s = env_override getenv ''REDP2P_PRUNE_INTERVAL_S'' 1 3600 60,
         etimeout_sec = env_override getenv ''REDP2P_ETIMEOUT_SEC'' 1 86400 120,
         heartbeat_s = env_override getenv ''REDP2P_HEARTBEAT_S'' 1 3600 15,
         punch_poll_ms = env_override getenv ''REDP2P_PUNCH_POLL_MS'' 10 60000 500,
         pending_calls = [], stop_requested = False\<rparr>)"

definition redp2p_stop :: "redp2p \<Rightarrow> redp2p" where
  "redp2p_stop ctx = ctx\<lparr>stop_requested := True\<rparr>"

definition redp2p_set_error :: "string option \<Rightarrow> redp2p \<Rightarrow> redp2p" where
  "redp2p_set_error msg ctx =
     ctx\<lparr>err_buf := (case msg of None \<Rightarrow> [] | Some m \<Rightarrow> take 255 m)\<rparr>"

definition redp2p_find_vip :: "redp2p \<Rightarrow> string \<Rightarrow> nat option" where
  "redp2p_find_vip ctx pid = first_index (\<lambda>v. vip_id v = pid) (vips ctx)"

definition redp2p_update_nonvip_cap :: "redp2p \<Rightarrow> redp2p" where
  "redp2p_update_nonvip_cap ctx =
     (if length (vips ctx) \<ge> n_peers_cap ctx then ctx\<lparr>nonvip_cap := 0\<rparr>
      else ctx\<lparr>nonvip_cap := n_peers_cap ctx - length (vips ctx)\<rparr>)"

definition redp2p_set_seats :: "redp2p \<Rightarrow> nat \<Rightarrow> int \<times> redp2p" where
  "redp2p_set_seats ctx seats =
     (if seats > SIZE_MAX div sizeof_peer
      then (REDP2P_EINVAL, redp2p_set_error (Some ''seats exceeds the platform allocation range'') ctx)
      else let ctx = ctx\<lparr>n_peers_cap := seats\<rparr>;
               ctx = ctx\<lparr>seats_set := True\<rparr>;
               ctx = redp2p_update_nonvip_cap ctx
           in (REDP2P_OK, redp2p_set_error None ctx))"

definition redp2p_set_pow :: "redp2p \<Rightarrow> int \<Rightarrow> int \<times> redp2p" where
  "redp2p_set_pow ctx bits =
     (if bits < 0 \<or> bits > REDP2P_POW_MAX
      then (REDP2P_EINVAL, redp2p_set_error (Some ''pow must be between 0 and 32'') ctx)
      else (REDP2P_OK, redp2p_set_error None (ctx\<lparr>pow_bits := bits\<rparr>)))"

definition redp2p_set_port :: "redp2p \<Rightarrow> 16 word \<Rightarrow> int \<times> redp2p" where
  "redp2p_set_port ctx port =
     (if port = 0
      then (REDP2P_EINVAL, redp2p_set_error (Some ''port must be between 1 and 65535'') ctx)
      else (REDP2P_OK, redp2p_set_error None (ctx\<lparr>bind_port := port, explicit_port := True\<rparr>)))"

definition redp2p_set_protocol :: "redp2p \<Rightarrow> int \<Rightarrow> int \<times> redp2p" where
  "redp2p_set_protocol ctx proto =
     (if proto \<noteq> REDP2P_PROTO_TCP \<and> proto \<noteq> REDP2P_PROTO_UDP
      then (REDP2P_EINVAL, redp2p_set_error
              (Some ''protocol must be REDP2P_PROTO_TCP or REDP2P_PROTO_UDP'') ctx)
      else (REDP2P_OK, redp2p_set_error None (ctx\<lparr>ctx_proto := proto\<rparr>)))"

definition redp2p_set_sweep :: "redp2p \<Rightarrow> int \<Rightarrow> int \<times> redp2p" where
  "redp2p_set_sweep ctx sweep =
     (if sweep < 0 \<or> sweep > REDP2P_SWEEP_MAX
      then (REDP2P_EINVAL, redp2p_set_error (Some ''sweep must be between 0 and 1024'') ctx)
      else (REDP2P_OK, redp2p_set_error None (ctx\<lparr>ctx_sweep := sweep\<rparr>)))"

definition redp2p_resolve_port :: "redp2p \<Rightarrow> 16 word \<Rightarrow> 16 word option" where
  "redp2p_resolve_port ctx arg_port =
     (if arg_port = 0 then Some (bind_port ctx)
      else if explicit_port ctx \<and> bind_port ctx \<noteq> 0 \<and> bind_port ctx \<noteq> arg_port then None
      else Some arg_port)"

definition redp2p_set_pass :: "redp2p \<Rightarrow> string option \<Rightarrow> int \<times> redp2p" where
  "redp2p_set_pass ctx pass =
     (case pass of
        None \<Rightarrow> (REDP2P_EINVAL, redp2p_set_error (Some ''registration password contains invalid bytes'') ctx)
      | Some p \<Rightarrow>
          if p \<noteq> [] \<and> \<not> redp2p_is_valid_pass_token p
          then (REDP2P_EINVAL, redp2p_set_error (Some ''registration password contains invalid bytes'') ctx)
          else (REDP2P_OK, redp2p_set_error None (ctx\<lparr>ctx_pass := take REDP2P_PASS_MAX p\<rparr>)))"

definition redp2p_set_stun_url :: "redp2p \<Rightarrow> string option \<Rightarrow> int \<times> redp2p" where
  "redp2p_set_stun_url ctx url =
     (case url of Some u \<Rightarrow> (REDP2P_OK, ctx\<lparr>stun_url := take 511 u\<rparr>)
      | None \<Rightarrow> (REDP2P_OK, ctx\<lparr>stun_url := []\<rparr>))"

definition redp2p_set_state_dir :: "redp2p \<Rightarrow> string option \<Rightarrow> int \<times> redp2p" where
  "redp2p_set_state_dir ctx dir =
     (case dir of
        None \<Rightarrow> (REDP2P_EINVAL, ctx)
      | Some d \<Rightarrow>
          if d = [] then (REDP2P_OK, redp2p_set_error None (ctx\<lparr>state_dir := []\<rparr>))
          else if length d \<ge> REDP2P_STATE_DIR_MAX + 1
          then (REDP2P_EINVAL, redp2p_set_error (Some ''state_dir path is too long'') ctx)
          else (REDP2P_OK, redp2p_set_error None (ctx\<lparr>state_dir := d\<rparr>)))"

section \<open>Reserved seats\<close>

definition redp2p_add_vip :: "(nat \<Rightarrow> bool) \<Rightarrow> redp2p \<Rightarrow> string \<Rightarrow> string \<Rightarrow> int \<times> redp2p" where
  "redp2p_add_vip alloc ctx pid pass =
     (if \<not> redp2p_is_valid_id pid then (REDP2P_ERROR, ctx)
      else if \<not> redp2p_is_valid_pass_token pass then (REDP2P_ERROR, ctx)
      else if redp2p_find_vip ctx pid \<noteq> None then (REDP2P_ERROR, ctx)
      else let grown =
             (if length (vips ctx) \<ge> vips_cap ctx
              then if vips_cap ctx > SIZE_MAX div 2 then None
                   else let cap = (if vips_cap ctx > 0 then vips_cap ctx * 2 else 8)
                        in if cap > SIZE_MAX div sizeof_vip then None
                           else if \<not> alloc (cap * sizeof_vip) then None
                           else Some (ctx\<lparr>vips_cap := cap\<rparr>)
              else Some ctx)
           in case grown of
                None \<Rightarrow> (REDP2P_ERROR, ctx)
              | Some ctx \<Rightarrow>
                  (REDP2P_OK, ctx\<lparr>vips := vips ctx @
                     [\<lparr>vip_id = take REDP2P_ID_MAX pid, vip_pass = take REDP2P_PASS_MAX pass\<rparr>]\<rparr>))"

definition redp2p_get_register_pass :: "redp2p \<Rightarrow> string \<Rightarrow> string" where
  "redp2p_get_register_pass ctx pid =
     (case redp2p_find_vip ctx pid of Some idx \<Rightarrow> vip_pass (vips ctx ! idx) | None \<Rightarrow> ctx_pass ctx)"

definition clear_vips :: "redp2p \<Rightarrow> redp2p" where
  "clear_vips ctx = redp2p_update_nonvip_cap (ctx\<lparr>vips := [], vips_cap := 0\<rparr>)"

text \<open>Reading one token: up to the next space, which is consumed together with those after it.\<close>

definition next_token :: "string \<Rightarrow> string \<times> string" where
  "next_token cursor =
     (let tok = takeWhile (\<lambda>c. \<not> redp2p_is_space c) cursor;
          rest = dropWhile (\<lambda>c. \<not> redp2p_is_space c) cursor
      in (tok, dropWhile redp2p_is_space rest))"

lemma length_next_token: "cursor \<noteq> [] \<Longrightarrow> length (snd (next_token cursor)) < length cursor"
proof (cases cursor)
  case (Cons c cs)
  have "length (dropWhile redp2p_is_space (dropWhile (\<lambda>c. \<not> redp2p_is_space c) cs)) \<le> length cs"
    by (meson length_dropWhile_le order_trans)
  moreover have "length (dropWhile redp2p_is_space cs) \<le> length cs" by (rule length_dropWhile_le)
  ultimately show ?thesis by (simp add: Cons next_token_def Let_def)
qed simp

lemma next_token_shorter:
  "(tok, rest) = next_token cursor \<Longrightarrow> cursor \<noteq> [] \<Longrightarrow> length rest < length cursor"
  using length_next_token [of cursor] by (metis snd_conv)

function set_vip_loop :: "(nat \<Rightarrow> bool) \<Rightarrow> redp2p \<Rightarrow> string \<Rightarrow> int \<times> redp2p" where
  "set_vip_loop alloc ctx cursor =
     (if cursor = [] then (REDP2P_OK, redp2p_update_nonvip_cap ctx)
      else let (pid, cursor1) = next_token cursor
           in if cursor1 = [] then (REDP2P_ERROR, clear_vips ctx)
              else let (pass, cursor2) = next_token cursor1;
                       (rc, ctx') = redp2p_add_vip alloc ctx pid pass
                   in if rc \<noteq> REDP2P_OK then (REDP2P_ERROR, clear_vips ctx')
                      else set_vip_loop alloc ctx' cursor2)"
  by pat_completeness auto
termination
  by (relation "measure (\<lambda>(alloc, ctx, cursor). length cursor)")
    (auto dest!: next_token_shorter)

declare set_vip_loop.simps [simp del]

definition redp2p_set_vip :: "(nat \<Rightarrow> bool) \<Rightarrow> redp2p \<Rightarrow> string option \<Rightarrow> int \<times> redp2p" where
  "redp2p_set_vip alloc ctx vip =
     (let ctx = clear_vips ctx
      in case vip of
           None \<Rightarrow> (REDP2P_OK, ctx)
         | Some t \<Rightarrow>
             if t = [] then (REDP2P_OK, ctx)
             else if \<not> alloc (length t + 1) then (REDP2P_ERROR, ctx)
             else set_vip_loop alloc ctx (redp2p_trim t))"

section \<open>Online publishers\<close>

definition redp2p_find_peer :: "redp2p \<Rightarrow> string \<Rightarrow> nat option" where
  "redp2p_find_peer ctx pid = first_index (\<lambda>p. peer_id p = pid) (peers ctx)"

definition redp2p_count_nonvip_peers :: "redp2p \<Rightarrow> nat" where
  "redp2p_count_nonvip_peers ctx =
     length (filter (\<lambda>p. redp2p_find_vip ctx (peer_id p) = None) (peers ctx))"

text \<open>The growth loop of \<^verbatim>\<open>redp2p_ensure_peer_storage\<close>; 64 doublings cover a 64-bit size.\<close>

fun grow_cap :: "nat \<Rightarrow> nat \<Rightarrow> nat \<Rightarrow> nat \<Rightarrow> nat option" where
  "grow_cap fuel limit need cap =
     (if cap < need
      then (case fuel of 0 \<Rightarrow> None
            | Suc fuel' \<Rightarrow> grow_cap fuel' limit need (if cap > limit div 2 then limit else cap * 2))
      else Some cap)"

declare grow_cap.simps [simp del]

definition redp2p_ensure_peer_storage :: "(nat \<Rightarrow> bool) \<Rightarrow> redp2p \<Rightarrow> nat \<Rightarrow> int \<times> redp2p" where
  "redp2p_ensure_peer_storage alloc ctx need =
     (let limit = (if seats_set ctx then n_peers_cap ctx else SIZE_MAX div sizeof_peer)
      in if need > limit then (REDP2P_EFULL, ctx)
         else if need \<le> peers_alloc ctx then (REDP2P_OK, ctx)
         else let cap = (if peers_alloc ctx > 0 then peers_alloc ctx else 8);
                  cap = (if cap > limit then limit else cap)
              in case grow_cap 65 limit need cap of
                   None \<Rightarrow> (REDP2P_ERROR, ctx)
                 | Some cap \<Rightarrow>
                     if cap > SIZE_MAX div sizeof_peer then (REDP2P_ERROR, ctx)
                     else if \<not> alloc (cap * sizeof_peer) then (REDP2P_ERROR, ctx)
                     else (REDP2P_OK, ctx\<lparr>peers_alloc := cap\<rparr>))"

definition redp2p_generate_key :: "byte list option \<Rightarrow> string option" where
  "redp2p_generate_key random_bytes =
     (case random_bytes of None \<Rightarrow> None
      | Some bs \<Rightarrow> redp2p_hex_encode bs (REDP2P_KEY_SZ + 1))"

definition redp2p_add_peer ::
  "(nat \<Rightarrow> bool) \<Rightarrow> byte list option \<Rightarrow> u64 \<Rightarrow> redp2p \<Rightarrow> string \<Rightarrow> int \<times> redp2p" where
  "redp2p_add_peer alloc random_bytes now ctx pid =
     (case redp2p_find_peer ctx pid of
        Some idx \<Rightarrow>
          (REDP2P_OK, ctx\<lparr>peers := (peers ctx)[idx := (peers ctx ! idx)\<lparr>last_seen := now\<rparr>]\<rparr>)
      | None \<Rightarrow>
          let is_vip = (redp2p_find_vip ctx pid \<noteq> None)
          in if seats_set ctx \<and> length (peers ctx) \<ge> n_peers_cap ctx then (REDP2P_EFULL, ctx)
             else if length (peers ctx) \<ge> SIZE_MAX div sizeof_peer then (REDP2P_ERROR, ctx)
             else if seats_set ctx \<and> \<not> is_vip \<and> redp2p_count_nonvip_peers ctx \<ge> nonvip_cap ctx
             then (REDP2P_EFULL, ctx)
             else case redp2p_ensure_peer_storage alloc ctx (length (peers ctx) + 1) of
               (rc, ctx) \<Rightarrow>
                 if rc \<noteq> REDP2P_OK then (REDP2P_ERROR, ctx)
                 else case redp2p_generate_key random_bytes of
                   None \<Rightarrow> (REDP2P_ERROR, ctx)
                 | Some key \<Rightarrow>
                     (REDP2P_OK, ctx\<lparr>peers := peers ctx @
                        [\<lparr>peer_id = take REDP2P_ID_MAX pid, peer_key = key, last_seen = now,
                          peer_proto = 0, peer_udp_port = 0, peer_candidates = []\<rparr>]\<rparr>))"

definition redp2p_remove_peer :: "redp2p \<Rightarrow> string \<Rightarrow> int \<times> redp2p" where
  "redp2p_remove_peer ctx pid =
     (case redp2p_find_peer ctx pid of
        None \<Rightarrow> (REDP2P_ENOENT, ctx)
      | Some idx \<Rightarrow> (REDP2P_OK, ctx\<lparr>peers := delete_at idx (peers ctx)\<rparr>))"

definition expired :: "redp2p \<Rightarrow> u64 \<Rightarrow> redp2p_peer_t \<Rightarrow> bool" where
  "expired ctx now p \<longleftrightarrow> now - last_seen p > etimeout_sec ctx"

fun evict_loop :: "redp2p \<Rightarrow> u64 \<Rightarrow> nat \<Rightarrow> redp2p_peer_t list \<Rightarrow> redp2p_peer_t list" where
  "evict_loop ctx now 0 ps = ps"
| "evict_loop ctx now (Suc i) ps =
     evict_loop ctx now i (if expired ctx now (ps ! i) then delete_at i ps else ps)"

definition redp2p_evict_stale :: "u64 \<Rightarrow> redp2p \<Rightarrow> redp2p" where
  "redp2p_evict_stale now ctx = ctx\<lparr>peers := evict_loop ctx now (length (peers ctx)) (peers ctx)\<rparr>"

definition redp2p_peer_is_stale :: "u64 \<Rightarrow> redp2p \<Rightarrow> nat \<Rightarrow> bool" where
  "redp2p_peer_is_stale now ctx index =
     (if index \<ge> length (peers ctx) then True else expired ctx now (peers ctx ! index))"

section \<open>Pending punch calls\<close>

definition redp2p_pending_call_remove :: "redp2p \<Rightarrow> nat \<Rightarrow> redp2p" where
  "redp2p_pending_call_remove ctx idx =
     (if idx \<ge> length (pending_calls ctx) then ctx
      else ctx\<lparr>pending_calls := swap_remove idx (pending_calls ctx)\<rparr>)"

function pending_evict_loop :: "u64 \<Rightarrow> redp2p \<Rightarrow> nat \<Rightarrow> redp2p" where
  "pending_evict_loop now ctx i =
     (if i < length (pending_calls ctx)
      then if now - call_ts (pending_calls ctx ! i) > REDP2P_PENDING_CALL_TTL_S
           then pending_evict_loop now (redp2p_pending_call_remove ctx i) i
           else pending_evict_loop now ctx (i + 1)
      else ctx)"
  by pat_completeness auto
termination
  by (relation "measure (\<lambda>(now, ctx, i). length (pending_calls ctx) - i)")
    (auto simp: redp2p_pending_call_remove_def)

declare pending_evict_loop.simps [simp del]

definition redp2p_pending_call_evict_stale :: "u64 \<Rightarrow> redp2p \<Rightarrow> redp2p" where
  "redp2p_pending_call_evict_stale now ctx = pending_evict_loop now ctx 0"

definition redp2p_pending_call_add ::
  "u64 \<Rightarrow> redp2p \<Rightarrow> string \<Rightarrow> string \<Rightarrow> string \<Rightarrow> redp2p_candidate_t list \<Rightarrow> redp2p option" where
  "redp2p_pending_call_add now ctx caller target sess cands =
     (if length (pending_calls ctx) \<ge> REDP2P_MAX_PENDING_CALLS then None
      else Some (ctx\<lparr>pending_calls := pending_calls ctx @
        [\<lparr>caller_id = redp2p_bounded_copy (REDP2P_ID_MAX + 1) caller,
          target_id = redp2p_bounded_copy (REDP2P_ID_MAX + 1) target,
          sess_id = redp2p_bounded_copy (REDP2P_CTRL_SESSION_MAX + 1) sess,
          call_candidates = cands, call_ts = now\<rparr>]\<rparr>))"

function take_all_loop ::
  "string \<Rightarrow> redp2p \<Rightarrow> nat \<Rightarrow> redp2p_pending_call_t list \<Rightarrow> redp2p_pending_call_t list \<times> redp2p" where
  "take_all_loop target ctx i out =
     (if i < length (pending_calls ctx)
      then if target_id (pending_calls ctx ! i) = target
           then take_all_loop target (redp2p_pending_call_remove ctx i) i (out @ [pending_calls ctx ! i])
           else take_all_loop target ctx (i + 1) out
      else (out, ctx))"
  by pat_completeness auto
termination
  by (relation "measure (\<lambda>(target, ctx, i, out). length (pending_calls ctx) - i)")
    (auto simp: redp2p_pending_call_remove_def)

declare take_all_loop.simps [simp del]

definition redp2p_pending_call_take_all :: "redp2p \<Rightarrow> string \<Rightarrow> redp2p_pending_call_t list \<times> redp2p" where
  "redp2p_pending_call_take_all ctx target = take_all_loop target ctx 0 []"

section \<open>The tables as finite maps\<close>

lemma option_ext: "(\<And>r. a = Some r \<longleftrightarrow> b = Some r) \<Longrightarrow> a = b"
  by (cases a; cases b) auto

text \<open>The record a client of the table sees under an identifier.\<close>

definition look_peer :: "redp2p \<Rightarrow> string \<Rightarrow> redp2p_peer_t option" where
  "look_peer ctx pid = map_option (\<lambda>i. peers ctx ! i) (redp2p_find_peer ctx pid)"

definition peers_distinct :: "redp2p \<Rightarrow> bool" where
  "peers_distinct ctx \<longleftrightarrow> distinct (map peer_id (peers ctx))"

lemma find_peer_None: "redp2p_find_peer ctx pid = None \<longleftrightarrow> pid \<notin> peer_id ` set (peers ctx)"
  by (auto simp: redp2p_find_peer_def first_index_None)

lemma find_peer_Some: "redp2p_find_peer ctx pid = Some i \<Longrightarrow> i < length (peers ctx) \<and> peer_id (peers ctx ! i) = pid"
  unfolding redp2p_find_peer_def by (rule first_index_Some)

lemma find_vip_None: "redp2p_find_vip ctx pid = None \<longleftrightarrow> pid \<notin> vip_id ` set (vips ctx)"
  by (auto simp: redp2p_find_vip_def first_index_None)

lemma look_peer_None: "look_peer ctx pid = None \<longleftrightarrow> pid \<notin> peer_id ` set (peers ctx)"
  by (simp add: look_peer_def find_peer_None)

lemma look_peer_id: "look_peer ctx pid = Some p \<Longrightarrow> p \<in> set (peers ctx) \<and> peer_id p = pid"
  by (auto simp: look_peer_def dest!: find_peer_Some)

lemma look_peer_Some:
  assumes "peers_distinct ctx"
  shows "look_peer ctx pid = Some p \<longleftrightarrow> p \<in> set (peers ctx) \<and> peer_id p = pid"
proof
  assume r: "p \<in> set (peers ctx) \<and> peer_id p = pid"
  then obtain i where i: "i < length (peers ctx)" "peers ctx ! i = p" by (auto simp: in_set_conv_nth)
  with r assms have "redp2p_find_peer ctx pid = Some i"
    by (simp add: redp2p_find_peer_def peers_distinct_def first_index_Some_distinct)
  with i show "look_peer ctx pid = Some p" by (simp add: look_peer_def)
qed (rule look_peer_id)

lemma look_peer_eqI:
  assumes "peers_distinct a" "peers_distinct b"
    "\<And>p. peer_id p = pid \<Longrightarrow> p \<in> set (peers a) \<longleftrightarrow> p \<in> set (peers b)"
  shows "look_peer a pid = look_peer b pid"
proof (rule option_ext)
  show "look_peer a pid = Some p \<longleftrightarrow> look_peer b pid = Some p" for p
    using assms by (auto simp: look_peer_Some)
qed

lemma evict_loop_eq:
  "i \<le> length ps \<Longrightarrow>
   evict_loop ctx now i ps = filter (\<lambda>p. \<not> expired ctx now p) (take i ps) @ drop i ps"
proof (induction i arbitrary: ps)
  case (Suc i)
  then have "drop i ps = ps ! i # drop (Suc i) ps" "take (Suc i) ps = take i ps @ [ps ! i]"
    by (simp_all add: Cons_nth_drop_Suc take_Suc_conv_app_nth)
  with Suc show ?case by (simp add: delete_at_def min_def)
qed simp

lemma evict_stale_eq:
  "redp2p_evict_stale now ctx = ctx\<lparr>peers := filter (\<lambda>p. \<not> expired ctx now p) (peers ctx)\<rparr>"
  by (simp add: redp2p_evict_stale_def evict_loop_eq)

lemma expired_cong [simp]: "expired (ctx\<lparr>peers := ps\<rparr>) = expired ctx"
  by (simp add: fun_eq_iff expired_def)

lemma remove_peer_eq:
  assumes "peers_distinct ctx"
  shows "redp2p_remove_peer ctx pid =
    (if pid \<in> peer_id ` set (peers ctx)
     then (REDP2P_OK, ctx\<lparr>peers := filter (\<lambda>p. peer_id p \<noteq> pid) (peers ctx)\<rparr>)
     else (REDP2P_ENOENT, ctx))"
proof (cases "redp2p_find_peer ctx pid")
  case None
  then have "pid \<notin> peer_id ` set (peers ctx)" by (simp add: find_peer_None)
  with None show ?thesis by (simp add: redp2p_remove_peer_def)
next
  case (Some i)
  note i = find_peer_Some [OF Some]
  have "pid \<in> peer_id ` set (peers ctx)" using i by (metis imageI nth_mem)
  with assms i show ?thesis
    by (simp add: redp2p_remove_peer_def Some peers_distinct_def delete_at_distinct)
qed

lemma peers_distinct_filter: "peers_distinct ctx \<Longrightarrow> peers_distinct (ctx\<lparr>peers := filter P (peers ctx)\<rparr>)"
  by (simp add: peers_distinct_def distinct_map_filter)

section \<open>The contract of the publisher table\<close>

text \<open>
  What the request handlers rely on: lookup after removal and after expiry. \<open>stale t s r\<close>
  tells whether record \<open>r\<close> has outlived its time to live at time \<open>t\<close>.
\<close>

locale expiring_table =
  fixes look :: "'s \<Rightarrow> 'k \<Rightarrow> 'r option"
    and remove :: "'s \<Rightarrow> 'k \<Rightarrow> 's"
    and expire :: "'t \<Rightarrow> 's \<Rightarrow> 's"
    and stale :: "'t \<Rightarrow> 's \<Rightarrow> 'r \<Rightarrow> bool"
    and inv :: "'s \<Rightarrow> bool"
  assumes look_remove: "inv s \<Longrightarrow> look (remove s k) k' = (if k' = k then None else look s k')"
    and look_expire:
      "inv s \<Longrightarrow> look (expire t s) k = (case look s k of None \<Rightarrow> None | Some r \<Rightarrow> if stale t s r then None else Some r)"
    and inv_remove: "inv s \<Longrightarrow> inv (remove s k)"
    and inv_expire: "inv s \<Longrightarrow> inv (expire t s)"
    and stale_remove: "stale t (remove s k) = stale t s"
    and stale_expire: "stale t (expire t' s) = stale t s"
begin

lemma look_expire_Some: "inv s \<Longrightarrow> look (expire t s) k = Some r \<longleftrightarrow> look s k = Some r \<and> \<not> stale t s r"
  by (auto simp: look_expire split: option.splits)

lemma expire_idem: "inv s \<Longrightarrow> look (expire t (expire t s)) k = look (expire t s) k"
  by (simp add: look_expire inv_expire stale_expire split: option.split)

lemma expire_remove_commute: "inv s \<Longrightarrow> look (expire t (remove s k)) k' = look (remove (expire t s) k) k'"
  by (simp add: look_expire look_remove inv_remove inv_expire stale_remove split: option.split)

lemma remove_expire_absent: "inv s \<Longrightarrow> look (remove (expire t s) k) k = None"
  by (simp add: look_remove inv_expire)

lemma remove_other_kept:
  "inv s \<Longrightarrow> look s k' = Some r \<Longrightarrow> \<not> stale t s r \<Longrightarrow> k' \<noteq> k \<Longrightarrow> look (remove (expire t s) k) k' = Some r"
  by (simp add: look_remove look_expire inv_expire)

end

interpretation peer_table: expiring_table look_peer "\<lambda>ctx pid. snd (redp2p_remove_peer ctx pid)"
  redp2p_evict_stale "\<lambda>now ctx. expired ctx now" peers_distinct
proof unfold_locales
  fix s :: redp2p and k k' :: string and t t' :: u64
  assume inv: "peers_distinct s"
  show ir: "peers_distinct (snd (redp2p_remove_peer s k))"
    using inv by (simp add: remove_peer_eq peers_distinct_filter)
  show ie: "peers_distinct (redp2p_evict_stale t s)"
    using inv by (simp add: evict_stale_eq peers_distinct_filter)
  show "look_peer (snd (redp2p_remove_peer s k)) k' = (if k' = k then None else look_peer s k')"
  proof (cases "k' = k")
    case True
    then show ?thesis using inv by (auto simp: look_peer_None remove_peer_eq)
  next
    case False
    then show ?thesis using inv ir by (auto intro!: look_peer_eqI simp: remove_peer_eq)
  qed
  show "look_peer (redp2p_evict_stale t s) k =
      (case look_peer s k of None \<Rightarrow> None | Some r \<Rightarrow> if expired s t r then None else Some r)"
  proof (rule option_ext)
    fix r
    have "look_peer (redp2p_evict_stale t s) k = Some r \<longleftrightarrow> look_peer s k = Some r \<and> \<not> expired s t r"
      unfolding look_peer_Some [OF ie] look_peer_Some [OF inv] by (auto simp: evict_stale_eq)
    then show "look_peer (redp2p_evict_stale t s) k = Some r \<longleftrightarrow>
        (case look_peer s k of None \<Rightarrow> None | Some r \<Rightarrow> if expired s t r then None else Some r) = Some r"
      by (auto split: option.splits)
  qed
next
  fix t t' s k
  show "expired (snd (redp2p_remove_peer s k)) t = expired s t"
    by (simp add: redp2p_remove_peer_def split: option.split)
  show "expired (redp2p_evict_stale t' s) t = expired s t"
    by (simp add: evict_stale_eq)
qed

section \<open>Pending calls\<close>

lemma pending_call_remove_eq:
  "i < length (pending_calls ctx) \<Longrightarrow>
   redp2p_pending_call_remove ctx i = ctx\<lparr>pending_calls := swap_remove i (pending_calls ctx)\<rparr>"
  by (simp add: redp2p_pending_call_remove_def)

abbreviation call_expired :: "u64 \<Rightarrow> redp2p_pending_call_t \<Rightarrow> bool" where
  "call_expired now c \<equiv> now - call_ts c > REDP2P_PENDING_CALL_TTL_S"

lemma pending_evict_loop_eq:
  "pending_evict_loop now ctx i =
   ctx\<lparr>pending_calls := snd (sweep_out (call_expired now) i (pending_calls ctx) out)\<rparr>"
proof (induction now ctx i arbitrary: out rule: pending_evict_loop.induct)
  case (1 now ctx i)
  show ?case
  proof (cases "i < length (pending_calls ctx)")
    case True
    note IH = "1.IH" [OF True]
    show ?thesis
    proof (cases "call_expired now (pending_calls ctx ! i)")
      case e: True
      show ?thesis
        by (subst pending_evict_loop.simps, subst sweep_out.simps)
          (use True e IH(1) [OF e, of "out @ [pending_calls ctx ! i]"] in \<open>simp add: pending_call_remove_eq\<close>)
    next
      case e: False
      show ?thesis
        by (subst pending_evict_loop.simps, subst sweep_out.simps)
          (use True e IH(2) [OF e, of out] in simp)
    qed
  next
    case False
    then show ?thesis by (subst pending_evict_loop.simps, subst sweep_out.simps) simp
  qed
qed

lemma take_all_loop_eq:
  "take_all_loop target ctx i out =
   (let r = sweep_out (\<lambda>c. target_id c = target) i (pending_calls ctx) out
    in (fst r, ctx\<lparr>pending_calls := snd r\<rparr>))"
proof (induction target ctx i out rule: take_all_loop.induct)
  case (1 target ctx i out)
  show ?case
  proof (cases "i < length (pending_calls ctx)")
    case True
    note IH = "1.IH" [OF True]
    show ?thesis
    proof (cases "target_id (pending_calls ctx ! i) = target")
      case e: True
      show ?thesis
        by (subst take_all_loop.simps, subst sweep_out.simps)
          (use True e IH(1) [OF e] in \<open>simp add: pending_call_remove_eq Let_def\<close>)
    next
      case e: False
      show ?thesis
        by (subst take_all_loop.simps, subst sweep_out.simps)
          (use True e IH(2) [OF e] in \<open>simp add: Let_def\<close>)
    qed
  next
    case False
    then show ?thesis by (subst take_all_loop.simps, subst sweep_out.simps) simp
  qed
qed

lemma pending_evict_frame:
  "redp2p_pending_call_evict_stale now ctx =
   ctx\<lparr>pending_calls := snd (sweep_out (call_expired now) 0 (pending_calls ctx) [])\<rparr>"
  unfolding redp2p_pending_call_evict_stale_def by (rule pending_evict_loop_eq)

lemma pending_take_frame:
  "redp2p_pending_call_take_all ctx target =
   (fst (sweep_out (\<lambda>c. target_id c = target) 0 (pending_calls ctx) []),
    ctx\<lparr>pending_calls := snd (sweep_out (\<lambda>c. target_id c = target) 0 (pending_calls ctx) [])\<rparr>)"
  by (simp add: redp2p_pending_call_take_all_def take_all_loop_eq Let_def)

lemma mset_pending_evict:
  "mset (pending_calls (redp2p_pending_call_evict_stale now ctx)) =
   filter_mset (\<lambda>c. \<not> call_expired now c) (mset (pending_calls ctx))"
  by (simp add: pending_evict_frame sweep_whole)

section \<open>Storage growth\<close>

lemma grow_cap_enough:
  assumes "need \<le> limit" "0 < cap" "need \<le> cap * 2 ^ fuel \<or> limit < cap * 2 ^ fuel"
  shows "\<exists>c. grow_cap (Suc fuel) limit need cap = Some c \<and> need \<le> c \<and> c \<le> max cap limit"
  using assms
proof (induction fuel arbitrary: cap)
  case 0
  then show ?case by (auto simp: grow_cap.simps)
next
  case (Suc fuel)
  show ?case
  proof (cases "cap < need")
    case False
    then show ?thesis by (subst grow_cap.simps) auto
  next
    case True
    define cap' where "cap' = (if cap > limit div 2 then limit else cap * 2)"
    have "0 < cap'" "cap' \<le> limit" using True Suc.prems by (auto simp: cap'_def)
    moreover have "need \<le> cap' * 2 ^ fuel \<or> limit < cap' * 2 ^ fuel"
    proof (cases "cap > limit div 2")
      case c: True
      have "(1::nat) \<le> 2 ^ fuel" by simp
      then have "limit \<le> limit * 2 ^ fuel" by (metis mult_le_mono2 mult.right_neutral)
      then have "need \<le> limit * 2 ^ fuel" using Suc.prems(1) by linarith
      then show ?thesis using c by (simp add: cap'_def)
    next
      case False
      then show ?thesis using Suc.prems(3) by (simp add: cap'_def mult.assoc)
    qed
    ultimately obtain c where "grow_cap (Suc fuel) limit need cap' = Some c" "need \<le> c" "c \<le> max cap' limit"
      using Suc.IH [of cap'] Suc.prems(1) by blast
    with True \<open>cap' \<le> limit\<close> show ?thesis by (subst grow_cap.simps) (auto simp: cap'_def)
  qed
qed

text \<open>With 64-bit sizes the loop of \<^verbatim>\<open>redp2p_ensure_peer_storage\<close> always ends within its fuel.\<close>

lemma grow_cap_total:
  assumes "need \<le> limit" "0 < cap" "limit \<le> SIZE_MAX"
  shows "\<exists>c. grow_cap 65 limit need cap = Some c \<and> need \<le> c \<and> c \<le> max cap limit"
proof -
  have "limit < 1 * 2 ^ 64" using assms(3) by (simp add: macros)
  also have "\<dots> \<le> cap * 2 ^ 64" using assms(2) by (intro mult_le_mono) auto
  finally show ?thesis using grow_cap_enough [of need limit cap 64] assms by simp
qed

section \<open>Well-formed contexts\<close>

definition wf_candidates :: "inet_ops \<Rightarrow> redp2p_candidate_t list \<Rightarrow> bool" where
  "wf_candidates net cs \<longleftrightarrow> length cs \<le> REDP2P_PEER_CANDIDATES_MAX
     \<and> list_all (\<lambda>c. usable net c \<and> ranked net c = c \<and> length (cand_addr c) \<le> REDP2P_ADDR_MAX) cs"

definition wf_vips :: "redp2p \<Rightarrow> bool" where
  "wf_vips ctx \<longleftrightarrow> distinct (map vip_id (vips ctx)) \<and> length (vips ctx) \<le> vips_cap ctx
     \<and> list_all (\<lambda>v. redp2p_is_valid_id (vip_id v) \<and> redp2p_is_valid_pass_token (vip_pass v)) (vips ctx)"

definition wf_config :: "redp2p \<Rightarrow> bool" where
  "wf_config ctx \<longleftrightarrow> wf_vips ctx \<and> nonvip_cap ctx = n_peers_cap ctx - length (vips ctx)
     \<and> n_peers_cap ctx \<le> SIZE_MAX div sizeof_peer \<and> 0 \<le> pow_bits ctx \<and> pow_bits ctx \<le> REDP2P_POW_MAX"

definition wf_peer :: "inet_ops \<Rightarrow> redp2p_peer_t \<Rightarrow> bool" where
  "wf_peer net p \<longleftrightarrow> redp2p_is_valid_id (peer_id p) \<and> redp2p_is_hex_token (peer_key p) REDP2P_KEY_SZ
     \<and> wf_candidates net (peer_candidates p)"

text \<open>
  The publisher table: unique valid records, inside the allocation, and, once the number of
  seats is set, no more records than seats and no more unreserved records than unreserved seats.
\<close>

definition wf_peers :: "inet_ops \<Rightarrow> redp2p \<Rightarrow> bool" where
  "wf_peers net ctx \<longleftrightarrow> peers_distinct ctx \<and> list_all (wf_peer net) (peers ctx)
     \<and> length (peers ctx) \<le> peers_alloc ctx \<and> peers_alloc ctx \<le> SIZE_MAX div sizeof_peer
     \<and> (seats_set ctx \<longrightarrow> length (peers ctx) \<le> n_peers_cap ctx
          \<and> redp2p_count_nonvip_peers ctx \<le> nonvip_cap ctx)"

definition wf_call :: "inet_ops \<Rightarrow> redp2p_pending_call_t \<Rightarrow> bool" where
  "wf_call net c \<longleftrightarrow> redp2p_is_valid_id (caller_id c) \<and> redp2p_is_valid_id (target_id c)
     \<and> redp2p_is_session_token (sess_id c) \<and> wf_candidates net (call_candidates c)"

definition wf_calls :: "inet_ops \<Rightarrow> redp2p \<Rightarrow> bool" where
  "wf_calls net ctx \<longleftrightarrow> length (pending_calls ctx) \<le> REDP2P_MAX_PENDING_CALLS
     \<and> list_all (wf_call net) (pending_calls ctx)"

definition wf_ctx :: "inet_ops \<Rightarrow> redp2p \<Rightarrow> bool" where
  "wf_ctx net ctx \<longleftrightarrow> wf_config ctx \<and> wf_peers net ctx \<and> wf_calls net ctx"

lemma wf_config_frame [simp]:
  "wf_config (ctx\<lparr>peers := ps\<rparr>) = wf_config ctx" "wf_config (ctx\<lparr>peers_alloc := n\<rparr>) = wf_config ctx"
  "wf_config (ctx\<lparr>pending_calls := cs\<rparr>) = wf_config ctx" "wf_config (redp2p_set_error m ctx) = wf_config ctx"
  by (simp_all add: wf_config_def wf_vips_def redp2p_set_error_def)

lemma find_vip_frame [simp]:
  "redp2p_find_vip (ctx\<lparr>peers := ps\<rparr>) = redp2p_find_vip ctx"
  "redp2p_find_vip (ctx\<lparr>peers_alloc := n\<rparr>) = redp2p_find_vip ctx"
  "redp2p_find_vip (ctx\<lparr>pending_calls := cs\<rparr>) = redp2p_find_vip ctx"
  by (simp_all add: fun_eq_iff redp2p_find_vip_def)

lemma wf_peers_frame [simp]:
  "wf_peers net (ctx\<lparr>pending_calls := cs\<rparr>) = wf_peers net ctx"
  "wf_peers net (redp2p_set_error m ctx) = wf_peers net ctx"
  by (simp_all add: wf_peers_def peers_distinct_def redp2p_count_nonvip_peers_def redp2p_set_error_def
      redp2p_find_vip_def)

lemma wf_calls_frame [simp]:
  "wf_calls net (ctx\<lparr>peers := ps\<rparr>) = wf_calls net ctx"
  "wf_calls net (ctx\<lparr>peers_alloc := n\<rparr>) = wf_calls net ctx"
  "wf_calls net (redp2p_set_error m ctx) = wf_calls net ctx"
  by (simp_all add: wf_calls_def redp2p_set_error_def)

lemma wf_ctx_distinct: "wf_ctx net ctx \<Longrightarrow> peers_distinct ctx"
  by (simp add: wf_ctx_def wf_peers_def)

lemma length_filter_filter_le: "length (filter Q (filter P xs)) \<le> length (filter Q xs)"
  by (induction xs) auto

lemma wf_peers_filter:
  assumes "wf_peers net ctx"
  shows "wf_peers net (ctx\<lparr>peers := filter P (peers ctx)\<rparr>)"
  using assms unfolding wf_peers_def redp2p_count_nonvip_peers_def
  by (auto simp: peers_distinct_filter list_all_iff simp del: filter_filter
      intro: order_trans [OF length_filter_le] order_trans [OF length_filter_filter_le])

text \<open>Every operation on the tables keeps the context well formed.\<close>

lemma wf_evict_stale [wf_intros]: "wf_ctx net ctx \<Longrightarrow> wf_ctx net (redp2p_evict_stale now ctx)"
  by (simp add: evict_stale_eq wf_ctx_def wf_peers_filter)

lemma wf_remove_peer [wf_intros]: "wf_ctx net ctx \<Longrightarrow> wf_ctx net (snd (redp2p_remove_peer ctx pid))"
  using wf_ctx_distinct [of net ctx] by (simp add: remove_peer_eq wf_ctx_def wf_peers_filter)

lemma wf_pending_evict [wf_intros]: "wf_ctx net ctx \<Longrightarrow> wf_ctx net (redp2p_pending_call_evict_stale now ctx)"
  using length_sweep_le [of "call_expired now" "pending_calls ctx"]
  by (auto simp: pending_evict_frame wf_ctx_def wf_calls_def list_all_iff set_sweep)

lemma wf_pending_take [wf_intros]: "wf_ctx net ctx \<Longrightarrow> wf_ctx net (snd (redp2p_pending_call_take_all ctx t))"
  using length_sweep_le [of "\<lambda>c. target_id c = t" "pending_calls ctx"]
  by (auto simp: pending_take_frame wf_ctx_def wf_calls_def list_all_iff set_sweep)

lemma wf_pending_add:
  assumes "wf_ctx net ctx" "redp2p_pending_call_add now ctx caller target sess cands = Some ctx'"
    "redp2p_is_valid_id caller" "redp2p_is_valid_id target" "redp2p_is_session_token sess"
    "wf_candidates net cands"
  shows "wf_ctx net ctx'"
proof -
  have "redp2p_bounded_copy (REDP2P_ID_MAX + 1) caller = caller"
    "redp2p_bounded_copy (REDP2P_ID_MAX + 1) target = target"
    "redp2p_bounded_copy (REDP2P_CTRL_SESSION_MAX + 1) sess = sess"
    using assms(3-5) by (simp_all add: redp2p_bounded_copy_id token_iffs macros)
  with assms show ?thesis
    by (auto simp: redp2p_pending_call_add_def wf_ctx_def wf_calls_def wf_call_def split: if_splits)
qed

lemma ensure_peer_storage_cases:
  assumes wf: "wf_config ctx" "peers_alloc ctx \<le> SIZE_MAX div sizeof_peer" and need: "0 < need"
  obtains (full) "redp2p_ensure_peer_storage alloc ctx need = (REDP2P_EFULL, ctx)"
      "need > (if seats_set ctx then n_peers_cap ctx else SIZE_MAX div sizeof_peer)"
  | (no_memory) "redp2p_ensure_peer_storage alloc ctx need = (REDP2P_ERROR, ctx)"
      "\<exists>cap \<le> SIZE_MAX div sizeof_peer. \<not> alloc (cap * sizeof_peer)"
  | (ok) cap where "redp2p_ensure_peer_storage alloc ctx need = (REDP2P_OK, ctx\<lparr>peers_alloc := cap\<rparr>)"
      "need \<le> cap" "cap \<le> SIZE_MAX div sizeof_peer"
proof -
  define limit where "limit = (if seats_set ctx then n_peers_cap ctx else SIZE_MAX div sizeof_peer)"
  define start where "start = (if peers_alloc ctx > 0 then peers_alloc ctx else 8)"
  have limit: "limit \<le> SIZE_MAX div sizeof_peer" "limit \<le> SIZE_MAX"
    using wf by (auto simp: limit_def wf_config_def macros)
  consider "need > limit" | "need \<le> limit" "need \<le> peers_alloc ctx" | "need \<le> limit" "need > peers_alloc ctx"
    by linarith
  then show thesis
  proof cases
    case 1
    then show thesis by (intro full) (simp_all add: redp2p_ensure_peer_storage_def limit_def)
  next
    case 2
    have "ctx\<lparr>peers_alloc := peers_alloc ctx\<rparr> = ctx" by simp
    with 2 wf show thesis
      by (intro ok [of "peers_alloc ctx"]) (simp_all add: redp2p_ensure_peer_storage_def limit_def Let_def)
  next
    case 3
    have "0 < (if start > limit then limit else start)" using 3 need by (auto simp: start_def)
    from grow_cap_total [OF 3(1) this limit(2)] obtain cap where
      cap: "grow_cap 65 limit need (if start > limit then limit else start) = Some cap" "need \<le> cap" "cap \<le> limit"
      by (auto split: if_splits)
    have eq: "redp2p_ensure_peer_storage alloc ctx need =
        (if alloc (cap * sizeof_peer) then (REDP2P_OK, ctx\<lparr>peers_alloc := cap\<rparr>) else (REDP2P_ERROR, ctx))"
      using 3 cap limit unfolding redp2p_ensure_peer_storage_def limit_def [symmetric] start_def [symmetric]
      by (simp add: Let_def)
    show thesis
    proof (cases "alloc (cap * sizeof_peer)")
      case True
      with eq cap limit show thesis by (intro ok [of cap]) auto
    next
      case False
      with eq cap limit show thesis by (intro no_memory) (auto intro: order_trans)
    qed
  qed
qed

lemma wf_generate_key:
  assumes "redp2p_generate_key r = Some key" "\<And>bs. r = Some bs \<Longrightarrow> length bs = REDP2P_KEY_SZ div 2"
  shows "redp2p_is_hex_token key REDP2P_KEY_SZ"
proof (cases r)
  case (Some bs)
  with assms have "key = hex_pairs bs" "2 * length bs = REDP2P_KEY_SZ"
    by (auto simp: redp2p_generate_key_def redp2p_hex_encode_def macros)
  then show ?thesis using hex_pairs_token [of bs] by simp
qed (use assms in \<open>simp add: redp2p_generate_key_def\<close>)

lemma count_nonvip_ids:
  "redp2p_count_nonvip_peers ctx =
   length (filter (\<lambda>i. redp2p_find_vip ctx i = None) (map peer_id (peers ctx)))"
  by (simp add: redp2p_count_nonvip_peers_def filter_map comp_def)

lemma wf_update_peer:
  assumes wf: "wf_ctx net ctx" and i: "i < length (peers ctx)"
    and p: "wf_peer net p" "peer_id p = peer_id (peers ctx ! i)"
  shows "wf_ctx net (ctx\<lparr>peers := (peers ctx)[i := p]\<rparr>)"
proof -
  have ids: "map peer_id ((peers ctx)[i := p]) = map peer_id (peers ctx)"
    using i p(2) by (intro nth_equalityI) (auto simp: nth_list_update)
  have "list_all (wf_peer net) ((peers ctx)[i := p])"
    using wf p(1) set_update_subset_insert [of "peers ctx" i p]
    by (auto simp: wf_ctx_def wf_peers_def list_all_iff)
  with ids wf show ?thesis
    unfolding wf_ctx_def wf_peers_def peers_distinct_def count_nonvip_ids by simp
qed

text \<open>The four outcomes of \<^verbatim>\<open>redp2p_add_peer\<close>.\<close>

definition fresh_peer :: "string \<Rightarrow> string \<Rightarrow> u64 \<Rightarrow> redp2p_peer_t" where
  "fresh_peer pid key now = \<lparr>peer_id = pid, peer_key = key, last_seen = now, peer_proto = 0,
     peer_udp_port = 0, peer_candidates = []\<rparr>"

definition seat_taken :: "redp2p \<Rightarrow> string \<Rightarrow> bool" where
  "seat_taken ctx pid \<longleftrightarrow> seats_set ctx \<and>
     (length (peers ctx) \<ge> n_peers_cap ctx
      \<or> redp2p_find_vip ctx pid = None \<and> redp2p_count_nonvip_peers ctx \<ge> nonvip_cap ctx)"

lemma add_peer_step:
  assumes "redp2p_find_peer ctx pid = None" "length (peers ctx) < SIZE_MAX div sizeof_peer"
    "\<not> seat_taken ctx pid" "redp2p_is_valid_id pid"
  shows "redp2p_add_peer alloc r now ctx pid =
    (case redp2p_ensure_peer_storage alloc ctx (length (peers ctx) + 1) of (rc, ctx) \<Rightarrow>
       if rc \<noteq> REDP2P_OK then (REDP2P_ERROR, ctx)
       else case redp2p_generate_key r of None \<Rightarrow> (REDP2P_ERROR, ctx)
       | Some key \<Rightarrow> (REDP2P_OK, ctx\<lparr>peers := peers ctx @ [fresh_peer pid key now]\<rparr>))"
proof -
  have pid: "take REDP2P_ID_MAX pid = pid" using assms(4) by (simp add: token_iffs macros)
  show ?thesis
    unfolding redp2p_add_peer_def assms(1) option.case fresh_peer_def pid using assms
    by (auto simp: seat_taken_def Let_def)
qed

lemma add_peer_cases:
  assumes wf: "wf_ctx net ctx" and valid: "redp2p_is_valid_id pid"
  obtains (refreshed) i where "redp2p_find_peer ctx pid = Some i"
      "redp2p_add_peer alloc r now ctx pid =
         (REDP2P_OK, ctx\<lparr>peers := (peers ctx)[i := (peers ctx ! i)\<lparr>last_seen := now\<rparr>]\<rparr>)"
  | (full) "redp2p_find_peer ctx pid = None" "seat_taken ctx pid"
      "redp2p_add_peer alloc r now ctx pid = (REDP2P_EFULL, ctx)"
  | (failed) cap where "redp2p_find_peer ctx pid = None"
      "redp2p_add_peer alloc r now ctx pid = (REDP2P_ERROR, ctx\<lparr>peers_alloc := cap\<rparr>)"
      "length (peers ctx) \<le> cap" "cap \<le> SIZE_MAX div sizeof_peer"
      "length (peers ctx) \<ge> SIZE_MAX div sizeof_peer \<or> (\<exists>n. \<not> alloc n) \<or> redp2p_generate_key r = None"
  | (added) cap key where "redp2p_find_peer ctx pid = None" "\<not> seat_taken ctx pid"
      "redp2p_generate_key r = Some key" "length (peers ctx) < cap" "cap \<le> SIZE_MAX div sizeof_peer"
      "redp2p_add_peer alloc r now ctx pid =
         (REDP2P_OK, ctx\<lparr>peers_alloc := cap, peers := peers ctx @ [fresh_peer pid key now]\<rparr>)"
proof (cases "redp2p_find_peer ctx pid")
  case (Some i)
  then show thesis by (intro refreshed [of i]) (simp_all add: redp2p_add_peer_def)
next
  case None
  have alloc: "length (peers ctx) \<le> peers_alloc ctx" "peers_alloc ctx \<le> SIZE_MAX div sizeof_peer"
    using wf by (simp_all add: wf_ctx_def wf_peers_def)
  have conf: "wf_config ctx" using wf by (simp add: wf_ctx_def)
  have same: "ctx\<lparr>peers_alloc := peers_alloc ctx\<rparr> = ctx" by simp
  note add = redp2p_add_peer_def None option.case Let_def
  consider (a) "seats_set ctx" "length (peers ctx) \<ge> n_peers_cap ctx"
    | (b) "\<not> (seats_set ctx \<and> length (peers ctx) \<ge> n_peers_cap ctx)" "length (peers ctx) \<ge> SIZE_MAX div sizeof_peer"
    | (c) "\<not> (seats_set ctx \<and> length (peers ctx) \<ge> n_peers_cap ctx)" "length (peers ctx) < SIZE_MAX div sizeof_peer"
        "seat_taken ctx pid"
    | (d) "length (peers ctx) < SIZE_MAX div sizeof_peer" "\<not> seat_taken ctx pid"
    unfolding seat_taken_def by linarith
  then show thesis
  proof cases
    case a
    with None show thesis by (intro full) (simp_all add: add seat_taken_def)
  next
    case b
    with None alloc show thesis by (intro failed [of "peers_alloc ctx"]) (auto simp: add)
  next
    case c
    with None show thesis by (intro full) (auto simp: add seat_taken_def)
  next
    case d
    note step = add_peer_step [OF None d valid, of alloc r now]
    from conf alloc(2) zero_less_Suc [of "length (peers ctx)", folded Suc_eq_plus1] show thesis
    proof (cases rule: ensure_peer_storage_cases [where alloc = alloc])
      case f: full
      with d have False by (auto simp: seat_taken_def split: if_splits)
      then show thesis ..
    next
      case f: no_memory
      with None alloc same show thesis by (intro failed [of "peers_alloc ctx"]) (auto simp: step macros)
    next
      case f: (ok cap)
      show thesis
      proof (cases "redp2p_generate_key r")
        case k: None
        with None f show thesis by (intro failed [of cap]) (simp_all add: step)
      next
        case k: (Some key)
        with None d f show thesis by (intro added [of key cap]) (simp_all add: step)
      qed
    qed
  qed
qed

lemma wf_add_peer [wf_intros]:
  assumes wf: "wf_ctx net ctx" and valid: "redp2p_is_valid_id pid"
    and r: "\<And>bs. r = Some bs \<Longrightarrow> length bs = REDP2P_KEY_SZ div 2"
  shows "wf_ctx net (snd (redp2p_add_peer alloc r now ctx pid))"
  using wf valid
proof (cases rule: add_peer_cases [where alloc = alloc and r = r and now = now])
  case (refreshed i)
  have "wf_peer net (peers ctx ! i)"
    using wf find_peer_Some [OF refreshed(1)] by (simp add: wf_ctx_def wf_peers_def list_all_length)
  then have "wf_peer net ((peers ctx ! i)\<lparr>last_seen := now\<rparr>)" by (simp add: wf_peer_def)
  then show ?thesis
    using wf_update_peer [OF wf] find_peer_Some [OF refreshed(1)] by (simp add: refreshed(2))
next
  case full
  then show ?thesis using wf by simp
next
  case (failed cap)
  then show ?thesis
    using wf by (simp add: wf_ctx_def wf_peers_def peers_distinct_def count_nonvip_ids)
next
  case (added cap key)
  have "wf_peer net (fresh_peer pid key now)"
    using valid wf_generate_key [OF added(3) r]
    by (simp add: wf_peer_def fresh_peer_def wf_candidates_def)
  moreover have "pid \<notin> set (map peer_id (peers ctx))" using added(1) by (simp add: find_peer_None)
  ultimately show ?thesis
    using wf added
    by (auto simp: wf_ctx_def wf_peers_def peers_distinct_def count_nonvip_ids fresh_peer_def seat_taken_def)
qed

text \<open>A reserved identifier that is offline finds a seat as long as every reservation has one.\<close>

lemma online_count:
  "length (peers ctx) = redp2p_count_nonvip_peers ctx
     + length (filter (\<lambda>i. redp2p_find_vip ctx i \<noteq> None) (map peer_id (peers ctx)))"
  unfolding count_nonvip_ids
  using sum_length_filter_compl [of "\<lambda>i. redp2p_find_vip ctx i = None" "map peer_id (peers ctx)"]
  by (simp only: length_map)

lemma vip_online_count:
  assumes "wf_ctx net ctx" "redp2p_find_vip ctx pid \<noteq> None" "redp2p_find_peer ctx pid = None"
  shows "length (filter (\<lambda>i. redp2p_find_vip ctx i \<noteq> None) (map peer_id (peers ctx))) < length (vips ctx)"
proof -
  let ?on = "filter (\<lambda>i. redp2p_find_vip ctx i \<noteq> None) (map peer_id (peers ctx))"
  have "set ?on \<subseteq> set (map vip_id (vips ctx)) - {pid}"
    using assms(3) by (auto simp: find_vip_None find_peer_None)
  then have "card (set ?on) \<le> card (set (map vip_id (vips ctx)) - {pid})"
    by (intro card_mono) auto
  moreover have "pid \<in> set (map vip_id (vips ctx))" using assms(2) by (auto simp: find_vip_None)
  moreover have "card (set (map vip_id (vips ctx))) = length (vips ctx)"
    using assms(1) by (simp add: wf_ctx_def wf_config_def wf_vips_def distinct_card del: set_map)
  moreover have "card (set ?on) = length ?on"
    using assms(1) by (intro distinct_card) (simp add: wf_ctx_def wf_peers_def peers_distinct_def)
  ultimately show ?thesis
    by (metis (no_types, lifting) List.finite_set card_Diff1_less le_less_trans)
qed

lemma vip_seat_free:
  assumes "wf_ctx net ctx" "length (vips ctx) \<le> n_peers_cap ctx"
    "redp2p_find_vip ctx pid \<noteq> None" "redp2p_find_peer ctx pid = None"
  shows "\<not> seat_taken ctx pid"
  using assms vip_online_count [OF assms(1,3,4)] online_count [of ctx]
  by (auto simp: seat_taken_def wf_ctx_def wf_peers_def wf_config_def)

section \<open>The reservation list\<close>

text \<open>The specification of the \<^verbatim>\<open>REDP2P_VIP\<close> text: whitespace-separated tokens, taken in pairs.\<close>

function tokens :: "string \<Rightarrow> string list" where
  "tokens s =
     (case dropWhile redp2p_is_space s of
        [] \<Rightarrow> []
      | c # cs \<Rightarrow> (c # takeWhile (\<lambda>c. \<not> redp2p_is_space c) cs)
                  # tokens (dropWhile (\<lambda>c. \<not> redp2p_is_space c) cs))"
  by pat_completeness auto
termination
proof (relation "measure length")
  fix s c cs
  assume d: "dropWhile redp2p_is_space s = c # cs"
  have "length (dropWhile (\<lambda>c. \<not> redp2p_is_space c) cs) \<le> length cs" by (rule length_dropWhile_le)
  also have "\<dots> < length s" using length_dropWhile_le [of redp2p_is_space s] by (simp add: d)
  finally show "(dropWhile (\<lambda>c. \<not> redp2p_is_space c) cs, s) \<in> measure length" by simp
qed simp

declare tokens.simps [simp del]

fun pairs_of :: "string list \<Rightarrow> (string \<times> string) list option" where
  "pairs_of [] = Some []"
| "pairs_of [x] = None"
| "pairs_of (x # y # ts) = map_option (Cons (x, y)) (pairs_of ts)"

definition vip_entry :: "string \<times> string \<Rightarrow> redp2p_vip_entry_t" where
  "vip_entry e = \<lparr>vip_id = fst e, vip_pass = snd e\<rparr>"

definition reservable :: "string \<times> string \<Rightarrow> bool" where
  "reservable e \<longleftrightarrow> redp2p_is_valid_id (fst e) \<and> redp2p_is_valid_pass_token (snd e)"

definition reservations :: "string list \<Rightarrow> string \<Rightarrow> (string \<times> string) list option" where
  "reservations taken t =
     (case pairs_of (tokens t) of
        Some ps \<Rightarrow> if list_all reservable ps \<and> distinct (map fst ps) \<and> set (map fst ps) \<inter> set taken = {}
                   then Some ps else None
      | None \<Rightarrow> None)"

lemma tokens_space: "tokens (dropWhile redp2p_is_space s) = tokens s"
  by (subst tokens.simps, subst (2) tokens.simps) (simp add: dropWhile_idem)

lemma tokens_Nil [simp]: "tokens [] = []"
  by (subst tokens.simps) simp

lemma tokens_next:
  assumes "s \<noteq> []" "\<not> redp2p_is_space (hd s)"
  shows "tokens s = fst (next_token s) # tokens (snd (next_token s))"
proof -
  obtain c cs where s: "s = c # cs" using assms(1) by (cases s) auto
  show ?thesis
    using assms(2) unfolding s by (subst tokens.simps) (simp add: next_token_def Let_def tokens_space)
qed

lemma next_token_hd: "snd (next_token s) \<noteq> [] \<Longrightarrow> \<not> redp2p_is_space (hd (snd (next_token s)))"
  by (simp add: next_token_def Let_def hd_dropWhile)

lemma tokens_blank: "dropWhile redp2p_is_space s = [] \<Longrightarrow> tokens s = []"
  by (simp only: tokens.simps [of s] list.case)

lemma tokens_append_spaces: "list_all redp2p_is_space sp \<Longrightarrow> tokens (s @ sp) = tokens s"
proof (induction s rule: tokens.induct)
  case (1 s)
  have sp: "dropWhile redp2p_is_space sp = []" "takeWhile (\<lambda>c. \<not> redp2p_is_space c) sp = []"
    "dropWhile (\<lambda>c. \<not> redp2p_is_space c) sp = sp"
    using "1.prems" by (cases sp; auto simp: list_all_iff)+
  show ?case
  proof (cases "dropWhile redp2p_is_space s")
    case Nil
    then have "dropWhile redp2p_is_space (s @ sp) = []" using sp(1) by (simp add: dropWhile_append)
    with Nil show ?thesis by (simp only: tokens_blank)
  next
    case (Cons c cs)
    then have d: "dropWhile redp2p_is_space (s @ sp) = c # cs @ sp"
      by (metis append_Cons dropWhile_append dropWhile_eq_Nil_conv list.distinct(1))
    have e: "takeWhile (\<lambda>c. \<not> redp2p_is_space c) (cs @ sp) = takeWhile (\<lambda>c. \<not> redp2p_is_space c) cs"
      using sp(2) by (induction cs) auto
    have f: "dropWhile (\<lambda>c. \<not> redp2p_is_space c) (cs @ sp) = dropWhile (\<lambda>c. \<not> redp2p_is_space c) cs @ sp"
      using sp(3) by (induction cs) auto
    show ?thesis
      using "1.IH" [OF Cons "1.prems"] by (subst tokens.simps, subst (2) tokens.simps) (simp add: d e f Cons)
  qed
qed

lemma tokens_trim: "tokens (redp2p_trim t) = tokens t"
proof -
  let ?u = "dropWhile redp2p_is_space t"
  have "?u = redp2p_trim t @ rev (takeWhile redp2p_is_space (rev ?u))"
    unfolding redp2p_trim_def by (metis rev_append rev_rev_ident takeWhile_dropWhile_id)
  moreover have "list_all redp2p_is_space (rev (takeWhile redp2p_is_space (rev ?u)))"
    by (auto simp: list_all_iff dest: set_takeWhileD)
  ultimately have "tokens ?u = tokens (redp2p_trim t)" by (metis tokens_append_spaces)
  then show ?thesis by (simp add: tokens_space)
qed

lemma trim_hd: "redp2p_trim t \<noteq> [] \<Longrightarrow> \<not> redp2p_is_space (hd (redp2p_trim t))"
proof -
  assume ne: "redp2p_trim t \<noteq> []"
  let ?u = "dropWhile redp2p_is_space t"
  obtain r where r: "?u = redp2p_trim t @ r"
    unfolding redp2p_trim_def by (metis rev_append rev_rev_ident takeWhile_dropWhile_id)
  with ne have "hd ?u = hd (redp2p_trim t)" "?u \<noteq> []" by simp_all
  then show ?thesis by (metis hd_dropWhile)
qed

definition vip_room :: "redp2p \<Rightarrow> bool" where
  "vip_room ctx \<longleftrightarrow> length (vips ctx) \<le> vips_cap ctx \<and> vips_cap ctx \<le> max 8 (2 * length (vips ctx))"

lemma add_vip_eq:
  assumes alloc: "\<forall>n. alloc n" and room: "vip_room ctx" "length (vips ctx) < 2 ^ 32"
  shows "if reservable (pid, pass) \<and> pid \<notin> vip_id ` set (vips ctx)
    then \<exists>cap. redp2p_add_vip alloc ctx pid pass =
           (REDP2P_OK, ctx\<lparr>vips := vips ctx @ [vip_entry (pid, pass)], vips_cap := cap\<rparr>)
         \<and> vip_room (ctx\<lparr>vips := vips ctx @ [vip_entry (pid, pass)], vips_cap := cap\<rparr>)
    else redp2p_add_vip alloc ctx pid pass = (REDP2P_ERROR, ctx)"
proof (cases "reservable (pid, pass) \<and> pid \<notin> vip_id ` set (vips ctx)")
  case True
  define cap where "cap = (if length (vips ctx) < vips_cap ctx then vips_cap ctx
    else if vips_cap ctx > 0 then vips_cap ctx * 2 else 8)"
  have t: "take REDP2P_ID_MAX pid = pid" "take REDP2P_PASS_MAX pass = pass"
    using True by (simp_all add: reservable_def token_iffs macros)
  have b: "\<not> vips_cap ctx > SIZE_MAX div 2" "\<not> cap > SIZE_MAX div sizeof_vip"
    using room by (auto simp: vip_room_def cap_def macros)
  have "redp2p_add_vip alloc ctx pid pass =
      (REDP2P_OK, ctx\<lparr>vips := vips ctx @ [vip_entry (pid, pass)], vips_cap := cap\<rparr>)"
  proof (cases "length (vips ctx) < vips_cap ctx")
    case r: True
    have "ctx\<lparr>vips := vs, vips_cap := vips_cap ctx\<rparr> = ctx\<lparr>vips := vs\<rparr>" for vs by simp
    with r True t show ?thesis
      by (simp add: redp2p_add_vip_def reservable_def find_vip_None cap_def vip_entry_def Let_def)
  next
    case r: False
    with True t b alloc show ?thesis
      by (simp add: redp2p_add_vip_def reservable_def find_vip_None cap_def vip_entry_def Let_def)
  qed
  moreover have "vip_room (ctx\<lparr>vips := vips ctx @ [vip_entry (pid, pass)], vips_cap := cap\<rparr>)"
    using room by (auto simp: vip_room_def cap_def)
  ultimately show ?thesis using True by auto
next
  case False
  then have "redp2p_add_vip alloc ctx pid pass = (REDP2P_ERROR, ctx)"
    by (auto simp: redp2p_add_vip_def reservable_def find_vip_None)
  with False show ?thesis by auto
qed

lemma clear_vips_frame [simp]:
  "clear_vips (ctx\<lparr>vips := vs, vips_cap := cap\<rparr>) = clear_vips ctx"
  by (simp add: clear_vips_def)

lemma reservations_step:
  assumes "s \<noteq> []" "\<not> redp2p_is_space (hd s)"
  defines "r1 \<equiv> snd (next_token s)"
  defines "e \<equiv> (fst (next_token s), fst (next_token r1))"
  shows "reservations taken s =
    (if r1 = [] \<or> \<not> reservable e \<or> fst e \<in> set taken then None
     else map_option (Cons e) (reservations (fst e # taken) (snd (next_token r1))))"
proof (cases "r1 = []")
  case True
  then show ?thesis using tokens_next [OF assms(1,2)] by (simp add: reservations_def flip: r1_def)
next
  case False
  with assms have "\<not> redp2p_is_space (hd r1)" by (simp add: next_token_hd)
  with False have "tokens s = fst e # snd e # tokens (snd (next_token r1))"
    using tokens_next [OF assms(1,2)] tokens_next [of r1] by (simp add: e_def flip: r1_def)
  with False show ?thesis
    by (auto simp: reservations_def split: option.splits)
qed

lemma set_vip_loop_step:
  assumes "\<forall>n. alloc n" "vip_room ctx" "length (vips ctx) < 2 ^ 32" "cursor \<noteq> []"
  defines "r1 \<equiv> snd (next_token cursor)"
  defines "e \<equiv> (fst (next_token cursor), fst (next_token r1))"
  defines "r2 \<equiv> snd (next_token r1)"
  shows "if r1 = [] \<or> \<not> reservable e \<or> fst e \<in> vip_id ` set (vips ctx)
    then set_vip_loop alloc ctx cursor = (REDP2P_ERROR, clear_vips ctx)
    else \<exists>ctx' cap. ctx' = ctx\<lparr>vips := vips ctx @ [vip_entry e], vips_cap := cap\<rparr> \<and> vip_room ctx'
         \<and> redp2p_add_vip alloc ctx (fst e) (snd e) = (REDP2P_OK, ctx')
         \<and> set_vip_loop alloc ctx cursor = set_vip_loop alloc ctx' r2"
proof -
  have n1: "next_token cursor = (fst e, r1)" by (simp add: e_def r1_def)
  have n2: "next_token r1 = (snd e, r2)" by (simp add: e_def r2_def)
  note add = add_vip_eq [OF assms(1-3), of "fst e" "snd e"]
  consider "r1 = []" | "r1 \<noteq> []" "reservable e" "fst e \<notin> vip_id ` set (vips ctx)"
    | "r1 \<noteq> []" "\<not> (reservable e \<and> fst e \<notin> vip_id ` set (vips ctx))" by blast
  then show ?thesis
  proof cases
    case 1
    then show ?thesis using assms(4) n1 by (simp add: set_vip_loop.simps)
  next
    case 2
    then obtain cap where cap: "redp2p_add_vip alloc ctx (fst e) (snd e) =
        (REDP2P_OK, ctx\<lparr>vips := vips ctx @ [vip_entry e], vips_cap := cap\<rparr>)"
        "vip_room (ctx\<lparr>vips := vips ctx @ [vip_entry e], vips_cap := cap\<rparr>)"
      using add by auto
    have "set_vip_loop alloc ctx cursor =
        set_vip_loop alloc (ctx\<lparr>vips := vips ctx @ [vip_entry e], vips_cap := cap\<rparr>) r2"
      using 2 assms(4) n1 n2 cap by (subst set_vip_loop.simps) simp
    with 2 cap show ?thesis by auto
  next
    case 3
    then have "redp2p_add_vip alloc ctx (fst e) (snd e) = (REDP2P_ERROR, ctx)" using add by auto
    with 3 assms(4) n1 n2 show ?thesis by (subst set_vip_loop.simps) (auto simp: macros)
  qed
qed

definition vips_loaded :: "redp2p \<Rightarrow> (string \<times> string) list option \<Rightarrow> int \<times> redp2p \<Rightarrow> bool" where
  "vips_loaded ctx resv r \<longleftrightarrow>
     (case resv of
        None \<Rightarrow> r = (REDP2P_ERROR, clear_vips ctx)
      | Some ps \<Rightarrow> \<exists>cap \<ge> length (vips ctx @ map vip_entry ps). r =
          (REDP2P_OK, redp2p_update_nonvip_cap (ctx\<lparr>vips := vips ctx @ map vip_entry ps, vips_cap := cap\<rparr>)))"

lemma set_vip_loop_eq:
  assumes "\<forall>n. alloc n" "vip_room ctx" "length (vips ctx) + length cursor < 2 ^ 32"
    "cursor \<noteq> [] \<Longrightarrow> \<not> redp2p_is_space (hd cursor)"
  shows "vips_loaded ctx (reservations (map vip_id (vips ctx)) cursor) (set_vip_loop alloc ctx cursor)"
  using assms
proof (induction "length cursor" arbitrary: ctx cursor rule: less_induct)
  case less
  show ?case
  proof (cases "cursor = []")
    case True
    have "ctx\<lparr>vips := vips ctx, vips_cap := vips_cap ctx\<rparr> = ctx" by simp
    with True less.prems(2) show ?thesis
      by (auto simp: set_vip_loop.simps reservations_def vip_room_def vips_loaded_def
          intro!: exI [of _ "vips_cap ctx"])
  next
    case False
    define r1 where "r1 = snd (next_token cursor)"
    define e where "e = (fst (next_token cursor), fst (next_token r1))"
    define r2 where "r2 = snd (next_token r1)"
    have small: "length (vips ctx) < 2 ^ 32" using less.prems(3) by simp
    note res = reservations_step [OF False less.prems(4) [OF False], of "map vip_id (vips ctx)",
        folded r1_def, folded e_def r2_def]
    note step = set_vip_loop_step [OF less.prems(1,2) small False, folded r1_def, folded e_def r2_def]
    show ?thesis
    proof (cases "r1 = [] \<or> \<not> reservable e \<or> fst e \<in> vip_id ` set (vips ctx)")
      case True
      then show ?thesis using step res by (auto simp: vips_loaded_def)
    next
      case good: False
      with step obtain ctx' cap where ctx': "ctx' = ctx\<lparr>vips := vips ctx @ [vip_entry e], vips_cap := cap\<rparr>"
        and room: "vip_room ctx'" and loop: "set_vip_loop alloc ctx cursor = set_vip_loop alloc ctx' r2" by auto
      have "length r1 < length cursor" "length r2 < length r1"
        using length_next_token [OF False] length_next_token [of r1] good by (simp_all add: r1_def r2_def)
      then have "vips_loaded ctx' (reservations (map vip_id (vips ctx')) r2) (set_vip_loop alloc ctx' r2)"
        using less.prems room by (intro less.hyps) (auto simp: ctx' r2_def next_token_hd)
      moreover have "reservations (map vip_id (vips ctx')) r2 = reservations (fst e # map vip_id (vips ctx)) r2"
        by (simp add: reservations_def ctx' vip_entry_def split: option.split)
      ultimately show ?thesis
        using good res unfolding loop by (auto simp: vips_loaded_def ctx' split: option.splits)
    qed
  qed
qed

lemma set_vip_eq:
  assumes "\<forall>n. alloc n" "length t < 2 ^ 32"
  shows "vips_loaded (clear_vips ctx) (reservations [] t) (redp2p_set_vip alloc ctx (Some t))"
proof -
  have clear: "vips (clear_vips ctx) = []" "vip_room (clear_vips ctx)"
    by (simp_all add: clear_vips_def redp2p_update_nonvip_cap_def vip_room_def)
  have r: "reservations [] (redp2p_trim t) = reservations [] t"
    by (simp add: reservations_def tokens_trim)
  have len: "length (redp2p_trim t) \<le> length t"
    unfolding redp2p_trim_def by (metis length_dropWhile_le length_rev order_trans)
  have "alloc (length t + 1)" using assms(1) by blast
  moreover have "set_vip_loop alloc (clear_vips ctx) (redp2p_trim []) = (REDP2P_OK, clear_vips ctx)"
    by (simp add: redp2p_trim_def set_vip_loop.simps clear_vips_def redp2p_update_nonvip_cap_def)
  ultimately have eq: "redp2p_set_vip alloc ctx (Some t) = set_vip_loop alloc (clear_vips ctx) (redp2p_trim t)"
    by (cases "t = []") (simp_all add: redp2p_set_vip_def Let_def)
  show ?thesis
    unfolding eq
    by (rule set_vip_loop_eq [OF assms(1) clear(2), of "redp2p_trim t", unfolded clear(1) list.map(1) r])
      (use assms(2) len trim_hd [of t] in auto)
qed

section \<open>Configuration keeps the context well formed\<close>

text \<open>The part of the configuration that the reservation list does not touch.\<close>

definition wf_limits :: "redp2p \<Rightarrow> bool" where
  "wf_limits ctx \<longleftrightarrow> n_peers_cap ctx \<le> SIZE_MAX div sizeof_peer \<and> 0 \<le> pow_bits ctx \<and> pow_bits ctx \<le> REDP2P_POW_MAX"

lemma update_nonvip_cap_eq: "redp2p_update_nonvip_cap ctx = ctx\<lparr>nonvip_cap := n_peers_cap ctx - length (vips ctx)\<rparr>"
  by (simp add: redp2p_update_nonvip_cap_def)

lemma wf_config_update: "wf_vips ctx \<Longrightarrow> wf_limits ctx \<Longrightarrow> wf_config (redp2p_update_nonvip_cap ctx)"
  by (auto simp: wf_config_def wf_vips_def wf_limits_def redp2p_update_nonvip_cap_def)

lemma wf_config_clear: "wf_limits ctx \<Longrightarrow> wf_config (clear_vips ctx)"
  unfolding clear_vips_def by (rule wf_config_update) (simp_all add: wf_vips_def wf_limits_def)

lemma wf_add_vip:
  assumes "wf_vips ctx" "wf_limits ctx"
  shows "wf_vips (snd (redp2p_add_vip alloc ctx pid pass)) \<and> wf_limits (snd (redp2p_add_vip alloc ctx pid pass))"
proof (cases "redp2p_is_valid_id pid \<and> redp2p_is_valid_pass_token pass \<and> redp2p_find_vip ctx pid = None")
  case False
  then have "snd (redp2p_add_vip alloc ctx pid pass) = ctx" by (auto simp: redp2p_add_vip_def)
  with assms show ?thesis by simp
next
  case True
  then have "take REDP2P_ID_MAX pid = pid" "take REDP2P_PASS_MAX pass = pass" "pid \<notin> vip_id ` set (vips ctx)"
    by (simp_all add: token_iffs macros find_vip_None)
  with True assms show ?thesis
    by (auto simp: redp2p_add_vip_def Let_def wf_vips_def wf_limits_def)
qed

lemma wf_set_vip_loop:
  "wf_vips ctx \<Longrightarrow> wf_limits ctx \<Longrightarrow> wf_config (snd (set_vip_loop alloc ctx cursor))"
proof (induction alloc ctx cursor rule: set_vip_loop.induct)
  case (1 alloc ctx cursor)
  obtain pid r1 where n1: "next_token cursor = (pid, r1)" by fastforce
  obtain pass r2 where n2: "next_token r1 = (pass, r2)" by fastforce
  obtain rc ctx' where add: "redp2p_add_vip alloc ctx pid pass = (rc, ctx')" by fastforce
  have wf: "wf_vips ctx'" "wf_limits ctx'" using wf_add_vip [OF "1.prems", of alloc pid pass] by (simp_all add: add)
  have "wf_config (snd (set_vip_loop alloc ctx' r2))"
    if "cursor \<noteq> []" "r1 \<noteq> []" "rc = REDP2P_OK"
    using that wf
    by (intro "1.IH" [OF _ n1 [symmetric] refl _ n2 [symmetric] refl add [symmetric] refl]) auto
  then show ?case
    using "1.prems" wf by (subst set_vip_loop.simps) (simp add: n1 n2 add wf_config_update wf_config_clear)
qed

lemma wf_set_vip:
  assumes "wf_config ctx"
  shows "wf_config (snd (redp2p_set_vip alloc ctx v))"
proof -
  have "wf_config (clear_vips ctx)" using assms by (intro wf_config_clear) (simp add: wf_config_def wf_limits_def)
  moreover from this have "wf_config (snd (set_vip_loop alloc (clear_vips ctx) t))" for t
    by (intro wf_set_vip_loop) (simp_all add: wf_config_def wf_limits_def)
  ultimately show ?thesis by (simp add: redp2p_set_vip_def Let_def split: option.split)
qed

lemma wf_set_seats: "wf_config ctx \<Longrightarrow> wf_config (snd (redp2p_set_seats ctx n))"
  by (auto simp: redp2p_set_seats_def Let_def wf_limits_def wf_config_def wf_vips_def
      redp2p_update_nonvip_cap_def redp2p_set_error_def)

lemma wf_set_pow: "wf_config ctx \<Longrightarrow> wf_config (snd (redp2p_set_pow ctx bits))"
  by (auto simp: redp2p_set_pow_def wf_config_def wf_vips_def redp2p_set_error_def)

lemma wf_set_pass: "wf_config ctx \<Longrightarrow> wf_config (snd (redp2p_set_pass ctx p))"
  by (auto simp: redp2p_set_pass_def wf_config_def wf_vips_def redp2p_set_error_def split: option.split)

lemma wf_open: "redp2p_open getenv ok = Some ctx \<Longrightarrow> wf_ctx net ctx \<and> peers ctx = [] \<and> pending_calls ctx = [] \<and> conns ctx = []"
  by (auto simp: redp2p_open_def wf_ctx_def wf_config_def wf_vips_def wf_peers_def wf_calls_def peers_distinct_def
      redp2p_count_nonvip_peers_def macros split: if_splits)

section \<open>Properties\<close>

text \<open>
  Eviction removes exactly the publishers whose last refresh is more than
  \<^verbatim>\<open>etimeout_sec\<close> seconds ago and keeps the others in order, changing nothing else; a lookup
  after it finds a publisher exactly when it was present and not stale.
\<close>

theorem redp2p_evict_stale_exact:
  assumes "wf_ctx net ctx" "\<forall>p \<in> set (peers ctx). last_seen p \<le> now"
  shows "redp2p_evict_stale now ctx =
      ctx\<lparr>peers := filter (\<lambda>p. unat now - unat (last_seen p) \<le> unat (etimeout_sec ctx)) (peers ctx)\<rparr>
    \<and> (\<forall>pid. look_peer (redp2p_evict_stale now ctx) pid =
        (case look_peer ctx pid of None \<Rightarrow> None
         | Some p \<Rightarrow> if expired ctx now p then None else Some p))"
proof
  have "filter (\<lambda>p. \<not> expired ctx now p) (peers ctx) =
      filter (\<lambda>p. unat now - unat (last_seen p) \<le> unat (etimeout_sec ctx)) (peers ctx)"
    using assms(2) by (intro filter_cong) (auto simp: expired_def word_elapsed_iff)
  then show "redp2p_evict_stale now ctx =
      ctx\<lparr>peers := filter (\<lambda>p. unat now - unat (last_seen p) \<le> unat (etimeout_sec ctx)) (peers ctx)\<rparr>"
    by (simp add: evict_stale_eq)
  show "\<forall>pid. look_peer (redp2p_evict_stale now ctx) pid =
        (case look_peer ctx pid of None \<Rightarrow> None | Some p \<Rightarrow> if expired ctx now p then None else Some p)"
    using peer_table.look_expire [OF wf_ctx_distinct [OF assms(1)]] by blast
qed

definition demo_ctx :: redp2p where
  "demo_ctx = the (redp2p_open (\<lambda>_. None) True)"

definition demo_peer :: "string \<Rightarrow> u64 \<Rightarrow> redp2p_peer_t" where
  "demo_peer pid t = \<lparr>peer_id = pid, peer_key = ''0123456789abcdef'', last_seen = t, peer_proto = 1,
     peer_udp_port = 9, peer_candidates = []\<rparr>"

lemma demo_ctx_eq:
  "demo_ctx = \<lparr>peers = [], peers_alloc = 0, n_peers_cap = 0, nonvip_cap = 0, seats_set = False,
     vips = [], vips_cap = 0, conns = [], conns_cap = 0, ctx_key = [], ctx_pass = [],
     pow_bits = 0, bind_port = 0, explicit_port = False, ctx_proto = 1,
     ctx_sweep = 0, stun_url = [], state_dir = [], err_buf = [],
     fault_drop_counter = 0, fault_reorder_counter = 0,
     prune_interval_s = 60, etimeout_sec = 120, heartbeat_s = 15, punch_poll_ms = 500,
     pending_calls = [], stop_requested = False\<rparr>"
  by (simp add: demo_ctx_def redp2p_open_def env_override_def macros)

lemma demo_wf:
  "wf_ctx net (demo_ctx\<lparr>peers := [demo_peer ''a'' 10, demo_peer ''b'' 200], peers_alloc := 8\<rparr>)"
  by (simp add: demo_ctx_eq demo_peer_def wf_ctx_def wf_config_def wf_vips_def wf_peers_def wf_calls_def
      peers_distinct_def wf_peer_def wf_candidates_def redp2p_is_hex_token_def is_hex_digit_def between_def
      redp2p_is_valid_id_def is_alnum_def macros)

theorem redp2p_evict_stale_exact_witness:
  "peers (redp2p_evict_stale 250 (demo_ctx\<lparr>peers := [demo_peer ''a'' 10, demo_peer ''b'' 200], peers_alloc := 8\<rparr>))
   = [demo_peer ''b'' 200]"
  using redp2p_evict_stale_exact [OF demo_wf, of 250] by (simp add: demo_ctx_eq demo_peer_def)

text \<open>
  C30: while every reservation has a seat, a reserved publisher that is offline is never
  turned away for lack of seats, whoever else is online: with memory and random bytes
  available it is added with a fresh key.
\<close>

theorem redp2p_add_peer_vip_guarantee:
  assumes "wf_ctx net ctx" "length (vips ctx) \<le> n_peers_cap ctx" "seats_set ctx"
    "redp2p_find_vip ctx pid \<noteq> None" "redp2p_find_peer ctx pid = None" "redp2p_is_valid_id pid"
    "\<forall>n. alloc n" "length bs = 8"
  shows "\<exists>cap > length (peers ctx). redp2p_add_peer alloc (Some bs) now ctx pid =
    (REDP2P_OK, ctx\<lparr>peers_alloc := cap, peers := peers ctx @ [fresh_peer pid (hex_pairs bs) now]\<rparr>)"
proof -
  have free: "\<not> seat_taken ctx pid" using assms by (intro vip_seat_free)
  have key: "redp2p_generate_key (Some bs) = Some (hex_pairs bs)"
    using assms(8) by (simp add: redp2p_generate_key_def redp2p_hex_encode_def macros)
  have cap: "length (peers ctx) < SIZE_MAX div sizeof_peer"
    using free assms(1,3) by (auto simp: seat_taken_def wf_ctx_def wf_config_def)
  from assms(1,6) show ?thesis
  proof (cases rule: add_peer_cases [where alloc = alloc and r = "Some bs" and now = now])
    case (failed c)
    then show ?thesis using assms(7) cap key by simp
  qed (use assms free key in auto)
qed

definition demo_full :: redp2p where
  "demo_full = demo_ctx\<lparr>peers := [demo_peer ''a'' 10], peers_alloc := 2, n_peers_cap := 2, nonvip_cap := 1,
     seats_set := True, vips := [\<lparr>vip_id = ''v'', vip_pass = ''pw''\<rparr>], vips_cap := 8\<rparr>"

lemma demo_full_wf: "wf_ctx net demo_full"
  by (simp add: demo_full_def demo_ctx_eq demo_peer_def wf_ctx_def wf_config_def wf_vips_def wf_peers_def
      wf_calls_def peers_distinct_def wf_peer_def wf_candidates_def redp2p_is_hex_token_def is_hex_digit_def
      between_def redp2p_is_valid_id_def redp2p_is_valid_pass_token_def redp2p_is_pass_char_def
      redp2p_count_nonvip_peers_def redp2p_find_vip_def is_alnum_def macros)

theorem redp2p_add_peer_vip_guarantee_witness:
  "fst (redp2p_add_peer (\<lambda>_. True) (Some [1, 2, 3, 4, 5, 6, 7, 8]) 20 demo_full ''v'') = REDP2P_OK"
  using redp2p_add_peer_vip_guarantee [OF demo_full_wf, of "''v''" "\<lambda>_. True" "[1, 2, 3, 4, 5, 6, 7, 8]" 20]
  by (auto simp: demo_full_def demo_ctx_eq demo_peer_def redp2p_find_vip_def redp2p_find_peer_def
      redp2p_is_valid_id_def is_alnum_def between_def macros)

text \<open>
  The reservation text is accepted exactly when its whitespace-separated tokens come in
  pairs of a valid identifier and a valid password with no identifier twice; the table is then
  exactly those pairs in order and the unreserved capacity is what the seats leave. Any other
  text is an error that leaves no reservation behind.
\<close>

theorem redp2p_set_vip_exact:
  assumes "\<forall>n. alloc n" "length t < 2 ^ 32" "redp2p_set_vip alloc ctx (Some t) = (rc, ctx')"
  shows "case reservations [] t of
      Some ps \<Rightarrow> rc = REDP2P_OK \<and> vips ctx' = map vip_entry ps \<and> length ps \<le> vips_cap ctx'
        \<and> nonvip_cap ctx' = n_peers_cap ctx - length ps
        \<and> ctx' = ctx\<lparr>vips := vips ctx', vips_cap := vips_cap ctx', nonvip_cap := nonvip_cap ctx'\<rparr>
    | None \<Rightarrow> rc = REDP2P_ERROR \<and> ctx' = ctx\<lparr>vips := [], vips_cap := 0, nonvip_cap := n_peers_cap ctx\<rparr>"
  using set_vip_eq [OF assms(1,2), of ctx] assms(3)
  by (auto simp: vips_loaded_def clear_vips_def update_nonvip_cap_eq split: option.splits)

theorem redp2p_set_vip_exact_witness:
  "fst (redp2p_set_vip (\<lambda>_. True) demo_ctx (Some ''a x b'')) = REDP2P_ERROR"
proof -
  obtain rc ctx' where r: "redp2p_set_vip (\<lambda>_. True) demo_ctx (Some ''a x b'') = (rc, ctx')" by fastforce
  have "reservations [] ''a x b'' = None"
    by (simp add: reservations_def tokens.simps redp2p_is_space_def LF_def CR_def)
  then show ?thesis using redp2p_set_vip_exact [OF _ _ r] r by simp
qed

text \<open>
  C34: the timing parameters of a freshly opened context. Each keeps its default when its
  environment variable is unset \<^emph>\<open>and when the variable holds a value in range\<close>; when the
  variable holds anything else the parameter is zero. The override is applied exactly when the
  number is rejected, because the parser's success value 1 is compared with
  \<^verbatim>\<open>REDP2P_OK\<close>.
\<close>

theorem redp2p_open_overrides:
  assumes "redp2p_open getenv True = Some ctx"
  shows "let timing = (\<lambda>name lo hi dflt. case getenv name of
            None \<Rightarrow> dflt
          | Some t \<Rightarrow> if t \<noteq> [] \<and> list_all is_digit t \<and> lo \<le> int (dec_from 0 t) \<and> int (dec_from 0 t) \<le> hi
                      then dflt else 0)
    in prune_interval_s ctx = timing ''REDP2P_PRUNE_INTERVAL_S'' 1 3600 60
     \<and> etimeout_sec ctx = timing ''REDP2P_ETIMEOUT_SEC'' 1 86400 120
     \<and> heartbeat_s ctx = timing ''REDP2P_HEARTBEAT_S'' 1 3600 15
     \<and> punch_poll_ms ctx = timing ''REDP2P_PUNCH_POLL_MS'' 10 60000 500"
proof -
  have "env_override getenv name lo hi dflt =
      (case getenv name of None \<Rightarrow> dflt
       | Some t \<Rightarrow> if t \<noteq> [] \<and> list_all is_digit t \<and> lo \<le> int (dec_from 0 t) \<and> int (dec_from 0 t) \<le> hi
                   then dflt else 0)"
    if "0 \<le> lo" "lo \<le> hi" "hi < 2 ^ 63" for name lo hi dflt
    using that by (auto simp: env_override_def redp2p_parse_u_eq macros Let_def split: option.split)
  then show ?thesis using assms by (simp add: redp2p_open_def Let_def) (auto simp: Let_def)
qed

theorem redp2p_open_overrides_witness:
  "map_option etimeout_sec (redp2p_open (\<lambda>n. if n = ''REDP2P_ETIMEOUT_SEC'' then Some ''300'' else None) True) = Some 120"
proof -
  let ?env = "\<lambda>n. if n = ''REDP2P_ETIMEOUT_SEC'' then Some ''300'' else None"
  obtain ctx where ctx: "redp2p_open ?env True = Some ctx" by (simp add: redp2p_open_def)
  from redp2p_open_overrides [OF this] have "etimeout_sec ctx = 120"
    by (simp add: Let_def between_def)
  with ctx show ?thesis by simp
qed

text \<open>
  Polling a publisher's pending calls returns every call addressed to it, each as often as
  it is stored, and leaves exactly the calls addressed to others; a second poll is empty.
\<close>

theorem redp2p_pending_call_take_all_exact:
  "let (out, ctx') = redp2p_pending_call_take_all ctx target
   in mset out = filter_mset (\<lambda>c. target_id c = target) (mset (pending_calls ctx))
    \<and> mset (pending_calls ctx') = filter_mset (\<lambda>c. target_id c \<noteq> target) (mset (pending_calls ctx))
    \<and> ctx' = ctx\<lparr>pending_calls := pending_calls ctx'\<rparr>
    \<and> fst (redp2p_pending_call_take_all ctx' target) = []"
proof -
  have "mset (fst (redp2p_pending_call_take_all (snd (redp2p_pending_call_take_all ctx target)) target)) = {#}"
    by (simp add: pending_take_frame sweep_whole)
  then have "fst (redp2p_pending_call_take_all (snd (redp2p_pending_call_take_all ctx target)) target) = []"
    by (simp only: mset_zero_iff)
  then show ?thesis by (simp add: pending_take_frame sweep_whole)
qed

end
