(* ===== verification/Sha256.thy ===== *)
theory Sha256
  imports Text_Util
begin

text \<open>
  The streaming SHA-256 and HMAC of \<^verbatim>\<open>src/src/libredp2p.c\<close>. The context record holds the
  chaining value, the 64-bit byte counter and the 64-byte block buffer; \<open>init\<close> leaves the
  buffer as it finds it, as the C code does. The reference is the one-shot hash: pad the
  whole message, cut it into blocks, fold the compression function.
\<close>

section \<open>Definitions\<close>

record redp2p_sha256_t =
  sha_state :: "u32 list"
  sha_count :: u64
  sha_buf :: "byte list"

definition redp2p_sha256_k :: "u32 list" where
  "redp2p_sha256_k =
    concat [
      [0x428a2f98, 0x71374491, 0xb5c0fbcf, 0xe9b5dba5],
      [0x3956c25b, 0x59f111f1, 0x923f82a4, 0xab1c5ed5],
      [0xd807aa98, 0x12835b01, 0x243185be, 0x550c7dc3],
      [0x72be5d74, 0x80deb1fe, 0x9bdc06a7, 0xc19bf174],
      [0xe49b69c1, 0xefbe4786, 0x0fc19dc6, 0x240ca1cc],
      [0x2de92c6f, 0x4a7484aa, 0x5cb0a9dc, 0x76f988da],
      [0x983e5152, 0xa831c66d, 0xb00327c8, 0xbf597fc7],
      [0xc6e00bf3, 0xd5a79147, 0x06ca6351, 0x14292967],
      [0x27b70a85, 0x2e1b2138, 0x4d2c6dfc, 0x53380d13],
      [0x650a7354, 0x766a0abb, 0x81c2c92e, 0x92722c85],
      [0xa2bfe8a1, 0xa81a664b, 0xc24b8b70, 0xc76c51a3],
      [0xd192e819, 0xd6990624, 0xf40e3585, 0x106aa070],
      [0x19a4c116, 0x1e376c08, 0x2748774c, 0x34b0bcb5],
      [0x391c0cb3, 0x4ed8aa4a, 0x5b9cca4f, 0x682e6ff3],
      [0x748f82ee, 0x78a5636f, 0x84c87814, 0x8cc70208],
      [0x90befffa, 0xa4506ceb, 0xbef9a3f7, 0xc67178f2]]"

definition SHA256_ROR :: "u32 \<Rightarrow> nat \<Rightarrow> u32" where
  "SHA256_ROR x n = drop_bit n x OR push_bit (32 - n) x"

definition SHA256_CH :: "u32 \<Rightarrow> u32 \<Rightarrow> u32 \<Rightarrow> u32" where
  "SHA256_CH x y z = (x AND y) XOR (NOT x AND z)"

definition SHA256_MAJ :: "u32 \<Rightarrow> u32 \<Rightarrow> u32 \<Rightarrow> u32" where
  "SHA256_MAJ x y z = (x AND y) XOR (x AND z) XOR (y AND z)"

definition SHA256_S0 :: "u32 \<Rightarrow> u32" where
  "SHA256_S0 x = SHA256_ROR x 2 XOR SHA256_ROR x 13 XOR SHA256_ROR x 22"

definition SHA256_S1 :: "u32 \<Rightarrow> u32" where
  "SHA256_S1 x = SHA256_ROR x 6 XOR SHA256_ROR x 11 XOR SHA256_ROR x 25"

definition SHA256_s0 :: "u32 \<Rightarrow> u32" where
  "SHA256_s0 x = SHA256_ROR x 7 XOR SHA256_ROR x 18 XOR drop_bit 3 x"

definition SHA256_s1 :: "u32 \<Rightarrow> u32" where
  "SHA256_s1 x = SHA256_ROR x 17 XOR SHA256_ROR x 19 XOR drop_bit 10 x"

text \<open>The message schedule: sixteen big-endian words of the block, then the recurrence.\<close>

definition sha_load :: "byte list \<Rightarrow> u32 list" where
  "sha_load block = map (\<lambda>t. push_bit 24 (ucast (block ! (t * 4))) OR
     push_bit 16 (ucast (block ! (t * 4 + 1))) OR
     push_bit 8 (ucast (block ! (t * 4 + 2))) OR
     ucast (block ! (t * 4 + 3))) [0..<16]"

definition sha_schedule :: "byte list \<Rightarrow> u32 list" where
  "sha_schedule block =
     fold (\<lambda>t W. W @ [SHA256_s1 (W ! (t - 2)) + W ! (t - 7) + SHA256_s0 (W ! (t - 15)) + W ! (t - 16)])
       [16..<64] (sha_load block)"

definition sha_round ::
  "u32 list \<Rightarrow> nat \<Rightarrow> u32 \<times> u32 \<times> u32 \<times> u32 \<times> u32 \<times> u32 \<times> u32 \<times> u32
     \<Rightarrow> u32 \<times> u32 \<times> u32 \<times> u32 \<times> u32 \<times> u32 \<times> u32 \<times> u32" where
  "sha_round W t = (\<lambda>(a, b, c, d, e, f, g, h).
     let T1 = h + SHA256_S1 e + SHA256_CH e f g + redp2p_sha256_k ! t + W ! t;
         T2 = SHA256_S0 a + SHA256_MAJ a b c
     in (T1 + T2, a, b, c, d + T1, e, f, g))"

definition redp2p_sha256_transform :: "u32 list \<Rightarrow> byte list \<Rightarrow> u32 list" where
  "redp2p_sha256_transform state block =
     (let W = sha_schedule block;
          (a, b, c, d, e, f, g, h) =
            fold (sha_round W) [0..<64]
              (state ! 0, state ! 1, state ! 2, state ! 3, state ! 4, state ! 5, state ! 6, state ! 7)
      in [state ! 0 + a, state ! 1 + b, state ! 2 + c, state ! 3 + d,
          state ! 4 + e, state ! 5 + f, state ! 6 + g, state ! 7 + h])"

definition sha_iv :: "u32 list" where
  "sha_iv = [0x6a09e667, 0xbb67ae85, 0x3c6ef372, 0xa54ff53a,
             0x510e527f, 0x9b05688c, 0x1f83d9ab, 0x5be0cd19]"

definition redp2p_sha256_init :: "redp2p_sha256_t \<Rightarrow> redp2p_sha256_t" where
  "redp2p_sha256_init ctx = ctx\<lparr>sha_state := sha_iv, sha_count := 0\<rparr>"

definition sha_push :: "byte \<Rightarrow> redp2p_sha256_t \<Rightarrow> redp2p_sha256_t" where
  "sha_push x ctx =
     (let ctx = ctx\<lparr>sha_buf := (sha_buf ctx)[unat (sha_count ctx AND 63) := x]\<rparr>;
          ctx = ctx\<lparr>sha_count := sha_count ctx + 1\<rparr>
      in if sha_count ctx AND 63 = 0
         then ctx\<lparr>sha_state := redp2p_sha256_transform (sha_state ctx) (sha_buf ctx)\<rparr>
         else ctx)"

definition redp2p_sha256_update :: "redp2p_sha256_t \<Rightarrow> byte list \<Rightarrow> redp2p_sha256_t" where
  "redp2p_sha256_update ctx data = fold sha_push data ctx"

definition zero_fill :: "nat \<Rightarrow> nat \<Rightarrow> byte list \<Rightarrow> byte list" where
  "zero_fill i j buf = fold (\<lambda>k b. b[k := 0]) [i..<j] buf"

definition be64 :: "u64 \<Rightarrow> byte list" where
  "be64 bits = map (\<lambda>s. ucast (drop_bit s bits)) [56, 48, 40, 32, 24, 16, 8, 0]"

definition be32 :: "u32 \<Rightarrow> byte list" where
  "be32 w = map (\<lambda>s. ucast (drop_bit s w)) [24, 16, 8, 0]"

definition redp2p_sha256_final :: "redp2p_sha256_t \<Rightarrow> redp2p_sha256_t \<times> byte list" where
  "redp2p_sha256_final ctx =
     (let bits = sha_count ctx * 8;
          idx = unat (sha_count ctx AND 63);
          buf = (sha_buf ctx)[idx := 0x80];
          idx = idx + 1;
          (state, buf, idx) =
            (if idx > 56
             then let buf = zero_fill idx 64 buf
                  in (redp2p_sha256_transform (sha_state ctx) buf, buf, 0)
             else (sha_state ctx, buf, idx));
          buf = zero_fill idx 56 buf;
          buf = fold (\<lambda>i b. b[56 + i := be64 bits ! i]) [0..<8] buf;
          state = redp2p_sha256_transform state buf
      in (ctx\<lparr>sha_state := state, sha_buf := buf\<rparr>, concat (map be32 state)))"

text \<open>HMAC: \<open>key\<close> is the password text, \<open>ctx\<close> the uninitialised local context.\<close>

definition bytes_of :: "string \<Rightarrow> byte list" where
  "bytes_of s = map (\<lambda>c. of_nat (ord c)) s"

definition hmac_key_block :: "redp2p_sha256_t \<Rightarrow> string \<Rightarrow> redp2p_sha256_t \<times> byte list" where
  "hmac_key_block ctx key =
     (let key_len = length key
      in if key_len > 64
         then let (ctx, h) = redp2p_sha256_final (redp2p_sha256_update (redp2p_sha256_init ctx) (bytes_of key))
              in (ctx, h @ replicate 32 0)
         else (ctx, bytes_of key @ replicate (64 - key_len) 0))"

definition redp2p_hmac_sha256 :: "redp2p_sha256_t \<Rightarrow> string \<Rightarrow> byte list \<Rightarrow> byte list" where
  "redp2p_hmac_sha256 ctx key msg =
     (let (ctx, key_block) = hmac_key_block ctx key;
          ipad = map (\<lambda>b. b XOR 0x36) key_block;
          opad = map (\<lambda>b. b XOR 0x5c) key_block;
          ctx = redp2p_sha256_init ctx;
          ctx = redp2p_sha256_update ctx ipad;
          ctx = redp2p_sha256_update ctx msg;
          (ctx, inner) = redp2p_sha256_final ctx;
          ctx = redp2p_sha256_init ctx;
          ctx = redp2p_sha256_update ctx opad;
          ctx = redp2p_sha256_update ctx inner;
          (ctx, hash) = redp2p_sha256_final ctx
      in hash)"

section \<open>The one-shot reference\<close>

definition blocks :: "byte list \<Rightarrow> byte list list" where
  "blocks xs = map (\<lambda>i. take 64 (drop (64 * i) xs)) [0..<length xs div 64]"

definition sha_pad :: "byte list \<Rightarrow> byte list" where
  "sha_pad m = m @ [0x80] @ replicate ((119 - length m mod 64) mod 64) 0 @ be64 (of_nat (8 * length m))"

definition sha256_ref :: "byte list \<Rightarrow> byte list" where
  "sha256_ref m = concat (map be32 (foldl redp2p_sha256_transform sha_iv (blocks (sha_pad m))))"

definition hmac_ref :: "byte list \<Rightarrow> byte list \<Rightarrow> byte list" where
  "hmac_ref key msg =
     (let k = (if length key > 64 then sha256_ref key else key);
          k = k @ replicate (64 - length k) 0
      in sha256_ref (map (\<lambda>b. b XOR 0x5c) k @ sha256_ref (map (\<lambda>b. b XOR 0x36) k @ msg)))"

section \<open>Streaming equals one-shot\<close>

lemma blocks_append:
  assumes "length a = 64 * n"
  shows "blocks (a @ b) = blocks a @ blocks b"
proof -
  have "(64 * n + length b) div 64 = n + length b div 64" by simp
  then have "blocks (a @ b) = map (\<lambda>i. take 64 (drop (64 * i) (a @ b))) ([0..<n] @ [n..<n + length b div 64])"
    by (simp add: blocks_def assms flip: upt_add_eq_append)
  moreover have "map (\<lambda>i. take 64 (drop (64 * i) (a @ b))) [0..<n] = blocks a"
    by (simp add: blocks_def assms)
  moreover have "map (\<lambda>i. take 64 (drop (64 * i) (a @ b))) [n..<n + length b div 64] = blocks b"
    by (rule nth_equalityI) (simp_all add: blocks_def assms algebra_simps)
  ultimately show ?thesis by simp
qed

lemma blocks_short: "length a < 64 \<Longrightarrow> blocks a = []"
  by (simp add: blocks_def)

lemma blocks_single: "length a = 64 \<Longrightarrow> blocks a = [a]"
  by (simp add: blocks_def)

lemma blocks_full: "blocks (take (64 * (length m div 64)) m @ t) = blocks m @ blocks t"
proof -
  let ?q = "length m div 64" and ?r = "drop (64 * (length m div 64)) m"
  have l: "length (take (64 * ?q) m) = 64 * ?q" by simp
  have "length ?r < 64" by simp
  then have "blocks m = blocks (take (64 * ?q) m)"
    using blocks_append [OF l, of ?r] by (simp add: blocks_short)
  then show ?thesis using blocks_append [OF l, of t] by simp
qed

lemma count_and_63: "unat ((of_nat n :: u64) AND 63) = n mod 64"
proof -
  have m: "(63 :: u64) = mask 6" by (simp add: mask_eq_exp_minus_1)
  have "unat (take_bit 6 (of_nat n :: u64)) = take_bit 6 (take_bit 64 n)"
    by (simp add: unsigned_take_bit_eq unsigned_of_nat)
  then have "unat ((of_nat n :: u64) AND mask 6) = take_bit 6 n"
    by (simp only: take_bit_eq_mask [symmetric]) simp
  then show ?thesis unfolding m by (simp add: take_bit_eq_mod)
qed

lemma count_and_63_zero: "(of_nat n :: u64) AND 63 = 0 \<longleftrightarrow> n mod 64 = 0"
  by (metis count_and_63 unat_eq_zero)

text \<open>What the context holds after streaming \<open>m\<close>.\<close>

definition sha_holds :: "byte list \<Rightarrow> redp2p_sha256_t \<Rightarrow> bool" where
  "sha_holds m ctx \<longleftrightarrow>
     sha_count ctx = of_nat (length m) \<and>
     sha_state ctx = foldl redp2p_sha256_transform sha_iv (blocks m) \<and>
     length (sha_buf ctx) = 64 \<and>
     take (length m mod 64) (sha_buf ctx) = drop (64 * (length m div 64)) m"

lemma sha_holds_init: "length (sha_buf ctx) = 64 \<Longrightarrow> sha_holds [] (redp2p_sha256_init ctx)"
  by (simp add: sha_holds_def redp2p_sha256_init_def blocks_def)

lemma sha_holds_push:
  assumes "sha_holds m ctx"
  shows "sha_holds (m @ [x]) (sha_push x ctx)"
proof -
  let ?n = "length m" and ?q = "64 * (length m div 64)"
  define buf where "buf = (sha_buf ctx)[?n mod 64 := x]"
  have c: "sha_count ctx = of_nat ?n" and s: "sha_state ctx = foldl redp2p_sha256_transform sha_iv (blocks m)"
    and b: "length (sha_buf ctx) = 64" and t: "take (?n mod 64) (sha_buf ctx) = drop ?q m"
    using assms by (auto simp: sha_holds_def)
  have lt: "?n mod 64 < 64" by simp
  have tb: "take (Suc (?n mod 64)) buf = drop ?q m @ [x]"
    using b t lt by (simp add: buf_def take_Suc_conv_app_nth)
  have lb: "length buf = 64" by (simp add: buf_def b)
  have c1: "sha_count ctx + 1 = of_nat (Suc ?n)" by (simp add: c)
  have step: "sha_push x ctx =
    (if Suc ?n mod 64 = 0
     then ctx\<lparr>sha_buf := buf, sha_count := of_nat (Suc ?n), sha_state := redp2p_sha256_transform (sha_state ctx) buf\<rparr>
     else ctx\<lparr>sha_buf := buf, sha_count := of_nat (Suc ?n)\<rparr>)"
    using count_and_63_zero [of "Suc ?n"]
    by (simp add: sha_push_def Let_def c count_and_63 buf_def add.commute)
  have mx: "m @ [x] = take ?q m @ (drop ?q m @ [x])" by simp
  show ?thesis
  proof (cases "Suc ?n mod 64 = 0")
    case True
    then have full: "?n mod 64 = 63" by (simp add: mod_Suc split: if_splits)
    then have "drop ?q m @ [x] = buf" using tb lb by simp
    moreover have "blocks (m @ [x]) = blocks m @ blocks (drop ?q m @ [x])"
      by (subst mx) (rule blocks_full)
    ultimately have bl: "blocks (m @ [x]) = blocks m @ [buf]" using blocks_single [OF lb] by simp
    have "Suc ?n = 64 * (Suc ?n div 64)" using True mult_div_mod_eq [of 64 "Suc ?n"] by simp
    then show ?thesis using True by (simp add: step sha_holds_def bl s lb)
  next
    case False
    then have d: "Suc ?n div 64 = ?n div 64" and r: "Suc ?n mod 64 = Suc (?n mod 64)"
      by (auto simp: div_Suc mod_Suc)
    have "length (drop ?q m @ [x]) < 64"
      using lt False r by (simp add: minus_mult_div_eq_mod)
    then have "blocks (m @ [x]) = blocks m"
      by (subst mx) (simp only: blocks_full blocks_short append_Nil2)
    then show ?thesis using False tb by (simp add: step sha_holds_def d r s lb)
  qed
qed

lemma sha_holds_update: "sha_holds m ctx \<Longrightarrow> sha_holds (m @ d) (redp2p_sha256_update ctx d)"
proof (induction d arbitrary: m ctx)
  case (Cons x xs)
  from Cons.IH [OF sha_holds_push [OF Cons.prems, of x]] show ?case
    by (simp add: redp2p_sha256_update_def)
qed (simp add: redp2p_sha256_update_def)

lemma fill_range:
  "i \<le> j \<Longrightarrow> s + j \<le> length buf \<Longrightarrow>
   fold (\<lambda>k b. b[s + k := f k]) [i..<j] buf = take (s + i) buf @ map f [i..<j] @ drop (s + j) buf"
proof (induction j)
  case (Suc j)
  show ?case
  proof (cases "i \<le> j")
    case True
    have d: "drop (s + j) buf = buf ! (s + j) # drop (s + Suc j) buf"
      using Suc.prems(2) by (simp add: Cons_nth_drop_Suc)
    have "fold (\<lambda>k b. b[s + k := f k]) [i..<Suc j] buf
        = (take (s + i) buf @ map f [i..<j] @ drop (s + j) buf)[s + j := f j]"
      using Suc True by simp
    also have "\<dots> = take (s + i) buf @ map f [i..<j] @ f j # drop (s + Suc j) buf"
      unfolding d using True Suc.prems(2) by (simp add: list_update_append)
    finally show ?thesis using True by simp
  next
    case False
    then have "i = Suc j" using Suc.prems(1) by simp
    then show ?thesis by simp
  qed
qed simp

lemma zero_fill_eq:
  assumes "i \<le> j" "j \<le> length buf"
  shows "zero_fill i j buf = take i buf @ replicate (j - i) 0 @ drop j buf"
proof -
  have "map (\<lambda>_. 0) [i..<j] = replicate (j - i) (0 :: byte)"
    by (simp add: map_replicate_const)
  then show ?thesis using fill_range [of i j 0 buf "\<lambda>_. 0"] assms by (simp add: zero_fill_def)
qed

lemma length_be64 [simp]: "length (be64 w) = 8"
  by (simp add: be64_def)

lemma length_be32 [simp]: "length (be32 w) = 4"
  by (simp add: be32_def)

lemma length_transform [simp]: "length (redp2p_sha256_transform st b) = 8"
  unfolding redp2p_sha256_transform_def Let_def case_prod_unfold by simp

lemma length_fold_update: "length (fold (\<lambda>k b. b[g k := f k]) ks buf) = length buf"
  by (induction ks arbitrary: buf) simp_all

lemma length_zero_fill [simp]: "length (zero_fill i j buf) = length buf"
  unfolding zero_fill_def by (rule length_fold_update)

lemma length_final:
  "length (sha_buf (fst (redp2p_sha256_final ctx))) = length (sha_buf ctx)"
  by (simp add: redp2p_sha256_final_def Let_def length_fold_update)

lemma length_concat_be32: "length (concat (map be32 ws)) = 4 * length ws"
  by (induction ws) simp_all

lemma write_length_bytes:
  "length buf = 64 \<Longrightarrow> fold (\<lambda>i b. b[56 + i := be64 w ! i]) [0..<8] buf = take 56 buf @ be64 w"
proof -
  assume "length buf = 64"
  moreover have "map ((!) (be64 w)) [0..<8] = be64 w"
    by (metis length_be64 map_nth)
  ultimately show ?thesis using fill_range [of 0 8 56 buf "(!) (be64 w)"] by simp
qed

lemma sha_final_ref:
  assumes "sha_holds m ctx"
  shows "snd (redp2p_sha256_final ctx) = sha256_ref m"
proof -
  let ?n = "length m" and ?r = "drop (64 * (length m div 64)) m"
  let ?st = "foldl redp2p_sha256_transform sha_iv (blocks m)"
  let ?bits = "be64 (of_nat (8 * length m))"
  define idx where "idx = ?n mod 64"
  have c: "sha_count ctx = of_nat ?n" and s: "sha_state ctx = ?st"
    and b: "length (sha_buf ctx) = 64" and t: "take idx (sha_buf ctx) = ?r"
    using assms by (auto simp: sha_holds_def idx_def)
  have lr: "length ?r = idx" by (simp add: idx_def minus_mult_div_eq_mod)
  have idx: "idx < 64" by (simp add: idx_def)
  have bits: "sha_count ctx * 8 = of_nat (8 * ?n)" by (simp add: c mult.commute)
  define buf where "buf = (sha_buf ctx)[idx := 0x80]"
  have lb: "length buf = 64" by (simp add: buf_def b)
  have tb: "take (Suc idx) buf = ?r @ [0x80]"
    using b idx t by (simp add: buf_def take_Suc_conv_app_nth)
  have pad: "blocks (sha_pad m) = blocks m @ blocks (?r @ [0x80] @ replicate ((119 - idx) mod 64) 0 @ ?bits)"
  proof -
    have "sha_pad m = take (64 * (length m div 64)) m @ ?r @ [0x80] @ replicate ((119 - idx) mod 64) 0 @ ?bits"
      by (simp add: sha_pad_def idx_def)
    then show ?thesis by (simp only: blocks_full)
  qed
  show ?thesis
  proof (cases "Suc idx > 56")
    case True
    let ?b1 = "?r @ [0x80] @ replicate (63 - idx) 0" and ?b2 = "replicate 56 0 @ ?bits"
    have z: "zero_fill (Suc idx) 64 buf = ?b1"
      using idx lb tb by (simp add: zero_fill_eq)
    have l1: "length ?b1 = 64 * 1" using idx lr by simp
    have "(119 - idx) mod 64 = (63 - idx) + 56" using True idx by simp
    then have "?r @ [0x80] @ replicate ((119 - idx) mod 64) 0 @ ?bits = ?b1 @ ?b2"
      by (simp only: replicate_add append_assoc)
    then have bl: "blocks (sha_pad m) = blocks m @ [?b1, ?b2]"
      using pad blocks_append [OF l1, of ?b2] l1 by (simp add: blocks_single)
    have "fold (\<lambda>i b. b[56 + i := ?bits ! i]) [0..<8] (zero_fill 0 56 ?b1) = ?b2"
      using l1 by (simp add: write_length_bytes zero_fill_eq)
    then show ?thesis
      using True z l1
      by (simp add: redp2p_sha256_final_def Let_def bits c count_and_63 s sha256_ref_def bl
          mult.commute [of _ "8 :: u64"] flip: idx_def buf_def)
  next
    case False
    let ?b1 = "?r @ [0x80] @ replicate (55 - idx) 0 @ ?bits"
    have "(119 - idx) mod 64 = 55 - idx"
    proof -
      have "119 - idx = (55 - idx) + 64" using False by simp
      then show ?thesis by (simp only: mod_add_self2) simp
    qed
    moreover have "length ?b1 = 64" using False lr by simp
    ultimately have bl: "blocks (sha_pad m) = blocks m @ [?b1]"
      using pad by (simp add: blocks_single)
    have lz: "length (zero_fill (Suc idx) 56 buf) = 64" using False lb by (simp add: zero_fill_eq)
    have z: "zero_fill (Suc idx) 56 buf = (?r @ [0x80] @ replicate (55 - idx) 0) @ drop 56 buf"
      using False lb tb by (simp add: zero_fill_eq)
    have "length (?r @ [0x80] @ replicate (55 - idx) 0) = 56" using False lr by simp
    then have "take 56 (zero_fill (Suc idx) 56 buf) = ?r @ [0x80] @ replicate (55 - idx) 0"
      unfolding z by (metis append_eq_conv_conj)
    then have "fold (\<lambda>i b. b[56 + i := ?bits ! i]) [0..<8] (zero_fill (Suc idx) 56 buf) = ?b1"
      using lz by (simp add: write_length_bytes)
    then show ?thesis
      using False
      by (simp add: redp2p_sha256_final_def Let_def bits c count_and_63 s sha256_ref_def bl
          mult.commute [of _ "8 :: u64"] flip: idx_def buf_def)
  qed
qed

lemma length_sha256_ref: "length (sha256_ref m) = 32"
proof -
  have "length (foldl redp2p_sha256_transform sha_iv bs) = 8" for bs
    by (induction bs rule: rev_induct) (simp_all add: sha_iv_def)
  then show ?thesis by (simp add: sha256_ref_def length_concat_be32)
qed

lemma length_update [simp]: "length (sha_buf (redp2p_sha256_update ctx d)) = length (sha_buf ctx)"
  by (induction d arbitrary: ctx) (simp_all add: redp2p_sha256_update_def sha_push_def Let_def)

lemma length_init [simp]: "length (sha_buf (redp2p_sha256_init ctx)) = length (sha_buf ctx)"
  by (simp add: redp2p_sha256_init_def)

lemma sha_stream_ref:
  assumes "length (sha_buf ctx) = 64"
  shows "snd (redp2p_sha256_final (redp2p_sha256_update (redp2p_sha256_init ctx) a)) = sha256_ref a"
    and "snd (redp2p_sha256_final (redp2p_sha256_update (redp2p_sha256_update (redp2p_sha256_init ctx) a) b))
      = sha256_ref (a @ b)"
  using sha_final_ref [OF sha_holds_update [OF sha_holds_init [OF assms]]]
    sha_final_ref [OF sha_holds_update [OF sha_holds_update [OF sha_holds_init [OF assms]]]]
  by auto

lemma hmac_key_block_ref:
  assumes "length (sha_buf ctx) = 64"
  shows "length (sha_buf (fst (hmac_key_block ctx key))) = 64"
    and "snd (hmac_key_block ctx key) =
      (let k = (if length (bytes_of key) > 64 then sha256_ref (bytes_of key) else bytes_of key)
       in k @ replicate (64 - length k) 0)"
proof -
  show "length (sha_buf (fst (hmac_key_block ctx key))) = 64"
    using assms by (simp add: hmac_key_block_def Let_def case_prod_unfold length_final)
  have "length (bytes_of key) = length key" by (simp add: bytes_of_def)
  then show "snd (hmac_key_block ctx key) =
      (let k = (if length (bytes_of key) > 64 then sha256_ref (bytes_of key) else bytes_of key)
       in k @ replicate (64 - length k) 0)"
    using sha_stream_ref(1) [OF assms, of "bytes_of key"]
    by (simp add: hmac_key_block_def Let_def case_prod_unfold length_sha256_ref)
qed

lemma length_hmac_ref: "length (hmac_ref key msg) = 32"
  by (simp add: hmac_ref_def Let_def length_sha256_ref)

lemma hmac_ref_eq:
  assumes "length (sha_buf ctx) = 64"
  shows "redp2p_hmac_sha256 ctx key msg = hmac_ref (bytes_of key) msg"
proof -
  define c1 kb where "c1 = fst (hmac_key_block ctx key)" and "kb = snd (hmac_key_block ctx key)"
  have l1: "length (sha_buf c1) = 64" using hmac_key_block_ref(1) [OF assms] by (simp add: c1_def)
  define c2 where "c2 = redp2p_sha256_update (redp2p_sha256_update (redp2p_sha256_init c1)
    (map (\<lambda>b. b XOR 0x36) kb)) msg"
  define c3 where "c3 = fst (redp2p_sha256_final c2)"
  have l3: "length (sha_buf c3) = 64" by (simp add: c3_def c2_def length_final l1)
  have inner: "snd (redp2p_sha256_final c2) = sha256_ref (map (\<lambda>b. b XOR 0x36) kb @ msg)"
    unfolding c2_def by (rule sha_stream_ref(2) [OF l1])
  have "redp2p_hmac_sha256 ctx key msg = snd (redp2p_sha256_final (redp2p_sha256_update
      (redp2p_sha256_update (redp2p_sha256_init c3) (map (\<lambda>b. b XOR 0x5c) kb)) (snd (redp2p_sha256_final c2))))"
    by (simp add: redp2p_hmac_sha256_def Let_def case_prod_unfold c1_def c2_def c3_def kb_def)
  also have "\<dots> = sha256_ref (map (\<lambda>b. b XOR 0x5c) kb @ sha256_ref (map (\<lambda>b. b XOR 0x36) kb @ msg))"
    unfolding inner by (rule sha_stream_ref(2) [OF l3])
  finally show ?thesis
    using hmac_key_block_ref(2) [OF assms, of key] by (simp add: hmac_ref_def Let_def kb_def)
qed

section \<open>Properties\<close>

text \<open>
  C33: the streaming SHA-256 equals the one-shot reference: whatever the local context held
  before \<open>init\<close>, feeding a message in any two pieces and finalising gives the digest of the
  padded, block-split message (both padding branches included).
\<close>

theorem redp2p_sha256_stream_correct:
  assumes "length (sha_buf ctx) = 64"
  shows "snd (redp2p_sha256_final (redp2p_sha256_update (redp2p_sha256_update (redp2p_sha256_init ctx) a) b))
      = sha256_ref (a @ b)"
  using assms by (rule sha_stream_ref(2))

theorem redp2p_sha256_stream_correct_witness:
  "snd (redp2p_sha256_final (redp2p_sha256_update (redp2p_sha256_update (redp2p_sha256_init
      \<lparr>sha_state = replicate 8 7, sha_count = 5, sha_buf = replicate 64 9\<rparr>) [97, 98]) [99]))
    = sha256_ref [97, 98, 99]"
  using redp2p_sha256_stream_correct
    [of "\<lparr>sha_state = replicate 8 7, sha_count = 5, sha_buf = replicate 64 9\<rparr>" "[97, 98]" "[99]"]
  by simp

text \<open>
  \<^verbatim>\<open>redp2p_hmac_sha256\<close> is HMAC over that hash: keys longer than a block are hashed
  first, shorter ones are zero-padded, and the digest is
  \<open>H((K xor opad) @ H((K xor ipad) @ msg))\<close>.
\<close>

theorem redp2p_hmac_sha256_correct:
  assumes "length (sha_buf ctx) = 64"
  shows "redp2p_hmac_sha256 ctx key msg = hmac_ref (bytes_of key) msg"
  using assms by (rule hmac_ref_eq)

theorem redp2p_hmac_sha256_correct_witness:
  "redp2p_hmac_sha256 \<lparr>sha_state = [], sha_count = 0, sha_buf = replicate 64 0\<rparr> ''secret'' [1, 2, 3]
    = hmac_ref (bytes_of ''secret'') [1, 2, 3]"
  by (rule redp2p_hmac_sha256_correct) simp

end
