(* ===== verification/Register_Pow.thy ===== *)
theory Register_Pow
  imports Sha256
begin

text \<open>
  Registration proof of work: the message digest over nonce, identifier and solution, the
  leading-zero count, the client's search loop and the index's verification. The search
  loop runs over the 32-bit counter and polls the stop flag every 2^20 steps; \<open>stop c\<close> is
  what the flag reads when the counter is \<open>c\<close>.
\<close>

section \<open>Definitions\<close>

definition clip :: "nat \<Rightarrow> string \<Rightarrow> string \<Rightarrow> string" where
  "clip cap msg part =
     (let len = length part; len = (if len > cap - length msg then cap - length msg else len)
      in msg @ take len part)"

definition redp2p_hash_register_once ::
  "redp2p_sha256_t \<Rightarrow> string option \<Rightarrow> string \<Rightarrow> string \<Rightarrow> string \<Rightarrow> byte list" where
  "redp2p_hash_register_once ctx pass nonce_hex pid solution_hex =
     (let cap = REDP2P_ID_MAX + 33;
          msg = clip cap [] nonce_hex;
          msg = clip cap msg pid;
          msg = clip cap msg solution_hex
      in redp2p_hmac_sha256 ctx (case pass of None \<Rightarrow> [] | Some p \<Rightarrow> p) (bytes_of msg))"

fun byte_leading_zeros :: "nat \<Rightarrow> byte \<Rightarrow> nat" where
  "byte_leading_zeros 0 b = 0"
| "byte_leading_zeros (Suc j) b =
     (if b AND 0x80 = 0 then Suc (byte_leading_zeros j (push_bit 1 b)) else 0)"

fun redp2p_count_leading_zero_bits :: "byte list \<Rightarrow> nat" where
  "redp2p_count_leading_zero_bits [] = 0"
| "redp2p_count_leading_zero_bits (b # bs) =
     (if b = 0 then 8 + redp2p_count_leading_zero_bits bs else byte_leading_zeros 8 b)"

text \<open>\<^verbatim>\<open>snprintf("%08x", counter)\<close>.\<close>

definition format_08x :: "u32 \<Rightarrow> string" where
  "format_08x counter = hex_pairs (be32 counter)"

function solve_loop ::
  "(string \<Rightarrow> byte list) \<Rightarrow> int \<Rightarrow> (u32 \<Rightarrow> bool) \<Rightarrow> u32 \<Rightarrow> (string \<times> byte list) option" where
  "solve_loop digest bits stop counter =
     (let buf = format_08x counter; hash = digest buf
      in if int (redp2p_count_leading_zero_bits hash) \<ge> bits then Some (buf, hash)
         else if counter + 1 = 0 then None
         else if (counter + 1) AND 0xfffff = 0 \<and> stop (counter + 1) then None
         else solve_loop digest bits stop (counter + 1))"
  by pat_completeness auto
termination
proof (relation "measure (\<lambda>(digest, bits, stop, counter). 2 ^ 32 - unat counter)")
  fix digest :: "string \<Rightarrow> byte list" and bits :: int and stop :: "u32 \<Rightarrow> bool" and counter :: u32
  assume "counter + 1 \<noteq> 0"
  then have "unat (counter + 1) = Suc (unat counter)" using unatSuc [of counter] by (simp add: add.commute)
  moreover have "unat (counter + 1) < 2 ^ 32"
    using unsigned_less [of "counter + 1", where ?'a = nat] by simp
  ultimately show "((digest, bits, stop, counter + 1), digest, bits, stop, counter)
      \<in> measure (\<lambda>(digest, bits, stop, counter). 2 ^ 32 - unat counter)"
    by simp
qed simp

declare solve_loop.simps [simp del]

definition redp2p_solve_register_pow ::
  "redp2p_sha256_t \<Rightarrow> (u32 \<Rightarrow> bool) \<Rightarrow> string option \<Rightarrow> string \<Rightarrow> string \<Rightarrow> int \<Rightarrow> nat \<Rightarrow> nat
     \<Rightarrow> (string \<times> string) option" where
  "redp2p_solve_register_pow ctx stop pass nonce_hex pid bits sol_cap proof_cap =
     (if sol_cap < 17 \<or> proof_cap < 65 then None
      else case solve_loop (redp2p_hash_register_once ctx pass nonce_hex pid) bits stop 0 of
        None \<Rightarrow> None
      | Some (buf, hash) \<Rightarrow>
          (case redp2p_hex_encode hash proof_cap of
             None \<Rightarrow> None | Some proof_hex \<Rightarrow> Some (buf, proof_hex)))"

text \<open>The comparison accumulates the differing bits of all 64 characters.\<close>

definition proof_diff :: "string \<Rightarrow> string \<Rightarrow> byte" where
  "proof_diff a b =
     fold (\<lambda>k diff. diff OR ((of_nat (ord (a ! k)) :: byte) XOR of_nat (ord (b ! k)))) [0..<64] 0"

definition redp2p_verify_register_pow ::
  "redp2p_sha256_t \<Rightarrow> string option \<Rightarrow> string \<Rightarrow> string \<Rightarrow> string \<Rightarrow> string option \<Rightarrow> int \<Rightarrow> bool" where
  "redp2p_verify_register_pow ctx pass nonce_hex pid solution_hex proof_hex bits =
     (case proof_hex of None \<Rightarrow> False
      | Some proof \<Rightarrow>
          if length proof \<noteq> 64 then False
          else let hash = redp2p_hash_register_once ctx pass nonce_hex pid solution_hex
               in (case redp2p_hex_encode hash 65 of
                     None \<Rightarrow> False
                   | Some expected \<Rightarrow>
                       if proof_diff proof expected \<noteq> 0 then False
                       else int (redp2p_count_leading_zero_bits hash) \<ge> bits))"

section \<open>Leading zeros\<close>

text \<open>The digest as a bit string, most significant bit first.\<close>

definition byte_bits :: "byte \<Rightarrow> bool list" where
  "byte_bits b = map (\<lambda>i. bit b (7 - i)) [0..<8]"

definition digest_bits :: "byte list \<Rightarrow> bool list" where
  "digest_bits h = concat (map byte_bits h)"

lemma top_bit_clear: "b AND 0x80 = 0 \<longleftrightarrow> \<not> bit (b :: byte) 7"
proof -
  have "(0x80 :: byte) = push_bit 7 1" by simp
  then show ?thesis
    by (metis and_exp_eq_0_iff_not_bit push_bit_of_1)
qed

lemma byte_leading_zeros_eq:
  "j \<le> 8 \<Longrightarrow> byte_leading_zeros j (push_bit (8 - j) b) =
     length (takeWhile Not (map (\<lambda>i. bit b (7 - i)) [8 - j..<8]))"
proof (induction j)
  case (Suc j)
  have j: "j \<le> 7" and e: "8 - Suc j = 7 - j" "Suc (7 - j) = 8 - j" using Suc.prems by arith+
  have up: "[7 - j..<8] = (7 - j) # [8 - j..<8]"
    using upt_conv_Cons [of "7 - j" 8] by (simp only: e(2))
  have top: "bit (push_bit (7 - j) b) 7 \<longleftrightarrow> bit b (7 - (7 - j))"
    using j by (auto simp: bit_simps)
  have sh: "push_bit 1 (push_bit (7 - j) b) = push_bit (8 - j) b"
    using e(2) by (simp only: push_bit_push_bit plus_1_eq_Suc)
  show ?case
    unfolding e(1) using Suc.IH j sh by (simp add: up top top_bit_clear)
qed simp

lemma byte_leading_zeros_8: "byte_leading_zeros 8 b = length (takeWhile Not (byte_bits b))"
  using byte_leading_zeros_eq [of 8 b] by (simp add: byte_bits_def)

lemma byte_bits_zero: "list_all Not (byte_bits b) \<longleftrightarrow> b = 0"
proof
  assume "list_all Not (byte_bits b)"
  then have clear: "\<not> bit b (7 - i)" if "i < 8" for i
    using that by (simp only: byte_bits_def list_all_iff set_map set_upt) auto
  have "\<not> bit b n" if "n < 8" for n
    using that clear [of "7 - n"] by simp
  then show "b = 0" by (intro bit_word_eqI) simp
qed (simp only: byte_bits_def list_all_iff set_map set_upt, auto)

lemma count_leading_zero_bits_eq:
  "redp2p_count_leading_zero_bits h = length (takeWhile Not (digest_bits h))"
proof (induction h)
  case (Cons b h)
  show ?case
  proof (cases "b = 0")
    case True
    then have "list_all Not (byte_bits b)" by (simp add: byte_bits_zero)
    then have "takeWhile Not (byte_bits b @ digest_bits h) = byte_bits b @ takeWhile Not (digest_bits h)"
      by (intro takeWhile_append2) (auto simp: list_all_iff)
    then show ?thesis using Cons True by (simp add: digest_bits_def byte_bits_def)
  next
    case False
    then have "\<not> list_all Not (byte_bits b)" by (simp add: byte_bits_zero)
    then obtain x where "x \<in> set (byte_bits b)" "\<not> Not x" by (auto simp: list_all_iff)
    then have "takeWhile Not (byte_bits b @ digest_bits h) = takeWhile Not (byte_bits b)"
      by (rule takeWhile_append1)
    then show ?thesis using False by (simp add: digest_bits_def byte_leading_zeros_8)
  qed
qed (simp add: digest_bits_def)

lemma takeWhile_length_ge:
  "n \<le> length (takeWhile P xs) \<longleftrightarrow> n \<le> length xs \<and> list_all P (take n xs)"
proof (induction xs arbitrary: n)
  case (Cons x xs)
  then show ?case by (cases n) auto
qed simp

section \<open>Verification and search\<close>

lemma unat_char_byte: "unat (of_nat (ord c) :: byte) = ord c"
proof -
  have "unat (of_nat (ord c) :: byte) = ord c mod 2 ^ 8" by (simp only: unat_of_nat) simp
  then show ?thesis using nat_of_char_less_256 [of c] by (simp only: mod_less power2_eq_square) simp
qed

lemma char_byte_inj: "(of_nat (ord a) :: byte) = of_nat (ord b) \<longleftrightarrow> a = b"
proof
  assume "(of_nat (ord a) :: byte) = of_nat (ord b)"
  then have "ord a = (ord b :: nat)" by (metis unat_char_byte)
  then show "a = b" by (simp only: of_char_eq_iff)
qed simp

lemma fold_or_zero: "fold (\<lambda>k d. d OR f k) ks (a :: byte) = 0 \<longleftrightarrow> a = 0 \<and> (\<forall>k \<in> set ks. f k = 0)"
  by (induction ks arbitrary: a) (auto simp: or_eq_0_iff)

lemma byte_xor_zero: "a XOR b = 0 \<longleftrightarrow> a = (b :: byte)"
proof
  have "a = (a XOR b) XOR b" by (simp add: xor.assoc)
  then show "a XOR b = 0 \<Longrightarrow> a = b" by simp
qed simp

lemma proof_diff_zero:
  "length a = 64 \<Longrightarrow> length b = 64 \<Longrightarrow> proof_diff a b = 0 \<longleftrightarrow> a = b"
  unfolding proof_diff_def fold_or_zero
  by (auto simp: byte_xor_zero char_byte_inj list_eq_iff_nth_eq del: upt_rec_numeral)

lemma length_hmac: "length (sha_buf ctx) = 64 \<Longrightarrow> length (redp2p_hmac_sha256 ctx k m) = 32"
  by (simp add: hmac_ref_eq length_hmac_ref)

lemma length_register_digest:
  "length (sha_buf ctx) = 64 \<Longrightarrow> length (redp2p_hash_register_once ctx pass nonce pid sol) = 32"
  by (simp add: redp2p_hash_register_once_def Let_def length_hmac)

lemma clip_fits: "length msg + length part \<le> cap \<Longrightarrow> clip cap msg part = msg @ part"
  by (auto simp: clip_def Let_def)

lemma redp2p_verify_register_pow_iff:
  assumes "length (sha_buf ctx) = 64"
  shows "redp2p_verify_register_pow ctx pass nonce pid sol (Some p) bits \<longleftrightarrow>
    p = hex_pairs (redp2p_hash_register_once ctx pass nonce pid sol) \<and>
    bits \<le> int (redp2p_count_leading_zero_bits (redp2p_hash_register_once ctx pass nonce pid sol))"
  using length_register_digest [OF assms, of pass nonce pid sol]
  by (auto simp: redp2p_verify_register_pow_def redp2p_hex_encode_def Let_def proof_diff_zero)

lemma solve_loop_sound:
  "solve_loop digest bits stop c = Some (buf, h) \<Longrightarrow>
   \<exists>c'. c \<le> c' \<and> buf = format_08x c' \<and> h = digest buf \<and>
     bits \<le> int (redp2p_count_leading_zero_bits h)"
proof (induction digest bits stop c rule: solve_loop.induct)
  case (1 digest bits stop c)
  show ?case
  proof (cases "int (redp2p_count_leading_zero_bits (digest (format_08x c))) \<ge> bits")
    case True
    then show ?thesis using "1.prems" by (subst (asm) solve_loop.simps) (auto simp: Let_def)
  next
    case False
    then have rec: "solve_loop digest bits stop (c + 1) = Some (buf, h)" and nz: "c + 1 \<noteq> 0"
      and go: "\<not> ((c + 1) AND 0xfffff = 0 \<and> stop (c + 1))"
      using "1.prems" by (subst (asm) solve_loop.simps, auto simp: Let_def split: if_splits)+
    have "c \<le> c + 1" using nz by (simp add: word_le_nat_alt unatSuc add.commute)
    with "1.IH" [OF refl refl False nz go rec] show ?thesis by (metis order_trans)
  qed
qed

lemma solve_loop_finds:
  assumes "c \<le> goal" "bits \<le> int (redp2p_count_leading_zero_bits (digest (format_08x goal)))"
    and "\<And>k. \<not> stop k"
  shows "\<exists>r. solve_loop digest bits stop c = Some r"
  using assms
proof (induction digest bits stop c rule: solve_loop.induct)
  case (1 digest bits stop c)
  show ?case
  proof (cases "int (redp2p_count_leading_zero_bits (digest (format_08x c))) \<ge> bits")
    case True
    then show ?thesis by (subst solve_loop.simps) (simp add: Let_def)
  next
    case False
    with "1.prems" have "c \<noteq> goal" by auto
    with "1.prems"(1) have lt: "c < goal" by simp
    then have nz: "c + 1 \<noteq> 0" and le: "c + 1 \<le> goal"
      by (metis add.commute add_eq_0_iff word_n1_ge leD, metis inc_le)
    have "\<exists>r. solve_loop digest bits stop (c + 1) = Some r"
      using "1.IH" [OF refl refl False nz _ le] "1.prems"(2,3) by blast
    then show ?thesis using False nz "1.prems"(3) by (subst solve_loop.simps) (simp add: Let_def)
  qed
qed

lemma digest_fits:
  assumes "length nonce + length pid + length sol \<le> 96"
  shows "redp2p_hash_register_once ctx (Some pass) nonce pid sol =
    redp2p_hmac_sha256 ctx pass (bytes_of (nonce @ pid @ sol))"
  using assms by (simp add: redp2p_hash_register_once_def Let_def clip_fits macros)

lemma solve_register_pow_eq:
  assumes "length (sha_buf ctx) = 64" "17 \<le> sol_cap" "65 \<le> proof_cap"
  shows "redp2p_solve_register_pow ctx stop pass nonce pid bits sol_cap proof_cap =
    map_option (\<lambda>(buf, h). (buf, hex_pairs h))
      (solve_loop (redp2p_hash_register_once ctx pass nonce pid) bits stop 0)"
proof (cases "solve_loop (redp2p_hash_register_once ctx pass nonce pid) bits stop 0")
  case None
  then show ?thesis using assms by (simp add: redp2p_solve_register_pow_def)
next
  case (Some r)
  obtain buf h where r: "r = (buf, h)" by fastforce
  from Some r have "h = redp2p_hash_register_once ctx pass nonce pid buf"
    using solve_loop_sound by blast
  then have "length h = 32" using length_register_digest [OF assms(1)] by simp
  then show ?thesis
    using assms Some r by (simp add: redp2p_solve_register_pow_def redp2p_hex_encode_def)
qed

lemma solve_register_pow_sound:
  assumes "length (sha_buf ctx) = 64" "17 \<le> sol_cap" "65 \<le> proof_cap"
    and "redp2p_solve_register_pow ctx stop pass nonce pid bits sol_cap proof_cap = Some (sol, p)"
  shows "redp2p_verify_register_pow ctx pass nonce pid sol (Some p) bits \<and> redp2p_is_hex_token sol 8"
proof -
  obtain h where "solve_loop (redp2p_hash_register_once ctx pass nonce pid) bits stop 0 = Some (sol, h)"
    and p: "p = hex_pairs h"
    using solve_register_pow_eq [OF assms(1-3)] assms(4) by auto
  from solve_loop_sound [OF this(1)] p show ?thesis
    using hex_pairs_token [of "be32 _"]
    by (auto simp: redp2p_verify_register_pow_iff [OF assms(1)] format_08x_def)
qed

lemma solve_register_pow_complete:
  assumes "length (sha_buf ctx) = 64" "17 \<le> sol_cap" "65 \<le> proof_cap"
    and "\<forall>k. \<not> stop k"
    and "redp2p_verify_register_pow ctx pass nonce pid (format_08x c) (Some q) bits"
  shows "redp2p_solve_register_pow ctx stop pass nonce pid bits sol_cap proof_cap \<noteq> None"
proof -
  have "\<exists>r. solve_loop (redp2p_hash_register_once ctx pass nonce pid) bits stop 0 = Some r"
    using assms(4,5)
    by (intro solve_loop_finds [of 0 c]) (auto simp: redp2p_verify_register_pow_iff [OF assms(1)])
  then show ?thesis using solve_register_pow_eq [OF assms(1-3)] by (auto split: prod.splits)
qed

section \<open>Properties\<close>

text \<open>
  The index accepts a registration proof exactly when it is the lowercase hexadecimal
  HMAC of nonce, identifier and solution under the registration password and the first
  \<open>bits\<close> bits of that digest are zero.
\<close>

theorem redp2p_verify_register_pow_exact:
  assumes "length (sha_buf ctx) = 64" "length nonce + length pid + length sol \<le> 96" "bits \<le> 256"
  shows "redp2p_verify_register_pow ctx (Some pass) nonce pid sol (Some p) (int bits) \<longleftrightarrow>
    (let h = hmac_ref (bytes_of pass) (bytes_of (nonce @ pid @ sol))
     in p = hex_pairs h \<and> list_all Not (take bits (digest_bits h)))"
proof -
  let ?h = "hmac_ref (bytes_of pass) (bytes_of (nonce @ pid @ sol))"
  have h: "redp2p_hash_register_once ctx (Some pass) nonce pid sol = ?h"
    using digest_fits [OF assms(2)] hmac_ref_eq [OF assms(1)] by simp
  have "length (digest_bits bs) = 8 * length bs" for bs
    by (induction bs) (simp_all add: digest_bits_def byte_bits_def)
  then have "length (digest_bits ?h) = 256" by (simp add: length_hmac_ref)
  then show ?thesis
    using assms(3) redp2p_verify_register_pow_iff [OF assms(1), of "Some pass" nonce pid sol p "int bits"]
    by (simp add: h Let_def count_leading_zero_bits_eq takeWhile_length_ge)
qed

theorem redp2p_verify_register_pow_exact_witness:
  "redp2p_verify_register_pow \<lparr>sha_state = [], sha_count = 0, sha_buf = replicate 64 0\<rparr> (Some ''pw'')
     ''0011223344556677'' ''web'' ''00000000''
     (Some (hex_pairs (hmac_ref (bytes_of ''pw'') (bytes_of ''0011223344556677web00000000'')))) 0"
  using redp2p_verify_register_pow_exact
    [of "\<lparr>sha_state = [], sha_count = 0, sha_buf = replicate 64 0\<rparr>" "''0011223344556677''" "''web''"
      "''00000000''" 0 "''pw''"]
  by (simp add: Let_def)

text \<open>
  The publisher's search is sound and complete for the index's check: whatever
  \<^verbatim>\<open>redp2p_solve_register_pow\<close> returns is accepted by
  \<^verbatim>\<open>redp2p_verify_register_pow\<close> for the same password, nonce, identifier and difficulty,
  and an uninterrupted search returns a solution whenever one of the 2^32 counter values
  is a solution.
\<close>

theorem redp2p_solve_register_pow_correct:
  assumes "length (sha_buf ctx) = 64" "17 \<le> sol_cap" "65 \<le> proof_cap"
  shows "(\<forall>sol p. redp2p_solve_register_pow ctx stop pass nonce pid bits sol_cap proof_cap = Some (sol, p)
      \<longrightarrow> redp2p_verify_register_pow ctx pass nonce pid sol (Some p) bits \<and> redp2p_is_hex_token sol 8)
    \<and> (\<forall>c q. (\<forall>k. \<not> stop k) \<longrightarrow>
        redp2p_verify_register_pow ctx pass nonce pid (format_08x c) (Some q) bits \<longrightarrow>
        redp2p_solve_register_pow ctx stop pass nonce pid bits sol_cap proof_cap \<noteq> None)"
  using solve_register_pow_sound [OF assms] solve_register_pow_complete [OF assms] by blast

theorem redp2p_solve_register_pow_correct_witness:
  "\<exists>sol p. redp2p_solve_register_pow \<lparr>sha_state = [], sha_count = 0, sha_buf = replicate 64 0\<rparr>
      (\<lambda>_. False) (Some ''pw'') ''0011223344556677'' ''web'' 0 17 65 = Some (sol, p)
    \<and> redp2p_verify_register_pow \<lparr>sha_state = [], sha_count = 0, sha_buf = replicate 64 0\<rparr>
        (Some ''pw'') ''0011223344556677'' ''web'' sol (Some p) 0"
proof -
  let ?ctx = "\<lparr>sha_state = [], sha_count = 0, sha_buf = replicate 64 0\<rparr>"
  have l: "length (sha_buf ?ctx) = 64" by simp
  let ?solve = "redp2p_solve_register_pow ?ctx (\<lambda>_. False) (Some ''pw'') ''0011223344556677'' ''web'' 0 17 65"
  have "redp2p_verify_register_pow ?ctx (Some ''pw'') ''0011223344556677'' ''web'' (format_08x 0)
    (Some (hex_pairs (redp2p_hash_register_once ?ctx (Some ''pw'') ''0011223344556677'' ''web'' (format_08x 0)))) 0"
    by (simp add: redp2p_verify_register_pow_iff [OF l])
  then have "?solve \<noteq> None"
    using redp2p_solve_register_pow_correct
      [OF l, of 17 65 "\<lambda>_. False" "Some ''pw''" "''0011223344556677''" "''web''" 0] by auto
  then obtain sol p where "?solve = Some (sol, p)" by auto
  moreover from this have "redp2p_verify_register_pow ?ctx (Some ''pw'') ''0011223344556677'' ''web'' sol (Some p) 0"
    using redp2p_solve_register_pow_correct
      [OF l, of 17 65 "\<lambda>_. False" "Some ''pw''" "''0011223344556677''" "''web''" 0] by simp
  ultimately show ?thesis by blast
qed

end
