(* ===== verification/Json.thy ===== *)
theory Json
  imports Prelude
begin

text \<open>
  The JSON library of \<^verbatim>\<open>src/lib/parson/parson.c\<close>, as far as the index and its clients
  use it: values, object and array accessors, the parser behind \<^verbatim>\<open>json_parse_string\<close> and
  the compact serialiser behind \<^verbatim>\<open>json_serialize_to_buffer\<close>.

  An object is the list of its fields in insertion order, with unique names (the hash table of
  the source compares names on every hit, so a lookup finds the field with that name). A
  double is the rational number it denotes; the conversions of the C library between decimal
  text and doubles, \<^verbatim>\<open>strtod\<close> and \<^verbatim>\<open>sprintf\<close> with \<^verbatim>\<open>%1.17g\<close>, are the fields of the
  parameter \<open>libc\<close>: \<open>strtod s\<close> is the value and the number of characters read, \<open>None\<close> when
  the value is no finite double. Allocations inside the library succeed.
\<close>

section \<open>Values and accessors\<close>

record libc_ops =
  strtod :: "string \<Rightarrow> (rat \<times> nat) option"
  num_fmt :: "rat \<Rightarrow> string"

datatype JSON_Value =
    JSONNull
  | JSONString string
  | JSONNumber rat
  | JSONObject "(string \<times> JSON_Value) list"
  | JSONArray "JSON_Value list"
  | JSONBoolean bool

type_synonym JSON_Object = "(string \<times> JSON_Value) list"

datatype JSON_Value_Type = TNull | TString | TNumber | TObject | TArray | TBoolean

fun json_value_get_type :: "JSON_Value \<Rightarrow> JSON_Value_Type" where
  "json_value_get_type JSONNull = TNull"
| "json_value_get_type (JSONString _) = TString"
| "json_value_get_type (JSONNumber _) = TNumber"
| "json_value_get_type (JSONObject _) = TObject"
| "json_value_get_type (JSONArray _) = TArray"
| "json_value_get_type (JSONBoolean _) = TBoolean"

fun json_value_get_object :: "JSON_Value \<Rightarrow> JSON_Object option" where
  "json_value_get_object (JSONObject fs) = Some fs"
| "json_value_get_object _ = None"

fun json_value_get_array :: "JSON_Value \<Rightarrow> JSON_Value list option" where
  "json_value_get_array (JSONArray vs) = Some vs"
| "json_value_get_array _ = None"

text \<open>The caller receives the characters of a string value as a C string.\<close>

fun json_value_get_string :: "JSON_Value \<Rightarrow> string option" where
  "json_value_get_string (JSONString s) = Some (c_str s)"
| "json_value_get_string _ = None"

fun json_value_get_number :: "JSON_Value \<Rightarrow> rat" where
  "json_value_get_number (JSONNumber q) = q"
| "json_value_get_number _ = 0"

definition json_object_get_value :: "JSON_Object \<Rightarrow> string \<Rightarrow> JSON_Value option" where
  "json_object_get_value obj name = map_of obj name"

definition json_object_has_value_of_type :: "JSON_Object \<Rightarrow> string \<Rightarrow> JSON_Value_Type \<Rightarrow> bool" where
  "json_object_has_value_of_type obj name ty =
     (case json_object_get_value obj name of None \<Rightarrow> False | Some v \<Rightarrow> json_value_get_type v = ty)"

definition json_object_get_string :: "JSON_Object \<Rightarrow> string \<Rightarrow> string option" where
  "json_object_get_string obj name = Option.bind (json_object_get_value obj name) json_value_get_string"

definition json_object_get_number :: "JSON_Object \<Rightarrow> string \<Rightarrow> rat" where
  "json_object_get_number obj name =
     (case json_object_get_value obj name of None \<Rightarrow> 0 | Some v \<Rightarrow> json_value_get_number v)"

definition json_object_get_array :: "JSON_Object \<Rightarrow> string \<Rightarrow> JSON_Value list option" where
  "json_object_get_array obj name = Option.bind (json_object_get_value obj name) json_value_get_array"

section \<open>UTF-8 validation\<close>

definition is_cont :: "char \<Rightarrow> bool" where
  "is_cont b \<longleftrightarrow> 0x80 \<le> ord b \<and> ord b < 0xC0"

definition num_bytes_in_utf8_sequence :: "char \<Rightarrow> nat" where
  "num_bytes_in_utf8_sequence c =
     (let b = ord c in
      if b = 0xC0 \<or> b = 0xC1 \<or> b > 0xF4 \<or> is_cont c then 0
      else if b < 0x80 then 1
      else if 0xC0 \<le> b \<and> b < 0xE0 then 2
      else if 0xE0 \<le> b \<and> b < 0xF0 then 3
      else if 0xF0 \<le> b \<and> b < 0xF8 then 4
      else 0)"

text \<open>The code point of the sequence at the head of the text, \<open>None\<close> where it is malformed.\<close>

definition utf8_code_point :: "string \<Rightarrow> (nat \<times> nat) option" where
  "utf8_code_point s =
     (case s of
        [] \<Rightarrow> None
      | c # cs \<Rightarrow>
          let len = num_bytes_in_utf8_sequence c; low = (\<lambda>i. ord (cs ! i) mod 64);
              conts = (\<lambda>n. n \<le> length cs \<and> list_all is_cont (take n cs))
          in if len = 1 then Some (ord c, len)
             else if len = 2 \<and> conts 1 then Some ((ord c mod 32) * 64 + low 0, len)
             else if len = 3 \<and> conts 2 then Some (((ord c mod 16) * 64 + low 0) * 64 + low 1, len)
             else if len = 4 \<and> conts 3
             then Some ((((ord c mod 8) * 64 + low 0) * 64 + low 1) * 64 + low 2, len)
             else None)"

definition verify_utf8_sequence :: "string \<Rightarrow> nat option" where
  "verify_utf8_sequence s =
     (case utf8_code_point s of
        None \<Rightarrow> None
      | Some (cp, len) \<Rightarrow>
          if (cp < 0x80 \<and> len > 1) \<or> (cp < 0x800 \<and> len > 2) \<or> (cp < 0x10000 \<and> len > 3) then None
          else if cp > 0x10FFFF then None
          else if cp \<ge> 0xD800 \<and> cp \<le> 0xDFFF then None
          else Some len)"

lemma verify_utf8_pos: "verify_utf8_sequence s = Some n \<Longrightarrow> 0 < n \<and> s \<noteq> []"
  by (auto simp: verify_utf8_sequence_def utf8_code_point_def Let_def split: option.splits list.splits if_splits)

function is_valid_utf8 :: "string \<Rightarrow> bool" where
  "is_valid_utf8 s =
     (if s = [] then True
      else case verify_utf8_sequence s of None \<Rightarrow> False | Some n \<Rightarrow> is_valid_utf8 (drop n s))"
  by pat_completeness auto
termination
  by (relation "measure length") (auto dest!: verify_utf8_pos)

declare is_valid_utf8.simps [simp del]

lemma ascii_valid_utf8: "list_all (\<lambda>c. ord c < 0x80) s \<Longrightarrow> is_valid_utf8 s"
proof (induction s)
  case (Cons c s)
  then have "verify_utf8_sequence (c # s) = Some 1"
    by (simp add: verify_utf8_sequence_def utf8_code_point_def num_bytes_in_utf8_sequence_def is_cont_def Let_def)
  with Cons show ?case by (subst is_valid_utf8.simps) simp
qed (simp add: is_valid_utf8.simps)

section \<open>Building objects\<close>

fun json_object_set_value :: "JSON_Object \<Rightarrow> string \<Rightarrow> JSON_Value \<Rightarrow> JSON_Object" where
  "json_object_set_value [] name v = [(name, v)]"
| "json_object_set_value ((n, w) # fs) name v =
     (if n = name then (n, v) # fs else (n, w) # json_object_set_value fs name v)"

definition json_value_init_string :: "string \<Rightarrow> JSON_Value option" where
  "json_value_init_string s = (if is_valid_utf8 s then Some (JSONString s) else None)"

definition json_object_set_string :: "JSON_Object \<Rightarrow> string \<Rightarrow> string \<Rightarrow> JSON_Object" where
  "json_object_set_string obj name s =
     (case json_value_init_string s of None \<Rightarrow> obj | Some v \<Rightarrow> json_object_set_value obj name v)"

definition json_object_set_number :: "JSON_Object \<Rightarrow> string \<Rightarrow> rat \<Rightarrow> JSON_Object" where
  "json_object_set_number obj name q = json_object_set_value obj name (JSONNumber q)"

definition json_object_set_boolean :: "JSON_Object \<Rightarrow> string \<Rightarrow> bool \<Rightarrow> JSON_Object" where
  "json_object_set_boolean obj name b = json_object_set_value obj name (JSONBoolean b)"

definition json_array_append_string :: "JSON_Value list \<Rightarrow> string \<Rightarrow> JSON_Value list" where
  "json_array_append_string arr s =
     (case json_value_init_string s of None \<Rightarrow> arr | Some v \<Rightarrow> arr @ [v])"

lemma json_object_get_set:
  "json_object_get_value (json_object_set_value obj n v) m = (if m = n then Some v else json_object_get_value obj m)"
  by (induction obj n v rule: json_object_set_value.induct) (auto simp: json_object_get_value_def)

lemma json_object_set_fresh: "n \<notin> fst ` set obj \<Longrightarrow> json_object_set_value obj n v = obj @ [(n, v)]"
  by (induction obj n v rule: json_object_set_value.induct) auto

lemma json_object_set_names:
  "fst ` set (json_object_set_value obj n v) = insert n (fst ` set obj)"
  "distinct (map fst obj) \<Longrightarrow> distinct (map fst (json_object_set_value obj n v))"
  by (induction obj n v rule: json_object_set_value.induct) (auto simp: rev_image_eqI)

section \<open>Serialising\<close>

definition hex_char :: "nat \<Rightarrow> char" where
  "hex_char n = char_of (if n < 10 then 48 + n else 87 + n)"

definition BACKSLASH :: char where "BACKSLASH = CHR 0x5C"
definition DQUOTE :: char where "DQUOTE = CHR 0x22"

definition escape_char :: "char \<Rightarrow> string" where
  "escape_char c =
     (if c = DQUOTE then [BACKSLASH, DQUOTE]
      else if c = BACKSLASH then [BACKSLASH, BACKSLASH]
      else if c = CHR 0x08 then [BACKSLASH, CHR ''b'']
      else if c = CHR 0x0C then [BACKSLASH, CHR ''f'']
      else if c = LF then [BACKSLASH, CHR ''n'']
      else if c = CR then [BACKSLASH, CHR ''r'']
      else if c = CHR 0x09 then [BACKSLASH, CHR ''t'']
      else if ord c < 0x20 then BACKSLASH # ''u00'' @ [hex_char (ord c div 16), hex_char (ord c mod 16)]
      else if c = CHR ''/'' then [BACKSLASH, CHR ''/'']
      else [c])"

definition json_serialize_string :: "string \<Rightarrow> string" where
  "json_serialize_string s = DQUOTE # concat (map escape_char s) @ [DQUOTE]"

text \<open>Elements and fields are separated by commas: all but the last append one.\<close>

fun join_comma :: "string list \<Rightarrow> string" where
  "join_comma [] = []"
| "join_comma [x] = x"
| "join_comma (x # y # xs) = x @ '','' @ join_comma (y # xs)"

fun json_serialize_to_buffer_r :: "libc_ops \<Rightarrow> JSON_Value \<Rightarrow> string" where
  "json_serialize_to_buffer_r libc (JSONArray vs) =
     ''['' @ join_comma (map (json_serialize_to_buffer_r libc) vs) @ '']''"
| "json_serialize_to_buffer_r libc (JSONObject fs) =
     ''{'' @ join_comma (map (\<lambda>f. json_serialize_string (fst f) @ '':'' @ json_serialize_to_buffer_r libc (snd f)) fs) @ ''}''"
| "json_serialize_to_buffer_r libc (JSONString s) = json_serialize_string s"
| "json_serialize_to_buffer_r libc (JSONBoolean b) = (if b then ''true'' else ''false'')"
| "json_serialize_to_buffer_r libc (JSONNumber q) = num_fmt libc q"
| "json_serialize_to_buffer_r libc JSONNull = ''null''"

definition json_serialization_size :: "libc_ops \<Rightarrow> JSON_Value \<Rightarrow> nat" where
  "json_serialization_size libc v = length (json_serialize_to_buffer_r libc v) + 1"

definition json_serialize_to_buffer :: "libc_ops \<Rightarrow> JSON_Value \<Rightarrow> nat \<Rightarrow> string option" where
  "json_serialize_to_buffer libc v buf_size =
     (if buf_size < json_serialization_size libc v then None
      else Some (json_serialize_to_buffer_r libc v))"

section \<open>Parsing\<close>

definition isspace :: "char \<Rightarrow> bool" where
  "isspace c \<longleftrightarrow> c = CHR '' '' \<or> (9 \<le> ord c \<and> ord c \<le> 13)"

definition skip_whitespaces :: "string \<Rightarrow> string" where
  "skip_whitespaces s = dropWhile isspace s"

definition at_char :: "char \<Rightarrow> string \<Rightarrow> bool" where
  "at_char c s \<longleftrightarrow> s \<noteq> [] \<and> hd s = c"

text \<open>Skipping to the closing quote; the argument starts after the opening one.\<close>

fun skip_to_quote :: "string \<Rightarrow> string option" where
  "skip_to_quote [] = None"
| "skip_to_quote (c # cs) =
     (if c = DQUOTE then Some cs
      else if c = BACKSLASH then (case cs of [] \<Rightarrow> None | _ # ds \<Rightarrow> skip_to_quote ds)
      else skip_to_quote cs)"

definition skip_quotes :: "string \<Rightarrow> string option" where
  "skip_quotes s = (case s of [] \<Rightarrow> None | c # cs \<Rightarrow> if c \<noteq> DQUOTE then None else skip_to_quote cs)"

definition hex_char_to_int :: "char \<Rightarrow> int" where
  "hex_char_to_int c =
     (if between (CHR ''0'') (CHR ''9'') c then int (ord c) - 48
      else if between (CHR ''a'') (CHR ''f'') c then int (ord c) - 97 + 10
      else if between (CHR ''A'') (CHR ''F'') c then int (ord c) - 65 + 10
      else -1)"

text \<open>The four hexadecimal digits of a \<^verbatim>\<open>\u\<close> escape.\<close>

definition parse_utf16_hex :: "string \<Rightarrow> nat option" where
  "parse_utf16_hex s =
     (case s of
        a # b # c # d # _ \<Rightarrow>
          let x1 = hex_char_to_int a; x2 = hex_char_to_int b; x3 = hex_char_to_int c; x4 = hex_char_to_int d
          in if x1 = -1 \<or> x2 = -1 \<or> x3 = -1 \<or> x4 = -1 then None
             else Some (nat (x1 * 4096 + x2 * 256 + x3 * 16 + x4))
      | _ \<Rightarrow> None)"

text \<open>
  One \<^verbatim>\<open>\u\<close> escape, or a surrogate pair of them: the UTF-8 bytes and the text that follows.
  The argument starts after the \<^verbatim>\<open>u\<close>.
\<close>

definition parse_utf16 :: "string \<Rightarrow> (string \<times> string) option" where
  "parse_utf16 s =
     (case parse_utf16_hex s of
        None \<Rightarrow> None
      | Some cp \<Rightarrow>
          if cp < 0x80 then Some ([char_of cp], drop 4 s)
          else if cp < 0x800
          then Some ([char_of (0xC0 + cp div 64 mod 32), char_of (0x80 + cp mod 64)], drop 4 s)
          else if cp < 0xD800 \<or> cp > 0xDFFF
          then Some ([char_of (0xE0 + cp div 4096 mod 16), char_of (0x80 + cp div 64 mod 64),
                      char_of (0x80 + cp mod 64)], drop 4 s)
          else if cp \<le> 0xDBFF
          then if take 2 (drop 4 s) \<noteq> [BACKSLASH, CHR ''u''] then None
               else case parse_utf16_hex (drop 6 s) of
                   None \<Rightarrow> None
                 | Some trail \<Rightarrow>
                     if trail < 0xDC00 \<or> trail > 0xDFFF then None
                     else let cp = ((cp - 0xD800) * 1024 + (trail - 0xDC00)) + 0x10000
                          in Some ([char_of (0xF0 + cp div 262144 mod 8), char_of (0x80 + cp div 4096 mod 64),
                                    char_of (0x80 + cp div 64 mod 64), char_of (0x80 + cp mod 64)], drop 10 s)
          else None)"

lemma parse_utf16_shorter: "parse_utf16 s = Some (out, rest) \<Longrightarrow> length rest < length s"
proof -
  have four: "parse_utf16_hex s = Some cp \<Longrightarrow> 4 \<le> length s" for s cp by (auto simp: parse_utf16_hex_def split: list.splits)
  show "parse_utf16 s = Some (out, rest) \<Longrightarrow> length rest < length s"
    unfolding parse_utf16_def Let_def by (auto split: option.splits if_splits dest!: four)
qed

definition simple_escape :: "char \<Rightarrow> char option" where
  "simple_escape c =
     (if c = DQUOTE then Some DQUOTE
      else if c = BACKSLASH then Some BACKSLASH
      else if c = CHR ''/'' then Some (CHR ''/'')
      else if c = CHR ''b'' then Some (CHR 0x08)
      else if c = CHR ''f'' then Some (CHR 0x0C)
      else if c = CHR ''n'' then Some LF
      else if c = CHR ''r'' then Some CR
      else if c = CHR ''t'' then Some (CHR 0x09)
      else None)"

function process_string :: "string \<Rightarrow> string option" where
  "process_string [] = Some []"
| "process_string (c # cs) =
     (if c = BACKSLASH
      then (case cs of
              [] \<Rightarrow> None
            | d # ds \<Rightarrow>
                if d = CHR ''u''
                then (case parse_utf16 ds of
                        None \<Rightarrow> None
                      | Some (out, rest) \<Rightarrow> map_option (append out) (process_string rest))
                else (case simple_escape d of
                        None \<Rightarrow> None
                      | Some e \<Rightarrow> map_option (Cons e) (process_string ds)))
      else if ord c < 0x20 then None
      else map_option (Cons c) (process_string cs))"
  by pat_completeness auto
termination
  by (relation "measure length") (auto dest!: parse_utf16_shorter)

definition get_quoted_string :: "string \<Rightarrow> (string \<times> string) option" where
  "get_quoted_string s =
     (case skip_quotes s of
        None \<Rightarrow> None
      | Some rest \<Rightarrow>
          (case process_string (take (length s - length rest - 2) (tl s)) of
             None \<Rightarrow> None | Some key \<Rightarrow> Some (key, rest)))"

definition is_decimal :: "string \<Rightarrow> bool" where
  "is_decimal t =
     (if length t > 1 \<and> t ! 0 = CHR ''0'' \<and> t ! 1 \<noteq> CHR ''.'' then False
      else if length t > 2 \<and> take 2 t = ''-0'' \<and> t ! 2 \<noteq> CHR ''.'' then False
      else \<not> list_ex (\<lambda>c. c = CHR ''x'' \<or> c = CHR ''X'') t)"

definition parse_number_value :: "libc_ops \<Rightarrow> string \<Rightarrow> (JSON_Value \<times> string) option" where
  "parse_number_value libc s =
     (case strtod libc s of
        None \<Rightarrow> None
      | Some (number, n) \<Rightarrow>
          if \<not> is_decimal (take n s) then None else Some (JSONNumber number, drop n s))"

definition parse_boolean_value :: "string \<Rightarrow> (JSON_Value \<times> string) option" where
  "parse_boolean_value s =
     (if take 4 s = ''true'' then Some (JSONBoolean True, drop 4 s)
      else if take 5 s = ''false'' then Some (JSONBoolean False, drop 5 s)
      else None)"

definition parse_null_value :: "string \<Rightarrow> (JSON_Value \<times> string) option" where
  "parse_null_value s = (if take 4 s = ''null'' then Some (JSONNull, drop 4 s) else None)"

definition parse_string_value :: "string \<Rightarrow> (JSON_Value \<times> string) option" where
  "parse_string_value s =
     (case get_quoted_string s of None \<Rightarrow> None | Some (t, rest) \<Rightarrow> Some (JSONString t, rest))"

definition MAX_NESTING :: nat where "MAX_NESTING = 2048"

lemma skip_whitespaces_le: "length (skip_whitespaces s) \<le> length s"
  unfolding skip_whitespaces_def by (rule length_dropWhile_le)

lemma skip_to_quote_shorter: "skip_to_quote s = Some r \<Longrightarrow> length r < length s"
  by (induction s rule: skip_to_quote.induct) (auto split: if_splits list.splits)

lemma get_quoted_shorter: "get_quoted_string s = Some (k, r) \<Longrightarrow> length r < length s"
  by (auto simp: get_quoted_string_def skip_quotes_def split: option.splits list.splits if_splits
      dest!: skip_to_quote_shorter)

text \<open>The end of an object or an array, where the loop over its members has stopped.\<close>

definition close_with :: "char \<Rightarrow> JSON_Value \<Rightarrow> string \<Rightarrow> (JSON_Value \<times> string) option" where
  "close_with c v s =
     (let s = skip_whitespaces s in if at_char c s then Some (v, tl s) else None)"

text \<open>
  The recursive-descent parser. \<open>object_loop\<close> and \<open>array_loop\<close> are the \<^verbatim>\<open>while\<close> loops of
  \<^verbatim>\<open>parse_object_value\<close> and \<^verbatim>\<open>parse_array_value\<close>. Every iteration of a loop consumes input;
  the comparison of lengths before the next one makes this visible to the termination
  proof, and \<open>parse_loops_guard\<close> below shows that it always holds.
\<close>

function (sequential) parse_value :: "libc_ops \<Rightarrow> nat \<Rightarrow> string \<Rightarrow> (JSON_Value \<times> string) option"
  and object_loop :: "libc_ops \<Rightarrow> nat \<Rightarrow> JSON_Object \<Rightarrow> string \<Rightarrow> (JSON_Value \<times> string) option"
  and array_loop :: "libc_ops \<Rightarrow> nat \<Rightarrow> JSON_Value list \<Rightarrow> string \<Rightarrow> (JSON_Value \<times> string) option" where
  "parse_value libc nesting s =
     (if nesting > MAX_NESTING then None
      else case skip_whitespaces s of
        [] \<Rightarrow> None
      | c # cs \<Rightarrow>
          if c = CHR ''{''
          then let r = skip_whitespaces cs
               in if at_char (CHR ''}'') r then Some (JSONObject [], tl r) else object_loop libc (Suc nesting) [] r
          else if c = CHR ''[''
          then let r = skip_whitespaces cs
               in if at_char (CHR '']'') r then Some (JSONArray [], tl r) else array_loop libc (Suc nesting) [] r
          else if c = DQUOTE then parse_string_value (c # cs)
          else if c = CHR ''f'' \<or> c = CHR ''t'' then parse_boolean_value (c # cs)
          else if c = CHR ''-'' \<or> is_digit c then parse_number_value libc (c # cs)
          else if c = CHR ''n'' then parse_null_value (c # cs)
          else None)"
| "object_loop libc nesting acc s =
     (if s = [] then close_with (CHR ''}'') (JSONObject acc) s
      else case get_quoted_string s of
        None \<Rightarrow> None
      | Some (key, r) \<Rightarrow>
          if NUL \<in> set key then None
          else if \<not> at_char (CHR '':'') (skip_whitespaces r) then None
          else case parse_value libc nesting (tl (skip_whitespaces r)) of
            None \<Rightarrow> None
          | Some (v, r1) \<Rightarrow>
              if key \<in> fst ` set acc then None
              else let acc = acc @ [(key, v)]; r2 = skip_whitespaces r1; r3 = skip_whitespaces (tl r2)
                   in if \<not> at_char (CHR '','') r2 then close_with (CHR ''}'') (JSONObject acc) r2
                      else if at_char (CHR ''}'') r3 then close_with (CHR ''}'') (JSONObject acc) r3
                      else if length r3 < length s then object_loop libc nesting acc r3 else None)"
| "array_loop libc nesting acc s =
     (if s = [] then close_with (CHR '']'') (JSONArray acc) s
      else case parse_value libc nesting s of
        None \<Rightarrow> None
      | Some (v, r1) \<Rightarrow>
          let acc = acc @ [v]; r2 = skip_whitespaces r1; r3 = skip_whitespaces (tl r2)
          in if \<not> at_char (CHR '','') r2 then close_with (CHR '']'') (JSONArray acc) r2
             else if at_char (CHR '']'') r3 then close_with (CHR '']'') (JSONArray acc) r3
             else if length r3 < length s then array_loop libc nesting acc r3 else None)"
  by pat_completeness auto
termination
proof (relation "measure (\<lambda>x. case x of Inl (libc, n, s) \<Rightarrow> 2 * length s
    | Inr (Inl (libc, n, acc, s)) \<Rightarrow> 2 * length s + 1 | Inr (Inr (libc, n, acc, s)) \<Rightarrow> 2 * length s + 1)",
    goal_cases)
  case (2 libc nesting s c cs r)
  then have "length r \<le> length cs" "length (c # cs) \<le> length s"
    using skip_whitespaces_le [of cs] skip_whitespaces_le [of s] by simp_all
  then show ?case by simp
next
  case (3 libc nesting s c cs r)
  then have "length r \<le> length cs" "length (c # cs) \<le> length s"
    using skip_whitespaces_le [of cs] skip_whitespaces_le [of s] by simp_all
  then show ?case by simp
next
  case (4 libc nesting acc s x k r)
  then have "length r < length s" "length (tl (skip_whitespaces r)) \<le> length r"
    using get_quoted_shorter [of s] skip_whitespaces_le [of r] by auto
  then show ?case by simp
qed auto

declare parse_value.simps [simp del] object_loop.simps [simp del] array_loop.simps [simp del]

definition json_parse_string :: "libc_ops \<Rightarrow> string \<Rightarrow> JSON_Value option" where
  "json_parse_string libc s =
     (let s = (if take 3 s = [CHR 0xEF, CHR 0xBB, CHR 0xBF] then drop 3 s else s)
      in map_option fst (parse_value libc 0 s))"

section \<open>The loops consume input\<close>

lemma tl_skip_le: "length (tl (skip_whitespaces s)) \<le> length s"
  using skip_whitespaces_le [of s] by simp

lemma at_char_tl: "at_char c s \<Longrightarrow> length (tl s) < length s"
  by (auto simp: at_char_def)

lemma close_with_le: "close_with c v s = Some (w, r) \<Longrightarrow> length r \<le> length s"
  using tl_skip_le [of s] by (auto simp: close_with_def Let_def split: if_splits)

lemma after_comma:
  assumes "at_char (CHR '','') (skip_whitespaces r1)" "length r1 \<le> n"
  shows "length (skip_whitespaces (tl (skip_whitespaces r1))) < n"
  using at_char_tl [OF assms(1)] skip_whitespaces_le [of r1] skip_whitespaces_le [of "tl (skip_whitespaces r1)"] assms(2)
  by linarith

lemma scalar_le:
  "parse_string_value s = Some (v, r) \<Longrightarrow> length r \<le> length s"
  "parse_boolean_value s = Some (v, r) \<Longrightarrow> length r \<le> length s"
  "parse_null_value s = Some (v, r) \<Longrightarrow> length r \<le> length s"
  "parse_number_value libc s = Some (v, r) \<Longrightarrow> length r \<le> length s"
  by (auto simp: parse_string_value_def parse_boolean_value_def parse_null_value_def parse_number_value_def
      split: option.splits prod.splits if_splits dest!: get_quoted_shorter)

lemma parse_value_elim:
  assumes "parse_value libc n s = Some (v, r)"
  obtains (empty) c cs where "skip_whitespaces s = c # cs" "r = tl (skip_whitespaces cs)"
  | (object) c cs where "\<not> n > MAX_NESTING" "skip_whitespaces s = c # cs" "c = CHR ''{''"
      "\<not> at_char (CHR ''}'') (skip_whitespaces cs)" "object_loop libc (Suc n) [] (skip_whitespaces cs) = Some (v, r)"
  | (array) c cs where "\<not> n > MAX_NESTING" "skip_whitespaces s = c # cs" "c = CHR ''[''"
      "\<not> at_char (CHR '']'') (skip_whitespaces cs)" "array_loop libc (Suc n) [] (skip_whitespaces cs) = Some (v, r)"
  | (scalar) "length r \<le> length (skip_whitespaces s)"
proof (cases "skip_whitespaces s")
  case Nil
  then show thesis using assms by (simp add: parse_value.simps split: if_splits)
next
  case (Cons c cs)
  have n: "\<not> n > MAX_NESTING" using assms by (auto simp: parse_value.simps [of libc n s])
  note val = assms [unfolded parse_value.simps [of libc n s] Cons list.case if_not_P [OF n] Let_def]
  show thesis
  proof (cases "c = CHR ''{''")
    case True
    then show thesis using val empty [OF Cons] object [OF n Cons] by (simp split: if_splits)
  next
    case no: False
    show thesis
    proof (cases "c = CHR ''[''")
      case True
      then show thesis using val empty [OF Cons] array [OF n Cons] by (simp split: if_splits)
    next
      case False
      have "length r \<le> length (c # cs)"
        using val unfolding if_not_P [OF no] if_not_P [OF False] by (auto split: if_splits dest: scalar_le simp del: length_Cons)
      then show thesis using scalar Cons by simp
    qed
  qed
qed

lemma object_loop_le:
  assumes "object_loop libc n acc s = Some (v, r)"
    and val: "\<And>key r0 v1 r1. get_quoted_string s = Some (key, r0) \<Longrightarrow>
      parse_value libc n (tl (skip_whitespaces r0)) = Some (v1, r1) \<Longrightarrow> length r1 \<le> length (tl (skip_whitespaces r0))"
    and loop: "\<And>acc' r3. length r3 < length s \<Longrightarrow> object_loop libc n acc' r3 = Some (v, r) \<Longrightarrow> length r \<le> length r3"
  shows "length r \<le> length s"
proof (cases "s = []")
  case True
  then show ?thesis using assms(1) by (auto simp: object_loop.simps dest: close_with_le)
next
  case False
  with assms(1) obtain key r0 v1 r1 where q: "get_quoted_string s = Some (key, r0)"
    and p: "parse_value libc n (tl (skip_whitespaces r0)) = Some (v1, r1)"
    by (subst (asm) object_loop.simps) (auto split: option.splits if_splits)
  have r1: "length r1 \<le> length s" using val [OF q p] get_quoted_shorter [OF q] tl_skip_le [of r0] by linarith
  let ?acc = "acc @ [(key, v1)]" let ?r2 = "skip_whitespaces r1" let ?r3 = "skip_whitespaces (tl ?r2)"
  have "close_with (CHR ''}'') (JSONObject ?acc) ?r2 = Some (v, r)
      \<or> close_with (CHR ''}'') (JSONObject ?acc) ?r3 = Some (v, r) \<and> at_char (CHR '','') ?r2
      \<or> length ?r3 < length s \<and> object_loop libc n ?acc ?r3 = Some (v, r)"
    using assms(1) False by (subst (asm) object_loop.simps) (simp add: q p Let_def split: if_splits)
  then show ?thesis
    using close_with_le skip_whitespaces_le [of r1] after_comma [OF _ r1] loop r1 by (smt (verit) le_trans less_imp_le)
qed

lemma array_loop_le:
  assumes "array_loop libc n acc s = Some (v, r)"
    and val: "\<And>v1 r1. parse_value libc n s = Some (v1, r1) \<Longrightarrow> length r1 \<le> length s"
    and loop: "\<And>acc' r3. length r3 < length s \<Longrightarrow> array_loop libc n acc' r3 = Some (v, r) \<Longrightarrow> length r \<le> length r3"
  shows "length r \<le> length s"
proof (cases "s = []")
  case True
  then show ?thesis using assms(1) by (auto simp: array_loop.simps dest: close_with_le)
next
  case False
  with assms(1) obtain v1 r1 where p: "parse_value libc n s = Some (v1, r1)"
    by (subst (asm) array_loop.simps) (auto split: option.splits if_splits)
  note r1 = val [OF p]
  let ?acc = "acc @ [v1]" let ?r2 = "skip_whitespaces r1" let ?r3 = "skip_whitespaces (tl ?r2)"
  have "close_with (CHR '']'') (JSONArray ?acc) ?r2 = Some (v, r)
      \<or> close_with (CHR '']'') (JSONArray ?acc) ?r3 = Some (v, r) \<and> at_char (CHR '','') ?r2
      \<or> length ?r3 < length s \<and> array_loop libc n ?acc ?r3 = Some (v, r)"
    using assms(1) False by (subst (asm) array_loop.simps) (simp add: p Let_def split: if_splits)
  then show ?thesis
    using close_with_le skip_whitespaces_le [of r1] after_comma [OF _ r1] loop r1 by (smt (verit) le_trans less_imp_le)
qed

lemma parse_le_bounded:
  "(\<forall>libc n s v r. length s = k \<longrightarrow> parse_value libc n s = Some (v, r) \<longrightarrow> length r \<le> length s)
   \<and> (\<forall>libc n acc s v r. length s = k \<longrightarrow> object_loop libc n acc s = Some (v, r) \<longrightarrow> length r \<le> length s)
   \<and> (\<forall>libc n acc s v r. length s = k \<longrightarrow> array_loop libc n acc s = Some (v, r) \<longrightarrow> length r \<le> length s)"
proof (induction k rule: less_induct)
  case (less k)
  have IHv: "length r \<le> length s" if "length s < k" "parse_value libc n s = Some (v, r)" for libc n s v r
    using less.IH [OF that(1)] that(2) by blast
  have IHo: "length r \<le> length s" if "length s < k" "object_loop libc n acc s = Some (v, r)" for libc n acc s v r
    using less.IH [OF that(1)] that(2) by blast
  have IHa: "length r \<le> length s" if "length s < k" "array_loop libc n acc s = Some (v, r)" for libc n acc s v r
    using less.IH [OF that(1)] that(2) by blast
  have value_le: "length r \<le> length s" if "length s = k" "parse_value libc n s = Some (v, r)" for libc n s v r
    using that(2)
  proof (cases rule: parse_value_elim)
    case (empty c cs)
    then show ?thesis using tl_skip_le [of cs] skip_whitespaces_le [of s] by simp
  next
    case (object c cs)
    then have "length (skip_whitespaces cs) < k"
      using skip_whitespaces_le [of cs] skip_whitespaces_le [of s] that(1) by simp
    then show ?thesis using IHo [OF _ object(5)] that(1) by simp
  next
    case (array c cs)
    then have "length (skip_whitespaces cs) < k"
      using skip_whitespaces_le [of cs] skip_whitespaces_le [of s] that(1) by simp
    then show ?thesis using IHa [OF _ array(5)] that(1) by simp
  next
    case scalar
    then show ?thesis using skip_whitespaces_le [of s] by simp
  qed
  have object_le: "length r \<le> length s" if "length s = k" "object_loop libc n acc s = Some (v, r)" for libc n acc s v r
  proof (rule object_loop_le [OF that(2)])
    fix key r0 v1 r1
    assume q: "get_quoted_string s = Some (key, r0)" "parse_value libc n (tl (skip_whitespaces r0)) = Some (v1, r1)"
    have "length (tl (skip_whitespaces r0)) < k"
      using get_quoted_shorter [OF q(1)] tl_skip_le [of r0] that(1) by simp
    then show "length r1 \<le> length (tl (skip_whitespaces r0))" using q(2) by (rule IHv)
  next
    fix acc' r3
    assume "length r3 < length s" "object_loop libc n acc' r3 = Some (v, r)"
    then show "length r \<le> length r3" using that(1) by (intro IHo) simp_all
  qed
  have array_le: "length r \<le> length s" if "length s = k" "array_loop libc n acc s = Some (v, r)" for libc n acc s v r
  proof (rule array_loop_le [OF that(2)])
    fix acc' r3
    assume "length r3 < length s" "array_loop libc n acc' r3 = Some (v, r)"
    then show "length r \<le> length r3" using that(1) by (intro IHa) simp_all
  qed (rule value_le [OF that(1)])
  show ?case by (intro conjI allI impI) (rule value_le object_le array_le; assumption)+
qed

lemma parse_value_le: "parse_value libc n s = Some (v, r) \<Longrightarrow> length r \<le> length s"
  using parse_le_bounded [of "length s", THEN conjunct1] by simp

text \<open>The loops without the comparison of lengths, as the source has them.\<close>

lemma parse_loops_guard:
  "object_loop libc nesting acc s =
     (if s = [] then close_with (CHR ''}'') (JSONObject acc) s
      else case get_quoted_string s of
        None \<Rightarrow> None
      | Some (key, r) \<Rightarrow>
          if NUL \<in> set key then None
          else if \<not> at_char (CHR '':'') (skip_whitespaces r) then None
          else case parse_value libc nesting (tl (skip_whitespaces r)) of
            None \<Rightarrow> None
          | Some (v, r1) \<Rightarrow>
              if key \<in> fst ` set acc then None
              else let acc = acc @ [(key, v)]; r2 = skip_whitespaces r1; r3 = skip_whitespaces (tl r2)
                   in if \<not> at_char (CHR '','') r2 then close_with (CHR ''}'') (JSONObject acc) r2
                      else if at_char (CHR ''}'') r3 then close_with (CHR ''}'') (JSONObject acc) r3
                      else object_loop libc nesting acc r3)"
  "array_loop libc nesting arr s =
     (if s = [] then close_with (CHR '']'') (JSONArray arr) s
      else case parse_value libc nesting s of
        None \<Rightarrow> None
      | Some (v, r1) \<Rightarrow>
          let arr = arr @ [v]; r2 = skip_whitespaces r1; r3 = skip_whitespaces (tl r2)
          in if \<not> at_char (CHR '','') r2 then close_with (CHR '']'') (JSONArray arr) r2
             else if at_char (CHR '']'') r3 then close_with (CHR '']'') (JSONArray arr) r3
             else array_loop libc nesting arr r3)"
proof -
  have o: "length r1 \<le> length s" if "get_quoted_string s = Some (key, r)"
    "parse_value libc nesting (tl (skip_whitespaces r)) = Some (v, r1)" for key r v r1
    using parse_value_le [OF that(2)] get_quoted_shorter [OF that(1)] tl_skip_le [of r] by linarith
  show "object_loop libc nesting acc s =
     (if s = [] then close_with (CHR ''}'') (JSONObject acc) s
      else case get_quoted_string s of
        None \<Rightarrow> None
      | Some (key, r) \<Rightarrow>
          if NUL \<in> set key then None
          else if \<not> at_char (CHR '':'') (skip_whitespaces r) then None
          else case parse_value libc nesting (tl (skip_whitespaces r)) of
            None \<Rightarrow> None
          | Some (v, r1) \<Rightarrow>
              if key \<in> fst ` set acc then None
              else let acc = acc @ [(key, v)]; r2 = skip_whitespaces r1; r3 = skip_whitespaces (tl r2)
                   in if \<not> at_char (CHR '','') r2 then close_with (CHR ''}'') (JSONObject acc) r2
                      else if at_char (CHR ''}'') r3 then close_with (CHR ''}'') (JSONObject acc) r3
                      else object_loop libc nesting acc r3)"
    by (subst object_loop.simps) (auto simp: Let_def split: option.split dest!: o intro: after_comma)
  show "array_loop libc nesting arr s =
     (if s = [] then close_with (CHR '']'') (JSONArray arr) s
      else case parse_value libc nesting s of
        None \<Rightarrow> None
      | Some (v, r1) \<Rightarrow>
          let arr = arr @ [v]; r2 = skip_whitespaces r1; r3 = skip_whitespaces (tl r2)
          in if \<not> at_char (CHR '','') r2 then close_with (CHR '']'') (JSONArray arr) r2
             else if at_char (CHR '']'') r3 then close_with (CHR '']'') (JSONArray arr) r3
             else array_loop libc nesting arr r3)"
    by (subst array_loop.simps) (auto simp: Let_def split: option.split dest!: parse_value_le intro: after_comma)
qed

end
