(* ===== verification/Index.thy ===== *)
theory Index
  imports Registry Register_Pow Json
begin

text \<open>
  The request handlers of the index (\<^verbatim>\<open>redp2p_index_handle_*\<close> and \<^verbatim>\<open>redp2p_index_dispatch\<close>
  in \<^verbatim>\<open>src/src/libredp2p.c\<close>). A handler takes the context and the request object and returns
  the bytes it hands to the socket (\<open>None\<close> when it sends nothing) with the new context.

  What a handler obtains from the system is the record \<open>index_env\<close>: the address parser, the
  number conversions, whether allocations succeed, the random bytes, the uninitialised memory
  that the hash context starts from, and the successive readings of the monotonic clock during
  the request (\<open>env_clock env 0\<close>, \<open>env_clock env 1\<close>, \<dots>). Wiping buffers that go out of scope has no effect
  on what is modelled.
\<close>

section \<open>Environment\<close>

record index_env =
  env_net :: inet_ops
  env_libc :: libc_ops
  env_alloc :: "nat \<Rightarrow> bool"
  reply_object_ok :: bool
  error_object_ok :: bool
  key_random :: "byte list option"
  nonce_random :: "byte list option"
  sha_memory :: redp2p_sha256_t
  env_clock :: "nat \<Rightarrow> u64"

section \<open>Replies\<close>

definition CRLF :: string where
  "CRLF = [CR, LF]"

definition http_head :: "nat \<Rightarrow> string \<Rightarrow> string \<Rightarrow> nat \<Rightarrow> string" where
  "http_head status reason content_type len =
     ''HTTP/1.1 '' @ dec_text status @ '' '' @ reason @ CRLF @
     ''Content-Type: '' @ content_type @ CRLF @
     ''Content-Length: '' @ dec_text len @ CRLF @
     ''Connection: close'' @ CRLF @ CRLF"

definition redp2p_http_write_response :: "nat \<Rightarrow> string \<Rightarrow> string \<Rightarrow> string \<Rightarrow> string option" where
  "redp2p_http_write_response status reason content_type body =
     (let head = http_head status reason content_type (length body)
      in if length head \<ge> REDP2P_HTTP_LINE_MAX * 6 then None else Some (head @ body))"

definition redp2p_index_respond :: "libc_ops \<Rightarrow> nat \<Rightarrow> string \<Rightarrow> JSON_Value \<Rightarrow> string option" where
  "redp2p_index_respond libc status reason val =
     (let size = json_serialization_size libc val
      in if size = 0 \<or> size \<ge> REDP2P_BUF then None
         else case json_serialize_to_buffer libc val REDP2P_BUF of
           None \<Rightarrow> None
         | Some buf \<Rightarrow> redp2p_http_write_response status reason ''application/json'' buf)"

definition error_reason :: "nat \<Rightarrow> string" where
  "error_reason status =
     (if status = 400 then ''Bad Request''
      else if status = 403 then ''Forbidden''
      else if status = 404 then ''Not Found''
      else if status = 500 then ''Internal Server Error''
      else if status = 503 then ''Service Unavailable''
      else ''Error'')"

definition redp2p_index_respond_error :: "index_env \<Rightarrow> nat \<Rightarrow> string \<Rightarrow> string option" where
  "redp2p_index_respond_error env status code =
     (if \<not> error_object_ok env then None
      else let obj = json_object_set_boolean [] ''ok'' False;
               obj = json_object_set_string obj ''error'' code
           in redp2p_index_respond (env_libc env) status (error_reason status) (JSONObject obj))"

text \<open>The end of a successful handler: the reply object, if it could be allocated.\<close>

definition reply_with :: "index_env \<Rightarrow> JSON_Object \<Rightarrow> string option" where
  "reply_with env obj =
     (if \<not> reply_object_ok env then redp2p_index_respond_error env 500 ''internal''
      else redp2p_index_respond (env_libc env) 200 ''OK'' (JSONObject obj))"

section \<open>Reading requests\<close>

fun redp2p_index_json_unique_fields :: "JSON_Object \<Rightarrow> bool" where
  "redp2p_index_json_unique_fields [] = True"
| "redp2p_index_json_unique_fields (f # fs) =
     (if list_ex (\<lambda>g. fst f = fst g) fs then False else redp2p_index_json_unique_fields fs)"

text \<open>\<open>Inl 0\<close> when the field is missing, \<open>Inl (-1)\<close> when it is no valid identifier.\<close>

definition redp2p_index_require_id :: "JSON_Object \<Rightarrow> string \<Rightarrow> nat \<Rightarrow> int + string" where
  "redp2p_index_require_id obj field id_cap =
     (if \<not> json_object_has_value_of_type obj field TString then Inl 0
      else case json_object_get_string obj field of
        None \<Rightarrow> Inl (-1)
      | Some v \<Rightarrow> if length v \<ge> id_cap \<or> \<not> redp2p_is_valid_id v then Inl (-1) else Inr v)"

definition redp2p_index_require_id_response ::
  "index_env \<Rightarrow> JSON_Object \<Rightarrow> nat \<Rightarrow> string option + string" where
  "redp2p_index_require_id_response env req id_cap =
     (case redp2p_index_require_id req ''id'' id_cap of
        Inl r \<Rightarrow> Inl (redp2p_index_respond_error env 400 (if r = 0 then ''bad_request'' else ''invalid_id''))
      | Inr pid \<Rightarrow> Inr pid)"

definition redp2p_index_require_hex :: "JSON_Object \<Rightarrow> string \<Rightarrow> nat \<Rightarrow> nat \<Rightarrow> string option" where
  "redp2p_index_require_hex obj field out_cap hex_len =
     (if \<not> json_object_has_value_of_type obj field TString then None
      else case json_object_get_string obj field of
        None \<Rightarrow> None
      | Some v \<Rightarrow>
          if out_cap \<le> hex_len \<or> \<not> redp2p_is_hex_token v hex_len then None else Some (take hex_len v))"

definition parse_candidate_item :: "inet_ops \<Rightarrow> JSON_Value \<Rightarrow> redp2p_candidate_t option" where
  "parse_candidate_item net v =
     (case json_value_get_object v of
        None \<Rightarrow> None
      | Some item \<Rightarrow>
          (case (json_object_get_string item ''type'', json_object_get_string item ''addr'') of
             (Some type_text, Some addr) \<Rightarrow>
               if length addr > REDP2P_ADDR_MAX then None
               else (case redp2p_parse_candidate_type type_text of
                  None \<Rightarrow> None
                | Some type \<Rightarrow>
                    if type \<noteq> CAND_HOST \<and> type \<noteq> CAND_LAN \<and> type \<noteq> CAND_PUBLIC \<and> type \<noteq> CAND_SRFLX then None
                    else if pton4 net addr = None \<and> pton6 net addr = None then None
                    else if \<not> json_object_has_value_of_type item ''port'' TNumber then None
                    else let port = json_object_get_number item ''port''
                         in if port < 1 \<or> port > 65535 then None
                            else let c = \<lparr>cand_type = type, cand_addr = take REDP2P_ADDR_MAX addr,
                                         cand_port = word_of_int \<lfloor>port\<rfloor>, cand_priority = 0\<rparr>
                                 in Some (c\<lparr>cand_priority := redp2p_candidate_priority net c\<rparr>))
           | _ \<Rightarrow> None))"

fun parse_candidate_items :: "inet_ops \<Rightarrow> JSON_Value list \<Rightarrow> redp2p_candidate_t list option" where
  "parse_candidate_items net [] = Some []"
| "parse_candidate_items net (v # vs) =
     (case parse_candidate_item net v of
        None \<Rightarrow> None
      | Some c \<Rightarrow> map_option (Cons c) (parse_candidate_items net vs))"

definition redp2p_index_parse_candidates ::
  "inet_ops \<Rightarrow> JSON_Object \<Rightarrow> string \<Rightarrow> redp2p_candidate_t list option" where
  "redp2p_index_parse_candidates net obj field =
     (if \<not> json_object_has_value_of_type obj field TArray then Some []
      else case json_object_get_array obj field of
        None \<Rightarrow> Some []
      | Some arr \<Rightarrow>
          if length arr > REDP2P_PEER_CANDIDATES_MAX then None else parse_candidate_items net arr)"

definition candidate_object :: "redp2p_candidate_t \<Rightarrow> JSON_Object" where
  "candidate_object c =
     (let item = json_object_set_string [] ''type'' (redp2p_candidate_type_name (cand_type c));
          item = json_object_set_string item ''addr'' (cand_addr c)
      in json_object_set_number item ''port'' (of_nat (unat (cand_port c))))"

definition redp2p_index_append_candidates ::
  "JSON_Object \<Rightarrow> string \<Rightarrow> redp2p_candidate_t list \<Rightarrow> JSON_Object" where
  "redp2p_index_append_candidates obj field cands =
     json_object_set_value obj field (JSONArray (map (\<lambda>c. JSONObject (candidate_object c)) cands))"

text \<open>The proto and port fields of \<^verbatim>\<open>register\<close> and \<^verbatim>\<open>heartbeat\<close>, and the candidates.\<close>

definition announced_fields ::
  "index_env \<Rightarrow> JSON_Object \<Rightarrow> (int \<times> 16 word \<times> redp2p_candidate_t list) option" where
  "announced_fields env req =
     (let proto = json_object_get_number req ''proto'';
          udp_port = json_object_get_number req ''udp_port''
      in if (proto \<noteq> of_int REDP2P_PROTO_TCP \<and> proto \<noteq> of_int REDP2P_PROTO_UDP)
            \<or> udp_port < 1 \<or> udp_port > 65535
         then None
         else case redp2p_index_parse_candidates (env_net env) req ''candidates'' of
           None \<Rightarrow> None
         | Some cands \<Rightarrow> Some (\<lfloor>proto\<rfloor>, word_of_int \<lfloor>udp_port\<rfloor>, cands))"

definition announce :: "redp2p \<Rightarrow> nat \<Rightarrow> int \<times> 16 word \<times> redp2p_candidate_t list \<Rightarrow> u64 \<Rightarrow> redp2p" where
  "announce ctx i a now =
     (case a of (proto, udp_port, cands) \<Rightarrow>
        ctx\<lparr>peers := (peers ctx)[i := (peers ctx ! i)\<lparr>peer_proto := proto, peer_udp_port := udp_port,
              peer_candidates := cands, last_seen := now\<rparr>]\<rparr>)"

section \<open>Handlers\<close>

definition redp2p_index_handle_challenge :: "index_env \<Rightarrow> redp2p \<Rightarrow> JSON_Object \<Rightarrow> string option \<times> redp2p" where
  "redp2p_index_handle_challenge env ctx req =
     (case redp2p_index_require_id_response env req (REDP2P_ID_MAX + 1) of
        Inl r \<Rightarrow> (r, ctx)
      | Inr pid \<Rightarrow>
          (case Option.bind (nonce_random env) (\<lambda>nonce. redp2p_hex_encode nonce 17) of
             None \<Rightarrow> (redp2p_index_respond_error env 500 ''internal'', ctx)
           | Some nonce_hex \<Rightarrow>
               let out = json_object_set_boolean [] ''ok'' True;
                   out = json_object_set_string out ''nonce'' nonce_hex;
                   out = json_object_set_number out ''bits'' (of_int (pow_bits ctx))
               in (reply_with env out, ctx)))"

definition redp2p_index_handle_register :: "index_env \<Rightarrow> redp2p \<Rightarrow> JSON_Object \<Rightarrow> string option \<times> redp2p" where
  "redp2p_index_handle_register env ctx req =
     (case redp2p_index_require_id_response env req (REDP2P_ID_MAX + 1) of
        Inl r \<Rightarrow> (r, ctx)
      | Inr pid \<Rightarrow>
     (case (redp2p_index_require_hex req ''nonce'' 17 16, redp2p_index_require_hex req ''solution'' 17 8,
            redp2p_index_require_hex req ''proof'' 65 64) of
        (Some nonce, Some solution, Some proof) \<Rightarrow>
          if \<not> json_object_has_value_of_type req ''proto'' TNumber
             \<or> \<not> json_object_has_value_of_type req ''udp_port'' TNumber
          then (redp2p_index_respond_error env 400 ''bad_request'', ctx)
          else (case announced_fields env req of
            None \<Rightarrow> (redp2p_index_respond_error env 400 ''bad_request'', ctx)
          | Some a \<Rightarrow>
              let pass = redp2p_get_register_pass ctx pid
              in if \<not> redp2p_verify_register_pow (sha_memory env) (Some pass) nonce pid solution (Some proof)
                      (pow_bits ctx)
                 then (redp2p_index_respond_error env 403 ''auth_failed'', ctx)
                 else (case redp2p_add_peer (env_alloc env) (key_random env) (env_clock env 1)
                              (redp2p_evict_stale (env_clock env 0) ctx) pid of
                   (add_result, ctx) \<Rightarrow>
                     if add_result = REDP2P_OK
                     then (case redp2p_find_peer ctx pid of
                        Some i \<Rightarrow>
                          let ctx = announce ctx i a (env_clock env 2);
                              out = json_object_set_boolean [] ''ok'' True;
                              out = json_object_set_string out ''key'' (peer_key (peers ctx ! i))
                          in (reply_with env out, ctx)
                      | None \<Rightarrow>
                          (redp2p_index_respond_error env 500 ''internal'', snd (redp2p_remove_peer ctx pid)))
                     else if add_result = REDP2P_EFULL
                     then (redp2p_index_respond_error env 503 ''table_full'', ctx)
                     else (redp2p_index_respond_error env 500 ''internal'', ctx)))
      | _ \<Rightarrow> (redp2p_index_respond_error env 400 ''bad_request'', ctx)))"

definition redp2p_index_handle_heartbeat :: "index_env \<Rightarrow> redp2p \<Rightarrow> JSON_Object \<Rightarrow> string option \<times> redp2p" where
  "redp2p_index_handle_heartbeat env ctx req =
     (case redp2p_index_require_id_response env req (REDP2P_ID_MAX + 1) of
        Inl r \<Rightarrow> (r, ctx)
      | Inr pid \<Rightarrow>
     (case redp2p_index_require_hex req ''key'' REDP2P_KEY_STR_SZ REDP2P_KEY_SZ of
        None \<Rightarrow> (redp2p_index_respond_error env 400 ''bad_request'', ctx)
      | Some key \<Rightarrow>
          if \<not> json_object_has_value_of_type req ''proto'' TNumber
             \<or> \<not> json_object_has_value_of_type req ''udp_port'' TNumber
          then (redp2p_index_respond_error env 400 ''bad_request'', ctx)
          else (case announced_fields env req of
            None \<Rightarrow> (redp2p_index_respond_error env 400 ''bad_request'', ctx)
          | Some a \<Rightarrow>
              let ctx = redp2p_evict_stale (env_clock env 0) ctx
              in (case redp2p_find_peer ctx pid of
                 None \<Rightarrow> (redp2p_index_respond_error env 404 ''not_found'', ctx)
               | Some i \<Rightarrow>
                   if peer_key (peers ctx ! i) \<noteq> key
                   then (redp2p_index_respond_error env 403 ''invalid_key'', ctx)
                   else (reply_with env (json_object_set_boolean [] ''ok'' True),
                         announce ctx i a (env_clock env 1))))))"

definition lookup_object :: "redp2p_peer_t \<Rightarrow> JSON_Object" where
  "lookup_object p =
     (let out = json_object_set_boolean [] ''ok'' True;
          out = json_object_set_string out ''id'' (peer_id p);
          out = json_object_set_number out ''proto'' (of_int (peer_proto p));
          out = json_object_set_number out ''udp_port'' (of_nat (unat (peer_udp_port p)));
          out = redp2p_index_append_candidates out ''candidates'' (peer_candidates p)
      in json_object_set_number out ''last_seen'' (of_nat (unat (last_seen p))))"

definition redp2p_index_handle_lookup :: "index_env \<Rightarrow> redp2p \<Rightarrow> JSON_Object \<Rightarrow> string option \<times> redp2p" where
  "redp2p_index_handle_lookup env ctx req =
     (case redp2p_index_require_id_response env req (REDP2P_ID_MAX + 1) of
        Inl r \<Rightarrow> (r, ctx)
      | Inr pid \<Rightarrow>
          (case redp2p_find_peer ctx pid of
             None \<Rightarrow> (redp2p_index_respond_error env 404 ''not_found'', ctx)
           | Some i \<Rightarrow>
               if redp2p_peer_is_stale (env_clock env 0) ctx i
               then (redp2p_index_respond_error env 404 ''not_found'', ctx)
               else (reply_with env (lookup_object (peers ctx ! i)), ctx)))"

text \<open>The loop over the table of \<^verbatim>\<open>list\<close>; the clock is read once per record.\<close>

definition listed :: "index_env \<Rightarrow> redp2p \<Rightarrow> JSON_Value list" where
  "listed env ctx =
     fold (\<lambda>i arr. if \<not> redp2p_peer_is_stale (env_clock env i) ctx i
                   then json_array_append_string arr (peer_id (peers ctx ! i)) else arr)
       [0..<length (peers ctx)] []"

definition redp2p_index_handle_list :: "index_env \<Rightarrow> redp2p \<Rightarrow> JSON_Object \<Rightarrow> string option \<times> redp2p" where
  "redp2p_index_handle_list env ctx req =
     (let out = json_object_set_value [] ''ids'' (JSONArray (listed env ctx));
          out = json_object_set_boolean out ''ok'' True
      in (reply_with env out, ctx))"

definition redp2p_index_handle_deregister :: "index_env \<Rightarrow> redp2p \<Rightarrow> JSON_Object \<Rightarrow> string option \<times> redp2p" where
  "redp2p_index_handle_deregister env ctx req =
     (case redp2p_index_require_id_response env req (REDP2P_ID_MAX + 1) of
        Inl r \<Rightarrow> (r, ctx)
      | Inr pid \<Rightarrow>
     (case redp2p_index_require_hex req ''key'' REDP2P_KEY_STR_SZ REDP2P_KEY_SZ of
        None \<Rightarrow> (redp2p_index_respond_error env 400 ''bad_request'', ctx)
      | Some key \<Rightarrow>
          let ctx = redp2p_evict_stale (env_clock env 0) ctx
          in (case redp2p_find_peer ctx pid of
             None \<Rightarrow> (redp2p_index_respond_error env 403 ''invalid_key'', ctx)
           | Some i \<Rightarrow>
               if peer_key (peers ctx ! i) \<noteq> key
               then (redp2p_index_respond_error env 403 ''invalid_key'', ctx)
               else (reply_with env (json_object_set_boolean [] ''ok'' True),
                     snd (redp2p_remove_peer ctx pid)))))"

definition redp2p_index_handle_punch_req :: "index_env \<Rightarrow> redp2p \<Rightarrow> JSON_Object \<Rightarrow> string option \<times> redp2p" where
  "redp2p_index_handle_punch_req env ctx req =
     (case (redp2p_index_require_id req ''self_id'' (REDP2P_ID_MAX + 1),
            redp2p_index_require_id req ''target_id'' (REDP2P_ID_MAX + 1)) of
        (Inr caller, Inr target) \<Rightarrow>
          if \<not> json_object_has_value_of_type req ''session'' TString
          then (redp2p_index_respond_error env 400 ''bad_request'', ctx)
          else (case json_object_get_string req ''session'' of
             None \<Rightarrow> (redp2p_index_respond_error env 400 ''bad_request'', ctx)
           | Some session \<Rightarrow>
               if length session \<ge> REDP2P_CTRL_SESSION_MAX + 1 \<or> \<not> redp2p_is_session_token session
               then (redp2p_index_respond_error env 400 ''bad_request'', ctx)
               else (case redp2p_index_parse_candidates (env_net env) req ''candidates'' of
                  None \<Rightarrow> (redp2p_index_respond_error env 400 ''bad_request'', ctx)
                | Some cands \<Rightarrow>
                    let ctx = redp2p_pending_call_evict_stale (env_clock env 0) ctx
                    in (case redp2p_pending_call_add (env_clock env 1) ctx caller target session cands of
                       None \<Rightarrow> (redp2p_index_respond_error env 503 ''busy'', ctx)
                     | Some ctx \<Rightarrow> (reply_with env (json_object_set_boolean [] ''ok'' True), ctx))))
      | (self_result, target_result) \<Rightarrow>
          (redp2p_index_respond_error env 400
             (if self_result = Inl 0 \<or> target_result = Inl 0 then ''bad_request'' else ''invalid_id''), ctx))"

definition call_object :: "redp2p_pending_call_t \<Rightarrow> JSON_Object" where
  "call_object c =
     (let call = json_object_set_string [] ''self_id'' (caller_id c);
          call = json_object_set_string call ''session'' (sess_id c)
      in redp2p_index_append_candidates call ''candidates'' (call_candidates c))"

definition redp2p_index_handle_punch_poll :: "index_env \<Rightarrow> redp2p \<Rightarrow> JSON_Object \<Rightarrow> string option \<times> redp2p" where
  "redp2p_index_handle_punch_poll env ctx req =
     (case redp2p_index_require_id_response env req (REDP2P_ID_MAX + 1) of
        Inl r \<Rightarrow> (r, ctx)
      | Inr pid \<Rightarrow>
          (case redp2p_pending_call_take_all (redp2p_pending_call_evict_stale (env_clock env 0) ctx) pid of
             (calls, ctx) \<Rightarrow>
               let out = json_object_set_value [] ''calls'' (JSONArray (map (\<lambda>c. JSONObject (call_object c)) calls));
                   out = json_object_set_boolean out ''ok'' True
               in (reply_with env out, ctx)))"

definition redp2p_index_dispatch :: "index_env \<Rightarrow> redp2p \<Rightarrow> string \<Rightarrow> string option \<times> redp2p" where
  "redp2p_index_dispatch env ctx body =
     (case json_parse_string (env_libc env) body of
        Some (JSONObject req) \<Rightarrow>
          if \<not> redp2p_index_json_unique_fields req
          then (redp2p_index_respond_error env 400 ''bad_request'', ctx)
          else if \<not> json_object_has_value_of_type req ''op'' TString
          then (redp2p_index_respond_error env 400 ''bad_request'', ctx)
          else let op = the (json_object_get_string req ''op'')
               in if op = ''challenge'' then redp2p_index_handle_challenge env ctx req
                  else if op = ''register'' then redp2p_index_handle_register env ctx req
                  else if op = ''heartbeat'' then redp2p_index_handle_heartbeat env ctx req
                  else if op = ''lookup'' then redp2p_index_handle_lookup env ctx req
                  else if op = ''list'' then redp2p_index_handle_list env ctx req
                  else if op = ''deregister'' then redp2p_index_handle_deregister env ctx req
                  else if op = ''punch_req'' then redp2p_index_handle_punch_req env ctx req
                  else if op = ''punch_poll'' then redp2p_index_handle_punch_poll env ctx req
                  else (redp2p_index_respond_error env 400 ''bad_request'', ctx)
      | _ \<Rightarrow> (redp2p_index_respond_error env 400 ''bad_request'', ctx))"

section \<open>What a request yields\<close>

lemma require_id_valid: "redp2p_index_require_id obj field cap = Inr pid \<Longrightarrow> redp2p_is_valid_id pid"
  by (auto simp: redp2p_index_require_id_def split: if_splits option.splits)

lemma require_id_response_valid:
  "redp2p_index_require_id_response env req cap = Inr pid \<Longrightarrow> redp2p_is_valid_id pid"
  by (auto simp: redp2p_index_require_id_response_def dest: require_id_valid split: sum.splits)

lemma floor_port:
  assumes "\<not> (q::rat) < 1" "\<not> q > 65535"
  shows "(word_of_int \<lfloor>q\<rfloor> :: 16 word) \<noteq> 0"
proof -
  have r: "1 \<le> \<lfloor>q\<rfloor>" "\<lfloor>q\<rfloor> \<le> 65535" using assms by (simp_all add: le_floor_iff floor_le_iff)
  then have "uint (word_of_int \<lfloor>q\<rfloor> :: 16 word) = \<lfloor>q\<rfloor>" by (simp add: uint_word_of_int)
  moreover have "uint (word_of_int \<lfloor>q\<rfloor> :: 16 word) = 0" if "(word_of_int \<lfloor>q\<rfloor> :: 16 word) = 0" by (simp only: that uint_0_eq)
  ultimately show ?thesis using r(1) by linarith
qed

lemma parse_candidate_item_wf:
  assumes "parse_candidate_item net v = Some c"
  shows "usable net c \<and> ranked net c = c \<and> length (cand_addr c) \<le> REDP2P_ADDR_MAX"
proof -
  from assms obtain type addr q where t: "type \<in> {CAND_HOST, CAND_LAN, CAND_PUBLIC, CAND_SRFLX}"
    and a: "length addr \<le> REDP2P_ADDR_MAX" "pton4 net addr \<noteq> None \<or> pton6 net addr \<noteq> None"
    and q: "\<not> (q::rat) < 1" "\<not> q > 65535"
    and c: "c = ranked net \<lparr>cand_type = type, cand_addr = addr, cand_port = word_of_int \<lfloor>q\<rfloor>, cand_priority = 0\<rparr>"
    unfolding parse_candidate_item_def
    by (auto simp: Let_def ranked_def split: option.splits if_splits)
  have "cand_type c \<noteq> CAND_PROXY" using t by (auto simp: c)
  moreover have "redp2p_candidate_family net c \<noteq> AF_UNSPEC" using a(2) by (auto simp: c redp2p_candidate_family_def)
  moreover have "cand_port c \<noteq> 0" using floor_port [OF q] by (simp add: c)
  moreover have "ranked net c = c" by (simp add: c ranked_def redp2p_candidate_priority_def redp2p_candidate_family_def)
  ultimately show ?thesis using a(1) by (simp add: usable_def c)
qed

lemma parse_candidate_items_wf:
  "parse_candidate_items net vs = Some cs \<Longrightarrow> length cs = length vs \<and>
   list_all (\<lambda>c. usable net c \<and> ranked net c = c \<and> length (cand_addr c) \<le> REDP2P_ADDR_MAX) cs"
  by (induction vs arbitrary: cs) (auto split: option.splits dest: parse_candidate_item_wf)

lemma parse_candidates_wf:
  "redp2p_index_parse_candidates net obj field = Some cs \<Longrightarrow> wf_candidates net cs"
  by (auto simp: redp2p_index_parse_candidates_def wf_candidates_def macros split: if_splits option.splits
      dest!: parse_candidate_items_wf)

text \<open>A record that some request has announced: its transport and port are set.\<close>

definition announced :: "redp2p_peer_t \<Rightarrow> bool" where
  "announced p \<longleftrightarrow> peer_proto p \<in> {REDP2P_PROTO_TCP, REDP2P_PROTO_UDP} \<and> peer_udp_port p \<noteq> 0"

lemma announced_fields_wf:
  "announced_fields env req = Some (proto, port, cands) \<Longrightarrow>
   proto \<in> {REDP2P_PROTO_TCP, REDP2P_PROTO_UDP} \<and> port \<noteq> 0 \<and> wf_candidates (env_net env) cands"
  by (auto simp: announced_fields_def Let_def floor_port dest: parse_candidates_wf split: if_splits option.splits)

definition wf_index :: "inet_ops \<Rightarrow> redp2p \<Rightarrow> bool" where
  "wf_index net ctx \<longleftrightarrow> wf_ctx net ctx \<and> list_all announced (peers ctx)"

text \<open>The random source fills the buffer it is given; the hash context has its 64-byte block.\<close>

definition env_ok :: "index_env \<Rightarrow> bool" where
  "env_ok env \<longleftrightarrow> (\<forall>bs. key_random env = Some bs \<longrightarrow> length bs = 8)
     \<and> (\<forall>bs. nonce_random env = Some bs \<longrightarrow> length bs = 8) \<and> length (sha_buf (sha_memory env)) = 64"

text \<open>Everything but the publisher table and the pending calls.\<close>

definition frame :: "redp2p \<Rightarrow> redp2p" where
  "frame ctx = ctx\<lparr>peers := [], peers_alloc := 0, pending_calls := []\<rparr>"

lemma frame_simps [simp]:
  "frame (ctx\<lparr>peers := ps\<rparr>) = frame ctx" "frame (ctx\<lparr>peers_alloc := n\<rparr>) = frame ctx"
  "frame (ctx\<lparr>pending_calls := cs\<rparr>) = frame ctx"
  by (simp_all add: frame_def)

lemma frame_ops [simp]:
  "frame (redp2p_evict_stale now ctx) = frame ctx" "frame (snd (redp2p_remove_peer ctx pid)) = frame ctx"
  "frame (redp2p_pending_call_evict_stale now ctx) = frame ctx"
  "frame (snd (redp2p_pending_call_take_all ctx t)) = frame ctx"
  "frame (announce ctx i a now) = frame ctx"
  "redp2p_pending_call_add now ctx caller target sess cs = Some ctx' \<Longrightarrow> frame ctx' = frame ctx"
  by (auto simp: evict_stale_eq redp2p_remove_peer_def pending_evict_frame pending_take_frame announce_def
      redp2p_pending_call_add_def split: option.split prod.split if_splits)

lemma frame_ensure [simp]: "frame (snd (redp2p_ensure_peer_storage alloc ctx n)) = frame ctx"
proof -
  define limit where "limit = (if seats_set ctx then n_peers_cap ctx else SIZE_MAX div sizeof_peer)"
  define start where "start = (if peers_alloc ctx > 0 then peers_alloc ctx else 8)"
  define g where "g = grow_cap 65 limit n (if start > limit then limit else start)"
  have "redp2p_ensure_peer_storage alloc ctx n =
      (if n > limit then (REDP2P_EFULL, ctx) else if n \<le> peers_alloc ctx then (REDP2P_OK, ctx)
       else case g of None \<Rightarrow> (REDP2P_ERROR, ctx)
         | Some cap \<Rightarrow> if cap > SIZE_MAX div sizeof_peer then (REDP2P_ERROR, ctx)
             else if \<not> alloc (cap * sizeof_peer) then (REDP2P_ERROR, ctx)
             else (REDP2P_OK, ctx\<lparr>peers_alloc := cap\<rparr>))"
    unfolding redp2p_ensure_peer_storage_def Let_def limit_def start_def g_def ..
  then show ?thesis by (cases g) simp_all
qed

lemma frame_add_peer [simp]: "frame (snd (redp2p_add_peer alloc r now ctx pid)) = frame ctx"
proof -
  obtain rc ctx' where e: "redp2p_ensure_peer_storage alloc ctx (Suc (length (peers ctx))) = (rc, ctx')" by fastforce
  have "frame ctx' = frame ctx" using frame_ensure [of alloc ctx "Suc (length (peers ctx))"] by (simp add: e)
  then show ?thesis
    by (cases "redp2p_find_peer ctx pid"; cases "redp2p_generate_key r") (simp_all add: redp2p_add_peer_def e Let_def)
qed

lemma wf_index_evict [wf_intros]: "wf_index net ctx \<Longrightarrow> wf_index net (redp2p_evict_stale now ctx)"
  using wf_evict_stale by (auto simp: wf_index_def evict_stale_eq list_all_iff)

lemma wf_index_remove [wf_intros]: "wf_index net ctx \<Longrightarrow> wf_index net (snd (redp2p_remove_peer ctx pid))"
  using wf_remove_peer [of net ctx pid] wf_ctx_distinct [of net ctx]
  by (auto simp: wf_index_def remove_peer_eq list_all_iff split: if_splits)

lemma wf_index_pending_evict [wf_intros]:
  "wf_index net ctx \<Longrightarrow> wf_index net (redp2p_pending_call_evict_stale now ctx)"
  using wf_pending_evict by (auto simp: wf_index_def pending_evict_frame)

lemma wf_index_take [wf_intros]: "wf_index net ctx \<Longrightarrow> wf_index net (snd (redp2p_pending_call_take_all ctx t))"
  using wf_pending_take by (auto simp: wf_index_def pending_take_frame)

lemma wf_index_pending_add:
  assumes "wf_index net ctx" "redp2p_pending_call_add now ctx caller target sess cands = Some ctx'"
    "redp2p_is_valid_id caller" "redp2p_is_valid_id target" "redp2p_is_session_token sess" "wf_candidates net cands"
  shows "wf_index net ctx'"
  using assms wf_pending_add [of net ctx now caller target sess cands ctx']
  by (auto simp: wf_index_def redp2p_pending_call_add_def split: if_splits)

lemma wf_announce [wf_intros]:
  assumes "wf_ctx (env_net env) ctx" "i < length (peers ctx)" "announced_fields env req = Some a"
    "\<forall>j < length (peers ctx). j \<noteq> i \<longrightarrow> announced (peers ctx ! j)"
  shows "wf_index (env_net env) (announce ctx i a now)"
proof -
  obtain proto port cands where a: "a = (proto, port, cands)" by (cases a)
  let ?p = "(peers ctx ! i)\<lparr>peer_proto := proto, peer_udp_port := port, peer_candidates := cands, last_seen := now\<rparr>"
  note f = announced_fields_wf [OF assms(3) [unfolded a]]
  have "wf_peer (env_net env) (peers ctx ! i)"
    using assms(1,2) by (simp add: wf_ctx_def wf_peers_def list_all_length)
  then have "wf_ctx (env_net env) (ctx\<lparr>peers := (peers ctx)[i := ?p]\<rparr>)"
    using f assms(1,2) by (intro wf_update_peer) (simp_all add: wf_peer_def)
  moreover have "list_all announced ((peers ctx)[i := ?p])"
    unfolding list_all_length length_list_update
  proof (intro allI impI)
    fix n assume "n < length (peers ctx)"
    then show "announced ((peers ctx)[i := ?p] ! n)"
      using assms(2,4) f by (cases "n = i") (auto simp: announced_def)
  qed
  ultimately show ?thesis by (simp add: wf_index_def announce_def a)
qed

end
