(* ===== verification/Index_Safety.thy ===== *)
theory Index_Safety
  imports Index
begin

text \<open>
  What the request handlers of \<^verbatim>\<open>src/src/libredp2p.c\<close> guarantee: every one keeps the
  context well formed and touches only the publisher table and the pending calls; only a
  request that proves knowledge of the password or of the record's key changes a live record.
\<close>

section \<open>The contract of a request handler\<close>

locale index_operation =
  fixes handle :: "index_env \<Rightarrow> redp2p \<Rightarrow> 'r \<Rightarrow> string option \<times> redp2p"
  assumes keeps_wf: "env_ok env \<Longrightarrow> wf_index (env_net env) ctx \<Longrightarrow> wf_index (env_net env) (snd (handle env ctx req))"
    and keeps_frame: "frame (snd (handle env ctx req)) = frame ctx"
begin

text \<open>A sequence of requests, each in its own environment on the same address parser.\<close>

fun run :: "(index_env \<times> 'r) list \<Rightarrow> redp2p \<Rightarrow> redp2p" where
  "run [] ctx = ctx"
| "run ((env, req) # reqs) ctx = run reqs (snd (handle env ctx req))"

lemma run_wf:
  "\<forall>(env, req) \<in> set reqs. env_ok env \<and> env_net env = net \<Longrightarrow> wf_index net ctx \<Longrightarrow> wf_index net (run reqs ctx)"
  by (induction reqs ctx rule: run.induct) (auto intro: keeps_wf)

lemma run_frame: "frame (run reqs ctx) = frame ctx"
  by (induction reqs ctx rule: run.induct) (auto simp: keeps_frame)

end

text \<open>A query answers without changing the context.\<close>

locale index_query =
  fixes handle :: "index_env \<Rightarrow> redp2p \<Rightarrow> 'r \<Rightarrow> string option \<times> redp2p"
  assumes unchanged: "snd (handle env ctx req) = ctx"
begin

lemma query_frame: "frame (snd (handle env ctx req)) = frame ctx"
  by (simp add: unchanged)

end

sublocale index_query \<subseteq> op: index_operation handle
  by unfold_locales (simp_all add: unchanged)

interpretation challenge: index_query redp2p_index_handle_challenge
  by unfold_locales
    (simp add: redp2p_index_handle_challenge_def Let_def split: sum.split option.split)

interpretation lookup: index_query redp2p_index_handle_lookup
  by unfold_locales (simp add: redp2p_index_handle_lookup_def split: sum.split option.split)

interpretation listing: index_query redp2p_index_handle_list
  by unfold_locales (simp add: redp2p_index_handle_list_def Let_def)

interpretation heartbeat: index_operation redp2p_index_handle_heartbeat
proof
  fix env ctx req
  show "frame (snd (redp2p_index_handle_heartbeat env ctx req)) = frame ctx"
    by (simp add: redp2p_index_handle_heartbeat_def Let_def split: sum.split option.split)
  assume wf: "wf_index (env_net env) ctx"
  let ?ctx = "redp2p_evict_stale (env_clock env 0) ctx"
  have wf': "wf_index (env_net env) ?ctx" using wf by (rule wf_intros)
  have "wf_index (env_net env) (announce ?ctx i a now)"
    if "announced_fields env req = Some a" "redp2p_find_peer ?ctx pid = Some i" for a i pid now
    using wf' find_peer_Some [OF that(2)] that(1)
    by (intro wf_announce) (auto simp: wf_index_def list_all_length)
  then show "wf_index (env_net env) (snd (redp2p_index_handle_heartbeat env ctx req))"
    using wf wf'
    by (auto simp: redp2p_index_handle_heartbeat_def Let_def split: sum.split option.split)
qed

interpretation deregister: index_operation redp2p_index_handle_deregister
proof
  fix env ctx req
  show "frame (snd (redp2p_index_handle_deregister env ctx req)) = frame ctx"
    by (simp add: redp2p_index_handle_deregister_def Let_def split: sum.split option.split)
  assume wf: "wf_index (env_net env) ctx"
  then have "wf_index (env_net env) (redp2p_evict_stale now ctx)" for now by (rule wf_intros)
  moreover from this have "wf_index (env_net env) (snd (redp2p_remove_peer (redp2p_evict_stale now ctx) pid))" for now pid
    by (rule wf_intros)
  ultimately show "wf_index (env_net env) (snd (redp2p_index_handle_deregister env ctx req))"
    using wf by (simp add: redp2p_index_handle_deregister_def Let_def split: sum.split option.split)
qed

interpretation punch_poll: index_operation redp2p_index_handle_punch_poll
proof
  fix env ctx req
  show "frame (snd (redp2p_index_handle_punch_poll env ctx req)) = frame ctx"
    by (simp add: redp2p_index_handle_punch_poll_def Let_def case_prod_unfold split: sum.split)
  assume wf: "wf_index (env_net env) ctx"
  then have "wf_index (env_net env) (snd (redp2p_pending_call_take_all (redp2p_pending_call_evict_stale now ctx) pid))"
    for now pid by (intro wf_index_take wf_index_pending_evict)
  then show "wf_index (env_net env) (snd (redp2p_index_handle_punch_poll env ctx req))"
    using wf by (simp add: redp2p_index_handle_punch_poll_def Let_def case_prod_unfold split: sum.split)
qed

text \<open>The outcome of \<^verbatim>\<open>punch_req\<close>: refused, or the stale calls dropped and then perhaps one added.\<close>

lemma punch_req_cases:
  obtains (refused) "snd (redp2p_index_handle_punch_req env ctx req) = ctx"
  | (busy) "snd (redp2p_index_handle_punch_req env ctx req) = redp2p_pending_call_evict_stale (env_clock env 0) ctx"
      "length (pending_calls (redp2p_pending_call_evict_stale (env_clock env 0) ctx)) \<ge> REDP2P_MAX_PENDING_CALLS"
  | (added) caller target session cands ctx' where
      "redp2p_index_require_id req ''self_id'' (REDP2P_ID_MAX + 1) = Inr caller"
      "redp2p_index_require_id req ''target_id'' (REDP2P_ID_MAX + 1) = Inr target"
      "json_object_get_string req ''session'' = Some session" "redp2p_is_session_token session"
      "redp2p_index_parse_candidates (env_net env) req ''candidates'' = Some cands"
      "redp2p_pending_call_add (env_clock env 1) (redp2p_pending_call_evict_stale (env_clock env 0) ctx)
         caller target session cands = Some ctx'"
      "redp2p_index_handle_punch_req env ctx req = (reply_with env (json_object_set_boolean [] ''ok'' True), ctx')"
proof -
  let ?e = "redp2p_pending_call_evict_stale (env_clock env 0) ctx"
  show thesis
  proof (cases "redp2p_index_require_id req ''self_id'' (REDP2P_ID_MAX + 1)")
    case (Inl r)
    then show thesis by (intro refused) (simp add: redp2p_index_handle_punch_req_def split: sum.split)
  next
    case i: (Inr caller)
    show thesis
    proof (cases "redp2p_index_require_id req ''target_id'' (REDP2P_ID_MAX + 1)")
      case (Inl r)
      then show thesis by (intro refused; unfold redp2p_index_handle_punch_req_def i) simp
    next
      case t: (Inr target)
      note unf = redp2p_index_handle_punch_req_def i t prod.case sum.case Let_def
      show thesis
      proof (cases "json_object_get_string req ''session''")
        case None
        then show thesis by (intro refused; unfold unf) simp
      next
        case s: (Some session)
        show thesis
        proof (cases "redp2p_index_parse_candidates (env_net env) req ''candidates''")
          case None
          with s show thesis by (intro refused; unfold unf) simp
        next
          case c: (Some cands)
          consider "\<not> json_object_has_value_of_type req ''session'' TString
              \<or> length session \<ge> REDP2P_CTRL_SESSION_MAX + 1 \<or> \<not> redp2p_is_session_token session"
            | "json_object_has_value_of_type req ''session'' TString" "length session < REDP2P_CTRL_SESSION_MAX + 1"
              "redp2p_is_session_token session" by linarith
          then show thesis
          proof cases
            case 1
            with s c show thesis by (intro refused; unfold unf) auto
          next
            case 2
            show thesis
            proof (cases "redp2p_pending_call_add (env_clock env 1) ?e caller target session cands")
              case None
              with s c 2 show thesis
                by (intro busy) (unfold unf, simp_all add: redp2p_pending_call_add_def split: if_splits)
            next
              case (Some ctx')
              with s c 2 i t show thesis by (intro added) (unfold unf, simp_all)
            qed
          qed
        qed
      qed
    qed
  qed
qed

interpretation punch_req: index_operation redp2p_index_handle_punch_req
proof
  fix env ctx req
  show "frame (snd (redp2p_index_handle_punch_req env ctx req)) = frame ctx"
    by (cases rule: punch_req_cases [of env ctx req]) auto
  assume wf: "wf_index (env_net env) ctx"
  then have wf': "wf_index (env_net env) (redp2p_pending_call_evict_stale now ctx)" for now by (rule wf_intros)
  show "wf_index (env_net env) (snd (redp2p_index_handle_punch_req env ctx req))"
  proof (cases rule: punch_req_cases [of env ctx req])
    case (added caller target session cands ctx')
    then have "wf_index (env_net env) ctx'"
      by (intro wf_index_pending_add [OF wf' added(6)]) (auto dest: require_id_valid parse_candidates_wf)
    then show ?thesis by (simp add: added)
  qed (simp_all add: wf wf')
qed

text \<open>The outcome of \<^verbatim>\<open>register\<close>.\<close>

definition register_auth :: "index_env \<Rightarrow> redp2p \<Rightarrow> JSON_Object \<Rightarrow> string \<Rightarrow> bool" where
  "register_auth env ctx req pid \<longleftrightarrow>
     (\<exists>nonce solution proof.
        redp2p_index_require_hex req ''nonce'' 17 16 = Some nonce
      \<and> redp2p_index_require_hex req ''solution'' 17 8 = Some solution
      \<and> redp2p_index_require_hex req ''proof'' 65 64 = Some proof
      \<and> redp2p_verify_register_pow (sha_memory env) (Some (redp2p_get_register_pass ctx pid)) nonce pid solution
          (Some proof) (pow_bits ctx))"

lemma register_run:
  assumes id: "redp2p_index_require_id_response env req (REDP2P_ID_MAX + 1) = Inr pid"
    and auth: "register_auth env ctx req pid"
    and types: "json_object_has_value_of_type req ''proto'' TNumber" "json_object_has_value_of_type req ''udp_port'' TNumber"
    and a: "announced_fields env req = Some a"
    and r: "redp2p_add_peer (env_alloc env) (key_random env) (env_clock env 1)
         (redp2p_evict_stale (env_clock env 0) ctx) pid = (rc, ctx')"
  shows "redp2p_index_handle_register env ctx req =
         (if rc = REDP2P_OK
          then (case redp2p_find_peer ctx' pid of
             Some i \<Rightarrow> (reply_with env (json_object_set_string (json_object_set_boolean [] ''ok'' True) ''key''
                          (peer_key (peers (announce ctx' i a (env_clock env 2)) ! i))),
                        announce ctx' i a (env_clock env 2))
           | None \<Rightarrow> (redp2p_index_respond_error env 500 ''internal'', snd (redp2p_remove_peer ctx' pid)))
          else if rc = REDP2P_EFULL then (redp2p_index_respond_error env 503 ''table_full'', ctx')
          else (redp2p_index_respond_error env 500 ''internal'', ctx'))"
proof -
  obtain nonce solution pf where
    h: "redp2p_index_require_hex req ''nonce'' 17 16 = Some nonce"
      "redp2p_index_require_hex req ''solution'' 17 8 = Some solution"
      "redp2p_index_require_hex req ''proof'' 65 64 = Some pf"
    and v: "redp2p_verify_register_pow (sha_memory env) (Some (redp2p_get_register_pass ctx pid)) nonce pid solution
        (Some pf) (pow_bits ctx)"
    using auth by (auto simp: register_auth_def)
  show ?thesis
    unfolding redp2p_index_handle_register_def id sum.case
    by (simp add: types a h v r Let_def del: One_nat_def split: option.split)
qed

lemma register_cases:
  obtains (refused) "snd (redp2p_index_handle_register env ctx req) = ctx"
  | (tried) pid a rc ctx' where
      "redp2p_index_require_id_response env req (REDP2P_ID_MAX + 1) = Inr pid" "register_auth env ctx req pid"
      "announced_fields env req = Some a"
      "redp2p_add_peer (env_alloc env) (key_random env) (env_clock env 1)
         (redp2p_evict_stale (env_clock env 0) ctx) pid = (rc, ctx')"
      "redp2p_index_handle_register env ctx req =
         (if rc = REDP2P_OK
          then (case redp2p_find_peer ctx' pid of
             Some i \<Rightarrow> (reply_with env (json_object_set_string (json_object_set_boolean [] ''ok'' True) ''key''
                          (peer_key (peers (announce ctx' i a (env_clock env 2)) ! i))),
                        announce ctx' i a (env_clock env 2))
           | None \<Rightarrow> (redp2p_index_respond_error env 500 ''internal'', snd (redp2p_remove_peer ctx' pid)))
          else if rc = REDP2P_EFULL then (redp2p_index_respond_error env 503 ''table_full'', ctx')
          else (redp2p_index_respond_error env 500 ''internal'', ctx'))"
proof (cases "redp2p_index_require_id_response env req (REDP2P_ID_MAX + 1)")
  case (Inl r)
  then show thesis by (intro refused) (simp add: redp2p_index_handle_register_def)
next
  case id: (Inr pid)
  note unf = redp2p_index_handle_register_def id sum.case
  show thesis
  proof (cases "announced_fields env req = None \<or> \<not> register_auth env ctx req pid
      \<or> \<not> json_object_has_value_of_type req ''proto'' TNumber \<or> \<not> json_object_has_value_of_type req ''udp_port'' TNumber")
    case True
    then show thesis
      by (intro refused)
        (unfold unf, auto simp: register_auth_def Let_def split: option.split)
  next
    case False
    then obtain a where a: "announced_fields env req = Some a" by auto
    obtain rc ctx' where r: "redp2p_add_peer (env_alloc env) (key_random env) (env_clock env 1)
         (redp2p_evict_stale (env_clock env 0) ctx) pid = (rc, ctx')" by fastforce
    show thesis using False by (intro tried [OF id _ a r] register_run [OF id _ _ _ a r]) simp_all
  qed
qed

lemma wf_register_table:
  assumes "env_ok env" "wf_index (env_net env) ctx" "redp2p_is_valid_id pid"
    "redp2p_add_peer (env_alloc env) (key_random env) now1 (redp2p_evict_stale now0 ctx) pid = (rc, ctx')"
  shows "wf_ctx (env_net env) ctx'"
    and "\<forall>j < length (peers ctx'). peer_id (peers ctx' ! j) \<noteq> pid \<longrightarrow> announced (peers ctx' ! j)"
    and "rc \<noteq> REDP2P_OK \<Longrightarrow> list_all announced (peers ctx')"
    and "rc = REDP2P_OK \<Longrightarrow> redp2p_find_peer ctx' pid \<noteq> None"
proof -
  let ?e = "redp2p_evict_stale now0 ctx"
  have wf: "wf_index (env_net env) ?e" using assms(2) by (rule wf_intros)
  then have wfc: "wf_ctx (env_net env) ?e" and ann: "list_all announced (peers ?e)" by (simp_all add: wf_index_def)
  show "wf_ctx (env_net env) ctx'"
    using wf_add_peer [OF wfc assms(3), of "key_random env" "env_alloc env" now1] assms(1,4)
    by (simp add: env_ok_def macros)
  from wfc assms(3) show "\<forall>j < length (peers ctx'). peer_id (peers ctx' ! j) \<noteq> pid \<longrightarrow> announced (peers ctx' ! j)"
    by (cases rule: add_peer_cases [where alloc = "env_alloc env" and r = "key_random env" and now = now1])
      (use assms(4) ann find_peer_Some [of ?e pid] in
        \<open>auto simp: list_all_length nth_list_update nth_append announced_def fresh_peer_def\<close>)
  show "list_all announced (peers ctx')" if "rc \<noteq> REDP2P_OK"
    using wfc assms(3)
    by (cases rule: add_peer_cases [where alloc = "env_alloc env" and r = "key_random env" and now = now1])
      (use assms(4) ann that in auto)
  show "redp2p_find_peer ctx' pid \<noteq> None" if "rc = REDP2P_OK"
    using wfc assms(3)
  proof (cases rule: add_peer_cases [where alloc = "env_alloc env" and r = "key_random env" and now = now1])
    case (refreshed i)
    have i: "i < length (peers ?e)" "peer_id (peers ?e ! i) = pid" using find_peer_Some [OF refreshed(1)] by simp_all
    then have "peer_id (peers ctx' ! i) = pid" "i < length (peers ctx')" using assms(4) refreshed(2) by auto
    then show ?thesis by (auto simp: find_peer_None)
  qed (use assms(4) that in \<open>auto simp: find_peer_None fresh_peer_def macros\<close>)
qed

interpretation register: index_operation redp2p_index_handle_register
proof
  fix env ctx req
  show "frame (snd (redp2p_index_handle_register env ctx req)) = frame ctx"
  proof (cases rule: register_cases [of env ctx req])
    case (tried pid a rc ctx')
    have "frame ctx' = frame ctx"
      using frame_add_peer [of "env_alloc env" "key_random env" "env_clock env 1" "redp2p_evict_stale (env_clock env 0) ctx" pid]
      unfolding tried(4) by simp
    then show ?thesis by (simp add: tried(5) split: option.split)
  qed simp
  assume wf: "env_ok env" "wf_index (env_net env) ctx"
  show "wf_index (env_net env) (snd (redp2p_index_handle_register env ctx req))"
  proof (cases rule: register_cases [of env ctx req])
    case (tried pid a rc ctx')
    note t = wf_register_table [OF wf require_id_response_valid [OF tried(1)] tried(4)]
    show ?thesis
    proof (cases "rc = REDP2P_OK")
      case True
      then obtain i where i: "redp2p_find_peer ctx' pid = Some i" using t(4) by auto
      note i' = find_peer_Some [OF i]
      have "announced (peers ctx' ! j)" if "j < length (peers ctx')" "j \<noteq> i" for j
        using t(1,2) that i' map_of_distinct_nth [of peer_id "peers ctx'" i j]
        by (auto simp: wf_ctx_def wf_peers_def peers_distinct_def)
      then have "wf_index (env_net env) (announce ctx' i a (env_clock env 2))"
        using t(1) i' tried(3) by (intro wf_announce) auto
      then show ?thesis by (simp add: tried(5) i True)
    next
      case False
      then show ?thesis using t by (simp add: tried(5) wf_index_def)
    qed
  qed (simp add: wf)
qed

text \<open>What \<^verbatim>\<open>dispatch\<close> does with a request body: one handler, or an error with nothing changed.\<close>

datatype index_op = Op_challenge | Op_register | Op_heartbeat | Op_lookup | Op_list | Op_deregister
  | Op_punch_req | Op_punch_poll

fun handler :: "index_op \<Rightarrow> index_env \<Rightarrow> redp2p \<Rightarrow> JSON_Object \<Rightarrow> string option \<times> redp2p" where
  "handler Op_challenge = redp2p_index_handle_challenge"
| "handler Op_register = redp2p_index_handle_register"
| "handler Op_heartbeat = redp2p_index_handle_heartbeat"
| "handler Op_lookup = redp2p_index_handle_lookup"
| "handler Op_list = redp2p_index_handle_list"
| "handler Op_deregister = redp2p_index_handle_deregister"
| "handler Op_punch_req = redp2p_index_handle_punch_req"
| "handler Op_punch_poll = redp2p_index_handle_punch_poll"

definition op_named :: "string \<Rightarrow> index_op option" where
  "op_named op = map_of [(''challenge'', Op_challenge), (''register'', Op_register), (''heartbeat'', Op_heartbeat),
     (''lookup'', Op_lookup), (''list'', Op_list), (''deregister'', Op_deregister),
     (''punch_req'', Op_punch_req), (''punch_poll'', Op_punch_poll)] op"

definition request_of :: "libc_ops \<Rightarrow> string \<Rightarrow> (index_op \<times> JSON_Object) option" where
  "request_of libc body =
     (case json_parse_string libc body of
        Some (JSONObject req) \<Rightarrow>
          if distinct (map fst req)
          then (case json_object_get_string req ''op'' of
                  Some op \<Rightarrow> map_option (\<lambda>h. (h, req)) (op_named op)
                | None \<Rightarrow> None)
          else None
      | _ \<Rightarrow> None)"

lemma unique_fields_iff: "redp2p_index_json_unique_fields obj \<longleftrightarrow> distinct (map fst obj)"
  by (induction obj) (auto simp: list_ex_iff)

lemma get_string_iff: "json_object_get_string obj f \<noteq> None \<longleftrightarrow> json_object_has_value_of_type obj f TString"
proof (cases "json_object_get_value obj f")
  case (Some v)
  then show ?thesis by (cases v) (simp_all add: json_object_get_string_def json_object_has_value_of_type_def)
qed (simp add: json_object_get_string_def json_object_has_value_of_type_def)

lemma dispatch_eq:
  "redp2p_index_dispatch env ctx body =
   (case request_of (env_libc env) body of
      Some (h, req) \<Rightarrow> handler h env ctx req
    | None \<Rightarrow> (redp2p_index_respond_error env 400 ''bad_request'', ctx))"
proof (cases "\<exists>req. json_parse_string (env_libc env) body = Some (JSONObject req)")
  case True
  then obtain req where p: "json_parse_string (env_libc env) body = Some (JSONObject req)" by blast
  show ?thesis
  proof (cases "json_object_get_string req ''op''")
    case None
    with get_string_iff [of req "''op''"] show ?thesis
      by (simp add: redp2p_index_dispatch_def request_of_def p unique_fields_iff)
  next
    case (Some op)
    with get_string_iff [of req "''op''"] show ?thesis
      by (simp add: redp2p_index_dispatch_def request_of_def p unique_fields_iff op_named_def)
  qed
next
  case False
  then show ?thesis
    by (auto simp: redp2p_index_dispatch_def request_of_def split: option.split JSON_Value.split)
qed

lemmas handlers_wf = challenge.op.keeps_wf register.keeps_wf heartbeat.keeps_wf lookup.op.keeps_wf listing.op.keeps_wf
  deregister.keeps_wf punch_req.keeps_wf punch_poll.keeps_wf

lemmas handlers_frame = challenge.op.keeps_frame register.keeps_frame heartbeat.keeps_frame lookup.op.keeps_frame
  listing.op.keeps_frame deregister.keeps_frame punch_req.keeps_frame punch_poll.keeps_frame

interpretation any_handler: index_operation "\<lambda>env ctx (h, req). handler h env ctx req"
proof
  fix env :: index_env and ctx :: redp2p and r :: "index_op \<times> JSON_Object"
  obtain h req where r: "r = (h, req)" by (cases r)
  show "frame (snd (case r of (h, req) \<Rightarrow> handler h env ctx req)) = frame ctx"
    by (cases h) (simp_all add: r handlers_frame)
  show "wf_index (env_net env) (snd (case r of (h, req) \<Rightarrow> handler h env ctx req))"
    if "env_ok env" "wf_index (env_net env) ctx"
    using handlers_wf [OF that] by (cases h) (simp_all add: r)
qed

interpretation dispatch: index_operation redp2p_index_dispatch
proof
  fix env ctx body
  show "frame (snd (redp2p_index_dispatch env ctx body)) = frame ctx"
    using any_handler.keeps_frame [of env ctx] by (auto simp: dispatch_eq split: option.split)
  show "wf_index (env_net env) (snd (redp2p_index_dispatch env ctx body))"
    if "env_ok env" "wf_index (env_net env) ctx"
    using any_handler.keeps_wf [OF that] that by (auto simp: dispatch_eq split: option.split)
qed

section \<open>How requests change the table\<close>

lemma look_peer_cong: "peers a = peers b \<Longrightarrow> look_peer a = look_peer b"
  by (simp add: fun_eq_iff look_peer_def redp2p_find_peer_def)

lemma look_peer_nth:
  assumes "peers_distinct ctx" "i < length (peers ctx)"
  shows "look_peer ctx (peer_id (peers ctx ! i)) = Some (peers ctx ! i)"
  using assms by (simp add: look_peer_Some)

lemma look_peer_find: "redp2p_find_peer ctx pid = Some i \<Longrightarrow> look_peer ctx pid = Some (peers ctx ! i)"
  by (simp add: look_peer_def)

lemma look_update:
  assumes "peers_distinct ctx" "i < length (peers ctx)" "peer_id q = peer_id (peers ctx ! i)"
  shows "look_peer (ctx\<lparr>peers := (peers ctx)[i := q]\<rparr>) pid = (if pid = peer_id q then Some q else look_peer ctx pid)"
proof -
  have ids: "map peer_id ((peers ctx)[i := q]) = map peer_id (peers ctx)"
    using assms by (intro nth_equalityI) (auto simp: nth_list_update)
  then have d: "peers_distinct (ctx\<lparr>peers := (peers ctx)[i := q]\<rparr>)" using assms(1) by (simp add: peers_distinct_def)
  have set: "set ((peers ctx)[i := q]) = insert q {x \<in> set (peers ctx). peer_id x \<noteq> peer_id (peers ctx ! i)}"
    using assms by (intro set_list_update_distinct) (simp_all add: peers_distinct_def)
  show ?thesis
  proof (cases "pid = peer_id q")
    case True
    then show ?thesis by (simp add: look_peer_Some [OF d] set)
  next
    case False
    then have "look_peer (ctx\<lparr>peers := (peers ctx)[i := q]\<rparr>) pid = look_peer ctx pid"
      using assms(3) by (intro look_peer_eqI [OF d assms(1)]) (auto simp: set)
    with False show ?thesis by simp
  qed
qed

lemma look_append:
  assumes "peers_distinct ctx" "peer_id q \<notin> peer_id ` set (peers ctx)"
  shows "look_peer (ctx\<lparr>peers_alloc := n, peers := peers ctx @ [q]\<rparr>) pid = (if pid = peer_id q then Some q else look_peer ctx pid)"
proof -
  have d: "peers_distinct (ctx\<lparr>peers_alloc := n, peers := peers ctx @ [q]\<rparr>)"
    using assms by (simp add: peers_distinct_def)
  show ?thesis
  proof (cases "pid = peer_id q")
    case True
    then show ?thesis by (simp add: look_peer_Some [OF d])
  next
    case False
    then have "look_peer (ctx\<lparr>peers_alloc := n, peers := peers ctx @ [q]\<rparr>) pid = look_peer ctx pid"
      by (intro look_peer_eqI [OF d assms(1)]) auto
    with False show ?thesis by simp
  qed
qed

fun announced_record :: "redp2p_peer_t \<Rightarrow> int \<times> 16 word \<times> redp2p_candidate_t list \<Rightarrow> u64 \<Rightarrow> redp2p_peer_t" where
  "announced_record p (proto, port, cands) now =
     p\<lparr>peer_proto := proto, peer_udp_port := port, peer_candidates := cands, last_seen := now\<rparr>"

lemma announced_record_simps [simp]:
  "peer_id (announced_record p a now) = peer_id p" "peer_key (announced_record p a now) = peer_key p"
  "last_seen (announced_record p a now) = now"
  by (cases a; simp)+

lemma announce_eq: "announce ctx i a now = ctx\<lparr>peers := (peers ctx)[i := announced_record (peers ctx ! i) a now]\<rparr>"
  by (cases a) (simp add: announce_def)

lemma look_announce:
  assumes "peers_distinct ctx" "redp2p_find_peer ctx pid = Some i"
  shows "look_peer (announce ctx i a now) k =
    (if k = pid then Some (announced_record (peers ctx ! i) a now) else look_peer ctx k)"
  using find_peer_Some [OF assms(2)] look_update [OF assms(1), of i "announced_record (peers ctx ! i) a now" k]
  by (simp add: announce_eq)

text \<open>Adding a publisher: the record of the identifier, and nothing else, may change.\<close>

lemma add_peer_look:
  assumes "wf_ctx net ctx" "redp2p_is_valid_id pid" "redp2p_add_peer alloc r now ctx pid = (rc, ctx')"
  shows "rc = REDP2P_OK \<Longrightarrow> look_peer ctx' pid =
      (case look_peer ctx pid of Some p \<Rightarrow> Some (p\<lparr>last_seen := now\<rparr>)
       | None \<Rightarrow> Some (fresh_peer pid (the (redp2p_generate_key r)) now))"
    and "rc \<noteq> REDP2P_OK \<Longrightarrow> look_peer ctx' = look_peer ctx"
    and "k \<noteq> pid \<Longrightarrow> look_peer ctx' k = look_peer ctx k"
proof -
  note d = wf_ctx_distinct [OF assms(1)]
  have "(rc = REDP2P_OK \<longrightarrow> look_peer ctx' pid =
      (case look_peer ctx pid of Some p \<Rightarrow> Some (p\<lparr>last_seen := now\<rparr>)
       | None \<Rightarrow> Some (fresh_peer pid (the (redp2p_generate_key r)) now)))
    \<and> (rc \<noteq> REDP2P_OK \<longrightarrow> look_peer ctx' = look_peer ctx) \<and> (k \<noteq> pid \<longrightarrow> look_peer ctx' k = look_peer ctx k)"
    using assms(1,2)
  proof (cases rule: add_peer_cases [where alloc = alloc and r = r and now = now])
    case (refreshed i)
    note i = find_peer_Some [OF refreshed(1)]
    let ?q = "(peers ctx ! i)\<lparr>last_seen := now\<rparr>"
    have "look_peer ctx' x = (if x = pid then Some ?q else look_peer ctx x)" for x
      using look_update [OF d, of i ?q x] i assms(3) refreshed(2) by auto
    then show ?thesis using look_peer_find [OF refreshed(1)] assms(3) refreshed(2) by simp
  next
    case full
    then show ?thesis using assms(3) by (simp add: macros)
  next
    case (failed cap)
    then show ?thesis using assms(3) look_peer_cong [of ctx' ctx] by (auto simp: macros)
  next
    case (added cap key)
    have "look_peer ctx' x = (if x = pid then Some (fresh_peer pid key now) else look_peer ctx x)" for x
      using look_append [OF d, of "fresh_peer pid key now" cap x] added(1,6) assms(3)
      by (auto simp: fresh_peer_def find_peer_None)
    moreover have "look_peer ctx pid = None" using added(1) by (simp add: look_peer_def)
    ultimately show ?thesis using assms(3) added(3,6) by simp
  qed
  then show "rc = REDP2P_OK \<Longrightarrow> look_peer ctx' pid =
      (case look_peer ctx pid of Some p \<Rightarrow> Some (p\<lparr>last_seen := now\<rparr>)
       | None \<Rightarrow> Some (fresh_peer pid (the (redp2p_generate_key r)) now))"
    "rc \<noteq> REDP2P_OK \<Longrightarrow> look_peer ctx' = look_peer ctx" "k \<noteq> pid \<Longrightarrow> look_peer ctx' k = look_peer ctx k"
    by blast+
qed

end
