(* ===== verification/Json_Roundtrip.thy ===== *)
theory Json_Roundtrip
  imports Json Text_Util
begin

text \<open>
  Parsing what the serialiser of \<^verbatim>\<open>src/lib/parson/parson.c\<close> wrote gives back the value,
  for every value with unique NUL-free field names nested at most \<^verbatim>\<open>MAX_NESTING\<close> deep, as
  long as the C library reads back the numbers it prints.
\<close>

section \<open>Strings\<close>

lemmas escape_defs = DQUOTE_def BACKSLASH_def LF_def CR_def

lemma escape_cases:
  obtains (plain) "escape_char c = [c]" "c \<noteq> DQUOTE" "c \<noteq> BACKSLASH" "\<not> ord c < 0x20"
  | (simple) d where "escape_char c = [BACKSLASH, d]" "simple_escape d = Some c" "d \<noteq> CHR ''u''"
  | (control) "escape_char c = BACKSLASH # ''u00'' @ [hex_char (ord c div 16), hex_char (ord c mod 16)]" "ord c < 0x20"
proof -
  consider "c = DQUOTE" | "c = BACKSLASH" | "c = CHR 0x08" | "c = CHR 0x0C" | "c = LF" | "c = CR" | "c = CHR 0x09"
    | "c = CHR ''/''"
    | "c \<notin> {DQUOTE, BACKSLASH, CHR 0x08, CHR 0x0C, LF, CR, CHR 0x09, CHR ''/''}" "ord c < 0x20"
    | "c \<notin> {DQUOTE, BACKSLASH, CHR 0x08, CHR 0x0C, LF, CR, CHR 0x09, CHR ''/''}" "\<not> ord c < 0x20"
    by blast
  then show thesis
  proof cases
    case 9
    then show thesis by (intro control) (simp_all add: escape_char_def)
  next
    case 10
    then show thesis by (intro plain) (simp_all add: escape_char_def)
  qed (rule simple [of DQUOTE] simple [of BACKSLASH] simple [of "CHR ''b''"] simple [of "CHR ''f''"]
      simple [of "CHR ''n''"] simple [of "CHR ''r''"] simple [of "CHR ''t''"] simple [of "CHR ''/''"];
      simp add: escape_char_def simple_escape_def escape_defs; fail)+
qed

lemma hex_char_value: "n < 16 \<Longrightarrow> hex_char_to_int (hex_char n) = int n"
proof -
  assume "n < 16"
  then have "n \<in> {0, 1, 2, 3, 4, 5, 6, 7, 8, 9, 10, 11, 12, 13, 14, 15}" unfolding insert_iff empty_iff by presburger
  then show ?thesis by (elim insertE emptyE) (simp_all add: hex_char_def hex_char_to_int_def between_def)
qed

lemma hex_char_plain: "n < 16 \<Longrightarrow> hex_char n \<noteq> DQUOTE \<and> hex_char n \<noteq> BACKSLASH"
  using hex_char_value [of n] by (auto simp: hex_char_to_int_def between_def escape_defs)

lemma control_escape:
  assumes "ord c < 0x20"
  shows "parse_utf16 (''00'' @ [hex_char (ord c div 16), hex_char (ord c mod 16)] @ r) = Some ([c], r)"
proof -
  have "ord c div 16 < 16" "ord c mod 16 < 16" using assms by simp_all
  then have "parse_utf16_hex (''00'' @ [hex_char (ord c div 16), hex_char (ord c mod 16)] @ r) = Some (ord c)"
    by (simp add: parse_utf16_hex_def hex_char_value Let_def)
      (simp add: hex_char_to_int_def between_def nat_eq_iff zdiv_int zmod_int)
  then show ?thesis using assms by (simp add: parse_utf16_def)
qed

lemma skip_to_quote_escaped: "skip_to_quote (concat (map escape_char s) @ DQUOTE # rest) = Some rest"
proof (induction s)
  case (Cons c s)
  show ?case
  proof (cases c rule: escape_cases)
    case control
    then have "ord c div 16 < 16" "ord c mod 16 < 16" by simp_all
    from this [THEN hex_char_plain] show ?thesis using Cons by (simp add: control(1) escape_defs)
  qed (use Cons in \<open>simp_all add: escape_defs\<close>)
qed simp

lemma process_escaped: "process_string (concat (map escape_char s)) = Some s"
proof (induction s)
  case (Cons c s)
  show ?case
  proof (cases c rule: escape_cases)
    case control
    then show ?thesis using Cons control_escape [OF control(2), of "concat (map escape_char s)"]
      by (simp add: BACKSLASH_def)
  qed (use Cons in simp_all)
qed simp

lemma get_quoted_serialized: "get_quoted_string (json_serialize_string s @ rest) = Some (s, rest)"
  by (simp add: get_quoted_string_def json_serialize_string_def skip_quotes_def skip_to_quote_escaped process_escaped)

section \<open>Values\<close>

text \<open>What follows a value in serialised text: the end, a comma or a closing bracket.\<close>

definition delim :: "string \<Rightarrow> bool" where
  "delim r \<longleftrightarrow> r = [] \<or> hd r \<in> {CHR '','', CHR '']'', CHR ''}''}"

text \<open>The C library prints a number that the parser accepts and reads back.\<close>

definition number_ok :: "libc_ops \<Rightarrow> rat \<Rightarrow> bool" where
  "number_ok libc q \<longleftrightarrow> num_fmt libc q \<noteq> [] \<and> (hd (num_fmt libc q) = CHR ''-'' \<or> is_digit (hd (num_fmt libc q)))
     \<and> is_decimal (num_fmt libc q)
     \<and> (\<forall>r. delim r \<longrightarrow> strtod libc (num_fmt libc q @ r) = Some (q, length (num_fmt libc q)))"

text \<open>Values within the nesting limit, with unique NUL-free field names and such numbers.\<close>

fun json_ok :: "libc_ops \<Rightarrow> nat \<Rightarrow> JSON_Value \<Rightarrow> bool" where
  "json_ok libc n (JSONArray vs) \<longleftrightarrow> n \<le> MAX_NESTING \<and> (\<forall>v \<in> set vs. json_ok libc (Suc n) v)"
| "json_ok libc n (JSONObject fs) \<longleftrightarrow> n \<le> MAX_NESTING \<and> distinct (map fst fs)
     \<and> (\<forall>f \<in> set fs. NUL \<notin> set (fst f)) \<and> (\<forall>f \<in> set fs. json_ok libc (Suc n) (snd f))"
| "json_ok libc n (JSONNumber q) \<longleftrightarrow> n \<le> MAX_NESTING \<and> number_ok libc q"
| "json_ok libc n (JSONString t) \<longleftrightarrow> n \<le> MAX_NESTING"
| "json_ok libc n (JSONBoolean b) \<longleftrightarrow> n \<le> MAX_NESTING"
| "json_ok libc n JSONNull \<longleftrightarrow> n \<le> MAX_NESTING"

abbreviation ser :: "libc_ops \<Rightarrow> JSON_Value \<Rightarrow> string" where
  "ser \<equiv> json_serialize_to_buffer_r"

abbreviation ser_field :: "libc_ops \<Rightarrow> string \<times> JSON_Value \<Rightarrow> string" where
  "ser_field libc f \<equiv> json_serialize_string (fst f) @ '':'' @ ser libc (snd f)"

lemma json_ok_nesting: "json_ok libc n v \<Longrightarrow> n \<le> MAX_NESTING"
  by (cases v) auto

lemma delim_simps [simp]: "delim (CHR '','' # r)" "delim (CHR '']'' # r)" "delim (CHR ''}'' # r)" "delim []"
  by (simp_all add: delim_def)

lemma skip_plain: "s \<noteq> [] \<Longrightarrow> \<not> isspace (hd s) \<Longrightarrow> skip_whitespaces s = s"
  by (cases s) (simp_all add: skip_whitespaces_def)

lemma digit_plain: "is_digit c \<Longrightarrow> \<not> isspace c \<and> c \<noteq> CHR '']'' \<and> c \<noteq> CHR ''}'' \<and> c \<noteq> CHR ''{'' \<and> c \<noteq> CHR ''[''
   \<and> c \<noteq> DQUOTE \<and> c \<noteq> CHR ''f'' \<and> c \<noteq> CHR ''t''"
  by (auto simp: between_def isspace_def DQUOTE_def)

lemma ser_head:
  assumes "json_ok libc n v"
  shows "ser libc v \<noteq> [] \<and> \<not> isspace (hd (ser libc v)) \<and> hd (ser libc v) \<noteq> CHR '']'' \<and> hd (ser libc v) \<noteq> CHR ''}''"
proof (cases v)
  case (JSONNumber q)
  with assms show ?thesis using digit_plain [of "hd (num_fmt libc q)"]
    by (auto simp: number_ok_def) (auto simp: isspace_def)
qed (auto simp: json_serialize_string_def isspace_def DQUOTE_def)

lemma skip_ser: "json_ok libc n v \<Longrightarrow> skip_whitespaces (ser libc v @ r) = ser libc v @ r"
  using ser_head [of libc n v] by (intro skip_plain) auto

lemma at_char_ser: "json_ok libc n v \<Longrightarrow> \<not> at_char (CHR '']'') (ser libc v @ r)"
  using ser_head [of libc n v] by (auto simp: at_char_def)

lemma parse_number_ser:
  assumes "json_ok libc n (JSONNumber q)" "delim r"
  shows "parse_value libc n (num_fmt libc q @ r) = Some (JSONNumber q, r)"
proof -
  obtain c cs where t: "num_fmt libc q = c # cs" "c = CHR ''-'' \<or> is_digit c"
    using assms(1) by (cases "num_fmt libc q") (auto simp: number_ok_def)
  have skip: "skip_whitespaces (num_fmt libc q @ r) = c # cs @ r"
    using skip_ser [OF assms(1)] by (simp add: t)
  have "parse_number_value libc (c # cs @ r) = Some (JSONNumber q, r)"
    using assms unfolding number_ok_def json_ok.simps t(1) by (auto simp: parse_number_value_def)
  with skip t(2) assms(1) digit_plain [of c] show ?thesis
    by (subst parse_value.simps) (auto simp: DQUOTE_def)
qed

lemma parse_scalar_ser:
  "n \<le> MAX_NESTING \<Longrightarrow> parse_value libc n (ser libc (JSONString t) @ r) = Some (JSONString t, r)"
  "n \<le> MAX_NESTING \<Longrightarrow> parse_value libc n (ser libc (JSONBoolean b) @ r) = Some (JSONBoolean b, r)"
  "n \<le> MAX_NESTING \<Longrightarrow> parse_value libc n (ser libc JSONNull @ r) = Some (JSONNull, r)"
proof -
  assume n: "n \<le> MAX_NESTING"
  have "\<exists>cs. json_serialize_string t @ r = DQUOTE # cs" by (simp add: json_serialize_string_def)
  then obtain cs where cs: "json_serialize_string t @ r = DQUOTE # cs" by blast
  have "skip_whitespaces (DQUOTE # cs) = DQUOTE # cs" by (rule skip_plain) (simp_all add: isspace_def DQUOTE_def)
  then show "parse_value libc n (ser libc (JSONString t) @ r) = Some (JSONString t, r)"
    using n get_quoted_serialized [of t r]
    by (subst parse_value.simps) (simp add: cs parse_string_value_def, simp add: DQUOTE_def)
  show "parse_value libc n (ser libc (JSONBoolean b) @ r) = Some (JSONBoolean b, r)"
    using n by (subst parse_value.simps)
      (simp add: skip_whitespaces_def isspace_def DQUOTE_def parse_boolean_value_def)
  show "parse_value libc n (ser libc JSONNull @ r) = Some (JSONNull, r)"
    using n by (subst parse_value.simps)
      (simp add: skip_whitespaces_def isspace_def DQUOTE_def parse_null_value_def between_def)
qed

lemma close_plain [simp]:
  "close_with (CHR '']'') v (CHR '']'' # r) = Some (v, r)"
  "close_with (CHR ''}'') v (CHR ''}'' # r) = Some (v, r)"
  by (simp_all add: close_with_def skip_whitespaces_def isspace_def at_char_def)

lemma skip_delim [simp]:
  "skip_whitespaces (CHR '','' # r) = CHR '','' # r" "skip_whitespaces (CHR '']'' # r) = CHR '']'' # r"
  "skip_whitespaces (CHR ''}'' # r) = CHR ''}'' # r" "skip_whitespaces (CHR '':'' # r) = CHR '':'' # r"
  by (simp_all add: skip_whitespaces_def isspace_def)

lemma array_loop_ser:
  assumes "vs \<noteq> []" "\<forall>v \<in> set vs. json_ok libc n v"
    "\<And>v r. v \<in> set vs \<Longrightarrow> delim r \<Longrightarrow> parse_value libc n (ser libc v @ r) = Some (v, r)"
  shows "array_loop libc n acc (join_comma (map (ser libc) vs) @ CHR '']'' # r) = Some (JSONArray (acc @ vs), r)"
  using assms
proof (induction vs arbitrary: acc rule: induct_list012)
  case (2 v)
  then show ?case using ser_head [of libc n v]
    by (subst parse_loops_guard(2)) (simp add: at_char_def)
next
  case (3 v w vs)
  define t where "t = join_comma (map (ser libc) (w # vs)) @ CHR '']'' # r"
  have "\<exists>u. t = ser libc w @ u" unfolding t_def by (cases vs) auto
  then have skip: "skip_whitespaces t = t" "\<not> at_char (CHR '']'') t"
    using "3.prems"(2) skip_ser [of libc n w] at_char_ser [of libc n w] by (metis list.set_intros(1,2))+
  have "parse_value libc n (ser libc v @ CHR '','' # t) = Some (v, CHR '','' # t)" using "3.prems"(3) by simp
  moreover have "array_loop libc n (acc @ [v]) t = Some (JSONArray ((acc @ [v]) @ w # vs), r)"
    unfolding t_def using "3.prems" by (intro "3.IH"(2)) auto
  moreover have "join_comma (map (ser libc) (v # w # vs)) @ CHR '']'' # r = ser libc v @ CHR '','' # t"
    by (simp add: t_def)
  ultimately show ?case
    by (simp only: parse_loops_guard(2) [of _ _ _ "ser libc v @ CHR '','' # t"])
      (simp add: Let_def at_char_def [of "CHR '',''"] skip)
qed simp

lemma skip_colon: "get_quoted_string (ser_field libc f @ r) = Some (fst f, CHR '':'' # ser libc (snd f) @ r)"
  using get_quoted_serialized [of "fst f" "CHR '':'' # ser libc (snd f) @ r"] by simp

lemma ser_field_head: "ser_field libc f @ r \<noteq> []" "skip_whitespaces (ser_field libc f @ r) = ser_field libc f @ r"
  "\<not> at_char (CHR ''}'') (ser_field libc f @ r)"
  by (simp_all add: json_serialize_string_def skip_whitespaces_def isspace_def DQUOTE_def at_char_def)

lemma object_loop_step:
  assumes "NUL \<notin> set (fst f)" "fst f \<notin> fst ` set acc"
    "parse_value libc n (ser libc (snd f) @ r) = Some (snd f, r)"
  shows "object_loop libc n acc (ser_field libc f @ r) =
    (let r2 = skip_whitespaces r; r3 = skip_whitespaces (tl r2)
     in if \<not> at_char (CHR '','') r2 then close_with (CHR ''}'') (JSONObject (acc @ [f])) r2
        else if at_char (CHR ''}'') r3 then close_with (CHR ''}'') (JSONObject (acc @ [f])) r3
        else object_loop libc n (acc @ [f]) r3)"
  using assms ser_field_head(1) [where libc = libc and f = f and r = r]
  by (subst parse_loops_guard(1)) (simp only: skip_colon option.case prod.case if_False if_True,
      simp add: at_char_def [of "CHR '':''"] Let_def)

lemma object_loop_ser:
  assumes "fs \<noteq> []" "distinct (map fst (acc @ fs))" "\<forall>f \<in> set fs. NUL \<notin> set (fst f)"
    "\<And>f r. f \<in> set fs \<Longrightarrow> delim r \<Longrightarrow> parse_value libc n (ser libc (snd f) @ r) = Some (snd f, r)"
  shows "object_loop libc n acc (join_comma (map (ser_field libc) fs) @ CHR ''}'' # r) = Some (JSONObject (acc @ fs), r)"
  using assms
proof (induction fs arbitrary: acc rule: induct_list012)
  case (2 f)
  then show ?case using object_loop_step [of f acc libc n "CHR ''}'' # r"]
    by (simp add: at_char_def)
next
  case (3 f g fs)
  define t where "t = join_comma (map (ser_field libc) (g # fs)) @ CHR ''}'' # r"
  have "\<exists>u. t = ser_field libc g @ u" unfolding t_def by (cases fs) auto
  then have skip: "skip_whitespaces t = t" "\<not> at_char (CHR ''}'') t"
    using ser_field_head(2,3) [where libc = libc and f = g] by metis+
  have "object_loop libc n acc (ser_field libc f @ CHR '','' # t) = object_loop libc n (acc @ [f]) t"
    using "3.prems" by (subst object_loop_step) (auto simp: at_char_def [of "CHR '',''"] skip)
  moreover have "object_loop libc n (acc @ [f]) t = Some (JSONObject ((acc @ [f]) @ g # fs), r)"
    unfolding t_def using "3.prems" by (intro "3.IH"(2)) auto
  moreover have "join_comma (map (ser_field libc) (f # g # fs)) @ CHR ''}'' # r = ser_field libc f @ CHR '','' # t"
    by (simp add: t_def)
  ultimately show ?case by simp
qed simp

lemma parse_open_ser:
  assumes "n \<le> MAX_NESTING"
  shows "parse_value libc n (CHR ''['' # s) =
      (let r = skip_whitespaces s in if at_char (CHR '']'') r then Some (JSONArray [], tl r) else array_loop libc (Suc n) [] r)"
    "parse_value libc n (CHR ''{'' # s) =
      (let r = skip_whitespaces s in if at_char (CHR ''}'') r then Some (JSONObject [], tl r) else object_loop libc (Suc n) [] r)"
  using assms by (simp_all add: parse_value.simps [of libc n "_ # s"] skip_whitespaces_def isspace_def)

lemma parse_serialized:
  "json_ok libc n v \<Longrightarrow> delim r \<Longrightarrow> parse_value libc n (ser libc v @ r) = Some (v, r)"
proof (induction v arbitrary: n r)
  case (JSONArray vs)
  show ?case
  proof (cases vs)
    case Nil
    with JSONArray.prems show ?thesis by (simp add: parse_open_ser at_char_def)
  next
    case (Cons w ws)
    let ?t = "join_comma (map (ser libc) vs) @ CHR '']'' # r"
    have "\<exists>u. ?t = ser libc w @ u" unfolding Cons by (cases ws) auto
    then have "skip_whitespaces ?t = ?t" "\<not> at_char (CHR '']'') ?t"
      using JSONArray.prems Cons skip_ser [of libc "Suc n" w] at_char_ser [of libc "Suc n" w]
      by (metis json_ok.simps(1) list.set_intros(1))+
    moreover have "array_loop libc (Suc n) [] ?t = Some (JSONArray ([] @ vs), r)"
      using JSONArray Cons by (intro array_loop_ser) auto
    ultimately show ?thesis using JSONArray.prems by (simp add: parse_open_ser)
  qed
next
  case (JSONObject fs)
  show ?case
  proof (cases fs)
    case Nil
    with JSONObject.prems show ?thesis by (simp add: parse_open_ser at_char_def)
  next
    case (Cons f gs)
    let ?t = "join_comma (map (ser_field libc) fs) @ CHR ''}'' # r"
    have "\<exists>u. ?t = ser_field libc f @ u" unfolding Cons by (cases gs) auto
    then have "skip_whitespaces ?t = ?t" "\<not> at_char (CHR ''}'') ?t"
      using ser_field_head(2,3) [where libc = libc and f = f] by metis+
    moreover have "object_loop libc (Suc n) [] ?t = Some (JSONObject ([] @ fs), r)"
    proof (rule object_loop_ser)
      fix g u
      assume g: "g \<in> set fs" "delim u"
      then have "json_ok libc (Suc n) (snd g)" using JSONObject.prems by simp
      then show "parse_value libc (Suc n) (ser libc (snd g) @ u) = Some (snd g, u)"
        using g by (intro JSONObject.IH [of g]) (auto simp: snds.simps)
    qed (use JSONObject.prems Cons in auto)
    ultimately show ?thesis using JSONObject.prems by (simp add: parse_open_ser)
  qed
next
  case (JSONNumber q)
  then show ?case using parse_number_ser by simp
qed (use parse_scalar_ser in \<open>simp_all del: json_serialize_to_buffer_r.simps\<close>)

section \<open>Properties\<close>

lemma parse_text_serialized:
  assumes "json_ok libc 0 v"
  shows "json_parse_string libc (ser libc v) = Some v"
proof -
  have "take 3 (ser libc v) \<noteq> [CHR 0xEF, CHR 0xBB, CHR 0xBF]"
  proof (cases v)
    case (JSONNumber q)
    with assms show ?thesis
      by (cases "num_fmt libc q") (auto simp: number_ok_def between_def)
  qed (auto simp: json_serialize_string_def DQUOTE_def)
  then show ?thesis using parse_serialized [OF assms, of "[]"] by (simp add: json_parse_string_def)
qed

text \<open>
  C31: a value that fits the buffer is serialised to text, and parsing that text with
  \<^verbatim>\<open>json_parse_string\<close> gives the value back: strings with any bytes, escapes and control
  characters included, numbers as the C library reads back what it prints, objects with their
  fields in order.
\<close>

theorem json_serialize_parse:
  assumes "json_ok libc 0 v" "json_serialization_size libc v \<le> cap"
  shows "\<exists>t. json_serialize_to_buffer libc v cap = Some t \<and> json_parse_string libc t = Some v"
  using assms(2) parse_text_serialized [OF assms(1)] by (simp add: json_serialize_to_buffer_def)

text \<open>
  Number conversion for the witnesses: reading a run of decimal digits, printing a natural
  number in decimal.
\<close>

definition demo_libc :: libc_ops where
  "demo_libc = \<lparr>strtod = (\<lambda>s. Some (of_nat (dec_from 0 (takeWhile is_digit s)), length (takeWhile is_digit s))),
     num_fmt = (\<lambda>q. dec_text (nat \<lfloor>q\<rfloor>))\<rparr>"

lemma dec_text_no_lead_zero: "n \<noteq> 0 \<Longrightarrow> hd (dec_text n) \<noteq> CHR ''0''"
proof (induction n rule: dec_text.induct)
  case (1 n)
  show ?case
  proof (cases "n < 10")
    case True
    then have "ord (char_of (48 + n) :: char) = 48 + n" by simp
    moreover have "ord (CHR ''0'') = (48::nat)" by simp
    ultimately show ?thesis using True "1.prems" by (subst dec_text.simps) (metis add_cancel_left_right list.sel(1))
  next
    case False
    then have "n div 10 \<noteq> 0" by simp
    with "1.IH" [OF False this] False show ?thesis by (subst dec_text.simps) simp
  qed
qed

lemma demo_number_ok: "number_ok demo_libc (of_nat n)"
proof -
  have digits: "\<forall>c \<in> set (dec_text n). is_digit c" using dec_text_digits [of n] by (simp add: list_all_iff)
  then have hd: "is_digit (hd (dec_text n))" by simp
  have nox: "\<not> list_ex (\<lambda>c. c = CHR ''x'' \<or> c = CHR ''X'') (dec_text n)"
    using digits by (auto simp: list_ex_iff between_def)
  have "is_decimal (dec_text n)"
  proof (cases "n = 0")
    case False
    then have "dec_text n ! 0 \<noteq> CHR ''0''" using dec_text_no_lead_zero [of n] by (simp add: hd_conv_nth)
    moreover have "take 2 (dec_text n) \<noteq> ''-0''" using hd by (cases "dec_text n") (auto simp: between_def)
    ultimately show ?thesis using nox by (simp add: is_decimal_def)
  next
    case True
    then have "length (dec_text n) = 1" by (simp add: dec_text.simps)
    with nox show ?thesis by (simp add: is_decimal_def)
  qed
  moreover have "takeWhile is_digit (dec_text n @ r) = dec_text n" if "delim r" for r
  proof -
    have "takeWhile is_digit r = []" using that by (cases r) (auto simp: delim_def between_def)
    then show ?thesis using digits by (simp add: takeWhile_append)
  qed
  ultimately show ?thesis using hd by (simp add: number_ok_def demo_libc_def dec_from_text)
qed

theorem json_serialize_parse_witness:
  "\<exists>t. json_serialize_to_buffer demo_libc
        (JSONObject [(''op'', JSONString [CHR 0x22, CHR 0x01, CHR ''/'']), (''ports'', JSONArray [JSONNumber 9876, JSONNull])]) 4096
      = Some t
    \<and> json_parse_string demo_libc t =
      Some (JSONObject [(''op'', JSONString [CHR 0x22, CHR 0x01, CHR ''/'']), (''ports'', JSONArray [JSONNumber 9876, JSONNull])])"
proof (rule json_serialize_parse)
  have "number_ok demo_libc 9876" using demo_number_ok [of 9876] by simp
  then show "json_ok demo_libc 0
      (JSONObject [(''op'', JSONString [CHR 0x22, CHR 0x01, CHR ''/'']), (''ports'', JSONArray [JSONNumber 9876, JSONNull])])"
    by (simp add: MAX_NESTING_def NUL_def)
  show "json_serialization_size demo_libc
      (JSONObject [(''op'', JSONString [CHR 0x22, CHR 0x01, CHR ''/'']), (''ports'', JSONArray [JSONNumber 9876, JSONNull])]) \<le> 4096"
    by (simp add: json_serialization_size_def json_serialize_string_def escape_char_def escape_defs
        demo_libc_def dec_text.simps)
qed

end
