(* ===== verification/Index_Behaviour.thy ===== *)
theory Index_Behaviour
  imports Index_Safety Json_Roundtrip
begin

text \<open>
  The behaviour of the index operations of \<^verbatim>\<open>src/src/libredp2p.c\<close> as a client sees it:
  who may change a publisher record, what a registration stores and returns, what a punch request
  and a poll do to the pending calls, and what happens to a reply that exceeds the reply buffer.
\<close>

section \<open>Outcomes of the key-authenticated operations\<close>

lemma heartbeat_cases:
  obtains (refused) "snd (redp2p_index_handle_heartbeat env ctx req) = ctx"
  | (evicted) "snd (redp2p_index_handle_heartbeat env ctx req) = redp2p_evict_stale (env_clock env 0) ctx"
  | (refreshed) pid i a where
      "redp2p_index_require_id_response env req (REDP2P_ID_MAX + 1) = Inr pid"
      "redp2p_find_peer (redp2p_evict_stale (env_clock env 0) ctx) pid = Some i"
      "redp2p_index_require_hex req ''key'' REDP2P_KEY_STR_SZ REDP2P_KEY_SZ =
         Some (peer_key (peers (redp2p_evict_stale (env_clock env 0) ctx) ! i))"
      "announced_fields env req = Some a"
      "redp2p_index_handle_heartbeat env ctx req =
         (reply_with env (json_object_set_boolean [] ''ok'' True),
          announce (redp2p_evict_stale (env_clock env 0) ctx) i a (env_clock env 1))"
proof (cases "redp2p_index_require_id_response env req (REDP2P_ID_MAX + 1)")
  case (Inl r)
  then show thesis by (intro refused) (simp add: redp2p_index_handle_heartbeat_def)
next
  case id: (Inr pid)
  let ?e = "redp2p_evict_stale (env_clock env 0) ctx"
  note unf = redp2p_index_handle_heartbeat_def id sum.case
  show thesis
  proof (cases "redp2p_index_require_hex req ''key'' REDP2P_KEY_STR_SZ REDP2P_KEY_SZ")
    case None
    then show thesis by (intro refused; unfold unf) simp
  next
    case key: (Some key)
    show thesis
    proof (cases "announced_fields env req = None \<or> \<not> json_object_has_value_of_type req ''proto'' TNumber
        \<or> \<not> json_object_has_value_of_type req ''udp_port'' TNumber")
      case True
      with key show thesis by (intro refused; unfold unf) auto
    next
      case False
      then obtain a where a: "announced_fields env req = Some a" by auto
      show thesis
      proof (cases "redp2p_find_peer ?e pid")
        case None
        with key a False show thesis by (intro evicted; unfold unf) (simp add: Let_def)
      next
        case (Some i)
        show thesis
        proof (cases "peer_key (peers ?e ! i) = key")
          case True
          with key a False Some show thesis
            by (intro refreshed [OF id Some _ a]) (unfold unf, simp_all add: Let_def)
        next
          case ne: False
          with key a False Some show thesis by (intro evicted; unfold unf) (simp add: Let_def)
        qed
      qed
    qed
  qed
qed

lemma deregister_cases:
  obtains (refused) "snd (redp2p_index_handle_deregister env ctx req) = ctx"
  | (evicted) "snd (redp2p_index_handle_deregister env ctx req) = redp2p_evict_stale (env_clock env 0) ctx"
  | (removed) pid i where
      "redp2p_index_require_id_response env req (REDP2P_ID_MAX + 1) = Inr pid"
      "redp2p_find_peer (redp2p_evict_stale (env_clock env 0) ctx) pid = Some i"
      "redp2p_index_require_hex req ''key'' REDP2P_KEY_STR_SZ REDP2P_KEY_SZ =
         Some (peer_key (peers (redp2p_evict_stale (env_clock env 0) ctx) ! i))"
      "redp2p_index_handle_deregister env ctx req =
         (reply_with env (json_object_set_boolean [] ''ok'' True),
          snd (redp2p_remove_peer (redp2p_evict_stale (env_clock env 0) ctx) pid))"
proof (cases "redp2p_index_require_id_response env req (REDP2P_ID_MAX + 1)")
  case (Inl r)
  then show thesis by (intro refused) (simp add: redp2p_index_handle_deregister_def)
next
  case id: (Inr pid)
  let ?e = "redp2p_evict_stale (env_clock env 0) ctx"
  note unf = redp2p_index_handle_deregister_def id sum.case Let_def
  show thesis
  proof (cases "redp2p_index_require_hex req ''key'' REDP2P_KEY_STR_SZ REDP2P_KEY_SZ")
    case None
    then show thesis by (intro refused; unfold unf) simp
  next
    case key: (Some key)
    show thesis
    proof (cases "redp2p_find_peer ?e pid")
      case None
      with key show thesis by (intro evicted; unfold unf) simp
    next
      case (Some i)
      show thesis
      proof (cases "peer_key (peers ?e ! i) = key")
        case True
        with key Some show thesis by (intro removed [OF id Some]) (unfold unf, simp_all)
      next
        case False
        with key Some show thesis by (intro evicted; unfold unf) simp
      qed
    qed
  qed
qed

lemma require_hex_get: "redp2p_index_require_hex obj f cap n = Some v \<Longrightarrow> json_object_get_string obj f = Some v"
  by (auto simp: redp2p_index_require_hex_def redp2p_is_hex_token_def split: if_splits option.splits)

lemma require_id_get: "redp2p_index_require_id obj f cap = Inr v \<Longrightarrow> json_object_get_string obj f = Some v"
  by (auto simp: redp2p_index_require_id_def split: if_splits option.splits)

lemma require_id_response_get:
  "redp2p_index_require_id_response env obj cap = Inr v \<Longrightarrow> json_object_get_string obj ''id'' = Some v"
  by (auto simp: redp2p_index_require_id_response_def dest: require_id_get split: sum.splits)

section \<open>Who may change a record\<close>

text \<open>The credentials a request must carry to change record \<open>p\<close> of identifier \<open>pid\<close>.\<close>

definition authorised :: "index_env \<Rightarrow> redp2p \<Rightarrow> index_op \<Rightarrow> JSON_Object \<Rightarrow> string \<Rightarrow> redp2p_peer_t \<Rightarrow> bool" where
  "authorised env ctx h req pid p \<longleftrightarrow> json_object_get_string req ''id'' = Some pid
     \<and> (h = Op_register \<and> register_auth env ctx req pid
        \<or> h \<in> {Op_heartbeat, Op_deregister} \<and> json_object_get_string req ''key'' = Some (peer_key p))"

declare announced_record.simps [simp del]

lemma wf_index_distinct: "wf_index net ctx \<Longrightarrow> peers_distinct ctx"
  by (auto simp: wf_index_def intro: wf_ctx_distinct)

lemma live_after_evict:
  assumes "wf_index net ctx" "look_peer ctx k = Some p" "\<not> expired ctx now p"
  shows "look_peer (redp2p_evict_stale now ctx) k = Some p"
  using assms(2,3) peer_table.look_expire_Some [OF wf_index_distinct [OF assms(1)]] by simp

lemma evict_distinct: "wf_index net ctx \<Longrightarrow> peers_distinct (redp2p_evict_stale now ctx)"
  by (intro peer_table.inv_expire wf_index_distinct)

lemma heartbeat_change:
  assumes "wf_index (env_net env) ctx" "look_peer ctx k = Some p" "\<not> expired ctx (env_clock env 0) p"
  shows "look_peer (snd (redp2p_index_handle_heartbeat env ctx req)) k = Some p
    \<or> authorised env ctx Op_heartbeat req k p
      \<and> (\<exists>a. look_peer (snd (redp2p_index_handle_heartbeat env ctx req)) k = Some (announced_record p a (env_clock env 1)))"
proof (cases rule: heartbeat_cases [of env ctx req])
  case (refreshed pid i a)
  note live = live_after_evict [OF assms]
  note look = look_announce [OF evict_distinct [OF assms(1)] refreshed(2), of a "env_clock env 1" k]
  show ?thesis
  proof (cases "k = pid")
    case True
    then have "peers (redp2p_evict_stale (env_clock env 0) ctx) ! i = p"
      using look_peer_find [OF refreshed(2)] live by simp
    then show ?thesis
      using True look refreshed require_id_response_get [OF refreshed(1)] require_hex_get [OF refreshed(3)]
      by (cases a) (auto simp: authorised_def)
  next
    case False
    then show ?thesis using look live refreshed(5) by simp
  qed
qed (use assms live_after_evict [OF assms] in simp_all)

lemma deregister_change:
  assumes "wf_index (env_net env) ctx" "look_peer ctx k = Some p" "\<not> expired ctx (env_clock env 0) p"
  shows "look_peer (snd (redp2p_index_handle_deregister env ctx req)) k = Some p
    \<or> authorised env ctx Op_deregister req k p
      \<and> look_peer (snd (redp2p_index_handle_deregister env ctx req)) k = None"
proof (cases rule: deregister_cases [of env ctx req])
  case (removed pid i)
  note live = live_after_evict [OF assms]
  note look = peer_table.look_remove [OF evict_distinct [OF assms(1)], of "env_clock env 0" pid k]
  show ?thesis
  proof (cases "k = pid")
    case True
    then have "peers (redp2p_evict_stale (env_clock env 0) ctx) ! i = p"
      using look_peer_find [OF removed(2)] live by simp
    then show ?thesis
      using True look removed require_id_response_get [OF removed(1)] require_hex_get [OF removed(3)]
      by (auto simp: authorised_def)
  next
    case False
    then show ?thesis using look live removed(4) by simp
  qed
qed (use assms live_after_evict [OF assms] in simp_all)

lemma register_change:
  assumes "env_ok env" "wf_index (env_net env) ctx" "look_peer ctx k = Some p" "\<not> expired ctx (env_clock env 0) p"
  shows "look_peer (snd (redp2p_index_handle_register env ctx req)) k = Some p
    \<or> authorised env ctx Op_register req k p
      \<and> (\<exists>a. look_peer (snd (redp2p_index_handle_register env ctx req)) k = Some (announced_record p a (env_clock env 2)))"
proof (cases rule: register_cases [of env ctx req])
  case (tried pid a rc ctx')
  let ?e = "redp2p_evict_stale (env_clock env 0) ctx"
  note live = live_after_evict [OF assms(2-4)]
  have wfe: "wf_ctx (env_net env) ?e" using wf_index_evict [OF assms(2)] by (simp add: wf_index_def)
  note valid = require_id_response_valid [OF tried(1)]
  note look = add_peer_look [OF wfe valid tried(4)]
  note table = wf_register_table [OF assms(1,2) valid tried(4)]
  show ?thesis
  proof (cases "rc = REDP2P_OK")
    case True
    then obtain i where i: "redp2p_find_peer ctx' pid = Some i" using table(4) by auto
    note ann = look_announce [OF wf_ctx_distinct [OF table(1)] i, of a "env_clock env 2" k]
    show ?thesis
    proof (cases "k = pid")
      case eq: True
      have "look_peer ctx' pid = Some (p\<lparr>last_seen := env_clock env 1\<rparr>)" using look(1) True live eq by simp
      then have "peers ctx' ! i = p\<lparr>last_seen := env_clock env 1\<rparr>" using look_peer_find [OF i] by simp
      moreover have "announced_record (p\<lparr>last_seen := t\<rparr>) a u = announced_record p a u" for t u
        by (cases a) (simp add: announced_record.simps)
      ultimately have "look_peer (snd (redp2p_index_handle_register env ctx req)) k = Some (announced_record p a (env_clock env 2))"
        using eq ann True i tried(5) by simp
      moreover have "authorised env ctx Op_register req k p"
        using eq tried(2) require_id_response_get [OF tried(1)] by (simp add: authorised_def)
      ultimately show ?thesis by blast
    next
      case False
      then show ?thesis using ann look(3) live tried(5) i True by simp
    qed
  next
    case False
    then show ?thesis using look(2) live tried(5) by simp
  qed
qed (use assms in simp)

lemma handler_change:
  assumes "env_ok env" "wf_index (env_net env) ctx" "look_peer ctx k = Some p" "\<not> expired ctx (env_clock env 0) p"
  shows "look_peer (snd (handler h env ctx req)) k = Some p
    \<or> authorised env ctx h req k p
      \<and> (\<forall>q. look_peer (snd (handler h env ctx req)) k = Some q \<longrightarrow> peer_key q = peer_key p)"
proof (cases h)
  case Op_register
  then show ?thesis using register_change [OF assms, of req] by auto
next
  case Op_heartbeat
  then show ?thesis using heartbeat_change [OF assms(2-4), of req] by auto
next
  case Op_deregister
  then show ?thesis using deregister_change [OF assms(2-4), of req] by auto
next
  case Op_punch_req
  have "peers (snd (redp2p_index_handle_punch_req env ctx req)) = peers ctx"
    by (cases rule: punch_req_cases [of env ctx req])
      (auto simp: pending_evict_frame redp2p_pending_call_add_def split: if_splits)
  then show ?thesis using assms(3) look_peer_cong [of "snd (redp2p_index_handle_punch_req env ctx req)" ctx] Op_punch_req by simp
next
  case Op_punch_poll
  have "peers (snd (redp2p_index_handle_punch_poll env ctx req)) = peers ctx"
    by (simp add: redp2p_index_handle_punch_poll_def pending_evict_frame pending_take_frame Let_def split: sum.split)
  then show ?thesis using assms(3) look_peer_cong [of "snd (redp2p_index_handle_punch_poll env ctx req)" ctx] Op_punch_poll by simp
qed (use assms(3) in \<open>simp_all add: challenge.unchanged lookup.unchanged listing.unchanged\<close>)

text \<open>
  C21: no request changes or removes the record of a live publisher unless it carries that
  publisher's credentials: a \<^verbatim>\<open>register\<close> whose proof verifies under the password in force for
  the identifier, or a \<^verbatim>\<open>heartbeat\<close> or \<^verbatim>\<open>deregister\<close> with the record's key. Even then a record
  that stays keeps its key.
\<close>

theorem index_changes_authorised:
  assumes "env_ok env" "wf_index (env_net env) ctx" "look_peer ctx pid = Some p" "\<not> expired ctx (env_clock env 0) p"
    "look_peer (snd (redp2p_index_dispatch env ctx body)) pid \<noteq> Some p"
  shows "\<exists>h req. request_of (env_libc env) body = Some (h, req) \<and> authorised env ctx h req pid p
    \<and> (\<forall>q. look_peer (snd (redp2p_index_dispatch env ctx body)) pid = Some q \<longrightarrow> peer_key q = peer_key p)"
proof (cases "request_of (env_libc env) body")
  case None
  then show ?thesis using assms(3,5) by (simp add: dispatch_eq)
next
  case (Some r)
  obtain h req where "r = (h, req)" by (cases r)
  with Some handler_change [OF assms(1-4), of h req] assms(5) show ?thesis by (auto simp: dispatch_eq)
qed

section \<open>A concrete index for the witnesses\<close>

definition demo_env :: "u64 \<Rightarrow> index_env" where
  "demo_env t = \<lparr>env_net = demo_net, env_libc = demo_libc, env_alloc = (\<lambda>_. True), reply_object_ok = True,
     error_object_ok = True, key_random = Some [1, 2, 3, 4, 5, 6, 7, 8], nonce_random = Some [1, 2, 3, 4, 5, 6, 7, 8],
     sha_memory = \<lparr>sha_state = [], sha_count = 0, sha_buf = replicate 64 0\<rparr>, env_clock = (\<lambda>_. t)\<rparr>"

lemma demo_env_ok: "env_ok (demo_env t)"
  by (simp add: demo_env_def env_ok_def)

lemma demo_env_simps [simp]:
  "env_net (demo_env t) = demo_net" "env_libc (demo_env t) = demo_libc" "env_clock (demo_env t) n = t"
  "reply_object_ok (demo_env t)" "error_object_ok (demo_env t)" "env_alloc (demo_env t) n"
  "key_random (demo_env t) = Some [1, 2, 3, 4, 5, 6, 7, 8]"
  by (simp_all add: demo_env_def)

definition demo_index :: redp2p where
  "demo_index = demo_ctx\<lparr>peers := [demo_peer ''a'' 10, demo_peer ''b'' 200], peers_alloc := 8\<rparr>"

lemma demo_index_wf: "wf_index demo_net demo_index"
  using demo_wf [of demo_net] by (simp add: wf_index_def demo_index_def announced_def demo_peer_def macros)

lemmas demo_index_simps = demo_index_def demo_ctx_eq demo_peer_def

definition demo_deregister :: JSON_Object where
  "demo_deregister = [(''op'', JSONString ''deregister''), (''id'', JSONString ''b''), (''key'', JSONString ''0123456789abcdef'')]"

lemma demo_deregister_request:
  "request_of demo_libc (ser demo_libc (JSONObject demo_deregister)) = Some (Op_deregister, demo_deregister)"
proof -
  have "json_ok demo_libc 0 (JSONObject demo_deregister)" by (simp add: demo_deregister_def MAX_NESTING_def NUL_def)
  from parse_text_serialized [OF this] show ?thesis
    by (simp add: request_of_def demo_deregister_def op_named_def json_object_get_string_def json_object_get_value_def
        c_str_def NUL_def)
qed

lemma demo_deregister_effect:
  "look_peer (snd (redp2p_index_dispatch (demo_env 210) demo_index (ser demo_libc (JSONObject demo_deregister)))) ''b'' = None"
  unfolding dispatch_eq demo_env_simps demo_deregister_request option.case prod.case handler.simps
  by (simp add: redp2p_index_handle_deregister_def demo_deregister_def
      redp2p_index_require_id_response_def redp2p_index_require_id_def redp2p_index_require_hex_def
      json_object_get_string_def json_object_get_value_def json_object_has_value_of_type_def c_str_def NUL_def
      redp2p_is_valid_id_def redp2p_is_hex_token_def is_alnum_def is_hex_digit_def between_def macros
      Let_def evict_stale_eq demo_index_simps expired_def redp2p_find_peer_def redp2p_remove_peer_def
      look_peer_def delete_at_def)

theorem index_changes_authorised_witness:
  "\<exists>h req. request_of demo_libc (ser demo_libc (JSONObject demo_deregister)) = Some (h, req)
    \<and> authorised (demo_env 210) demo_index h req ''b'' (demo_peer ''b'' 200)"
proof -
  have "look_peer demo_index ''b'' = Some (demo_peer ''b'' 200)" "\<not> expired demo_index 210 (demo_peer ''b'' 200)"
    by (simp_all add: demo_index_simps look_peer_def redp2p_find_peer_def expired_def)
  then show ?thesis
    using index_changes_authorised [of "demo_env 210" demo_index "''b''" "demo_peer ''b'' 200"
        "ser demo_libc (JSONObject demo_deregister)"] demo_index_wf demo_env_ok demo_deregister_effect
    by auto
qed

section \<open>Registration\<close>

lemma hex_token_ascii: "redp2p_is_hex_token t n \<Longrightarrow> is_valid_utf8 t"
proof -
  have "ord c < 0x80" if "is_hex_digit c" for c using that by (auto simp: is_hex_digit_def between_def)
  then show "redp2p_is_hex_token t n \<Longrightarrow> is_valid_utf8 t"
    by (intro ascii_valid_utf8) (auto simp: redp2p_is_hex_token_def list_all_iff)
qed

lemma alnum_ascii: "list_all is_alnum t \<Longrightarrow> is_valid_utf8 t"
proof -
  have "ord c < 0x80" if "is_alnum c" for c using that by (auto simp: is_alnum_def between_def)
  then show "list_all is_alnum t \<Longrightarrow> is_valid_utf8 t" by (intro ascii_valid_utf8) (auto simp: list_all_iff)
qed

definition key_reply :: "string \<Rightarrow> JSON_Object" where
  "key_reply key = [(''ok'', JSONBoolean True), (''key'', JSONString key)]"

lemma register_ok:
  assumes wf: "env_ok env" "wf_index (env_net env) ctx"
    and id: "redp2p_index_require_id_response env req (REDP2P_ID_MAX + 1) = Inr pid"
    and add: "redp2p_add_peer (env_alloc env) (key_random env) (env_clock env 1)
      (redp2p_evict_stale (env_clock env 0) ctx) pid = (REDP2P_OK, ctx')"
    and i: "redp2p_find_peer ctx' pid = Some i"
  shows "json_object_set_string (json_object_set_boolean [] ''ok'' True) ''key'' (peer_key (peers (announce ctx' i a t) ! i))
    = key_reply (peer_key (peers ctx' ! i))"
proof -
  have "wf_ctx (env_net env) ctx'" using wf_register_table(1) [OF wf require_id_response_valid [OF id] add] .
  then have "redp2p_is_hex_token (peer_key (peers ctx' ! i)) REDP2P_KEY_SZ"
    using find_peer_Some [OF i] by (simp add: wf_ctx_def wf_peers_def wf_peer_def list_all_length)
  moreover have "peer_key (peers (announce ctx' i a t) ! i) = peer_key (peers ctx' ! i)"
    using find_peer_Some [OF i] by (simp add: announce_eq)
  ultimately show ?thesis
    by (simp add: key_reply_def json_object_set_string_def json_object_set_boolean_def json_value_init_string_def hex_token_ascii)
qed

text \<open>
  C22: a registration whose proof verifies, with well-formed fields, and for which the table has
  a seat, succeeds: the reply carries the record's key, the table holds exactly the announced
  transport, port and candidates under the identifier, stamped with the time of the request,
  a publisher that was already online keeps its key while a new one gets a fresh one, and no
  other record changes beyond the eviction of stale ones.
\<close>

theorem register_stores_announcement:
  assumes "env_ok env" "wf_index (env_net env) ctx"
    "redp2p_index_require_id_response env req (REDP2P_ID_MAX + 1) = Inr pid" "register_auth env ctx req pid"
    "json_object_has_value_of_type req ''proto'' TNumber" "json_object_has_value_of_type req ''udp_port'' TNumber"
    "announced_fields env req = Some (proto, port, cands)"
    "\<forall>n. env_alloc env n" "key_random env = Some bs"
    "length (peers ctx) < SIZE_MAX div sizeof_peer"
    "look_peer (redp2p_evict_stale (env_clock env 0) ctx) pid = None \<longrightarrow> \<not> seat_taken (redp2p_evict_stale (env_clock env 0) ctx) pid"
  shows "\<exists>ctx' key. redp2p_index_handle_register env ctx req = (reply_with env (key_reply key), ctx')
    \<and> look_peer ctx' pid = Some \<lparr>peer_id = pid, peer_key = key, last_seen = env_clock env 2, peer_proto = proto,
        peer_udp_port = port, peer_candidates = cands\<rparr>
    \<and> key = (case look_peer (redp2p_evict_stale (env_clock env 0) ctx) pid of
               Some p \<Rightarrow> peer_key p | None \<Rightarrow> hex_pairs bs)
    \<and> (\<forall>k. k \<noteq> pid \<longrightarrow> look_peer ctx' k = look_peer (redp2p_evict_stale (env_clock env 0) ctx) k)"
proof -
  let ?e = "redp2p_evict_stale (env_clock env 0) ctx" and ?a = "(proto, port, cands)"
  have wfe: "wf_ctx (env_net env) ?e" using wf_index_evict [OF assms(2)] by (simp add: wf_index_def)
  note valid = require_id_response_valid [OF assms(3)]
  have key: "redp2p_generate_key (key_random env) = Some (hex_pairs bs)"
    using assms(1,9) by (simp add: redp2p_generate_key_def redp2p_hex_encode_def env_ok_def macros)
  have small: "length (peers ?e) < SIZE_MAX div sizeof_peer"
    using assms(10) by (auto simp: evict_stale_eq intro: le_less_trans [OF length_filter_le])
  obtain rc ctx' where add: "redp2p_add_peer (env_alloc env) (key_random env) (env_clock env 1) ?e pid = (rc, ctx')"
    by fastforce
  have rc: "rc = REDP2P_OK"
    using wfe valid
  proof (cases rule: add_peer_cases [where alloc = "env_alloc env" and r = "key_random env" and now = "env_clock env 1"])
    case full
    then show ?thesis using assms(11) by (auto simp: look_peer_def)
  next
    case (failed cap)
    then show ?thesis using assms(8) small key by auto
  qed (use add in auto)
  note table = wf_register_table [OF assms(1,2) valid add] and look = add_peer_look [OF wfe valid add]
  obtain i where i: "redp2p_find_peer ctx' pid = Some i" using table(4) rc by auto
  note ann = look_announce [OF wf_ctx_distinct [OF table(1)] i, of ?a "env_clock env 2"]
  define key where "key = peer_key (peers ctx' ! i)"
  have res: "redp2p_index_handle_register env ctx req =
      (reply_with env (key_reply key), announce ctx' i ?a (env_clock env 2))"
    using register_run [OF assms(3-7) add] register_ok [OF assms(1-3) add [unfolded rc] i, of ?a "env_clock env 2"] rc i
    by (simp add: key_def)
  have "peers ctx' ! i =
      (case look_peer ?e pid of Some p \<Rightarrow> p\<lparr>last_seen := env_clock env 1\<rparr>
       | None \<Rightarrow> fresh_peer pid (hex_pairs bs) (env_clock env 1))"
    using look(1) [OF rc] look_peer_find [OF i] key by (simp split: option.splits)
  then have "look_peer (announce ctx' i ?a (env_clock env 2)) pid =
      Some \<lparr>peer_id = pid, peer_key = key, last_seen = env_clock env 2, peer_proto = proto,
        peer_udp_port = port, peer_candidates = cands\<rparr>
    \<and> key = (case look_peer ?e pid of Some p \<Rightarrow> peer_key p | None \<Rightarrow> hex_pairs bs)"
    using ann [of pid] look_peer_id [of ?e pid]
    by (auto simp: key_def announced_record.simps fresh_peer_def split: option.split intro: redp2p_peer_t.equality)
  moreover have "look_peer (announce ctx' i ?a (env_clock env 2)) k = look_peer ?e k" if "k \<noteq> pid" for k
    using ann [of k] look(3) [OF that] that by simp
  ultimately show ?thesis using res by blast
qed

text \<open>A registration request with a proof for an open index (no password, no work required).\<close>

definition demo_proof :: string where
  "demo_proof = hex_pairs (redp2p_hash_register_once (sha_memory (demo_env 210)) (Some []) ''0000000000000000'' ''c'' ''00000000'')"

definition demo_register :: JSON_Object where
  "demo_register = [(''op'', JSONString ''register''), (''id'', JSONString ''c''),
     (''nonce'', JSONString ''0000000000000000''), (''solution'', JSONString ''00000000''),
     (''proof'', JSONString demo_proof), (''proto'', JSONNumber 1), (''udp_port'', JSONNumber 9876)]"

lemma demo_proof_token: "redp2p_is_hex_token demo_proof 64" "c_str demo_proof = demo_proof"
proof -
  have "length (redp2p_hash_register_once (sha_memory (demo_env 210)) (Some []) ''0000000000000000'' ''c'' ''00000000'') = 32"
    by (rule length_register_digest) (simp add: demo_env_def)
  then show t: "redp2p_is_hex_token demo_proof 64"
    using hex_pairs_token [of "redp2p_hash_register_once (sha_memory (demo_env 210)) (Some []) ''0000000000000000'' ''c'' ''00000000''"]
    by (simp add: demo_proof_def)
  then have "NUL \<notin> set demo_proof"
    by (intro list_all_notin [of is_hex_digit])
      (simp add: redp2p_is_hex_token_def, simp add: is_hex_digit_def between_def NUL_def)
  then show "c_str demo_proof = demo_proof" by (rule c_str_id)
qed

lemmas request_defs = json_object_get_string_def json_object_get_value_def json_object_has_value_of_type_def
  json_object_get_number_def

lemma demo_register_hex:
  "redp2p_index_require_hex demo_register ''nonce'' 17 16 = Some ''0000000000000000''"
  "redp2p_index_require_hex demo_register ''solution'' 17 8 = Some ''00000000''"
  "redp2p_index_require_hex demo_register ''proof'' 65 64 = Some demo_proof"
  using demo_proof_token
  by (simp_all add: redp2p_index_require_hex_def demo_register_def request_defs redp2p_is_hex_token_def
      is_hex_digit_def between_def c_str_def [of "CHR ''0'' # _"] NUL_def)

lemma demo_register_auth: "register_auth (demo_env 210) demo_index demo_register ''c''"
proof -
  have "redp2p_verify_register_pow (sha_memory (demo_env 210)) (Some []) ''0000000000000000'' ''c'' ''00000000'' (Some demo_proof) 0"
    by (subst redp2p_verify_register_pow_iff) (simp_all add: demo_env_def demo_proof_def)
  moreover have "redp2p_get_register_pass demo_index ''c'' = []" "pow_bits demo_index = 0"
    by (simp_all add: demo_index_simps redp2p_get_register_pass_def redp2p_find_vip_def)
  ultimately show ?thesis unfolding register_auth_def using demo_register_hex by auto
qed

theorem register_stores_announcement_witness:
  "\<exists>ctx' key. look_peer ctx' ''c'' = Some \<lparr>peer_id = ''c'', peer_key = key, last_seen = 210, peer_proto = 1,
        peer_udp_port = 9876, peer_candidates = []\<rparr>
    \<and> redp2p_index_handle_register (demo_env 210) demo_index demo_register = (reply_with (demo_env 210) (key_reply key), ctx')"
proof -
  have "redp2p_index_require_id_response (demo_env 210) demo_register (REDP2P_ID_MAX + 1) = Inr ''c''"
    by (simp add: redp2p_index_require_id_response_def redp2p_index_require_id_def demo_register_def request_defs
        c_str_def NUL_def redp2p_is_valid_id_def is_alnum_def between_def macros)
  moreover have "announced_fields (demo_env 210) demo_register = Some (1, 9876, [])"
    by (simp add: announced_fields_def demo_register_def request_defs redp2p_index_parse_candidates_def macros)
  moreover have "\<not> seat_taken (redp2p_evict_stale 210 demo_index) ''c''"
    by (simp add: seat_taken_def evict_stale_eq demo_index_simps)
  moreover have "length (peers demo_index) < SIZE_MAX div sizeof_peer" by (simp add: demo_index_simps macros)
  moreover have "json_object_has_value_of_type demo_register ''proto'' TNumber"
    "json_object_has_value_of_type demo_register ''udp_port'' TNumber"
    by (simp_all add: demo_register_def request_defs)
  ultimately show ?thesis
    using register_stores_announcement [of "demo_env 210" demo_index demo_register "''c''" 1 9876 "[]"]
      demo_index_wf demo_env_ok demo_register_auth by fastforce
qed

section \<open>Punch requests and polls\<close>

lemma poll_eq:
  "redp2p_index_require_id_response env req (REDP2P_ID_MAX + 1) = Inr pid \<Longrightarrow>
   redp2p_index_handle_punch_poll env ctx req =
     (let r = redp2p_pending_call_take_all (redp2p_pending_call_evict_stale (env_clock env 0) ctx) pid
      in (reply_with env [(''calls'', JSONArray (map (\<lambda>c. JSONObject (call_object c)) (fst r))), (''ok'', JSONBoolean True)],
          snd r))"
  unfolding redp2p_index_handle_punch_poll_def
  by (simp add: Let_def case_prod_unfold json_object_set_boolean_def)

lemma set_poll:
  "set (fst (redp2p_pending_call_take_all (redp2p_pending_call_evict_stale now ctx) pid)) =
     {c \<in> set (pending_calls ctx). target_id c = pid \<and> \<not> call_expired now c}"
  "set (pending_calls (snd (redp2p_pending_call_take_all (redp2p_pending_call_evict_stale now ctx) pid))) =
     {c \<in> set (pending_calls ctx). target_id c \<noteq> pid \<and> \<not> call_expired now c}"
  by (auto simp: pending_take_frame pending_evict_frame set_sweep)

lemma pending_add_id:
  assumes "redp2p_pending_call_add now ctx caller target sess cands = Some ctx'"
    "redp2p_is_valid_id caller" "redp2p_is_valid_id target" "redp2p_is_session_token sess"
  shows "ctx' = ctx\<lparr>pending_calls := pending_calls ctx @ [\<lparr>caller_id = caller, target_id = target, sess_id = sess,
      call_candidates = cands, call_ts = now\<rparr>]\<rparr>"
proof -
  have "redp2p_bounded_copy (REDP2P_ID_MAX + 1) caller = caller"
    "redp2p_bounded_copy (REDP2P_ID_MAX + 1) target = target"
    "redp2p_bounded_copy (REDP2P_CTRL_SESSION_MAX + 1) sess = sess"
    using assms(2-4) by (simp_all add: redp2p_bounded_copy_id token_iffs macros)
  then show ?thesis using assms(1) by (auto simp: redp2p_pending_call_add_def split: if_splits)
qed

lemma punch_req_run:
  assumes "redp2p_index_require_id req ''self_id'' (REDP2P_ID_MAX + 1) = Inr caller"
    "redp2p_index_require_id req ''target_id'' (REDP2P_ID_MAX + 1) = Inr target"
    "json_object_get_string req ''session'' = Some session" "redp2p_is_session_token session"
    "redp2p_index_parse_candidates (env_net env) req ''candidates'' = Some cands"
    "length (pending_calls (redp2p_pending_call_evict_stale (env_clock env 0) ctx)) < REDP2P_MAX_PENDING_CALLS"
  defines "e \<equiv> redp2p_pending_call_evict_stale (env_clock env 0) ctx"
  shows "redp2p_index_handle_punch_req env ctx req =
    (reply_with env (json_object_set_boolean [] ''ok'' True),
     e\<lparr>pending_calls := pending_calls e @ [\<lparr>caller_id = caller, target_id = target, sess_id = session,
        call_candidates = cands, call_ts = env_clock env 1\<rparr>]\<rparr>)"
proof -
  obtain ctx' where add: "redp2p_pending_call_add (env_clock env 1) e caller target session cands = Some ctx'"
    using assms(6) by (auto simp: redp2p_pending_call_add_def e_def)
  have "json_object_has_value_of_type req ''session'' TString" using get_string_iff [of req "''session''"] assms(3) by simp
  moreover have "length session < REDP2P_CTRL_SESSION_MAX + 1" using assms(4) by (simp add: token_iffs macros)
  ultimately have "redp2p_index_handle_punch_req env ctx req = (reply_with env (json_object_set_boolean [] ''ok'' True), ctx')"
    unfolding redp2p_index_handle_punch_req_def assms(1,2) prod.case sum.case
    using assms(3-5) add by (simp add: Let_def e_def del: One_nat_def)
  with pending_add_id [OF add require_id_valid [OF assms(1)] require_id_valid [OF assms(2)] assms(4)] show ?thesis by simp
qed

definition demo_punch :: JSON_Object where
  "demo_punch = [(''op'', JSONString ''punch_req''), (''self_id'', JSONString ''x''), (''target_id'', JSONString ''b''),
     (''session'', JSONString ''s1'')]"

section \<open>Replies that do not fit\<close>

text \<open>
  C35: a reply whose JSON text needs \<^verbatim>\<open>REDP2P_BUF\<close> bytes or more is not sent at all, while the
  operation has already taken effect: a poll whose pending calls do not fit gets no reply, and
  the calls are gone.
\<close>

theorem punch_poll_oversize_lost:
  assumes "redp2p_index_require_id_response env req (REDP2P_ID_MAX + 1) = Inr pid" "reply_object_ok env"
    "json_serialization_size (env_libc env) (JSONObject [(''calls'', JSONArray (map (\<lambda>c. JSONObject (call_object c))
        (fst (redp2p_pending_call_take_all (redp2p_pending_call_evict_stale (env_clock env 0) ctx) pid)))),
       (''ok'', JSONBoolean True)]) \<ge> REDP2P_BUF"
  shows "fst (redp2p_index_handle_punch_poll env ctx req) = None
    \<and> (\<forall>c \<in> set (pending_calls (snd (redp2p_index_handle_punch_poll env ctx req))). target_id c \<noteq> pid)"
  unfolding poll_eq [OF assms(1)] Let_def fst_conv snd_conv
  using assms(2,3) by (auto simp: set_poll reply_with_def redp2p_index_respond_def Let_def)

text \<open>Thirty-two pending calls with identifiers and sessions of full length.\<close>

definition demo_call :: redp2p_pending_call_t where
  "demo_call = \<lparr>caller_id = replicate 63 (CHR ''a''), target_id = ''b'', sess_id = replicate 63 (CHR ''s''),
     call_candidates = [], call_ts = 210\<rparr>"

definition demo_crowded :: redp2p where
  "demo_crowded = demo_index\<lparr>pending_calls := replicate 32 demo_call\<rparr>"

lemma length_join_comma: "sum_list (map length xs) \<le> length (join_comma xs)"
  by (induction xs rule: join_comma.induct) auto

lemma filter_replicate: "P x \<Longrightarrow> filter_mset P (replicate_mset n x) = replicate_mset n x"
  by (induction n) auto

lemma escape_replicate: "escape_char c = [c] \<Longrightarrow> concat (map escape_char (replicate n c)) = replicate n c"
  by (induction n) auto

lemma demo_call_length: "128 \<le> length (ser libc (JSONObject (call_object demo_call)))"
proof -
  have "is_valid_utf8 (replicate 63 (CHR ''a''))" "is_valid_utf8 (replicate 63 (CHR ''s''))"
    by (intro alnum_ascii; simp add: list_all_iff is_alnum_def between_def)+
  moreover have "length (json_serialize_string (replicate 63 c)) = 65" if "escape_char c = [c]" for c
    using escape_replicate [OF that, of 63] by (simp add: json_serialize_string_def)
  moreover have "escape_char (CHR ''a'') = [CHR ''a'']" "escape_char (CHR ''s'') = [CHR ''s'']"
    by (simp_all add: escape_char_def escape_defs)
  ultimately show ?thesis
    by (simp add: call_object_def demo_call_def json_object_set_string_def json_value_init_string_def
        redp2p_index_append_candidates_def Let_def)
qed

theorem punch_poll_oversize_lost_witness:
  "fst (redp2p_index_handle_punch_poll (demo_env 215) demo_crowded [(''id'', JSONString ''b'')]) = None"
proof -
  have fresh: "\<not> call_expired 215 demo_call" "target_id demo_call = ''b''" by (simp_all add: demo_call_def macros)
  define calls where "calls = fst (redp2p_pending_call_take_all (redp2p_pending_call_evict_stale 215 demo_crowded) ''b'')"
  have "mset calls = filter_mset (\<lambda>c. target_id c = ''b'' \<and> \<not> call_expired 215 c) (replicate_mset 32 demo_call)"
    by (simp add: calls_def pending_take_frame pending_evict_frame sweep_whole demo_crowded_def mset_replicate filter_filter_mset conj_commute)
  also have "\<dots> = replicate_mset 32 demo_call" using fresh by (intro filter_replicate) simp
  finally have calls: "size (mset calls) = 32" "set_mset (mset calls) \<subseteq> {demo_call}" by (simp_all only: size_replicate_mset) auto
  then have "\<forall>v \<in> set (map (\<lambda>c. ser demo_libc (JSONObject (call_object c))) calls). 128 \<le> length v"
    using demo_call_length by auto
  then have "length (map (\<lambda>c. ser demo_libc (JSONObject (call_object c))) calls) * 128
      \<le> sum_list (map length (map (\<lambda>c. ser demo_libc (JSONObject (call_object c))) calls))"
    by (induction calls) auto
  also have "\<dots> \<le> length (join_comma (map (\<lambda>c. ser demo_libc (JSONObject (call_object c))) calls))" by (rule length_join_comma)
  finally have "4096 \<le> length (join_comma (map (\<lambda>c. ser demo_libc (JSONObject (call_object c))) calls))"
    using calls(1) by simp
  then have "json_serialization_size demo_libc
      (JSONObject [(''calls'', JSONArray (map (\<lambda>c. JSONObject (call_object c)) calls)), (''ok'', JSONBoolean True)]) \<ge> REDP2P_BUF"
    by (simp add: json_serialization_size_def macros comp_def)
  moreover have "redp2p_index_require_id_response (demo_env 215) [(''id'', JSONString ''b'')] (REDP2P_ID_MAX + 1) = Inr ''b''"
    by (simp add: redp2p_index_require_id_response_def redp2p_index_require_id_def request_defs
        c_str_def NUL_def redp2p_is_valid_id_def is_alnum_def between_def macros)
  ultimately show ?thesis
    using punch_poll_oversize_lost [of "demo_env 215" "[(''id'', JSONString ''b'')]" "''b''" demo_crowded]
    by (simp add: calls_def)
qed

section \<open>Candidates on the wire\<close>

text \<open>Candidates as the index stores them, with an address that JSON strings can carry.\<close>

definition wire_candidate :: "inet_ops \<Rightarrow> redp2p_candidate_t \<Rightarrow> bool" where
  "wire_candidate net c \<longleftrightarrow> cand_type c \<in> {CAND_HOST, CAND_LAN, CAND_PUBLIC, CAND_SRFLX}
     \<and> usable net c \<and> ranked net c = c \<and> length (cand_addr c) \<le> REDP2P_ADDR_MAX
     \<and> is_valid_utf8 (cand_addr c) \<and> NUL \<notin> set (cand_addr c)"

lemma candidate_object_eq:
  assumes "wire_candidate net c"
  shows "candidate_object c = [(''type'', JSONString (redp2p_candidate_type_name (cand_type c))),
     (''addr'', JSONString (cand_addr c)), (''port'', JSONNumber (of_nat (unat (cand_port c))))]"
proof -
  have "is_valid_utf8 (redp2p_candidate_type_name (cand_type c))"
    by (rule ascii_valid_utf8) (simp add: redp2p_candidate_type_name_def)
  then show ?thesis
    using assms by (simp add: candidate_object_def wire_candidate_def json_object_set_string_def json_value_init_string_def
        json_object_set_number_def)
qed

lemma port_roundtrip: "word_of_int \<lfloor>of_nat (unat (w :: 16 word)) :: rat\<rfloor> = w"
proof -
  have "\<lfloor>of_nat (unat w) :: rat\<rfloor> = int (unat w)" by (rule floor_of_nat)
  then show ?thesis by simp
qed

lemma port_range: "(w :: 16 word) \<noteq> 0 \<Longrightarrow> \<not> (of_nat (unat w) :: rat) < 1 \<and> \<not> (of_nat (unat w) :: rat) > 65535"
proof -
  assume "w \<noteq> 0"
  then have "1 \<le> unat w" by (simp add: Suc_le_eq unat_gt_0)
  moreover have "unat w \<le> 65535" using unsigned_less [of w, where 'a = nat] by simp
  ultimately have "of_nat 1 \<le> (of_nat (unat w) :: rat)" "(of_nat (unat w) :: rat) \<le> of_nat 65535"
    by (simp_all only: of_nat_le_iff)
  then show ?thesis by (simp add: not_less del: of_nat_unat)
qed

lemma priority_cong:
  "cand_type a = cand_type b \<Longrightarrow> cand_addr a = cand_addr b \<Longrightarrow>
   redp2p_candidate_priority net a = redp2p_candidate_priority net b"
  by (simp add: redp2p_candidate_priority_def redp2p_candidate_family_def)

lemma ranked_blank:
  assumes "ranked net c = c"
  shows "c = ranked net \<lparr>cand_type = cand_type c, cand_addr = cand_addr c, cand_port = cand_port c, cand_priority = 0\<rparr>"
proof -
  have "cand_priority (ranked net c) = redp2p_candidate_priority net c" by (simp add: ranked_def)
  with assms have "cand_priority c = redp2p_candidate_priority net c" by simp
  also have "\<dots> = redp2p_candidate_priority net
      \<lparr>cand_type = cand_type c, cand_addr = cand_addr c, cand_port = cand_port c, cand_priority = 0\<rparr>"
    by (rule priority_cong) simp_all
  finally show ?thesis by (simp add: ranked_def)
qed

lemma parse_candidate_object:
  assumes "wire_candidate net c"
  shows "parse_candidate_item net (JSONObject (candidate_object c)) = Some c"
proof -
  have w: "cand_type c \<in> {CAND_HOST, CAND_LAN, CAND_PUBLIC, CAND_SRFLX}" "usable net c" "ranked net c = c"
    "length (cand_addr c) \<le> REDP2P_ADDR_MAX" "NUL \<notin> set (cand_addr c)"
    using assms by (simp_all add: wire_candidate_def)
  have name: "c_str (redp2p_candidate_type_name (cand_type c)) = redp2p_candidate_type_name (cand_type c)"
    by (rule c_str_id) (simp add: redp2p_candidate_type_name_def NUL_def)
  have "\<not> (pton4 net (cand_addr c) = None \<and> pton6 net (cand_addr c) = None)" "cand_port c \<noteq> 0"
    using w(2) by (auto simp: usable_def redp2p_candidate_family_def split: if_splits)
  moreover have "c = ranked net \<lparr>cand_type = cand_type c, cand_addr = cand_addr c, cand_port = cand_port c, cand_priority = 0\<rparr>"
    by (rule ranked_blank [OF w(3)])
  ultimately show ?thesis
    using w port_range [of "cand_port c"] parse_type_of_name [OF w(1)]
    by (simp add: candidate_object_eq [OF assms] parse_candidate_item_def request_defs name c_str_id Let_def
        port_roundtrip flip: ranked_def del: of_nat_unat) auto
qed

lemma appended_candidates:
  assumes "list_all (wire_candidate net) cs" "length cs \<le> REDP2P_PEER_CANDIDATES_MAX" "field \<notin> fst ` set obj"
  shows "redp2p_index_parse_candidates net (redp2p_index_append_candidates obj field cs) field = Some cs"
proof -
  have "parse_candidate_items net (map (\<lambda>c. JSONObject (candidate_object c)) cs) = Some cs"
    using assms(1) by (induction cs) (simp_all add: parse_candidate_object)
  then show ?thesis
    using assms(2)
    by (simp add: redp2p_index_parse_candidates_def redp2p_index_append_candidates_def json_object_get_array_def
        json_object_has_value_of_type_def json_object_get_set)
qed

text \<open>
  C24: the candidates a publisher announced come back unchanged: reading the array that the
  index builds for a lookup or a poll with the same parser gives exactly the stored list.
\<close>

theorem candidates_wire_roundtrip:
  assumes "list_all (wire_candidate net) cs" "length cs \<le> REDP2P_PEER_CANDIDATES_MAX" "field \<notin> fst ` set obj"
  shows "redp2p_index_parse_candidates net (redp2p_index_append_candidates obj field cs) field = Some cs"
  using assms by (rule appended_candidates)

theorem candidates_wire_roundtrip_witness:
  "redp2p_index_parse_candidates demo_net (redp2p_index_append_candidates [] ''candidates''
      [ranked demo_net (demo_cand CAND_LAN ''10.0.0.7'' 9)]) ''candidates''
   = Some [ranked demo_net (demo_cand CAND_LAN ''10.0.0.7'' 9)]"
proof (rule candidates_wire_roundtrip)
  have "is_valid_utf8 ''10.0.0.7''" by (rule ascii_valid_utf8) simp
  then show "list_all (wire_candidate demo_net) [ranked demo_net (demo_cand CAND_LAN ''10.0.0.7'' 9)]"
    by (simp add: wire_candidate_def usable_def demo_cand_def demo_net_def redp2p_candidate_family_def macros NUL_def
        ranked_def redp2p_candidate_priority_def)
qed (simp_all add: macros)

end
