(* ===== verification/Http.thy ===== *)
theory Http
  imports Index_Behaviour
begin

text \<open>
  The HTTP carrier of the index protocol, both sides. The index side is
  \<^verbatim>\<open>redp2p_index_request_parse\<close>, which scans the bytes received so far on a connection and says
  whether a request is complete, has to wait for more input, or is refused with a status. The
  client side is \<^verbatim>\<open>redp2p_http_client\<close>: connecting, the request text, writing it, reading the reply with
  \<^verbatim>\<open>redp2p_tcp_readline\<close> and \<^verbatim>\<open>redp2p_http_read_some\<close>, and closing the socket on every way out.

  A buffer is a string of bytes, NUL included; what the C string functions see of it is its
  \<open>c_str\<close>. The reply a client reads is the list of chunks in which its bytes arrive, followed
  by the way the stream ends: the peer closes it, nothing more arrives in time, or reading fails.
\<close>

section \<open>Text search\<close>

fun strstr :: "string \<Rightarrow> string \<Rightarrow> nat option" where
  "strstr [] pat = (if pat = [] then Some 0 else None)"
| "strstr (c # cs) pat =
     (if take (length pat) (c # cs) = pat then Some 0 else map_option Suc (strstr cs pat))"

text \<open>The header line the two readers split at its first colon: name and value without leading blanks.\<close>

definition header_split :: "string \<Rightarrow> (string \<times> string) option" where
  "header_split line =
     (if CHR '':'' \<notin> set line then None
      else Some (takeWhile (\<lambda>c. c \<noteq> CHR '':'') line,
                 dropWhile (\<lambda>c. c = CHR '' '' \<or> c = CHR 0x09) (tl (dropWhile (\<lambda>c. c \<noteq> CHR '':'') line))))"

section \<open>The index side\<close>

datatype request =
    Incomplete
  | Refused nat
  | Complete string string

text \<open>What one header line does to the content length and the transfer-encoding flag.\<close>

definition request_header :: "int \<Rightarrow> string \<Rightarrow> int \<times> bool \<Rightarrow> (int \<times> bool) option" where
  "request_header limit hline st =
     (case header_split hline of
        None \<Rightarrow> Some st
      | Some (name, val) \<Rightarrow>
          if length name \<ge> 32 then None
          else if redp2p_ascii_casecmp name ''Content-Length'' = 0
          then (case redp2p_parse_u (Some val) 0 limit of None \<Rightarrow> None | Some n \<Rightarrow> Some (n, snd st))
          else if redp2p_ascii_casecmp name ''Transfer-Encoding'' = 0 then Some (fst st, True)
          else Some st)"

text \<open>
  The header loop: \<open>todo\<close> is \<^verbatim>\<open>header_end - cursor\<close> (nothing left once the cursor has passed the
  end), \<open>rest\<close> the text from the cursor on.
\<close>

function request_headers :: "int \<Rightarrow> nat \<Rightarrow> string \<Rightarrow> int \<times> bool \<Rightarrow> (int \<times> bool) option" where
  "request_headers limit todo rest st =
     (if todo = 0 \<or> LF \<notin> set rest then Some st
      else let line = takeWhile (\<lambda>c. c \<noteq> LF) rest; len = length line
           in if line = [CR] then Some st
              else if len \<ge> REDP2P_HTTP_LINE_MAX then None
              else let hline = (if line \<noteq> [] \<and> last line = CR then butlast line else line)
                   in case request_header limit hline st of
                        None \<Rightarrow> None
                      | Some st' \<Rightarrow> request_headers limit (todo - (len + 1)) (drop (len + 1) rest) st')"
  by pat_completeness auto
termination by (relation "measure (\<lambda>(limit, todo, rest, st). todo)") auto

declare request_headers.simps [simp del]

definition redp2p_index_request_parse :: "string \<Rightarrow> nat \<Rightarrow> nat \<Rightarrow> nat \<Rightarrow> request" where
  "redp2p_index_request_parse buf method_cap path_cap body_cap =
     (if buf = [] then Incomplete
      else if length buf \<ge> REDP2P_HTTP_BUF_MAX then Refused 431
      else let line = c_str buf
           in case strstr line (CRLF @ CRLF) of
                None \<Rightarrow> if length buf \<ge> REDP2P_HTTP_LINE_MAX * REDP2P_HTTP_HEADERS_MAX then Refused 431 else Incomplete
              | Some header_end \<Rightarrow>
                  (case redp2p_parse_field method_cap (Some (CHR '' '')) line of
                     None \<Rightarrow> Refused 400
                   | Some (method, cursor) \<Rightarrow>
                       if method \<noteq> ''POST'' then Refused 405
                       else case redp2p_parse_field path_cap (Some (CHR '' '')) cursor of
                          None \<Rightarrow> Refused 400
                        | Some (path, cursor) \<Rightarrow>
                            if take 8 cursor \<noteq> ''HTTP/1.1'' \<and> take 8 cursor \<noteq> ''HTTP/1.0'' then Refused 400
                            else case strstr line CRLF of
                               None \<Rightarrow> Refused 400
                             | Some l \<Rightarrow>
                                 (case request_headers (int body_cap - 1) (header_end - (l + 2)) (drop (l + 2) line) (- 1, False) of
                                    None \<Rightarrow> Refused 400
                                  | Some (content_length, has_transfer_encoding) \<Rightarrow>
                                      if has_transfer_encoding then Refused 501
                                      else let content_length = (if content_length < 0 then 0 else content_length)
                                           in if content_length > int body_cap - 1 then Refused 413
                                              else if length buf < header_end + 4 + nat content_length then Incomplete
                                              else Complete path (take (nat content_length) (drop (header_end + 4) buf)))))"

section \<open>The client side\<close>

text \<open>
  \<^verbatim>\<open>redp2p_tcp_connect\<close> tries the addresses of the host in turn: each gives a descriptor, or a
  negative number, and \<^verbatim>\<open>connect\<close> succeeds on it or not. The first connected socket is kept.
\<close>

fun redp2p_tcp_connect :: "(int \<times> bool) list \<Rightarrow> int \<times> sock_event list" where
  "redp2p_tcp_connect [] = (- 1, [])"
| "redp2p_tcp_connect ((fd, fine) # rest) =
     (if fd < 0 then redp2p_tcp_connect rest
      else if fine then (fd, [Sock_opened fd])
      else let (fd', evs) = redp2p_tcp_connect rest in (fd', Sock_opened fd # Sock_closed fd # evs))"

text \<open>\<^verbatim>\<open>redp2p_write_all\<close>: \<open>sock_write\<close> answers how many of the remaining bytes the socket took.\<close>

function redp2p_write_all :: "('a list \<Rightarrow> int) \<Rightarrow> 'a list \<Rightarrow> int" where
  "redp2p_write_all sock_write buf =
     (if buf = [] then 0
      else let n = sock_write buf
           in if n \<le> 0 then - 1 else redp2p_write_all sock_write (drop (nat n) buf))"
  by pat_completeness auto
termination by (relation "measure (\<lambda>(w, buf). length buf)") auto

declare redp2p_write_all.simps [simp del]

datatype sock_end = Closed | Silent | Broken

text \<open>One read of at most \<open>cap\<close> bytes; no bytes at the end of the stream.\<close>

fun redp2p_sock_read :: "nat \<Rightarrow> string list \<Rightarrow> string \<times> string list" where
  "redp2p_sock_read cap [] = ([], [])"
| "redp2p_sock_read cap ([] # cs) = redp2p_sock_read cap cs"
| "redp2p_sock_read cap ((c # s) # cs) = (take cap (c # s), drop cap (c # s) # cs)"

lemma sock_read_concat: "redp2p_sock_read cap cs = (bs, cs') \<Longrightarrow> concat cs = bs @ concat cs'"
  by (induction cap cs rule: redp2p_sock_read.induct) auto

lemma sock_read_Nil: "redp2p_sock_read cap cs = ([], cs') \<Longrightarrow> 0 < cap \<Longrightarrow> concat cs = []"
  by (induction cap cs rule: redp2p_sock_read.induct) auto

lemma sock_read_length: "length (fst (redp2p_sock_read cap cs)) \<le> cap"
  by (induction cap cs rule: redp2p_sock_read.induct) auto

function readline_loop :: "nat \<Rightarrow> sock_end \<Rightarrow> string \<Rightarrow> string list \<Rightarrow> (int + string) \<times> string list" where
  "readline_loop cap tail buf cs =
     (case redp2p_sock_read 1 cs of
        ([], cs') \<Rightarrow> (Inl (if tail = Silent then - 1 else - 2), cs')
      | (b # bs, cs') \<Rightarrow>
          if b = LF then (Inr buf, cs')
          else if b = CR then readline_loop cap tail buf cs'
          else if \<not> redp2p_control_bytes_valid [b] then (Inl (- 3), cs')
          else if length buf \<ge> cap - 1 then (Inl (- 4), cs')
          else readline_loop cap tail (buf @ [b]) cs')"
  by pat_completeness auto
termination
  by (relation "measure (\<lambda>(cap, tail, buf, cs). length (concat cs))")
    (auto dest!: sock_read_concat [OF sym] simp del: length_concat)

declare readline_loop.simps [simp del]

definition redp2p_tcp_readline :: "bool \<Rightarrow> nat \<Rightarrow> sock_end \<Rightarrow> string list \<Rightarrow> (int + string) \<times> string list" where
  "redp2p_tcp_readline fits cap tail cs =
     (if cap < 1 \<or> \<not> fits then (Inl (- 1), cs) else readline_loop cap tail [] cs)"

definition redp2p_http_read_some :: "bool \<Rightarrow> nat \<Rightarrow> sock_end \<Rightarrow> string list \<Rightarrow> (int + string) \<times> string list" where
  "redp2p_http_read_some fits cap tail cs =
     (if cap < 1 \<or> \<not> fits then (Inl (- 1), cs)
      else case redp2p_sock_read cap cs of
        ([], cs') \<Rightarrow> (Inl (case tail of Closed \<Rightarrow> 0 | Silent \<Rightarrow> - 1 | Broken \<Rightarrow> - 1), cs')
      | (b # bs, cs') \<Rightarrow> (Inr (b # bs), cs'))"

lemma http_read_some_progress: "redp2p_http_read_some fits cap tail cs = (Inr bs, cs') \<Longrightarrow> 0 < length bs"
  by (auto simp: redp2p_http_read_some_def split: if_splits prod.splits list.splits)

function body_loop :: "bool \<Rightarrow> sock_end \<Rightarrow> nat \<Rightarrow> string \<Rightarrow> string list \<Rightarrow> int + string" where
  "body_loop fits tail content_length body cs =
     (if length body \<ge> content_length then Inr body
      else case redp2p_http_read_some fits (content_length - length body) tail cs of
        (Inl r, cs') \<Rightarrow> Inl r
      | (Inr bs, cs') \<Rightarrow> body_loop fits tail content_length (body @ bs) cs')"
  by pat_completeness auto
termination
proof (relation "measure (\<lambda>(fits, tail, n, body, cs). n - length body)", goal_cases)
  case (2 fits tail n body cs x cs' bs)
  then have "0 < length bs" by (metis http_read_some_progress)
  moreover have "length body < n" using 2 by simp
  ultimately show ?case unfolding in_measure prod.case length_append by arith
qed simp

declare body_loop.simps [simp del]

text \<open>The status line: what follows the first run of blanks must start with three digits.\<close>

definition status_code :: "string \<Rightarrow> nat option" where
  "status_code line =
     (if take 5 line \<noteq> ''HTTP/'' \<or> CHR '' '' \<notin> set line then None
      else let cursor = dropWhile (\<lambda>c. c = CHR '' '') (dropWhile (\<lambda>c. c \<noteq> CHR '' '') line)
           in if length cursor < 3 \<or> \<not> list_all is_digit (take 3 cursor) then None
              else Some (dec_from 0 (take 3 cursor)))"

definition read_failure :: "string \<Rightarrow> int \<Rightarrow> int \<times> string option" where
  "read_failure phase r =
     (if r = - 1 then (REDP2P_ETIMEOUT, Some (phase @ '': index response timed out''))
      else (REDP2P_ENET, Some (phase @ '': index response failed'')))"

text \<open>
  At most \<^verbatim>\<open>REDP2P_HTTP_HEADERS_MAX\<close> header lines are read, up to the first empty one. A failure
  carries the result code, the message and what was done to the socket \<open>fd\<close>.
\<close>

type_synonym http_failure = "(int \<times> string option) \<times> sock_event list"

fun response_headers ::
  "int \<Rightarrow> bool \<Rightarrow> sock_end \<Rightarrow> string \<Rightarrow> nat \<Rightarrow> int \<Rightarrow> string list \<Rightarrow> http_failure + (int \<times> string list)" where
  "response_headers fd fits tail phase 0 content_length cs = Inr (content_length, cs)"
| "response_headers fd fits tail phase (Suc i) content_length cs =
     (case redp2p_tcp_readline fits REDP2P_HTTP_LINE_MAX tail cs of
        (Inl r, cs') \<Rightarrow> Inl (read_failure phase r, [Sock_closed fd])
      | (Inr line, cs') \<Rightarrow>
          if line = [] then Inr (content_length, cs')
          else case header_split line of
             None \<Rightarrow> response_headers fd fits tail phase i content_length cs'
           | Some (name, val) \<Rightarrow>
               if length name \<ge> 32 then Inl ((REDP2P_EPROTO, Some (phase @ '': malformed index response headers'')), [Sock_closed fd])
               else if redp2p_ascii_casecmp name ''Content-Length'' = 0
               then (case redp2p_parse_u (Some val) 0 (int REDP2P_HTTP_BODY_MAX) of
                       None \<Rightarrow> Inl ((REDP2P_EPROTO, Some (phase @ '': malformed index response length'')), [Sock_closed fd])
                     | Some n \<Rightarrow> response_headers fd fits tail phase i n cs')
               else if redp2p_ascii_casecmp name ''Transfer-Encoding'' = 0
               then Inl ((REDP2P_EPROTO, Some (phase @ '': unsupported index response encoding'')), [Sock_closed fd])
               else response_headers fd fits tail phase i content_length cs')"

text \<open>Status line, headers and body of the reply: the status and the body, with the socket still open.\<close>

definition read_response ::
  "int \<Rightarrow> bool \<Rightarrow> sock_end \<Rightarrow> string \<Rightarrow> string list \<Rightarrow> http_failure + (nat \<times> string)" where
  "read_response fd fits tail phase cs =
     (case redp2p_tcp_readline fits REDP2P_HTTP_LINE_MAX tail cs of
        (Inl r, cs') \<Rightarrow> Inl (read_failure phase r, [Sock_closed fd])
      | (Inr line, cs') \<Rightarrow>
          (case status_code line of
             None \<Rightarrow> Inl ((REDP2P_EPROTO, Some (phase @ '': malformed index status line'')), [Sock_closed fd])
           | Some status \<Rightarrow>
               (case response_headers fd fits tail phase REDP2P_HTTP_HEADERS_MAX (- 1) cs' of
                  Inl e \<Rightarrow> Inl e
                | Inr (content_length, cs'') \<Rightarrow>
                    (case body_loop fits tail (nat content_length) [] cs'' of
                       Inl r \<Rightarrow> Inl (read_failure phase r, [Sock_closed fd])
                     | Inr body \<Rightarrow> Inr (status, body)))))"

text \<open>
  The environment of one request: the sockets tried and whether they connect (none when the host
  is not resolved), whether a descriptor fits a \<^verbatim>\<open>fd_set\<close>, what the socket takes of each write, and the reply that arrives.
\<close>

record http_env =
  http_sockets :: "(int \<times> bool) list"
  http_fd_fits :: bool
  http_sock_write :: "string \<Rightarrow> int"
  http_reply :: "string list"
  http_end :: sock_end

definition request_head :: "string \<Rightarrow> nat \<Rightarrow> string" where
  "request_head host len =
     ''POST /redp2p/ HTTP/1.1'' @ CRLF @
     ''Host: '' @ host @ CRLF @
     ''Content-Length: '' @ dec_text len @ CRLF @
     ''Content-Type: application/json'' @ CRLF @
     ''Connection: close'' @ CRLF @ CRLF"

text \<open>The reply of a status other than 200: the error code of its body decides, if it has one.\<close>

definition request_failed :: "libc_ops \<Rightarrow> string \<Rightarrow> nat \<Rightarrow> string \<Rightarrow> int \<times> string option" where
  "request_failed libc phase status body =
     (case (case json_parse_string libc (c_str body) of
              Some (JSONObject obj) \<Rightarrow> json_object_get_string obj ''error''
            | _ \<Rightarrow> None) of
        Some code \<Rightarrow>
          (let code = take (REDP2P_HTTP_LINE_MAX - 1) (c_str code)
           in (redp2p_http_map_error (Some code), Some (phase @ '': index request failed ('' @ code @ '')'')))
      | None \<Rightarrow>
          (if status = 503 then REDP2P_EFULL else REDP2P_EPROTO,
           Some (phase @ '': index request failed (HTTP '' @ dec_text status @ '')'')))"

text \<open>
  One request: its result, and the sockets it opened and closed. Every way out after a successful
  connection closes the socket.
\<close>

definition redp2p_http_client ::
  "http_env \<Rightarrow> libc_ops \<Rightarrow> string \<Rightarrow> string option \<Rightarrow> 16 word \<Rightarrow> JSON_Value
   \<Rightarrow> ((int \<times> string option) + JSON_Value) \<times> sock_event list" where
  "redp2p_http_client henv libc phase host port req =
     (case host of
        None \<Rightarrow> (Inl (REDP2P_EINVAL, None), [])
      | Some h \<Rightarrow>
          if h = [] \<or> port = 0 then (Inl (REDP2P_EINVAL, None), [])
          else let body_size = json_serialization_size libc req
               in if body_size = 0 \<or> body_size > REDP2P_HTTP_BODY_MAX + 1
                  then (Inl (REDP2P_EPROTO, Some (phase @ '': index request is too large'')), [])
                  else case redp2p_tcp_connect (http_sockets henv) of (fd, evs) \<Rightarrow>
                  if fd < 0
                  then (Inl (REDP2P_ENET, Some (phase @ '': index connect '' @ h @ '':'' @ dec_text (unat port) @ '' failed'')), evs)
                  else case json_serialize_to_buffer libc req (REDP2P_HTTP_BODY_MAX + 1) of
                    None \<Rightarrow> (Inl (REDP2P_ERROR, Some (phase @ '': index request serialization failed'')), evs @ [Sock_closed fd])
                  | Some body \<Rightarrow>
                      let head = request_head h (body_size - 1)
                      in if length head \<ge> REDP2P_HTTP_LINE_MAX * 6
                           \<or> redp2p_write_all (http_sock_write henv) head \<noteq> 0
                           \<or> redp2p_write_all (http_sock_write henv) (take (body_size - 1) body) \<noteq> 0
                         then (Inl (REDP2P_ENET, Some (phase @ '': index request write failed'')), evs @ [Sock_closed fd])
                         else case read_response fd (http_fd_fits henv) (http_end henv) phase (http_reply henv) of
                           Inl (e, done) \<Rightarrow> (Inl e, evs @ done)
                         | Inr (status, reply) \<Rightarrow>
                             (if status = 200
                              then (case json_parse_string libc (c_str reply) of
                                      Some (JSONObject obj) \<Rightarrow> Inr (JSONObject obj)
                                    | _ \<Rightarrow> Inl (REDP2P_EPROTO, Some (phase @ '': malformed index response'')))
                              else Inl (request_failed libc phase status reply), evs @ [Sock_closed fd]))"

section \<open>The account of sockets\<close>

lemma tcp_connect_account:
  "redp2p_tcp_connect xs = (fd, evs) \<Longrightarrow> sock_opened evs = sock_closed evs @ (if fd < 0 then [] else [fd])"
proof (induction xs arbitrary: fd evs)
  case (Cons x xs)
  obtain fd' evs' where 1: "redp2p_tcp_connect xs = (fd', evs')" by fastforce
  show ?case using Cons.IH [OF 1] Cons.prems 1 by (cases x) (auto split: if_splits)
qed simp

lemma response_headers_closed: "response_headers fd fits tail phase i n cs = Inl (e, evs) \<Longrightarrow> evs = [Sock_closed fd]"
  by (induction fd fits tail phase i n cs rule: response_headers.induct)
    (auto split: prod.splits sum.splits option.splits if_splits)

lemma read_response_closed: "read_response fd fits tail phase cs = Inl (e, evs) \<Longrightarrow> evs = [Sock_closed fd]"
  using response_headers_closed [of fd fits tail phase REDP2P_HTTP_HEADERS_MAX "- 1"]
  by (auto simp: read_response_def split: prod.splits sum.splits option.splits)

text \<open>A request closes every socket it opened, whatever happens to it.\<close>

lemma http_client_account:
  assumes "redp2p_http_client henv libc phase host port req = (r, evs)"
  shows "sock_opened evs = sock_closed evs"
proof -
  obtain fd es where 1: "redp2p_tcp_connect (http_sockets henv) = (fd, es)" by fastforce
  note a = tcp_connect_account [OF 1]
  show ?thesis
  proof (cases "read_response fd (http_fd_fits henv) (http_end henv) phase (http_reply henv)")
    case (Inl f)
    then obtain e where "f = (e, [Sock_closed fd])" using read_response_closed by (metis prod.exhaust)
    with Inl show ?thesis using assms a
      by (auto simp: redp2p_http_client_def 1 Let_def split: option.splits if_splits)
  next
    case (Inr f)
    then show ?thesis using assms a
      by (cases f) (auto simp: redp2p_http_client_def 1 Let_def split: option.splits if_splits)
  qed
qed

end
