(* ===== verification/Http_Wire.thy ===== *)
theory Http_Wire
  imports Http
begin

text \<open>
  What the two ends of the HTTP carrier make of each other: a request written by
  \<^verbatim>\<open>redp2p_http_client\<close> is recognised by \<^verbatim>\<open>redp2p_index_request_parse\<close> when its last byte has
  arrived and not before, however the network cuts it, and a reply of the index is read back by the
  client, again for every way the bytes arrive.
\<close>

section \<open>Searching\<close>

lemma strstr_SomeD: "strstr s pat = Some i \<Longrightarrow> i + length pat \<le> length s \<and> take (length pat) (drop i s) = pat"
proof (induction s arbitrary: i)
  case (Cons c s)
  show ?case
  proof (cases "take (length pat) (c # s) = pat")
    case True
    then have "length pat \<le> length (c # s)" by (metis length_take min.cobounded1)
    with True Cons.prems show ?thesis by auto
  next
    case False
    then obtain j where "strstr s pat = Some j" "i = Suc j" using Cons.prems by auto
    with Cons.IH show ?thesis by simp
  qed
qed (simp split: if_splits)

lemma strstr_skip: "pat \<noteq> [] \<Longrightarrow> hd pat \<notin> set x \<Longrightarrow> strstr (x @ y) pat = map_option ((+) (length x)) (strstr y pat)"
proof (induction x)
  case Nil
  then show ?case by (cases "strstr y pat") simp_all
next
  case (Cons c x)
  then have "take (length pat) (c # x @ y) \<noteq> pat" by (cases pat) auto
  with Cons show ?case by (cases "strstr y pat") simp_all
qed

lemma strstr_here: "pat \<noteq> [] \<Longrightarrow> strstr (pat @ y) pat = Some 0"
  by (cases pat) simp_all

lemma strstr_prefix_le: "strstr (take k s) pat = Some j \<Longrightarrow> \<exists>i \<le> j. strstr s pat = Some i"
proof (induction s arbitrary: k j)
  case (Cons c s)
  show ?case
  proof (cases k)
    case 0
    with Cons.prems show ?thesis by (auto split: if_splits)
  next
    case (Suc k')
    show ?thesis
    proof (cases "take (length pat) (take k (c # s)) = pat")
      case True
      then have "length (take (length pat) (take k (c # s))) = length pat" by (simp only:)
      then have "length pat \<le> k" by simp
      with True have "take (length pat) (c # s) = pat" by (simp add: min_def split: if_splits)
      then show ?thesis by simp
    next
      case False
      with Cons.prems Suc obtain j' where "strstr (take k' s) pat = Some j'" "j = Suc j'" by auto
      with Cons.IH [of k' j'] show ?thesis by auto
    qed
  qed
qed simp

lemma strstr_prefix_None:
  assumes "strstr s pat = Some i" "k < i + length pat"
  shows "strstr (take k s) pat = None"
proof (rule ccontr)
  assume "strstr (take k s) pat \<noteq> None"
  then obtain j where j: "strstr (take k s) pat = Some j" by blast
  from strstr_prefix_le [OF j] assms(1) have "i \<le> j" by auto
  moreover have "j + length pat \<le> k" using strstr_SomeD [OF j] by simp
  ultimately show False using assms(2) by simp
qed

section \<open>Header blocks\<close>

text \<open>A header block is a list of nonempty lines without line ends, each followed by a line end.\<close>

definition line_ok :: "string \<Rightarrow> bool" where
  "line_ok l \<longleftrightarrow> l \<noteq> [] \<and> CR \<notin> set l \<and> LF \<notin> set l \<and> NUL \<notin> set l"

definition block :: "string list \<Rightarrow> string" where
  "block ls = concat (map (\<lambda>l. l @ CRLF) ls)"

lemma block_simps [simp]: "block [] = []" "block (l # ls) = l @ CRLF @ block ls"
  by (simp_all add: block_def)

lemma CRLF_length [simp]: "length CRLF = 2" "CRLF \<noteq> []" "hd CRLF = CR"
  by (simp_all add: CRLF_def)

lemma block_head: "list_all line_ok ls \<Longrightarrow> ls \<noteq> [] \<Longrightarrow> \<exists>c s. block ls = c # s \<and> c \<noteq> CR"
  by (cases ls; cases "hd ls") (auto simp: line_ok_def)

lemma block_length: "list_all line_ok ls \<Longrightarrow> ls \<noteq> [] \<Longrightarrow> 2 \<le> length (block ls)"
  by (cases ls) simp_all

lemma block_no_NUL: "list_all line_ok ls \<Longrightarrow> NUL \<notin> set (block ls)"
  by (induction ls) (auto simp: line_ok_def CRLF_def)

lemma strstr_block:
  assumes "list_all line_ok ls" "ls \<noteq> []"
  shows "strstr (block ls @ CRLF @ r) (CRLF @ CRLF) = Some (length (block ls) - 2)"
  using assms
proof (induction ls)
  case (Cons l ls)
  have skip: "strstr (l @ CRLF @ t) (CRLF @ CRLF) = map_option ((+) (length l)) (strstr (CRLF @ t) (CRLF @ CRLF))" for t
    using Cons.prems by (intro strstr_skip) (simp_all add: line_ok_def CRLF_def)
  show ?case
  proof (cases "ls = []")
    case True
    then show ?thesis using skip [of "CRLF @ r"] strstr_here [of "CRLF @ CRLF" r] by simp
  next
    case False
    with block_head [of ls] Cons.prems obtain c s where cs: "block ls = c # s" "c \<noteq> CR" by auto
    have "strstr (CRLF @ block ls @ CRLF @ r) (CRLF @ CRLF) = map_option ((+) 2) (strstr (block ls @ CRLF @ r) (CRLF @ CRLF))"
      using cs by (simp add: CRLF_def option.map_comp comp_def)
    also have "\<dots> = Some (length (block ls))"
      using Cons False block_length [of ls] by simp
    finally show ?thesis using skip [of "block ls @ CRLF @ r"] by (simp flip: append_assoc)
  qed
qed simp

fun header_fold :: "int \<Rightarrow> string list \<Rightarrow> int \<times> bool \<Rightarrow> (int \<times> bool) option" where
  "header_fold limit [] st = Some st"
| "header_fold limit (l # ls) st =
     (case request_header limit l st of None \<Rightarrow> None | Some st' \<Rightarrow> header_fold limit ls st')"

lemma takeWhile_line: "LF \<notin> set l \<Longrightarrow> takeWhile (\<lambda>c. c \<noteq> LF) (l @ CRLF @ t) = l @ [CR]"
  by (simp add: CRLF_def takeWhile_append)

lemma request_headers_block:
  assumes "list_all line_ok ls" "list_all (\<lambda>l. length l + 1 < REDP2P_HTTP_LINE_MAX) ls"
  shows "request_headers limit (length (block ls) - 2) (block ls @ CRLF @ r) st = header_fold limit ls st"
  using assms
proof (induction ls arbitrary: st)
  case (Cons l ls)
  have l: "l \<noteq> []" "LF \<notin> set l" "length l + 1 < REDP2P_HTTP_LINE_MAX"
    using Cons.prems by (simp_all add: line_ok_def)
  have "request_headers limit (length (block (l # ls)) - 2) (block (l # ls) @ CRLF @ r) st
      = (case request_header limit l st of None \<Rightarrow> None
         | Some st' \<Rightarrow> request_headers limit (length (block ls) - 2) (block ls @ CRLF @ r) st')"
  proof -
    have "length (block (l # ls)) - 2 - (length (l @ [CR]) + 1) = length (block ls) - 2"
      "drop (length (l @ [CR]) + 1) (block (l # ls) @ CRLF @ r) = block ls @ CRLF @ r"
      "length (block (l # ls)) - 2 \<noteq> 0" "LF \<in> set (block (l # ls) @ CRLF @ r)"
      using l(1) by (simp_all add: CRLF_def)
    moreover have "takeWhile (\<lambda>c. c \<noteq> LF) (block (l # ls) @ CRLF @ r) = l @ [CR]"
      using takeWhile_line [OF l(2), of "block ls @ CRLF @ r"] by simp
    ultimately show ?thesis using l
      by (subst request_headers.simps) (simp only: Let_def if_False simp_thms append_eq_Cons_conv, simp)
  qed
  then show ?case using Cons by (simp split: option.split)
qed (simp add: request_headers.simps)

section \<open>Requests\<close>

abbreviation request_line :: "string \<Rightarrow> string" where
  "request_line path \<equiv> ''POST '' @ path @ '' HTTP/1.1''"

definition request_block :: "string \<Rightarrow> string list \<Rightarrow> string" where
  "request_block path hs = block (request_line path # hs) @ CRLF"

definition request_ok :: "string \<Rightarrow> string list \<Rightarrow> bool" where
  "request_ok path hs \<longleftrightarrow> line_ok path \<and> CHR '' '' \<notin> set path \<and> length path < 128
     \<and> list_all line_ok hs \<and> list_all (\<lambda>l. length l + 1 < REDP2P_HTTP_LINE_MAX) hs
     \<and> length (request_block path hs) \<le> REDP2P_HTTP_LINE_MAX * REDP2P_HTTP_HEADERS_MAX"

lemma request_ok_lines: "request_ok path hs \<Longrightarrow> list_all line_ok (request_line path # hs)"
  by (auto simp: request_ok_def line_ok_def LF_def CR_def NUL_def)

lemma c_str_append: "NUL \<notin> set x \<Longrightarrow> c_str (x @ y) = x @ c_str y"
  by (simp add: c_str_def takeWhile_append)

lemma c_str_block: "request_ok path hs \<Longrightarrow> c_str (request_block path hs @ x) = request_block path hs @ c_str x"
  using block_no_NUL [OF request_ok_lines, of path hs]
  by (intro c_str_append) (auto simp: request_block_def CRLF_def)

lemma strstr_request:
  assumes "request_ok path hs"
  shows "strstr (request_block path hs @ x) (CRLF @ CRLF) = Some (length (request_block path hs) - 4)"
    "strstr (request_block path hs @ x) CRLF = Some (length (request_line path))"
proof -
  show "strstr (request_block path hs @ x) (CRLF @ CRLF) = Some (length (request_block path hs) - 4)"
    using strstr_block [OF request_ok_lines [OF assms], of x] by (simp add: request_block_def)
  have "CR \<notin> set (request_line path)" using request_ok_lines [OF assms] by (simp add: line_ok_def)
  then show "strstr (request_block path hs @ x) CRLF = Some (length (request_line path))"
    using strstr_skip [of CRLF "request_line path" "CRLF @ block hs @ CRLF @ x"] strstr_here [of CRLF "block hs @ CRLF @ x"]
    by (simp add: request_block_def)
qed

text \<open>The outcome once the header block has arrived, \<open>x\<close> being the bytes after it.\<close>

definition body_outcome :: "int \<Rightarrow> string \<Rightarrow> string \<Rightarrow> (int \<times> bool) option \<Rightarrow> request" where
  "body_outcome limit path x hdr =
     (case hdr of None \<Rightarrow> Refused 400
      | Some (n, te) \<Rightarrow>
          if te then Refused 501
          else let n = (if n < 0 then 0 else n)
               in if n > limit then Refused 413
                  else if length x < nat n then Incomplete
                  else Complete path (take (nat n) x))"

lemma request_parse_block:
  assumes ok: "request_ok path hs" and len: "length (request_block path hs @ x) < REDP2P_HTTP_BUF_MAX"
  shows "redp2p_index_request_parse (request_block path hs @ x) 16 128 (Suc cap)
    = body_outcome (int cap) path x (header_fold (int cap) hs (- 1, False))"
proof -
  define head where "head = request_block path hs"
  define line where "line = head @ c_str x"
  have h4: "length head = length (request_line path) + 2 + length (block hs) + 2"
    by (simp add: head_def request_block_def)
  have f1: "redp2p_parse_field 16 (Some (CHR '' '')) line
      = Some (''POST'', path @ '' HTTP/1.1'' @ CRLF @ block hs @ CRLF @ c_str x)"
    using redp2p_parse_field_delim [of "''POST''" 16 "CHR '' ''" "path @ '' HTTP/1.1'' @ CRLF @ block hs @ CRLF @ c_str x"]
    by (simp add: line_def head_def request_block_def)
  have f2: "redp2p_parse_field 128 (Some (CHR '' '')) (path @ '' HTTP/1.1'' @ CRLF @ block hs @ CRLF @ c_str x)
      = Some (path, ''HTTP/1.1'' @ CRLF @ block hs @ CRLF @ c_str x)"
    using redp2p_parse_field_delim [of path 128 "CHR '' ''" "''HTTP/1.1'' @ CRLF @ block hs @ CRLF @ c_str x"] ok
    by (simp add: request_ok_def line_ok_def)
  have hd: "request_headers (int cap) (length head - 4 - (length (request_line path) + 2))
        (drop (length (request_line path) + 2) line) (- 1, False) = header_fold (int cap) hs (- 1, False)"
    using request_headers_block [of hs "int cap" "c_str x" "(- 1, False)"] ok
    by (simp add: request_ok_def h4 line_def head_def request_block_def)
  have c: "c_str (head @ x) = line" using c_str_block [OF ok] by (simp add: line_def head_def)
  have s: "strstr line (CRLF @ CRLF) = Some (length head - 4)" "strstr line CRLF = Some (length (request_line path))"
    using strstr_request [OF ok] by (simp_all add: line_def head_def)
  have e: "length head - 4 + 4 = length head" "head @ x \<noteq> []" using h4 by auto
  have l: "\<not> REDP2P_HTTP_BUF_MAX \<le> length (head @ x)" using len by (simp add: head_def)
  have "redp2p_index_request_parse (head @ x) 16 128 (Suc cap)
      = body_outcome (int cap) path x (header_fold (int cap) hs (- 1, False))"
    unfolding redp2p_index_request_parse_def Let_def c s f1 f2 option.case prod.case body_outcome_def
    using e l hd by (simp add: add.commute split: option.split)
  then show ?thesis by (simp add: head_def)
qed

lemma request_parse_prefix:
  assumes ok: "request_ok path hs" and k: "k < length (request_block path hs)"
  shows "redp2p_index_request_parse (take k (request_block path hs)) m p b = Incomplete"
proof -
  define head where "head = request_block path hs"
  have "NUL \<notin> set head" using c_str_block [OF ok, of "[]"] c_str_no_NUL [of head] by (auto simp: head_def c_str_def)
  then have c: "c_str (take k head) = take k head" by (intro c_str_id) (auto dest: in_set_takeD)
  have "strstr head (CRLF @ CRLF) = Some (length head - 4)" using strstr_request(1) [OF ok, of "[]"] by (simp add: head_def)
  then have "strstr (take k head) (CRLF @ CRLF) = None"
    by (rule strstr_prefix_None) (use k in \<open>simp add: head_def\<close>)
  moreover have "length head \<le> REDP2P_HTTP_LINE_MAX * REDP2P_HTTP_HEADERS_MAX" using ok by (simp add: request_ok_def head_def)
  ultimately show ?thesis
    using k c by (simp add: redp2p_index_request_parse_def head_def [symmetric] Let_def macros)
qed

text \<open>The request the client writes is such a block.\<close>

definition client_headers :: "string \<Rightarrow> nat \<Rightarrow> string list" where
  "client_headers host len =
     [''Host: '' @ host, ''Content-Length: '' @ dec_text len, ''Content-Type: application/json'', ''Connection: close'']"

lemma request_head_block: "request_head host len = request_block ''/redp2p/'' (client_headers host len)"
  by (simp add: request_head_def request_block_def client_headers_def)

lemma parse_dec_text:
  assumes "n \<le> hi" "hi < 2 ^ 63"
  shows "redp2p_parse_u (Some (dec_text n)) 0 (int hi) = Some (int n)"
proof -
  have "int hi < 2 ^ 63" using assms(2) by (metis of_nat_less_iff of_nat_numeral of_nat_power)
  then show ?thesis using assms(1) dec_text_digits [of n] by (simp add: redp2p_parse_u_eq dec_from_text)
qed

lemma dec_text_hd: "dropWhile (\<lambda>c. c = CHR '' '' \<or> c = CHR 0x09) (dec_text n) = dec_text n"
  using dec_text_digits [of n] by (cases "dec_text n") (auto simp: between_def)

lemma dec_text_no: "\<not> is_digit c \<Longrightarrow> c \<notin> set (dec_text n)"
  by (rule list_all_notin [OF dec_text_digits])

lemma request_headers_client:
  assumes "n \<le> cap" "cap < 2 ^ 63"
  shows "request_header (int cap) (''Host: '' @ host) st = Some st"
    "request_header (int cap) (''Content-Length: '' @ dec_text n) st = Some (int n, snd st)"
    "request_header (int cap) ''Content-Type: application/json'' st = Some st"
    "request_header (int cap) ''Connection: close'' st = Some st"
  using parse_dec_text [OF assms]
  by (simp_all add: request_header_def header_split_def fold_case_def between_def dec_text_hd)

lemma client_header_fold:
  assumes "n \<le> cap" "cap < 2 ^ 63"
  shows "header_fold (int cap) (client_headers host n) (- 1, False) = Some (int n, False)"
  by (simp add: client_headers_def request_headers_client [OF assms] del: append.simps)

definition host_ok :: "string \<Rightarrow> bool" where
  "host_ok host \<longleftrightarrow> CR \<notin> set host \<and> LF \<notin> set host \<and> NUL \<notin> set host \<and> length host < 249"

lemma client_request_ok:
  assumes "host_ok host" "n \<le> REDP2P_HTTP_BODY_MAX"
  shows "request_ok ''/redp2p/'' (client_headers host n)"
proof -
  have "length (dec_text n) \<le> 4" using assms(2) by (intro length_dec_text_le) (simp_all add: macros)
  moreover have "CR \<notin> set (dec_text n)" "LF \<notin> set (dec_text n)" "NUL \<notin> set (dec_text n)"
    by (intro dec_text_no; simp add: between_def CR_def LF_def NUL_def)+
  ultimately show ?thesis
    using assms(1)
    by (simp add: request_ok_def line_ok_def host_ok_def client_headers_def request_block_def macros)
       (simp add: CR_def LF_def NUL_def)
qed

lemma client_request_parse:
  assumes "host_ok host" "length body \<le> REDP2P_HTTP_BODY_MAX"
    "k \<le> length (request_head host (length body) @ body)"
  shows "redp2p_index_request_parse (take k (request_head host (length body) @ body)) 16 128 (REDP2P_HTTP_BODY_MAX + 1)
    = (if k < length (request_head host (length body) @ body) then Incomplete else Complete ''/redp2p/'' body)"
proof -
  define hs where "hs = client_headers host (length body)"
  define head where "head = request_block ''/redp2p/'' hs"
  have ok: "request_ok ''/redp2p/'' hs" using client_request_ok [OF assms(1,2)] by (simp add: hs_def)
  have h: "request_head host (length body) = head" by (simp add: head_def hs_def request_head_block)
  show ?thesis
  proof (cases "k < length head")
    case True
    then have "redp2p_index_request_parse (take k head) 16 128 (REDP2P_HTTP_BODY_MAX + 1) = Incomplete"
      unfolding head_def by (intro request_parse_prefix ok)
    with True show ?thesis by (simp add: h)
  next
    case False
    define x where "x = take (k - length head) body"
    have "length head \<le> REDP2P_HTTP_LINE_MAX * REDP2P_HTTP_HEADERS_MAX" using ok by (simp add: request_ok_def head_def)
    then have len: "length (head @ x) < REDP2P_HTTP_BUF_MAX" using assms(2) by (simp add: x_def macros)
    have "header_fold (int REDP2P_HTTP_BODY_MAX) hs (- 1, False) = Some (int (length body), False)"
      unfolding hs_def by (rule client_header_fold [OF assms(2)]) (simp add: macros)
    then have "redp2p_index_request_parse (head @ x) 16 128 (REDP2P_HTTP_BODY_MAX + 1)
        = (if length x < length body then Incomplete else Complete ''/redp2p/'' (take (length body) x))"
      using request_parse_block [OF ok, of x REDP2P_HTTP_BODY_MAX] len assms(2) by (simp add: head_def body_outcome_def)
    then show ?thesis using False assms(3) by (simp add: h x_def) auto
  qed
qed

text \<open>
  C26: however the network cuts a request that \<^verbatim>\<open>redp2p_http_client\<close> writes, the index waits until
  its last byte has arrived and then sees exactly the path and the body that were sent: every
  proper prefix is incomplete (never refused, never taken for a shorter request), the whole is
  complete.
\<close>

theorem request_reassembled:
  assumes "host_ok host" "length body \<le> REDP2P_HTTP_BODY_MAX"
    "k \<le> length (request_head host (length body) @ body)"
  shows "redp2p_index_request_parse (take k (request_head host (length body) @ body)) 16 128 (REDP2P_HTTP_BODY_MAX + 1)
    = (if k < length (request_head host (length body) @ body) then Incomplete else Complete ''/redp2p/'' body)"
  by (rule client_request_parse [OF assms])

theorem request_reassembled_witness:
  "redp2p_index_request_parse (take 100 (request_head ''index.example'' 13 @ [CHR 0x7B] @ ''qopq:qlistq'' @ [CHR 0x7D])) 16 128
     (REDP2P_HTTP_BODY_MAX + 1) = Incomplete
   \<and> redp2p_index_request_parse (request_head ''index.example'' 13 @ [CHR 0x7B] @ ''qopq:qlistq'' @ [CHR 0x7D]) 16 128
     (REDP2P_HTTP_BODY_MAX + 1) = Complete ''/redp2p/'' ([CHR 0x7B] @ ''qopq:qlistq'' @ [CHR 0x7D])"
proof -
  define body where "body = [CHR 0x7B] @ ''qopq:qlistq'' @ [CHR 0x7D]"
  have b: "length body = 13" "host_ok ''index.example''" by (simp_all add: body_def host_ok_def CR_def LF_def NUL_def)
  have "100 < length (request_head ''index.example'' 13 @ body)" by (simp add: request_head_def CRLF_def b)
  then show ?thesis
    using request_reassembled [of "''index.example''" body 100]
      request_reassembled [of "''index.example''" body "length (request_head ''index.example'' 13 @ body)"] b
    by (simp add: macros flip: body_def del: append.simps)
qed

lemma request_header_bound:
  assumes "request_header limit l st = Some st'" "limit < 2 ^ 63" "0 \<le> limit" "fst st \<le> limit"
  shows "fst st' \<le> limit"
  using assms by (auto simp: request_header_def redp2p_parse_u_eq split: option.splits if_splits)

lemma request_headers_bound:
  assumes "request_headers limit todo rest st = Some st'" "limit < 2 ^ 63" "0 \<le> limit" "fst st \<le> limit"
  shows "fst st' \<le> limit"
  using assms
proof (induction todo arbitrary: rest st rule: less_induct)
  case (less todo)
  define line where "line = takeWhile (\<lambda>c. c \<noteq> LF) rest"
  define hline where "hline = (if line \<noteq> [] \<and> last line = CR then butlast line else line)"
  note step = less.prems(1) [unfolded request_headers.simps [of limit todo] Let_def, folded line_def, folded hline_def]
  show ?case
  proof (cases "todo = 0 \<or> LF \<notin> set rest \<or> line = [CR]")
    case True
    then show ?thesis using step less.prems(4) by (auto split: if_splits)
  next
    case False
    with step obtain st1 where "request_header limit hline st = Some st1"
      "request_headers limit (todo - (length line + 1)) (drop (length line + 1) rest) st1 = Some st'"
      by (auto split: if_splits option.splits)
    with False show ?thesis
      by (intro less.IH [of "todo - (length line + 1)" "drop (length line + 1) rest" st1])
        (use less.prems request_header_bound in auto)
  qed
qed

text \<open>
  C29: whatever bytes a connection has received, the parser gives a method-checked request whose
  path and body fit the buffers of \<^verbatim>\<open>redp2p_index_process_connections\<close>, or refuses it with 400,
  405, 431 or 501. A content length above the limit is refused with 400: the branch that would
  answer 413 is never taken.
\<close>

theorem request_parse_safe:
  "case redp2p_index_request_parse buf 16 128 (REDP2P_HTTP_BODY_MAX + 1) of Incomplete \<Rightarrow> length buf < REDP2P_HTTP_BUF_MAX
    | Refused status \<Rightarrow> status \<in> {400, 405, 431, 501}
    | Complete path body \<Rightarrow> length path < 128 \<and> length body \<le> REDP2P_HTTP_BODY_MAX"
proof -
  define P :: "request \<Rightarrow> bool" where "P r \<longleftrightarrow>
    (case r of Incomplete \<Rightarrow> length buf < REDP2P_HTTP_BUF_MAX
     | Refused status \<Rightarrow> status \<in> {400, 405, 431, 501}
     | Complete path body \<Rightarrow> length path < 128 \<and> length body \<le> REDP2P_HTTP_BODY_MAX)" for r
  have P: "P (Refused 400)" "P (Refused 405)" "P (Refused 431)" "P (Refused 501)"
    "P Incomplete \<longleftrightarrow> length buf < REDP2P_HTTP_BUF_MAX"
    "P (Complete path body) \<longleftrightarrow> length path < 128 \<and> length body \<le> REDP2P_HTTP_BODY_MAX" for path body
    by (simp_all add: P_def)
  have n: "n \<le> 4096" if "request_headers 4096 todo rest (- 1, False) = Some (n, te)"
    for todo rest n te
    using request_headers_bound [OF that] by simp
  have f: "length path < 128" if "redp2p_parse_field 128 (Some c) t = Some (path, r)" for c t path r
    using that by (auto simp: redp2p_parse_field_def Let_def split: if_splits)
  have "P (redp2p_index_request_parse buf 16 128 (REDP2P_HTTP_BODY_MAX + 1))"
    unfolding redp2p_index_request_parse_def Let_def
    by (simp add: P split: option.split prod.split) (auto simp: macros dest!: n f)
  then show ?thesis by (simp add: P_def)
qed

end
