(* ===== verification/Http_Reply.thy ===== *)
theory Http_Reply
  imports Http_Wire
begin

text \<open>
  The reply direction of the HTTP carrier: what \<^verbatim>\<open>redp2p_http_client\<close> makes of a reply written by
  \<^verbatim>\<open>redp2p_http_write_response\<close>, for every way its bytes are cut into reads, and with it the way of a
  punch request to its target.
\<close>

section \<open>Reading lines and bodies\<close>

lemma sock_read_one: "concat cs = b # t \<Longrightarrow> \<exists>cs'. redp2p_sock_read 1 cs = ([b], cs') \<and> concat cs' = t"
  by (induction "1 :: nat" cs rule: redp2p_sock_read.induct) auto

definition plain :: "string \<Rightarrow> bool" where
  "plain l \<longleftrightarrow> CR \<notin> set l \<and> LF \<notin> set l \<and> redp2p_control_bytes_valid l"

lemma plain_Cons: "plain (b # l) \<longleftrightarrow> b \<noteq> CR \<and> b \<noteq> LF \<and> redp2p_control_bytes_valid [b] \<and> plain l"
  by (auto simp: plain_def redp2p_control_bytes_valid_def)

lemma plain_simps [simp]: "plain []" "plain (x @ y) \<longleftrightarrow> plain x \<and> plain y"
  by (auto simp: plain_def redp2p_control_bytes_valid_def)

lemma plain_dec_text [simp]: "plain (dec_text n)"
proof -
  have "plain t" if "list_all is_digit t" for t
    using that by (induction t) (auto simp: plain_Cons between_def redp2p_control_bytes_valid_def CR_def LF_def)
  then show ?thesis using dec_text_digits .
qed

lemma plain_texts [simp]: "plain ''Content-Type: ''" "plain ''Content-Length: ''" "plain ''Connection: close''" "plain ''HTTP/1.1 ''"
  "plain '' ''" "plain ''application/json''"
  by (simp_all add: plain_Cons redp2p_control_bytes_valid_def CR_def LF_def)

lemma readline_loop_line:
  assumes "plain l" "length buf + length l < cap" "concat cs = l @ CRLF @ rest"
  shows "\<exists>cs'. readline_loop cap tail buf cs = (Inr (buf @ l), cs') \<and> concat cs' = rest"
  using assms
proof (induction l arbitrary: buf cs)
  case Nil
  then obtain cs1 where c1: "redp2p_sock_read 1 cs = ([CR], cs1)" "concat cs1 = LF # rest"
    using sock_read_one [of cs CR "LF # rest"] by (auto simp: CRLF_def)
  then obtain cs2 where "redp2p_sock_read 1 cs1 = ([LF], cs2)" "concat cs2 = rest"
    using sock_read_one by blast
  with c1 show ?case by (subst readline_loop.simps, simp, subst readline_loop.simps, simp)
next
  case (Cons b l)
  then obtain cs1 where c1: "redp2p_sock_read 1 cs = ([b], cs1)" "concat cs1 = l @ CRLF @ rest"
    using sock_read_one [of cs b "l @ CRLF @ rest"] by auto
  have b: "b \<noteq> CR" "b \<noteq> LF" "redp2p_control_bytes_valid [b]" "plain l" using Cons.prems(1) by (simp_all add: plain_Cons)
  have "\<exists>cs'. readline_loop cap tail (buf @ [b]) cs1 = (Inr ((buf @ [b]) @ l), cs') \<and> concat cs' = rest"
    using Cons.prems(2) by (intro Cons.IH b(4) c1(2)) simp
  then show ?case using c1(1) b(1-3) Cons.prems(2) by (subst readline_loop.simps) simp
qed

lemma tcp_readline_line:
  assumes "plain l" "length l < cap" "concat cs = l @ CRLF @ rest"
  shows "\<exists>cs'. redp2p_tcp_readline True cap tail cs = (Inr l, cs') \<and> concat cs' = rest"
  using readline_loop_line [of l "[]" cap cs rest tail] assms by (simp add: redp2p_tcp_readline_def)

lemma body_loop_body:
  assumes "length body \<le> n" "n \<le> length (body @ concat cs)"
  shows "body_loop True tail n body cs = Inr (take n (body @ concat cs))"
  using assms
proof (induction "n - length body" arbitrary: body cs rule: less_induct)
  case less
  show ?case
  proof (cases "length body = n")
    case True
    then show ?thesis by (subst body_loop.simps) simp
  next
    case False
    then have lt: "length body < n" using less.prems by simp
    obtain bs cs' where r: "redp2p_sock_read (n - length body) cs = (bs, cs')" by fastforce
    have c: "concat cs = bs @ concat cs'" by (rule sock_read_concat [OF r])
    have "concat cs \<noteq> []" using lt less.prems by (auto simp del: concat_eq_Nil_conv)
    then have "bs \<noteq> []" using sock_read_Nil [of "n - length body" cs cs'] r lt by auto
    moreover have "length bs \<le> n - length body" using sock_read_length [of "n - length body" cs] r by simp
    ultimately have bs: "0 < length bs" "length bs \<le> n - length body" by simp_all
    then have "body_loop True tail n body cs = body_loop True tail n (body @ bs) cs'"
      using lt r by (subst body_loop.simps) (auto simp: redp2p_http_read_some_def split: list.split)
    moreover have "n - length (body @ bs) < n - length body" using bs(1) lt by (simp only: length_append)
    then have "body_loop True tail n (body @ bs) cs' = Inr (take n ((body @ bs) @ concat cs'))"
      using bs lt less.prems c by (intro less.hyps) auto
    ultimately show ?thesis using c by simp
  qed
qed

section \<open>Reading a reply\<close>

lemma status_line:
  assumes "100 \<le> status" "status < 1000"
  shows "status_code (''HTTP/1.1 '' @ dec_text status @ '' '' @ reason) = Some status"
proof -
  have "length (dec_text status) \<le> 3" using assms by (intro length_dec_text_le) simp_all
  moreover have "3 \<le> length (dec_text status)"
    using assms by (subst dec_text.simps) (simp, subst dec_text.simps, simp add: Suc_le_eq)
  ultimately have l: "length (dec_text status) = 3" by simp
  have "dropWhile (\<lambda>c. c = CHR '' '') (dec_text status @ t) = dec_text status @ t" for t
    using dec_text_digits [of status] by (cases "dec_text status") (auto simp: between_def)
  then show ?thesis using l dec_text_digits [of status] by (simp add: status_code_def dec_from_text)
qed

lemma header_splits:
  "header_split (''Content-Type: '' @ t) = Some (''Content-Type'', dropWhile (\<lambda>c. c = CHR '' '' \<or> c = CHR 0x09) t)"
  "header_split (''Content-Length: '' @ dec_text n) = Some (''Content-Length'', dec_text n)"
  "header_split ''Connection: close'' = Some (''Connection'', ''close'')"
  by (simp_all add: header_split_def dec_text_hd)

lemma header_names:
  "redp2p_ascii_casecmp ''Content-Type'' ''Content-Length'' \<noteq> 0" "redp2p_ascii_casecmp ''Content-Type'' ''Transfer-Encoding'' \<noteq> 0"
  "redp2p_ascii_casecmp ''Content-Length'' ''Content-Length'' = 0"
  "redp2p_ascii_casecmp ''Connection'' ''Content-Length'' \<noteq> 0" "redp2p_ascii_casecmp ''Connection'' ''Transfer-Encoding'' \<noteq> 0"
  by (simp_all add: fold_case_def between_def)

lemma response_headers_other:
  assumes "redp2p_tcp_readline fits REDP2P_HTTP_LINE_MAX tail cs = (Inr line, cs')" "line \<noteq> []"
    "header_split line = Some (name, val)" "length name < 32"
    "redp2p_ascii_casecmp name ''Content-Length'' \<noteq> 0" "redp2p_ascii_casecmp name ''Transfer-Encoding'' \<noteq> 0"
  shows "response_headers fd fits tail phase (Suc i) n cs = response_headers fd fits tail phase i n cs'"
  using assms by simp

lemma response_headers_length:
  assumes "redp2p_tcp_readline fits REDP2P_HTTP_LINE_MAX tail cs = (Inr line, cs')" "line \<noteq> []"
    "header_split line = Some (''Content-Length'', val)" "redp2p_parse_u (Some val) 0 (int REDP2P_HTTP_BODY_MAX) = Some m"
  shows "response_headers fd fits tail phase (Suc i) n cs = response_headers fd fits tail phase i m cs'"
  using assms header_names(3) by simp

lemma response_header_lines:
  assumes "plain ct" "length ct < 240" "len \<le> REDP2P_HTTP_BODY_MAX"
    "concat cs = ''Content-Type: '' @ ct @ CRLF @ ''Content-Length: '' @ dec_text len @ CRLF @ ''Connection: close'' @ CRLF @ CRLF @ rest"
  shows "\<exists>cs'. response_headers fd True tail phase REDP2P_HTTP_HEADERS_MAX (- 1) cs = Inr (int len, cs') \<and> concat cs' = rest"
proof -
  have d4: "length (dec_text len) \<le> 4" using assms(3) by (intro length_dec_text_le) (simp_all add: macros)
  have pl: "plain (''Content-Type: '' @ ct)" "plain (''Content-Length: '' @ dec_text len)" "plain ''Connection: close''" "plain []"
    using assms(1) by (simp_all del: append.simps)
  obtain c1 where 1: "redp2p_tcp_readline True REDP2P_HTTP_LINE_MAX tail cs = (Inr (''Content-Type: '' @ ct), c1)"
    "concat c1 = ''Content-Length: '' @ dec_text len @ CRLF @ ''Connection: close'' @ CRLF @ CRLF @ rest"
    using tcp_readline_line [OF pl(1), of REDP2P_HTTP_LINE_MAX cs] assms(2,4) by (fastforce simp: macros)
  obtain c2 where 2: "redp2p_tcp_readline True REDP2P_HTTP_LINE_MAX tail c1 = (Inr (''Content-Length: '' @ dec_text len), c2)"
    "concat c2 = ''Connection: close'' @ CRLF @ CRLF @ rest"
    using tcp_readline_line [OF pl(2), of REDP2P_HTTP_LINE_MAX c1] d4 1(2) by (fastforce simp: macros)
  obtain c3 where 3: "redp2p_tcp_readline True REDP2P_HTTP_LINE_MAX tail c2 = (Inr ''Connection: close'', c3)" "concat c3 = CRLF @ rest"
    using tcp_readline_line [OF pl(3), of REDP2P_HTTP_LINE_MAX c2] 2(2) by (fastforce simp: macros)
  obtain c4 where 4: "redp2p_tcp_readline True REDP2P_HTTP_LINE_MAX tail c3 = (Inr [], c4)" "concat c4 = rest"
    using tcp_readline_line [OF pl(4), of REDP2P_HTTP_LINE_MAX c3] 3(2) by (fastforce simp: macros)
  have p: "redp2p_parse_u (Some (dec_text len)) 0 (int REDP2P_HTTP_BODY_MAX) = Some (int len)"
    by (rule parse_dec_text [OF assms(3)]) (simp add: macros)
  have n: "REDP2P_HTTP_HEADERS_MAX = Suc (Suc (Suc (Suc 28)))" by (simp add: macros)
  have "response_headers fd True tail phase REDP2P_HTTP_HEADERS_MAX (- 1) cs = Inr (int len, c4)"
  proof -
    have "response_headers fd True tail phase (Suc (Suc (Suc (Suc 28)))) (- 1) cs = response_headers fd True tail phase (Suc (Suc (Suc 28))) (- 1) c1"
      by (rule response_headers_other [OF 1(1) _ header_splits(1)]) (rule header_names | simp)+
    also have "\<dots> = response_headers fd True tail phase (Suc (Suc 28)) (int len) c2"
      by (rule response_headers_length [OF 2(1) _ header_splits(2) p]) simp
    also have "\<dots> = response_headers fd True tail phase (Suc 28) (int len) c3"
      by (rule response_headers_other [OF 3(1) _ header_splits(3)]) (rule header_names | simp)+
    also have "\<dots> = Inr (int len, c4)" by (simp only: response_headers.simps 4(1) prod.case sum.case if_True simp_thms)
    finally show ?thesis unfolding n .
  qed
  with 4(2) show ?thesis by blast
qed

lemma read_response_reply:
  assumes "plain reason" "length reason < 200" "plain ct" "length ct < 240" "length body \<le> REDP2P_HTTP_BODY_MAX"
    "100 \<le> status" "status < 1000" "concat cs = http_head status reason ct (length body) @ body @ extra"
  shows "read_response fd True tail phase cs = Inr (status, body)"
proof -
  have d: "length (dec_text status) \<le> 3" using assms(7) by (intro length_dec_text_le) simp_all
  have pl: "plain (''HTTP/1.1 '' @ dec_text status @ '' '' @ reason)"
    using assms(1) by (simp del: append.simps)
  obtain c1 where 1: "redp2p_tcp_readline True REDP2P_HTTP_LINE_MAX tail cs = (Inr (''HTTP/1.1 '' @ dec_text status @ '' '' @ reason), c1)"
    "concat c1 = ''Content-Type: '' @ ct @ CRLF @ ''Content-Length: '' @ dec_text (length body) @ CRLF @ ''Connection: close'' @ CRLF @ CRLF @ body @ extra"
    using tcp_readline_line [OF pl, of REDP2P_HTTP_LINE_MAX cs] assms(2,8) d by (fastforce simp: macros http_head_def)
  obtain c2 where 2: "response_headers fd True tail phase REDP2P_HTTP_HEADERS_MAX (- 1) c1 = Inr (int (length body), c2)" "concat c2 = body @ extra"
    using response_header_lines [OF assms(3,4,5) 1(2)] by blast
  have "body_loop True tail (length body) [] c2 = Inr body" using body_loop_body [of "[]" "length body" c2 tail] 2(2) by simp
  then show ?thesis by (simp only: read_response_def 1 2 status_line [OF assms(6,7)] prod.case sum.case option.case nat_int)
qed

section \<open>Requests and replies\<close>

text \<open>\<^verbatim>\<open>snprintf\<close> writes text without NUL bytes.\<close>

definition printf_text :: "libc_ops \<Rightarrow> bool" where
  "printf_text libc \<longleftrightarrow> (\<forall>q. NUL \<notin> set (num_fmt libc q))"

lemma escape_no_NUL: "NUL \<notin> set (escape_char c)"
proof -
  have "hex_char n \<noteq> NUL" if "n < 16" for n
  proof
    assume "hex_char n = NUL"
    then have "ord (hex_char n) = (0 :: nat)" by (simp add: NUL_def)
    then show False using that by (auto simp: hex_char_def split: if_splits)
  qed
  then have h: "hex_char (ord c div 16) \<noteq> NUL" "hex_char (ord c mod 16) \<noteq> NUL" if "ord c < (32 :: nat)"
    using that by simp_all
  show ?thesis using h [symmetric]
    by (simp add: escape_char_def BACKSLASH_def DQUOTE_def) (auto simp: NUL_def)
qed

lemma serialize_string_no_NUL: "NUL \<notin> set (json_serialize_string t)"
  using escape_no_NUL by (auto simp: json_serialize_string_def DQUOTE_def NUL_def)

lemma set_join_comma: "set (join_comma xs) \<subseteq> insert (CHR '','') (\<Union> (set ` set xs))"
  by (induction xs rule: join_comma.induct) auto

lemma ser_no_NUL: "printf_text libc \<Longrightarrow> NUL \<notin> set (ser libc v)"
proof (induction libc v rule: json_serialize_to_buffer_r.induct)
  case (1 libc vs)
  then show ?case using set_join_comma [of "map (ser libc) vs"] by (auto simp: NUL_def)
next
  case (2 libc fs)
  have "NUL \<notin> set (ser_field libc f)" if "f \<in> set fs" for f
    using "2.IH" [OF that "2.prems"] serialize_string_no_NUL [of "fst f"] by (auto simp: NUL_def)
  then have "NUL \<notin> insert (CHR '','') (\<Union> (set ` set (map (ser_field libc) fs)))" by (auto simp: NUL_def)
  with set_join_comma have "NUL \<notin> set (join_comma (map (ser_field libc) fs))" by (rule contra_subsetD)
  then show ?case by (simp add: NUL_def)
qed (use serialize_string_no_NUL in \<open>auto simp: printf_text_def NUL_def\<close>)

lemma respond_text:
  assumes "redp2p_index_respond libc status reason v = Some t"
  shows "t = http_head status reason ''application/json'' (length (ser libc v)) @ ser libc v" "length (ser libc v) < REDP2P_BUF"
  using assms
  by (auto simp: redp2p_index_respond_def redp2p_http_write_response_def json_serialize_to_buffer_def
      json_serialization_size_def Let_def split: if_splits)

lemma write_all_ok: "(\<And>t. t \<noteq> [] \<Longrightarrow> 0 < w t) \<Longrightarrow> redp2p_write_all w buf = 0"
proof (induction w buf rule: redp2p_write_all.induct)
  case (1 w buf)
  show ?case
  proof (cases "buf = []")
    case True
    then show ?thesis by (simp add: redp2p_write_all.simps)
  next
    case False
    have "0 < w buf" by (rule "1.prems" [OF False])
    then have "\<not> w buf \<le> 0" by simp
    with False "1.IH" [OF False refl] "1.prems" show ?thesis by (subst redp2p_write_all.simps) (simp add: Let_def)
  qed
qed

text \<open>A request that goes out: the connection is made, the socket takes the bytes, and the text fits.\<close>

definition request_sent :: "http_env \<Rightarrow> libc_ops \<Rightarrow> string \<Rightarrow> 16 word \<Rightarrow> JSON_Value \<Rightarrow> bool" where
  "request_sent henv libc host port req \<longleftrightarrow> host \<noteq> [] \<and> port \<noteq> 0 \<and> 0 \<le> fst (redp2p_tcp_connect (http_sockets henv)) \<and> http_fd_fits henv
     \<and> (\<forall>t. t \<noteq> [] \<longrightarrow> 0 < http_sock_write henv t) \<and> length (ser libc req) \<le> REDP2P_HTTP_BODY_MAX
     \<and> length (request_head host (length (ser libc req))) < REDP2P_HTTP_LINE_MAX * 6"

lemma http_client_eq:
  assumes "request_sent henv libc host port req"
  shows "fst (redp2p_http_client henv libc phase (Some host) port req) =
    (case read_response (fst (redp2p_tcp_connect (http_sockets henv))) True (http_end henv) phase (http_reply henv) of
       Inl e \<Rightarrow> Inl (fst e)
     | Inr (status, reply) \<Rightarrow>
         if status = 200
         then (case json_parse_string libc (c_str reply) of
                 Some (JSONObject obj) \<Rightarrow> Inr (JSONObject obj)
               | _ \<Rightarrow> Inl (REDP2P_EPROTO, Some (phase @ '': malformed index response'')))
         else Inl (request_failed libc phase status reply))"
proof -
  have w: "redp2p_write_all (http_sock_write henv) t = 0" for t
    using assms by (intro write_all_ok) (simp add: request_sent_def)
  obtain fd evs where c: "redp2p_tcp_connect (http_sockets henv) = (fd, evs)" by fastforce
  then have "\<not> fd < 0" using assms by (simp add: request_sent_def)
  then show ?thesis
    using assms w
    by (cases "read_response fd True (http_end henv) phase (http_reply henv)")
      (simp_all add: redp2p_http_client_def request_sent_def json_serialization_size_def json_serialize_to_buffer_def Let_def c
        split: prod.split)
qed

lemma reply_read:
  assumes "redp2p_index_respond libc status reason v = Some text" "concat cs = text @ extra"
    "plain reason" "length reason < 200" "100 \<le> status" "status < 1000"
  shows "read_response fd True tail phase cs = Inr (status, ser libc v)"
  using respond_text [OF assms(1)] assms(2-)
  by (intro read_response_reply [where reason = reason and ct = "''application/json''" and extra = extra]) (simp_all add: macros)

lemma reply_received:
  assumes "request_sent henv (env_libc env) host port req" "reply_object_ok env" "reply_with env obj = Some text"
    "concat (http_reply henv) = text @ extra"
    "json_ok (env_libc env) 0 (JSONObject obj)" "printf_text (env_libc env)"
  shows "fst (redp2p_http_client henv (env_libc env) phase (Some host) port req) = Inr (JSONObject obj)"
proof -
  have "redp2p_index_respond (env_libc env) 200 ''OK'' (JSONObject obj) = Some text"
    using assms(2,3) by (simp add: reply_with_def)
  moreover have "plain ''OK''" by (simp add: plain_Cons redp2p_control_bytes_valid_def CR_def LF_def)
  ultimately have r: "read_response fd True (http_end henv) phase (http_reply henv) = Inr (200, ser (env_libc env) (JSONObject obj))" for fd
    by (intro reply_read [OF _ assms(4)]) (assumption, assumption, (simp (no_asm))+)
  have "c_str (ser (env_libc env) (JSONObject obj)) = ser (env_libc env) (JSONObject obj)"
    by (rule c_str_id [OF ser_no_NUL [OF assms(6)]])
  then show ?thesis
    by (simp only: http_client_eq [OF assms(1)] r parse_text_serialized [OF assms(5)] sum.case prod.case option.case
        JSON_Value.case if_True simp_thms)
qed

text \<open>
  C28: when a handler of the index replies with an object, the client that sent the request gets
  exactly that object back, however the bytes of the reply are cut into reads and whatever
  follows them.
\<close>

theorem client_reads_reply:
  assumes "request_sent henv (env_libc env) host port req" "reply_object_ok env" "reply_with env obj = Some text"
    "concat (http_reply henv) = text @ extra"
    "json_ok (env_libc env) 0 (JSONObject obj)" "printf_text (env_libc env)"
  shows "fst (redp2p_http_client henv (env_libc env) phase (Some host) port req) = Inr (JSONObject obj)"
  using assms by (rule reply_received)

definition demo_http :: "string \<Rightarrow> http_env" where
  "demo_http text = \<lparr>http_sockets = [(- 1, False), (7, False), (8, True)], http_fd_fits = True, http_sock_write = (\<lambda>t. int (length t)),
     http_reply = [take 20 text, [], drop 20 text], http_end = Closed\<rparr>"

lemma demo_request_sent: "request_sent (demo_http text) demo_libc ''h'' 7777 (JSONObject [(''op'', JSONString ''list'')])"
  by (simp add: request_sent_def demo_http_def json_serialize_string_def escape_char_def escape_defs macros request_head_def
      CRLF_def dec_text.simps)

lemma demo_printf_text: "printf_text demo_libc"
proof -
  have "NUL \<notin> set (dec_text n)" for n by (rule dec_text_no) (simp add: between_def NUL_def)
  then show ?thesis by (simp add: printf_text_def demo_libc_def)
qed

theorem client_reads_reply_witness:
  "\<exists>out. reply_with (demo_env 210) [(''ok'', JSONBoolean True)] = Some out
    \<and> fst (redp2p_http_client (demo_http out) demo_libc ''list'' (Some ''h'') 7777 (JSONObject [(''op'', JSONString ''list'')]))
      = Inr (JSONObject [(''ok'', JSONBoolean True)])"
proof -
  have "\<exists>out. reply_with (demo_env 210) [(''ok'', JSONBoolean True)] = Some out"
    by (simp add: reply_with_def redp2p_index_respond_def json_serialization_size_def json_serialize_to_buffer_def Let_def
        redp2p_http_write_response_def json_serialize_string_def escape_char_def escape_defs http_head_def dec_text.simps
        CRLF_def macros demo_env_def)
  then obtain out where t: "reply_with (demo_env 210) [(''ok'', JSONBoolean True)] = Some out" by blast
  have "json_ok demo_libc 0 (JSONObject [(''ok'', JSONBoolean True)])" by (simp add: MAX_NESTING_def NUL_def)
  with t show ?thesis
    using client_reads_reply [of "demo_http out" "demo_env 210" "''h''" 7777 "JSONObject [(''op'', JSONString ''list'')]"
        "[(''ok'', JSONBoolean True)]" out "[]" "''list''"] demo_request_sent demo_printf_text
    by (simp add: demo_http_def demo_env_def)
qed

text \<open>
  When the index answers with an error, the client reports the result code that belongs to the
  error code of the reply, with the code in its message.
\<close>

theorem client_reads_error:
  assumes "request_sent henv (env_libc env) host port req" "redp2p_index_respond_error env status code = Some text"
    "concat (http_reply henv) = text @ extra" "status \<in> {400, 403, 404, 500, 503}"
    "list_all (\<lambda>c. is_lower c \<or> c = CHR ''_'') code" "length code < REDP2P_HTTP_LINE_MAX" "printf_text (env_libc env)"
  shows "fst (redp2p_http_client henv (env_libc env) phase (Some host) port req)
    = Inl (redp2p_http_map_error (Some code), Some (phase @ '': index request failed ('' @ code @ '')''))"
proof -
  define v where "v = JSONObject [(''ok'', JSONBoolean False), (''error'', JSONString code)]"
  have nn: "NUL \<notin> set code" by (rule list_all_notin [OF assms(5)]) (simp add: NUL_def between_def)
  have "is_valid_utf8 code"
    using assms(5) by (intro ascii_valid_utf8) (auto simp: list_all_iff between_def)
  then have "redp2p_index_respond (env_libc env) status (error_reason status) v = Some text"
    using assms(2) nn
    by (simp add: redp2p_index_respond_error_def v_def json_object_set_boolean_def json_object_set_string_def
        json_value_init_string_def split: if_splits)
  moreover have "plain (error_reason status)" "length (error_reason status) < 200" "100 \<le> status" "status < 1000"
    using assms(4) by (auto simp: error_reason_def plain_Cons redp2p_control_bytes_valid_def CR_def LF_def)
  ultimately have r: "read_response fd True (http_end henv) phase (http_reply henv) = Inr (status, ser (env_libc env) v)" for fd
    by (intro reply_read [OF _ assms(3)])
  have c: "c_str (ser (env_libc env) v) = ser (env_libc env) v" by (rule c_str_id [OF ser_no_NUL [OF assms(7)]])
  have j: "json_parse_string (env_libc env) (ser (env_libc env) v) = Some v"
    unfolding v_def by (rule parse_text_serialized) (simp add: MAX_NESTING_def NUL_def)
  have "json_object_get_string [(''ok'', JSONBoolean False), (''error'', JSONString code)] ''error'' = Some code"
    by (simp add: request_defs c_str_id [OF nn])
  then have f: "request_failed (env_libc env) phase status (ser (env_libc env) v)
      = (redp2p_http_map_error (Some code), Some (phase @ '': index request failed ('' @ code @ '')''))"
    using assms(6) nn by (simp only: request_failed_def c j) (simp add: v_def c_str_id Let_def)
  have "status \<noteq> 200" using assms(4) by auto
  then show ?thesis by (simp only: http_client_eq [OF assms(1)] r f sum.case prod.case if_False)
qed

theorem client_reads_error_witness:
  "\<exists>out. redp2p_index_respond_error (demo_env 210) 404 ''not_found'' = Some out
    \<and> fst (redp2p_http_client (demo_http out) demo_libc ''list'' (Some ''h'') 7777 (JSONObject [(''op'', JSONString ''list'')]))
      = Inl (REDP2P_ENOENT, Some ''list: index request failed (not_found)'')"
proof -
  have "is_valid_utf8 ''not_found''" by (rule ascii_valid_utf8) simp
  then have "\<exists>out. redp2p_index_respond_error (demo_env 210) 404 ''not_found'' = Some out"
    by (simp add: redp2p_index_respond_error_def redp2p_index_respond_def json_serialization_size_def json_serialize_to_buffer_def Let_def
        redp2p_http_write_response_def json_serialize_string_def escape_char_def escape_defs http_head_def dec_text.simps
        json_object_set_boolean_def json_object_set_string_def json_value_init_string_def error_reason_def CRLF_def macros demo_env_def)
  then obtain out where t: "redp2p_index_respond_error (demo_env 210) 404 ''not_found'' = Some out" by blast
  have "list_all (\<lambda>c. is_lower c \<or> c = CHR ''_'') ''not_found''" by (simp add: between_def)
  with t show ?thesis
    using client_reads_error [of "demo_http out" "demo_env 210" "''h''" 7777 "JSONObject [(''op'', JSONString ''list'')]"
        404 "''not_found''" out "[]" "''list''"] demo_request_sent demo_printf_text
    by (simp add: demo_http_def demo_env_def redp2p_http_map_error_def macros)
qed

section \<open>A punch request reaches its target\<close>

text \<open>The object of a reply to a poll.\<close>

abbreviation poll_object :: "redp2p_pending_call_t list \<Rightarrow> JSON_Object" where
  "poll_object calls \<equiv> [(''calls'', JSONArray (map (\<lambda>c. JSONObject (call_object c)) calls)), (''ok'', JSONBoolean True)]"

lemma reply_fits:
  assumes "reply_object_ok env" "json_serialization_size (env_libc env) (JSONObject obj) < REDP2P_BUF"
  shows "\<exists>t. reply_with env obj = Some t"
proof -
  let ?b = "ser (env_libc env) (JSONObject obj)"
  have n: "length ?b + 1 < REDP2P_BUF" using assms(2) by (simp add: json_serialization_size_def)
  have "length (dec_text (length ?b)) \<le> 4" by (rule length_dec_text_le) (use n in \<open>simp_all add: macros\<close>)
  moreover have "length (dec_text 200) \<le> 3" by (rule length_dec_text_le) simp_all
  ultimately have "length (http_head 200 ''OK'' ''application/json'' (length ?b)) < REDP2P_HTTP_LINE_MAX * 6"
    by (simp add: http_head_def CRLF_def macros)
  then show ?thesis using assms(1) n
    by (simp add: reply_with_def redp2p_index_respond_def json_serialization_size_def json_serialize_to_buffer_def
        redp2p_http_write_response_def Let_def)
qed

lemma json_ok_set:
  "json_ok libc k (JSONObject obj) \<Longrightarrow> NUL \<notin> set name \<Longrightarrow> json_ok libc (Suc k) v \<Longrightarrow>
    json_ok libc k (JSONObject (json_object_set_value obj name v))"
  by (induction obj name v rule: json_object_set_value.induct) (auto simp: json_object_set_names rev_image_eqI)

lemma json_ok_set_string:
  "json_ok libc k (JSONObject obj) \<Longrightarrow> NUL \<notin> set name \<Longrightarrow> k < MAX_NESTING \<Longrightarrow>
    json_ok libc k (JSONObject (json_object_set_string obj name t))"
  using json_ok_set [of libc k obj name "JSONString t"]
  by (simp add: json_object_set_string_def json_value_init_string_def del: json_ok.simps(2))

lemma candidate_object_ok:
  assumes "\<And>n. number_ok libc (of_nat n)" "k < MAX_NESTING"
  shows "json_ok libc k (JSONObject (candidate_object c))"
proof -
  have "NUL \<notin> set ''type''" "NUL \<notin> set ''addr''" "NUL \<notin> set ''port''" by (simp_all add: NUL_def)
  then show ?thesis unfolding candidate_object_def json_object_set_number_def Let_def
    by (intro json_ok_set json_ok_set_string) (use assms in \<open>simp_all del: of_nat_unat\<close>)
qed

lemma call_object_ok:
  assumes "\<And>n. number_ok libc (of_nat n)" "Suc (Suc k) < MAX_NESTING"
  shows "json_ok libc k (JSONObject (call_object c))"
proof -
  have "NUL \<notin> set ''self_id''" "NUL \<notin> set ''session''" "NUL \<notin> set ''candidates''" by (simp_all add: NUL_def)
  moreover have "json_ok libc (Suc k) (JSONArray (map (\<lambda>c. JSONObject (candidate_object c)) cs))" for cs
    using assms candidate_object_ok [OF assms(1), of "Suc (Suc k)"] by (simp del: json_ok.simps(2))
  ultimately show ?thesis unfolding call_object_def redp2p_index_append_candidates_def Let_def
    by (intro json_ok_set json_ok_set_string) (use assms in simp_all)
qed

lemma poll_object_ok:
  assumes "\<And>n. number_ok libc (of_nat n)"
  shows "json_ok libc 0 (JSONObject (poll_object calls))"
proof -
  have "json_ok libc 2 (JSONObject (call_object c))" for c
    by (rule call_object_ok [OF assms]) (simp add: MAX_NESTING_def)
  then show ?thesis by (simp add: MAX_NESTING_def NUL_def numeral_2_eq_2 del: json_ok.simps(2)) (simp add: MAX_NESTING_def NUL_def)
qed

text \<open>What a reader of a call finds in it.\<close>

lemma call_object_read:
  assumes "redp2p_is_valid_id (caller_id c)" "redp2p_is_session_token (sess_id c)" "list_all (wire_candidate net) (call_candidates c)"
    "length (call_candidates c) \<le> REDP2P_PEER_CANDIDATES_MAX"
  shows "json_object_get_string (call_object c) ''self_id'' = Some (caller_id c)"
    "json_object_get_string (call_object c) ''session'' = Some (sess_id c)"
    "redp2p_index_parse_candidates net (call_object c) ''candidates'' = Some (call_candidates c)"
proof -
  have u: "is_valid_utf8 (caller_id c)" "is_valid_utf8 (sess_id c)" "NUL \<notin> set (caller_id c)" "NUL \<notin> set (sess_id c)"
    using assms(1,2) by (auto simp: token_iffs list_all_iff between_def is_alnum_def NUL_def intro!: alnum_ascii)
  define obj where "obj = [(''self_id'', JSONString (caller_id c)), (''session'', JSONString (sess_id c))]"
  have o: "call_object c = redp2p_index_append_candidates obj ''candidates'' (call_candidates c)"
    using u by (simp add: call_object_def obj_def json_object_set_string_def json_value_init_string_def)
  show "redp2p_index_parse_candidates net (call_object c) ''candidates'' = Some (call_candidates c)"
    unfolding o by (rule appended_candidates [OF assms(3,4)]) (simp add: obj_def)
  show "json_object_get_string (call_object c) ''self_id'' = Some (caller_id c)"
    "json_object_get_string (call_object c) ''session'' = Some (sess_id c)"
    using u by (simp_all add: o redp2p_index_append_candidates_def obj_def request_defs c_str_id)
qed

text \<open>
  C23: a well-formed punch request is accepted while fewer than
  \<^verbatim>\<open>REDP2P_MAX_PENDING_CALLS\<close> fresh calls are pending, and it reaches its target. The index
  answers the request with a reply. At most \<^verbatim>\<open>REDP2P_PENDING_CALL_TTL_S\<close> seconds later, with no
  other request in between, the target polls. When the text of its pending calls fits the buffer of
  a reply, the index does send a reply, and a target that receives it, however the network cuts
  it, gets an object with a call in which it reads the caller, the session and exactly the
  candidates of the request. Then no call for the target is left, and the fresh calls for others stay.
  The C library prints integers faithfully and the candidates are such as a publisher announces.
\<close>

theorem punch_request_delivered:
  assumes "redp2p_index_require_id req ''self_id'' (REDP2P_ID_MAX + 1) = Inr caller"
    "redp2p_index_require_id req ''target_id'' (REDP2P_ID_MAX + 1) = Inr target"
    "json_object_get_string req ''session'' = Some session" "redp2p_is_session_token session"
    "redp2p_index_parse_candidates (env_net env) req ''candidates'' = Some cands"
    "length (pending_calls (redp2p_pending_call_evict_stale (env_clock env 0) ctx)) < REDP2P_MAX_PENDING_CALLS"
    "redp2p_index_require_id_response env' poll (REDP2P_ID_MAX + 1) = Inr target"
    "env_clock env' 0 - env_clock env 1 \<le> REDP2P_PENDING_CALL_TTL_S"
    "list_all (wire_candidate (env_net env)) cands"
    "reply_object_ok env" "reply_object_ok env'" "\<And>n. number_ok (env_libc env') (of_nat n)" "printf_text (env_libc env')"
    "json_serialization_size (env_libc env') (JSONObject (poll_object (fst (redp2p_pending_call_take_all
       (redp2p_pending_call_evict_stale (env_clock env' 0) (snd (redp2p_index_handle_punch_req env ctx req))) target)))) < REDP2P_BUF"
  shows "\<exists>answer ctx' reply ctx'' out calls call.
      redp2p_index_handle_punch_req env ctx req = (Some answer, ctx')
    \<and> redp2p_index_handle_punch_poll env' ctx' poll = (Some reply, ctx'')
    \<and> (\<forall>henv phase host port extra. request_sent henv (env_libc env') host port (JSONObject poll) \<and> concat (http_reply henv) = reply @ extra
        \<longrightarrow> fst (redp2p_http_client henv (env_libc env') phase (Some host) port (JSONObject poll)) = Inr (JSONObject out))
    \<and> json_object_get_array out ''calls'' = Some calls \<and> JSONObject call \<in> set calls
    \<and> json_object_get_string call ''self_id'' = Some caller \<and> json_object_get_string call ''session'' = Some session
    \<and> redp2p_index_parse_candidates (env_net env) call ''candidates'' = Some cands
    \<and> set (pending_calls ctx'') = {c \<in> set (pending_calls ctx'). target_id c \<noteq> target \<and> \<not> call_expired (env_clock env' 0) c}"
proof -
  define new where "new = \<lparr>caller_id = caller, target_id = target, sess_id = session, call_candidates = cands, call_ts = env_clock env 1\<rparr>"
  obtain answer ctx' where 1: "redp2p_index_handle_punch_req env ctx req = (Some answer, ctx')" "new \<in> set (pending_calls ctx')"
  proof -
    have "json_serialization_size (env_libc env) (JSONObject (json_object_set_boolean [] ''ok'' True)) < REDP2P_BUF"
      by (simp add: json_serialization_size_def json_object_set_boolean_def json_serialize_string_def escape_char_def escape_defs macros)
    then show thesis using that reply_fits [OF assms(10)] punch_req_run [OF assms(1-6)] by (fastforce simp: new_def)
  qed
  let ?calls = "fst (redp2p_pending_call_take_all (redp2p_pending_call_evict_stale (env_clock env' 0) ctx') target)"
  obtain reply where 2: "reply_with env' (poll_object ?calls) = Some reply"
    using reply_fits [OF assms(11)] assms(14) by (auto simp: 1)
  obtain ctx'' where 3: "redp2p_index_handle_punch_poll env' ctx' poll = (Some reply, ctx'')"
    "set (pending_calls ctx'') = {c \<in> set (pending_calls ctx'). target_id c \<noteq> target \<and> \<not> call_expired (env_clock env' 0) c}"
    using 2 by (simp add: poll_eq [OF assms(7)] Let_def set_poll)
  have "new \<in> set ?calls" using 1(2) assms(8) by (simp add: set_poll new_def not_less)
  then have mem: "JSONObject (call_object new) \<in> set (map (\<lambda>c. JSONObject (call_object c)) ?calls)" by (auto intro: rev_image_eqI)
  have arr: "json_object_get_array (poll_object ?calls) ''calls'' = Some (map (\<lambda>c. JSONObject (call_object c)) ?calls)"
    by (simp add: json_object_get_array_def json_object_get_value_def)
  have len: "length cands \<le> REDP2P_PEER_CANDIDATES_MAX" using parse_candidates_wf [OF assms(5)] by (simp add: wf_candidates_def)
  have r: "json_object_get_string (call_object new) ''self_id'' = Some caller"
    "json_object_get_string (call_object new) ''session'' = Some session"
    "redp2p_index_parse_candidates (env_net env) (call_object new) ''candidates'' = Some cands"
    using call_object_read [of new "env_net env"] require_id_valid [OF assms(1)] assms(4,9) len by (simp_all add: new_def)
  have c: "fst (redp2p_http_client henv (env_libc env') phase (Some host) port (JSONObject poll)) = Inr (JSONObject (poll_object ?calls))"
    if "request_sent henv (env_libc env') host port (JSONObject poll)" "concat (http_reply henv) = reply @ extra" for henv phase host port extra
    by (rule reply_received [OF that(1) assms(11) 2 that(2) poll_object_ok [OF assms(12)] assms(13)])
  show ?thesis
    by (rule exI [of _ answer], rule exI [of _ ctx'], rule exI [of _ reply], rule exI [of _ ctx''],
        rule exI [of _ "poll_object ?calls"], rule exI [of _ "map (\<lambda>c. JSONObject (call_object c)) ?calls"],
        rule exI [of _ "call_object new"]) (use 1(1) 3 c arr mem r in blast)
qed

text \<open>Caller \<^verbatim>\<open>x\<close> asks for \<^verbatim>\<open>b\<close>, which polls ten seconds later and reads the reply in three pieces.\<close>

theorem punch_request_delivered_witness:
  "\<exists>answer ctx' reply ctx'' out calls call.
      redp2p_index_handle_punch_req (demo_env 210) demo_index demo_punch = (Some answer, ctx')
    \<and> redp2p_index_handle_punch_poll (demo_env 220) ctx' [(''id'', JSONString ''b'')] = (Some reply, ctx'')
    \<and> fst (redp2p_http_client (demo_http reply) demo_libc ''wait'' (Some ''h'') 7777 (JSONObject [(''id'', JSONString ''b'')]))
      = Inr (JSONObject out)
    \<and> json_object_get_array out ''calls'' = Some calls \<and> JSONObject call \<in> set calls
    \<and> json_object_get_string call ''self_id'' = Some ''x'' \<and> json_object_get_string call ''session'' = Some ''s1''"
proof -
  have f: "redp2p_index_require_id demo_punch ''self_id'' (REDP2P_ID_MAX + 1) = Inr ''x''"
    "redp2p_index_require_id demo_punch ''target_id'' (REDP2P_ID_MAX + 1) = Inr ''b''"
    "redp2p_index_require_id_response (demo_env 220) [(''id'', JSONString ''b'')] (REDP2P_ID_MAX + 1) = Inr ''b''"
    by (simp_all add: redp2p_index_require_id_response_def redp2p_index_require_id_def demo_punch_def request_defs
        c_str_def NUL_def redp2p_is_valid_id_def is_alnum_def between_def macros)
  have g: "json_object_get_string demo_punch ''session'' = Some ''s1''" "redp2p_is_session_token ''s1''"
    "redp2p_index_parse_candidates demo_net demo_punch ''candidates'' = Some []"
    by (simp_all add: demo_punch_def request_defs c_str_def NUL_def redp2p_is_session_token_def is_alnum_def between_def
        redp2p_index_parse_candidates_def macros)
  have e: "length (pending_calls (redp2p_pending_call_evict_stale 210 demo_index)) < REDP2P_MAX_PENDING_CALLS"
    "pending_calls (redp2p_pending_call_evict_stale 210 demo_index) = []"
    by (simp_all add: demo_index_simps redp2p_pending_call_evict_stale_def pending_evict_loop.simps macros)
  let ?new = "\<lparr>caller_id = ''x'', target_id = ''b'', sess_id = ''s1'', call_candidates = [], call_ts = 210\<rparr>"
  have "pending_calls (snd (redp2p_index_handle_punch_req (demo_env 210) demo_index demo_punch)) = [?new]"
    using punch_req_run [of demo_punch "''x''" "''b''" "''s1''" "demo_env 210" "[]" demo_index] f g e by (simp add: demo_env_def)
  then have "mset (fst (redp2p_pending_call_take_all (redp2p_pending_call_evict_stale 220
      (snd (redp2p_index_handle_punch_req (demo_env 210) demo_index demo_punch))) ''b'')) = {#?new#}"
    by (simp add: pending_take_frame pending_evict_frame sweep_whole macros)
  then have t: "fst (redp2p_pending_call_take_all (redp2p_pending_call_evict_stale 220
      (snd (redp2p_index_handle_punch_req (demo_env 210) demo_index demo_punch))) ''b'') = [?new]" by simp
  have "is_valid_utf8 ''x''" "is_valid_utf8 ''s1''" by (rule ascii_valid_utf8; simp)+
  then have s: "json_serialization_size demo_libc (JSONObject (poll_object [?new])) < REDP2P_BUF"
    by (simp add: json_serialization_size_def call_object_def json_object_set_string_def json_value_init_string_def
        redp2p_index_append_candidates_def json_serialize_string_def escape_char_def escape_defs macros)
  have sent: "request_sent (demo_http reply) demo_libc ''h'' 7777 (JSONObject [(''id'', JSONString ''b'')])" for reply
    by (simp add: request_sent_def demo_http_def json_serialize_string_def escape_char_def escape_defs macros request_head_def
        CRLF_def dec_text.simps)
  have "\<exists>answer ctx' reply ctx'' out calls call.
      redp2p_index_handle_punch_req (demo_env 210) demo_index demo_punch = (Some answer, ctx')
    \<and> redp2p_index_handle_punch_poll (demo_env 220) ctx' [(''id'', JSONString ''b'')] = (Some reply, ctx'')
    \<and> (\<forall>henv phase host port extra. request_sent henv demo_libc host port (JSONObject [(''id'', JSONString ''b'')])
          \<and> concat (http_reply henv) = reply @ extra
        \<longrightarrow> fst (redp2p_http_client henv demo_libc phase (Some host) port (JSONObject [(''id'', JSONString ''b'')])) = Inr (JSONObject out))
    \<and> json_object_get_array out ''calls'' = Some calls \<and> JSONObject call \<in> set calls
    \<and> json_object_get_string call ''self_id'' = Some ''x'' \<and> json_object_get_string call ''session'' = Some ''s1''"
    using punch_request_delivered [of demo_punch "''x''" "''b''" "''s1''" "demo_env 210" "[]" demo_index "demo_env 220"
        "[(''id'', JSONString ''b'')]"] f g e t s demo_number_ok demo_printf_text
    by (fastforce simp: macros demo_env_def)
  then obtain answer ctx' reply ctx'' out calls call where
    p: "redp2p_index_handle_punch_req (demo_env 210) demo_index demo_punch = (Some answer, ctx')"
      "redp2p_index_handle_punch_poll (demo_env 220) ctx' [(''id'', JSONString ''b'')] = (Some reply, ctx'')"
      "\<And>henv phase host port extra. request_sent henv demo_libc host port (JSONObject [(''id'', JSONString ''b'')])
        \<Longrightarrow> concat (http_reply henv) = reply @ extra
        \<Longrightarrow> fst (redp2p_http_client henv demo_libc phase (Some host) port (JSONObject [(''id'', JSONString ''b'')])) = Inr (JSONObject out)"
      "json_object_get_array out ''calls'' = Some calls" "JSONObject call \<in> set calls"
      "json_object_get_string call ''self_id'' = Some ''x''" "json_object_get_string call ''session'' = Some ''s1''"
    by blast
  have "fst (redp2p_http_client (demo_http reply) demo_libc ''wait'' (Some ''h'') 7777 (JSONObject [(''id'', JSONString ''b'')]))
      = Inr (JSONObject out)"
    by (rule p(3) [OF sent, of reply "[]"]) (simp add: demo_http_def)
  with p show ?thesis by blast
qed

end
