(* ===== verification/Index_Server.thy ===== *)
theory Index_Server
  imports Http_Wire
begin

text \<open>
  The server loop of the index (\<^verbatim>\<open>redp2p_serve_index\<close>): the bounded table of connections, the
  descriptor set, accepting and reading clients, and the loop around \<^verbatim>\<open>select\<close>. What the
  operating system answers during one iteration is a \<open>server_env\<close>: the result of \<^verbatim>\<open>select\<close>,
  of \<^verbatim>\<open>accept\<close>, of each \<^verbatim>\<open>read\<close> (no bytes for an end or an error), the clocks, and whether
  another thread has asked the loop to stop. Obtaining a descriptor, closing one and writing a
  reply are recorded as events, in the order in which they happen; a reply is recorded when the code
  writes it, whether or not the socket takes it (the code ignores that).

  A connection's buffer is the text received so far; \<^verbatim>\<open>buf_len\<close> is its length.
\<close>

section \<open>Connections\<close>

datatype server_event = Open int | Reply int string | Close int

definition redp2p_index_conn_add :: "(nat \<Rightarrow> bool) \<Rightarrow> u64 \<Rightarrow> redp2p \<Rightarrow> int \<Rightarrow> int \<times> redp2p" where
  "redp2p_index_conn_add alloc now_ms ctx fd =
     (if length (conns ctx) \<ge> REDP2P_MAX_CONNECTIONS then (REDP2P_EFULL, ctx)
      else let new_cap = (if length (conns ctx) \<ge> conns_cap ctx
                          then min REDP2P_MAX_CONNECTIONS (if conns_cap ctx = 0 then 16 else conns_cap ctx * 2)
                          else conns_cap ctx)
           in if length (conns ctx) \<ge> conns_cap ctx \<and> \<not> alloc new_cap then (REDP2P_ERROR, ctx)
              else (REDP2P_OK, ctx\<lparr>conns_cap := new_cap,
                      conns := conns ctx @ [\<lparr>conn_fd = fd, conn_buf = [], conn_ts = now_ms\<rparr>]\<rparr>))"

definition redp2p_index_conn_remove :: "redp2p \<Rightarrow> nat \<Rightarrow> redp2p \<times> server_event list" where
  "redp2p_index_conn_remove ctx index =
     (if index \<ge> length (conns ctx) then (ctx, [])
      else (ctx\<lparr>conns := swap_remove index (conns ctx)\<rparr>, [Close (conn_fd (conns ctx ! index))]))"

section \<open>The runtime\<close>

definition FD_SETSIZE :: int where [macros]: "FD_SETSIZE = 1024"

record redp2p_index_runtime_t =
  rt_ctx :: redp2p
  listener_fd :: int
  readable_fds :: "int list"
  max_fd :: int
  platform_initialized :: bool
  last_prune :: u64

definition redp2p_fdset_add :: "int \<Rightarrow> int list \<times> int \<Rightarrow> (int list \<times> int) option" where
  "redp2p_fdset_add fd s =
     (if fd < 0 \<or> fd \<ge> FD_SETSIZE then None else Some (fd # fst s, if fd > snd s then fd else snd s))"

record server_env =
  sv_index :: "nat \<Rightarrow> index_env"
  sv_alloc :: "nat \<Rightarrow> bool"
  sv_clock_s :: "nat \<Rightarrow> u64"
  sv_clock_ms :: "nat \<Rightarrow> u64"
  sv_select :: "int list \<Rightarrow> int \<times> int list"
  sv_accept :: int
  sv_read :: "int \<Rightarrow> nat \<Rightarrow> string"
  sv_stop :: bool

text \<open>The descriptor set is filled from the last connection to the first; one that does not fit is closed.\<close>

fun fdset_conns :: "nat \<Rightarrow> redp2p \<Rightarrow> int list \<times> int \<Rightarrow> redp2p \<times> (int list \<times> int) \<times> server_event list" where
  "fdset_conns 0 ctx s = (ctx, s, [])"
| "fdset_conns (Suc i) ctx s =
     (case redp2p_fdset_add (conn_fd (conns ctx ! i)) s of
        Some s' \<Rightarrow> fdset_conns i ctx s'
      | None \<Rightarrow>
          let (ctx', ev) = redp2p_index_conn_remove
                (redp2p_set_error (Some ''index: client descriptor cannot be represented by fd_set'') ctx) i;
              (ctx'', s'', evs) = fdset_conns i ctx' s
          in (ctx'', s'', ev @ evs))"

definition redp2p_index_prepare_fdset :: "u64 \<Rightarrow> redp2p_index_runtime_t \<Rightarrow> int \<times> redp2p_index_runtime_t \<times> server_event list" where
  "redp2p_index_prepare_fdset now rt =
     (case redp2p_fdset_add (listener_fd rt) ([], - 1) of
        None \<Rightarrow>
          (REDP2P_ENET, rt\<lparr>readable_fds := [], max_fd := - 1,
             rt_ctx := redp2p_set_error (Some ''index: listener cannot be represented by fd_set'') (rt_ctx rt)\<rparr>, [])
      | Some s \<Rightarrow>
          let ctx = redp2p_pending_call_evict_stale now (rt_ctx rt);
              (ctx', s', evs) = fdset_conns (length (conns ctx)) ctx s
          in (REDP2P_OK, rt\<lparr>readable_fds := fst s', max_fd := snd s', rt_ctx := ctx'\<rparr>, evs))"

definition redp2p_index_accept_connection :: "server_env \<Rightarrow> redp2p_index_runtime_t \<Rightarrow> redp2p_index_runtime_t \<times> server_event list" where
  "redp2p_index_accept_connection senv rt =
     (if listener_fd rt \<notin> set (readable_fds rt) \<or> sv_accept senv < 0 then (rt, [])
      else let (rc, ctx) = redp2p_index_conn_add (sv_alloc senv) (sv_clock_ms senv 0) (rt_ctx rt) (sv_accept senv)
           in (rt\<lparr>rt_ctx := ctx\<rparr>, Open (sv_accept senv) # (if rc \<noteq> REDP2P_OK then [Close (sv_accept senv)] else [])))"

section \<open>Serving connections\<close>

definition REDP2P_CTRTOK_ERROR_MALFORMED :: string where
  "REDP2P_CTRTOK_ERROR_MALFORMED = ''REDP2P_CTRTOK_ERROR:malformed''"

definition refusal_reason :: "nat \<Rightarrow> string" where
  "refusal_reason status =
     (if status = 413 then ''Payload Too Large''
      else if status = 405 then ''Method Not Allowed''
      else if status = 501 then ''Not Implemented''
      else if status = 431 then ''Request Header Fields Too Large''
      else ''Bad Request'')"

definition reply_event :: "int \<Rightarrow> string option \<Rightarrow> server_event list" where
  "reply_event fd out = (case out of None \<Rightarrow> [] | Some t \<Rightarrow> [Reply fd t])"

text \<open>One round of the connection loop: the connection at position \<open>i\<close>.\<close>

definition process_connection :: "server_env \<Rightarrow> int list \<Rightarrow> nat \<Rightarrow> redp2p \<Rightarrow> redp2p \<times> server_event list" where
  "process_connection senv readable i ctx =
     (let conn = conns ctx ! i; fd = conn_fd conn
      in if conn_buf conn \<noteq> [] \<and> sv_clock_ms senv (Suc i) - conn_ts conn > of_nat REDP2P_HTTP_TIMEOUT_S * 1000
         then redp2p_index_conn_remove ctx i
         else if fd \<notin> set readable then (ctx, [])
         else let bytes = take (REDP2P_HTTP_BUF_MAX - length (conn_buf conn))
                            (sv_read senv fd (REDP2P_HTTP_BUF_MAX - length (conn_buf conn)))
              in if bytes = [] then redp2p_index_conn_remove ctx i
                 else let buf = conn_buf conn @ bytes;
                          ctx1 = ctx\<lparr>conns := (conns ctx)[i := conn\<lparr>conn_buf := buf\<rparr>]\<rparr>
                      in case redp2p_index_request_parse buf 16 128 (REDP2P_HTTP_BODY_MAX + 1) of
                           Incomplete \<Rightarrow> (ctx1, [])
                         | Complete path body \<Rightarrow>
                             let (out, ctx2) = redp2p_index_dispatch (sv_index senv i) ctx1 (c_str body);
                                 (ctx3, ev) = redp2p_index_conn_remove ctx2 i
                             in (ctx3, reply_event fd out @ ev)
                         | Refused status \<Rightarrow>
                             let out = redp2p_http_write_response status (refusal_reason status) ''text/plain''
                                         REDP2P_CTRTOK_ERROR_MALFORMED;
                                 (ctx3, ev) = redp2p_index_conn_remove ctx1 i
                             in (ctx3, reply_event fd out @ ev))"

fun process_loop :: "server_env \<Rightarrow> int list \<Rightarrow> nat \<Rightarrow> redp2p \<Rightarrow> redp2p \<times> server_event list" where
  "process_loop senv readable 0 ctx = (ctx, [])"
| "process_loop senv readable (Suc i) ctx =
     (let (ctx1, ev) = process_connection senv readable i ctx;
          (ctx2, evs) = process_loop senv readable i ctx1
      in (ctx2, ev @ evs))"

definition redp2p_index_process_connections ::
  "server_env \<Rightarrow> redp2p_index_runtime_t \<Rightarrow> redp2p_index_runtime_t \<times> server_event list" where
  "redp2p_index_process_connections senv rt =
     (let (ctx, evs) = process_loop senv (readable_fds rt) (length (conns (rt_ctx rt))) (rt_ctx rt)
      in (rt\<lparr>rt_ctx := ctx\<rparr>, evs))"

section \<open>The event loop\<close>

text \<open>One iteration: the loop's result if it ends, the new runtime and the events.\<close>

definition loop_iteration ::
  "server_env \<Rightarrow> redp2p_index_runtime_t \<Rightarrow> int option \<times> redp2p_index_runtime_t \<times> server_event list" where
  "loop_iteration senv rt =
     (if stop_requested (rt_ctx rt) then (Some REDP2P_OK, rt, [])
      else let (result, rt1, ev1) = redp2p_index_prepare_fdset (sv_clock_s senv 0) rt
           in if result \<noteq> REDP2P_OK then (Some result, rt1, ev1)
              else let (ready_count, ready) = sv_select senv (readable_fds rt1);
                       rt2 = rt1\<lparr>rt_ctx := (rt_ctx rt1)\<lparr>stop_requested := sv_stop senv\<rparr>\<rparr>
                   in if ready_count < 0
                      then (if stop_requested (rt_ctx rt2) then Some REDP2P_OK else None, rt2, ev1)
                      else if ready_count = 0
                      then (let now = sv_clock_s senv 1
                            in if now - last_prune rt2 \<ge> prune_interval_s (rt_ctx rt2)
                               then (None, rt2\<lparr>rt_ctx := redp2p_evict_stale (sv_clock_s senv 2) (rt_ctx rt2), last_prune := now\<rparr>, ev1)
                               else (None, rt2, ev1))
                      else let rt3 = rt2\<lparr>readable_fds := filter (\<lambda>fd. fd \<in> set ready) (readable_fds rt2)\<rparr>;
                               (rt4, ev2) = redp2p_index_accept_connection senv rt3;
                               (rt5, ev3) = redp2p_index_process_connections senv rt4
                           in (None, rt5, ev1 @ ev2 @ ev3))"

fun redp2p_index_event_loop ::
  "server_env list \<Rightarrow> redp2p_index_runtime_t \<Rightarrow> int option \<times> redp2p_index_runtime_t \<times> server_event list" where
  "redp2p_index_event_loop [] rt = (None, rt, [])"
| "redp2p_index_event_loop (senv # senvs) rt =
     (case loop_iteration senv rt of
        (Some result, rt', ev) \<Rightarrow> (Some result, rt', ev)
      | (None, rt', ev) \<Rightarrow>
          let (result, rt'', evs) = redp2p_index_event_loop senvs rt' in (result, rt'', ev @ evs))"

section \<open>Starting and ending\<close>

text \<open>
  What opening the listener finds: whether the platform starts, the result of each
  \<^verbatim>\<open>getaddrinfo\<close> (the second one for IPv4 only), and for each address the socket and whether
  \<^verbatim>\<open>bind\<close> and \<^verbatim>\<open>listen\<close> succeed.
\<close>

record listen_env =
  ls_platform :: bool
  ls_clock_s :: u64
  ls_resolve :: "bool \<Rightarrow> int"
  ls_gai_text :: "int \<Rightarrow> string"
  ls_sockets :: "bool \<Rightarrow> (int \<times> bool \<times> bool) list"

fun open_listener :: "(int \<times> bool \<times> bool) list \<Rightarrow> int \<times> server_event list" where
  "open_listener [] = (- 1, [])"
| "open_listener ((fd, bound, listening) # rest) =
     (if fd < 0 then open_listener rest
      else if bound \<and> listening then (fd, [Open fd])
      else let (fd', evs) = open_listener rest in (fd', Open fd # Close fd # evs))"

definition redp2p_index_runtime_initialize ::
  "listen_env \<Rightarrow> redp2p \<Rightarrow> string option \<Rightarrow> 16 word \<Rightarrow> int \<times> redp2p_index_runtime_t \<times> server_event list" where
  "redp2p_index_runtime_initialize lenv ctx host port =
     (let rt = \<lparr>rt_ctx = ctx, listener_fd = - 1, readable_fds = [], max_fd = 0, platform_initialized = False,
                last_prune = ls_clock_s lenv\<rparr>;
          host_text = (case host of None \<Rightarrow> ''*'' | Some h \<Rightarrow> h)
      in if \<not> ls_platform lenv
         then (REDP2P_ENET, rt\<lparr>rt_ctx := redp2p_set_error (Some ''index: platform init failed'') ctx\<rparr>, [])
         else let first = ls_resolve lenv False;
                  again = (first \<noteq> 0 \<and> host = None);
                  result = (if again then ls_resolve lenv True else first)
              in if result \<noteq> 0
                 then (REDP2P_ENET,
                   rt\<lparr>rt_ctx := redp2p_set_error (Some (''index: resolve '' @ host_text @ '':'' @ dec_text (unat port) @
                        '' failed ('' @ ls_gai_text lenv result @ '')'')) ctx\<rparr>, [])
                 else let (fd, evs) = open_listener (ls_sockets lenv again)
                      in if fd < 0
                         then (REDP2P_ENET,
                           rt\<lparr>rt_ctx := redp2p_set_error (Some (''index: bind/listen '' @ host_text @ '':'' @
                                dec_text (unat port) @ '' failed'')) ctx\<rparr>, evs)
                         else (REDP2P_OK, rt\<lparr>listener_fd := fd, platform_initialized := True\<rparr>, evs))"

fun close_conns :: "nat \<Rightarrow> redp2p \<Rightarrow> redp2p \<times> server_event list" where
  "close_conns 0 ctx = (ctx, [])"
| "close_conns (Suc i) ctx =
     (let (ctx1, ev) = redp2p_index_conn_remove ctx i; (ctx2, evs) = close_conns i ctx1 in (ctx2, ev @ evs))"

definition redp2p_index_runtime_cleanup :: "redp2p_index_runtime_t \<Rightarrow> redp2p_index_runtime_t \<times> server_event list" where
  "redp2p_index_runtime_cleanup rt =
     (let (ctx, evs) = close_conns (length (conns (rt_ctx rt))) (rt_ctx rt)
      in (rt\<lparr>rt_ctx := ctx\<lparr>stop_requested := False\<rparr>, listener_fd := - 1, platform_initialized := False\<rparr>,
          evs @ (if listener_fd rt < 0 then [] else [Close (listener_fd rt)])))"

text \<open>The whole lifecycle, as far as the given iterations take it.\<close>

definition redp2p_serve_index ::
  "listen_env \<Rightarrow> server_env list \<Rightarrow> redp2p \<Rightarrow> string option \<Rightarrow> 16 word \<Rightarrow> int option \<times> redp2p \<times> server_event list" where
  "redp2p_serve_index lenv senvs ctx host port =
     (let ctx = redp2p_set_error None ctx
      in if stop_requested ctx then (Some REDP2P_OK, ctx\<lparr>stop_requested := False\<rparr>, [])
         else if port = 0
         then (Some REDP2P_EINVAL, redp2p_set_error (Some ''index: port must be between 1 and 65535'') ctx, [])
         else case redp2p_index_runtime_initialize lenv ctx host port of
           (rc, rt, ev0) \<Rightarrow>
             if rc \<noteq> REDP2P_OK then (Some rc, rt_ctx rt, ev0)
             else case redp2p_index_event_loop senvs rt of
               (None, rt', evs) \<Rightarrow> (None, rt_ctx rt', ev0 @ evs)
             | (Some result, rt', evs) \<Rightarrow>
                 let (rt'', evc) = redp2p_index_runtime_cleanup rt' in (Some result, rt_ctx rt'', ev0 @ evs @ evc))"

section \<open>Passing over the connection table\<close>

text \<open>
  Descriptors obtained and closed by a run of events, and the descriptors the table holds. Every
  pass over the table goes from the last position to the first and may remove the connection it
  is at: the positions below it are untouched, so each connection is visited once.
\<close>

fun opened :: "server_event list \<Rightarrow> int list" where
  "opened [] = []"
| "opened (e # es) = (case e of Open fd \<Rightarrow> fd # opened es | _ \<Rightarrow> opened es)"

fun closed :: "server_event list \<Rightarrow> int list" where
  "closed [] = []"
| "closed (e # es) = (case e of Close fd \<Rightarrow> fd # closed es | _ \<Rightarrow> closed es)"

lemma opened_append [simp]: "opened (xs @ ys) = opened xs @ opened ys"
  by (induction xs) (auto split: server_event.split)

lemma closed_append [simp]: "closed (xs @ ys) = closed xs @ closed ys"
  by (induction xs) (auto split: server_event.split)

lemma reply_event_fds [simp]: "opened (reply_event fd out) = []" "closed (reply_event fd out) = []"
  by (simp_all add: reply_event_def split: option.split)

abbreviation held :: "redp2p \<Rightarrow> int multiset" where
  "held ctx \<equiv> mset (map conn_fd (conns ctx))"

definition conns_ok :: "redp2p \<Rightarrow> bool" where
  "conns_ok ctx \<longleftrightarrow> length (conns ctx) \<le> conns_cap ctx \<and> conns_cap ctx \<le> REDP2P_MAX_CONNECTIONS
     \<and> list_all (\<lambda>c. length (conn_buf c) < REDP2P_HTTP_BUF_MAX) (conns ctx)"

definition visits :: "nat \<Rightarrow> redp2p \<Rightarrow> redp2p \<Rightarrow> server_event list \<Rightarrow> bool" where
  "visits i ctx ctx' evs \<longleftrightarrow> i \<le> length (conns ctx') \<and> take i (conns ctx') = take i (conns ctx) \<and> opened evs = []
     \<and> held ctx = held ctx' + mset (closed evs)"

locale table_pass =
  fixes ctx_of :: "'a \<Rightarrow> redp2p"
    and step :: "nat \<Rightarrow> 'a \<Rightarrow> 'a \<times> server_event list"
    and pass :: "nat \<Rightarrow> 'a \<Rightarrow> 'a \<times> server_event list"
    and inv :: "redp2p \<Rightarrow> bool"
  assumes step_visits: "i < length (conns (ctx_of a)) \<Longrightarrow> visits i (ctx_of a) (ctx_of (fst (step i a))) (snd (step i a))"
    and step_inv: "i < length (conns (ctx_of a)) \<Longrightarrow> inv (ctx_of a) \<Longrightarrow> inv (ctx_of (fst (step i a)))"
    and pass_0: "pass 0 a = (a, [])"
    and pass_Suc: "pass (Suc i) a = (let (a1, ev) = step i a; (a2, evs) = pass i a1 in (a2, ev @ evs))"
begin

lemma pass_visits:
  "i \<le> length (conns (ctx_of a)) \<Longrightarrow> visits 0 (ctx_of a) (ctx_of (fst (pass i a))) (snd (pass i a))"
proof (induction i arbitrary: a)
  case 0
  then show ?case by (simp add: pass_0 visits_def)
next
  case (Suc i)
  obtain a1 ev where s: "step i a = (a1, ev)" by fastforce
  obtain a2 evs where p: "pass i a1 = (a2, evs)" by fastforce
  have v: "visits i (ctx_of a) (ctx_of a1) ev" using step_visits [of i a] Suc.prems s by simp
  then have "visits 0 (ctx_of a1) (ctx_of a2) evs" using Suc.IH [of a1] p by (simp add: visits_def)
  with v show ?case by (simp add: pass_Suc s p visits_def)
qed

lemma pass_inv: "i \<le> length (conns (ctx_of a)) \<Longrightarrow> inv (ctx_of a) \<Longrightarrow> inv (ctx_of (fst (pass i a)))"
proof (induction i arbitrary: a)
  case 0
  then show ?case by (simp add: pass_0)
next
  case (Suc i)
  obtain a1 ev where s: "step i a = (a1, ev)" by fastforce
  have "i \<le> length (conns (ctx_of a1))" using step_visits [of i a] Suc.prems s by (simp add: visits_def)
  then show ?case using step_inv [of i a] Suc.prems s Suc.IH [of a1] by (auto simp: pass_Suc split: prod.split)
qed

end

lemma mset_swap_remove:
  assumes "i < length xs"
  shows "mset xs = mset (swap_remove i xs) + {#xs ! i#}"
proof -
  have "mset xs = mset (take i xs) + mset (drop (Suc i) xs) + {#xs ! i#}"
    using id_take_nth_drop [OF assms] by (metis mset_append mset.simps(2) union_assoc union_commute add_mset_add_single)
  also have "mset (take i xs) = mset (take i (swap_remove i xs))" by (simp add: take_swap_remove [OF assms])
  also have "mset (drop (Suc i) xs) = mset (drop i (swap_remove i xs))" by (rule mset_drop_swap_remove [OF assms, symmetric])
  finally show ?thesis by (metis append_take_drop_id mset_append)
qed

lemma wf_index_ext [simp]:
  "wf_index net (ctx\<lparr>conns := cs\<rparr>) = wf_index net ctx" "wf_index net (ctx\<lparr>conns_cap := n\<rparr>) = wf_index net ctx"
  "wf_index net (ctx\<lparr>err_buf := e\<rparr>) = wf_index net ctx" "wf_index net (ctx\<lparr>stop_requested := b\<rparr>) = wf_index net ctx"
  by (simp_all add: wf_index_def wf_ctx_def wf_config_def wf_vips_def wf_peers_def wf_calls_def peers_distinct_def
      redp2p_count_nonvip_peers_def redp2p_find_vip_def)

lemma conn_remove_visits:
  assumes "i < length (conns ctx)"
  shows "visits i ctx (fst (redp2p_index_conn_remove ctx i)) (snd (redp2p_index_conn_remove ctx i))"
proof -
  have "held ctx = image_mset conn_fd (mset (swap_remove i (conns ctx)) + {#conns ctx ! i#})"
    using mset_swap_remove [OF assms] by simp
  then show ?thesis using assms by (simp add: redp2p_index_conn_remove_def visits_def take_swap_remove)
qed

lemma set_swap_remove: "i < length xs \<Longrightarrow> set (swap_remove i xs) \<subseteq> set xs"
  using mset_swap_remove [of i xs] by (metis mset_subset_eq_add_left set_mset_mset set_mset_mono)

lemma conn_remove_inv: "wf_index net (fst (redp2p_index_conn_remove ctx i)) = wf_index net ctx"
  by (simp add: redp2p_index_conn_remove_def)

lemma conn_remove_ok: "conns_ok ctx \<Longrightarrow> conns_ok (fst (redp2p_index_conn_remove ctx i))"
  by (cases "i < length (conns ctx)")
    (auto simp: redp2p_index_conn_remove_def conns_ok_def list_all_iff dest: subsetD [OF set_swap_remove])

interpretation closing: table_pass "\<lambda>ctx. ctx" "\<lambda>i ctx. redp2p_index_conn_remove ctx i" close_conns conns_ok
  by unfold_locales (simp_all add: conn_remove_visits conn_remove_ok)

abbreviation fdset_step :: "nat \<Rightarrow> redp2p \<times> int list \<times> int \<Rightarrow> (redp2p \<times> int list \<times> int) \<times> server_event list" where
  "fdset_step i a \<equiv>
     (case redp2p_fdset_add (conn_fd (conns (fst a) ! i)) (snd a) of
        Some s' \<Rightarrow> ((fst a, s'), [])
      | None \<Rightarrow>
          let (ctx', ev) = redp2p_index_conn_remove
                (redp2p_set_error (Some ''index: client descriptor cannot be represented by fd_set'') (fst a)) i
          in ((ctx', snd a), ev))"

lemma set_error_conns [simp]:
  "conns (redp2p_set_error m ctx) = conns ctx" "conns_ok (redp2p_set_error m ctx) = conns_ok ctx"
  "wf_index net (redp2p_set_error m ctx) = wf_index net ctx" "stop_requested (redp2p_set_error m ctx) = stop_requested ctx"
  by (simp_all add: redp2p_set_error_def conns_ok_def)

interpretation fdset: table_pass fst fdset_step
  "\<lambda>i a. case fdset_conns i (fst a) (snd a) of (ctx', s', evs) \<Rightarrow> ((ctx', s'), evs)" "\<lambda>ctx. conns_ok ctx \<and> wf_index net ctx" for net
proof (unfold_locales, goal_cases)
  case (1 i a)
  then show ?case
    using conn_remove_visits [of i "redp2p_set_error (Some ''index: client descriptor cannot be represented by fd_set'') (fst a)"]
    by (cases "redp2p_fdset_add (conn_fd (conns (fst a) ! i)) (snd a)")
      (auto simp: visits_def Let_def split: prod.split)
next
  case (2 i a)
  then show ?case
    using conn_remove_inv [of net "redp2p_set_error (Some ''index: client descriptor cannot be represented by fd_set'') (fst a)" i]
      conn_remove_ok [of "redp2p_set_error (Some ''index: client descriptor cannot be represented by fd_set'') (fst a)" i]
    by (cases "redp2p_fdset_add (conn_fd (conns (fst a) ! i)) (snd a)") (auto simp: Let_def split: prod.splits)
next
  case (4 i a)
  then show ?case
    by (cases "redp2p_fdset_add (conn_fd (conns (fst a) ! i)) (snd a)") (auto simp: Let_def split: prod.splits)
qed simp

lemma request_parse_incomplete: "redp2p_index_request_parse buf m p b = Incomplete \<Longrightarrow> length buf < REDP2P_HTTP_BUF_MAX"
  by (auto simp: redp2p_index_request_parse_def Let_def macros split: if_splits option.splits prod.splits)

lemma dispatch_conns [simp]: "conns (snd (redp2p_index_dispatch env ctx body)) = conns ctx"
  "conns_cap (snd (redp2p_index_dispatch env ctx body)) = conns_cap ctx"
  using arg_cong [OF dispatch.keeps_frame [of env ctx body], of conns] arg_cong [OF dispatch.keeps_frame [of env ctx body], of conns_cap]
  by (simp_all add: frame_def)

text \<open>The outcomes of one round, with the text the connection has received.\<close>

lemma process_connection_cases:
  fixes i :: nat and ctx :: redp2p
  defines "conn \<equiv> conns ctx ! i"
  obtains (kept) "process_connection senv readable i ctx = (ctx, [])"
  | (dropped) "process_connection senv readable i ctx = redp2p_index_conn_remove ctx i"
  | (waiting) buf where "process_connection senv readable i ctx = (ctx\<lparr>conns := (conns ctx)[i := conn\<lparr>conn_buf := buf\<rparr>]\<rparr>, [])"
      "redp2p_index_request_parse buf 16 128 (REDP2P_HTTP_BODY_MAX + 1) = Incomplete"
  | (answered) buf ctx2 out where
      "process_connection senv readable i ctx =
         (fst (redp2p_index_conn_remove ctx2 i), reply_event (conn_fd conn) out @ snd (redp2p_index_conn_remove ctx2 i))"
      "ctx2 = ctx\<lparr>conns := (conns ctx)[i := conn\<lparr>conn_buf := buf\<rparr>]\<rparr>
       \<or> (\<exists>body. (out, ctx2) = redp2p_index_dispatch (sv_index senv i) (ctx\<lparr>conns := (conns ctx)[i := conn\<lparr>conn_buf := buf\<rparr>]\<rparr>) body)"
proof -
  define bytes where "bytes = take (REDP2P_HTTP_BUF_MAX - length (conn_buf conn))
      (sv_read senv (conn_fd conn) (REDP2P_HTTP_BUF_MAX - length (conn_buf conn)))"
  define ctx1 where "ctx1 = ctx\<lparr>conns := (conns ctx)[i := conn\<lparr>conn_buf := conn_buf conn @ bytes\<rparr>]\<rparr>"
  note def = process_connection_def [of senv readable i ctx, unfolded Let_def, folded conn_def, folded bytes_def, folded ctx1_def]
  consider "conn_buf conn \<noteq> [] \<and> sv_clock_ms senv (Suc i) - conn_ts conn > of_nat REDP2P_HTTP_TIMEOUT_S * 1000
      \<or> (\<not> conn_fd conn \<notin> set readable \<and> bytes = [])"
    | "\<not> (conn_buf conn \<noteq> [] \<and> sv_clock_ms senv (Suc i) - conn_ts conn > of_nat REDP2P_HTTP_TIMEOUT_S * 1000)"
      "conn_fd conn \<notin> set readable"
    | "\<not> (conn_buf conn \<noteq> [] \<and> sv_clock_ms senv (Suc i) - conn_ts conn > of_nat REDP2P_HTTP_TIMEOUT_S * 1000)"
      "conn_fd conn \<in> set readable" "bytes \<noteq> []" by blast
  then show thesis
  proof cases
    case 1
    then show ?thesis using dropped def by (auto split: if_splits)
  next
    case 2
    then show ?thesis using kept def by (auto split: if_splits)
  next
    case 3
    show ?thesis
    proof (cases "redp2p_index_request_parse (conn_buf conn @ bytes) 16 128 (REDP2P_HTTP_BODY_MAX + 1)")
      case Incomplete
      with 3 def have "process_connection senv readable i ctx = (ctx1, [])" by (simp only: if_False request.case simp_thms)
      then show ?thesis using waiting Incomplete unfolding ctx1_def by blast
    next
      case (Refused status)
      define out where "out = redp2p_http_write_response status (refusal_reason status) ''text/plain'' REDP2P_CTRTOK_ERROR_MALFORMED"
      have "process_connection senv readable i ctx =
          (fst (redp2p_index_conn_remove ctx1 i), reply_event (conn_fd conn) out @ snd (redp2p_index_conn_remove ctx1 i))"
        using 3 def Refused by (simp only: if_False request.case simp_thms case_prod_unfold flip: out_def)
      then show ?thesis using answered [of ctx1 out "conn_buf conn @ bytes"] unfolding ctx1_def by blast
    next
      case (Complete path body)
      define d where "d = redp2p_index_dispatch (sv_index senv i) ctx1 (c_str body)"
      have "process_connection senv readable i ctx =
          (fst (redp2p_index_conn_remove (snd d) i), reply_event (conn_fd conn) (fst d) @ snd (redp2p_index_conn_remove (snd d) i))"
        using 3 def Complete by (simp only: if_False request.case simp_thms case_prod_unfold flip: d_def)
      then show ?thesis using answered [of "snd d" "fst d" "conn_buf conn @ bytes"] unfolding d_def ctx1_def by (metis prod.collapse)
    qed
  qed
qed

definition senv_ok :: "inet_ops \<Rightarrow> server_env \<Rightarrow> bool" where
  "senv_ok net senv \<longleftrightarrow> (\<forall>i. env_ok (sv_index senv i) \<and> env_net (sv_index senv i) = net)"

lemma refilled:
  assumes "i < length (conns ctx)" "conns ctx2 = (conns ctx)[i := (conns ctx ! i)\<lparr>conn_buf := buf\<rparr>]"
  shows "held ctx2 = held ctx" "take i (conns ctx2) = take i (conns ctx)" "length (conns ctx2) = length (conns ctx)"
    "conn_fd (conns ctx2 ! i) = conn_fd (conns ctx ! i)"
proof -
  have "map conn_fd (conns ctx2) = map conn_fd (conns ctx)"
    using assms by (intro nth_equalityI) (auto simp: nth_list_update)
  then show "held ctx2 = held ctx" by simp
qed (use assms in simp_all)

interpretation process: table_pass "\<lambda>ctx. ctx" "process_connection senv readable" "process_loop senv readable"
  "\<lambda>ctx. conns_ok ctx \<and> (senv_ok net senv \<longrightarrow> wf_index net ctx)" for senv readable net
proof (unfold_locales, goal_cases)
  case (1 i ctx)
  show ?case
  proof (cases rule: process_connection_cases [of senv readable i ctx])
    case (waiting buf)
    with refilled [OF 1, of "fst (process_connection senv readable i ctx)" buf] 1 show ?thesis by (simp add: visits_def)
  next
    case (answered buf ctx2 out)
    then have "conns ctx2 = (conns ctx)[i := (conns ctx ! i)\<lparr>conn_buf := buf\<rparr>]" by (auto dest!: arg_cong [of _ _ snd])
    note r = refilled [OF 1 this]
    have "visits i ctx2 (fst (redp2p_index_conn_remove ctx2 i)) (snd (redp2p_index_conn_remove ctx2 i))"
      using r 1 by (intro conn_remove_visits) simp
    with answered(1) r show ?thesis by (simp add: visits_def)
  qed (use 1 conn_remove_visits in \<open>simp_all add: visits_def\<close>)
next
  case (2 i ctx)
  show ?case
  proof (cases rule: process_connection_cases [of senv readable i ctx])
    case (waiting buf)
    with 2 request_parse_incomplete [OF waiting(2)] show ?thesis
      by (auto simp: conns_ok_def list_all_length nth_list_update)
  next
    case (answered buf ctx2 out)
    have c2: "conns ctx2 = (conns ctx)[i := (conns ctx ! i)\<lparr>conn_buf := buf\<rparr>]" "conns_cap ctx2 = conns_cap ctx"
      using answered(2) by (auto dest!: arg_cong [of _ _ snd])
    have w: "wf_index net ctx2" if "senv_ok net senv"
    proof -
      have "wf_index net (ctx\<lparr>conns := (conns ctx)[i := (conns ctx ! i)\<lparr>conn_buf := buf\<rparr>]\<rparr>)" using 2 that by simp
      with that dispatch.keeps_wf [of "sv_index senv i" "ctx\<lparr>conns := (conns ctx)[i := (conns ctx ! i)\<lparr>conn_buf := buf\<rparr>]\<rparr>"] answered(2)
      show ?thesis by (auto simp: senv_ok_def dest!: arg_cong [of _ _ snd])
    qed
    have ne: "conns ctx \<noteq> []" using 2(1) by auto
    have "list_all (\<lambda>c. length (conn_buf c) < REDP2P_HTTP_BUF_MAX) (swap_remove i (conns ctx2))"
      unfolding list_all_iff
    proof
      fix c assume "c \<in> set (swap_remove i (conns ctx2))"
      then have "c \<in> set (conns ctx)"
        using 2(1) ne by (auto simp: swap_remove_split c2 last_list_update nth_list_update dest!: in_set_takeD in_set_dropD split: if_splits)
      with 2(2) show "length (conn_buf c) < REDP2P_HTTP_BUF_MAX" by (simp add: conns_ok_def list_all_iff)
    qed
    then have "conns_ok (fst (redp2p_index_conn_remove ctx2 i))"
      using 2 c2 by (auto simp: conns_ok_def redp2p_index_conn_remove_def)
    with answered(1) w show ?thesis by (simp add: conn_remove_inv)
  qed (use 2 conn_remove_inv conn_remove_ok in auto)
qed (simp_all add: Let_def)

section \<open>Iterations\<close>

text \<open>What every stage of an iteration keeps: descriptors are accounted for, and the state stays well-formed.\<close>

definition accounts :: "redp2p \<Rightarrow> redp2p \<Rightarrow> server_event list \<Rightarrow> bool" where
  "accounts ctx ctx' evs \<longleftrightarrow> held ctx + mset (opened evs) = held ctx' + mset (closed evs)"

definition server_ok :: "inet_ops \<Rightarrow> redp2p \<Rightarrow> bool" where
  "server_ok net ctx \<longleftrightarrow> conns_ok ctx \<and> wf_index net ctx"

lemma accounts_trans: "accounts a b xs \<Longrightarrow> accounts b c ys \<Longrightarrow> accounts a c (xs @ ys)"
  by (simp add: accounts_def) (metis (no_types, lifting) add.assoc add.commute)

lemma accounts_refl: "conns a = conns b \<Longrightarrow> accounts a b []"
  by (simp add: accounts_def)

lemma visits_accounts: "visits i a b evs \<Longrightarrow> accounts a b evs"
  by (simp add: visits_def accounts_def)

lemma pending_evict_conns [simp]: "conns (redp2p_pending_call_evict_stale now ctx) = conns ctx"
  "conns_cap (redp2p_pending_call_evict_stale now ctx) = conns_cap ctx"
  by (simp_all add: pending_evict_frame)

lemma evict_conns [simp]: "conns (redp2p_evict_stale now ctx) = conns ctx" "conns_cap (redp2p_evict_stale now ctx) = conns_cap ctx"
  by (simp_all add: evict_stale_eq)

lemma fdset_conns_pass:
  assumes "fdset_conns i ctx s = (ctx', s', evs)" "i \<le> length (conns ctx)"
  shows "accounts ctx ctx' evs" "server_ok net ctx \<Longrightarrow> server_ok net ctx'"
  using fdset.pass_visits [of i "(ctx, s)"] fdset.pass_inv [of i "(ctx, s)" net] assms
  by (auto simp: server_ok_def intro: visits_accounts)

lemma prepare_fdset_keeps:
  assumes "redp2p_index_prepare_fdset now rt = (r, rt', evs)"
  shows "accounts (rt_ctx rt) (rt_ctx rt') evs" "server_ok net (rt_ctx rt) \<Longrightarrow> server_ok net (rt_ctx rt')"
proof -
  let ?ctx = "redp2p_pending_call_evict_stale now (rt_ctx rt)"
  have ok: "server_ok net ?ctx" if "server_ok net (rt_ctx rt)"
    using that by (simp add: server_ok_def conns_ok_def wf_index_pending_evict)
  show "accounts (rt_ctx rt) (rt_ctx rt') evs"
    using assms fdset_conns_pass(1) [of "length (conns ?ctx)" ?ctx]
    by (auto simp: redp2p_index_prepare_fdset_def accounts_def split: option.splits prod.splits)
  show "server_ok net (rt_ctx rt')" if "server_ok net (rt_ctx rt)"
    using assms fdset_conns_pass(2) [of "length (conns ?ctx)" ?ctx _ _ _ _ net] ok that
    by (auto simp: redp2p_index_prepare_fdset_def server_ok_def split: option.splits prod.splits)
qed

lemma accept_keeps:
  assumes "redp2p_index_accept_connection senv rt = (rt', evs)"
  shows "accounts (rt_ctx rt) (rt_ctx rt') evs" "server_ok net (rt_ctx rt) \<Longrightarrow> server_ok net (rt_ctx rt')"
  using assms
  by (auto simp: redp2p_index_accept_connection_def redp2p_index_conn_add_def accounts_def server_ok_def conns_ok_def macros Let_def Suc_le_eq
      split: if_splits prod.splits)

lemma process_connections_keeps:
  assumes "redp2p_index_process_connections senv rt = (rt', evs)"
  shows "accounts (rt_ctx rt) (rt_ctx rt') evs" "senv_ok net senv \<Longrightarrow> server_ok net (rt_ctx rt) \<Longrightarrow> server_ok net (rt_ctx rt')"
  using process.pass_visits [of "length (conns (rt_ctx rt))" "rt_ctx rt" senv "readable_fds rt"]
    process.pass_inv [of "length (conns (rt_ctx rt))" "rt_ctx rt" net senv "readable_fds rt"] assms
  by (auto simp: redp2p_index_process_connections_def server_ok_def split: prod.splits intro: visits_accounts)

lemma stop_flag [simp]: "accounts (ctx\<lparr>stop_requested := b\<rparr>) ctx' evs = accounts ctx ctx' evs"
  "accounts ctx' (ctx\<lparr>stop_requested := b\<rparr>) evs = accounts ctx' ctx evs" "server_ok net (ctx\<lparr>stop_requested := b\<rparr>) = server_ok net ctx"
  by (simp_all add: accounts_def server_ok_def conns_ok_def)

lemma evict_keeps: "accounts a (redp2p_evict_stale now ctx) evs = accounts a ctx evs"
  "server_ok net ctx \<Longrightarrow> server_ok net (redp2p_evict_stale now ctx)"
  by (simp_all add: accounts_def server_ok_def conns_ok_def wf_index_evict)

lemma iteration_keeps:
  assumes "loop_iteration senv rt = (r, rt', evs)"
  shows "accounts (rt_ctx rt) (rt_ctx rt') evs"
    "senv_ok net senv \<Longrightarrow> server_ok net (rt_ctx rt) \<Longrightarrow> server_ok net (rt_ctx rt')"
proof -
  obtain r1 rt1 ev1 where p: "redp2p_index_prepare_fdset (sv_clock_s senv 0) rt = (r1, rt1, ev1)" by (metis prod_cases3)
  obtain n ready where q: "sv_select senv (readable_fds rt1) = (n, ready)" by fastforce
  let ?rt3 = "rt1\<lparr>rt_ctx := (rt_ctx rt1)\<lparr>stop_requested := sv_stop senv\<rparr>,
      readable_fds := filter (\<lambda>fd. fd \<in> set ready) (readable_fds rt1)\<rparr>"
  obtain rt4 ev2 where a: "redp2p_index_accept_connection senv ?rt3 = (rt4, ev2)" by fastforce
  obtain rt5 ev3 where c: "redp2p_index_process_connections senv rt4 = (rt5, ev3)" by fastforce
  note P = prepare_fdset_keeps [OF p] and A = accept_keeps [OF a] and C = process_connections_keeps [OF c]
  have "accounts (rt_ctx rt) (rt_ctx rt5) (ev1 @ ev2 @ ev3)" using P(1) A(1) C(1) by (auto intro!: accounts_trans)
  then show "accounts (rt_ctx rt) (rt_ctx rt') evs"
    using assms P(1) by (auto simp: loop_iteration_def p q a c Let_def evict_keeps accounts_refl split: if_splits)
  show "server_ok net (rt_ctx rt')" if "senv_ok net senv" "server_ok net (rt_ctx rt)"
  proof -
    have s1: "server_ok net (rt_ctx rt1)" by (rule P(2) [OF that(2)])
    then have "server_ok net (rt_ctx rt4)" by (intro A(2)) simp
    then have "server_ok net (rt_ctx rt5)" by (rule C(2) [OF that(1)])
    with s1 assms that show ?thesis
      by (auto simp: loop_iteration_def p q a c Let_def evict_keeps split: if_splits)
  qed
qed

lemma event_loop_accounts:
  "redp2p_index_event_loop senvs rt = (r, rt', evs) \<Longrightarrow> accounts (rt_ctx rt) (rt_ctx rt') evs"
proof (induction senvs arbitrary: rt r rt' evs)
  case (Cons senv senvs)
  obtain r1 rt1 ev1 where i: "loop_iteration senv rt = (r1, rt1, ev1)" by (metis prod_cases3)
  obtain r2 rt2 ev2 where l: "redp2p_index_event_loop senvs rt1 = (r2, rt2, ev2)" by (metis prod_cases3)
  show ?case
    using Cons.prems iteration_keeps(1) [OF i] accounts_trans [OF iteration_keeps(1) [OF i] Cons.IH [OF l]] i l
    by (auto split: option.splits)
qed (simp add: accounts_def)

lemma open_listener_accounts: "open_listener xs = (fd, evs) \<Longrightarrow>
   mset (opened evs) = mset (closed evs) + (if fd < 0 then {#} else {#fd#})"
  by (induction xs arbitrary: evs rule: open_listener.induct) (auto split: if_splits prod.splits)

lemma initialize_accounts:
  assumes "redp2p_index_runtime_initialize lenv ctx host port = (rc, rt, evs)"
  shows "rc = REDP2P_OK \<or> rc = REDP2P_ENET" "conns (rt_ctx rt) = conns ctx"
    "mset (opened evs) = mset (closed evs) + (if rc = REDP2P_OK then {#listener_fd rt#} else {#})"
    "rc = REDP2P_OK \<Longrightarrow> \<not> listener_fd rt < 0" "rc = REDP2P_OK \<Longrightarrow> rt_ctx rt = ctx"
  using assms open_listener_accounts
  by (fastforce simp: redp2p_index_runtime_initialize_def Let_def macros split: if_splits prod.splits)+

lemma iteration_listener: "loop_iteration senv rt = (r, rt', evs) \<Longrightarrow> listener_fd rt' = listener_fd rt"
  by (auto simp: loop_iteration_def redp2p_index_prepare_fdset_def redp2p_index_accept_connection_def
      redp2p_index_process_connections_def Let_def split: if_splits prod.splits option.splits)

lemma event_loop_listener: "redp2p_index_event_loop senvs rt = (r, rt', evs) \<Longrightarrow> listener_fd rt' = listener_fd rt"
proof (induction senvs arbitrary: rt r rt' evs)
  case (Cons senv senvs)
  obtain r1 rt1 ev1 where i: "loop_iteration senv rt = (r1, rt1, ev1)" by (metis prod_cases3)
  obtain r2 rt2 ev2 where l: "redp2p_index_event_loop senvs rt1 = (r2, rt2, ev2)" by (metis prod_cases3)
  show ?case using Cons.prems Cons.IH [OF l] iteration_listener [OF i] i l by (auto split: option.splits)
qed simp

lemma cleanup_accounts:
  assumes "redp2p_index_runtime_cleanup rt = (rt', evs)" "\<not> listener_fd rt < 0"
  shows "conns (rt_ctx rt') = []" "opened evs = []" "mset (closed evs) = held (rt_ctx rt) + {#listener_fd rt#}"
proof -
  have empty: "conns (fst (close_conns (length (conns ctx)) ctx)) = []" for ctx
  proof (induction "length (conns ctx)" arbitrary: ctx)
    case (Suc n)
    have "n = length (conns (fst (redp2p_index_conn_remove ctx n)))" using Suc(2) [symmetric] by (simp add: redp2p_index_conn_remove_def)
    from Suc(1) [OF this] this [symmetric] Suc(2) [symmetric] show ?case by (auto split: prod.splits)
  qed simp
  obtain ctx ev where c: "close_conns (length (conns (rt_ctx rt))) (rt_ctx rt) = (ctx, ev)" by fastforce
  have v: "visits 0 (rt_ctx rt) ctx ev" using closing.pass_visits [of "length (conns (rt_ctx rt))" "rt_ctx rt"] c by simp
  have e: "conns ctx = []" using empty [of "rt_ctx rt"] c by simp
  show "conns (rt_ctx rt') = []" "opened evs = []" "mset (closed evs) = held (rt_ctx rt) + {#listener_fd rt#}"
    using assms c v e by (auto simp: redp2p_index_runtime_cleanup_def visits_def)
qed

text \<open>
  C2: the index leaks no descriptor and closes none twice: when \<^verbatim>\<open>redp2p_serve_index\<close> returns,
  whatever the clients, \<^verbatim>\<open>select\<close>, \<^verbatim>\<open>accept\<close> and \<^verbatim>\<open>read\<close> did meanwhile and on every error path,
  the descriptors it has obtained (listener attempts and accepted clients) are exactly the ones
  it has closed, and its connection table is empty.
\<close>

theorem serve_index_descriptors:
  assumes "redp2p_serve_index lenv senvs ctx host port = (Some r, ctx', evs)" "conns ctx = []"
  shows "mset (opened evs) = mset (closed evs) \<and> conns ctx' = []"
proof -
  obtain rc rt ev0 where i: "redp2p_index_runtime_initialize lenv (redp2p_set_error None ctx) host port = (rc, rt, ev0)"
    by (metis prod_cases3)
  obtain r1 rt1 ev1 where l: "redp2p_index_event_loop senvs rt = (r1, rt1, ev1)" by (metis prod_cases3)
  obtain rt2 ev2 where c: "redp2p_index_runtime_cleanup rt1 = (rt2, ev2)" by fastforce
  note I = initialize_accounts [OF i]
  show ?thesis
  proof (cases "rc = REDP2P_OK")
    case True
    have "\<not> listener_fd rt1 < 0" using I(4) True event_loop_listener [OF l] by simp
    note C = cleanup_accounts [OF c this]
    show ?thesis
      using assms I True event_loop_accounts [OF l] event_loop_listener [OF l] C
      by (auto simp: redp2p_serve_index_def Let_def i l c accounts_def split: if_splits option.splits)
  next
    case False
    then show ?thesis using assms I by (auto simp: redp2p_serve_index_def Let_def i split: if_splits)
  qed
qed

section \<open>Reachable states\<close>

inductive served :: "inet_ops \<Rightarrow> redp2p_index_runtime_t \<Rightarrow> bool" for net where
  start: "wf_index net ctx \<Longrightarrow> conns ctx = [] \<Longrightarrow> conns_cap ctx \<le> REDP2P_MAX_CONNECTIONS \<Longrightarrow>
    redp2p_index_runtime_initialize lenv ctx host port = (REDP2P_OK, rt, evs) \<Longrightarrow> served net rt"
| iterate: "served net rt \<Longrightarrow> senv_ok net senv \<Longrightarrow> loop_iteration senv rt = (None, rt', evs) \<Longrightarrow> served net rt'"

text \<open>
  C1: at every point of the server's life, after any sequence of iterations with any behaviour
  of the clients and the operating system, the connection table holds at most
  \<^verbatim>\<open>REDP2P_MAX_CONNECTIONS\<close> connections within its allocation, every waiting connection has room
  left in its buffer (so a read of no bytes always means the peer is gone), and the index state
  is well-formed: identifiers unique and valid, seats respected, keys and candidates well-formed,
  at most \<^verbatim>\<open>REDP2P_MAX_PENDING_CALLS\<close> pending calls.
\<close>

theorem served_invariant:
  assumes "served net rt"
  shows "length (conns (rt_ctx rt)) \<le> REDP2P_MAX_CONNECTIONS \<and> length (conns (rt_ctx rt)) \<le> conns_cap (rt_ctx rt)
    \<and> (\<forall>c \<in> set (conns (rt_ctx rt)). length (conn_buf c) < REDP2P_HTTP_BUF_MAX) \<and> wf_index net (rt_ctx rt)"
proof -
  have "server_ok net (rt_ctx rt)"
    using assms
  proof (induction rule: served.induct)
    case (start ctx lenv host port rt evs)
    then have "rt_ctx rt = ctx" using initialize_accounts(5) [OF start(4)] by simp
    with start show ?case by (simp add: server_ok_def conns_ok_def)
  next
    case (iterate rt senv rt' evs)
    then show ?case using iteration_keeps(2) [OF iterate(3)] by simp
  qed
  then show ?thesis by (auto simp: server_ok_def conns_ok_def list_all_iff)
qed

section \<open>Serving a client\<close>

text \<open>
  C27: a client whose request arrives in pieces is served exactly once: as long as its request is
  not complete the connection only grows its buffer, and with the last byte the index handles
  the body that was sent, answers on that connection and closes it.
\<close>

theorem client_request_served:
  fixes host body :: string and ctx :: redp2p
  defines "msg \<equiv> request_head host (length body) @ body"
  assumes "host_ok host" "length body \<le> REDP2P_HTTP_BODY_MAX" "i < length (conns ctx)"
    "conn_buf (conns ctx ! i) = take k msg" "k < length msg" "conn_fd (conns ctx ! i) \<in> set readable"
    "k = 0 \<or> sv_clock_ms senv (Suc i) - conn_ts (conns ctx ! i) \<le> of_nat REDP2P_HTTP_TIMEOUT_S * 1000"
    "sv_read senv (conn_fd (conns ctx ! i)) (REDP2P_HTTP_BUF_MAX - k) = take n (drop k msg)" "0 < n"
  shows "process_connection senv readable i ctx =
    (let ctx1 = ctx\<lparr>conns := (conns ctx)[i := (conns ctx ! i)\<lparr>conn_buf := take (k + n) msg\<rparr>]\<rparr>
     in if k + n < length msg then (ctx1, [])
        else let (out, ctx2) = redp2p_index_dispatch (sv_index senv i) ctx1 (c_str body)
             in (ctx2\<lparr>conns := swap_remove i (conns ctx2)\<rparr>,
                 reply_event (conn_fd (conns ctx ! i)) out @ [Close (conn_fd (conns ctx ! i))]))"
proof -
  define conn where "conn = conns ctx ! i"
  have m: "length msg < REDP2P_HTTP_BUF_MAX"
  proof -
    have "length (request_head host (length body)) \<le> REDP2P_HTTP_LINE_MAX * REDP2P_HTTP_HEADERS_MAX"
      using client_request_ok [OF assms(2,3)] by (simp add: request_ok_def request_head_block)
    then show ?thesis using assms(3) by (simp add: msg_def macros)
  qed
  have kl: "length (take k msg) = k" using assms(6) by simp
  have bytes: "take (REDP2P_HTTP_BUF_MAX - k) (take n (drop k msg)) = take n (drop k msg)"
    using m by (intro take_all) simp
  have buf: "take k msg @ take n (drop k msg) = take (k + n) msg" by (simp add: take_add)
  have ne: "take n (drop k msg) \<noteq> []" using assms(6,10) by simp
  have parse: "redp2p_index_request_parse (take (k + n) msg) 16 128 (REDP2P_HTTP_BODY_MAX + 1)
      = (if k + n < length msg then Incomplete else Complete ''/redp2p/'' body)"
  proof (cases "k + n < length msg")
    case True
    then show ?thesis using client_request_parse [OF assms(2,3), of "k + n"] by (simp add: msg_def)
  next
    case False
    then have "take (k + n) msg = take (length msg) msg" by simp
    with False show ?thesis using client_request_parse [OF assms(2,3), of "length msg"] by (simp add: msg_def)
  qed
  have t: "\<not> (take k msg \<noteq> [] \<and> sv_clock_ms senv (Suc i) - conn_ts (conns ctx ! i) > of_nat REDP2P_HTTP_TIMEOUT_S * 1000)"
    using assms(8) by auto
  have rm: "redp2p_index_conn_remove (snd (redp2p_index_dispatch env (ctx\<lparr>conns := (conns ctx)[i := conn\<lparr>conn_buf := b\<rparr>]\<rparr>) t)) i
      = ((snd (redp2p_index_dispatch env (ctx\<lparr>conns := (conns ctx)[i := conn\<lparr>conn_buf := b\<rparr>]\<rparr>) t))\<lparr>conns :=
          swap_remove i (conns (snd (redp2p_index_dispatch env (ctx\<lparr>conns := (conns ctx)[i := conn\<lparr>conn_buf := b\<rparr>]\<rparr>) t)))\<rparr>,
         [Close (conn_fd conn)])" for env b t
    using assms(4) by (simp add: redp2p_index_conn_remove_def)
  show ?thesis
    unfolding process_connection_def Let_def assms(5) kl assms(9) bytes buf parse if_not_P [OF t]
    using ne assms(7) by (simp add: case_prod_unfold rm [unfolded conn_def])
qed

section \<open>Idle connections\<close>

lemma fdset_conns_fits:
  assumes "\<forall>c \<in> set (conns ctx). 0 \<le> conn_fd c \<and> conn_fd c < FD_SETSIZE" "i \<le> length (conns ctx)"
  shows "\<exists>s'. fdset_conns i ctx s = (ctx, s', [])"
  using assms(2)
proof (induction i arbitrary: s)
  case (Suc i)
  then have "0 \<le> conn_fd (conns ctx ! i) \<and> conn_fd (conns ctx ! i) < FD_SETSIZE" using assms(1) by simp
  with Suc show ?case by (simp add: redp2p_fdset_add_def)
qed simp

lemma process_loop_idle:
  assumes "\<forall>c \<in> set (conns ctx). conn_buf c = [] \<and> conn_fd c \<notin> set readable" "i \<le> length (conns ctx)"
  shows "process_loop senv readable i ctx = (ctx, [])"
  using assms(2) by (induction i) (use assms(1) in \<open>auto simp: process_connection_def Let_def\<close>)

definition silent :: "redp2p_index_conn_t list \<Rightarrow> bool" where
  "silent cs \<longleftrightarrow> length cs = REDP2P_MAX_CONNECTIONS \<and> (\<forall>c \<in> set cs. conn_buf c = [] \<and> 0 \<le> conn_fd c \<and> conn_fd c < FD_SETSIZE)"

definition never_ready :: "redp2p_index_conn_t list \<Rightarrow> server_env \<Rightarrow> bool" where
  "never_ready cs senv \<longleftrightarrow> (\<forall>fds. set (snd (sv_select senv fds)) \<inter> conn_fd ` set cs = {})"

lemma iteration_silent:
  assumes "silent (conns (rt_ctx rt))" "never_ready (conns (rt_ctx rt)) senv" "loop_iteration senv rt = (r, rt', evs)"
  shows "conns (rt_ctx rt') = conns (rt_ctx rt) \<and> (evs = [] \<or> evs = [Open (sv_accept senv), Close (sv_accept senv)])"
proof -
  let ?ctx = "redp2p_pending_call_evict_stale (sv_clock_s senv 0) (rt_ctx rt)"
  have fit: "\<exists>s'. fdset_conns (length (conns (rt_ctx rt))) ?ctx s = (?ctx, s', [])" for s
    using fdset_conns_fits [of ?ctx "length (conns (rt_ctx rt))" s] assms(1) by (simp add: silent_def)
  have idle: "process_loop senv (filter (\<lambda>fd. fd \<in> set (snd (sv_select senv q))) fds) (length (conns ctx)) ctx = (ctx, [])"
    if "conns ctx = conns (rt_ctx rt)" for q fds ctx
    using process_loop_idle [of ctx "filter (\<lambda>fd. fd \<in> set (snd (sv_select senv q))) fds" "length (conns ctx)" senv] that assms(1,2)
    by (force simp: silent_def never_ready_def)
  have full: "redp2p_index_conn_add alloc t ctx fd = (REDP2P_EFULL, ctx)" if "conns ctx = conns (rt_ctx rt)" for alloc t ctx fd
    using that assms(1) by (simp add: redp2p_index_conn_add_def silent_def)
  show ?thesis
  proof (cases "redp2p_fdset_add (listener_fd rt) ([], - 1)")
    case None
    then show ?thesis using assms(3) by (auto simp: loop_iteration_def redp2p_index_prepare_fdset_def macros split: if_splits)
  next
    case (Some s)
    obtain s' where s': "fdset_conns (length (conns (rt_ctx rt))) ?ctx s = (?ctx, s', [])" using fit by blast
    show ?thesis
      using assms(3) idle full
      by (auto simp: loop_iteration_def redp2p_index_prepare_fdset_def Some s' Let_def redp2p_index_accept_connection_def
          redp2p_index_process_connections_def case_prod_unfold macros split: if_splits)
  qed
qed

lemma silent_block:
  assumes "silent (conns (rt_ctx rt))" "\<forall>senv \<in> set senvs. never_ready (conns (rt_ctx rt)) senv"
    "redp2p_index_event_loop senvs rt = (r, rt', evs)"
  shows "conns (rt_ctx rt') = conns (rt_ctx rt) \<and> opened evs = closed evs \<and> (\<forall>fd out. Reply fd out \<notin> set evs)"
  using assms
proof (induction senvs arbitrary: rt r rt' evs)
  case (Cons senv senvs)
  obtain r1 rt1 ev1 where i: "loop_iteration senv rt = (r1, rt1, ev1)" by (metis prod_cases3)
  obtain r2 rt2 ev2 where l: "redp2p_index_event_loop senvs rt1 = (r2, rt2, ev2)" by (metis prod_cases3)
  have s: "conns (rt_ctx rt1) = conns (rt_ctx rt)" "opened ev1 = closed ev1" "\<forall>fd out. Reply fd out \<notin> set ev1"
    using iteration_silent [OF Cons.prems(1) _ i] Cons.prems(2) by auto
  have "conns (rt_ctx rt2) = conns (rt_ctx rt1) \<and> opened ev2 = closed ev2 \<and> (\<forall>fd out. Reply fd out \<notin> set ev2)"
    using Cons.prems(1,2) s(1) by (intro Cons.IH [OF _ _ l]) auto
  then show ?case using Cons.prems(3) s i l by (auto split: option.splits)
qed simp

text \<open>One idle connection among any others: it keeps its entry and its descriptor is not closed.\<close>

definition unsent :: "redp2p_index_conn_t \<Rightarrow> bool" where
  "unsent c \<longleftrightarrow> conn_buf c = [] \<and> 0 \<le> conn_fd c \<and> conn_fd c < FD_SETSIZE"

lemma conn_remove_other:
  assumes "i < length (conns ctx)" "conns ctx ! i \<noteq> c" "c \<in> set (conns ctx)"
  shows "c \<in> set (conns (fst (redp2p_index_conn_remove ctx i)))"
proof -
  have "c \<in># mset (swap_remove i (conns ctx)) + {#conns ctx ! i#}"
    using assms(3) mset_swap_remove [OF assms(1)] by (metis set_mset_mset)
  then have "c \<in> set (swap_remove i (conns ctx))" using assms(2) by auto
  with assms(1) show ?thesis by (simp add: redp2p_index_conn_remove_def)
qed

lemma process_connection_idle:
  assumes "i < length (conns ctx)" "conn_buf c = []" "conn_fd c \<notin> set readable" "c \<in> set (conns ctx)"
  shows "c \<in> set (conns (fst (process_connection senv readable i ctx)))"
proof (cases "conns ctx ! i = c")
  case True
  then show ?thesis using assms by (simp add: process_connection_def Let_def)
next
  case False
  show ?thesis
  proof (cases rule: process_connection_cases [of senv readable i ctx])
    case (waiting buf)
    have "c \<in> set ((conns ctx)[i := x])" for x
      using assms(1,4) False by (metis in_set_conv_nth length_list_update nth_list_update_neq)
    with waiting show ?thesis by simp
  next
    case (answered buf ctx2 out)
    have c2: "conns ctx2 = (conns ctx)[i := (conns ctx ! i)\<lparr>conn_buf := buf\<rparr>]"
      using answered(2) by (auto dest!: arg_cong [of _ _ snd])
    obtain k where k: "k < length (conns ctx)" "conns ctx ! k = c" "k \<noteq> i" using assms(4) False by (metis in_set_conv_nth)
    have "set (swap_remove i ((conns ctx)[i := x])) = set (swap_remove i (conns ctx))" for x
      using assms(1) by (cases "i = length (conns ctx) - 1") (simp_all add: swap_remove_def nth_list_update)
    then have "set (conns (fst (redp2p_index_conn_remove ctx2 i))) = set (conns (fst (redp2p_index_conn_remove ctx i)))"
      using assms(1) by (simp add: redp2p_index_conn_remove_def c2)
    with answered(1) conn_remove_other [OF assms(1) False assms(4)] show ?thesis by simp
  qed (use assms conn_remove_other [OF assms(1) False] in simp_all)
qed

interpretation idle_process: table_pass "\<lambda>ctx. ctx" "process_connection senv readable" "process_loop senv readable"
  "\<lambda>ctx. conn_buf c = [] \<and> conn_fd c \<notin> set readable \<and> c \<in> set (conns ctx)" for senv readable c
  by unfold_locales (simp_all add: process.step_visits process_connection_idle Let_def)

interpretation idle_fdset: table_pass fst fdset_step
  "\<lambda>i a. case fdset_conns i (fst a) (snd a) of (ctx', s', evs) \<Rightarrow> ((ctx', s'), evs)" "\<lambda>ctx. unsent c \<and> c \<in> set (conns ctx)" for c
proof (unfold_locales, goal_cases)
  case (1 i a)
  then show ?case by (rule fdset.step_visits)
next
  case (2 i a)
  let ?e = "redp2p_set_error (Some ''index: client descriptor cannot be represented by fd_set'') (fst a)"
  show ?case
  proof (cases "redp2p_fdset_add (conn_fd (conns (fst a) ! i)) (snd a)")
    case None
    with 2 have "conns (fst a) ! i \<noteq> c" by (auto simp: unsent_def redp2p_fdset_add_def split: if_splits)
    with 2 None conn_remove_other [of i ?e c] show ?thesis by (simp add: Let_def case_prod_unfold)
  qed (use 2 in simp)
qed (rule fdset.pass_0 fdset.pass_Suc)+

lemma accept_idle:
  assumes "redp2p_index_accept_connection senv rt = (rt', ev)" "c \<in> set (conns (rt_ctx rt))"
  shows "c \<in> set (conns (rt_ctx rt')) \<and> set (opened ev) \<subseteq> {sv_accept senv} \<and> readable_fds rt' = readable_fds rt"
  using assms by (auto simp: redp2p_index_accept_connection_def redp2p_index_conn_add_def case_prod_unfold Let_def split: if_splits)

lemma iteration_idle:
  assumes "loop_iteration senv rt = (r, rt', evs)" "unsent c" "c \<in> set (conns (rt_ctx rt))" "never_ready [c] senv"
  shows "c \<in> set (conns (rt_ctx rt')) \<and> set (opened evs) \<subseteq> {sv_accept senv}"
proof -
  let ?ctx = "redp2p_pending_call_evict_stale (sv_clock_s senv 0) (rt_ctx rt)"
  have fit: "c \<in> set (conns ctx') \<and> opened ev = []" if "fdset_conns (length (conns (rt_ctx rt))) ?ctx s = (ctx', s', ev)" for s ctx' s' ev
    using idle_fdset.pass_inv [of "length (conns (rt_ctx rt))" "(?ctx, s)" c]
      idle_fdset.pass_visits [of "length (conns (rt_ctx rt))" "(?ctx, s)"] assms(2,3) that by (simp add: visits_def)
  have served: "c \<in> set (conns ctx') \<and> opened ev = []"
    if "process_loop senv (filter (\<lambda>fd. fd \<in> set (snd (sv_select senv q))) fds) (length (conns ctx)) ctx = (ctx', ev)"
      "c \<in> set (conns ctx)" for q fds ctx ctx' ev
    using idle_process.pass_inv [of "length (conns ctx)" ctx c "filter (\<lambda>fd. fd \<in> set (snd (sv_select senv q))) fds" senv]
      process.pass_visits [of "length (conns ctx)" ctx senv "filter (\<lambda>fd. fd \<in> set (snd (sv_select senv q))) fds"] that assms(2,4)
    by (simp add: visits_def unsent_def never_ready_def)
  obtain r1 rt1 ev1 where p: "redp2p_index_prepare_fdset (sv_clock_s senv 0) rt = (r1, rt1, ev1)" by (metis prod_cases3)
  obtain n ready where q: "sv_select senv (readable_fds rt1) = (n, ready)" by fastforce
  let ?rt3 = "rt1\<lparr>rt_ctx := (rt_ctx rt1)\<lparr>stop_requested := sv_stop senv\<rparr>,
      readable_fds := filter (\<lambda>fd. fd \<in> set ready) (readable_fds rt1)\<rparr>"
  obtain rt4 ev2 where a: "redp2p_index_accept_connection senv ?rt3 = (rt4, ev2)" by fastforce
  obtain rt5 ev3 where d: "redp2p_index_process_connections senv rt4 = (rt5, ev3)" by fastforce
  have P: "c \<in> set (conns (rt_ctx rt1)) \<and> opened ev1 = []"
    using p fit assms(3) by (auto simp: redp2p_index_prepare_fdset_def split: option.splits prod.splits)
  have A: "c \<in> set (conns (rt_ctx rt4)) \<and> set (opened ev2) \<subseteq> {sv_accept senv} \<and> readable_fds rt4 = readable_fds ?rt3"
    using accept_idle [OF a, of c] P by simp
  have "readable_fds rt4 = filter (\<lambda>fd. fd \<in> set (snd (sv_select senv (readable_fds rt1)))) (readable_fds rt1)" using A q by simp
  then have D: "c \<in> set (conns (rt_ctx rt5)) \<and> opened ev3 = []"
    using d A served by (auto simp: redp2p_index_process_connections_def split: prod.splits)
  show ?thesis
    using assms(1,3) P A D by (auto simp: loop_iteration_def p q a d Let_def split: if_splits)
qed

lemma event_loop_idle:
  assumes "redp2p_index_event_loop senvs rt = (r, rt', evs)" "unsent c" "c \<in> set (conns (rt_ctx rt))" "\<forall>senv \<in> set senvs. never_ready [c] senv"
  shows "c \<in> set (conns (rt_ctx rt')) \<and> set (opened evs) \<subseteq> sv_accept ` set senvs"
  using assms
proof (induction senvs arbitrary: rt r rt' evs)
  case (Cons senv senvs)
  obtain r1 rt1 ev1 where i: "loop_iteration senv rt = (r1, rt1, ev1)" by (metis prod_cases3)
  obtain r2 rt2 ev2 where l: "redp2p_index_event_loop senvs rt1 = (r2, rt2, ev2)" by (metis prod_cases3)
  have 1: "c \<in> set (conns (rt_ctx rt1)) \<and> set (opened ev1) \<subseteq> {sv_accept senv}"
    using iteration_idle [OF i Cons.prems(2,3)] Cons.prems(4) by simp
  then have 2: "c \<in> set (conns (rt_ctx rt2)) \<and> set (opened ev2) \<subseteq> sv_accept ` set senvs"
    using Cons.IH [OF l Cons.prems(2)] Cons.prems(4) by simp
  show ?case using Cons.prems(1) 1 2 i l by (auto split: option.splits)
qed simp

lemma idle_not_closed:
  assumes "redp2p_index_event_loop senvs rt = (r, rt', evs)" "unsent c" "c \<in> set (conns (rt_ctx rt))"
    "\<forall>senv \<in> set senvs. never_ready [c] senv \<and> sv_accept senv \<noteq> conn_fd c"
    "filter (\<lambda>d. conn_fd d = conn_fd c) (conns (rt_ctx rt)) = [c]"
  shows "c \<in> set (conns (rt_ctx rt')) \<and> Close (conn_fd c) \<notin> set evs"
proof -
  have e: "c \<in> set (conns (rt_ctx rt'))" "set (opened evs) \<subseteq> sv_accept ` set senvs"
    using event_loop_idle [OF assms(1-3)] assms(4) by blast+
  have "count (mset (map f xs)) a = length (filter (\<lambda>d. f d = a) xs)" for f a and xs :: "redp2p_index_conn_t list"
    by (induction xs) simp_all
  from this [of conn_fd "conns (rt_ctx rt)" "conn_fd c"] have "count (held (rt_ctx rt)) (conn_fd c) = 1" by (simp add: assms(5))
  moreover have "count (mset (opened evs)) (conn_fd c) = 0"
  proof -
    have "conn_fd c \<notin> sv_accept ` set senvs" using assms(4) by (simp add: image_iff) metis
    then have "conn_fd c \<notin> set (opened evs)" using e(2) by (rule contra_subsetD [rotated])
    then show ?thesis by (simp add: count_eq_zero_iff)
  qed
  moreover have "0 < count (held (rt_ctx rt')) (conn_fd c)" using e(1) by (auto simp: count_greater_zero_iff)
  moreover have "count (held (rt_ctx rt)) (conn_fd c) + count (mset (opened evs)) (conn_fd c)
      = count (held (rt_ctx rt')) (conn_fd c) + count (mset (closed evs)) (conn_fd c)"
    using event_loop_accounts [OF assms(1)] by (simp add: accounts_def flip: count_union)
  ultimately have "count (mset (closed evs)) (conn_fd c) = 0" by linarith
  then have "conn_fd c \<notin> set (closed evs)" by (simp add: count_eq_zero_iff)
  moreover have "fd \<in> set (closed evs) \<longleftrightarrow> Close fd \<in> set evs" for fd
    by (induction evs) (auto split: server_event.splits)
  ultimately show ?thesis using e(1) by simp
qed

text \<open>
  C39: the index never closes a connection that stays open and never sends a byte, however long
  and however many others come and go: the timeout applies only to connections with bytes in
  their buffer. (A client that closes its end without having sent anything is closed too: its
  descriptor becomes readable.) Such a connection keeps its entry in the table for as long as the loop
  runs and its descriptor is not closed, given that the system does not hand out the descriptor a
  second time. Once \<^verbatim>\<open>REDP2P_MAX_CONNECTIONS\<close> such clients are connected, every further client is
  closed at once, and no request is answered.
\<close>

theorem idle_connections_block:
  assumes "redp2p_index_event_loop senvs rt = (r, rt', evs)"
  shows "(\<forall>c \<in> set (conns (rt_ctx rt)).
      unsent c \<and> filter (\<lambda>d. conn_fd d = conn_fd c) (conns (rt_ctx rt)) = [c] \<and>
      (\<forall>senv \<in> set senvs. never_ready [c] senv \<and> sv_accept senv \<noteq> conn_fd c)
      \<longrightarrow> c \<in> set (conns (rt_ctx rt')) \<and> Close (conn_fd c) \<notin> set evs) \<and>
    (silent (conns (rt_ctx rt)) \<and> (\<forall>senv \<in> set senvs. never_ready (conns (rt_ctx rt)) senv)
      \<longrightarrow> conns (rt_ctx rt') = conns (rt_ctx rt) \<and> opened evs = closed evs \<and> (\<forall>fd out. Reply fd out \<notin> set evs))"
  using idle_not_closed [OF assms] silent_block [OF _ _ assms] by blast

section \<open>Examples\<close>

definition demo_listen :: listen_env where
  "demo_listen = \<lparr>ls_platform = True, ls_clock_s = 200, ls_resolve = (\<lambda>_. 0), ls_gai_text = (\<lambda>_. []),
     ls_sockets = (\<lambda>_. [(4, False, True), (5, True, True)])\<rparr>"

definition demo_senv :: "int list \<Rightarrow> string \<Rightarrow> bool \<Rightarrow> server_env" where
  "demo_senv ready input stop = \<lparr>sv_index = (\<lambda>_. demo_env 210), sv_alloc = (\<lambda>_. True), sv_clock_s = (\<lambda>_. 210),
     sv_clock_ms = (\<lambda>_. 210000), sv_select = (\<lambda>_. (1, ready)), sv_accept = 6, sv_read = (\<lambda>fd n. input), sv_stop = stop\<rparr>"

lemmas server_defs = redp2p_serve_index_def redp2p_index_runtime_initialize_def loop_iteration_def redp2p_index_prepare_fdset_def
  redp2p_fdset_add_def redp2p_index_accept_connection_def redp2p_index_conn_add_def redp2p_index_process_connections_def
  process_connection_def redp2p_index_runtime_cleanup_def redp2p_index_conn_remove_def redp2p_set_error_def swap_remove_def
  redp2p_pending_call_evict_stale_def demo_listen_def demo_senv_def

theorem serve_index_descriptors_witness:
  "\<exists>ctx' evs. redp2p_serve_index demo_listen [demo_senv [5] [] True, demo_senv [] [] True] demo_ctx None 7777
      = (Some REDP2P_OK, ctx', evs) \<and> mset (opened evs) = mset (closed evs) \<and> evs \<noteq> []"
proof -
  have "\<exists>ctx' evs. redp2p_serve_index demo_listen [demo_senv [5] [] True, demo_senv [] [] True] demo_ctx None 7777
      = (Some REDP2P_OK, ctx', evs) \<and> evs \<noteq> []" "conns demo_ctx = []"
    by (simp_all add: server_defs demo_ctx_def redp2p_open_def pending_evict_loop.simps macros)
  then show ?thesis using serve_index_descriptors by blast
qed

lemma demo_served:
  "served demo_net \<lparr>rt_ctx = demo_ctx, listener_fd = 5, readable_fds = [], max_fd = 0, platform_initialized = True, last_prune = 200\<rparr>"
proof (rule served.start [where ctx = demo_ctx and lenv = demo_listen and host = None and port = 7777 and evs = "[Open 4, Close 4, Open 5]"])
  show "wf_index demo_net demo_ctx"
    by (simp add: wf_index_def wf_ctx_def wf_config_def wf_vips_def wf_peers_def wf_calls_def peers_distinct_def
        redp2p_count_nonvip_peers_def demo_ctx_eq macros)
qed (simp_all add: server_defs demo_ctx_eq macros)

theorem served_invariant_witness:
  "served demo_net \<lparr>rt_ctx = demo_ctx, listener_fd = 5, readable_fds = [], max_fd = 0, platform_initialized = True, last_prune = 200\<rparr>
   \<and> wf_index demo_net demo_ctx"
  using served_invariant [OF demo_served] demo_served by simp

theorem client_request_served_witness:
  "process_connection (demo_senv [6] (request_head ''h'' 1 @ ''x'') False) [6] 0
      (demo_ctx\<lparr>conns := [\<lparr>conn_fd = 6, conn_buf = [], conn_ts = 209000\<rparr>]\<rparr>)
   = (let (out, ctx2) = redp2p_index_dispatch (demo_env 210)
            (demo_ctx\<lparr>conns := [\<lparr>conn_fd = 6, conn_buf = request_head ''h'' 1 @ ''x'', conn_ts = 209000\<rparr>]\<rparr>) ''x''
      in (ctx2\<lparr>conns := swap_remove 0 (conns ctx2)\<rparr>, reply_event 6 out @ [Close 6]))"
proof -
  have "host_ok ''h''" by (simp add: host_ok_def CR_def LF_def NUL_def)
  then show ?thesis
    using client_request_served [of "''h''" "''x''" 0 "demo_ctx\<lparr>conns := [\<lparr>conn_fd = 6, conn_buf = [], conn_ts = 209000\<rparr>]\<rparr>" 0 "[6]"
        "demo_senv [6] (request_head ''h'' 1 @ ''x'') False" "length (request_head ''h'' 1 @ ''x'')"]
    by (simp add: demo_senv_def c_str_def NUL_def macros Let_def)
qed

definition demo_silent :: redp2p_index_runtime_t where
  "demo_silent = \<lparr>rt_ctx = demo_ctx\<lparr>conns := map (\<lambda>i. \<lparr>conn_fd = int i + 10, conn_buf = [], conn_ts = 0\<rparr>) [0..<128], conns_cap := 128\<rparr>,
     listener_fd = 5, readable_fds = [], max_fd = 0, platform_initialized = True, last_prune = 200\<rparr>"

text \<open>A single idle client among the events of another one, and a full table of silent clients.\<close>

definition demo_idle :: redp2p_index_runtime_t where
  "demo_idle = \<lparr>rt_ctx = demo_ctx\<lparr>conns := [\<lparr>conn_fd = 7, conn_buf = [], conn_ts = 0\<rparr>, \<lparr>conn_fd = 8, conn_buf = ''P'', conn_ts = 0\<rparr>], conns_cap := 16\<rparr>,
     listener_fd = 5, readable_fds = [], max_fd = 0, platform_initialized = True, last_prune = 200\<rparr>"

theorem idle_connections_block_witness:
  "(\<exists>r rt' evs. redp2p_index_event_loop [demo_senv [5, 8] [] False, demo_senv [5] [] False] demo_idle = (r, rt', evs)
     \<and> \<lparr>conn_fd = 7, conn_buf = [], conn_ts = 0\<rparr> \<in> set (conns (rt_ctx rt')) \<and> Close 7 \<notin> set evs) \<and>
   (\<exists>r rt' evs. redp2p_index_event_loop [demo_senv [5] [] False, demo_senv [5] [] False] demo_silent = (r, rt', evs)
     \<and> conns (rt_ctx rt') = conns (rt_ctx demo_silent) \<and> opened evs = closed evs)"
proof
  obtain r rt' evs where e: "redp2p_index_event_loop [demo_senv [5, 8] [] False, demo_senv [5] [] False] demo_idle = (r, rt', evs)"
    by (metis prod_cases3)
  have "\<lparr>conn_fd = 7, conn_buf = [], conn_ts = 0\<rparr> \<in> set (conns (rt_ctx rt')) \<and> Close 7 \<notin> set evs"
    using idle_connections_block [OF e, THEN conjunct1, THEN bspec, of "\<lparr>conn_fd = 7, conn_buf = [], conn_ts = 0\<rparr>"]
    by (simp add: demo_idle_def unsent_def never_ready_def demo_senv_def macros)
  with e show "\<exists>r rt' evs. redp2p_index_event_loop [demo_senv [5, 8] [] False, demo_senv [5] [] False] demo_idle = (r, rt', evs)
     \<and> \<lparr>conn_fd = 7, conn_buf = [], conn_ts = 0\<rparr> \<in> set (conns (rt_ctx rt')) \<and> Close 7 \<notin> set evs" by blast
next
  obtain r rt' evs where e: "redp2p_index_event_loop [demo_senv [5] [] False, demo_senv [5] [] False] demo_silent = (r, rt', evs)"
    by (metis prod_cases3)
  have "silent (conns (rt_ctx demo_silent))" by (auto simp: silent_def demo_silent_def macros)
  moreover have "never_ready (conns (rt_ctx demo_silent)) (demo_senv [5] [] False)"
    by (auto simp: never_ready_def demo_silent_def demo_senv_def)
  ultimately have "conns (rt_ctx rt') = conns (rt_ctx demo_silent) \<and> opened evs = closed evs"
    using idle_connections_block [OF e, THEN conjunct2] by simp
  with e show "\<exists>r rt' evs. redp2p_index_event_loop [demo_senv [5] [] False, demo_senv [5] [] False] demo_silent = (r, rt', evs)
     \<and> conns (rt_ctx rt') = conns (rt_ctx demo_silent) \<and> opened evs = closed evs" by blast
qed

end
