(* ===== verification/Kcp.thy ===== *)
theory Kcp
  imports Prelude "HOL-Library.Signed_Division"
begin

text \<open>
  The KCP engine (\<^verbatim>\<open>src/lib/kcp/ikcp.c\<close>) as the tunnel uses it: the control block, segments and
  their wire form, sending, receiving, input of a datagram, flushing, and the update clock.

  The four queues are lists from head to tail, and the counters \<^verbatim>\<open>nsnd_que\<close>, \<^verbatim>\<open>nsnd_buf\<close>,
  \<^verbatim>\<open>nrcv_que\<close>, \<^verbatim>\<open>nrcv_buf\<close> and \<^verbatim>\<open>ackcount\<close> are the lengths of the lists they count. Sequence
  numbers, time stamps and windows stay 32-bit words with wrap-around; \<^verbatim>\<open>IINT32\<close> fields are words
  read with \<open>sint\<close>. The payload of a segment is its list of bytes, \<^verbatim>\<open>len\<close> its length. The tunnel
  installs no congestion hooks (\<^verbatim>\<open>ccops\<close> is NULL) and no log, so their branches are absent;
  segment allocation is taken to succeed (the source aborts or asserts otherwise), the work
  buffers of \<^verbatim>\<open>ikcp_create\<close> and \<^verbatim>\<open>ikcp_setmtu\<close> may fail. What \<^verbatim>\<open>ikcp_output\<close> hands to the
  callback is the list of datagrams an operation returns.
\<close>

unbundle bit_operations_syntax

section \<open>Constants\<close>

definition IKCP_RTO_NDL :: u32 where [macros]: "IKCP_RTO_NDL = 30"
definition IKCP_RTO_MIN :: u32 where [macros]: "IKCP_RTO_MIN = 100"
definition IKCP_RTO_DEF :: u32 where [macros]: "IKCP_RTO_DEF = 200"
definition IKCP_RTO_MAX :: u32 where [macros]: "IKCP_RTO_MAX = 60000"
definition IKCP_CMD_PUSH :: u32 where [macros]: "IKCP_CMD_PUSH = 81"
definition IKCP_CMD_ACK :: u32 where [macros]: "IKCP_CMD_ACK = 82"
definition IKCP_CMD_WASK :: u32 where [macros]: "IKCP_CMD_WASK = 83"
definition IKCP_CMD_WINS :: u32 where [macros]: "IKCP_CMD_WINS = 84"
definition IKCP_ASK_SEND :: u32 where [macros]: "IKCP_ASK_SEND = 1"
definition IKCP_ASK_TELL :: u32 where [macros]: "IKCP_ASK_TELL = 2"
definition IKCP_WND_SND :: u32 where [macros]: "IKCP_WND_SND = 32"
definition IKCP_WND_RCV :: u32 where [macros]: "IKCP_WND_RCV = 128"
definition IKCP_MTU_DEF :: u32 where [macros]: "IKCP_MTU_DEF = 1400"
definition IKCP_INTERVAL :: u32 where [macros]: "IKCP_INTERVAL = 100"
definition IKCP_OVERHEAD :: nat where [macros]: "IKCP_OVERHEAD = 24"
definition IKCP_DEADLINK :: u32 where [macros]: "IKCP_DEADLINK = 20"
definition IKCP_THRESH_INIT :: u32 where [macros]: "IKCP_THRESH_INIT = 2"
definition IKCP_THRESH_MIN :: u32 where [macros]: "IKCP_THRESH_MIN = 2"
definition IKCP_PROBE_INIT :: u32 where [macros]: "IKCP_PROBE_INIT = 5000"
definition IKCP_PROBE_LIMIT :: u32 where [macros]: "IKCP_PROBE_LIMIT = 120000"
definition IKCP_FASTACK_LIMIT :: int where [macros]: "IKCP_FASTACK_LIMIT = 5"

section \<open>Segments and their wire form\<close>

record IKCPSEG =
  seg_conv :: u32
  seg_cmd :: u32
  seg_frg :: u32
  seg_wnd :: u32
  seg_ts :: u32
  seg_sn :: u32
  seg_una :: u32
  seg_resendts :: u32
  seg_rto :: u32
  seg_fastack :: u32
  seg_xmit :: u32
  seg_data :: "byte list"

definition ikcp_encode8u :: "byte \<Rightarrow> byte list" where
  "ikcp_encode8u c = [c]"

definition ikcp_encode16u :: "16 word \<Rightarrow> byte list" where
  "ikcp_encode16u w = [ucast w, ucast (drop_bit 8 w)]"

definition ikcp_encode32u :: "u32 \<Rightarrow> byte list" where
  "ikcp_encode32u l = [ucast l, ucast (drop_bit 8 l), ucast (drop_bit 16 l), ucast (drop_bit 24 l)]"

definition ikcp_decode16u :: "byte list \<Rightarrow> 16 word" where
  "ikcp_decode16u p = ucast (p ! 0) OR push_bit 8 (ucast (p ! 1))"

definition ikcp_decode32u :: "byte list \<Rightarrow> u32" where
  "ikcp_decode32u p =
     ucast (p ! 0) OR push_bit 8 (ucast (p ! 1)) OR push_bit 16 (ucast (p ! 2)) OR push_bit 24 (ucast (p ! 3))"

definition ikcp_encode_seg :: "IKCPSEG \<Rightarrow> byte list" where
  "ikcp_encode_seg seg =
     ikcp_encode32u (seg_conv seg) @ ikcp_encode8u (ucast (seg_cmd seg)) @ ikcp_encode8u (ucast (seg_frg seg)) @
     ikcp_encode16u (ucast (seg_wnd seg)) @ ikcp_encode32u (seg_ts seg) @ ikcp_encode32u (seg_sn seg) @
     ikcp_encode32u (seg_una seg) @ ikcp_encode32u (of_nat (length (seg_data seg)))"

definition imin :: "u32 \<Rightarrow> u32 \<Rightarrow> u32" where
  "imin a b = (if a \<le> b then a else b)"

definition imax :: "u32 \<Rightarrow> u32 \<Rightarrow> u32" where
  "imax a b = (if a \<ge> b then a else b)"

definition ibound :: "u32 \<Rightarrow> u32 \<Rightarrow> u32 \<Rightarrow> u32" where
  "ibound lower middle upper = imin (imax lower middle) upper"

definition itimediff :: "u32 \<Rightarrow> u32 \<Rightarrow> int" where
  "itimediff later earlier = sint (later - earlier)"

section \<open>The control block\<close>

record ikcpcb =
  k_conv :: u32
  k_mtu :: u32
  k_mss :: u32
  k_state :: u32
  k_snd_una :: u32
  k_snd_nxt :: u32
  k_rcv_nxt :: u32
  k_ssthresh :: u32
  k_rx_rttval :: u32
  k_rx_srtt :: u32
  k_rx_rto :: u32
  k_rx_minrto :: u32
  k_snd_wnd :: u32
  k_rcv_wnd :: u32
  k_rmt_wnd :: u32
  k_cwnd :: u32
  k_probe :: u32
  k_current :: u32
  k_interval :: u32
  k_ts_flush :: u32
  k_xmit :: u32
  k_nodelay :: u32
  k_updated :: bool
  k_ts_probe :: u32
  k_probe_wait :: u32
  k_dead_link :: u32
  k_incr :: u32
  k_snd_queue :: "IKCPSEG list"
  k_rcv_queue :: "IKCPSEG list"
  k_snd_buf :: "IKCPSEG list"
  k_rcv_buf :: "IKCPSEG list"
  k_acklist :: "(u32 \<times> u32) list"
  k_fastresend :: int
  k_fastlimit :: int
  k_nocwnd :: int
  k_stream :: int

definition ikcp_create :: "bool \<Rightarrow> u32 \<Rightarrow> ikcpcb option" where
  "ikcp_create alloc_ok conv =
     (if \<not> alloc_ok then None
      else Some \<lparr>k_conv = conv, k_mtu = IKCP_MTU_DEF, k_mss = IKCP_MTU_DEF - of_nat IKCP_OVERHEAD, k_state = 0,
        k_snd_una = 0, k_snd_nxt = 0, k_rcv_nxt = 0, k_ssthresh = IKCP_THRESH_INIT,
        k_rx_rttval = 0, k_rx_srtt = 0, k_rx_rto = IKCP_RTO_DEF, k_rx_minrto = IKCP_RTO_MIN,
        k_snd_wnd = IKCP_WND_SND, k_rcv_wnd = IKCP_WND_RCV, k_rmt_wnd = IKCP_WND_RCV, k_cwnd = 0, k_probe = 0,
        k_current = 0, k_interval = IKCP_INTERVAL, k_ts_flush = IKCP_INTERVAL, k_xmit = 0,
        k_nodelay = 0, k_updated = False, k_ts_probe = 0, k_probe_wait = 0, k_dead_link = IKCP_DEADLINK, k_incr = 0,
        k_snd_queue = [], k_rcv_queue = [], k_snd_buf = [], k_rcv_buf = [], k_acklist = [],
        k_fastresend = 0, k_fastlimit = IKCP_FASTACK_LIMIT, k_nocwnd = 0, k_stream = 0\<rparr>)"

definition ikcp_setmtu :: "bool \<Rightarrow> ikcpcb \<Rightarrow> int \<Rightarrow> int \<times> ikcpcb" where
  "ikcp_setmtu alloc_ok kcp mtu =
     (if mtu < 50 \<or> mtu < int IKCP_OVERHEAD then (- 1, kcp)
      else if \<not> alloc_ok then (- 2, kcp)
      else (0, kcp\<lparr>k_mtu := word_of_int mtu, k_mss := word_of_int mtu - of_nat IKCP_OVERHEAD\<rparr>))"

definition clamp_interval :: "int \<Rightarrow> u32" where
  "clamp_interval interval = word_of_int (if interval > 5000 then 5000 else if interval < 10 then 10 else interval)"

definition ikcp_nodelay :: "ikcpcb \<Rightarrow> int \<Rightarrow> int \<Rightarrow> int \<Rightarrow> int \<Rightarrow> int \<times> ikcpcb" where
  "ikcp_nodelay kcp nodelay interval resend nc =
     (let kcp = (if nodelay \<ge> 0
                 then kcp\<lparr>k_nodelay := word_of_int nodelay,
                          k_rx_minrto := (if nodelay \<noteq> 0 then IKCP_RTO_NDL else IKCP_RTO_MIN)\<rparr> else kcp);
          kcp = (if interval \<ge> 0 then kcp\<lparr>k_interval := clamp_interval interval\<rparr> else kcp);
          kcp = (if resend \<ge> 0 then kcp\<lparr>k_fastresend := resend\<rparr> else kcp);
          kcp = (if nc \<ge> 0 then kcp\<lparr>k_nocwnd := nc\<rparr> else kcp)
      in (0, kcp))"

definition ikcp_wndsize :: "ikcpcb \<Rightarrow> int \<Rightarrow> int \<Rightarrow> int \<times> ikcpcb" where
  "ikcp_wndsize kcp sndwnd rcvwnd =
     (let kcp = (if sndwnd > 0 then kcp\<lparr>k_snd_wnd := word_of_int sndwnd\<rparr> else kcp);
          kcp = (if rcvwnd > 0 then kcp\<lparr>k_rcv_wnd := imax (word_of_int rcvwnd) IKCP_WND_RCV\<rparr> else kcp)
      in (0, kcp))"

definition ikcp_waitsnd :: "ikcpcb \<Rightarrow> nat" where
  "ikcp_waitsnd kcp = length (k_snd_buf kcp) + length (k_snd_queue kcp)"

section \<open>Receiving\<close>

text \<open>The loop shared by \<^verbatim>\<open>ikcp_recv\<close> and \<^verbatim>\<open>ikcp_parse_data\<close>: segments in sequence move to the queue.\<close>

function move_ready :: "ikcpcb \<Rightarrow> ikcpcb" where
  "move_ready kcp =
     (case k_rcv_buf kcp of
        [] \<Rightarrow> kcp
      | seg # rest \<Rightarrow>
          if seg_sn seg = k_rcv_nxt kcp \<and> length (k_rcv_queue kcp) < unat (k_rcv_wnd kcp)
          then move_ready (kcp\<lparr>k_rcv_buf := rest, k_rcv_queue := k_rcv_queue kcp @ [seg], k_rcv_nxt := k_rcv_nxt kcp + 1\<rparr>)
          else kcp)"
  by pat_completeness auto
termination by (relation "measure (\<lambda>kcp. length (k_rcv_buf kcp))") auto

declare move_ready.simps [simp del]

definition ikcp_peeksize :: "ikcpcb \<Rightarrow> int" where
  "ikcp_peeksize kcp =
     (case k_rcv_queue kcp of
        [] \<Rightarrow> - 1
      | seg # rest \<Rightarrow>
          if seg_frg seg = 0 then int (length (seg_data seg))
          else if length (k_rcv_queue kcp) < unat (seg_frg seg + 1) then - 1
          else int (length (concat (map seg_data (takeWhile (\<lambda>s. seg_frg s \<noteq> 0) (k_rcv_queue kcp) @
                 take 1 (dropWhile (\<lambda>s. seg_frg s \<noteq> 0) (k_rcv_queue kcp)))))))"

fun merge_fragments :: "IKCPSEG list \<Rightarrow> IKCPSEG list \<times> IKCPSEG list" where
  "merge_fragments [] = ([], [])"
| "merge_fragments (seg # rest) =
     (if seg_frg seg = 0 then ([seg], rest)
      else let (taken, left) = merge_fragments rest in (seg # taken, left))"

definition ikcp_recv :: "ikcpcb \<Rightarrow> int \<Rightarrow> int \<times> byte list \<times> ikcpcb" where
  "ikcp_recv kcp len =
     (if k_rcv_queue kcp = [] then (- 1, [], kcp)
      else let peeksize = ikcp_peeksize kcp
           in if peeksize < 0 then (- 2, [], kcp)
              else if peeksize > \<bar>len\<bar> then (- 3, [], kcp)
              else let recover = length (k_rcv_queue kcp) \<ge> unat (k_rcv_wnd kcp);
                       (taken, left) = merge_fragments (k_rcv_queue kcp);
                       buffer = concat (map seg_data taken);
                       kcp1 = move_ready (if len < 0 then kcp else kcp\<lparr>k_rcv_queue := left\<rparr>);
                       kcp2 = (if length (k_rcv_queue kcp1) < unat (k_rcv_wnd kcp1) \<and> recover
                               then kcp1\<lparr>k_probe := k_probe kcp1 OR IKCP_ASK_TELL\<rparr> else kcp1)
                   in (int (length buffer), buffer, kcp2))"

section \<open>Sending\<close>

definition new_segment :: "u32 \<Rightarrow> byte list \<Rightarrow> IKCPSEG" where
  "new_segment frg data = \<lparr>seg_conv = 0, seg_cmd = 0, seg_frg = frg, seg_wnd = 0, seg_ts = 0, seg_sn = 0, seg_una = 0,
     seg_resendts = 0, seg_rto = 0, seg_fastack = 0, seg_xmit = 0, seg_data = data\<rparr>"

fun fragment :: "bool \<Rightarrow> nat \<Rightarrow> nat \<Rightarrow> byte list \<Rightarrow> IKCPSEG list" where
  "fragment stream mss 0 buf = []"
| "fragment stream mss (Suc n) buf =
     new_segment (if stream then 0 else of_nat n) (take mss buf) # fragment stream mss n (drop mss buf)"

definition ikcp_send :: "ikcpcb \<Rightarrow> byte list \<Rightarrow> int \<times> ikcpcb" where
  "ikcp_send kcp buf =
     (let stream = (k_stream kcp \<noteq> 0); mss = unat (k_mss kcp); queue = k_snd_queue kcp;
          extend = (if stream \<and> queue \<noteq> [] \<and> length (seg_data (last queue)) < mss
                    then min (length buf) (mss - length (seg_data (last queue))) else 0);
          queue1 = (if stream \<and> queue \<noteq> [] \<and> length (seg_data (last queue)) < mss
                    then butlast queue @ [new_segment 0 (seg_data (last queue) @ take extend buf)] else queue);
          buf1 = drop extend buf;
          kcp1 = kcp\<lparr>k_snd_queue := queue1\<rparr>
      in if stream \<and> buf1 = [] then (int extend, kcp1)
         else let count = (if length buf1 \<le> mss then 1 else (length buf1 + mss - 1) div mss)
              in if count \<ge> unat IKCP_WND_RCV
                 then (if stream \<and> extend > 0 then (int extend, kcp1) else (- 2, kcp1))
                 else (int (extend + length buf1), kcp1\<lparr>k_snd_queue := queue1 @ fragment stream mss count buf1\<rparr>))"

section \<open>Acknowledgements\<close>

definition ikcp_update_ack :: "ikcpcb \<Rightarrow> u32 \<Rightarrow> ikcpcb" where
  "ikcp_update_ack kcp rtt =
     (let (srtt, rttval) =
            (if k_rx_srtt kcp = 0 then (rtt, word_of_int (sint rtt sdiv 2))
             else let delta = \<bar>sint (rtt - k_rx_srtt kcp)\<bar>;
                      rttval = word_of_int ((sint (3 * k_rx_rttval kcp) + delta) sdiv 4);
                      srtt = word_of_int (sint (7 * k_rx_srtt kcp + rtt) sdiv 8)
                  in (if sint srtt < 1 then 1 else srtt, rttval));
          rto = srtt + imax (k_interval kcp) (4 * rttval)
      in kcp\<lparr>k_rx_srtt := srtt, k_rx_rttval := rttval, k_rx_rto := ibound (k_rx_minrto kcp) rto IKCP_RTO_MAX\<rparr>)"

definition ikcp_shrink_buf :: "ikcpcb \<Rightarrow> ikcpcb" where
  "ikcp_shrink_buf kcp =
     kcp\<lparr>k_snd_una := (case k_snd_buf kcp of [] \<Rightarrow> k_snd_nxt kcp | seg # _ \<Rightarrow> seg_sn seg)\<rparr>"

fun ack_loop :: "u32 \<Rightarrow> IKCPSEG list \<Rightarrow> IKCPSEG list" where
  "ack_loop sn [] = []"
| "ack_loop sn (seg # rest) =
     (if sn = seg_sn seg then rest
      else if itimediff sn (seg_sn seg) < 0 then seg # rest
      else seg # ack_loop sn rest)"

definition ikcp_parse_ack :: "ikcpcb \<Rightarrow> u32 \<Rightarrow> ikcpcb" where
  "ikcp_parse_ack kcp sn =
     (if itimediff sn (k_snd_una kcp) < 0 \<or> itimediff sn (k_snd_nxt kcp) \<ge> 0 then kcp
      else kcp\<lparr>k_snd_buf := ack_loop sn (k_snd_buf kcp)\<rparr>)"

definition ikcp_parse_una :: "ikcpcb \<Rightarrow> u32 \<Rightarrow> ikcpcb" where
  "ikcp_parse_una kcp una = kcp\<lparr>k_snd_buf := dropWhile (\<lambda>seg. itimediff una (seg_sn seg) > 0) (k_snd_buf kcp)\<rparr>"

fun fastack_loop :: "u32 \<Rightarrow> u32 \<Rightarrow> IKCPSEG list \<Rightarrow> IKCPSEG list" where
  "fastack_loop sn ts [] = []"
| "fastack_loop sn ts (seg # rest) =
     (if itimediff sn (seg_sn seg) < 0 then seg # rest
      else if sn \<noteq> seg_sn seg \<and> itimediff ts (seg_ts seg) \<ge> 0
      then seg\<lparr>seg_fastack := seg_fastack seg + 1\<rparr> # fastack_loop sn ts rest
      else seg # fastack_loop sn ts rest)"

definition ikcp_parse_fastack :: "ikcpcb \<Rightarrow> u32 \<Rightarrow> u32 \<Rightarrow> ikcpcb" where
  "ikcp_parse_fastack kcp sn ts =
     (if itimediff sn (k_snd_una kcp) < 0 \<or> itimediff sn (k_snd_nxt kcp) \<ge> 0 then kcp
      else kcp\<lparr>k_snd_buf := fastack_loop sn ts (k_snd_buf kcp)\<rparr>)"

definition ikcp_ack_push :: "ikcpcb \<Rightarrow> u32 \<Rightarrow> u32 \<Rightarrow> ikcpcb" where
  "ikcp_ack_push kcp sn ts = kcp\<lparr>k_acklist := k_acklist kcp @ [(sn, ts)]\<rparr>"

text \<open>The insertion point is searched from the tail: after the last segment that is not later.\<close>

definition insert_segment :: "IKCPSEG \<Rightarrow> IKCPSEG list \<Rightarrow> IKCPSEG list" where
  "insert_segment new buf =
     (let later = (\<lambda>seg. seg_sn seg \<noteq> seg_sn new \<and> \<not> itimediff (seg_sn new) (seg_sn seg) > 0);
          back = takeWhile later (rev buf); front = rev (dropWhile later (rev buf))
      in if front \<noteq> [] \<and> seg_sn (last front) = seg_sn new then buf else front @ [new] @ rev back)"

definition ikcp_parse_data :: "ikcpcb \<Rightarrow> IKCPSEG \<Rightarrow> ikcpcb" where
  "ikcp_parse_data kcp newseg =
     (if itimediff (seg_sn newseg) (k_rcv_nxt kcp + k_rcv_wnd kcp) \<ge> 0 \<or> itimediff (seg_sn newseg) (k_rcv_nxt kcp) < 0
      then kcp
      else move_ready (kcp\<lparr>k_rcv_buf := insert_segment newseg (k_rcv_buf kcp)\<rparr>))"

section \<open>Input of a datagram\<close>

text \<open>The first header of the input, and the payload after it.\<close>

definition decode_header :: "byte list \<Rightarrow> IKCPSEG \<times> u32" where
  "decode_header data =
     (\<lparr>seg_conv = ikcp_decode32u data, seg_cmd = ucast (data ! 4), seg_frg = ucast (data ! 5),
       seg_wnd = ucast (ikcp_decode16u (drop 6 data)), seg_ts = ikcp_decode32u (drop 8 data),
       seg_sn = ikcp_decode32u (drop 12 data), seg_una = ikcp_decode32u (drop 16 data),
       seg_resendts = 0, seg_rto = 0, seg_fastack = 0, seg_xmit = 0, seg_data = []\<rparr>,
      ikcp_decode32u (drop 20 data))"

definition input_push :: "ikcpcb \<Rightarrow> IKCPSEG \<Rightarrow> ikcpcb" where
  "input_push kcp seg =
     (if itimediff (seg_sn seg) (k_rcv_nxt kcp + k_rcv_wnd kcp) < 0
      then let kcp = ikcp_ack_push kcp (seg_sn seg) (seg_ts seg)
           in if itimediff (seg_sn seg) (k_rcv_nxt kcp) \<ge> 0 then ikcp_parse_data kcp seg else kcp
      else kcp)"

definition input_ack :: "ikcpcb \<Rightarrow> IKCPSEG \<Rightarrow> ikcpcb" where
  "input_ack kcp seg =
     (let kcp = (if itimediff (k_current kcp) (seg_ts seg) \<ge> 0
                 then ikcp_update_ack kcp (k_current kcp - seg_ts seg) else kcp)
      in ikcp_shrink_buf (ikcp_parse_ack kcp (seg_sn seg)))"

text \<open>The acknowledgement with the largest sequence number and time stamp: none yet, or both.\<close>

definition track_ack :: "(u32 \<times> u32) option \<Rightarrow> IKCPSEG \<Rightarrow> (u32 \<times> u32) option" where
  "track_ack best seg =
     (case best of
        None \<Rightarrow> Some (seg_sn seg, seg_ts seg)
      | Some (maxack, latest_ts) \<Rightarrow>
          if itimediff (seg_sn seg) maxack > 0 \<and> itimediff (seg_ts seg) latest_ts > 0
          then Some (seg_sn seg, seg_ts seg) else best)"

definition input_segment :: "ikcpcb \<Rightarrow> (u32 \<times> u32) option \<Rightarrow> IKCPSEG \<Rightarrow> ikcpcb \<times> (u32 \<times> u32) option" where
  "input_segment kcp best seg =
     (let kcp = ikcp_shrink_buf (ikcp_parse_una (kcp\<lparr>k_rmt_wnd := seg_wnd seg\<rparr>) (seg_una seg))
      in if seg_cmd seg = IKCP_CMD_ACK then (input_ack kcp seg, track_ack best seg)
         else if seg_cmd seg = IKCP_CMD_PUSH then (input_push kcp seg, best)
         else if seg_cmd seg = IKCP_CMD_WASK then (kcp\<lparr>k_probe := k_probe kcp OR IKCP_ASK_TELL\<rparr>, best)
         else (kcp, best))"

function input_loop :: "ikcpcb \<Rightarrow> (u32 \<times> u32) option \<Rightarrow> byte list \<Rightarrow> int \<times> ikcpcb \<times> (u32 \<times> u32) option" where
  "input_loop kcp best data =
     (if length data < IKCP_OVERHEAD then (0, kcp, best)
      else let (seg, len) = decode_header data; rest = drop IKCP_OVERHEAD data
           in if seg_conv seg \<noteq> k_conv kcp then (- 1, kcp, best)
              else if length rest < unat len \<or> sint len < 0 then (- 2, kcp, best)
              else if seg_cmd seg \<notin> {IKCP_CMD_PUSH, IKCP_CMD_ACK, IKCP_CMD_WASK, IKCP_CMD_WINS} then (- 3, kcp, best)
              else let (kcp', best') = input_segment kcp best (seg\<lparr>seg_data := take (unat len) rest\<rparr>)
                   in input_loop kcp' best' (drop (unat len) rest))"
  by pat_completeness auto
termination by (relation "measure (\<lambda>(kcp, best, data). length data)") (auto simp: IKCP_OVERHEAD_def)

declare input_loop.simps [simp del]

text \<open>The window growth of the default congestion control.\<close>

definition grow_cwnd :: "ikcpcb \<Rightarrow> ikcpcb" where
  "grow_cwnd kcp =
     (if k_cwnd kcp < k_rmt_wnd kcp
      then let mss = k_mss kcp;
               kcp1 = (if k_cwnd kcp < k_ssthresh kcp
                       then kcp\<lparr>k_cwnd := k_cwnd kcp + 1, k_incr := k_incr kcp + mss\<rparr>
                       else let incr0 = (if k_incr kcp < mss then mss else k_incr kcp);
                                incr1 = incr0 + (mss * mss) div incr0 + mss div 16
                            in kcp\<lparr>k_incr := incr1,
                                   k_cwnd := (if (k_cwnd kcp + 1) * mss \<le> incr1
                                              then (incr1 + mss - 1) div (if mss > 0 then mss else 1) else k_cwnd kcp)\<rparr>)
           in if k_cwnd kcp1 > k_rmt_wnd kcp1
              then kcp1\<lparr>k_cwnd := k_rmt_wnd kcp1, k_incr := k_rmt_wnd kcp1 * mss\<rparr> else kcp1
      else kcp)"

definition ikcp_input :: "ikcpcb \<Rightarrow> byte list \<Rightarrow> int \<times> ikcpcb" where
  "ikcp_input kcp data =
     (if length data < IKCP_OVERHEAD then (- 1, kcp)
      else case input_loop kcp None data of
        (r, kcp1, best) \<Rightarrow>
          if r \<noteq> 0 then (r, kcp1)
          else let kcp2 = (case best of None \<Rightarrow> kcp1 | Some (maxack, ts) \<Rightarrow> ikcp_parse_fastack kcp1 maxack ts)
               in (0, if itimediff (k_snd_una kcp2) (k_snd_una kcp) > 0 then grow_cwnd kcp2 else kcp2))"

section \<open>Flushing\<close>

definition ikcp_wnd_unused :: "ikcpcb \<Rightarrow> u32" where
  "ikcp_wnd_unused kcp =
     (if length (k_rcv_queue kcp) < unat (k_rcv_wnd kcp) then k_rcv_wnd kcp - of_nat (length (k_rcv_queue kcp)) else 0)"

text \<open>
  The output buffer: datagrams already handed to the callback and the bytes collected since. It
  is handed over when the next item would exceed the MTU; an empty buffer never is.
\<close>

definition put_item :: "nat \<Rightarrow> byte list \<Rightarrow> byte list list \<times> byte list \<Rightarrow> byte list list \<times> byte list" where
  "put_item mtu item out =
     (if length (snd out) + length item > mtu
      then (fst out @ (if snd out = [] then [] else [snd out]), item)
      else (fst out, snd out @ item))"

definition control_segment :: "ikcpcb \<Rightarrow> u32 \<Rightarrow> u32 \<times> u32 \<Rightarrow> IKCPSEG" where
  "control_segment kcp cmd sn_ts =
     (new_segment 0 [])\<lparr>seg_conv := k_conv kcp, seg_cmd := cmd, seg_wnd := ikcp_wnd_unused kcp,
        seg_una := k_rcv_nxt kcp, seg_sn := fst sn_ts, seg_ts := snd sn_ts\<rparr>"

definition flush_acks :: "ikcpcb \<Rightarrow> byte list list \<times> byte list \<Rightarrow> byte list list \<times> byte list" where
  "flush_acks kcp out =
     fold (\<lambda>a. put_item (unat (k_mtu kcp)) (ikcp_encode_seg (control_segment kcp IKCP_CMD_ACK a))) (k_acklist kcp) out"

definition update_probe :: "ikcpcb \<Rightarrow> ikcpcb" where
  "update_probe kcp =
     (if k_rmt_wnd kcp = 0
      then (if k_probe_wait kcp = 0
            then kcp\<lparr>k_probe_wait := IKCP_PROBE_INIT, k_ts_probe := k_current kcp + IKCP_PROBE_INIT\<rparr>
            else if itimediff (k_current kcp) (k_ts_probe kcp) \<ge> 0
            then let wait0 = (if k_probe_wait kcp < IKCP_PROBE_INIT then IKCP_PROBE_INIT else k_probe_wait kcp);
                     wait1 = wait0 + wait0 div 2;
                     wait2 = (if wait1 > IKCP_PROBE_LIMIT then IKCP_PROBE_LIMIT else wait1)
                 in kcp\<lparr>k_probe_wait := wait2, k_ts_probe := k_current kcp + wait2, k_probe := k_probe kcp OR IKCP_ASK_SEND\<rparr>
            else kcp)
      else kcp\<lparr>k_ts_probe := 0, k_probe_wait := 0\<rparr>)"

text \<open>
  The window commands carry the sequence number and time stamp left in \<^verbatim>\<open>seg\<close> by the last
  acknowledgement, or zeros.
\<close>

definition flush_probes :: "ikcpcb \<Rightarrow> u32 \<times> u32 \<Rightarrow> byte list list \<times> byte list \<Rightarrow> byte list list \<times> byte list" where
  "flush_probes kcp last_ack out =
     (let put = (\<lambda>cmd. put_item (unat (k_mtu kcp)) (ikcp_encode_seg (control_segment kcp cmd last_ack)));
          out = (if k_probe kcp AND IKCP_ASK_SEND \<noteq> 0 then put IKCP_CMD_WASK out else out)
      in if k_probe kcp AND IKCP_ASK_TELL \<noteq> 0 then put IKCP_CMD_WINS out else out)"

function move_to_buf :: "u32 \<Rightarrow> ikcpcb \<Rightarrow> ikcpcb" where
  "move_to_buf cwnd kcp =
     (if itimediff (k_snd_nxt kcp) (k_snd_una kcp + cwnd) < 0
      then case k_snd_queue kcp of
        [] \<Rightarrow> kcp
      | seg # rest \<Rightarrow>
          move_to_buf cwnd
            (kcp\<lparr>k_snd_queue := rest,
                 k_snd_buf := k_snd_buf kcp @
                   [seg\<lparr>seg_conv := k_conv kcp, seg_cmd := IKCP_CMD_PUSH, seg_wnd := ikcp_wnd_unused kcp,
                        seg_ts := k_current kcp, seg_sn := k_snd_nxt kcp, seg_una := k_rcv_nxt kcp,
                        seg_resendts := k_current kcp, seg_rto := k_rx_rto kcp, seg_fastack := 0, seg_xmit := 0\<rparr>],
                 k_snd_nxt := k_snd_nxt kcp + 1\<rparr>)
      else kcp)"
  by pat_completeness auto
termination by (relation "measure (\<lambda>(cwnd, kcp). length (k_snd_queue kcp))") auto

declare move_to_buf.simps [simp del]

text \<open>
  Whether a segment in flight is sent now, and its updated timers: its first transmission, a
  retransmission after its timeout, or a fast retransmission. The flags say which of the last
  two happened.
\<close>

definition transmit :: "ikcpcb \<Rightarrow> u32 \<Rightarrow> u32 \<Rightarrow> IKCPSEG \<Rightarrow> bool \<times> bool \<times> bool \<times> IKCPSEG" where
  "transmit kcp resent rtomin seg =
     (let current = k_current kcp
      in if seg_xmit seg = 0
         then (True, False, False, seg\<lparr>seg_xmit := seg_xmit seg + 1, seg_rto := k_rx_rto kcp,
                 seg_resendts := current + k_rx_rto kcp + rtomin\<rparr>)
         else if itimediff current (seg_resendts seg) \<ge> 0
         then let rto = (if k_nodelay kcp = 0 then seg_rto seg + imax (seg_rto seg) (k_rx_rto kcp)
                         else seg_rto seg + word_of_int (sint (if k_nodelay kcp < 2 then seg_rto seg else k_rx_rto kcp) sdiv 2))
              in (True, True, False, seg\<lparr>seg_xmit := seg_xmit seg + 1, seg_rto := rto, seg_resendts := current + rto\<rparr>)
         else if seg_fastack seg \<ge> resent \<and> (sint (seg_xmit seg) \<le> k_fastlimit kcp \<or> k_fastlimit kcp \<le> 0)
         then (True, False, True, seg\<lparr>seg_xmit := seg_xmit seg + 1, seg_fastack := 0, seg_resendts := current + seg_rto seg\<rparr>)
         else (False, False, False, seg))"

record flush_state =
  fl_out :: "byte list list \<times> byte list"
  fl_buf :: "IKCPSEG list"
  fl_lost :: bool
  fl_change :: nat
  fl_xmit :: u32
  fl_state :: u32

definition flush_segment :: "ikcpcb \<Rightarrow> u32 \<Rightarrow> u32 \<Rightarrow> IKCPSEG \<Rightarrow> flush_state \<Rightarrow> flush_state" where
  "flush_segment kcp resent rtomin seg fl =
     (case transmit kcp resent rtomin seg of
        (needsend, late, fast, seg1) \<Rightarrow>
          let fl1 = fl\<lparr>fl_lost := fl_lost fl \<or> late, fl_change := fl_change fl + (if fast then 1 else 0),
                       fl_xmit := fl_xmit fl + (if late then 1 else 0)\<rparr>
          in if \<not> needsend then fl1\<lparr>fl_buf := fl_buf fl1 @ [seg1]\<rparr>
             else let seg2 = seg1\<lparr>seg_ts := k_current kcp, seg_wnd := ikcp_wnd_unused kcp, seg_una := k_rcv_nxt kcp\<rparr>
                  in fl1\<lparr>fl_buf := fl_buf fl1 @ [seg2],
                         fl_out := put_item (unat (k_mtu kcp)) (ikcp_encode_seg seg2 @ seg_data seg2) (fl_out fl1),
                         fl_state := (if seg_xmit seg2 \<ge> k_dead_link kcp then - 1 else fl_state fl1)\<rparr>)"

text \<open>The congestion window after the flush: fast retransmissions, then losses, then the lower bound.\<close>

definition flush_cwnd :: "u32 \<Rightarrow> u32 \<Rightarrow> nat \<Rightarrow> bool \<Rightarrow> ikcpcb \<Rightarrow> ikcpcb" where
  "flush_cwnd prior_cwnd resent change lost kcp =
     (let kcp1 = (if change \<noteq> 0
                  then let half = (k_snd_nxt kcp - k_snd_una kcp) div 2;
                           ssthresh = (if half < IKCP_THRESH_MIN then IKCP_THRESH_MIN else half)
                       in kcp\<lparr>k_ssthresh := ssthresh, k_cwnd := ssthresh + resent, k_incr := (ssthresh + resent) * k_mss kcp\<rparr>
                  else kcp);
          kcp2 = (if lost
                  then kcp1\<lparr>k_ssthresh := (if prior_cwnd div 2 < IKCP_THRESH_MIN then IKCP_THRESH_MIN else prior_cwnd div 2),
                            k_cwnd := 1, k_incr := k_mss kcp1\<rparr>
                  else kcp1)
      in if k_cwnd kcp2 < 1 then kcp2\<lparr>k_cwnd := 1, k_incr := k_mss kcp2\<rparr> else kcp2)"

definition ikcp_flush :: "ikcpcb \<Rightarrow> ikcpcb \<times> byte list list" where
  "ikcp_flush kcp =
     (if \<not> k_updated kcp then (kcp, [])
      else let out1 = flush_acks kcp ([], []);
               last_ack = (if k_acklist kcp = [] then (0, 0) else last (k_acklist kcp));
               kcp1 = update_probe (kcp\<lparr>k_acklist := []\<rparr>);
               out2 = flush_probes kcp1 last_ack out1;
               kcp2 = kcp1\<lparr>k_probe := 0\<rparr>;
               window = imin (k_snd_wnd kcp2) (k_rmt_wnd kcp2);
               cwnd = (if k_nocwnd kcp2 = 0 then imin (k_cwnd kcp2) window else window);
               kcp3 = move_to_buf cwnd kcp2;
               resent = (if k_fastresend kcp3 > 0 then word_of_int (k_fastresend kcp3) else 0xffffffff);
               rtomin = (if k_nodelay kcp3 = 0 then word_of_int (sint (k_rx_rto kcp3) div 8) else 0);
               fl = fold (flush_segment kcp3 resent rtomin) (k_snd_buf kcp3)
                      \<lparr>fl_out = out2, fl_buf = [], fl_lost = False, fl_change = 0, fl_xmit = k_xmit kcp3, fl_state = k_state kcp3\<rparr>;
               kcp4 = kcp3\<lparr>k_snd_buf := fl_buf fl, k_xmit := fl_xmit fl, k_state := fl_state fl\<rparr>
           in (flush_cwnd (k_cwnd kcp) resent (fl_change fl) (fl_lost fl) kcp4,
               fst (fl_out fl) @ (if snd (fl_out fl) = [] then [] else [snd (fl_out fl)])))"

section \<open>The update clock\<close>

definition ikcp_update :: "ikcpcb \<Rightarrow> u32 \<Rightarrow> ikcpcb \<times> byte list list" where
  "ikcp_update kcp current =
     (let ts_flush = (if k_updated kcp then k_ts_flush kcp else current);
          slap = itimediff current ts_flush;
          reset = (slap \<ge> 10000 \<or> slap < - 10000);
          ts_flush = (if reset then current else ts_flush);
          slap = (if reset then 0 else slap);
          kcp1 = kcp\<lparr>k_current := current, k_updated := True, k_ts_flush := ts_flush\<rparr>;
          next = ts_flush + k_interval kcp
      in if slap \<ge> 0
         then ikcp_flush (kcp1\<lparr>k_ts_flush := (if itimediff current next \<ge> 0 then current + k_interval kcp else next)\<rparr>)
         else (kcp1, []))"

definition ikcp_check :: "ikcpcb \<Rightarrow> u32 \<Rightarrow> u32" where
  "ikcp_check kcp current =
     (if \<not> k_updated kcp then current
      else let ts_flush = (if itimediff current (k_ts_flush kcp) \<ge> 10000 \<or> itimediff current (k_ts_flush kcp) < - 10000
                           then current else k_ts_flush kcp)
           in if itimediff current ts_flush \<ge> 0 then current
              else let diffs = map (\<lambda>seg. itimediff (seg_resendts seg) current) (k_snd_buf kcp)
                   in if list_ex (\<lambda>d. d \<le> 0) diffs then current
                      else let tm_packet = fold min diffs 0x7fffffff;
                               tm_flush = itimediff ts_flush current;
                               minimal = (word_of_int (min tm_packet tm_flush) :: u32)
                           in current + (if minimal \<ge> k_interval kcp then k_interval kcp else minimal))"

end
