(* ===== verification/Stream.thy ===== *)
theory Stream
  imports Kcp Http
begin

text \<open>
  The TCP tunnel over KCP (\<^verbatim>\<open>redp2p_stream_*\<close> in \<^verbatim>\<open>src/src/libredp2p.c\<close>): the envelope around
  every datagram, the session with its handshake, its close handshake and its keepalives, and the
  pumping of bytes between the local TCP socket and KCP.

  An operation takes what its calls into the system answer as a \<open>stream_env\<close> and returns its status
  with the new session and a \<open>stream_io\<close>: the library context and the log of the datagrams and TCP
  bytes it has emitted. The answers may depend on the log, so successive calls of one operation may
  answer differently. The session's control block and adapter are options: \<open>None\<close> is the null pointer.
\<close>

unbundle bit_operations_syntax

section \<open>Constants\<close>

definition REDP2P_STREAM_MAGIC :: u32 where [macros]: "REDP2P_STREAM_MAGIC = 0x50434b52"
definition REDP2P_STREAM_VERSION :: byte where [macros]: "REDP2P_STREAM_VERSION = 2"
definition REDP2P_STREAM_SESSION_ID_SZ :: nat where [macros]: "REDP2P_STREAM_SESSION_ID_SZ = 16"
definition REDP2P_STREAM_ENVELOPE_SZ :: nat where [macros]: "REDP2P_STREAM_ENVELOPE_SZ = 24"
definition REDP2P_STREAM_KCP_MTU :: nat where [macros]: "REDP2P_STREAM_KCP_MTU = 1400"
definition REDP2P_STREAM_MAX_FRAME :: nat where
  [macros]: "REDP2P_STREAM_MAX_FRAME = REDP2P_STREAM_ENVELOPE_SZ + REDP2P_STREAM_KCP_MTU"
definition REDP2P_STREAM_SEND_WINDOW :: int where [macros]: "REDP2P_STREAM_SEND_WINDOW = 64"
definition REDP2P_STREAM_RECV_WINDOW :: int where [macros]: "REDP2P_STREAM_RECV_WINDOW = 128"
definition REDP2P_STREAM_KCP_INTERVAL_MS :: int where [macros]: "REDP2P_STREAM_KCP_INTERVAL_MS = 20"
definition REDP2P_STREAM_KCP_FAST_RESEND :: int where [macros]: "REDP2P_STREAM_KCP_FAST_RESEND = 2"
definition REDP2P_STREAM_MAX_WAIT_SEND :: nat where [macros]: "REDP2P_STREAM_MAX_WAIT_SEND = 128"
definition REDP2P_STREAM_HELLO_MS :: u64 where [macros]: "REDP2P_STREAM_HELLO_MS = 500"
definition REDP2P_STREAM_CLOSE_MS :: u64 where [macros]: "REDP2P_STREAM_CLOSE_MS = 500"
definition REDP2P_KEEPALIVE_S :: u64 where [macros]: "REDP2P_KEEPALIVE_S = 3"

definition REDP2P_STREAM_TYPE_HELLO :: byte where [macros]: "REDP2P_STREAM_TYPE_HELLO = 1"
definition REDP2P_STREAM_TYPE_HELLO_ACK :: byte where [macros]: "REDP2P_STREAM_TYPE_HELLO_ACK = 2"
definition REDP2P_STREAM_TYPE_KCP :: byte where [macros]: "REDP2P_STREAM_TYPE_KCP = 3"
definition REDP2P_STREAM_TYPE_CLOSE :: byte where [macros]: "REDP2P_STREAM_TYPE_CLOSE = 4"
definition REDP2P_STREAM_TYPE_CLOSE_ACK :: byte where [macros]: "REDP2P_STREAM_TYPE_CLOSE_ACK = 5"
definition REDP2P_STREAM_TYPE_RESET :: byte where [macros]: "REDP2P_STREAM_TYPE_RESET = 6"
definition REDP2P_STREAM_TYPE_KEEPALIVE :: byte where [macros]: "REDP2P_STREAM_TYPE_KEEPALIVE = 7"
definition REDP2P_STREAM_ROLE_INITIATOR :: byte where [macros]: "REDP2P_STREAM_ROLE_INITIATOR = 1"
definition REDP2P_STREAM_ROLE_RESPONDER :: byte where [macros]: "REDP2P_STREAM_ROLE_RESPONDER = 2"

abbreviation proto_tcp :: byte where "proto_tcp \<equiv> word_of_int REDP2P_PROTO_TCP"

section \<open>The session\<close>

record redp2p_stream_envelope_t =
  en_type :: byte
  en_role :: byte
  en_protocol :: byte
  en_session_id :: "byte list"
  en_payload :: "byte list"

record redp2p_stream_adapter_t =
  a_peer_addr :: sockaddr_storage
  a_session_id :: "byte list"
  a_role :: byte
  a_protocol :: byte
  a_send_error :: bool
  a_fault_pending_used :: bool
  a_fault_pending :: "byte list"

record redp2p_stream_state_t =
  st_enabled :: bool
  st_initiator :: bool
  st_ready :: bool
  st_hello_sent :: bool
  st_reset_sent :: bool
  st_reset_received :: bool
  st_local_eof :: bool
  st_close_sent :: bool
  st_close_acked :: bool
  st_remote_close :: bool
  st_session_id :: "byte list"
  st_session_hex :: string
  st_transport_protocol :: byte
  st_kcp :: "ikcpcb option"
  st_adapter :: "redp2p_stream_adapter_t option"
  st_last_tx_ms :: u64
  st_last_hello_ms :: u64
  st_last_close_ms :: u64
  st_last_keepalive_ms :: u64
  st_next_update_ms :: u32

definition zero_stream :: redp2p_stream_state_t where
  "zero_stream = \<lparr>st_enabled = False, st_initiator = False, st_ready = False, st_hello_sent = False, st_reset_sent = False,
     st_reset_received = False, st_local_eof = False, st_close_sent = False, st_close_acked = False, st_remote_close = False,
     st_session_id = replicate REDP2P_STREAM_SESSION_ID_SZ 0, st_session_hex = [], st_transport_protocol = 0,
     st_kcp = None, st_adapter = None, st_last_tx_ms = 0, st_last_hello_ms = 0, st_last_close_ms = 0,
     st_last_keepalive_ms = 0, st_next_update_ms = 0\<rparr>"

datatype stream_event = Udp "byte list" | Tcp "byte list" | Shut

record stream_io =
  io_ctx :: redp2p
  io_log :: "stream_event list"

record stream_env =
  env_getenv :: "string \<Rightarrow> string option"
  env_sendto :: "stream_event list \<Rightarrow> byte list \<Rightarrow> bool"
  env_now_ms :: "stream_event list \<Rightarrow> u64"
  env_tcp_write :: "stream_event list \<Rightarrow> byte list \<Rightarrow> int"

definition emit :: "stream_event \<Rightarrow> stream_io \<Rightarrow> stream_io" where
  "emit e io = io\<lparr>io_log := io_log io @ [e]\<rparr>"

definition io_error :: "string \<Rightarrow> stream_io \<Rightarrow> stream_io" where
  "io_error msg io = io\<lparr>io_ctx := redp2p_set_error (Some msg) (io_ctx io)\<rparr>"

abbreviation clock :: "stream_env \<Rightarrow> stream_io \<Rightarrow> u64" where
  "clock env io \<equiv> env_now_ms env (io_log io)"

section \<open>Fault injection\<close>

definition debug_every :: "string \<Rightarrow> stream_env \<Rightarrow> int" where
  "debug_every name env = (case redp2p_parse_u (env_getenv env name) 1 1000000 of None \<Rightarrow> 0 | Some every \<Rightarrow> every)"

definition redp2p_stream_debug_drop_every :: "stream_env \<Rightarrow> int" where
  "redp2p_stream_debug_drop_every = debug_every ''REDP2P_DEBUG_STREAM_DROP_EVERY''"

definition redp2p_stream_debug_reorder_every :: "stream_env \<Rightarrow> int" where
  "redp2p_stream_debug_reorder_every = debug_every ''REDP2P_DEBUG_STREAM_REORDER_EVERY''"

definition redp2p_stream_should_drop :: "stream_env \<Rightarrow> redp2p \<Rightarrow> bool \<times> redp2p" where
  "redp2p_stream_should_drop env ctx =
     (let every = redp2p_stream_debug_drop_every env
      in if every \<le> 0 then (False, ctx)
         else let ctx = ctx\<lparr>fault_drop_counter := fault_drop_counter ctx + 1\<rparr>
              in (fault_drop_counter ctx mod every = 0, ctx))"

definition redp2p_stream_should_reorder :: "stream_env \<Rightarrow> redp2p \<Rightarrow> bool \<times> redp2p" where
  "redp2p_stream_should_reorder env ctx =
     (let every = redp2p_stream_debug_reorder_every env
      in if every \<le> 0 then (False, ctx)
         else let ctx = ctx\<lparr>fault_reorder_counter := fault_reorder_counter ctx + 1\<rparr>
              in (fault_reorder_counter ctx mod every = 0, ctx))"

section \<open>Envelopes\<close>

definition redp2p_load_u32_le :: "byte list \<Rightarrow> u32" where
  "redp2p_load_u32_le p =
     ucast (p ! 0) OR push_bit 8 (ucast (p ! 1)) OR push_bit 16 (ucast (p ! 2)) OR push_bit 24 (ucast (p ! 3))"

definition redp2p_store_u32_le :: "u32 \<Rightarrow> byte list" where
  "redp2p_store_u32_le v = [ucast (v AND 0xff), ucast (drop_bit 8 v AND 0xff), ucast (drop_bit 16 v AND 0xff),
     ucast (drop_bit 24 v AND 0xff)]"

definition redp2p_stream_make_session_id :: "byte list option \<Rightarrow> (byte list \<times> string) option" where
  "redp2p_stream_make_session_id random =
     (case random of
        None \<Rightarrow> None
      | Some out \<Rightarrow>
          (case redp2p_hex_encode out (REDP2P_STREAM_SESSION_ID_SZ * 2 + 1) of None \<Rightarrow> None | Some hex \<Rightarrow> Some (out, hex)))"

text \<open>The encoded frame, or no bytes when the payload is too large.\<close>

definition redp2p_stream_pack :: "byte \<Rightarrow> byte \<Rightarrow> byte \<Rightarrow> byte list \<Rightarrow> byte list \<Rightarrow> byte list" where
  "redp2p_stream_pack type role protocol session_id payload =
     (if length payload > REDP2P_STREAM_KCP_MTU then []
      else redp2p_store_u32_le REDP2P_STREAM_MAGIC @ [REDP2P_STREAM_VERSION, type, role, protocol] @ session_id @ payload)"

definition redp2p_stream_unpack :: "byte list \<Rightarrow> redp2p_stream_envelope_t option" where
  "redp2p_stream_unpack buf =
     (if length buf < REDP2P_STREAM_ENVELOPE_SZ \<or> length buf > REDP2P_STREAM_MAX_FRAME then None
      else if redp2p_load_u32_le buf \<noteq> REDP2P_STREAM_MAGIC \<or> buf ! 4 \<noteq> REDP2P_STREAM_VERSION
        \<or> buf ! 5 < REDP2P_STREAM_TYPE_HELLO \<or> buf ! 5 > REDP2P_STREAM_TYPE_KEEPALIVE
        \<or> (buf ! 6 \<noteq> REDP2P_STREAM_ROLE_INITIATOR \<and> buf ! 6 \<noteq> REDP2P_STREAM_ROLE_RESPONDER)
        \<or> buf ! 7 \<noteq> proto_tcp then None
      else let envelope = \<lparr>en_type = buf ! 5, en_role = buf ! 6, en_protocol = buf ! 7,
                 en_session_id = take REDP2P_STREAM_SESSION_ID_SZ (drop 8 buf),
                 en_payload = drop REDP2P_STREAM_ENVELOPE_SZ buf\<rparr>
           in if en_type envelope \<noteq> REDP2P_STREAM_TYPE_KCP \<and> en_payload envelope \<noteq> [] then None else Some envelope)"

section \<open>Output\<close>

definition redp2p_stream_send_datagram :: "stream_env \<Rightarrow> redp2p_stream_adapter_t \<Rightarrow> byte list \<Rightarrow> stream_io \<Rightarrow> int \<times> stream_io" where
  "redp2p_stream_send_datagram env adapter dgram io =
     (if redp2p_sockaddr_len (a_peer_addr adapter) = 0 \<or> \<not> env_sendto env (io_log io) dgram then (- 1, io)
      else (0, emit (Udp dgram) io))"

text \<open>
  The output callback of KCP. A delayed frame is kept in the adapter and sent after the next one.
\<close>

definition redp2p_stream_kcp_output ::
  "stream_env \<Rightarrow> byte list \<Rightarrow> redp2p_stream_adapter_t \<times> stream_io \<Rightarrow> redp2p_stream_adapter_t \<times> stream_io" where
  "redp2p_stream_kcp_output env buf = (\<lambda>(adapter, io).
     (if buf = [] \<or> length buf > REDP2P_STREAM_KCP_MTU then (adapter, io)
      else let dgram = redp2p_stream_pack REDP2P_STREAM_TYPE_KCP (a_role adapter) (a_protocol adapter) (a_session_id adapter) buf
           in if dgram = [] then (adapter, io)
              else let (drop_it, ctx) = redp2p_stream_should_drop env (io_ctx io); io = io\<lparr>io_ctx := ctx\<rparr>
                   in if drop_it then (adapter, io)
                      else let (delay, ctx) = (if a_fault_pending_used adapter then (False, io_ctx io)
                                               else redp2p_stream_should_reorder env (io_ctx io));
                               io = io\<lparr>io_ctx := ctx\<rparr>
                           in if delay then (adapter\<lparr>a_fault_pending := dgram, a_fault_pending_used := True\<rparr>, io)
                              else let (r1, io) = redp2p_stream_send_datagram env adapter dgram io
                                   in if r1 \<noteq> 0 then (adapter\<lparr>a_send_error := True\<rparr>, io)
                                      else if \<not> a_fault_pending_used adapter then (adapter, io)
                                      else let (r2, io) = redp2p_stream_send_datagram env adapter (a_fault_pending adapter) io
                                           in if r2 \<noteq> 0 then (adapter\<lparr>a_send_error := True\<rparr>, io)
                                              else (adapter\<lparr>a_fault_pending_used := False\<rparr>, io)))"

section \<open>Opening a session\<close>

definition redp2p_stream_conv :: "byte list \<Rightarrow> u32" where
  "redp2p_stream_conv session_id =
     redp2p_load_u32_le session_id XOR redp2p_load_u32_le (drop 4 session_id) XOR redp2p_load_u32_le (drop 8 session_id) XOR
     redp2p_load_u32_le (drop 12 session_id)"

text \<open>The three allocations are the adapter's, the control block's and the output buffer's.\<close>

definition stream_kcp :: "bool \<Rightarrow> bool \<Rightarrow> byte list \<Rightarrow> ikcpcb option" where
  "stream_kcp alloc_kcp alloc_mtu session_id =
     (case ikcp_create alloc_kcp (redp2p_stream_conv session_id) of
        None \<Rightarrow> None
      | Some kcp \<Rightarrow>
          (case ikcp_setmtu alloc_mtu kcp (int REDP2P_STREAM_KCP_MTU) of (r1, kcp) \<Rightarrow>
             if r1 \<noteq> 0 then None
             else case ikcp_wndsize kcp REDP2P_STREAM_SEND_WINDOW REDP2P_STREAM_RECV_WINDOW of (r2, kcp) \<Rightarrow>
               if r2 \<noteq> 0 then None
               else case ikcp_nodelay kcp 0 REDP2P_STREAM_KCP_INTERVAL_MS REDP2P_STREAM_KCP_FAST_RESEND 0 of (r3, kcp) \<Rightarrow>
                 if r3 \<noteq> 0 then None else Some (kcp\<lparr>k_stream := 1\<rparr>)))"

definition redp2p_stream_init ::
  "stream_env \<Rightarrow> bool \<times> bool \<times> bool \<Rightarrow> bool \<Rightarrow> sockaddr_storage \<Rightarrow> byte list \<Rightarrow> string option \<Rightarrow> byte \<Rightarrow> stream_io
   \<Rightarrow> int \<times> redp2p_stream_state_t \<times> stream_io" where
  "redp2p_stream_init env allocs initiator peer_addr session_id session_hex transport_protocol io =
     (case allocs of (alloc_adapter, alloc_kcp, alloc_mtu) \<Rightarrow>
        if \<not> alloc_adapter then (- 1, zero_stream, io_error ''stream: KCP adapter allocation failed'' io)
        else let adapter = \<lparr>a_peer_addr = peer_addr, a_session_id = session_id,
                   a_role = (if initiator then REDP2P_STREAM_ROLE_INITIATOR else REDP2P_STREAM_ROLE_RESPONDER),
                   a_protocol = transport_protocol, a_send_error = False, a_fault_pending_used = False, a_fault_pending = []\<rparr>
             in (case stream_kcp alloc_kcp alloc_mtu session_id of
                   None \<Rightarrow> (- 1, zero_stream, io_error ''stream: KCP initialization failed'' io)
                 | Some kcp \<Rightarrow>
                     let now = clock env io
                     in (0, zero_stream\<lparr>st_enabled := True, st_initiator := initiator, st_transport_protocol := transport_protocol,
                              st_session_id := session_id, st_session_hex := (case session_hex of None \<Rightarrow> [] | Some h \<Rightarrow> h),
                              st_kcp := Some kcp, st_adapter := Some adapter, st_last_tx_ms := now, st_last_keepalive_ms := now,
                              st_next_update_ms := ucast now\<rparr>, io)))"

section \<open>Control packets\<close>

definition redp2p_stream_can_send_data :: "redp2p_stream_state_t \<Rightarrow> bool" where
  "redp2p_stream_can_send_data st \<longleftrightarrow> st_ready st \<and> \<not> st_local_eof st
     \<and> (case st_kcp st of None \<Rightarrow> False | Some kcp \<Rightarrow> ikcp_waitsnd kcp < REDP2P_STREAM_MAX_WAIT_SEND)"

definition redp2p_stream_send_control ::
  "stream_env \<Rightarrow> byte \<Rightarrow> redp2p_stream_state_t \<Rightarrow> stream_io \<Rightarrow> int \<times> redp2p_stream_state_t \<times> stream_io" where
  "redp2p_stream_send_control env type st io =
     (let adapter = the (st_adapter st);
          dgram = redp2p_stream_pack type (a_role adapter) (st_transport_protocol st) (st_session_id st) [];
          (r, io) = (if dgram = [] then (- 1, io) else redp2p_stream_send_datagram env adapter dgram io)
      in if r \<noteq> 0 then (- 1, st, io_error ''stream: UDP control send failed'' io)
         else (0, st\<lparr>st_last_tx_ms := clock env io\<rparr>, io))"

definition redp2p_stream_fail :: "stream_env \<Rightarrow> redp2p_stream_state_t \<Rightarrow> stream_io \<Rightarrow> redp2p_stream_state_t \<times> stream_io" where
  "redp2p_stream_fail env st io =
     (if \<not> st_ready st \<or> st_reset_sent st \<or> st_reset_received st then (st, io)
      else snd (redp2p_stream_send_control env REDP2P_STREAM_TYPE_RESET (st\<lparr>st_reset_sent := True\<rparr>) io))"

section \<open>Draining\<close>

text \<open>The bytes the socket takes before \<^verbatim>\<open>redp2p_write_all\<close> returns.\<close>

function written_part :: "('a list \<Rightarrow> int) \<Rightarrow> 'a list \<Rightarrow> 'a list" where
  "written_part sock_write buf =
     (if buf = [] then []
      else let n = sock_write buf
           in if n \<le> 0 then [] else take (nat n) buf @ written_part sock_write (drop (nat n) buf))"
  by pat_completeness auto
termination by (relation "measure (\<lambda>(w, buf). length buf)") auto

declare written_part.simps [simp del]

lemma merge_fragments_shorter: "xs \<noteq> [] \<Longrightarrow> length (snd (merge_fragments xs)) < length xs"
proof (induction xs)
  case (Cons x xs)
  then show ?case by (cases "xs = []") (auto simp: case_prod_unfold Let_def)
qed simp

lemma move_ready_total: "length (k_rcv_queue (move_ready kcp)) + length (k_rcv_buf (move_ready kcp)) = length (k_rcv_queue kcp) + length (k_rcv_buf kcp)"
proof (induction kcp rule: move_ready.induct)
  case (1 kcp)
  then show ?case by (cases "k_rcv_buf kcp") (simp_all add: move_ready.simps [of kcp])
qed

lemma ikcp_recv_shrinks:
  assumes "ikcp_recv kcp len = (r, buf, kcp')" "0 \<le> len" "0 \<le> r"
  shows "length (k_rcv_queue kcp') + length (k_rcv_buf kcp') < length (k_rcv_queue kcp) + length (k_rcv_buf kcp)"
proof -
  have "k_rcv_queue kcp \<noteq> []" using assms by (auto simp: ikcp_recv_def)
  then show ?thesis
    using assms merge_fragments_shorter [of "k_rcv_queue kcp"] move_ready_total [of "kcp\<lparr>k_rcv_queue := snd (merge_fragments (k_rcv_queue kcp))\<rparr>"]
    by (auto simp: ikcp_recv_def Let_def case_prod_unfold split: if_splits)
qed

function redp2p_stream_drain :: "stream_env \<Rightarrow> ikcpcb \<Rightarrow> stream_io \<Rightarrow> int \<times> ikcpcb \<times> stream_io" where
  "redp2p_stream_drain env kcp io =
     (let available = ikcp_peeksize kcp
      in if available < 0 then (0, kcp, io)
         else if available > int REDP2P_BUF then (- 1, kcp, io_error ''stream: KCP receive chunk exceeds buffer'' io)
         else case ikcp_recv kcp (int REDP2P_BUF) of (received, buf, kcp') \<Rightarrow>
           if received < 0 then (- 1, kcp', io_error ''stream: KCP receive failed'' io)
           else let write = env_tcp_write env (io_log io);
                    io' = (if received > 0 then emit (Tcp (written_part write buf)) io else io)
                in if received > 0 \<and> redp2p_write_all write buf \<noteq> 0
                   then (- 1, kcp', io_error ''stream: local TCP write failed'' io')
                   else redp2p_stream_drain env kcp' io')"
  by pat_completeness auto
termination
proof (relation "measure (\<lambda>(env, kcp, io). length (k_rcv_queue kcp) + length (k_rcv_buf kcp))")
qed (auto dest!: sym [of "(_, _, _)" "ikcp_recv _ _"] ikcp_recv_shrinks simp: not_less)

declare redp2p_stream_drain.simps [simp del]

section \<open>Packets from the peer\<close>

definition stream_kcp_packet ::
  "stream_env \<Rightarrow> byte list \<Rightarrow> redp2p_stream_state_t \<Rightarrow> stream_io \<Rightarrow> int \<times> redp2p_stream_state_t \<times> stream_io" where
  "stream_kcp_packet env payload st io =
     (case ikcp_input (the (st_kcp st)) payload of (input_result, kcp) \<Rightarrow>
        if input_result \<noteq> 0
        then (- 1, st\<lparr>st_kcp := Some kcp\<rparr>, io_error (''stream: KCP input failed ('' @ (if input_result < 0 then ''-'' else []) @
                dec_text (nat \<bar>input_result\<bar>) @ '')'') io)
        else case redp2p_stream_drain env kcp io of (r, kcp', io') \<Rightarrow>
          (r, st\<lparr>st_kcp := Some kcp', st_next_update_ms := ucast (clock env io)\<rparr>, io'))"

definition stream_close_packet ::
  "stream_env \<Rightarrow> redp2p_stream_state_t \<Rightarrow> stream_io \<Rightarrow> int \<times> redp2p_stream_state_t \<times> stream_io" where
  "stream_close_packet env st io =
     (case redp2p_stream_drain env (the (st_kcp st)) io of (r, kcp, io) \<Rightarrow>
        if r \<noteq> 0 then (- 1, st\<lparr>st_kcp := Some kcp\<rparr>, io)
        else let io = (if \<not> st_remote_close st then emit Shut io else io)
             in redp2p_stream_send_control env REDP2P_STREAM_TYPE_CLOSE_ACK (st\<lparr>st_kcp := Some kcp, st_remote_close := True\<rparr>) io)"

definition redp2p_stream_process_packet ::
  "stream_env \<Rightarrow> byte list \<Rightarrow> redp2p_stream_state_t \<Rightarrow> stream_io \<Rightarrow> int \<times> redp2p_stream_state_t \<times> stream_io" where
  "redp2p_stream_process_packet env buf st io =
     (case redp2p_stream_unpack buf of
        None \<Rightarrow> (0, st, io)
      | Some envelope \<Rightarrow>
          let expected_role = (if st_initiator st then REDP2P_STREAM_ROLE_RESPONDER else REDP2P_STREAM_ROLE_INITIATOR)
          in if en_role envelope \<noteq> expected_role \<or> en_protocol envelope \<noteq> st_transport_protocol st
               \<or> en_session_id envelope \<noteq> st_session_id st then (0, st, io)
             else if en_type envelope = REDP2P_STREAM_TYPE_HELLO \<and> \<not> st_initiator st
             then (case redp2p_stream_send_control env REDP2P_STREAM_TYPE_HELLO_ACK st io of (r, st, io) \<Rightarrow>
                     if r \<noteq> 0 then (- 1, st, io) else (0, st\<lparr>st_ready := True\<rparr>, io))
             else if en_type envelope = REDP2P_STREAM_TYPE_HELLO_ACK \<and> st_initiator st
             then (0, st\<lparr>st_ready := True\<rparr>, io)
             else if \<not> st_ready st then (0, st, io)
             else if en_type envelope = REDP2P_STREAM_TYPE_KCP then stream_kcp_packet env (en_payload envelope) st io
             else if en_type envelope = REDP2P_STREAM_TYPE_CLOSE then stream_close_packet env st io
             else if en_type envelope = REDP2P_STREAM_TYPE_CLOSE_ACK then (0, st\<lparr>st_close_acked := True\<rparr>, io)
             else if en_type envelope = REDP2P_STREAM_TYPE_RESET
             then (- 1, st\<lparr>st_reset_received := True\<rparr>, io_error ''stream: peer reset'' io)
             else (0, st, io))"

section \<open>Local bytes\<close>

text \<open>What a read of the local socket answers; at most \<^verbatim>\<open>REDP2P_BUF\<close> bytes are taken.\<close>

datatype tcp_read = Read_error | Would_block | Eof | Data "byte list"

definition redp2p_stream_pump_tcp ::
  "stream_env \<Rightarrow> tcp_read \<Rightarrow> redp2p_stream_state_t \<Rightarrow> stream_io \<Rightarrow> int \<times> redp2p_stream_state_t \<times> stream_io" where
  "redp2p_stream_pump_tcp env input st io =
     (if \<not> redp2p_stream_can_send_data st then (0, st, io)
      else case input of
        Would_block \<Rightarrow> (0, st, io)
      | Read_error \<Rightarrow> (- 1, st, io_error ''stream: local TCP read failed'' io)
      | Eof \<Rightarrow> (0, st\<lparr>st_local_eof := True\<rparr>, io)
      | Data bytes \<Rightarrow>
          let buf = take REDP2P_BUF bytes
          in if buf = [] then (0, st\<lparr>st_local_eof := True\<rparr>, io)
             else case ikcp_send (the (st_kcp st)) buf of (sent, kcp) \<Rightarrow>
               if sent \<noteq> int (length buf) then (- 1, st\<lparr>st_kcp := Some kcp\<rparr>, io_error ''stream: KCP send failed'' io)
               else (0, st\<lparr>st_kcp := Some kcp, st_next_update_ms := ucast (clock env io)\<rparr>, io))"

section \<open>The clock\<close>

definition tick_hello :: "stream_env \<Rightarrow> u64 \<Rightarrow> redp2p_stream_state_t \<Rightarrow> stream_io \<Rightarrow> int \<times> redp2p_stream_state_t \<times> stream_io" where
  "tick_hello env now st io =
     (if st_initiator st \<and> \<not> st_ready st \<and> (\<not> st_hello_sent st \<or> now - st_last_hello_ms st \<ge> REDP2P_STREAM_HELLO_MS)
      then (case redp2p_stream_send_control env REDP2P_STREAM_TYPE_HELLO st io of (r, st, io) \<Rightarrow>
              if r \<noteq> 0 then (- 1, st, io) else (0, st\<lparr>st_hello_sent := True, st_last_hello_ms := now\<rparr>, io))
      else (0, st, io))"

definition tick_update :: "stream_env \<Rightarrow> u64 \<Rightarrow> redp2p_stream_state_t \<Rightarrow> stream_io \<Rightarrow> redp2p_stream_state_t \<times> stream_io" where
  "tick_update env now st io =
     (let current = (ucast now :: u32)
      in if st_ready st \<and> sint (current - st_next_update_ms st) \<ge> 0
         then (case ikcp_update (the (st_kcp st)) current of (kcp, outs) \<Rightarrow>
                 case fold (redp2p_stream_kcp_output env) outs (the (st_adapter st), io) of (adapter, io) \<Rightarrow>
                   (st\<lparr>st_kcp := Some kcp, st_adapter := Some adapter, st_next_update_ms := ikcp_check kcp current\<rparr>, io))
         else (st, io))"

definition tick_close :: "stream_env \<Rightarrow> u64 \<Rightarrow> redp2p_stream_state_t \<Rightarrow> stream_io \<Rightarrow> int \<times> redp2p_stream_state_t \<times> stream_io" where
  "tick_close env now st io =
     (if st_ready st \<and> st_local_eof st \<and> \<not> st_close_acked st \<and> ikcp_waitsnd (the (st_kcp st)) = 0
         \<and> (\<not> st_close_sent st \<or> now - st_last_close_ms st \<ge> REDP2P_STREAM_CLOSE_MS)
      then (case redp2p_stream_send_control env REDP2P_STREAM_TYPE_CLOSE st io of (r, st, io) \<Rightarrow>
              if r \<noteq> 0 then (- 1, st, io) else (0, st\<lparr>st_close_sent := True, st_last_close_ms := now\<rparr>, io))
      else (0, st, io))"

definition tick_keepalive :: "stream_env \<Rightarrow> u64 \<Rightarrow> redp2p_stream_state_t \<Rightarrow> stream_io \<Rightarrow> int \<times> redp2p_stream_state_t \<times> stream_io" where
  "tick_keepalive env now st io =
     (if st_ready st \<and> now - st_last_keepalive_ms st \<ge> REDP2P_KEEPALIVE_S * 1000
      then (case redp2p_stream_send_control env REDP2P_STREAM_TYPE_KEEPALIVE st io of (r, st, io) \<Rightarrow>
              if r \<noteq> 0 then (- 1, st, io) else (0, st\<lparr>st_last_keepalive_ms := now\<rparr>, io))
      else (0, st, io))"

definition redp2p_stream_tick :: "stream_env \<Rightarrow> redp2p_stream_state_t \<Rightarrow> stream_io \<Rightarrow> int \<times> redp2p_stream_state_t \<times> stream_io" where
  "redp2p_stream_tick env st io =
     (if \<not> st_enabled st then (0, st, io)
      else let now = clock env io
           in case tick_hello env now st io of (r, st, io) \<Rightarrow>
             if r \<noteq> 0 then (- 1, st, io)
             else case tick_update env now st io of (st, io) \<Rightarrow>
               if a_send_error (the (st_adapter st)) then (- 1, st, io_error ''stream: KCP UDP output failed'' io)
               else case tick_close env now st io of (r, st, io) \<Rightarrow>
                 if r \<noteq> 0 then (- 1, st, io) else tick_keepalive env now st io)"

definition redp2p_stream_wait_ms :: "redp2p_stream_state_t option \<Rightarrow> u64 \<Rightarrow> u32" where
  "redp2p_stream_wait_ms sto now =
     (case sto of
        None \<Rightarrow> 1000
      | Some st \<Rightarrow>
          if \<not> st_enabled st then 1000
          else if \<not> st_ready st
          then (if \<not> st_initiator st then 1000
                else if \<not> st_hello_sent st \<or> now - st_last_hello_ms st \<ge> REDP2P_STREAM_HELLO_MS then 0
                else ucast (REDP2P_STREAM_HELLO_MS - (now - st_last_hello_ms st)))
          else let difference = sint (st_next_update_ms st - ucast now)
               in if difference \<le> 0 then 0 else if difference > 1000 then 1000 else word_of_int difference)"

section \<open>Closing\<close>

definition redp2p_stream_is_done :: "redp2p_stream_state_t \<Rightarrow> bool" where
  "redp2p_stream_is_done st \<longleftrightarrow> st_local_eof st \<and> st_close_acked st \<and> st_remote_close st
     \<and> (case st_kcp st of None \<Rightarrow> False | Some kcp \<Rightarrow> ikcp_waitsnd kcp = 0)"

definition redp2p_stream_wipe :: "redp2p_stream_state_t \<Rightarrow> redp2p_stream_state_t" where
  "redp2p_stream_wipe st = zero_stream"

end
