(* ===== verification/Kcp_Wire.thy ===== *)
theory Kcp_Wire
  imports Kcp
begin

text \<open>
  The wire form of KCP segments: fields are read back as they were written, a datagram built from
  segments is taken apart into the same segments, and the datagrams of a flush stay within the MTU.
\<close>

section \<open>Fields\<close>

lemma decode32_encode32: "ikcp_decode32u (ikcp_encode32u l @ r) = l"
proof (rule bit_word_eqI)
  fix n assume n: "n < LENGTH(32)"
  consider "n < 8" | "8 \<le> n" "n < 16" | "16 \<le> n" "n < 24" | "24 \<le> n" by linarith
  then show "bit (ikcp_decode32u (ikcp_encode32u l @ r)) n = bit l n"
    using n by cases (auto simp: ikcp_decode32u_def ikcp_encode32u_def bit_simps)
qed

lemma decode16_encode16: "ikcp_decode16u (ikcp_encode16u w @ r) = w"
  by (rule bit_word_eqI) (auto simp: ikcp_decode16u_def ikcp_encode16u_def bit_simps)

lemma encode_lengths [simp]:
  "length (ikcp_encode32u l) = 4" "length (ikcp_encode16u w) = 2" "length (ikcp_encode8u c) = 1"
  by (simp_all add: ikcp_encode32u_def ikcp_encode16u_def ikcp_encode8u_def)

lemma length_encode_seg [simp]: "length (ikcp_encode_seg seg) = IKCP_OVERHEAD"
  by (simp add: ikcp_encode_seg_def macros)

text \<open>What the receiver reads of a segment: the narrow fields lose their upper bits.\<close>

definition wire_view :: "IKCPSEG \<Rightarrow> IKCPSEG" where
  "wire_view seg = \<lparr>seg_conv = seg_conv seg, seg_cmd = ucast (ucast (seg_cmd seg) :: byte),
     seg_frg = ucast (ucast (seg_frg seg) :: byte), seg_wnd = ucast (ucast (seg_wnd seg) :: 16 word),
     seg_ts = seg_ts seg, seg_sn = seg_sn seg, seg_una = seg_una seg,
     seg_resendts = 0, seg_rto = 0, seg_fastack = 0, seg_xmit = 0, seg_data = seg_data seg\<rparr>"

abbreviation wire :: "IKCPSEG \<Rightarrow> byte list" where
  "wire seg \<equiv> ikcp_encode_seg seg @ seg_data seg"

lemma decode_header_encode:
  "decode_header (ikcp_encode_seg seg @ r) = ((wire_view seg)\<lparr>seg_data := []\<rparr>, of_nat (length (seg_data seg)))"
proof -
  have d: "drop 6 (ikcp_encode_seg seg @ r) = ikcp_encode16u (ucast (seg_wnd seg)) @ drop 8 (ikcp_encode_seg seg @ r)"
    "drop 8 (ikcp_encode_seg seg @ r) = ikcp_encode32u (seg_ts seg) @ drop 12 (ikcp_encode_seg seg @ r)"
    "drop 12 (ikcp_encode_seg seg @ r) = ikcp_encode32u (seg_sn seg) @ drop 16 (ikcp_encode_seg seg @ r)"
    "drop 16 (ikcp_encode_seg seg @ r) = ikcp_encode32u (seg_una seg) @ drop 20 (ikcp_encode_seg seg @ r)"
    "drop 20 (ikcp_encode_seg seg @ r) = ikcp_encode32u (of_nat (length (seg_data seg))) @ r"
    "ikcp_encode_seg seg @ r = ikcp_encode32u (seg_conv seg) @ drop 4 (ikcp_encode_seg seg @ r)"
    by (simp_all add: ikcp_encode_seg_def ikcp_encode32u_def ikcp_encode16u_def ikcp_encode8u_def)
  have b: "(ikcp_encode_seg seg @ r) ! 4 = ucast (seg_cmd seg)" "(ikcp_encode_seg seg @ r) ! 5 = ucast (seg_frg seg)"
    by (simp_all add: ikcp_encode_seg_def ikcp_encode32u_def ikcp_encode16u_def ikcp_encode8u_def)
  have c: "ikcp_decode32u (ikcp_encode_seg seg @ r) = seg_conv seg" by (subst d(6)) (rule decode32_encode32)
  show ?thesis
    unfolding decode_header_def b c
    by (subst d(1), subst d(2), subst d(3), subst d(4), subst d(5))
      (simp only: decode32_encode32 decode16_encode16 wire_view_def IKCPSEG.update_convs)
qed

section \<open>Datagrams\<close>

text \<open>Segments that travel: the conversation's, of a known command, with a length that fits.\<close>

definition sendable :: "u32 \<Rightarrow> IKCPSEG \<Rightarrow> bool" where
  "sendable conv seg \<longleftrightarrow> seg_conv seg = conv \<and> length (seg_data seg) < 2 ^ 31
     \<and> seg_cmd seg \<in> {IKCP_CMD_PUSH, IKCP_CMD_ACK, IKCP_CMD_WASK, IKCP_CMD_WINS}"

lemma sendable_view: "sendable conv seg \<Longrightarrow> seg_cmd (wire_view seg) = seg_cmd seg"
  by (auto simp: sendable_def wire_view_def macros)

lemma sint_small: "n < 2 ^ 31 \<Longrightarrow> sint (of_nat n :: u32) = int n"
proof -
  assume "n < 2 ^ 31"
  then have "int n < 2 ^ 31" by (metis of_nat_less_iff of_nat_numeral of_nat_power)
  then have "signed_take_bit 31 (int n) = int n" by (intro signed_take_bit_int_eq_self) simp_all
  then show ?thesis by (simp add: signed_of_nat)
qed

lemma input_loop_step:
  assumes "sendable (k_conv kcp) seg"
  shows "input_loop kcp best (wire seg @ r) =
    (let (kcp', best') = input_segment kcp best (wire_view seg) in input_loop kcp' best' r)"
proof -
  have l: "unat (of_nat (length (seg_data seg)) :: u32) = length (seg_data seg)"
    using assms by (simp add: sendable_def unat_of_nat)
  have s: "\<not> sint (of_nat (length (seg_data seg)) :: u32) < 0"
    using assms by (simp add: sendable_def sint_small)
  have c: "seg_conv (wire_view seg) = k_conv kcp" "seg_cmd (wire_view seg) \<in> {IKCP_CMD_PUSH, IKCP_CMD_ACK, IKCP_CMD_WASK, IKCP_CMD_WINS}"
    using assms sendable_view [OF assms] by (auto simp: sendable_def wire_view_def)
  have d: "drop IKCP_OVERHEAD (ikcp_encode_seg seg @ seg_data seg @ r) = seg_data seg @ r" by simp
  have e: "(wire_view seg)\<lparr>seg_data := []\<rparr>\<lparr>seg_data := seg_data seg\<rparr> = wire_view seg" by (simp add: wire_view_def)
  show ?thesis
    unfolding append_assoc
    by (subst input_loop.simps) (use c s in \<open>simp add: decode_header_encode d l e Let_def\<close>)
qed

lemma input_loop_short: "length data < IKCP_OVERHEAD \<Longrightarrow> input_loop kcp best data = (0, kcp, best)"
  by (simp add: input_loop.simps)

fun input_segments :: "ikcpcb \<Rightarrow> (u32 \<times> u32) option \<Rightarrow> IKCPSEG list \<Rightarrow> ikcpcb \<times> (u32 \<times> u32) option" where
  "input_segments kcp best [] = (kcp, best)"
| "input_segments kcp best (seg # segs) =
     (let (kcp', best') = input_segment kcp best (wire_view seg) in input_segments kcp' best' segs)"

lemma grow_cwnd_frame [simp]:
  "k_conv (grow_cwnd kcp) = k_conv kcp" "k_mtu (grow_cwnd kcp) = k_mtu kcp" "k_mss (grow_cwnd kcp) = k_mss kcp"
  "k_stream (grow_cwnd kcp) = k_stream kcp" "k_snd_nxt (grow_cwnd kcp) = k_snd_nxt kcp" "k_rcv_nxt (grow_cwnd kcp) = k_rcv_nxt kcp"
  "k_rcv_wnd (grow_cwnd kcp) = k_rcv_wnd kcp" "k_snd_queue (grow_cwnd kcp) = k_snd_queue kcp" "k_rcv_queue (grow_cwnd kcp) = k_rcv_queue kcp"
  "k_snd_buf (grow_cwnd kcp) = k_snd_buf kcp" "k_rcv_buf (grow_cwnd kcp) = k_rcv_buf kcp" "k_acklist (grow_cwnd kcp) = k_acklist kcp"
  by (simp_all add: grow_cwnd_def Let_def)

lemma move_ready_frame [simp]:
  "k_conv (move_ready kcp) = k_conv kcp" "k_mtu (move_ready kcp) = k_mtu kcp" "k_mss (move_ready kcp) = k_mss kcp"
  "k_stream (move_ready kcp) = k_stream kcp" "k_snd_nxt (move_ready kcp) = k_snd_nxt kcp"
  "k_rcv_wnd (move_ready kcp) = k_rcv_wnd kcp" "k_snd_queue (move_ready kcp) = k_snd_queue kcp"
  "k_snd_buf (move_ready kcp) = k_snd_buf kcp" "k_acklist (move_ready kcp) = k_acklist kcp" "k_probe (move_ready kcp) = k_probe kcp"
  by (induction kcp rule: move_ready.induct; subst move_ready.simps; simp split: list.split)+

lemma update_ack_frame [simp]:
  "k_conv (ikcp_update_ack kcp rtt) = k_conv kcp" "k_mtu (ikcp_update_ack kcp rtt) = k_mtu kcp" "k_mss (ikcp_update_ack kcp rtt) = k_mss kcp"
  "k_stream (ikcp_update_ack kcp rtt) = k_stream kcp" "k_snd_nxt (ikcp_update_ack kcp rtt) = k_snd_nxt kcp"
  "k_rcv_nxt (ikcp_update_ack kcp rtt) = k_rcv_nxt kcp" "k_rcv_wnd (ikcp_update_ack kcp rtt) = k_rcv_wnd kcp"
  "k_snd_queue (ikcp_update_ack kcp rtt) = k_snd_queue kcp" "k_rcv_queue (ikcp_update_ack kcp rtt) = k_rcv_queue kcp"
  "k_snd_buf (ikcp_update_ack kcp rtt) = k_snd_buf kcp" "k_rcv_buf (ikcp_update_ack kcp rtt) = k_rcv_buf kcp"
  "k_acklist (ikcp_update_ack kcp rtt) = k_acklist kcp"
  by (simp_all add: ikcp_update_ack_def Let_def case_prod_unfold)

lemmas input_defs = input_segment_def input_ack_def input_push_def ikcp_shrink_buf_def ikcp_parse_una_def ikcp_parse_ack_def
  ikcp_parse_data_def ikcp_ack_push_def Let_def

lemma input_segment_conv [simp]: "k_conv (fst (input_segment kcp best seg)) = k_conv kcp"
  by (simp add: input_defs)

lemma input_loop_segments:
  assumes "list_all (sendable (k_conv kcp)) segs"
  shows "input_loop kcp best (concat (map wire segs)) = (0, input_segments kcp best segs)"
  using assms
proof (induction segs arbitrary: kcp best)
  case Nil
  then show ?case by (simp add: input_loop_short macros)
next
  case (Cons seg segs)
  obtain kcp' best' where e: "input_segment kcp best (wire_view seg) = (kcp', best')" by fastforce
  then have "k_conv kcp' = k_conv kcp" using input_segment_conv [of kcp best "wire_view seg"] by simp
  with Cons e show ?case using input_loop_step [of kcp seg best "concat (map wire segs)"] by simp
qed

text \<open>A datagram is packed from segments with \<open>P\<close>; the output buffer keeps to the MTU.\<close>

definition datagram :: "(IKCPSEG \<Rightarrow> bool) \<Rightarrow> byte list \<Rightarrow> bool" where
  "datagram P d \<longleftrightarrow> (\<exists>segs. d = concat (map wire segs) \<and> list_all P segs)"

definition packed :: "nat \<Rightarrow> (IKCPSEG \<Rightarrow> bool) \<Rightarrow> byte list list \<times> byte list \<Rightarrow> bool" where
  "packed mtu P out \<longleftrightarrow> (\<forall>d \<in> set (fst out). datagram P d \<and> d \<noteq> [] \<and> length d \<le> mtu)
     \<and> datagram P (snd out) \<and> length (snd out) \<le> mtu"

lemma datagram_mono: "datagram P d \<Longrightarrow> (\<And>seg. P seg \<Longrightarrow> Q seg) \<Longrightarrow> datagram Q d"
  by (auto simp: datagram_def list_all_iff)

lemma datagram_one: "P seg \<Longrightarrow> datagram P (wire seg)"
  unfolding datagram_def by (intro exI [of _ "[seg]"]) simp

lemma datagram_append: "datagram P d \<Longrightarrow> P seg \<Longrightarrow> datagram P (d @ wire seg)"
proof -
  assume "datagram P d" "P seg"
  then obtain segs where "d = concat (map wire segs)" "list_all P segs" by (auto simp: datagram_def)
  with \<open>P seg\<close> show ?thesis unfolding datagram_def by (intro exI [of _ "segs @ [seg]"]) simp
qed

lemma packed_Nil: "packed mtu P ([], [])"
  by (auto simp: packed_def datagram_def intro: exI [of _ "[]"])

lemma packed_put:
  assumes "packed mtu P out" "P seg" "length (wire seg) \<le> mtu"
  shows "packed mtu P (put_item mtu (wire seg) out)"
  using assms datagram_one [of P seg] datagram_append [of P "snd out" seg]
  by (auto simp: packed_def put_item_def)

lemma packed_fold:
  assumes "packed mtu P out" "\<forall>x \<in> set xs. P (f x) \<and> length (wire (f x)) \<le> mtu"
  shows "packed mtu P (fold (\<lambda>x. put_item mtu (wire (f x))) xs out)"
  using assms by (induction xs arbitrary: out) (simp_all add: packed_put)

section \<open>What a flush does\<close>

text \<open>Everything of a segment but its timers and the fields refreshed at each transmission.\<close>

definition core :: "IKCPSEG \<Rightarrow> u32 \<times> u32 \<times> u32 \<times> u32 \<times> byte list" where
  "core seg = (seg_conv seg, seg_cmd seg, seg_frg seg, seg_sn seg, seg_data seg)"

lemma transmit_core: "core (snd (snd (snd (transmit kcp resent rtomin seg)))) = core seg"
  by (simp add: transmit_def core_def Let_def)

lemma flush_segment_keeps:
  assumes "\<And>t. core t = core seg \<Longrightarrow> seg_una t = k_rcv_nxt kcp \<Longrightarrow> P t" "length (wire seg) \<le> unat (k_mtu kcp)"
    "packed (unat (k_mtu kcp)) P (fl_out fl)"
  shows "map core (fl_buf (flush_segment kcp resent rtomin seg fl)) = map core (fl_buf fl) @ [core seg]"
    "packed (unat (k_mtu kcp)) P (fl_out (flush_segment kcp resent rtomin seg fl))"
proof -
  obtain n l f t where t: "transmit kcp resent rtomin seg = (n, l, f, t)" by (metis prod_cases4)
  have c: "core t = core seg" using transmit_core [of kcp resent rtomin seg] t by simp
  let ?t = "t\<lparr>seg_ts := k_current kcp, seg_wnd := ikcp_wnd_unused kcp, seg_una := k_rcv_nxt kcp\<rparr>"
  have ct: "core ?t = core seg" using c by (simp add: core_def)
  then have "P ?t" by (intro assms(1)) simp_all
  moreover have "length (wire ?t) \<le> unat (k_mtu kcp)" using ct assms(2) by (simp add: core_def)
  ultimately have p: "packed (unat (k_mtu kcp)) P (put_item (unat (k_mtu kcp)) (wire ?t) (fl_out fl))"
    by (intro packed_put assms(3))
  show "map core (fl_buf (flush_segment kcp resent rtomin seg fl)) = map core (fl_buf fl) @ [core seg]"
    using c ct by (simp add: flush_segment_def t Let_def)
  show "packed (unat (k_mtu kcp)) P (fl_out (flush_segment kcp resent rtomin seg fl))"
    using p assms(3) by (simp add: flush_segment_def t Let_def)
qed

lemma flush_segments_keeps:
  assumes "\<forall>seg \<in> set segs. \<forall>t. core t = core seg \<longrightarrow> seg_una t = k_rcv_nxt kcp \<longrightarrow> P t"
    "\<forall>seg \<in> set segs. length (wire seg) \<le> unat (k_mtu kcp)" "packed (unat (k_mtu kcp)) P (fl_out fl)"
  shows "map core (fl_buf (fold (flush_segment kcp resent rtomin) segs fl)) = map core (fl_buf fl) @ map core segs
    \<and> packed (unat (k_mtu kcp)) P (fl_out (fold (flush_segment kcp resent rtomin) segs fl))"
  using assms
proof (induction segs arbitrary: fl)
  case (Cons seg segs)
  note f = flush_segment_keeps [of seg kcp P fl resent rtomin]
  have "map core (fl_buf (flush_segment kcp resent rtomin seg fl)) = map core (fl_buf fl) @ [core seg]"
    "packed (unat (k_mtu kcp)) P (fl_out (flush_segment kcp resent rtomin seg fl))"
    using Cons.prems by (intro f; auto)+
  with Cons.IH [of "flush_segment kcp resent rtomin seg fl"] Cons.prems show ?case by simp
qed simp

lemma flush_cwnd_frame [simp]:
  "k_conv (flush_cwnd a b c d kcp) = k_conv kcp" "k_mtu (flush_cwnd a b c d kcp) = k_mtu kcp" "k_mss (flush_cwnd a b c d kcp) = k_mss kcp"
  "k_stream (flush_cwnd a b c d kcp) = k_stream kcp" "k_snd_nxt (flush_cwnd a b c d kcp) = k_snd_nxt kcp"
  "k_rcv_nxt (flush_cwnd a b c d kcp) = k_rcv_nxt kcp" "k_rcv_wnd (flush_cwnd a b c d kcp) = k_rcv_wnd kcp"
  "k_snd_queue (flush_cwnd a b c d kcp) = k_snd_queue kcp" "k_rcv_queue (flush_cwnd a b c d kcp) = k_rcv_queue kcp"
  "k_snd_buf (flush_cwnd a b c d kcp) = k_snd_buf kcp" "k_rcv_buf (flush_cwnd a b c d kcp) = k_rcv_buf kcp"
  "k_acklist (flush_cwnd a b c d kcp) = k_acklist kcp"
  by (simp_all add: flush_cwnd_def Let_def)

lemma update_probe_frame [simp]:
  "k_conv (update_probe kcp) = k_conv kcp" "k_mtu (update_probe kcp) = k_mtu kcp" "k_mss (update_probe kcp) = k_mss kcp"
  "k_stream (update_probe kcp) = k_stream kcp" "k_snd_nxt (update_probe kcp) = k_snd_nxt kcp"
  "k_rcv_nxt (update_probe kcp) = k_rcv_nxt kcp" "k_rcv_wnd (update_probe kcp) = k_rcv_wnd kcp"
  "k_snd_queue (update_probe kcp) = k_snd_queue kcp" "k_rcv_queue (update_probe kcp) = k_rcv_queue kcp"
  "k_snd_buf (update_probe kcp) = k_snd_buf kcp" "k_rcv_buf (update_probe kcp) = k_rcv_buf kcp"
  "k_acklist (update_probe kcp) = k_acklist kcp"
  by (simp_all add: update_probe_def Let_def)

end
