(* ===== verification/Kcp_Channel.thy ===== *)
theory Kcp_Channel
  imports Kcp_Wire
begin

text \<open>
  Two KCP control blocks joined by a network that loses, duplicates, delays and reorders
  datagrams. Each direction is described by the list of payloads its sender has numbered so far,
  the sequence number being the position in the list. The invariant relates that list to the
  bytes handed to \<^verbatim>\<open>ikcp_send\<close>, to the segments in flight, and to what the receiver has
  buffered and delivered. Sequence numbers are compared with 32-bit wrap-around; the results hold
  for connections of fewer than \<open>2 ^ 30\<close> segments per direction, so that comparisons of live
  sequence numbers are comparisons of numbers.
\<close>

section \<open>Sequence numbers\<close>

lemma itimediff_eq:
  assumes "- (2 ^ 31) \<le> uint a - uint b" "uint a - uint b < 2 ^ 31"
  shows "itimediff a b = uint a - uint b"
proof -
  have "sint (word_of_int (uint a - uint b) :: u32) = signed_take_bit 31 (uint a - uint b)"
    by (simp only: sint_sbintrunc') simp
  also have "\<dots> = uint a - uint b" using assms by (intro signed_take_bit_int_eq_self) simp_all
  finally show ?thesis by (simp add: itimediff_def)
qed

lemma uint_bound: "unat (a :: u32) < 2 ^ n \<longleftrightarrow> uint a < 2 ^ n"
  using of_nat_less_iff [of "unat a" "2 ^ n", where 'a = int] by simp

lemma seq_cmp:
  assumes "unat a < 2 ^ 31" "unat b < 2 ^ 31"
  shows "itimediff a b < 0 \<longleftrightarrow> unat a < unat b" "0 \<le> itimediff a b \<longleftrightarrow> unat b \<le> unat a" "0 < itimediff a b \<longleftrightarrow> unat b < unat a"
proof -
  have "uint a < 2 ^ 31" "uint b < 2 ^ 31" using assms by (simp_all only: uint_bound)
  moreover have "0 \<le> uint a" "0 \<le> uint b" by simp_all
  ultimately have "itimediff a b = uint a - uint b" by (intro itimediff_eq) linarith+
  then show "itimediff a b < 0 \<longleftrightarrow> unat a < unat b" "0 \<le> itimediff a b \<longleftrightarrow> unat b \<le> unat a"
      "0 < itimediff a b \<longleftrightarrow> unat b < unat a"
    by (simp_all add: word_less_nat_alt word_le_nat_alt word_less_def word_le_def flip: word_less_nat_alt word_le_nat_alt)
qed

lemma unat_inc: "unat (w :: u32) < 2 ^ 30 \<Longrightarrow> unat (w + 1) = unat w + 1"
  by (simp add: unat_plus_if')

definition sns :: "IKCPSEG list \<Rightarrow> nat list" where
  "sns segs = map (\<lambda>s. unat (seg_sn s)) segs"

lemma sns_simps [simp]: "sns [] = []" "sns (s # ss) = unat (seg_sn s) # sns ss" "sns (xs @ ys) = sns xs @ sns ys"
  by (simp_all add: sns_def)

lemma set_sns: "n \<in> set (sns ss) \<longleftrightarrow> (\<exists>s \<in> set ss. n = unat (seg_sn s))"
  by (auto simp: sns_def)

section \<open>Inserting into the receive buffer\<close>

lemma insert_segment_snoc:
  "insert_segment new (xs @ [x]) =
     (if seg_sn x \<noteq> seg_sn new \<and> \<not> itimediff (seg_sn new) (seg_sn x) > 0 then insert_segment new xs @ [x]
      else if seg_sn x = seg_sn new then xs @ [x] else xs @ [x, new])"
  by (simp add: insert_segment_def Let_def)

lemma insert_segment_sorted:
  assumes "sorted_wrt (<) (sns buf)" "unat (seg_sn new) < 2 ^ 30" "\<forall>n \<in> set (sns buf). n < 2 ^ 30"
  shows "sorted_wrt (<) (sns (insert_segment new buf))
    \<and> set (insert_segment new buf) = (if unat (seg_sn new) \<in> set (sns buf) then set buf else insert new (set buf))"
  using assms
proof (induction buf rule: rev_induct)
  case (snoc x xs)
  have d: "0 < itimediff (seg_sn new) (seg_sn x) \<longleftrightarrow> unat (seg_sn x) < unat (seg_sn new)"
    using snoc.prems by (intro seq_cmp(3)) simp_all
  have neq: "seg_sn x = seg_sn new \<longleftrightarrow> unat (seg_sn x) = unat (seg_sn new)" by (metis word_unat_eq_iff)
  have IH: "sorted_wrt (<) (sns (insert_segment new xs))"
    "set (insert_segment new xs) = (if unat (seg_sn new) \<in> set (sns xs) then set xs else insert new (set xs))"
    using snoc by (simp_all add: sorted_wrt_append)
  have lt: "\<forall>n \<in> set (sns xs). n < unat (seg_sn x)" using snoc.prems(1) by (auto simp: sorted_wrt_append)
  show ?case
  proof (cases "unat (seg_sn new) < unat (seg_sn x)")
    case True
    then have e: "insert_segment new (xs @ [x]) = insert_segment new xs @ [x]" by (simp add: insert_segment_snoc d) auto
    have "\<forall>n \<in> set (sns (insert_segment new xs)). n < unat (seg_sn x)"
      using IH(2) lt True by (auto simp: set_sns split: if_splits)
    then show ?thesis using IH True by (auto simp: e sorted_wrt_append)
  next
    case False
    then show ?thesis
      using snoc.prems(1) lt by (auto simp: insert_segment_snoc d neq sorted_wrt_append)
  qed
qed (simp add: insert_segment_def)

section \<open>The receiving side\<close>

definition data_of :: "byte list list \<Rightarrow> IKCPSEG \<Rightarrow> bool" where
  "data_of S seg \<longleftrightarrow> unat (seg_sn seg) < length S \<and> seg_data seg = S ! unat (seg_sn seg) \<and> seg_frg seg = 0"

definition received :: "ikcpcb \<Rightarrow> nat set" where
  "received kcp = {n. n < unat (k_rcv_nxt kcp)} \<union> set (sns (k_rcv_buf kcp))"

definition rcv_pre :: "byte list list \<Rightarrow> byte list \<Rightarrow> ikcpcb \<Rightarrow> bool" where
  "rcv_pre T got kcp \<longleftrightarrow> unat (k_rcv_nxt kcp) \<le> length T \<and> length T < 2 ^ 30
     \<and> got @ concat (map seg_data (k_rcv_queue kcp)) = concat (take (unat (k_rcv_nxt kcp)) T)
     \<and> (\<forall>seg \<in> set (k_rcv_queue kcp). seg_frg seg = 0)
     \<and> sorted_wrt (<) (sns (k_rcv_buf kcp))
     \<and> (\<forall>seg \<in> set (k_rcv_buf kcp). data_of T seg \<and> unat (k_rcv_nxt kcp) \<le> unat (seg_sn seg))"

definition all_moved :: "ikcpcb \<Rightarrow> bool" where
  "all_moved kcp \<longleftrightarrow> (k_rcv_buf kcp \<noteq> [] \<longrightarrow> seg_sn (hd (k_rcv_buf kcp)) = k_rcv_nxt kcp \<longrightarrow>
     unat (k_rcv_wnd kcp) \<le> length (k_rcv_queue kcp))"

definition rcv_inv :: "byte list list \<Rightarrow> byte list \<Rightarrow> ikcpcb \<Rightarrow> bool" where
  "rcv_inv T got kcp \<longleftrightarrow> rcv_pre T got kcp \<and> all_moved kcp"

lemma move_ready_keeps:
  "rcv_pre T got kcp \<Longrightarrow> rcv_inv T got (move_ready kcp) \<and> received (move_ready kcp) = received kcp"
proof (induction kcp rule: move_ready.induct)
  case (1 kcp)
  show ?case
  proof (cases "k_rcv_buf kcp")
    case Nil
    then have "move_ready kcp = kcp" by (simp add: move_ready.simps)
    then show ?thesis using 1(2) Nil by (simp add: rcv_inv_def all_moved_def)
  next
    case (Cons seg rest)
    show ?thesis
    proof (cases "seg_sn seg = k_rcv_nxt kcp \<and> length (k_rcv_queue kcp) < unat (k_rcv_wnd kcp)")
      case True
      let ?kcp = "kcp\<lparr>k_rcv_buf := rest, k_rcv_queue := k_rcv_queue kcp @ [seg], k_rcv_nxt := k_rcv_nxt kcp + 1\<rparr>"
      have m: "move_ready kcp = move_ready ?kcp" using Cons True by (subst move_ready.simps) simp
      have d: "data_of T seg" using 1(2) Cons by (simp add: rcv_pre_def)
      have n: "unat (k_rcv_nxt kcp + 1) = Suc (unat (k_rcv_nxt kcp))"
        using d True 1(2) by (simp add: unat_inc data_of_def rcv_pre_def)
      have t: "take (Suc (unat (k_rcv_nxt kcp))) T = take (unat (k_rcv_nxt kcp)) T @ [seg_data seg]"
        using d True by (simp add: data_of_def take_Suc_conv_app_nth)
      have later: "Suc (unat (k_rcv_nxt kcp)) \<le> unat (seg_sn s)" if "s \<in> set rest" for s
      proof -
        have "unat (seg_sn s) \<in> set (sns rest)" using that by (auto simp: set_sns)
        then show ?thesis using 1(2) Cons True by (simp add: rcv_pre_def Suc_le_eq)
      qed
      have "rcv_pre T got ?kcp"
        using 1(2) Cons True d n t later by (auto simp: rcv_pre_def data_of_def simp flip: append_assoc)
      moreover have "received ?kcp = received kcp" using Cons True n by (auto simp: received_def less_Suc_eq)
      ultimately show ?thesis using 1(1) [OF Cons] True m by simp
    next
      case False
      then have "move_ready kcp = kcp" using Cons by (subst move_ready.simps) auto
      then show ?thesis using 1(2) Cons False by (auto simp: rcv_inv_def all_moved_def)
    qed
  qed
qed

lemma received_bound: "rcv_pre T got kcp \<Longrightarrow> n \<in> received kcp \<Longrightarrow> n < length T"
  by (auto simp: received_def rcv_pre_def set_sns data_of_def)

lemma parse_data_frame [simp]:
  "k_conv (ikcp_parse_data kcp seg) = k_conv kcp" "k_mtu (ikcp_parse_data kcp seg) = k_mtu kcp" "k_mss (ikcp_parse_data kcp seg) = k_mss kcp"
  "k_stream (ikcp_parse_data kcp seg) = k_stream kcp" "k_snd_nxt (ikcp_parse_data kcp seg) = k_snd_nxt kcp"
  "k_rcv_wnd (ikcp_parse_data kcp seg) = k_rcv_wnd kcp" "k_snd_queue (ikcp_parse_data kcp seg) = k_snd_queue kcp"
  "k_snd_buf (ikcp_parse_data kcp seg) = k_snd_buf kcp" "k_acklist (ikcp_parse_data kcp seg) = k_acklist kcp"
  by (simp_all add: ikcp_parse_data_def)

lemma parse_data_keeps:
  assumes "rcv_inv T got kcp" "data_of T seg"
  shows "rcv_inv T got (ikcp_parse_data kcp seg)" "received kcp \<subseteq> received (ikcp_parse_data kcp seg)"
    "itimediff (seg_sn seg) (k_rcv_nxt kcp + k_rcv_wnd kcp) < 0 \<Longrightarrow> unat (seg_sn seg) \<in> received (ikcp_parse_data kcp seg)"
proof -
  have pre: "rcv_pre T got kcp" using assms(1) by (simp add: rcv_inv_def)
  have b: "unat (seg_sn seg) < 2 ^ 30" "unat (k_rcv_nxt kcp) < 2 ^ 30"
    using assms(2) pre by (simp_all add: data_of_def rcv_pre_def)
  have nxt: "itimediff (seg_sn seg) (k_rcv_nxt kcp) < 0 \<longleftrightarrow> unat (seg_sn seg) < unat (k_rcv_nxt kcp)"
    using b by (intro seq_cmp) simp_all
  let ?kcp = "kcp\<lparr>k_rcv_buf := insert_segment seg (k_rcv_buf kcp)\<rparr>"
  have sorted: "sorted_wrt (<) (sns (k_rcv_buf kcp))" using pre by (simp add: rcv_pre_def)
  have lim: "\<forall>n \<in> set (sns (k_rcv_buf kcp)). n < 2 ^ 30"
  proof
    fix n assume "n \<in> set (sns (k_rcv_buf kcp))"
    then obtain s where "s \<in> set (k_rcv_buf kcp)" "n = unat (seg_sn s)" by (auto simp: set_sns)
    then show "n < 2 ^ 30" using pre by (fastforce simp: rcv_pre_def data_of_def)
  qed
  note ins = insert_segment_sorted [OF sorted b(1) lim]
  have step: "rcv_pre T got ?kcp" "received kcp \<subseteq> received ?kcp" "unat (seg_sn seg) \<in> received ?kcp"
    if "unat (k_rcv_nxt kcp) \<le> unat (seg_sn seg)"
  proof -
    show "rcv_pre T got ?kcp" using pre ins that assms(2) by (auto simp: rcv_pre_def split: if_splits)
    show "received kcp \<subseteq> received ?kcp" "unat (seg_sn seg) \<in> received ?kcp"
      using ins by (auto simp: received_def set_sns split: if_splits)
  qed
  show "rcv_inv T got (ikcp_parse_data kcp seg)"
    using assms(1) nxt step(1) move_ready_keeps [of T got ?kcp] by (auto simp: ikcp_parse_data_def)
  show "received kcp \<subseteq> received (ikcp_parse_data kcp seg)"
    using nxt step(1,2) move_ready_keeps [of T got ?kcp] by (auto simp: ikcp_parse_data_def)
  show "unat (seg_sn seg) \<in> received (ikcp_parse_data kcp seg)"
    if "itimediff (seg_sn seg) (k_rcv_nxt kcp + k_rcv_wnd kcp) < 0"
  proof (cases "unat (seg_sn seg) < unat (k_rcv_nxt kcp)")
    case True
    then show ?thesis by (simp add: ikcp_parse_data_def nxt received_def)
  next
    case False
    then show ?thesis using that nxt step(1,3) move_ready_keeps [of T got ?kcp] by (auto simp: ikcp_parse_data_def)
  qed
qed

section \<open>One endpoint\<close>

definition kcp_cfg :: "u32 \<Rightarrow> ikcpcb \<Rightarrow> bool" where
  "kcp_cfg conv kcp \<longleftrightarrow> k_conv kcp = conv \<and> k_stream kcp \<noteq> 0 \<and> 0 < unat (k_mss kcp)
     \<and> unat (k_mss kcp) + IKCP_OVERHEAD \<le> unat (k_mtu kcp) \<and> unat (k_mtu kcp) < 2 ^ 16 \<and> 0 < unat (k_rcv_wnd kcp)"

definition snd_inv :: "byte list list \<Rightarrow> byte list \<Rightarrow> ikcpcb \<Rightarrow> bool" where
  "snd_inv S sent kcp \<longleftrightarrow> length S = unat (k_snd_nxt kcp) \<and> length S < 2 ^ 30
     \<and> (\<forall>seg \<in> set (k_snd_buf kcp). data_of S seg \<and> seg_cmd seg = IKCP_CMD_PUSH \<and> seg_conv seg = k_conv kcp)
     \<and> (\<forall>seg \<in> set (k_snd_queue kcp). seg_frg seg = 0 \<and> length (seg_data seg) \<le> unat (k_mss kcp))
     \<and> (\<forall>d \<in> set S. length d \<le> unat (k_mss kcp))
     \<and> sent = concat S @ concat (map seg_data (k_snd_queue kcp))"

text \<open>
  \<open>S\<close> and \<open>T\<close> are the numbered payloads of this endpoint and of its peer, \<open>R\<close> the sequence numbers
  the peer has received: whatever is no longer in flight has been received.
\<close>

definition good :: "u32 \<Rightarrow> byte list list \<Rightarrow> byte list \<Rightarrow> byte list list \<Rightarrow> byte list \<Rightarrow> nat set \<Rightarrow> ikcpcb \<Rightarrow> bool" where
  "good conv S sent T got R kcp \<longleftrightarrow> kcp_cfg conv kcp \<and> snd_inv S sent kcp
     \<and> (\<forall>n < length S. n \<in> set (sns (k_snd_buf kcp)) \<or> n \<in> R)
     \<and> rcv_inv T got kcp \<and> (\<forall>a \<in> set (k_acklist kcp). unat (fst a) \<in> received kcp)"

text \<open>A segment an endpoint may put on the wire: its own data, or acknowledgements of what it has received.\<close>

definition carried :: "u32 \<Rightarrow> byte list list \<Rightarrow> nat set \<Rightarrow> nat \<Rightarrow> IKCPSEG \<Rightarrow> bool" where
  "carried conv S R nxt seg \<longleftrightarrow> seg_conv seg = conv \<and> unat (seg_una seg) \<le> nxt
     \<and> (seg_cmd seg = IKCP_CMD_PUSH \<and> data_of S seg \<and> length (seg_data seg) < 2 ^ 16
        \<or> seg_cmd seg = IKCP_CMD_ACK \<and> seg_data seg = [] \<and> unat (seg_sn seg) \<in> R
        \<or> seg_cmd seg \<in> {IKCP_CMD_WASK, IKCP_CMD_WINS} \<and> seg_data seg = [])"

lemma carried_sendable: "carried conv S R nxt seg \<Longrightarrow> sendable conv seg"
  by (auto simp: carried_def sendable_def)

lemma carried_view: "carried conv S R nxt seg \<Longrightarrow> carried conv S R nxt (wire_view seg)"
  using sendable_view [OF carried_sendable, of conv S R nxt seg]
  by (auto simp: carried_def) (auto simp: wire_view_def data_of_def)

lemma data_of_mono: "data_of S seg \<Longrightarrow> data_of (S @ X) seg"
  by (auto simp: data_of_def nth_append)

lemma carried_mono: "carried conv S R nxt seg \<Longrightarrow> R \<subseteq> R' \<Longrightarrow> nxt \<le> nxt' \<Longrightarrow> carried conv (S @ X) R' nxt' seg"
  by (auto simp: carried_def data_of_mono)

lemma rcv_inv_mono:
  assumes "rcv_inv T got kcp" "length (T @ X) < 2 ^ 30"
  shows "rcv_inv (T @ X) got kcp"
  using assms by (auto simp: rcv_inv_def rcv_pre_def data_of_mono)

lemma good_mono:
  "good conv S sent T got R kcp \<Longrightarrow> R \<subseteq> R' \<Longrightarrow> length (T @ X) < 2 ^ 30 \<Longrightarrow> good conv S sent (T @ X) got R' kcp"
  using rcv_inv_mono [of T got kcp X] by (auto simp: good_def)

section \<open>Input\<close>

lemma sns_dropWhile: "n \<in> set (sns xs) \<Longrightarrow> n \<in> set (sns (dropWhile P xs)) \<or> (\<exists>s \<in> set xs. P s \<and> n = unat (seg_sn s))"
  by (induction xs) auto

lemma sns_ack_loop: "n \<in> set (sns xs) \<Longrightarrow> n \<in> set (sns (ack_loop sn xs)) \<or> n = unat sn"
  by (induction sn xs rule: ack_loop.induct) auto

lemma set_ack_loop: "set (ack_loop sn xs) \<subseteq> set xs"
  by (induction sn xs rule: ack_loop.induct) auto

lemma good_shrink [simp]: "good conv S sent T got R (kcp\<lparr>k_snd_una := u\<rparr>) = good conv S sent T got R kcp"
  "good conv S sent T got R (kcp\<lparr>k_rmt_wnd := w\<rparr>) = good conv S sent T got R kcp"
  "good conv S sent T got R (kcp\<lparr>k_probe := p\<rparr>) = good conv S sent T got R kcp"
  "received (kcp\<lparr>k_snd_una := u\<rparr>) = received kcp" "received (kcp\<lparr>k_rmt_wnd := w\<rparr>) = received kcp"
  "received (kcp\<lparr>k_probe := p\<rparr>) = received kcp" "received (kcp\<lparr>k_snd_buf := b\<rparr>) = received kcp"
  "received (kcp\<lparr>k_acklist := al\<rparr>) = received kcp"
  by (simp_all add: good_def kcp_cfg_def snd_inv_def rcv_inv_def rcv_pre_def all_moved_def received_def)

lemma good_snd_buf:
  assumes "good conv S sent T got R kcp" "set buf \<subseteq> set (k_snd_buf kcp)"
    "\<forall>n \<in> set (sns (k_snd_buf kcp)). n \<in> set (sns buf) \<or> n \<in> R"
  shows "good conv S sent T got R (kcp\<lparr>k_snd_buf := buf\<rparr>)"
  using assms by (auto simp: good_def kcp_cfg_def snd_inv_def rcv_inv_def rcv_pre_def all_moved_def)

lemma parse_una_keeps:
  assumes "good conv S sent T got R kcp" "unat una \<le> nxt" "{n. n < nxt} \<subseteq> R" "nxt < 2 ^ 30"
  shows "good conv S sent T got R (ikcp_parse_una kcp una)"
  unfolding ikcp_parse_una_def
proof (rule good_snd_buf [OF assms(1)])
  show "set (dropWhile (\<lambda>seg. 0 < itimediff una (seg_sn seg)) (k_snd_buf kcp)) \<subseteq> set (k_snd_buf kcp)"
    by (auto dest: set_dropWhileD)
  have "unat (seg_sn s) \<in> R" if "s \<in> set (k_snd_buf kcp)" "0 < itimediff una (seg_sn s)" for s
  proof -
    have "unat (seg_sn s) < 2 ^ 31" using that(1) assms(1) by (force simp: good_def snd_inv_def data_of_def)
    then have "unat (seg_sn s) < unat una" using that(2) assms(2,4) by (subst (asm) seq_cmp(3)) simp_all
    then show ?thesis using assms(2,3) by auto
  qed
  then show "\<forall>n \<in> set (sns (k_snd_buf kcp)). n \<in> set (sns (dropWhile (\<lambda>seg. 0 < itimediff una (seg_sn seg)) (k_snd_buf kcp))) \<or> n \<in> R"
    using sns_dropWhile by blast
qed

lemma parse_ack_keeps:
  assumes "good conv S sent T got R kcp" "unat sn \<in> R"
  shows "good conv S sent T got R (ikcp_parse_ack kcp sn)"
proof -
  have "good conv S sent T got R (kcp\<lparr>k_snd_buf := ack_loop sn (k_snd_buf kcp)\<rparr>)"
    using assms sns_ack_loop set_ack_loop by (intro good_snd_buf) blast+
  then show ?thesis using assms(1) by (simp add: ikcp_parse_ack_def)
qed

lemma good_update_ack [simp]:
  "good conv S sent T got R (ikcp_update_ack kcp rtt) = good conv S sent T got R kcp" "received (ikcp_update_ack kcp rtt) = received kcp"
  by (simp_all add: good_def kcp_cfg_def snd_inv_def rcv_inv_def rcv_pre_def all_moved_def received_def)

lemma input_push_keeps:
  assumes "good conv S sent T got R kcp" "data_of T seg"
  shows "good conv S sent T got R (input_push kcp seg)" "received kcp \<subseteq> received (input_push kcp seg)"
proof -
  define k1 where "k1 = ikcp_ack_push kcp (seg_sn seg) (seg_ts seg)"
  have f: "k_rcv_nxt k1 = k_rcv_nxt kcp" "k_rcv_wnd k1 = k_rcv_wnd kcp" "received k1 = received kcp"
    by (simp_all add: k1_def ikcp_ack_push_def)
  have r1: "rcv_inv T got k1"
    using assms(1) by (simp add: k1_def ikcp_ack_push_def good_def rcv_inv_def rcv_pre_def all_moved_def)
  note P = parse_data_keeps [OF r1 assms(2), unfolded f]
  have frame: "kcp_cfg conv k' \<and> snd_inv S sent k' \<and> (\<forall>n < length S. n \<in> set (sns (k_snd_buf k')) \<or> n \<in> R)"
    if "k' = k1 \<or> k' = ikcp_parse_data k1 seg" for k'
    using assms(1) that by (auto simp: good_def kcp_cfg_def snd_inv_def k1_def ikcp_ack_push_def)
  have acks: "k_acklist (ikcp_parse_data k1 seg) = k_acklist kcp @ [(seg_sn seg, seg_ts seg)]"
    "k_acklist k1 = k_acklist kcp @ [(seg_sn seg, seg_ts seg)]"
    by (simp_all add: k1_def ikcp_ack_push_def)
  have old: "\<forall>a \<in> set (k_acklist kcp). unat (fst a) \<in> received kcp" using assms(1) by (simp add: good_def)
  have in1: "unat (seg_sn seg) \<in> received kcp" if "\<not> 0 \<le> itimediff (seg_sn seg) (k_rcv_nxt kcp)"
  proof -
    have "unat (seg_sn seg) < 2 ^ 31" "unat (k_rcv_nxt kcp) < 2 ^ 31"
      using assms by (auto simp: data_of_def good_def rcv_inv_def rcv_pre_def)
    with that have "unat (seg_sn seg) < unat (k_rcv_nxt kcp)" by (subst (asm) seq_cmp) simp_all
    then show ?thesis by (simp add: received_def)
  qed
  show "good conv S sent T got R (input_push kcp seg)"
    using assms(1) frame P old in1 r1 acks unfolding input_push_def Let_def k1_def [symmetric] f
    by (auto simp: good_def f)
  show "received kcp \<subseteq> received (input_push kcp seg)"
    using P(2) unfolding input_push_def Let_def k1_def [symmetric] f by (auto simp: f)
qed

lemma input_segment_keeps:
  assumes "good conv S sent T got R kcp" "carried conv T R nxt seg" "{n. n < nxt} \<subseteq> R" "nxt < 2 ^ 30"
  shows "good conv S sent T got R (fst (input_segment kcp best seg))" "received kcp \<subseteq> received (fst (input_segment kcp best seg))"
proof -
  define k1 where "k1 = ikcp_shrink_buf (ikcp_parse_una (kcp\<lparr>k_rmt_wnd := seg_wnd seg\<rparr>) (seg_una seg))"
  have g1: "good conv S sent T got R k1"
    using assms parse_una_keeps [of conv S sent T got R "kcp\<lparr>k_rmt_wnd := seg_wnd seg\<rparr>" "seg_una seg" nxt]
    by (simp add: k1_def ikcp_shrink_buf_def carried_def)
  have r1: "received k1 = received kcp" by (simp add: k1_def ikcp_shrink_buf_def ikcp_parse_una_def)
  have ack: "good conv S sent T got R (input_ack k1 seg)" "received (input_ack k1 seg) = received kcp"
    if "seg_cmd seg = IKCP_CMD_ACK"
  proof -
    have "unat (seg_sn seg) \<in> R" using assms(2) that by (auto simp: carried_def macros)
    then show "good conv S sent T got R (input_ack k1 seg)"
      using g1 by (simp add: input_ack_def ikcp_shrink_buf_def parse_ack_keeps Let_def)
    show "received (input_ack k1 seg) = received kcp"
      using r1 by (simp add: input_ack_def ikcp_shrink_buf_def ikcp_parse_ack_def Let_def)
  qed
  have push: "good conv S sent T got R (input_push k1 seg)" "received kcp \<subseteq> received (input_push k1 seg)"
    if "seg_cmd seg = IKCP_CMD_PUSH"
    using input_push_keeps [OF g1, of seg] assms(2) that r1 by (auto simp: carried_def macros)
  show "good conv S sent T got R (fst (input_segment kcp best seg))" "received kcp \<subseteq> received (fst (input_segment kcp best seg))"
    using g1 r1 ack push unfolding input_segment_def Let_def k1_def [symmetric] by auto
qed

lemma input_segments_keeps:
  assumes "good conv S sent T got R kcp" "list_all (carried conv T R nxt) segs" "{n. n < nxt} \<subseteq> R" "nxt < 2 ^ 30"
  shows "good conv S sent T got R (fst (input_segments kcp best segs)) \<and> received kcp \<subseteq> received (fst (input_segments kcp best segs))"
  using assms(1,2)
proof (induction segs arbitrary: kcp best)
  case (Cons seg segs)
  obtain k' b' where e: "input_segment kcp best (wire_view seg) = (k', b')" by fastforce
  have "carried conv T R nxt (wire_view seg)" using Cons.prems(2) by (simp add: carried_view)
  from input_segment_keeps [OF Cons.prems(1) this assms(3,4), of best] e
  have "good conv S sent T got R k'" "received kcp \<subseteq> received k'" by simp_all
  with Cons.IH [of k' b'] Cons.prems(2) e show ?case by fastforce
qed simp

lemma core_sns: "map core xs = map core ys \<Longrightarrow> sns xs = sns ys"
proof -
  assume "map core xs = map core ys"
  then have "map (\<lambda>c. unat (fst (snd (snd (snd c))))) (map core xs) = map (\<lambda>c. unat (fst (snd (snd (snd c))))) (map core ys)" by simp
  then show ?thesis by (simp add: sns_def core_def comp_def)
qed

lemma core_set: "map core xs = map core ys \<Longrightarrow> x \<in> set xs \<Longrightarrow> \<exists>y \<in> set ys. core x = core y"
proof -
  assume "map core xs = map core ys" "x \<in> set xs"
  then have "core x \<in> set (map core ys)" by (metis image_eqI list.set_map)
  then show ?thesis by auto
qed

lemma core_fields: "core x = core y \<Longrightarrow> seg_conv x = seg_conv y \<and> seg_cmd x = seg_cmd y \<and> seg_frg x = seg_frg y
   \<and> seg_sn x = seg_sn y \<and> seg_data x = seg_data y"
  by (simp add: core_def)

lemma good_core:
  assumes "good conv S sent T got R kcp" "map core buf = map core (k_snd_buf kcp)"
  shows "good conv S sent T got R (kcp\<lparr>k_snd_buf := buf\<rparr>)"
proof -
  have "data_of S seg \<and> seg_cmd seg = IKCP_CMD_PUSH \<and> seg_conv seg = k_conv kcp" if s: "seg \<in> set buf" for seg
  proof -
    obtain t where "t \<in> set (k_snd_buf kcp)" "core seg = core t" using core_set [OF assms(2) s] by blast
    then show ?thesis using assms(1) core_fields [of seg t] by (auto simp: good_def snd_inv_def data_of_def)
  qed
  then show ?thesis
    using assms(1) core_sns [OF assms(2)]
    by (auto simp: good_def kcp_cfg_def snd_inv_def rcv_inv_def rcv_pre_def all_moved_def)
qed

lemma fastack_core: "map core (fastack_loop sn ts xs) = map core xs"
  by (induction sn ts xs rule: fastack_loop.induct) (auto simp: core_def)

lemma good_grow [simp]: "good conv S sent T got R (grow_cwnd kcp) = good conv S sent T got R kcp"
  "received (grow_cwnd kcp) = received kcp"
  by (simp_all add: good_def kcp_cfg_def snd_inv_def rcv_inv_def rcv_pre_def all_moved_def received_def)

lemma ikcp_input_keeps:
  assumes "good conv S sent T got R kcp" "datagram (carried conv T R nxt) d" "{n. n < nxt} \<subseteq> R" "nxt < 2 ^ 30"
    "ikcp_input kcp d = (r, kcp')"
  shows "good conv S sent T got R kcp'" "received kcp \<subseteq> received kcp'" "d \<noteq> [] \<Longrightarrow> r = 0"
proof -
  obtain segs where d: "d = concat (map wire segs)" "list_all (carried conv T R nxt) segs" using assms(2) by (auto simp: datagram_def)
  obtain k1 best where e: "input_segments kcp None segs = (k1, best)" by fastforce
  have "k_conv kcp = conv" using assms(1) by (simp add: good_def kcp_cfg_def)
  then have "list_all (sendable (k_conv kcp)) segs" using d(2) carried_sendable by (auto simp: list_all_iff)
  then have l: "input_loop kcp None d = (0, k1, best)" using input_loop_segments [of kcp segs None] d(1) e by simp
  have g1: "good conv S sent T got R k1" "received kcp \<subseteq> received k1"
    using input_segments_keeps [OF assms(1) d(2) assms(3,4), of None] e by simp_all
  define k2 where "k2 = (case best of None \<Rightarrow> k1 | Some (m, ts) \<Rightarrow> ikcp_parse_fastack k1 m ts)"
  have "good conv S sent T got R (ikcp_parse_fastack k1 m ts)" "received (ikcp_parse_fastack k1 m ts) = received k1" for m ts
    using good_core [OF g1(1) fastack_core, of m ts] g1 by (simp_all add: ikcp_parse_fastack_def)
  then have g2: "good conv S sent T got R k2" "received k2 = received k1"
    using g1 by (simp_all add: k2_def split: option.split)
  have i: "ikcp_input kcp d = (if length d < IKCP_OVERHEAD then (- 1, kcp)
      else (0, if itimediff (k_snd_una k2) (k_snd_una kcp) > 0 then grow_cwnd k2 else k2))"
    by (simp add: ikcp_input_def l k2_def Let_def)
  show "good conv S sent T got R kcp'" "received kcp \<subseteq> received kcp'"
    using assms(1,5) i g1 g2 by (auto split: if_splits)
  show "r = 0" if "d \<noteq> []"
  proof -
    have "segs \<noteq> []" using d(1) that by auto
    then have "IKCP_OVERHEAD \<le> length d" using d(1) by (cases segs) simp_all
    then show ?thesis using assms(5) i by (auto split: if_splits)
  qed
qed

section \<open>Sending and receiving\<close>

lemma fragment_data: "length buf \<le> n * mss \<Longrightarrow> concat (map seg_data (fragment stream mss n buf)) = buf"
  by (induction n arbitrary: buf) (auto simp: new_segment_def)

lemma fragment_small: "seg \<in> set (fragment True mss n buf) \<Longrightarrow> seg_frg seg = 0 \<and> length (seg_data seg) \<le> mss"
  by (induction n arbitrary: buf) (auto simp: new_segment_def)

lemma queue_simps:
  "kcp\<lparr>k_snd_queue := a\<rparr>\<lparr>k_snd_queue := b\<rparr> = kcp\<lparr>k_snd_queue := b\<rparr>"
  "k_mtu (kcp\<lparr>k_snd_queue := a\<rparr>) = k_mtu kcp" "k_mss (kcp\<lparr>k_snd_queue := a\<rparr>) = k_mss kcp"
  by simp_all

lemma ikcp_send_limits: "k_mtu (snd (ikcp_send kcp buf)) = k_mtu kcp" "k_mss (snd (ikcp_send kcp buf)) = k_mss kcp"
  by (simp_all only: ikcp_send_def Let_def if_distrib [of snd] if_distrib [of k_mtu] if_distrib [of k_mss] snd_conv queue_simps if_cancel)

lemma ikcp_send_stream:
  assumes "ikcp_send kcp buf = (r, kcp')" "k_stream kcp \<noteq> 0" "0 < unat (k_mss kcp)"
    "\<forall>seg \<in> set (k_snd_queue kcp). seg_frg seg = 0 \<and> length (seg_data seg) \<le> unat (k_mss kcp)"
  shows "\<exists>queue. kcp' = kcp\<lparr>k_snd_queue := queue\<rparr> \<and> r \<le> int (length buf)
    \<and> (\<forall>seg \<in> set queue. seg_frg seg = 0 \<and> length (seg_data seg) \<le> unat (k_mss kcp))
    \<and> concat (map seg_data queue) = concat (map seg_data (k_snd_queue kcp)) @ take (nat r) buf"
proof -
  define mss where "mss = unat (k_mss kcp)"
  define q where "q = k_snd_queue kcp"
  define room where "room \<longleftrightarrow> q \<noteq> [] \<and> length (seg_data (last q)) < mss"
  define ext where "ext = (if room then min (length buf) (mss - length (seg_data (last q))) else 0)"
  define q1 where "q1 = (if room then butlast q @ [new_segment 0 (seg_data (last q) @ take ext buf)] else q)"
  define count where "count = (if length (drop ext buf) \<le> mss then 1 else (length (drop ext buf) + mss - 1) div mss)"
  have m: "0 < mss" using assms(3) by (simp add: mss_def)
  have small: "\<forall>seg \<in> set q. seg_frg seg = 0 \<and> length (seg_data seg) \<le> mss" using assms(4) by (simp add: q_def mss_def)
  have q1: "concat (map seg_data q1) = concat (map seg_data q) @ take ext buf"
  proof (cases room)
    case True
    then have "q = butlast q @ [last q]" by (simp add: room_def)
    then have "concat (map seg_data q) = concat (map seg_data (butlast q @ [last q]))" by simp
    then have "concat (map seg_data q) = concat (map seg_data (butlast q)) @ seg_data (last q)" by simp
    then show ?thesis using True by (simp add: q1_def new_segment_def)
  qed (simp add: q1_def ext_def)
  have s1: "\<forall>seg \<in> set q1. seg_frg seg = 0 \<and> length (seg_data seg) \<le> mss"
    using small by (auto simp: q1_def new_segment_def room_def ext_def dest: in_set_butlastD)
  have c: "length (drop ext buf) \<le> count * mss"
  proof (cases "length (drop ext buf) \<le> mss")
    case False
    have "length (drop ext buf) \<le> (length (drop ext buf) + mss - 1) div mss * mss"
    proof -
      define n where "n = length (drop ext buf)"
      have "(n + mss - 1) div mss * mss + (n + mss - 1) mod mss = n + mss - 1" by (rule div_mult_mod_eq)
      moreover have "(n + mss - 1) mod mss < mss" using m by simp
      ultimately have "n \<le> (n + mss - 1) div mss * mss" by linarith
      then show ?thesis by (simp only: n_def)
    qed
    then show ?thesis using False by (simp add: count_def)
  qed (use m in \<open>simp add: count_def\<close>)
  have def: "ikcp_send kcp buf =
      (if drop ext buf = [] then (int ext, kcp\<lparr>k_snd_queue := q1\<rparr>)
       else if count \<ge> unat IKCP_WND_RCV
       then (if ext > 0 then (int ext, kcp\<lparr>k_snd_queue := q1\<rparr>) else (- 2, kcp\<lparr>k_snd_queue := q1\<rparr>))
       else (int (ext + length (drop ext buf)), kcp\<lparr>k_snd_queue := q1 @ fragment True mss count (drop ext buf)\<rparr>))"
    unfolding ikcp_send_def Let_def count_def q1_def ext_def room_def q_def mss_def by (simp only: assms(2) simp_thms queue_simps)
  have le: "ext \<le> length buf" by (simp add: ext_def)
  consider "drop ext buf = []" | "drop ext buf \<noteq> []" "count \<ge> unat IKCP_WND_RCV" | "drop ext buf \<noteq> []" "\<not> count \<ge> unat IKCP_WND_RCV" by blast
  then show ?thesis
  proof cases
    case 1
    then have "r = int ext" "kcp' = kcp\<lparr>k_snd_queue := q1\<rparr>" using assms(1) def by auto
    then show ?thesis using q1 s1 le by (intro exI [of _ q1]) (simp add: q_def mss_def)
  next
    case 2
    then have "(r = int ext \<or> r = - 2 \<and> ext = 0)" "kcp' = kcp\<lparr>k_snd_queue := q1\<rparr>" using assms(1) def by (auto split: if_splits)
    then show ?thesis using q1 s1 le by (intro exI [of _ q1]) (auto simp: q_def mss_def)
  next
    case 3
    then have r: "r = int (length buf)" "kcp' = kcp\<lparr>k_snd_queue := q1 @ fragment True mss count (drop ext buf)\<rparr>"
      using assms(1) def le by auto
    have "concat (map seg_data (q1 @ fragment True mss count (drop ext buf))) = concat (map seg_data q) @ buf"
      using q1 fragment_data [OF c, of True] by simp
    moreover have "\<forall>seg \<in> set (q1 @ fragment True mss count (drop ext buf)). seg_frg seg = 0 \<and> length (seg_data seg) \<le> mss"
      using s1 fragment_small by auto
    ultimately show ?thesis using r by (intro exI [of _ "q1 @ fragment True mss count (drop ext buf)"]) (simp add: q_def mss_def)
  qed
qed

end
