(* ===== verification/Kcp_Delivery.thy ===== *)
theory Kcp_Delivery
  imports Kcp_Channel "HOL-Library.Sublist"
begin

text \<open>
  Delivery over a KCP connection: what \<^verbatim>\<open>ikcp_send\<close>, \<^verbatim>\<open>ikcp_recv\<close> and \<^verbatim>\<open>ikcp_update\<close> keep of the
  endpoint invariant, the connection as a step relation over any schedule of operations and any
  behaviour of the network, and the delivery theorems for its reachable states.
\<close>

section \<open>Sending and receiving\<close>

lemma ikcp_send_keeps:
  assumes "good conv S sent T got R kcp" "ikcp_send kcp buf = (r, kcp')"
  shows "good conv S (sent @ take (nat r) buf) T got R kcp'" "received kcp' = received kcp"
proof -
  have "k_stream kcp \<noteq> 0" "0 < unat (k_mss kcp)"
    "\<forall>seg \<in> set (k_snd_queue kcp). seg_frg seg = 0 \<and> length (seg_data seg) \<le> unat (k_mss kcp)"
    using assms(1) by (simp_all add: good_def kcp_cfg_def snd_inv_def)
  from ikcp_send_stream [OF assms(2) this] obtain queue where q: "kcp' = kcp\<lparr>k_snd_queue := queue\<rparr>"
    "\<forall>seg \<in> set queue. seg_frg seg = 0 \<and> length (seg_data seg) \<le> unat (k_mss kcp)"
    "concat (map seg_data queue) = concat (map seg_data (k_snd_queue kcp)) @ take (nat r) buf" by blast
  then show "good conv S (sent @ take (nat r) buf) T got R kcp'" "received kcp' = received kcp"
    using assms(1) by (auto simp: good_def kcp_cfg_def snd_inv_def rcv_inv_def rcv_pre_def all_moved_def received_def)
qed

lemma ikcp_recv_keeps:
  assumes "good conv S sent T got R kcp" "ikcp_recv kcp len = (r, buf, kcp')" "0 \<le> len"
  shows "good conv S sent T (got @ buf) R kcp'" "received kcp' = received kcp"
proof -
  have "good conv S sent T (got @ buf) R kcp' \<and> received kcp' = received kcp"
  proof (cases "r < 0")
    case True
    then have "buf = []" "kcp' = kcp"
      using assms(2) by (auto simp: ikcp_recv_def Let_def case_prod_unfold split: if_splits)
    then show ?thesis using assms(1) by simp
  next
    case False
    then obtain seg rest where q: "k_rcv_queue kcp = seg # rest"
      using assms(2) by (cases "k_rcv_queue kcp") (auto simp: ikcp_recv_def)
    have frg: "seg_frg seg = 0" using assms(1) q by (simp add: good_def rcv_inv_def rcv_pre_def)
    define k1 where "k1 = kcp\<lparr>k_rcv_queue := rest\<rparr>"
    have e: "buf = seg_data seg" "kcp' = move_ready k1 \<or> (\<exists>p. kcp' = (move_ready k1)\<lparr>k_probe := p\<rparr>)"
      using assms(2,3) False q frg by (auto simp: ikcp_recv_def Let_def k1_def split: if_splits)
    have "rcv_pre T (got @ buf) k1"
      using assms(1) q frg e(1) by (auto simp: good_def rcv_inv_def rcv_pre_def k1_def)
    from move_ready_keeps [OF this] have m: "rcv_inv T (got @ buf) (move_ready k1)" "received (move_ready k1) = received k1" by simp_all
    have r: "received k1 = received kcp" by (simp add: k1_def received_def)
    have "good conv S sent T (got @ buf) R (move_ready k1)"
      using assms(1) m r by (simp add: good_def kcp_cfg_def snd_inv_def k1_def)
    then show ?thesis using e(2) m(2) r by auto
  qed
  then show "good conv S sent T (got @ buf) R kcp'" "received kcp' = received kcp" by simp_all
qed

section \<open>Updating\<close>

lemma wnd_unused_ok [simp]: "length (seg_data (control_segment kcp cmd a)) = 0" "seg_conv (control_segment kcp cmd a) = k_conv kcp"
  "seg_cmd (control_segment kcp cmd a) = cmd" "seg_sn (control_segment kcp cmd a) = fst a" "seg_una (control_segment kcp cmd a) = k_rcv_nxt kcp"
  "seg_data (control_segment kcp cmd a) = []"
  by (simp_all add: control_segment_def new_segment_def)

lemma move_to_buf_keeps:
  assumes "good conv S sent T got R kcp" "unat (k_snd_nxt kcp) + length (k_snd_queue kcp) < 2 ^ 30"
  shows "\<exists>X. good conv (S @ X) sent T got R (move_to_buf cwnd kcp) \<and> received (move_to_buf cwnd kcp) = received kcp
    \<and> k_rcv_nxt (move_to_buf cwnd kcp) = k_rcv_nxt kcp \<and> k_mtu (move_to_buf cwnd kcp) = k_mtu kcp"
  using assms
proof (induction cwnd kcp arbitrary: S rule: move_to_buf.induct)
  case (1 cwnd kcp)
  show ?case
  proof (cases "itimediff (k_snd_nxt kcp) (k_snd_una kcp + cwnd) < 0 \<and> k_snd_queue kcp \<noteq> []")
    case False
    then have "move_to_buf cwnd kcp = kcp" by (subst move_to_buf.simps) (auto split: list.split)
    then show ?thesis using 1(2) by (intro exI [of _ "[]"]) simp
  next
    case True
    then obtain seg rest where q: "k_snd_queue kcp = seg # rest" by (cases "k_snd_queue kcp") auto
    define seg' where "seg' = seg\<lparr>seg_conv := k_conv kcp, seg_cmd := IKCP_CMD_PUSH, seg_wnd := ikcp_wnd_unused kcp,
        seg_ts := k_current kcp, seg_sn := k_snd_nxt kcp, seg_una := k_rcv_nxt kcp,
        seg_resendts := k_current kcp, seg_rto := k_rx_rto kcp, seg_fastack := 0, seg_xmit := 0\<rparr>"
    define k1 where "k1 = kcp\<lparr>k_snd_queue := rest, k_snd_buf := k_snd_buf kcp @ [seg'], k_snd_nxt := k_snd_nxt kcp + 1\<rparr>"
    have m: "move_to_buf cwnd kcp = move_to_buf cwnd k1"
      using True q by (subst move_to_buf.simps) (simp add: k1_def seg'_def)
    have n: "unat (k_snd_nxt kcp + 1) = Suc (unat (k_snd_nxt kcp))" using 1(3) by (simp add: unat_inc)
    have g: "good conv (S @ [seg_data seg]) sent T got R k1"
      using 1(2,3) q n
      by (auto simp: good_def kcp_cfg_def snd_inv_def rcv_inv_def rcv_pre_def all_moved_def received_def k1_def seg'_def
          data_of_def nth_append less_Suc_eq)
    have b: "unat (k_snd_nxt k1) + length (k_snd_queue k1) < 2 ^ 30" using 1(3) q n by (simp add: k1_def)
    have "\<exists>X. good conv ((S @ [seg_data seg]) @ X) sent T got R (move_to_buf cwnd k1) \<and> received (move_to_buf cwnd k1) = received k1
        \<and> k_rcv_nxt (move_to_buf cwnd k1) = k_rcv_nxt k1 \<and> k_mtu (move_to_buf cwnd k1) = k_mtu k1"
      using 1(1) [OF _ q, of "S @ [seg_data seg]"] True g b unfolding k1_def seg'_def by blast
    then obtain X where "good conv (S @ seg_data seg # X) sent T got R (move_to_buf cwnd k1)"
      "received (move_to_buf cwnd k1) = received k1" "k_rcv_nxt (move_to_buf cwnd k1) = k_rcv_nxt k1" "k_mtu (move_to_buf cwnd k1) = k_mtu k1"
      by auto
    then show ?thesis unfolding m by (intro exI [of _ "seg_data seg # X"]) (simp add: k1_def received_def)
  qed
qed

lemma good_update_probe [simp]:
  "good conv S sent T got R (update_probe kcp) = good conv S sent T got R kcp" "received (update_probe kcp) = received kcp"
  by (simp_all add: good_def kcp_cfg_def snd_inv_def rcv_inv_def rcv_pre_def all_moved_def received_def)

lemma good_flush_cwnd [simp]:
  "good conv S sent T got R (flush_cwnd a b c d kcp) = good conv S sent T got R kcp"
  "received (flush_cwnd a b c d kcp) = received kcp"
  by (simp_all add: good_def kcp_cfg_def snd_inv_def rcv_inv_def rcv_pre_def all_moved_def received_def)

lemma good_clock [simp]:
  "good conv S sent T got R (kcp\<lparr>k_xmit := x\<rparr>) = good conv S sent T got R kcp"
  "good conv S sent T got R (kcp\<lparr>k_state := y\<rparr>) = good conv S sent T got R kcp"
  "good conv S sent T got R (kcp\<lparr>k_current := z\<rparr>) = good conv S sent T got R kcp"
  "good conv S sent T got R (kcp\<lparr>k_ts_flush := z\<rparr>) = good conv S sent T got R kcp"
  "good conv S sent T got R (kcp\<lparr>k_updated := b\<rparr>) = good conv S sent T got R kcp"
  "good conv S sent T got R (kcp\<lparr>k_probe := z\<rparr>) = good conv S sent T got R kcp"
  by (simp_all add: good_def kcp_cfg_def snd_inv_def rcv_inv_def rcv_pre_def all_moved_def received_def)

lemma received_clock [simp]:
  "received (kcp\<lparr>k_xmit := x\<rparr>) = received kcp" "received (kcp\<lparr>k_state := y\<rparr>) = received kcp"
  "received (kcp\<lparr>k_current := z\<rparr>) = received kcp" "received (kcp\<lparr>k_ts_flush := z\<rparr>) = received kcp"
  "received (kcp\<lparr>k_updated := b\<rparr>) = received kcp" "received (kcp\<lparr>k_probe := z\<rparr>) = received kcp"
  "received (kcp\<lparr>k_acklist := l\<rparr>) = received kcp" "received (kcp\<lparr>k_snd_buf := s\<rparr>) = received kcp"
  by (simp_all add: received_def)

lemma good_acked: "good conv S sent T got R kcp \<Longrightarrow> good conv S sent T got R (kcp\<lparr>k_acklist := []\<rparr>)"
  by (simp add: good_def kcp_cfg_def snd_inv_def rcv_inv_def rcv_pre_def all_moved_def)

text \<open>What leaves an endpoint: datagrams within the MTU, of segments it may put on the wire.\<close>

definition sound_output :: "u32 \<Rightarrow> byte list list \<Rightarrow> ikcpcb \<Rightarrow> byte list \<Rightarrow> bool" where
  "sound_output conv S kcp d \<longleftrightarrow> d \<noteq> [] \<and> length d \<le> unat (k_mtu kcp)
     \<and> (\<exists>nxt < 2 ^ 30. {n. n < nxt} \<subseteq> received kcp \<and> datagram (carried conv S (received kcp) nxt) d)"

lemma received_nxt: "good conv S sent T got R kcp \<Longrightarrow> {n. n < unat (k_rcv_nxt kcp)} \<subseteq> received kcp \<and> unat (k_rcv_nxt kcp) < 2 ^ 30"
  by (auto simp: good_def rcv_inv_def rcv_pre_def received_def)

lemma packed_end: "packed mtu P out \<Longrightarrow> d \<in> set (fst out @ (if snd out = [] then [] else [snd out])) \<Longrightarrow>
    datagram P d \<and> d \<noteq> [] \<and> length d \<le> mtu"
  by (auto simp: packed_def split: if_splits)

lemma good_in_flight:
  assumes "good conv S sent T got R kcp" "seg \<in> set (k_snd_buf kcp)"
  shows "length (wire seg) \<le> unat (k_mtu kcp)"
    "core t = core seg \<Longrightarrow> seg_una t = k_rcv_nxt kcp \<Longrightarrow> carried conv S A (unat (k_rcv_nxt kcp)) t"
proof -
  have d: "data_of S seg" "seg_cmd seg = IKCP_CMD_PUSH" "seg_conv seg = conv"
    using assms by (auto simp: good_def snd_inv_def kcp_cfg_def)
  then have "seg_data seg \<in> set S" by (auto simp: data_of_def)
  then have l: "length (seg_data seg) \<le> unat (k_mss kcp)" using assms(1) by (auto simp: good_def snd_inv_def)
  moreover have c: "unat (k_mss kcp) + IKCP_OVERHEAD \<le> unat (k_mtu kcp)" "unat (k_mtu kcp) < 2 ^ 16"
    using assms(1) by (simp_all add: good_def kcp_cfg_def)
  ultimately show "length (wire seg) \<le> unat (k_mtu kcp)" by simp
  show "carried conv S A (unat (k_rcv_nxt kcp)) t" if "core t = core seg" "seg_una t = k_rcv_nxt kcp"
    using that(2) core_fields [OF that(1)] d l c by (auto simp: carried_def data_of_def)
qed

lemma flush_control_packed:
  assumes "good conv S sent T got R kcp" "k_conv k1 = k_conv kcp" "k_mtu k1 = k_mtu kcp" "k_rcv_nxt k1 = k_rcv_nxt kcp"
  shows "packed (unat (k_mtu kcp)) (carried conv S (received kcp) (unat (k_rcv_nxt kcp)))
    (flush_probes k1 a (flush_acks kcp ([], [])))"
proof -
  let ?P = "carried conv S (received kcp) (unat (k_rcv_nxt kcp))"
  have c: "k_conv kcp = conv" "IKCP_OVERHEAD \<le> unat (k_mtu kcp)" using assms(1) by (auto simp: good_def kcp_cfg_def)
  have "\<forall>x \<in> set (k_acklist kcp). ?P (control_segment kcp IKCP_CMD_ACK x) \<and>
      length (wire (control_segment kcp IKCP_CMD_ACK x)) \<le> unat (k_mtu kcp)"
    using assms(1) c by (auto simp: good_def carried_def)
  from packed_fold [OF packed_Nil this]
  have a: "packed (unat (k_mtu kcp)) ?P (flush_acks kcp ([], []))" by (simp add: flush_acks_def)
  have p: "packed (unat (k_mtu kcp)) ?P (put_item (unat (k_mtu kcp)) (ikcp_encode_seg (control_segment k1 cmd a)) out)"
    if "packed (unat (k_mtu kcp)) ?P out" "cmd \<in> {IKCP_CMD_WASK, IKCP_CMD_WINS}" for cmd out
    using packed_put [OF that(1), of "control_segment k1 cmd a"] that(2) c assms(2-4) by (auto simp: carried_def)
  show ?thesis using a p assms(3) by (simp add: flush_probes_def Let_def)
qed

lemma ikcp_flush_keeps:
  assumes "good conv S sent T got R kcp" "unat (k_snd_nxt kcp) + length (k_snd_queue kcp) < 2 ^ 30" "ikcp_flush kcp = (kcp', outs)"
  shows "\<exists>X. good conv (S @ X) sent T got R kcp' \<and> received kcp' = received kcp \<and> k_rcv_nxt kcp' = k_rcv_nxt kcp
    \<and> k_mtu kcp' = k_mtu kcp \<and> (\<forall>d \<in> set outs. sound_output conv (S @ X) kcp d)"
proof (cases "k_updated kcp")
  case False
  then show ?thesis using assms by (intro exI [of _ "[]"]) (simp add: ikcp_flush_def)
next
  case True
  define k2 where "k2 = (update_probe (kcp\<lparr>k_acklist := []\<rparr>))\<lparr>k_probe := 0\<rparr>"
  define a where "a = (if k_acklist kcp = [] then (0, 0) else last (k_acklist kcp))"
  define out2 where "out2 = flush_probes (update_probe (kcp\<lparr>k_acklist := []\<rparr>)) a (flush_acks kcp ([], []))"
  define window where "window = imin (k_snd_wnd k2) (k_rmt_wnd k2)"
  define k3 where "k3 = move_to_buf (if k_nocwnd k2 = 0 then imin (k_cwnd k2) window else window) k2"
  define resent :: u32 where "resent = (if k_fastresend k3 > 0 then word_of_int (k_fastresend k3) else 0xffffffff)"
  define rtomin :: u32 where "rtomin = (if k_nodelay k3 = 0 then word_of_int (sint (k_rx_rto k3) div 8) else 0)"
  define fl where "fl = fold (flush_segment k3 resent rtomin) (k_snd_buf k3)
    \<lparr>fl_out = out2, fl_buf = [], fl_lost = False, fl_change = 0, fl_xmit = k_xmit k3, fl_state = k_state k3\<rparr>"
  have e: "kcp' = flush_cwnd (k_cwnd kcp) resent (fl_change fl) (fl_lost fl)
        (k3\<lparr>k_snd_buf := fl_buf fl, k_xmit := fl_xmit fl, k_state := fl_state fl\<rparr>)"
      "outs = fst (fl_out fl) @ (if snd (fl_out fl) = [] then [] else [snd (fl_out fl)])"
    using assms(3)
    unfolding ikcp_flush_def Let_def k2_def [symmetric] a_def [symmetric] out2_def [symmetric] window_def [symmetric]
      k3_def [symmetric] resent_def [symmetric] rtomin_def [symmetric] fl_def [symmetric]
    by (simp_all only: True not_True_eq_False if_False prod.inject)
  have g2: "good conv S sent T got R k2" "unat (k_snd_nxt k2) + length (k_snd_queue k2) < 2 ^ 30"
    using good_acked [OF assms(1)] assms(2) by (simp_all add: k2_def)
  obtain X where X: "good conv (S @ X) sent T got R k3" "received k3 = received kcp" "k_rcv_nxt k3 = k_rcv_nxt kcp" "k_mtu k3 = k_mtu kcp"
    using move_to_buf_keeps [OF g2, of "if k_nocwnd k2 = 0 then imin (k_cwnd k2) window else window"]
    by (auto simp: k3_def k2_def)
  let ?P = "carried conv (S @ X) (received kcp) (unat (k_rcv_nxt kcp))"
  have "packed (unat (k_mtu kcp)) (carried conv S (received kcp) (unat (k_rcv_nxt kcp))) out2"
    unfolding out2_def by (rule flush_control_packed [OF assms(1)]) simp_all
  then have "packed (unat (k_mtu k3)) ?P out2"
    using carried_mono [of conv S "received kcp" "unat (k_rcv_nxt kcp)" _ "received kcp" "unat (k_rcv_nxt kcp)" X] X(4)
    by (auto simp: packed_def elim!: datagram_mono)
  then have "map core (fl_buf fl) = map core (k_snd_buf k3) \<and> packed (unat (k_mtu k3)) ?P (fl_out fl)"
    using flush_segments_keeps [of "k_snd_buf k3" k3 ?P] good_in_flight [OF X(1)] X(3) by (simp add: fl_def)
  then have f: "map core (fl_buf fl) = map core (k_snd_buf k3)" "packed (unat (k_mtu kcp)) ?P (fl_out fl)"
    using X(4) by simp_all
  have "good conv (S @ X) sent T got R kcp'" using good_core [OF X(1) f(1)] by (simp add: e(1))
  moreover have "\<forall>d \<in> set outs. sound_output conv (S @ X) kcp d"
    using packed_end [OF f(2)] received_nxt [OF assms(1)] unfolding e(2) sound_output_def by blast
  ultimately show ?thesis using X by (intro exI [of _ X]) (simp add: e(1))
qed

lemma update_flush:
  "\<exists>t. ikcp_update kcp now = ikcp_flush (kcp\<lparr>k_current := now, k_updated := True, k_ts_flush := t\<rparr>)
     \<or> ikcp_update kcp now = (kcp\<lparr>k_current := now, k_updated := True, k_ts_flush := t\<rparr>, [])"
proof -
  let ?k = "\<lambda>t. kcp\<lparr>k_current := now, k_updated := True, k_ts_flush := t\<rparr>"
  define slap where "slap = itimediff now (if k_updated kcp then k_ts_flush kcp else now)"
  define reset where "reset \<longleftrightarrow> slap \<ge> 10000 \<or> slap < - 10000"
  define ts where "ts = (if reset then now else if k_updated kcp then k_ts_flush kcp else now)"
  define next_ts where "next_ts = (if itimediff now (ts + k_interval kcp) \<ge> 0 then now + k_interval kcp else ts + k_interval kcp)"
  have "ikcp_update kcp now = (if (if reset then 0 else slap) \<ge> 0 then ikcp_flush (?k next_ts) else (?k ts, []))"
    unfolding ikcp_update_def Let_def slap_def [symmetric] reset_def [symmetric] ts_def [symmetric] next_ts_def [symmetric] by simp
  then show ?thesis by (cases "(if reset then 0 else slap) \<ge> 0") auto
qed

lemma ikcp_update_keeps:
  assumes "good conv S sent T got R kcp" "unat (k_snd_nxt kcp) + length (k_snd_queue kcp) < 2 ^ 30"
    "ikcp_update kcp now = (kcp', outs)"
  shows "\<exists>X. good conv (S @ X) sent T got R kcp' \<and> received kcp' = received kcp \<and> k_rcv_nxt kcp' = k_rcv_nxt kcp
    \<and> k_mtu kcp' = k_mtu kcp \<and> (\<forall>d \<in> set outs. sound_output conv (S @ X) kcp d)"
proof -
  obtain t where "ikcp_flush (kcp\<lparr>k_current := now, k_updated := True, k_ts_flush := t\<rparr>) = (kcp', outs)
      \<or> (kcp\<lparr>k_current := now, k_updated := True, k_ts_flush := t\<rparr>, []) = (kcp', outs)"
    using update_flush [of kcp now] unfolding assms(3) by metis
  then show ?thesis
  proof
    assume "ikcp_flush (kcp\<lparr>k_current := now, k_updated := True, k_ts_flush := t\<rparr>) = (kcp', outs)"
    from ikcp_flush_keeps [OF _ _ this, of conv S sent T got R] assms(1,2) show ?thesis by (simp add: sound_output_def)
  next
    assume "(kcp\<lparr>k_current := now, k_updated := True, k_ts_flush := t\<rparr>, []) = (kcp', outs)"
    then show ?thesis using assms(1) by (intro exI [of _ "[]"]) auto
  qed
qed

end
