(* ===== verification/Kcp_Link.thy ===== *)
theory Kcp_Link
  imports Kcp_Delivery
begin

text \<open>
  A KCP connection between two endpoints as a step relation: either side may send, update its
  clock, read, or take in any datagram the other side has ever put on the network, in any order,
  any number of times or never. The theorems hold in every state such a connection reaches.
\<close>

section \<open>The connection\<close>

record link =
  ep :: "bool \<Rightarrow> ikcpcb"
  net :: "bool \<Rightarrow> byte list set"
  accepted :: "bool \<Rightarrow> byte list"
  delivered :: "bool \<Rightarrow> byte list"

text \<open>A control block as it is configured before any traffic.\<close>

definition kcp_started :: "u32 \<Rightarrow> ikcpcb \<Rightarrow> bool" where
  "kcp_started conv kcp \<longleftrightarrow> k_conv kcp = conv \<and> k_stream kcp \<noteq> 0 \<and> 0 < unat (k_mss kcp)
     \<and> unat (k_mss kcp) + IKCP_OVERHEAD \<le> unat (k_mtu kcp) \<and> unat (k_mtu kcp) < 2 ^ 16 \<and> 0 < unat (k_rcv_wnd kcp)
     \<and> k_snd_nxt kcp = 0 \<and> k_rcv_nxt kcp = 0 \<and> k_snd_queue kcp = [] \<and> k_snd_buf kcp = [] \<and> k_rcv_queue kcp = []
     \<and> k_rcv_buf kcp = [] \<and> k_acklist kcp = []"

inductive link_step :: "link \<Rightarrow> link \<Rightarrow> bool" where
  send: "ikcp_send (ep l s) buf = (r, kcp) \<Longrightarrow>
    link_step l (l\<lparr>ep := (ep l)(s := kcp), accepted := (accepted l)(s := accepted l s @ take (nat r) buf)\<rparr>)"
| update: "ikcp_update (ep l s) now = (kcp, outs) \<Longrightarrow> unat (k_snd_nxt (ep l s)) + length (k_snd_queue (ep l s)) < 2 ^ 30 \<Longrightarrow>
    link_step l (l\<lparr>ep := (ep l)(s := kcp), net := (net l)(s := net l s \<union> set outs)\<rparr>)"
| input: "d \<in> net l (\<not> s) \<Longrightarrow> ikcp_input (ep l s) d = (r, kcp) \<Longrightarrow> link_step l (l\<lparr>ep := (ep l)(s := kcp)\<rparr>)"
| recv: "0 \<le> len \<Longrightarrow> ikcp_recv (ep l s) len = (r, buf, kcp) \<Longrightarrow>
    link_step l (l\<lparr>ep := (ep l)(s := kcp), delivered := (delivered l)(s := delivered l s @ buf)\<rparr>)"

inductive linked :: "u32 \<Rightarrow> link \<Rightarrow> bool" for conv where
  start: "kcp_started conv k1 \<Longrightarrow> kcp_started conv k2 \<Longrightarrow>
    linked conv \<lparr>ep = (\<lambda>s. if s then k1 else k2), net = (\<lambda>s. {}), accepted = (\<lambda>s. []), delivered = (\<lambda>s. [])\<rparr>"
| step: "linked conv l \<Longrightarrow> link_step l l' \<Longrightarrow> linked conv l'"

section \<open>The invariant\<close>

definition sound_link :: "u32 \<Rightarrow> (bool \<Rightarrow> byte list list) \<Rightarrow> link \<Rightarrow> bool" where
  "sound_link conv S l \<longleftrightarrow> (\<forall>s. good conv (S s) (accepted l s) (S (\<not> s)) (delivered l s) (received (ep l (\<not> s))) (ep l s)
     \<and> (\<forall>d \<in> net l s. sound_output conv (S s) (ep l s) d))"

lemma started_good: "kcp_started conv kcp \<Longrightarrow> good conv [] [] [] [] {} kcp \<and> received kcp = {}"
  by (simp add: kcp_started_def good_def kcp_cfg_def snd_inv_def rcv_inv_def rcv_pre_def all_moved_def received_def)

lemma sound_output_mono:
  assumes "sound_output conv S kcp d" "received kcp \<subseteq> received kcp'" "k_mtu kcp' = k_mtu kcp"
  shows "sound_output conv (S @ X) kcp' d"
proof -
  obtain nxt where n: "nxt < 2 ^ 30" "{n. n < nxt} \<subseteq> received kcp" "datagram (carried conv S (received kcp) nxt) d"
    using assms(1) by (auto simp: sound_output_def)
  have "datagram (carried conv (S @ X) (received kcp') nxt) d"
    using datagram_mono [OF n(3)] carried_mono [OF _ assms(2) order_refl] by blast
  then show ?thesis using n(1,2) assms by (auto simp: sound_output_def)
qed

text \<open>One endpoint changes; the other sees at most more numbered payloads and more of its own received.\<close>

lemma sound_link_change:
  assumes l: "sound_link conv S l"
    and g: "good conv (S s @ X) sent (S (\<not> s)) got (received (ep l (\<not> s))) kcp"
    and r: "received (ep l s) \<subseteq> received kcp" "k_mtu kcp = k_mtu (ep l s)"
    and n: "\<forall>d \<in> N. sound_output conv (S s @ X) kcp d"
    and e: "ep l' = (ep l)(s := kcp)" "net l' = (net l)(s := net l s \<union> N)" "accepted l' = (accepted l)(s := sent)"
      "delivered l' = (delivered l)(s := got)"
  shows "\<exists>S. sound_link conv S l'"
proof -
  let ?t = "\<not> s"
  have t: "good conv (S ?t) (accepted l ?t) (S s) (delivered l ?t) (received (ep l s)) (ep l ?t)"
    "\<forall>d \<in> net l ?t. sound_output conv (S ?t) (ep l ?t) d" "\<forall>d \<in> net l s. sound_output conv (S s) (ep l s) d"
    using l [unfolded sound_link_def, THEN spec, of ?t] l [unfolded sound_link_def, THEN spec, of s] by simp_all
  have "length (S s @ X) < 2 ^ 30" using g by (simp add: good_def snd_inv_def)
  from good_mono [OF t(1) r(1) this]
  have gt: "good conv (S ?t) (accepted l ?t) (S s @ X) (delivered l ?t) (received kcp) (ep l ?t)" .
  have ns: "\<forall>d \<in> net l s \<union> N. sound_output conv (S s @ X) kcp d"
    using t(3) n sound_output_mono [OF _ r] by blast
  have "good conv ((S(s := S s @ X)) u) (accepted l' u) ((S(s := S s @ X)) (\<not> u)) (delivered l' u) (received (ep l' (\<not> u))) (ep l' u)
      \<and> (\<forall>d \<in> net l' u. sound_output conv ((S(s := S s @ X)) u) (ep l' u) d)" for u
    by (cases "u = s") (use g gt ns t(2) e in \<open>auto\<close>)
  then show ?thesis unfolding sound_link_def by blast
qed

lemma input_mtu: "ikcp_input kcp d = (r, kcp') \<Longrightarrow> k_mtu kcp' = k_mtu kcp"
proof -
  have s: "k_mtu (fst (input_segment kcp best seg)) = k_mtu kcp" for kcp best seg by (simp add: input_defs)
  have "k_mtu (fst (snd (input_loop kcp best data))) = k_mtu kcp" for best data
  proof (induction data arbitrary: kcp best rule: length_induct)
    case (1 data)
    obtain seg len where h: "decode_header data = (seg, len)" by fastforce
    let ?s = "seg\<lparr>seg_data := take (unat len) (drop IKCP_OVERHEAD data)\<rparr>"
    obtain k1 b1 where i: "input_segment kcp best ?s = (k1, b1)" by fastforce
    have "k_mtu k1 = k_mtu kcp" using s [of kcp best ?s] i by simp
    moreover have "length data < IKCP_OVERHEAD \<or>
        k_mtu (fst (snd (input_loop k1 b1 (drop (unat len) (drop IKCP_OVERHEAD data))))) = k_mtu k1"
      using 1 [THEN spec, of "drop (unat len) (drop IKCP_OVERHEAD data)"] by (auto simp: IKCP_OVERHEAD_def)
    ultimately show ?case by (subst input_loop.simps) (auto simp: h i Let_def)
  qed
  from this [of None d] show "ikcp_input kcp d = (r, kcp') \<Longrightarrow> k_mtu kcp' = k_mtu kcp"
    by (auto simp: ikcp_input_def ikcp_parse_fastack_def Let_def split: if_splits prod.splits option.splits)
qed

lemma recv_mtu: "ikcp_recv kcp len = (r, buf, kcp') \<Longrightarrow> k_mtu kcp' = k_mtu kcp"
  by (auto simp: ikcp_recv_def Let_def case_prod_unfold split: if_splits)

lemma send_mtu: "ikcp_send kcp buf = (r, kcp') \<Longrightarrow> k_mtu kcp' = k_mtu kcp"
  using ikcp_send_limits(1) [of kcp buf] by simp

lemma link_step_keeps:
  assumes "link_step l l'" "sound_link conv S l"
  shows "\<exists>S. sound_link conv S l'"
proof -
  have g: "good conv (S s) (accepted l s) (S (\<not> s)) (delivered l s) (received (ep l (\<not> s))) (ep l s)"
    "\<forall>d \<in> net l s. sound_output conv (S s) (ep l s) d" for s
    using assms(2) by (simp_all add: sound_link_def)
  show ?thesis
    using assms(1)
  proof cases
    case (send s buf r kcp)
    from ikcp_send_keeps [OF g(1) send(2)] show ?thesis
      by (intro sound_link_change [OF assms(2), of s "[]" _ _ kcp "{}"])
        (auto simp: send(1) fun_upd_triv intro: send_mtu [OF send(2)])
  next
    case (update s now kcp outs)
    from ikcp_update_keeps [OF g(1) update(3,2)] obtain X where
      "good conv (S s @ X) (accepted l s) (S (\<not> s)) (delivered l s) (received (ep l (\<not> s))) kcp"
      "received kcp = received (ep l s)" "k_mtu kcp = k_mtu (ep l s)" "\<forall>d \<in> set outs. sound_output conv (S s @ X) (ep l s) d" by blast
    then show ?thesis
      by (intro sound_link_change [OF assms(2), of s X _ _ kcp "set outs"]) (auto simp: update(1) sound_output_def)
  next
    case (input d s r kcp)
    obtain nxt where "nxt < 2 ^ 30" "{n. n < nxt} \<subseteq> received (ep l (\<not> s))"
        "datagram (carried conv (S (\<not> s)) (received (ep l (\<not> s))) nxt) d"
      using g(2) [of "\<not> s"] input(2) by (auto simp: sound_output_def)
    from ikcp_input_keeps [OF g(1) this(3,2,1) input(3)] input_mtu [OF input(3)] show ?thesis
      by (intro sound_link_change [OF assms(2), of s "[]" _ _ kcp "{}"]) (auto simp: input(1))
  next
    case (recv len s r buf kcp)
    from ikcp_recv_keeps [OF g(1) recv(3,2)] recv_mtu [OF recv(3)] show ?thesis
      by (intro sound_link_change [OF assms(2), of s "[]" _ _ kcp "{}"]) (auto simp: recv(1))
  qed
qed

lemma linked_sound: "linked conv l \<Longrightarrow> \<exists>S. sound_link conv S l"
proof (induction rule: linked.induct)
  case (start k1 k2)
  then show ?case using started_good [of conv k1] started_good [of conv k2]
    by (intro exI [of _ "\<lambda>s. []"]) (auto simp: sound_link_def)
next
  case (step l l')
  then show ?case using link_step_keeps by blast
qed

section \<open>Delivery\<close>

lemma linked_prefix: "linked conv l \<Longrightarrow> prefix (delivered l s) (accepted l (\<not> s))"
proof -
  assume "linked conv l"
  then obtain S where "sound_link conv S l" using linked_sound by blast
  then have "good conv (S s) (accepted l s) (S (\<not> s)) (delivered l s) (received (ep l (\<not> s))) (ep l s)"
    "good conv (S (\<not> s)) (accepted l (\<not> s)) (S s) (delivered l (\<not> s)) (received (ep l s)) (ep l (\<not> s))"
    unfolding sound_link_def by (auto dest: spec [of _ s] spec [of _ "\<not> s"])
  then have r: "delivered l s @ concat (map seg_data (k_rcv_queue (ep l s))) = concat (take (unat (k_rcv_nxt (ep l s))) (S (\<not> s)))"
    and a: "accepted l (\<not> s) = concat (S (\<not> s)) @ concat (map seg_data (k_snd_queue (ep l (\<not> s))))"
    by (simp_all add: good_def rcv_inv_def rcv_pre_def snd_inv_def)
  have "concat (S (\<not> s)) = concat (take (unat (k_rcv_nxt (ep l s))) (S (\<not> s))) @ concat (drop (unat (k_rcv_nxt (ep l s))) (S (\<not> s)))"
    by (simp flip: concat_append)
  then show ?thesis using a r [symmetric] by (simp add: prefix_def)
qed

lemma linked_complete:
  assumes "linked conv l" "ikcp_waitsnd (ep l (\<not> s)) = 0" "k_rcv_queue (ep l s) = []"
  shows "delivered l s = accepted l (\<not> s)"
proof -
  obtain S where "sound_link conv S l" using linked_sound [OF assms(1)] by blast
  then have g: "good conv (S s) (accepted l s) (S (\<not> s)) (delivered l s) (received (ep l (\<not> s))) (ep l s)"
    "good conv (S (\<not> s)) (accepted l (\<not> s)) (S s) (delivered l (\<not> s)) (received (ep l s)) (ep l (\<not> s))"
    unfolding sound_link_def by (auto dest: spec [of _ s] spec [of _ "\<not> s"])
  let ?k = "ep l s" and ?n = "unat (k_rcv_nxt (ep l s))"
  have e: "k_snd_buf (ep l (\<not> s)) = []" "k_snd_queue (ep l (\<not> s)) = []" using assms(2) by (simp_all add: ikcp_waitsnd_def)
  have "length (S (\<not> s)) \<le> ?n"
  proof (rule ccontr)
    assume "\<not> length (S (\<not> s)) \<le> ?n"
    then have "?n \<in> received ?k" using g(2) e by (auto simp: good_def)
    then obtain seg rest where b: "k_rcv_buf ?k = seg # rest" by (cases "k_rcv_buf ?k") (auto simp: received_def)
    have "?n \<in> set (sns (k_rcv_buf ?k))" using \<open>?n \<in> received ?k\<close> by (simp add: received_def)
    then have "unat (seg_sn seg) = ?n" using g(1) b by (auto simp: good_def rcv_inv_def rcv_pre_def)
    then have "seg_sn seg = k_rcv_nxt ?k" by (simp add: word_unat_eq_iff)
    then show False using g(1) b assms(3) by (auto simp: good_def rcv_inv_def all_moved_def kcp_cfg_def)
  qed
  then show ?thesis using g e assms(3) by (simp add: good_def rcv_inv_def rcv_pre_def snd_inv_def)
qed

lemma linked_datagram:
  assumes "linked conv l" "d \<in> net l (\<not> s)"
  shows "length d \<le> unat (k_mtu (ep l (\<not> s))) \<and> fst (ikcp_input (ep l s) d) = 0"
proof -
  obtain S where "sound_link conv S l" using linked_sound [OF assms(1)] by blast
  then have g: "good conv (S s) (accepted l s) (S (\<not> s)) (delivered l s) (received (ep l (\<not> s))) (ep l s)"
    "sound_output conv (S (\<not> s)) (ep l (\<not> s)) d"
    using assms(2) unfolding sound_link_def by (auto dest: spec [of _ s] spec [of _ "\<not> s"])
  obtain nxt where "nxt < 2 ^ 30" "{n. n < nxt} \<subseteq> received (ep l (\<not> s))"
      "datagram (carried conv (S (\<not> s)) (received (ep l (\<not> s))) nxt) d"
    using g(2) by (auto simp: sound_output_def)
  from ikcp_input_keeps(3) [OF g(1) this(3,2,1)] g(2) show ?thesis
    by (cases "ikcp_input (ep l s) d") (simp add: sound_output_def)
qed

section \<open>A short connection\<close>

text \<open>
  Two endpoints with the tunnel's MTU and windows, in no-delay mode. One sends two bytes and flushes; the
  other takes the datagram in twice, reads, and acknowledges; the acknowledgement arrives.
\<close>

definition demo_kcp :: "u32 \<Rightarrow> ikcpcb" where
  "demo_kcp conv = (snd (ikcp_wndsize (snd (ikcp_nodelay (snd (ikcp_setmtu True (the (ikcp_create True conv)) 1400)) 1 20 2 1)) 64 128))
     \<lparr>k_stream := 1\<rparr>"

definition demo_data :: "byte list" where
  "demo_data = [7, 0, 0, 0, 81, 0, 128, 0, 232, 3, 0, 0, 0, 0, 0, 0, 0, 0, 0, 0, 2, 0, 0, 0, 104, 105]"

definition demo_ack :: "byte list" where
  "demo_ack = [7, 0, 0, 0, 82, 0, 128, 0, 232, 3, 0, 0, 0, 0, 0, 0, 1, 0, 0, 0, 0, 0, 0, 0,
     7, 0, 0, 0, 82, 0, 128, 0, 232, 3, 0, 0, 0, 0, 0, 0, 1, 0, 0, 0, 0, 0, 0, 0]"

definition demo_queued :: ikcpcb where
  "demo_queued = (demo_kcp 7)\<lparr>k_snd_queue := [new_segment 0 [104, 105]]\<rparr>"

definition demo_pushed :: IKCPSEG where
  "demo_pushed = (new_segment 0 [104, 105])\<lparr>seg_conv := 7, seg_cmd := IKCP_CMD_PUSH, seg_wnd := 128, seg_ts := 1000\<rparr>"

definition demo_sent :: ikcpcb where
  "demo_sent = (demo_kcp 7)\<lparr>k_current := 1000, k_updated := True, k_ts_flush := 1020, k_snd_nxt := 1, k_cwnd := 1, k_incr := 1376,
     k_snd_buf := [demo_pushed\<lparr>seg_resendts := 1200, seg_rto := 200, seg_xmit := 1\<rparr>]\<rparr>"

definition demo_got :: ikcpcb where
  "demo_got = (demo_kcp 7)\<lparr>k_rcv_nxt := 1, k_rcv_queue := [demo_pushed], k_acklist := [(0, 1000)]\<rparr>"

definition demo_twice :: ikcpcb where
  "demo_twice = demo_got\<lparr>k_acklist := [(0, 1000), (0, 1000)]\<rparr>"

definition demo_read :: ikcpcb where
  "demo_read = demo_twice\<lparr>k_rcv_queue := []\<rparr>"

definition demo_acked :: ikcpcb where
  "demo_acked = demo_sent\<lparr>k_snd_una := 1, k_snd_buf := [], k_rx_rto := 30, k_cwnd := 2, k_incr := 2752\<rparr>"

lemma demo_kcp_started: "kcp_started 7 (demo_kcp 7)"
  by (simp add: kcp_started_def demo_kcp_def ikcp_create_def ikcp_setmtu_def ikcp_nodelay_def ikcp_wndsize_def imax_def macros)

lemma demo_send: "ikcp_send (demo_kcp 7) [104, 105] = (2, demo_queued)"
  by code_simp

lemma demo_update: "ikcp_update demo_queued 1000 = (demo_sent, [demo_data])"
  by code_simp

lemma demo_input: "ikcp_input (demo_kcp 7) demo_data = (0, demo_got)" "ikcp_input demo_got demo_data = (0, demo_twice)"
  by code_simp+

lemma demo_recv: "ikcp_recv demo_twice 4096 = (2, [104, 105], demo_read)"
  by code_simp

lemma demo_update_ack: "ikcp_update demo_read 1010 = (fst (ikcp_update demo_read 1010), [demo_ack])"
proof -
  have "snd (ikcp_update demo_read 1010) = [demo_ack]" by code_simp
  then show ?thesis by (simp add: prod_eq_iff)
qed

lemma demo_input_ack: "ikcp_input demo_sent demo_ack = (0, demo_acked)"
  by code_simp

lemma demo_small:
  "unat (k_snd_nxt demo_queued) + length (k_snd_queue demo_queued) < 2 ^ 30"
  "unat (k_snd_nxt demo_read) + length (k_snd_queue demo_read) < 2 ^ 30"
  using demo_kcp_started by (simp_all add: demo_queued_def demo_read_def demo_twice_def demo_got_def kcp_started_def)

lemma demo_drained: "ikcp_waitsnd demo_acked = 0" "k_rcv_queue (fst (ikcp_update demo_read 1010)) = []"
  by code_simp+

definition demo_link :: "ikcpcb \<Rightarrow> ikcpcb \<Rightarrow> byte list set \<Rightarrow> byte list set \<Rightarrow> byte list \<Rightarrow> byte list \<Rightarrow> link" where
  "demo_link k1 k2 n1 n2 a d = \<lparr>ep = (\<lambda>s. if s then k1 else k2), net = (\<lambda>s. if s then n1 else n2),
     accepted = (\<lambda>s. if s then a else []), delivered = (\<lambda>s. if s then [] else d)\<rparr>"

lemma demo_link_fields [simp]:
  "ep (demo_link k1 k2 n1 n2 a d) s = (if s then k1 else k2)" "net (demo_link k1 k2 n1 n2 a d) s = (if s then n1 else n2)"
  "accepted (demo_link k1 k2 n1 n2 a d) s = (if s then a else [])" "delivered (demo_link k1 k2 n1 n2 a d) s = (if s then [] else d)"
  by (simp_all add: demo_link_def)

lemma demo_link_steps:
  "ikcp_send k1 buf = (r, k) \<Longrightarrow> link_step (demo_link k1 k2 n1 n2 a d) (demo_link k k2 n1 n2 (a @ take (nat r) buf) d)"
  "ikcp_update k1 now = (k, outs) \<Longrightarrow> unat (k_snd_nxt k1) + length (k_snd_queue k1) < 2 ^ 30 \<Longrightarrow>
     link_step (demo_link k1 k2 n1 n2 a d) (demo_link k k2 (n1 \<union> set outs) n2 a d)"
  "ikcp_update k2 now = (k, outs) \<Longrightarrow> unat (k_snd_nxt k2) + length (k_snd_queue k2) < 2 ^ 30 \<Longrightarrow>
     link_step (demo_link k1 k2 n1 n2 a d) (demo_link k1 k n1 (n2 \<union> set outs) a d)"
  "x \<in> n1 \<Longrightarrow> ikcp_input k2 x = (r, k) \<Longrightarrow> link_step (demo_link k1 k2 n1 n2 a d) (demo_link k1 k n1 n2 a d)"
  "x \<in> n2 \<Longrightarrow> ikcp_input k1 x = (r, k) \<Longrightarrow> link_step (demo_link k1 k2 n1 n2 a d) (demo_link k k2 n1 n2 a d)"
  "ikcp_recv k2 4096 = (r, buf, k) \<Longrightarrow> link_step (demo_link k1 k2 n1 n2 a d) (demo_link k1 k n1 n2 a (d @ buf))"
  using link_step.send [of "demo_link k1 k2 n1 n2 a d" True buf r k]
    link_step.update [of "demo_link k1 k2 n1 n2 a d" True now k outs] link_step.update [of "demo_link k1 k2 n1 n2 a d" False now k outs]
    link_step.input [of x "demo_link k1 k2 n1 n2 a d" False r k] link_step.input [of x "demo_link k1 k2 n1 n2 a d" True r k]
    link_step.recv [of 4096 "demo_link k1 k2 n1 n2 a d" False r buf k]
  by (simp_all add: demo_link_def fun_upd_def if_distrib cong: if_cong)

definition demo_end :: link where
  "demo_end = demo_link demo_acked (fst (ikcp_update demo_read 1010)) {demo_data} {demo_ack} [104, 105] [104, 105]"

lemma demo_linked: "linked 7 demo_end"
proof -
  have "linked 7 (demo_link (demo_kcp 7) (demo_kcp 7) {} {} [] [])"
    using linked.start [OF demo_kcp_started demo_kcp_started] by (simp add: demo_link_def cong: if_cong)
  from linked.step [OF this demo_link_steps(1) [OF demo_send]]
  have "linked 7 (demo_link demo_queued (demo_kcp 7) {} {} [104, 105] [])" by simp
  from linked.step [OF this demo_link_steps(2) [OF demo_update]]
  have "linked 7 (demo_link demo_sent (demo_kcp 7) {demo_data} {} [104, 105] [])" using demo_small(1) by simp
  from linked.step [OF this demo_link_steps(4) [OF _ demo_input(1)]]
  have "linked 7 (demo_link demo_sent demo_got {demo_data} {} [104, 105] [])" by simp
  from linked.step [OF this demo_link_steps(4) [OF _ demo_input(2)]]
  have "linked 7 (demo_link demo_sent demo_twice {demo_data} {} [104, 105] [])" by simp
  from linked.step [OF this demo_link_steps(6) [OF demo_recv]]
  have "linked 7 (demo_link demo_sent demo_read {demo_data} {} [104, 105] [104, 105])" by simp
  from linked.step [OF this demo_link_steps(3) [OF demo_update_ack]]
  have "linked 7 (demo_link demo_sent (fst (ikcp_update demo_read 1010)) {demo_data} {demo_ack} [104, 105] [104, 105])"
    using demo_small(2) by simp
  from linked.step [OF this demo_link_steps(5) [OF _ demo_input_ack]] show ?thesis by (simp add: demo_end_def)
qed

section \<open>The delivery theorems\<close>

text \<open>
  C8: Over any schedule of sends, clock updates and reads on the two sides, and any loss, repetition,
  delay or reordering of the datagrams between them, the bytes a side has read are a prefix of the
  bytes the other side has handed to \<^verbatim>\<open>ikcp_send\<close>: nothing is lost in the middle, repeated, swapped
  or made up.
\<close>

theorem kcp_delivers_prefix:
  assumes "linked conv l"
  shows "prefix (delivered l s) (accepted l (\<not> s))"
  by (rule linked_prefix [OF assms])

theorem kcp_delivers_prefix_witness: "linked 7 demo_end \<and> prefix (delivered demo_end False) (accepted demo_end True)"
  using kcp_delivers_prefix [OF demo_linked, of False] demo_linked by simp

text \<open>
  C9: When \<^verbatim>\<open>ikcp_waitsnd\<close> of the sender is zero, the condition on which the tunnel starts its close
  handshake, and the receiver has read its queue empty, every byte the sender was given has been
  read: closing then loses nothing.
\<close>

theorem kcp_close_lossless:
  assumes "linked conv l" "ikcp_waitsnd (ep l (\<not> s)) = 0" "k_rcv_queue (ep l s) = []"
  shows "delivered l s = accepted l (\<not> s)"
  by (rule linked_complete [OF assms])

theorem kcp_close_lossless_witness:
  "linked 7 demo_end \<and> ikcp_waitsnd (ep demo_end True) = 0 \<and> k_rcv_queue (ep demo_end False) = []
   \<and> delivered demo_end False = accepted demo_end True"
  using kcp_close_lossless [OF demo_linked, of False] demo_linked demo_drained by (simp add: demo_end_def)

text \<open>
  C10: Every datagram a side ever puts on the network fits the configured MTU, and the other side's
  \<^verbatim>\<open>ikcp_input\<close> accepts it in whatever state it is then.
\<close>

theorem kcp_datagrams_accepted:
  assumes "linked conv l" "d \<in> net l (\<not> s)"
  shows "length d \<le> unat (k_mtu (ep l (\<not> s))) \<and> fst (ikcp_input (ep l s) d) = 0"
  by (rule linked_datagram [OF assms])

theorem kcp_datagrams_accepted_witness:
  "linked 7 demo_end \<and> demo_data \<in> net demo_end True \<and> length demo_data \<le> unat (k_mtu (ep demo_end True))
   \<and> fst (ikcp_input (ep demo_end False) demo_data) = 0"
  using kcp_datagrams_accepted [OF demo_linked, of demo_data False] demo_linked by (simp add: demo_end_def)

end
