(* ===== verification/Stream_Wire.thy ===== *)
theory Stream_Wire
  imports Stream Kcp_Link
begin

text \<open>
  Envelopes are read back as they were written, and what the single operations of the tunnel do to
  the control block: which fields they keep, and how draining and pumping are sends and reads of
  the KCP connection.
\<close>

section \<open>Envelopes\<close>

lemma low_byte: "ucast ((v :: u32) AND 255) = (ucast v :: byte)"
proof -
  have "(255 :: u32) = mask 8" by (simp add: mask_eq_exp_minus_1)
  then have "v AND 255 = take_bit 8 v" by (simp only: take_bit_eq_mask)
  then show ?thesis by (auto intro!: bit_word_eqI simp: bit_simps)
qed

lemma load_store: "redp2p_load_u32_le (redp2p_store_u32_le v @ r) = v"
  using decode32_encode32 [of v r]
  by (simp add: redp2p_load_u32_le_def redp2p_store_u32_le_def ikcp_decode32u_def ikcp_encode32u_def low_byte)

lemma length_store [simp]: "length (redp2p_store_u32_le v) = 4"
  by (simp add: redp2p_store_u32_le_def)

definition valid_type :: "byte \<Rightarrow> bool" where
  "valid_type ty \<longleftrightarrow> REDP2P_STREAM_TYPE_HELLO \<le> ty \<and> ty \<le> REDP2P_STREAM_TYPE_KEEPALIVE"

definition valid_role :: "byte \<Rightarrow> bool" where
  "valid_role role \<longleftrightarrow> role = REDP2P_STREAM_ROLE_INITIATOR \<or> role = REDP2P_STREAM_ROLE_RESPONDER"

lemma unpack_pack:
  assumes "valid_type ty" "valid_role role" "length sid = REDP2P_STREAM_SESSION_ID_SZ" "length payload \<le> REDP2P_STREAM_KCP_MTU"
    "ty \<noteq> REDP2P_STREAM_TYPE_KCP \<Longrightarrow> payload = []"
  shows "redp2p_stream_unpack (redp2p_stream_pack ty role proto_tcp sid payload) =
    Some \<lparr>en_type = ty, en_role = role, en_protocol = proto_tcp, en_session_id = sid, en_payload = payload\<rparr>"
proof -
  let ?f = "redp2p_stream_pack ty role proto_tcp sid payload"
  have f: "?f = redp2p_store_u32_le REDP2P_STREAM_MAGIC @ [REDP2P_STREAM_VERSION, ty, role, proto_tcp] @ sid @ payload"
    using assms(4) by (simp add: redp2p_stream_pack_def)
  have n: "?f ! 4 = REDP2P_STREAM_VERSION" "?f ! 5 = ty" "?f ! 6 = role" "?f ! 7 = proto_tcp"
    unfolding f by (simp_all add: nth_append)
  have d: "take REDP2P_STREAM_SESSION_ID_SZ (drop 8 ?f) = sid" "drop REDP2P_STREAM_ENVELOPE_SZ ?f = payload"
    unfolding f using assms(3) by (simp_all add: macros)
  have l: "length ?f = REDP2P_STREAM_ENVELOPE_SZ + length payload" unfolding f using assms(3) by (simp add: macros)
  have m: "redp2p_load_u32_le ?f = REDP2P_STREAM_MAGIC" unfolding f by (rule load_store)
  show ?thesis
    unfolding redp2p_stream_unpack_def n d m l Let_def
    using assms(1,2,4,5) by (auto simp: valid_type_def valid_role_def REDP2P_STREAM_MAX_FRAME_def)
qed

lemma unpack_bounds:
  "redp2p_stream_unpack buf = Some e \<Longrightarrow> length (en_session_id e) = REDP2P_STREAM_SESSION_ID_SZ
     \<and> length (en_payload e) \<le> REDP2P_STREAM_KCP_MTU \<and> en_protocol e = proto_tcp"
  by (auto simp: redp2p_stream_unpack_def Let_def macros split: if_splits)

lemma store_load:
  assumes "4 \<le> length buf" "redp2p_load_u32_le buf = v"
  shows "take 4 buf = redp2p_store_u32_le v"
proof -
  obtain a b c d r where b: "buf = a # b # c # d # r"
    using assms(1) by (auto simp: numeral_eq_Suc Suc_le_length_iff)
  have w: "v = ucast a OR push_bit 8 (ucast b) OR push_bit 16 (ucast c) OR push_bit 24 (ucast d)"
    using assms(2) by (simp add: b redp2p_load_u32_le_def)
  have "ucast v = a" "ucast (drop_bit 8 v) = b" "ucast (drop_bit 16 v) = c" "ucast (drop_bit 24 v) = d"
    by (rule bit_word_eqI; auto simp: w bit_simps dest: bit_imp_le_length)+
  then show ?thesis by (simp add: b redp2p_store_u32_le_def low_byte)
qed

lemma unpack_exact:
  "redp2p_stream_unpack f = Some e \<longleftrightarrow>
     f = redp2p_stream_pack (en_type e) (en_role e) proto_tcp (en_session_id e) (en_payload e)
     \<and> valid_type (en_type e) \<and> valid_role (en_role e) \<and> en_protocol e = proto_tcp
     \<and> length (en_session_id e) = REDP2P_STREAM_SESSION_ID_SZ \<and> length (en_payload e) \<le> REDP2P_STREAM_KCP_MTU
     \<and> (en_type e = REDP2P_STREAM_TYPE_KCP \<or> en_payload e = [])"
  (is "?l \<longleftrightarrow> ?r")
proof
  assume u: ?l
  then have l: "REDP2P_STREAM_ENVELOPE_SZ \<le> length f" "length f \<le> REDP2P_STREAM_MAX_FRAME"
    by (auto simp: redp2p_stream_unpack_def split: if_splits)
  have v: "redp2p_load_u32_le f = REDP2P_STREAM_MAGIC" "f ! 4 = REDP2P_STREAM_VERSION" "f ! 7 = proto_tcp"
      "valid_type (f ! 5)" "valid_role (f ! 6)"
      "e = \<lparr>en_type = f ! 5, en_role = f ! 6, en_protocol = f ! 7, en_session_id = take REDP2P_STREAM_SESSION_ID_SZ (drop 8 f),
         en_payload = drop REDP2P_STREAM_ENVELOPE_SZ f\<rparr>"
      "en_type e = REDP2P_STREAM_TYPE_KCP \<or> en_payload e = []"
    using u by (auto simp: redp2p_stream_unpack_def Let_def valid_type_def valid_role_def split: if_splits)
  have "take 4 f = redp2p_store_u32_le REDP2P_STREAM_MAGIC" by (rule store_load [OF _ v(1)]) (use l in \<open>simp add: macros\<close>)
  moreover have "f = take 4 f @ [f ! 4, f ! 5, f ! 6, f ! 7] @ take 16 (drop 8 f) @ drop 24 f"
    using l(1) by (intro nth_equalityI) (auto simp: nth_append nth_Cons' macros intro!: arg_cong [where f = "nth f"])
  ultimately have "f = redp2p_stream_pack (en_type e) (en_role e) proto_tcp (en_session_id e) (en_payload e)"
    using v l unfolding redp2p_stream_pack_def by (simp add: macros)
  then show ?r using v l by (simp add: macros)
next
  assume r: ?r
  then show ?l using unpack_pack [of "en_type e" "en_role e" "en_session_id e" "en_payload e"] by (cases e) auto
qed

lemma pack_length:
  assumes "length sid = REDP2P_STREAM_SESSION_ID_SZ"
  shows "length (redp2p_stream_pack ty role proto sid payload) \<le> REDP2P_STREAM_MAX_FRAME"
  using assms by (simp add: redp2p_stream_pack_def macros)

section \<open>What the operations of KCP keep\<close>

text \<open>A property every segment handler keeps is kept by the input of a datagram.\<close>

lemma input_preserves:
  assumes s: "\<And>kcp best seg. Q kcp \<Longrightarrow> Q (fst (input_segment kcp best seg))"
    and f: "\<And>kcp sn ts. Q kcp \<Longrightarrow> Q (ikcp_parse_fastack kcp sn ts)" and g: "\<And>kcp. Q kcp \<Longrightarrow> Q (grow_cwnd kcp)"
    and q: "Q kcp" and i: "ikcp_input kcp d = (r, kcp')"
  shows "Q kcp'"
proof -
  have "Q (fst (snd (input_loop kcp best data)))" for best data
    using q
  proof (induction data arbitrary: kcp best rule: length_induct)
    case (1 data)
    obtain seg len where h: "decode_header data = (seg, len)" by fastforce
    let ?s = "seg\<lparr>seg_data := take (unat len) (drop IKCP_OVERHEAD data)\<rparr>"
    obtain k1 b1 where i: "input_segment kcp best ?s = (k1, b1)" by fastforce
    have "Q k1" using s [OF 1(2), of best ?s] i by simp
    then have "length data < IKCP_OVERHEAD \<or> Q (fst (snd (input_loop k1 b1 (drop (unat len) (drop IKCP_OVERHEAD data)))))"
      using 1(1) [THEN spec, of "drop (unat len) (drop IKCP_OVERHEAD data)"] by (auto simp: IKCP_OVERHEAD_def)
    then show ?case using 1(2) by (subst input_loop.simps) (auto simp: h i Let_def)
  qed
  from this [of None d] show ?thesis
    using i q f g by (auto simp: ikcp_input_def Let_def split: if_splits prod.splits option.splits)
qed

lemma ack_loop_Nil: "ack_loop sn xs = [] \<or> xs \<noteq> []"
  by (cases xs) auto

text \<open>The segment size is fixed; nothing waiting stays nothing waiting without a send.\<close>

definition idle :: "ikcpcb \<Rightarrow> bool" where
  "idle kcp \<longleftrightarrow> k_snd_queue kcp = [] \<and> k_snd_buf kcp = []"

lemma idle_waitsnd: "idle kcp \<longleftrightarrow> ikcp_waitsnd kcp = 0"
  by (auto simp: idle_def ikcp_waitsnd_def)

lemma input_mss: "ikcp_input kcp d = (r, kcp') \<Longrightarrow> k_mss kcp' = k_mss kcp"
  by (rule input_preserves [of "\<lambda>k. k_mss k = k_mss kcp" kcp]) (simp_all add: input_defs ikcp_parse_fastack_def)

lemma input_idle: "ikcp_input kcp d = (r, kcp') \<Longrightarrow> idle kcp \<Longrightarrow> idle kcp'"
  by (rule input_preserves [of idle kcp]) (simp_all add: input_defs ikcp_parse_fastack_def idle_def)

lemma recv_frame: "ikcp_recv kcp len = (r, buf, kcp') \<Longrightarrow> k_mss kcp' = k_mss kcp \<and> (idle kcp \<longrightarrow> idle kcp')"
  by (auto simp: ikcp_recv_def Let_def case_prod_unfold idle_def split: if_splits)

lemma send_mss: "ikcp_send kcp buf = (r, kcp') \<Longrightarrow> k_mss kcp' = k_mss kcp"
  using ikcp_send_limits(2) [of kcp buf] by simp

lemma move_to_buf_mss [simp]: "k_mss (move_to_buf cwnd kcp) = k_mss kcp"
proof (induction cwnd kcp rule: move_to_buf.induct)
  case (1 cwnd kcp)
  then show ?case by (cases "k_snd_queue kcp") (simp_all add: move_to_buf.simps [of cwnd kcp])
qed

lemma move_to_buf_idle: "k_snd_queue kcp = [] \<Longrightarrow> move_to_buf cwnd kcp = kcp"
  by (simp add: move_to_buf.simps)

lemma flush_mss: "k_mss (fst (ikcp_flush kcp)) = k_mss kcp"
  by (simp add: ikcp_flush_def Let_def)

lemma flush_idle: "idle kcp \<Longrightarrow> idle (fst (ikcp_flush kcp))"
  by (simp add: ikcp_flush_def Let_def idle_def move_to_buf_idle)

lemma update_frame: "ikcp_update kcp now = (kcp', outs) \<Longrightarrow> k_mss kcp' = k_mss kcp \<and> (idle kcp \<longrightarrow> idle kcp')"
proof -
  let ?k = "\<lambda>t. kcp\<lparr>k_current := now, k_updated := True, k_ts_flush := t\<rparr>"
  assume u: "ikcp_update kcp now = (kcp', outs)"
  obtain t where "(kcp', outs) = ikcp_flush (?k t) \<or> (kcp', outs) = (?k t, [])" using update_flush [of kcp now] u by auto
  then have "kcp' = fst (ikcp_flush (?k t)) \<or> kcp' = ?k t" by (metis fst_conv)
  then show ?thesis using flush_mss [of "?k t"] flush_idle [of "?k t"] by (auto simp: idle_def)
qed

section \<open>Draining is reading\<close>

definition udp_of :: "stream_event list \<Rightarrow> byte list set" where
  "udp_of es = {f. Udp f \<in> set es}"

definition tcp_of :: "stream_event list \<Rightarrow> byte list" where
  "tcp_of es = concat (map (\<lambda>e. case e of Tcp bs \<Rightarrow> bs | _ \<Rightarrow> []) es)"

lemma log_simps [simp]:
  "io_log (emit e io) = io_log io @ [e]" "io_log (io_error msg io) = io_log io"
  "udp_of [] = {}" "udp_of (es @ fs) = udp_of es \<union> udp_of fs" "udp_of [Udp f] = {f}" "udp_of [Tcp b] = {}" "udp_of [Shut] = {}"
  "tcp_of [] = []" "tcp_of (es @ fs) = tcp_of es @ tcp_of fs" "tcp_of [Udp f] = []" "tcp_of [Tcp b] = b" "tcp_of [Shut] = []"
  by (auto simp: emit_def io_error_def udp_of_def tcp_of_def)

lemma written_part_prefix: "prefix (written_part w buf) buf"
proof (induction w buf rule: written_part.induct)
  case (1 w buf)
  show ?case
  proof (cases "buf = [] \<or> w buf \<le> 0")
    case True
    then show ?thesis by (auto simp: written_part.simps [of w buf])
  next
    case False
    then have "prefix (written_part w (drop (nat (w buf)) buf)) (drop (nat (w buf)) buf)" using 1 by (simp add: not_le)
    then have "prefix (take (nat (w buf)) buf @ written_part w (drop (nat (w buf)) buf)) (take (nat (w buf)) buf @ drop (nat (w buf)) buf)"
      by (simp only: same_prefix_prefix)
    then show ?thesis using False by (simp add: written_part.simps [of w buf] Let_def)
  qed
qed

lemma write_all_written: "redp2p_write_all w buf = 0 \<Longrightarrow> written_part w buf = buf"
proof (induction w buf rule: written_part.induct)
  case (1 w buf)
  then show ?case by (auto simp: written_part.simps [of w buf] redp2p_write_all.simps [of w buf] Let_def split: if_splits)
qed

text \<open>
  Draining reads the control block until nothing is left, and writes what it read; when it fails
  the socket has taken a part of it.
\<close>

lemma drain_link:
  assumes "redp2p_stream_drain env kcp io = (r, kcp', io')" "linked conv l" "ep l s = kcp"
  shows "\<exists>d. linked conv (l\<lparr>ep := (ep l)(s := kcp'), delivered := (delivered l)(s := delivered l s @ d)\<rparr>)
    \<and> (\<exists>w. tcp_of (io_log io') = tcp_of (io_log io) @ w \<and> prefix w d \<and> (r = 0 \<longrightarrow> w = d \<and> k_rcv_queue kcp' = []))
    \<and> udp_of (io_log io') = udp_of (io_log io) \<and> k_mss kcp' = k_mss kcp \<and> (idle kcp \<longrightarrow> idle kcp')"
  using assms
proof (induction env kcp io arbitrary: l rule: redp2p_stream_drain.induct)
  case (1 env kcp io)
  let ?goal = "\<lambda>l kcp io. \<exists>d. linked conv (l\<lparr>ep := (ep l)(s := kcp'), delivered := (delivered l)(s := delivered l s @ d)\<rparr>)
    \<and> (\<exists>w. tcp_of (io_log io') = tcp_of (io_log io) @ w \<and> prefix w d \<and> (r = 0 \<longrightarrow> w = d \<and> k_rcv_queue kcp' = []))
    \<and> udp_of (io_log io') = udp_of (io_log io) \<and> k_mss kcp' = k_mss kcp \<and> (idle kcp \<longrightarrow> idle kcp')"
  have l0: "l\<lparr>ep := (ep l)(s := kcp), delivered := (delivered l)(s := delivered l s)\<rparr> = l" using "1.prems"(3) by auto
  note d = redp2p_stream_drain.simps [of env kcp io]
  show ?case
  proof (cases "ikcp_peeksize kcp < 0 \<or> ikcp_peeksize kcp > int REDP2P_BUF")
    case True
    have "k_rcv_queue kcp = []" if "ikcp_peeksize kcp < 0"
    proof -
      obtain S where "sound_link conv S l" using linked_sound [OF "1.prems"(2)] by blast
      then have "\<forall>seg \<in> set (k_rcv_queue kcp). seg_frg seg = 0"
        using "1.prems"(3) by (auto simp: sound_link_def good_def rcv_inv_def rcv_pre_def)
      then show ?thesis using that by (cases "k_rcv_queue kcp") (auto simp: ikcp_peeksize_def)
    qed
    moreover have e: "kcp' = kcp" "io_log io' = io_log io" "r = 0 \<longrightarrow> ikcp_peeksize kcp < 0"
      using True "1.prems"(1) d by (auto split: if_splits)
    moreover have "linked conv (l\<lparr>ep := (ep l)(s := kcp'), delivered := (delivered l)(s := delivered l s @ [])\<rparr>)"
      unfolding e(1) append_Nil2 l0 by (rule "1.prems"(2))
    ultimately show ?thesis by (intro exI [of _ "[]"] conjI) (assumption | simp)+
  next
    case False
    obtain n buf k1 where rc: "ikcp_recv kcp (int REDP2P_BUF) = (n, buf, k1)" by (metis prod_cases3)
    have "k_rcv_queue kcp \<noteq> []" using False by (auto simp: ikcp_peeksize_def)
    then have n: "n = int (length buf)" using rc False by (auto simp: ikcp_recv_def Let_def case_prod_unfold split: if_splits)
    let ?l = "l\<lparr>ep := (ep l)(s := k1), delivered := (delivered l)(s := delivered l s @ buf)\<rparr>"
    have l1: "linked conv ?l"
      using linked.step [OF "1.prems"(2) link_step.recv [of "int REDP2P_BUF" l s n buf k1]] rc "1.prems"(3) by simp
    have f: "k_mss k1 = k_mss kcp" "idle kcp \<longrightarrow> idle k1" using recv_frame [OF rc] by simp_all
    let ?w = "env_tcp_write env (io_log io)"
    let ?io = "if n > 0 then emit (Tcp (written_part ?w buf)) io else io"
    show ?thesis
    proof (cases "n > 0 \<and> redp2p_write_all ?w buf \<noteq> 0")
      case True
      then have "r = - 1" "kcp' = k1" "io' = io_error ''stream: local TCP write failed'' (emit (Tcp (written_part ?w buf)) io)"
        using "1.prems"(1) False rc n by (auto simp: d Let_def)
      then show ?thesis
        using f written_part_prefix [of ?w buf] by (intro exI [of _ buf] conjI exI [of _ "written_part ?w buf"]) (simp_all only: l1, auto)
    next
      case ok: False
      then have e: "redp2p_stream_drain env k1 ?io = (r, kcp', io')" using "1.prems"(1) False rc n by (auto simp: d Let_def split: if_splits)
      have w: "tcp_of (io_log ?io) = tcp_of (io_log io) @ buf" "udp_of (io_log ?io) = udp_of (io_log io)"
        using ok n write_all_written [of ?w buf] by auto
      have "?goal ?l k1 ?io"
        by (rule "1.IH" [of "ikcp_peeksize kcp" n _ buf k1 ?w ?io ?l]) (use False rc ok e l1 n in \<open>simp_all\<close>)
      then obtain d2 where d2: "linked conv (?l\<lparr>ep := (ep ?l)(s := kcp'), delivered := (delivered ?l)(s := delivered ?l s @ d2)\<rparr>)"
          "\<exists>w. tcp_of (io_log io') = tcp_of (io_log ?io) @ w \<and> prefix w d2 \<and> (r = 0 \<longrightarrow> w = d2 \<and> k_rcv_queue kcp' = [])"
          "udp_of (io_log io') = udp_of (io_log ?io)" "k_mss kcp' = k_mss k1" "idle k1 \<longrightarrow> idle kcp'" by blast
      from d2(2) obtain w where "tcp_of (io_log io') = tcp_of (io_log ?io) @ w" "prefix w d2" "r = 0 \<longrightarrow> w = d2 \<and> k_rcv_queue kcp' = []"
        by blast
      moreover have "linked conv (l\<lparr>ep := (ep l)(s := kcp'), delivered := (delivered l)(s := delivered l s @ buf @ d2)\<rparr>)"
        using d2(1) by simp
      ultimately show ?thesis
        using d2(3-5) w f by (intro exI [of _ "buf @ d2"] conjI exI [of _ "buf @ w"]) (assumption | simp)+
    qed
  qed
qed

end
