(* ===== verification/Stream_Tunnel.thy ===== *)
theory Stream_Tunnel
  imports Stream_Wire
begin

text \<open>
  A tunnel between two sessions: each side pumps bytes from its local TCP socket, ticks, and takes
  in any datagram the other side has sent, in any order, any number of times or never, and any
  datagram that is not of this session. The tunnel refines the KCP connection of
  \<^verbatim>\<open>Kcp_Link\<close>, and its close handshake loses no byte.
\<close>

section \<open>The tunnel\<close>

record tunnel =
  tn_st :: "bool \<Rightarrow> redp2p_stream_state_t"
  tn_ctx :: "bool \<Rightarrow> redp2p"
  tn_net :: "bool \<Rightarrow> byte list set"
  tn_read :: "bool \<Rightarrow> byte list"
  tn_written :: "bool \<Rightarrow> byte list"
  tn_dead :: "bool \<Rightarrow> bool"

abbreviation io_of :: "tunnel \<Rightarrow> bool \<Rightarrow> stream_io" where
  "io_of t s \<equiv> \<lparr>io_ctx = tn_ctx t s, io_log = []\<rparr>"

text \<open>The state after an operation of side \<open>s\<close>; a failure sends a reset and ends the side, as the callers do.\<close>

definition settle ::
  "stream_env \<Rightarrow> bool \<Rightarrow> byte list \<Rightarrow> int \<times> redp2p_stream_state_t \<times> stream_io \<Rightarrow> tunnel \<Rightarrow> tunnel" where
  "settle env s consumed res t =
     (case res of (r, st, io) \<Rightarrow>
        case (if r = 0 then (st, io) else redp2p_stream_fail env st io) of (st', io') \<Rightarrow>
          t\<lparr>tn_st := (tn_st t)(s := st'), tn_ctx := (tn_ctx t)(s := io_ctx io'),
            tn_net := (tn_net t)(s := tn_net t s \<union> udp_of (io_log io')),
            tn_read := (tn_read t)(s := tn_read t s @ consumed),
            tn_written := (tn_written t)(s := tn_written t s @ tcp_of (io_log io')),
            tn_dead := (tn_dead t)(s := (r \<noteq> 0))\<rparr>)"

definition pumped :: "tcp_read \<Rightarrow> redp2p_stream_state_t \<Rightarrow> byte list" where
  "pumped input st = (if redp2p_stream_can_send_data st then case input of Data bs \<Rightarrow> take REDP2P_BUF bs | _ \<Rightarrow> [] else [])"

text \<open>A datagram that is not of the session is not an envelope, or names another session, role or transport.\<close>

definition foreign :: "redp2p_stream_state_t \<Rightarrow> byte list \<Rightarrow> bool" where
  "foreign st f \<longleftrightarrow> (case redp2p_stream_unpack f of None \<Rightarrow> True
     | Some e \<Rightarrow> en_role e \<noteq> (if st_initiator st then REDP2P_STREAM_ROLE_RESPONDER else REDP2P_STREAM_ROLE_INITIATOR)
         \<or> en_protocol e \<noteq> st_transport_protocol st \<or> en_session_id e \<noteq> st_session_id st)"

definition seq_room :: "redp2p_stream_state_t \<Rightarrow> bool" where
  "seq_room st \<longleftrightarrow> unat (k_snd_nxt (the (st_kcp st))) + length (k_snd_queue (the (st_kcp st))) < 2 ^ 30"

inductive tunnel_step :: "tunnel \<Rightarrow> tunnel \<Rightarrow> bool" where
  pump: "\<not> tn_dead t s \<Longrightarrow>
    tunnel_step t (settle env s (pumped input (tn_st t s)) (redp2p_stream_pump_tcp env input (tn_st t s) (io_of t s)) t)"
| tick: "\<not> tn_dead t s \<Longrightarrow> seq_room (tn_st t s) \<Longrightarrow>
    tunnel_step t (settle env s [] (redp2p_stream_tick env (tn_st t s) (io_of t s)) t)"
| packet: "\<not> tn_dead t s \<Longrightarrow> f \<in> tn_net t (\<not> s) \<or> foreign (tn_st t s) f \<Longrightarrow>
    tunnel_step t (settle env s [] (redp2p_stream_process_packet env f (tn_st t s) (io_of t s)) t)"

text \<open>Both sides are opened on the session identifier they agreed on; \<open>True\<close> is the initiator.\<close>

inductive tunnelled :: "byte list \<Rightarrow> tunnel \<Rightarrow> bool" for sid where
  start: "length sid = REDP2P_STREAM_SESSION_ID_SZ \<Longrightarrow>
    redp2p_stream_init env1 allocs1 True addr1 sid hex1 proto_tcp \<lparr>io_ctx = ctx1, io_log = []\<rparr> = (0, st1, io1) \<Longrightarrow>
    redp2p_stream_init env2 allocs2 False addr2 sid hex2 proto_tcp \<lparr>io_ctx = ctx2, io_log = []\<rparr> = (0, st2, io2) \<Longrightarrow>
    tunnelled sid \<lparr>tn_st = (\<lambda>s. if s then st1 else st2), tn_ctx = (\<lambda>s. if s then io_ctx io1 else io_ctx io2),
      tn_net = (\<lambda>s. {}), tn_read = (\<lambda>s. []), tn_written = (\<lambda>s. []), tn_dead = (\<lambda>s. False)\<rparr>"
| step: "tunnelled sid t \<Longrightarrow> tunnel_step t t' \<Longrightarrow> tunnelled sid t'"

section \<open>One side\<close>

definition role_of :: "bool \<Rightarrow> byte" where
  "role_of s = (if s then REDP2P_STREAM_ROLE_INITIATOR else REDP2P_STREAM_ROLE_RESPONDER)"

abbreviation packed_frame :: "byte list \<Rightarrow> bool \<Rightarrow> byte \<Rightarrow> byte list \<Rightarrow> byte list" where
  "packed_frame sid s ty d \<equiv> redp2p_stream_pack ty (role_of s) proto_tcp sid d"

definition session_ok :: "byte list \<Rightarrow> bool \<Rightarrow> redp2p_stream_state_t \<Rightarrow> bool" where
  "session_ok sid s st \<longleftrightarrow> st_session_id st = sid \<and> st_initiator st = s \<and> st_transport_protocol st = proto_tcp
     \<and> (\<exists>a. st_adapter st = Some a \<and> a_session_id a = sid \<and> a_role a = role_of s \<and> a_protocol a = proto_tcp)"

text \<open>What a side may have put on the network, given its connection and its session.\<close>

definition frame_ok :: "byte list \<Rightarrow> bool \<Rightarrow> link \<Rightarrow> redp2p_stream_state_t \<Rightarrow> byte list \<Rightarrow> bool" where
  "frame_ok sid s l st f \<longleftrightarrow> (\<exists>d \<in> net l s. f = packed_frame sid s REDP2P_STREAM_TYPE_KCP d)
     \<or> (\<exists>ty. f = packed_frame sid s ty [] \<and>
          (ty \<in> {REDP2P_STREAM_TYPE_HELLO, REDP2P_STREAM_TYPE_HELLO_ACK, REDP2P_STREAM_TYPE_RESET, REDP2P_STREAM_TYPE_KEEPALIVE}
           \<or> ty = REDP2P_STREAM_TYPE_CLOSE \<and> st_local_eof st \<and> idle (ep l s)
           \<or> ty = REDP2P_STREAM_TYPE_CLOSE_ACK \<and> st_remote_close st))"

definition side_ok :: "byte list \<Rightarrow> bool \<Rightarrow> link \<Rightarrow> redp2p_stream_state_t \<Rightarrow> byte list set \<Rightarrow> bool" where
  "side_ok sid s l st F \<longleftrightarrow> session_ok sid s st \<and> st_kcp st = Some (ep l s) \<and> k_mss (ep l s) = 1376
     \<and> (\<forall>f \<in> F. frame_ok sid s l st f)
     \<and> (a_fault_pending_used (the (st_adapter st)) \<longrightarrow>
          (\<exists>d \<in> net l s. a_fault_pending (the (st_adapter st)) = packed_frame sid s REDP2P_STREAM_TYPE_KCP d))"

text \<open>
  What an operation of side \<open>s\<close> does: the connection moves to \<open>l'\<close>, only at \<open>s\<close>; \<open>consumed\<close> local
  bytes are accepted, and what is written is what was delivered unless the operation failed.
\<close>

definition moves :: "u32 \<Rightarrow> byte list \<Rightarrow> bool \<Rightarrow> link \<Rightarrow> link \<Rightarrow> bool" where
  "moves conv sid s l l' \<longleftrightarrow> linked conv l' \<and> ep l' (\<not> s) = ep l (\<not> s) \<and> net l' (\<not> s) = net l (\<not> s)
     \<and> accepted l' (\<not> s) = accepted l (\<not> s) \<and> delivered l' (\<not> s) = delivered l (\<not> s) \<and> net l s \<subseteq> net l' s
     \<and> k_mss (ep l' s) = k_mss (ep l s)"

definition grows :: "redp2p_stream_state_t \<Rightarrow> redp2p_stream_state_t \<Rightarrow> bool" where
  "grows st st' \<longleftrightarrow> (st_local_eof st \<longrightarrow> st_local_eof st') \<and> (st_remote_close st \<longrightarrow> st_remote_close st')"

lemma frame_ok_mono:
  assumes "frame_ok sid s l st f" "net l s \<subseteq> net l' s" "grows st st'" "st_local_eof st \<longrightarrow> idle (ep l s) \<longrightarrow> idle (ep l' s)"
  shows "frame_ok sid s l' st' f"
  using assms unfolding frame_ok_def grows_def by blast

lemma side_ok_mono:
  assumes "side_ok sid s l st F" "net l s \<subseteq> net l' s" "grows st st'" "st_local_eof st \<longrightarrow> idle (ep l s) \<longrightarrow> idle (ep l' s)"
    "session_ok sid s st'" "st_kcp st' = Some (ep l' s)" "k_mss (ep l' s) = k_mss (ep l s)"
    "the (st_adapter st') = the (st_adapter st)" "\<forall>f \<in> G. frame_ok sid s l' st' f"
  shows "side_ok sid s l' st' (F \<union> G)"
  using assms frame_ok_mono [OF _ assms(2-4)] unfolding side_ok_def by auto

text \<open>The summary of an operation, and its composition.\<close>

definition progress ::
  "u32 \<Rightarrow> byte list \<Rightarrow> bool \<Rightarrow> byte list \<Rightarrow> link \<Rightarrow> redp2p_stream_state_t \<Rightarrow> stream_io \<Rightarrow> int \<Rightarrow> link \<Rightarrow> redp2p_stream_state_t
   \<Rightarrow> stream_io \<Rightarrow> bool" where
  "progress conv sid s consumed l st io r l' st' io' \<longleftrightarrow> moves conv sid s l l' \<and> grows st st' \<and> session_ok sid s st'
     \<and> st_kcp st' = Some (ep l' s)
     \<and> (\<forall>F. side_ok sid s l st (F \<union> udp_of (io_log io)) \<longrightarrow> side_ok sid s l' st' (F \<union> udp_of (io_log io')))
     \<and> accepted l' s = accepted l s @ consumed
     \<and> (\<exists>w d. tcp_of (io_log io') = tcp_of (io_log io) @ w \<and> delivered l' s = delivered l s @ d \<and> prefix w d \<and> (r = 0 \<longrightarrow> w = d))
     \<and> (st_local_eof st \<longrightarrow> consumed = [] \<and> (idle (ep l s) \<longrightarrow> idle (ep l' s)))"

definition quiet :: "redp2p_stream_state_t \<Rightarrow> redp2p_stream_state_t \<Rightarrow> bool" where
  "quiet st st' \<longleftrightarrow> st_close_acked st' = st_close_acked st \<and> st_remote_close st' = st_remote_close st"

lemma progress_trans:
  assumes "progress conv sid s c1 l st io 0 l1 st1 io1" "progress conv sid s [] l1 st1 io1 r l2 st2 io2"
  shows "progress conv sid s c1 l st io r l2 st2 io2"
proof -
  obtain w1 where w1: "tcp_of (io_log io1) = tcp_of (io_log io) @ w1" "delivered l1 s = delivered l s @ w1"
    using assms(1) unfolding progress_def by blast
  obtain w2 d2 where w2: "tcp_of (io_log io2) = tcp_of (io_log io1) @ w2" "delivered l2 s = delivered l1 s @ d2" "prefix w2 d2"
      "r = 0 \<longrightarrow> w2 = d2"
    using assms(2) unfolding progress_def by blast
  have "\<exists>w d. tcp_of (io_log io2) = tcp_of (io_log io) @ w \<and> delivered l2 s = delivered l s @ d \<and> prefix w d \<and> (r = 0 \<longrightarrow> w = d)"
    using w1 w2 by (intro exI [of _ "w1 @ w2"] exI [of _ "w1 @ d2"]) simp
  moreover have "moves conv sid s l l2" "grows st st2" using assms unfolding progress_def moves_def grows_def by auto
  moreover have "st_local_eof st \<longrightarrow> c1 = [] \<and> (idle (ep l s) \<longrightarrow> idle (ep l2 s))"
    using assms unfolding progress_def grows_def by blast
  ultimately show ?thesis using assms unfolding progress_def by simp
qed

text \<open>Operations that leave the connection alone and emit only admissible frames.\<close>

lemma progress_local:
  assumes "linked conv l" "grows st st'" "session_ok sid s st'" "st_kcp st' = Some (ep l s)" "st_adapter st' = st_adapter st"
    "\<forall>f \<in> udp_of (io_log io') - udp_of (io_log io). frame_ok sid s l st' f" "tcp_of (io_log io') = tcp_of (io_log io)"
  shows "progress conv sid s [] l st io r l st' io'"
proof -
  have "side_ok sid s l st' (F \<union> udp_of (io_log io'))" if a: "side_ok sid s l st (F \<union> udp_of (io_log io))" for F
  proof -
    have "side_ok sid s l st' ((F \<union> udp_of (io_log io)) \<union> (udp_of (io_log io') - udp_of (io_log io)))"
      by (rule side_ok_mono [OF a _ assms(2)]) (use assms in simp_all)
    then show ?thesis by (auto simp: side_ok_def)
  qed
  then show ?thesis using assms by (simp add: progress_def moves_def)
qed

section \<open>Control packets\<close>

lemma send_control_effect:
  assumes "redp2p_stream_send_control env ty st io = (r, st', io')" "session_ok sid s st"
  shows "r = 0 \<or> r = - 1" "st' = st\<lparr>st_last_tx_ms := st_last_tx_ms st'\<rparr>" "tcp_of (io_log io') = tcp_of (io_log io)"
    "udp_of (io_log io') \<subseteq> insert (packed_frame sid s ty []) (udp_of (io_log io))"
  using assms
  by (auto simp: redp2p_stream_send_control_def redp2p_stream_send_datagram_def session_ok_def Let_def split: if_splits)

lemma session_ok_upd [simp]:
  "session_ok sid s (st\<lparr>st_last_tx_ms := n\<rparr>) = session_ok sid s st" "session_ok sid s (st\<lparr>st_ready := b\<rparr>) = session_ok sid s st"
  "session_ok sid s (st\<lparr>st_hello_sent := b\<rparr>) = session_ok sid s st" "session_ok sid s (st\<lparr>st_last_hello_ms := n\<rparr>) = session_ok sid s st"
  "session_ok sid s (st\<lparr>st_close_sent := b\<rparr>) = session_ok sid s st" "session_ok sid s (st\<lparr>st_last_close_ms := n\<rparr>) = session_ok sid s st"
  "session_ok sid s (st\<lparr>st_last_keepalive_ms := n\<rparr>) = session_ok sid s st" "session_ok sid s (st\<lparr>st_kcp := k\<rparr>) = session_ok sid s st"
  "session_ok sid s (st\<lparr>st_next_update_ms := m\<rparr>) = session_ok sid s st" "session_ok sid s (st\<lparr>st_local_eof := b\<rparr>) = session_ok sid s st"
  "session_ok sid s (st\<lparr>st_close_acked := b\<rparr>) = session_ok sid s st" "session_ok sid s (st\<lparr>st_remote_close := b\<rparr>) = session_ok sid s st"
  "session_ok sid s (st\<lparr>st_reset_sent := b\<rparr>) = session_ok sid s st" "session_ok sid s (st\<lparr>st_reset_received := b\<rparr>) = session_ok sid s st"
  by (simp_all add: session_ok_def)

lemma send_control_progress:
  assumes "redp2p_stream_send_control env ty st io = (r, st1, io')" "linked conv l" "session_ok sid s st" "st_kcp st = Some (ep l s)"
    "frame_ok sid s l st (packed_frame sid s ty [])"
    "session_ok sid s st'" "st_kcp st' = st_kcp st1" "st_adapter st' = st_adapter st1" "grows st1 st'"
  shows "progress conv sid s [] l st io r' l st' io'"
proof (rule progress_local [OF assms(2)])
  note e = send_control_effect [OF assms(1,3)]
  have g: "grows st st1" "st_kcp st1 = st_kcp st" "st_adapter st1 = st_adapter st"
    by (subst e(2), simp add: grows_def)+
  show "grows st st'" using g(1) assms(9) by (simp add: grows_def)
  then have "frame_ok sid s l st' (packed_frame sid s ty [])" by (rule frame_ok_mono [OF assms(5) order_refl]) simp
  then show "\<forall>f \<in> udp_of (io_log io') - udp_of (io_log io). frame_ok sid s l st' f" using e(4) by blast
  show "tcp_of (io_log io') = tcp_of (io_log io)" by (rule e(3))
  show "st_kcp st' = Some (ep l s)" "st_adapter st' = st_adapter st" using g assms(4,7,8) by simp_all
qed (rule assms(6))

lemma fail_progress:
  assumes "redp2p_stream_fail env st io = (st', io')" "linked conv l" "session_ok sid s st" "st_kcp st = Some (ep l s)"
  shows "progress conv sid s [] l st io r l st' io' \<and> quiet st st' \<and> tcp_of (io_log io') = tcp_of (io_log io)"
proof (cases "\<not> st_ready st \<or> st_reset_sent st \<or> st_reset_received st")
  case True
  then have "st' = st" "io' = io" using assms(1) by (auto simp: redp2p_stream_fail_def)
  then show ?thesis using assms by (auto intro!: progress_local simp: grows_def quiet_def)
next
  case False
  obtain r1 where c: "redp2p_stream_send_control env REDP2P_STREAM_TYPE_RESET (st\<lparr>st_reset_sent := True\<rparr>) io = (r1, st', io')"
    using assms(1) False by (cases "redp2p_stream_send_control env REDP2P_STREAM_TYPE_RESET (st\<lparr>st_reset_sent := True\<rparr>) io")
      (auto simp: redp2p_stream_fail_def)
  have "session_ok sid s (st\<lparr>st_reset_sent := True\<rparr>)" using assms(3) by simp
  note e = send_control_effect [OF c this]
  have f: "st' = st\<lparr>st_reset_sent := True, st_last_tx_ms := st_last_tx_ms st'\<rparr>" using e(2) by simp
  have "frame_ok sid s l st' (packed_frame sid s REDP2P_STREAM_TYPE_RESET [])" unfolding frame_ok_def by blast
  then have "\<forall>f \<in> udp_of (io_log io') - udp_of (io_log io). frame_ok sid s l st' f" using e(4) by blast
  moreover have "grows st st'" "session_ok sid s st'" "st_kcp st' = Some (ep l s)" "st_adapter st' = st_adapter st" "quiet st st'"
    using assms(3,4) by (subst f, simp add: grows_def quiet_def)+
  ultimately show ?thesis using progress_local [OF assms(2)] e(3) by blast
qed

section \<open>Pumping\<close>

lemma linked_stream: "linked conv l \<Longrightarrow> k_stream (ep l s) \<noteq> 0"
  using linked_sound [of conv l] by (auto simp: sound_link_def good_def kcp_cfg_def)

text \<open>A chunk of at most \<^verbatim>\<open>REDP2P_BUF\<close> bytes is always queued whole.\<close>

lemma send_whole:
  assumes "k_stream kcp \<noteq> 0" "k_mss kcp = 1376" "buf \<noteq> []" "length buf \<le> REDP2P_BUF"
  shows "fst (ikcp_send kcp buf) = int (length buf)"
proof -
  have c: "n \<le> 4096 \<Longrightarrow> (if n \<le> 1376 then 1 else (n + 1376 - 1) div 1376) < (128 :: nat)" for n :: nat
    by (auto simp: less_mult_imp_div_less)
  define e where "e = (if k_stream kcp \<noteq> 0 \<and> k_snd_queue kcp \<noteq> [] \<and> length (seg_data (last (k_snd_queue kcp))) < unat (k_mss kcp)
      then min (length buf) (unat (k_mss kcp) - length (seg_data (last (k_snd_queue kcp)))) else 0)"
  have e: "e \<le> length buf" by (simp add: e_def)
  have m: "unat (k_mss kcp) = 1376" "unat IKCP_WND_RCV = 128" using assms(2) by (simp_all add: IKCP_WND_RCV_def)
  have "length (drop e buf) \<le> 4096" using assms(4) by (simp add: macros)
  note c = c [OF this, unfolded not_le [symmetric]]
  have "fst (ikcp_send kcp buf) = (if drop e buf = [] then int e else int (e + length (drop e buf)))"
    unfolding ikcp_send_def Let_def unfolding e_def [symmetric] unfolding m
    by (cases "drop e buf = []") (simp_all only: assms(1) c simp_thms not_False_eq_True if_True if_False fst_conv)
  then show ?thesis using e by (simp add: of_nat_diff)
qed

lemma progress_send:
  assumes "ikcp_send (ep l s) buf = (r, kcp)" "r = int (length buf)" "linked conv l" "session_ok sid s st" "st_kcp st = Some (ep l s)"
    "\<not> st_local_eof st"
  shows "progress conv sid s buf l st io 0
    (l\<lparr>ep := (ep l)(s := kcp), accepted := (accepted l)(s := accepted l s @ buf)\<rparr>) (st\<lparr>st_kcp := Some kcp, st_next_update_ms := n\<rparr>) io"
proof -
  let ?l = "l\<lparr>ep := (ep l)(s := kcp), accepted := (accepted l)(s := accepted l s @ buf)\<rparr>"
  let ?st = "st\<lparr>st_kcp := Some kcp, st_next_update_ms := n\<rparr>"
  have l: "linked conv ?l" using linked.step [OF assms(3) link_step.send [OF assms(1)]] assms(2) by simp
  have m: "moves conv sid s l ?l" using l send_mss [OF assms(1)] by (simp add: moves_def)
  have "side_ok sid s ?l ?st (F \<union> udp_of (io_log io))" if "side_ok sid s l st (F \<union> udp_of (io_log io))" for F
    using side_ok_mono [OF that, of ?l ?st "{}"] m assms(4,6) by (simp add: moves_def grows_def)
  then show ?thesis using m assms(4,6) by (simp add: progress_def grows_def)
qed

lemma pump_progress:
  assumes "redp2p_stream_pump_tcp env input st io = (r, st', io')" "linked conv l" "session_ok sid s st"
    "st_kcp st = Some (ep l s)" "k_mss (ep l s) = 1376"
  shows "\<exists>l'. progress conv sid s (pumped input st) l st io r l' st' io' \<and> quiet st st'"
proof (cases "\<exists>bs. redp2p_stream_can_send_data st \<and> input = Data bs \<and> take REDP2P_BUF bs \<noteq> []")
  case False
  then have p: "pumped input st = []" by (auto simp: pumped_def split: tcp_read.split)
  have "(st' = st \<or> st' = st\<lparr>st_local_eof := True\<rparr>) \<and> io_log io' = io_log io"
    using assms(1) False by (auto simp: redp2p_stream_pump_tcp_def Let_def split: if_splits tcp_read.splits)
  then have "progress conv sid s [] l st io r l st' io' \<and> quiet st st'"
    using assms(2-4) by (auto intro!: progress_local simp: grows_def quiet_def)
  then show ?thesis unfolding p by blast
next
  case True
  then obtain bs where d: "redp2p_stream_can_send_data st" "input = Data bs" "take REDP2P_BUF bs \<noteq> []" by blast
  let ?buf = "take REDP2P_BUF bs"
  obtain n kcp where k: "ikcp_send (ep l s) ?buf = (n, kcp)" by fastforce
  have n: "n = int (length ?buf)"
    using send_whole [OF linked_stream [OF assms(2), of s] assms(5) d(3)] k by simp
  have r: "r = 0" "st' = st\<lparr>st_kcp := Some kcp, st_next_update_ms := ucast (clock env io)\<rparr>" "io' = io"
    using assms(1,4) d k n by (auto simp: redp2p_stream_pump_tcp_def Let_def)
  have "pumped input st = ?buf" using d by (simp add: pumped_def)
  moreover have "\<not> st_local_eof st" using d(1) by (simp add: redp2p_stream_can_send_data_def)
  ultimately show ?thesis
    using progress_send [OF k n assms(2-4), of io "ucast (clock env io)"] unfolding r by (auto simp: quiet_def)
qed

section \<open>Ticking\<close>

text \<open>The output callback only ever sends frames made of the datagrams KCP gave it.\<close>

lemma kcp_output_effect:
  assumes "redp2p_stream_kcp_output env d (a, io) = (a', io')" "a_session_id a = sid" "a_role a = role_of s" "a_protocol a = proto_tcp"
    "d \<noteq> [] \<Longrightarrow> packed_frame sid s REDP2P_STREAM_TYPE_KCP d \<in> G" "a_fault_pending_used a \<Longrightarrow> a_fault_pending a \<in> G"
  shows "a_session_id a' = sid" "a_role a' = role_of s" "a_protocol a' = proto_tcp" "a_fault_pending_used a' \<Longrightarrow> a_fault_pending a' \<in> G"
    "tcp_of (io_log io') = tcp_of (io_log io)" "udp_of (io_log io') \<subseteq> udp_of (io_log io) \<union> G"
  using assms
  by (auto simp: redp2p_stream_kcp_output_def redp2p_stream_send_datagram_def Let_def case_prod_unfold tcp_of_def udp_of_def
      split: if_splits)

lemma kcp_outputs_effect:
  assumes "fold (redp2p_stream_kcp_output env) outs (a, io) = (a', io')" "a_session_id a = sid" "a_role a = role_of s"
    "a_protocol a = proto_tcp" "\<forall>d \<in> set outs. packed_frame sid s REDP2P_STREAM_TYPE_KCP d \<in> G"
    "a_fault_pending_used a \<longrightarrow> a_fault_pending a \<in> G"
  shows "a_session_id a' = sid \<and> a_role a' = role_of s \<and> a_protocol a' = proto_tcp \<and> (a_fault_pending_used a' \<longrightarrow> a_fault_pending a' \<in> G)
    \<and> tcp_of (io_log io') = tcp_of (io_log io) \<and> udp_of (io_log io') \<subseteq> udp_of (io_log io) \<union> G"
  using assms
proof (induction outs arbitrary: a io)
  case (Cons d outs)
  obtain a1 io1 where o: "redp2p_stream_kcp_output env d (a, io) = (a1, io1)" by fastforce
  from kcp_output_effect [OF o Cons.prems(2-4), of G] Cons.prems(5,6)
  have e: "a_session_id a1 = sid" "a_role a1 = role_of s" "a_protocol a1 = proto_tcp" "a_fault_pending_used a1 \<longrightarrow> a_fault_pending a1 \<in> G"
    "tcp_of (io_log io1) = tcp_of (io_log io)" "udp_of (io_log io1) \<subseteq> udp_of (io_log io) \<union> G" by simp_all
  have "fold (redp2p_stream_kcp_output env) outs (a1, io1) = (a', io')" using Cons.prems(1) o by simp
  from Cons.IH [OF this e(1-3) _ e(4)] Cons.prems(5) e(5,6) show ?case by auto
qed auto

lemma tick_update_progress:
  assumes "tick_update env now st io = (st', io')" "linked conv l" "session_ok sid s st" "st_kcp st = Some (ep l s)" "seq_room st"
  shows "\<exists>l'. progress conv sid s [] l st io 0 l' st' io' \<and> quiet st st'"
proof (cases "st_ready st \<and> sint ((ucast now :: u32) - st_next_update_ms st) \<ge> 0")
  case False
  then have "st' = st" "io' = io" using assms(1) by (auto simp: tick_update_def Let_def)
  then show ?thesis using assms(2-4) by (auto intro!: exI [of _ l] progress_local simp: grows_def quiet_def)
next
  case True
  let ?now = "ucast now :: u32"
  obtain kcp outs where u: "ikcp_update (ep l s) ?now = (kcp, outs)" by fastforce
  obtain a where a: "st_adapter st = Some a" "a_session_id a = sid" "a_role a = role_of s" "a_protocol a = proto_tcp"
    using assms(3) by (auto simp: session_ok_def)
  obtain a' io1 where o: "fold (redp2p_stream_kcp_output env) outs (a, io) = (a', io1)" by fastforce
  have st': "st' = st\<lparr>st_kcp := Some kcp, st_adapter := Some a', st_next_update_ms := ikcp_check kcp ?now\<rparr>" "io' = io1"
    using assms(1,4) True u a(1) o by (auto simp: tick_update_def Let_def)
  let ?l = "l\<lparr>ep := (ep l)(s := kcp), net := (net l)(s := net l s \<union> set outs)\<rparr>"
  have l: "linked conv ?l"
    using linked.step [OF assms(2) link_step.update [OF u]] assms(4,5) by (simp add: seq_room_def)
  have m: "moves conv sid s l ?l" using l update_frame [OF u] by (simp add: moves_def)
  have g: "grows st st'" "quiet st st'" using st' by (simp_all add: grows_def quiet_def)
  define G where "G = {f. \<exists>d \<in> net ?l s. f = packed_frame sid s REDP2P_STREAM_TYPE_KCP d}"
  have pend: "a_fault_pending_used a \<longrightarrow> a_fault_pending a \<in> G" if "side_ok sid s l st F" for F
    using that a(1) by (auto simp: side_ok_def G_def)
  have outs: "\<forall>d \<in> set outs. packed_frame sid s REDP2P_STREAM_TYPE_KCP d \<in> G" by (auto simp: G_def)
  have fG: "\<forall>f \<in> G. frame_ok sid s ?l st' f" unfolding G_def frame_ok_def by blast
  have t: "a_session_id a' = sid" "a_role a' = role_of s" "a_protocol a' = proto_tcp" "tcp_of (io_log io1) = tcp_of (io_log io)"
    using kcp_outputs_effect [OF o a(2-4), of UNIV] by simp_all
  have so: "session_ok sid s st'" using assms(3) t st'(1) by (simp add: session_ok_def)
  have "side_ok sid s ?l st' (F \<union> udp_of (io_log io1))" if k: "side_ok sid s l st (F \<union> udp_of (io_log io))" for F
  proof -
    note e = kcp_outputs_effect [OF o a(2-4) outs pend [OF k]]
    have "frame_ok sid s ?l st' f" if "f \<in> F \<union> udp_of (io_log io)" for f
      using frame_ok_mono [of sid s l st f ?l st'] k that g(1) update_frame [OF u] by (simp add: side_ok_def)
    then have "\<forall>f \<in> F \<union> udp_of (io_log io1). frame_ok sid s ?l st' f" using e fG by blast
    moreover have "k_mss (ep ?l s) = 1376" using k update_frame [OF u] by (simp add: side_ok_def)
    ultimately show ?thesis using so e st'(1) by (simp add: side_ok_def G_def)
  qed
  then have "progress conv sid s [] l st io 0 ?l st' io'"
    using m g so t st' update_frame [OF u] by (simp add: progress_def)
  then show ?thesis using g by blast
qed

lemma still_progress:
  "linked conv l \<Longrightarrow> session_ok sid s st \<Longrightarrow> st_kcp st = Some (ep l s) \<Longrightarrow>
     progress conv sid s [] l st io r l st io \<and> quiet st st"
  by (auto intro!: progress_local simp: grows_def quiet_def)

lemma control_step_progress:
  assumes "(if c then case redp2p_stream_send_control env ty st io of (r, st, io) \<Rightarrow> if r \<noteq> 0 then (- 1, st, io) else (0, g st, io)
      else (0, st, io)) = (r, st', io')"
    "linked conv l" "session_ok sid s st" "st_kcp st = Some (ep l s)" "c \<Longrightarrow> frame_ok sid s l st (packed_frame sid s ty [])"
    "\<And>st. session_ok sid s (g st) = session_ok sid s st"
    "\<And>st. st_kcp (g st) = st_kcp st \<and> st_adapter (g st) = st_adapter st \<and> grows st (g st) \<and> quiet st (g st)"
  shows "progress conv sid s [] l st io r l st' io' \<and> quiet st st' \<and> st_kcp st' = st_kcp st"
proof (cases c)
  case False
  then show ?thesis using assms(1) still_progress [OF assms(2-4)] by simp
next
  case True
  obtain r1 st1 io1 where c: "redp2p_stream_send_control env ty st io = (r1, st1, io1)" by (metis prod_cases3)
  obtain n where n: "st1 = st\<lparr>st_last_tx_ms := n\<rparr>" by (rule that [OF send_control_effect(2) [OF c assms(3)]])
  have q: "quiet st st1" "st_kcp st1 = st_kcp st" "session_ok sid s st1" "grows st1 st1"
    using assms(3) by (simp_all add: n quiet_def grows_def)
  have "(st' = st1 \<or> st' = g st1) \<and> io' = io1" using assms(1) c True by (auto split: if_splits)
  then show ?thesis
  proof (elim conjE disjE)
    assume "st' = st1" "io' = io1"
    then show ?thesis using send_control_progress [OF c assms(2-4) assms(5) [OF True], of st1 r] q by simp
  next
    assume "st' = g st1" "io' = io1"
    then show ?thesis
      using send_control_progress [OF c assms(2-4) assms(5) [OF True], of "g st1" r] q assms(6) [of st1] assms(7) [of st1]
      by (simp add: quiet_def)
  qed
qed

lemma tick_hello_progress:
  assumes "tick_hello env now st io = (r, st', io')" "linked conv l" "session_ok sid s st" "st_kcp st = Some (ep l s)"
  shows "progress conv sid s [] l st io r l st' io' \<and> quiet st st' \<and> st_kcp st' = st_kcp st"
  by (rule control_step_progress [OF assms(1) [unfolded tick_hello_def] assms(2-4)])
    (auto simp: frame_ok_def grows_def quiet_def)

lemma tick_close_progress:
  assumes "tick_close env now st io = (r, st', io')" "linked conv l" "session_ok sid s st" "st_kcp st = Some (ep l s)"
  shows "progress conv sid s [] l st io r l st' io' \<and> quiet st st' \<and> st_kcp st' = st_kcp st"
  by (rule control_step_progress [OF assms(1) [unfolded tick_close_def] assms(2-4)])
    (use assms(4) in \<open>auto simp: frame_ok_def idle_waitsnd grows_def quiet_def\<close>)

lemma tick_keepalive_progress:
  assumes "tick_keepalive env now st io = (r, st', io')" "linked conv l" "session_ok sid s st" "st_kcp st = Some (ep l s)"
  shows "progress conv sid s [] l st io r l st' io' \<and> quiet st st' \<and> st_kcp st' = st_kcp st"
  by (rule control_step_progress [OF assms(1) [unfolded tick_keepalive_def] assms(2-4)])
    (auto simp: frame_ok_def grows_def quiet_def)

lemma quiet_trans: "quiet a b \<Longrightarrow> quiet b c \<Longrightarrow> quiet a c"
  by (simp add: quiet_def)

lemma progress_fields: "progress conv sid s c l st io r l' st' io' \<Longrightarrow> linked conv l' \<and> session_ok sid s st' \<and> st_kcp st' = Some (ep l' s)"
  by (simp add: progress_def moves_def)

lemma progress_any: "progress conv sid s c l st io 0 l' st' io' \<Longrightarrow> progress conv sid s c l st io r l' st' io'"
  unfolding progress_def by blast

lemma progress_log: "udp_of (io_log io2) = udp_of (io_log io1) \<Longrightarrow> tcp_of (io_log io2) = tcp_of (io_log io1) \<Longrightarrow> progress conv sid s c l st io r l' st' io1 \<Longrightarrow> progress conv sid s c l st io r l' st' io2"
  unfolding progress_def by simp

lemma tick_progress:
  assumes "redp2p_stream_tick env st io = (r, st', io')" "linked conv l" "session_ok sid s st" "st_kcp st = Some (ep l s)" "seq_room st"
  shows "\<exists>l'. progress conv sid s [] l st io r l' st' io' \<and> quiet st st'"
proof (cases "st_enabled st")
  case False
  then show ?thesis using assms(1) still_progress [OF assms(2-4)] by (auto simp: redp2p_stream_tick_def)
next
  case True
  let ?now = "clock env io"
  obtain r1 st1 io1 where 1: "tick_hello env ?now st io = (r1, st1, io1)" by (metis prod_cases3)
  note p1 = tick_hello_progress [OF 1 assms(2-4)]
  show ?thesis
  proof (cases "r1 = 0")
    case False
    then have "r = - 1" "st' = st1" "io' = io1" "r1 \<noteq> 0" using assms(1) True 1 by (auto simp: redp2p_stream_tick_def Let_def)
    then show ?thesis using p1 unfolding progress_def by auto
  next
    case ok: True
    obtain st2 io2 where 2: "tick_update env ?now st1 io1 = (st2, io2)" by fastforce
    have "session_ok sid s st1" "st_kcp st1 = Some (ep l s)" "seq_room st1"
      using p1 progress_fields assms(4,5) by (auto simp: seq_room_def)
    from tick_update_progress [OF 2 assms(2) this] obtain l2 where
      p2: "progress conv sid s [] l1 st1 io1 0 l2 st2 io2" "quiet st1 st2" if "l1 = l" for l1 by blast
    have p12: "progress conv sid s [] l st io 0 l2 st2 io2" "quiet st st2"
      using progress_trans [OF _ p2(1) [OF refl]] p1 ok quiet_trans [OF _ p2(2)] by auto
    note f2 = progress_fields [OF p12(1)]
    show ?thesis
    proof (cases "a_send_error (the (st_adapter st2))")
      case True
      then have "st' = st2" "io_log io' = io_log io2"
        using assms(1) \<open>st_enabled st\<close> 1 2 ok by (auto simp: redp2p_stream_tick_def Let_def)
      then show ?thesis using progress_log [OF _ _ progress_any [OF p12(1)], of io'] p12(2) by auto
    next
      case sent: False
      obtain r3 st3 io3 where 3: "tick_close env ?now st2 io2 = (r3, st3, io3)" by (metis prod_cases3)
      have p3: "progress conv sid s [] l2 st2 io2 r3 l2 st3 io3" "quiet st2 st3"
        using tick_close_progress [OF 3] f2 by blast+
      note p13 = progress_trans [OF p12(1) p3(1)]
      show ?thesis
      proof (cases "r3 = 0")
        case False
        then have "r = - 1" "st' = st3" "io' = io3" using assms(1) \<open>st_enabled st\<close> 1 2 3 ok sent by (auto simp: redp2p_stream_tick_def Let_def)
        then show ?thesis using p13 False quiet_trans [OF p12(2) p3(2)] unfolding progress_def by auto
      next
        case True
        then have 4: "tick_keepalive env ?now st3 io3 = (r, st', io')"
          using assms(1) \<open>st_enabled st\<close> 1 2 3 ok sent by (simp add: redp2p_stream_tick_def Let_def)
        have p4: "progress conv sid s [] l2 st3 io3 r l2 st' io'" "quiet st3 st'"
          using tick_keepalive_progress [OF 4] progress_fields [OF p3(1)] by blast+
        then show ?thesis using progress_trans [OF _ p4(1)] p13 True quiet_trans [OF p12(2)] quiet_trans [OF p3(2)] by blast
      qed
    qed
  qed
qed

section \<open>Packets\<close>

lemma drain_progress:
  assumes "redp2p_stream_drain env k1 io = (r, kcp, io')" "linked conv (l\<lparr>ep := (ep l)(s := k1)\<rparr>)" "k_mss k1 = k_mss (ep l s)"
    "idle (ep l s) \<longrightarrow> idle k1" "session_ok sid s st'" "st_kcp st' = Some kcp" "st_adapter st' = st_adapter st" "grows st st'"
  shows "\<exists>l'. progress conv sid s [] l st io r l' st' io' \<and> (r = 0 \<longrightarrow> k_rcv_queue (ep l' s) = [])"
proof -
  from drain_link [OF assms(1,2), of s] obtain d w where
    d: "linked conv (l\<lparr>ep := (ep l)(s := kcp), delivered := (delivered l)(s := delivered l s @ d)\<rparr>)"
      "tcp_of (io_log io') = tcp_of (io_log io) @ w" "prefix w d" "r = 0 \<longrightarrow> w = d \<and> k_rcv_queue kcp = []"
      "udp_of (io_log io') = udp_of (io_log io)" "k_mss kcp = k_mss k1" "idle k1 \<longrightarrow> idle kcp"
    by auto
  let ?l = "l\<lparr>ep := (ep l)(s := kcp), delivered := (delivered l)(s := delivered l s @ d)\<rparr>"
  have m: "moves conv sid s l ?l" using d assms(3) by (simp add: moves_def)
  have "side_ok sid s ?l st' (F \<union> udp_of (io_log io'))" if "side_ok sid s l st (F \<union> udp_of (io_log io))" for F
    using side_ok_mono [OF that, of ?l st' "{}"] d(5-7) assms(3-8) by simp
  then have "progress conv sid s [] l st io r ?l st' io'"
    using m d assms(4-8) by (auto simp: progress_def)
  then show ?thesis using d(4) by (intro exI [of _ ?l]) simp
qed

lemma kcp_packet_progress:
  assumes "stream_kcp_packet env d st io = (r, st', io')" "d \<in> net l (\<not> s)" "linked conv l" "session_ok sid s st"
    "st_kcp st = Some (ep l s)"
  shows "\<exists>l'. progress conv sid s [] l st io r l' st' io' \<and> quiet st st'"
proof -
  obtain n k1 where i: "ikcp_input (ep l s) d = (n, k1)" by fastforce
  have n: "n = 0" using linked_datagram [OF assms(3,2)] i by simp
  obtain r2 k2 io2 where dr: "redp2p_stream_drain env k1 io = (r2, k2, io2)" by (metis prod_cases3)
  have st': "st' = st\<lparr>st_kcp := Some k2, st_next_update_ms := ucast (clock env io)\<rparr>" "r = r2" "io' = io2"
    using assms(1,5) i n dr by (auto simp: stream_kcp_packet_def)
  have l: "linked conv (l\<lparr>ep := (ep l)(s := k1)\<rparr>)" by (rule linked.step [OF assms(3) link_step.input [OF assms(2) i]])
  have q: "session_ok sid s st'" "st_kcp st' = Some k2" "st_adapter st' = st_adapter st" "grows st st'" "quiet st st'"
    using assms(4) by (simp_all add: st'(1) grows_def quiet_def)
  show ?thesis
    using drain_progress [OF dr l input_mss [OF i] _ q(1-4)] input_idle [OF i] q(5) st'(2,3) by blast
qed

text \<open>A close packet marks the remote side closed only when everything received has been written.\<close>

lemma close_packet_progress:
  assumes "stream_close_packet env st io = (r, st', io')" "linked conv l" "session_ok sid s st" "st_kcp st = Some (ep l s)"
  shows "\<exists>l'. progress conv sid s [] l st io r l' st' io' \<and> st_close_acked st' = st_close_acked st
    \<and> (st_remote_close st' \<longrightarrow> st_remote_close st \<or> progress conv sid s [] l st io 0 l' st' io' \<and> k_rcv_queue (ep l' s) = [])"
proof -
  obtain r2 k2 io2 where dr: "redp2p_stream_drain env (ep l s) io = (r2, k2, io2)" by (metis prod_cases3)
  have "l\<lparr>ep := (ep l)(s := ep l s)\<rparr> = l" by simp
  then have l: "linked conv (l\<lparr>ep := (ep l)(s := ep l s)\<rparr>)" using assms(2) by simp
  show ?thesis
  proof (cases "r2 = 0")
    case False
    then have st': "st' = st\<lparr>st_kcp := Some k2\<rparr>" "io' = io2" "r = - 1" using assms(1,4) dr by (auto simp: stream_close_packet_def)
    have q: "session_ok sid s st'" "st_kcp st' = Some k2" "st_adapter st' = st_adapter st" "grows st st'"
      "st_close_acked st' = st_close_acked st" "st_remote_close st' = st_remote_close st"
      using assms(3) by (simp_all add: st'(1) grows_def)
    from drain_progress [OF dr l refl _ q(1-4)] obtain l' where "progress conv sid s [] l st io r2 l' st' io2" by blast
    then have "progress conv sid s [] l st io r l' st' io'" using False st'(2,3) by (auto simp: progress_def)
    then show ?thesis using q by blast
  next
    case True
    let ?st = "st\<lparr>st_kcp := Some k2, st_remote_close := True\<rparr>"
    let ?io = "if \<not> st_remote_close st then emit Shut io2 else io2"
    have c: "redp2p_stream_send_control env REDP2P_STREAM_TYPE_CLOSE_ACK ?st ?io = (r, st', io')"
      using assms(1,4) dr True by (simp add: stream_close_packet_def Let_def split: if_splits)
    have q: "session_ok sid s ?st" "st_kcp ?st = Some k2" "st_adapter ?st = st_adapter st" "grows st ?st"
      using assms(3) by (simp_all add: grows_def)
    from drain_progress [OF dr l refl _ q] True obtain l' where
      p: "progress conv sid s [] l st io 0 l' ?st io2" "k_rcv_queue (ep l' s) = []" by blast
    have p1: "progress conv sid s [] l st io 0 l' ?st ?io" by (rule progress_log [OF _ _ p(1)]) simp_all
    note f = progress_fields [OF p1]
    obtain n where n: "st' = ?st\<lparr>st_last_tx_ms := n\<rparr>" by (rule that [OF send_control_effect(2) [OF c q(1)]])
    have fr: "frame_ok sid s l' ?st (packed_frame sid s REDP2P_STREAM_TYPE_CLOSE_ACK [])"
      unfolding frame_ok_def by (intro disjI2 exI [of _ REDP2P_STREAM_TYPE_CLOSE_ACK]) simp
    have "progress conv sid s [] l' ?st ?io r' l' st' io'" for r'
      by (rule send_control_progress [OF c _ q(1) _ fr]) (use f n q(1) in \<open>simp_all add: grows_def\<close>)
    then have "progress conv sid s [] l st io r' l' st' io'" for r' using progress_trans [OF p1] by blast
    then show ?thesis using p(2) n by (intro exI [of _ l']) simp
  qed
qed

lemma other_role: "(if s then REDP2P_STREAM_ROLE_RESPONDER else REDP2P_STREAM_ROLE_INITIATOR) = role_of (\<not> s)"
  by (simp add: role_of_def)

lemma foreign_ignored: "foreign st f \<Longrightarrow> redp2p_stream_process_packet env f st io = (0, st, io)"
  by (cases "redp2p_stream_unpack f") (simp_all add: foreign_def redp2p_stream_process_packet_def Let_def)

lemma unpack_frame:
  assumes "valid_type ty" "length sid = REDP2P_STREAM_SESSION_ID_SZ" "ty \<noteq> REDP2P_STREAM_TYPE_KCP \<Longrightarrow> payload = []"
    "length payload \<le> REDP2P_STREAM_KCP_MTU"
  shows "redp2p_stream_unpack (packed_frame sid s ty payload) =
    Some \<lparr>en_type = ty, en_role = role_of s, en_protocol = proto_tcp, en_session_id = sid, en_payload = payload\<rparr>"
  by (rule unpack_pack) (use assms in \<open>simp_all add: valid_role_def role_of_def\<close>)

lemma control_types: "valid_type REDP2P_STREAM_TYPE_HELLO" "valid_type REDP2P_STREAM_TYPE_HELLO_ACK" "valid_type REDP2P_STREAM_TYPE_KCP"
  "valid_type REDP2P_STREAM_TYPE_CLOSE" "valid_type REDP2P_STREAM_TYPE_CLOSE_ACK" "valid_type REDP2P_STREAM_TYPE_RESET"
  "valid_type REDP2P_STREAM_TYPE_KEEPALIVE"
  by (simp_all add: valid_type_def macros)

text \<open>What taking in a frame of the peer comes to, by the type of the frame.\<close>

lemma process_frame:
  assumes "valid_type ty" "length sid = REDP2P_STREAM_SESSION_ID_SZ" "ty \<noteq> REDP2P_STREAM_TYPE_KCP \<Longrightarrow> payload = []"
    "length payload \<le> REDP2P_STREAM_KCP_MTU" "session_ok sid s st"
  shows "redp2p_stream_process_packet env (packed_frame sid (\<not> s) ty payload) st io =
    (if ty = REDP2P_STREAM_TYPE_HELLO \<and> \<not> s
     then (case redp2p_stream_send_control env REDP2P_STREAM_TYPE_HELLO_ACK st io of (r, st, io) \<Rightarrow>
             if r \<noteq> 0 then (- 1, st, io) else (0, st\<lparr>st_ready := True\<rparr>, io))
     else if ty = REDP2P_STREAM_TYPE_HELLO_ACK \<and> s then (0, st\<lparr>st_ready := True\<rparr>, io)
     else if \<not> st_ready st then (0, st, io)
     else if ty = REDP2P_STREAM_TYPE_KCP then stream_kcp_packet env payload st io
     else if ty = REDP2P_STREAM_TYPE_CLOSE then stream_close_packet env st io
     else if ty = REDP2P_STREAM_TYPE_CLOSE_ACK then (0, st\<lparr>st_close_acked := True\<rparr>, io)
     else if ty = REDP2P_STREAM_TYPE_RESET then (- 1, st\<lparr>st_reset_received := True\<rparr>, io_error ''stream: peer reset'' io)
     else (0, st, io))"
proof -
  have u: "redp2p_stream_unpack (packed_frame sid (\<not> s) ty payload) =
      Some \<lparr>en_type = ty, en_role = role_of (\<not> s), en_protocol = proto_tcp, en_session_id = sid, en_payload = payload\<rparr>"
    by (rule unpack_frame) (use assms in simp_all)
  have f: "st_initiator st = s" "st_transport_protocol st = proto_tcp" "st_session_id st = sid" using assms(5) by (simp_all add: session_ok_def)
  show ?thesis
    unfolding redp2p_stream_process_packet_def u Let_def option.case f other_role
    by (simp only: redp2p_stream_envelope_t.select_convs simp_thms if_False)
qed

lemma packet_progress:
  assumes p: "redp2p_stream_process_packet env f st io = (r, st', io')" and l: "linked conv l" and ok: "session_ok sid s st"
    and k: "st_kcp st = Some (ep l s)" and sid: "length sid = REDP2P_STREAM_SESSION_ID_SZ" and f: "frame_ok sid (\<not> s) l peer f"
  shows "\<exists>l'. progress conv sid s [] l st io r l' st' io' \<and> (st_close_acked st' \<longrightarrow> st_close_acked st \<or> st_remote_close peer)
    \<and> (st_remote_close st' \<longrightarrow> st_remote_close st \<or> progress conv sid s [] l st io 0 l' st' io' \<and> k_rcv_queue (ep l' s) = []
         \<and> st_local_eof peer \<and> idle (ep l (\<not> s)))"
proof -
  let ?goal = ?thesis
  have still: ?goal if "st_kcp st' = st_kcp st" "st_adapter st' = st_adapter st" "grows st st'" "session_ok sid s st'"
      "st_close_acked st' \<longrightarrow> st_close_acked st \<or> st_remote_close peer" "st_remote_close st' = st_remote_close st" "io_log io' = io_log io"
    using progress_local [OF l that(3,4), of io' io r] that k by (intro exI [of _ l]) simp
  have quietly: ?goal if "\<exists>l'. progress conv sid s [] l st io r l' st' io' \<and> quiet st st'" using that by (auto simp: quiet_def)
  note pf = process_frame [OF _ sid _ _ ok, of _ _ env io]
  from f consider (kcp) d where "d \<in> net l (\<not> s)" "f = packed_frame sid (\<not> s) REDP2P_STREAM_TYPE_KCP d"
    | (control) ty where "f = packed_frame sid (\<not> s) ty []"
        "ty \<in> {REDP2P_STREAM_TYPE_HELLO, REDP2P_STREAM_TYPE_HELLO_ACK, REDP2P_STREAM_TYPE_RESET, REDP2P_STREAM_TYPE_KEEPALIVE}"
    | (close) "f = packed_frame sid (\<not> s) REDP2P_STREAM_TYPE_CLOSE []" "st_local_eof peer" "idle (ep l (\<not> s))"
    | (ack) "f = packed_frame sid (\<not> s) REDP2P_STREAM_TYPE_CLOSE_ACK []" "st_remote_close peer"
    unfolding frame_ok_def by blast
  then show ?goal
  proof cases
    case kcp
    show ?goal
    proof (cases "length d \<le> REDP2P_STREAM_KCP_MTU")
      case False
      then have "f = []" using kcp(2) by (simp add: redp2p_stream_pack_def)
      then have "foreign st f" by (simp add: foreign_def redp2p_stream_unpack_def macros)
      then show ?goal using p foreign_ignored [of st f env io] ok by (intro still) (simp_all add: grows_def)
    next
      case True
      have e: "redp2p_stream_process_packet env f st io = (if \<not> st_ready st then (0, st, io) else stream_kcp_packet env d st io)"
        using pf [OF control_types(3), of d] True kcp(2) by (simp add: macros)
      show ?goal
      proof (cases "st_ready st")
        case True
        then show ?goal using kcp_packet_progress [OF _ kcp(1) l ok k] p e by (intro quietly) simp
      next
        case False
        then show ?goal using p e ok by (intro still) (simp_all add: grows_def)
      qed
    qed
  next
    case control
    then have v: "valid_type ty" using control_types by blast
    show ?goal
    proof (cases "ty = REDP2P_STREAM_TYPE_HELLO \<and> \<not> s")
      case True
      have e: "redp2p_stream_process_packet env f st io =
          (if True then case redp2p_stream_send_control env REDP2P_STREAM_TYPE_HELLO_ACK st io of (r, st, io) \<Rightarrow>
             if r \<noteq> 0 then (- 1, st, io) else (0, st\<lparr>st_ready := True\<rparr>, io) else (0, st, io))"
        using pf [OF v, of "[]"] control(1) True by simp
      have "progress conv sid s [] l st io r l st' io' \<and> quiet st st' \<and> st_kcp st' = st_kcp st"
        by (rule control_step_progress [OF p [unfolded e] l ok k]) (auto simp: frame_ok_def grows_def quiet_def)
      then show ?goal by (intro quietly) blast
    next
      case False
      have n: "ty \<noteq> REDP2P_STREAM_TYPE_KCP" "ty \<noteq> REDP2P_STREAM_TYPE_CLOSE" "ty \<noteq> REDP2P_STREAM_TYPE_CLOSE_ACK"
        using control(2) by (auto simp: macros)
      have e: "redp2p_stream_process_packet env f st io =
          (if ty = REDP2P_STREAM_TYPE_HELLO_ACK \<and> s then (0, st\<lparr>st_ready := True\<rparr>, io)
           else if \<not> st_ready st then (0, st, io)
           else if ty = REDP2P_STREAM_TYPE_RESET then (- 1, st\<lparr>st_reset_received := True\<rparr>, io_error ''stream: peer reset'' io)
           else (0, st, io))"
        unfolding control(1) using pf [OF v, of "[]"] by (simp only: simp_thms False n if_False list.size le0)
      have "(st' = st \<or> st' = st\<lparr>st_ready := True\<rparr> \<or> st' = st\<lparr>st_reset_received := True\<rparr>) \<and> io_log io' = io_log io"
        using p e by (auto split: if_splits)
      then show ?goal using ok by (intro still) (auto simp: grows_def)
    qed
  next
    case close
    have e: "redp2p_stream_process_packet env f st io = (if \<not> st_ready st then (0, st, io) else stream_close_packet env st io)"
      using pf [OF control_types(4), of "[]"] close(1) by (simp add: macros)
    show ?goal
    proof (cases "st_ready st")
      case True
      then show ?goal using close_packet_progress [OF _ l ok k, of env io r st' io'] p e close(2,3) by auto
    next
      case False
      then show ?goal using p e ok by (intro still) (simp_all add: grows_def)
    qed
  next
    case ack
    have e: "redp2p_stream_process_packet env f st io = (if \<not> st_ready st then (0, st, io) else (0, st\<lparr>st_close_acked := True\<rparr>, io))"
      using pf [OF control_types(5), of "[]"] ack(1) by (simp add: macros)
    then have "(st' = st \<or> st' = st\<lparr>st_close_acked := True\<rparr>) \<and> io' = io" using p by (auto split: if_splits)
    then show ?goal using ok ack(2) by (intro still) (auto simp: grows_def)
  qed
qed

section \<open>The invariant of the tunnel\<close>

definition tunnel_ok :: "byte list \<Rightarrow> link \<Rightarrow> tunnel \<Rightarrow> bool" where
  "tunnel_ok sid l t \<longleftrightarrow> linked (redp2p_stream_conv sid) l \<and> length sid = REDP2P_STREAM_SESSION_ID_SZ
     \<and> (\<forall>s. side_ok sid s l (tn_st t s) (tn_net t s) \<and> accepted l s = tn_read t s \<and> prefix (tn_written t s) (delivered l s)
          \<and> (\<not> tn_dead t s \<longrightarrow> tn_written t s = delivered l s)
          \<and> (st_close_acked (tn_st t s) \<longrightarrow> st_remote_close (tn_st t (\<not> s)))
          \<and> (st_remote_close (tn_st t s) \<longrightarrow> tn_written t s = tn_read t (\<not> s) \<and> st_local_eof (tn_st t (\<not> s)) \<and> idle (ep l (\<not> s))))"

lemma tunnel_side:
  assumes "tunnel_ok sid l t"
  shows "side_ok sid s l (tn_st t s) (tn_net t s)" "accepted l s = tn_read t s" "prefix (tn_written t s) (delivered l s)"
    "\<not> tn_dead t s \<Longrightarrow> tn_written t s = delivered l s" "st_close_acked (tn_st t s) \<Longrightarrow> st_remote_close (tn_st t (\<not> s))"
    "st_remote_close (tn_st t s) \<Longrightarrow> tn_written t s = tn_read t (\<not> s) \<and> st_local_eof (tn_st t (\<not> s)) \<and> idle (ep l (\<not> s))"
    "linked (redp2p_stream_conv sid) l" "length sid = REDP2P_STREAM_SESSION_ID_SZ"
  using assms by (auto simp: tunnel_ok_def)

text \<open>A failure is followed by a reset that touches neither the connection nor the local socket.\<close>

lemma progress_after_fail:
  assumes "progress conv sid s c l st io r l1 st1 io1" "(if r = 0 then (st1, io1) else redp2p_stream_fail env st1 io1) = (st2, io2)"
  shows "progress conv sid s c l st io r l1 st2 io2 \<and> quiet st1 st2 \<and> tcp_of (io_log io2) = tcp_of (io_log io1)"
proof (cases "r = 0")
  case True
  then show ?thesis using assms by (auto simp: quiet_def)
next
  case False
  note f = progress_fields [OF assms(1)]
  have e: "redp2p_stream_fail env st1 io1 = (st2, io2)" using assms(2) False by simp
  have p: "progress conv sid s [] l1 st1 io1 r l1 st2 io2" "quiet st1 st2" "tcp_of (io_log io2) = tcp_of (io_log io1)"
    using fail_progress [OF e] f by blast+
  have "grows st st2" "st_local_eof st \<longrightarrow> c = [] \<and> (idle (ep l s) \<longrightarrow> idle (ep l1 s))"
    using assms(1) p(1) unfolding progress_def grows_def by blast+
  then have "progress conv sid s c l st io r l1 st2 io2" using assms(1) p(1,3) unfolding progress_def by simp
  then show ?thesis using p by blast
qed

lemma settle_ok:
  assumes t: "tunnel_ok sid l t" and alive: "\<not> tn_dead t s"
    and p: "progress (redp2p_stream_conv sid) sid s c l (tn_st t s) (io_of t s) r l' st1 io1"
    and ca: "st_close_acked st1 \<longrightarrow> st_close_acked (tn_st t s) \<or> st_remote_close (tn_st t (\<not> s))"
    and rc: "st_remote_close st1 \<longrightarrow> st_remote_close (tn_st t s) \<or>
      progress (redp2p_stream_conv sid) sid s c l (tn_st t s) (io_of t s) 0 l' st1 io1 \<and> k_rcv_queue (ep l' s) = []
        \<and> st_local_eof (tn_st t (\<not> s)) \<and> idle (ep l (\<not> s))"
  shows "tunnel_ok sid l' (settle env s c (r, st1, io1) t)"
proof -
  let ?st = "tn_st t s" and ?conv = "redp2p_stream_conv sid"
  obtain st2 io2 where f: "(if r = 0 then (st1, io1) else redp2p_stream_fail env st1 io1) = (st2, io2)" by fastforce
  note p2 = progress_after_fail [OF p f]
  have pr: "progress ?conv sid s c l ?st (io_of t s) r l' st2 io2" and q: "quiet st1 st2" and tcp: "tcp_of (io_log io2) = tcp_of (io_log io1)"
    using p2 by blast+
  note ts = tunnel_side [OF t]
  have m: "linked ?conv l'" "ep l' (\<not> s) = ep l (\<not> s)" "net l' (\<not> s) = net l (\<not> s)" "accepted l' (\<not> s) = accepted l (\<not> s)"
    "delivered l' (\<not> s) = delivered l (\<not> s)"
    using pr by (simp_all add: progress_def moves_def)
  have g: "grows ?st st2" using pr by (simp add: progress_def)
  have a: "accepted l' s = tn_read t s @ c" using pr ts(2) [of s] by (simp add: progress_def)
  have e: "st_local_eof ?st \<longrightarrow> c = [] \<and> (idle (ep l s) \<longrightarrow> idle (ep l' s))" using pr by (simp add: progress_def)
  obtain w d where w: "tcp_of (io_log io2) = w" "delivered l' s = tn_written t s @ d" "prefix w d" "r = 0 \<longrightarrow> w = d"
    using pr ts(4) [OF alive] by (auto simp: progress_def)
  have side: "side_ok sid s l' st2 (tn_net t s \<union> udp_of (io_log io2))" using pr ts(1) [of s] by (simp add: progress_def)
  have other: "side_ok sid (\<not> s) l' (tn_st t (\<not> s)) (tn_net t (\<not> s))"
    using ts(1) [of "\<not> s"] m(2,3) by (simp add: side_ok_def frame_ok_def)
  have closed: "tn_written t s @ w = tn_read t (\<not> s) \<and> st_local_eof (tn_st t (\<not> s)) \<and> idle (ep l' (\<not> s))" if "st_remote_close st2"
  proof (cases "st_remote_close ?st")
    case True
    have "prefix (tn_written t s @ d) (tn_written t s)"
      using linked_prefix [OF m(1), of s] w(2) m(4) ts(2) [of "\<not> s"] ts(6) [OF True] by simp
    then have "d = []" by (auto dest: prefix_length_le)
    then show ?thesis using w(3) ts(6) [OF True] m(2) by simp
  next
    case False
    then have n: "progress ?conv sid s c l ?st (io_of t s) 0 l' st1 io1" "k_rcv_queue (ep l' s) = []" "st_local_eof (tn_st t (\<not> s))"
        "idle (ep l (\<not> s))"
      using rc that q by (auto simp: quiet_def)
    have "delivered l' s = accepted l' (\<not> s)"
      by (rule linked_complete [OF m(1) _ n(2)]) (use n(4) m(2) idle_waitsnd in simp)
    moreover have "tcp_of (io_log io1) = d" using n(1) w(2) ts(4) [OF alive] by (auto simp: progress_def)
    ultimately show ?thesis using w(1,2) tcp m(2,4) ts(2) [of "\<not> s"] n(3,4) by simp
  qed
  let ?t = "settle env s c (r, st1, io1) t"
  have new: "tn_st ?t = (tn_st t)(s := st2)" "tn_net ?t = (tn_net t)(s := tn_net t s \<union> udp_of (io_log io2))"
    "tn_read ?t = (tn_read t)(s := tn_read t s @ c)" "tn_written ?t = (tn_written t)(s := tn_written t s @ w)"
    "tn_dead ?t = (tn_dead t)(s := (r \<noteq> 0))"
    using f w(1) by (simp_all add: settle_def)
  have "side_ok sid u l' (tn_st ?t u) (tn_net ?t u) \<and> accepted l' u = tn_read ?t u \<and> prefix (tn_written ?t u) (delivered l' u)
      \<and> (\<not> tn_dead ?t u \<longrightarrow> tn_written ?t u = delivered l' u)
      \<and> (st_close_acked (tn_st ?t u) \<longrightarrow> st_remote_close (tn_st ?t (\<not> u)))
      \<and> (st_remote_close (tn_st ?t u) \<longrightarrow> tn_written ?t u = tn_read ?t (\<not> u) \<and> st_local_eof (tn_st ?t (\<not> u)) \<and> idle (ep l' (\<not> u)))" for u
  proof (cases "u = s")
    case True
    then show ?thesis
      using side a w closed ca ts(5) [of s] q unfolding new by (auto simp: quiet_def)
  next
    case False
    then have u: "u = (\<not> s)" by auto
    have "st_close_acked (tn_st t (\<not> s)) \<longrightarrow> st_remote_close st2" using ts(5) [of "\<not> s"] g by (auto simp: grows_def)
    moreover have "st_remote_close (tn_st t (\<not> s)) \<longrightarrow> tn_written t (\<not> s) = tn_read t s @ c \<and> st_local_eof st2 \<and> idle (ep l' s)"
      using ts(6) [of "\<not> s"] e g by (auto simp: grows_def)
    ultimately show ?thesis
      using other m ts(2-4) [of "\<not> s"] unfolding new u by simp
  qed
  then show ?thesis using m(1) ts(8) by (simp add: tunnel_ok_def)
qed

lemma tunnel_step_ok:
  assumes "tunnel_step t t'" "tunnel_ok sid l t"
  shows "\<exists>l. tunnel_ok sid l t'"
proof -
  note ts = tunnel_side [OF assms(2)]
  have so: "session_ok sid s (tn_st t s)" "st_kcp (tn_st t s) = Some (ep l s)" "k_mss (ep l s) = 1376" for s
    using ts(1) [of s] by (simp_all add: side_ok_def)
  show ?thesis
    using assms(1)
  proof cases
    case (pump s env input)
    obtain r st1 io1 where p: "redp2p_stream_pump_tcp env input (tn_st t s) (io_of t s) = (r, st1, io1)" by (metis prod_cases3)
    from pump_progress [OF p ts(7) so] obtain l' where
      "progress (redp2p_stream_conv sid) sid s (pumped input (tn_st t s)) l (tn_st t s) (io_of t s) r l' st1 io1" "quiet (tn_st t s) st1"
      by blast
    from settle_ok [OF assms(2) pump(2) this(1)] this(2) show ?thesis unfolding pump(1) p by (auto simp: quiet_def)
  next
    case (tick s env)
    obtain r st1 io1 where p: "redp2p_stream_tick env (tn_st t s) (io_of t s) = (r, st1, io1)" by (metis prod_cases3)
    from tick_progress [OF p ts(7) so(1,2) tick(3)] obtain l' where
      "progress (redp2p_stream_conv sid) sid s [] l (tn_st t s) (io_of t s) r l' st1 io1" "quiet (tn_st t s) st1" by blast
    from settle_ok [OF assms(2) tick(2) this(1)] this(2) show ?thesis unfolding tick(1) p by (auto simp: quiet_def)
  next
    case (packet s f env)
    obtain r st1 io1 where p: "redp2p_stream_process_packet env f (tn_st t s) (io_of t s) = (r, st1, io1)" by (metis prod_cases3)
    show ?thesis
    proof (cases "foreign (tn_st t s) f")
      case True
      then have "st1 = tn_st t s" "io1 = io_of t s" "r = 0" using p foreign_ignored by fastforce+
      with settle_ok [OF assms(2) packet(2), of "[]" r l st1 io1] still_progress [OF ts(7) so(1,2)] show ?thesis
        unfolding packet(1) p by blast
    next
      case False
      then have "frame_ok sid (\<not> s) l (tn_st t (\<not> s)) f" using packet(3) ts(1) [of "\<not> s"] by (auto simp: side_ok_def)
      from packet_progress [OF p ts(7) so(1,2) ts(8) this] settle_ok [OF assms(2) packet(2)] show ?thesis
        unfolding packet(1) p by blast
    qed
  qed
qed

lemma stream_kcp_started: "stream_kcp a b sid = Some kcp \<Longrightarrow> kcp_started (redp2p_stream_conv sid) kcp \<and> k_mss kcp = 1376"
  by (auto simp: stream_kcp_def ikcp_create_def ikcp_setmtu_def ikcp_wndsize_def ikcp_nodelay_def kcp_started_def imax_def macros
      split: if_splits)

lemma init_side:
  assumes "redp2p_stream_init env allocs s addr sid hex proto_tcp io = (0, st, io')"
  shows "session_ok sid s st" "\<exists>kcp. st_kcp st = Some kcp \<and> kcp_started (redp2p_stream_conv sid) kcp \<and> k_mss kcp = 1376"
    "\<not> a_fault_pending_used (the (st_adapter st))" "\<not> st_close_acked st" "\<not> st_remote_close st"
  using assms stream_kcp_started
  by (auto simp: redp2p_stream_init_def session_ok_def role_of_def zero_stream_def Let_def split: prod.splits if_splits option.splits)

lemma tunnelled_ok: "tunnelled sid t \<Longrightarrow> \<exists>l. tunnel_ok sid l t"
proof (induction rule: tunnelled.induct)
  case (start env1 allocs1 addr1 hex1 ctx1 st1 io1 env2 allocs2 addr2 hex2 ctx2 st2 io2)
  note i1 = init_side [OF start(2)] and i2 = init_side [OF start(3)]
  obtain k1 where k1: "st_kcp st1 = Some k1" "kcp_started (redp2p_stream_conv sid) k1" "k_mss k1 = 1376" using i1(2) by blast
  obtain k2 where k2: "st_kcp st2 = Some k2" "kcp_started (redp2p_stream_conv sid) k2" "k_mss k2 = 1376" using i2(2) by blast
  let ?l = "\<lparr>ep = (\<lambda>s. if s then k1 else k2), net = (\<lambda>s. {}), accepted = (\<lambda>s. []), delivered = (\<lambda>s. [])\<rparr>"
  have "linked (redp2p_stream_conv sid) ?l" by (rule linked.start [OF k1(2) k2(2)])
  then show ?case
    using i1 i2 k1 k2 start(1) by (intro exI [of _ ?l]) (simp add: tunnel_ok_def side_ok_def)
next
  case (step t t')
  then show ?case using tunnel_step_ok by blast
qed

section \<open>What the wait and the envelope promise\<close>

lemma wait_ms_bound: "redp2p_stream_wait_ms sto now \<le> 1000"
proof (cases sto)
  case None
  then show ?thesis by (simp add: redp2p_stream_wait_ms_def)
next
  case (Some st)
  have "(ucast (500 - d) :: u32) \<le> 1000" if "d < (500 :: u64)" for d
  proof -
    have "unat (500 - d) = unat (500 :: u64) - unat d" using that by (intro unat_sub) simp
    then have "unat (500 - d) \<le> 500" by simp
    then have "unat (ucast (500 - d) :: u32) \<le> 500" 
      by (simp add: unsigned_ucast_eq order_trans [OF take_bit_nat_less_eq_self])
    then show ?thesis by (simp add: word_le_nat_alt)
  qed
  moreover have "w \<le> 1000" if "0 < sint w" "sint w \<le> 1000" for w :: u32
  proof -
    have "uint (word_of_int (sint w) :: u32) = sint w" using that by (simp only: uint_word_of_int) simp
    then show ?thesis using that by (simp add: word_le_def)
  qed
  ultimately show ?thesis using Some by (auto simp: redp2p_stream_wait_ms_def macros Let_def not_le)
qed

end
