(* ===== verification/Stream_Behaviour.thy ===== *)
theory Stream_Behaviour
  imports Stream_Tunnel
begin

text \<open>
  The theorems of the tunnel, and a run of it that carries two bytes one way and closes both
  ways, on which their hypotheses hold.
\<close>

section \<open>A run\<close>

definition demo_env :: "u64 \<Rightarrow> stream_env" where
  "demo_env now = \<lparr>env_getenv = (\<lambda>_. None), env_sendto = (\<lambda>_ _. True), env_now_ms = (\<lambda>_. now),
     env_tcp_write = (\<lambda>_ bs. int (length bs))\<rparr>"

definition demo_sid :: "byte list" where
  "demo_sid = [7, 0, 0, 0, 0, 0, 0, 0, 0, 0, 0, 0, 0, 0, 0, 0]"

definition demo_conn :: ikcpcb where
  "demo_conn = \<lparr>k_conv = 7, k_mtu = 1400, k_mss = 1376, k_state = 0, k_snd_una = 0, k_snd_nxt = 0, k_rcv_nxt = 0,
    k_ssthresh = 2, k_rx_rttval = 0, k_rx_srtt = 0, k_rx_rto = 200, k_rx_minrto = 100, k_snd_wnd = 64, k_rcv_wnd = 128,
    k_rmt_wnd = 128, k_cwnd = 0, k_probe = 0, k_current = 0, k_interval = 20, k_ts_flush = 100, k_xmit = 0, k_nodelay = 0,
    k_updated = False, k_ts_probe = 0, k_probe_wait = 0, k_dead_link = 20, k_incr = 0, k_snd_queue = [], k_rcv_queue = [],
    k_snd_buf = [], k_rcv_buf = [], k_acklist = [], k_fastresend = 2, k_fastlimit = 5, k_nocwnd = 0, k_stream = 1\<rparr>"

definition demo_open :: "bool \<Rightarrow> redp2p_stream_state_t" where
  "demo_open s = zero_stream\<lparr>st_enabled := True, st_initiator := s, st_transport_protocol := proto_tcp, st_session_id := demo_sid,
     st_kcp := Some demo_conn, st_adapter := Some \<lparr>a_peer_addr = SA_in 1 1, a_session_id = demo_sid, a_role = role_of s,
     a_protocol = proto_tcp, a_send_error = False, a_fault_pending_used = False, a_fault_pending = []\<rparr>\<rparr>"

definition demo_hello :: "byte list" where
  "demo_hello = [82, 75, 67, 80, 2, 1, 1, 1, 7, 0, 0, 0, 0, 0, 0, 0, 0, 0, 0, 0, 0, 0, 0, 0]"

definition demo_hello_ack :: "byte list" where
  "demo_hello_ack = [82, 75, 67, 80, 2, 2, 2, 1, 7, 0, 0, 0, 0, 0, 0, 0, 0, 0, 0, 0, 0, 0, 0, 0]"

definition demo_push :: "byte list" where
  "demo_push = [82, 75, 67, 80, 2, 3, 1, 1, 7, 0, 0, 0, 0, 0, 0, 0, 0, 0, 0, 0, 0, 0, 0, 0, 7, 0, 0, 0, 81, 0, 128, 0, 40, 0,
    0, 0, 0, 0, 0, 0, 0, 0, 0, 0, 2, 0, 0, 0, 104, 105]"

definition demo_ack_frame :: "byte list" where
  "demo_ack_frame = [82, 75, 67, 80, 2, 3, 2, 1, 7, 0, 0, 0, 0, 0, 0, 0, 0, 0, 0, 0, 0, 0, 0, 0, 7, 0, 0, 0, 82, 0, 128, 0, 40,
    0, 0, 0, 0, 0, 0, 0, 1, 0, 0, 0, 0, 0, 0, 0]"

definition demo_close :: "byte list" where
  "demo_close = [82, 75, 67, 80, 2, 4, 1, 1, 7, 0, 0, 0, 0, 0, 0, 0, 0, 0, 0, 0, 0, 0, 0, 0]"

definition demo_close_ack :: "byte list" where
  "demo_close_ack = [82, 75, 67, 80, 2, 5, 2, 1, 7, 0, 0, 0, 0, 0, 0, 0, 0, 0, 0, 0, 0, 0, 0, 0]"

definition demo_close_back :: "byte list" where
  "demo_close_back = [82, 75, 67, 80, 2, 4, 2, 1, 7, 0, 0, 0, 0, 0, 0, 0, 0, 0, 0, 0, 0, 0, 0, 0]"

definition demo_close_back_ack :: "byte list" where
  "demo_close_back_ack = [82, 75, 67, 80, 2, 5, 1, 1, 7, 0, 0, 0, 0, 0, 0, 0, 0, 0, 0, 0, 0, 0, 0, 0]"

definition demo_a0 :: redp2p_stream_state_t where "demo_a0 = demo_open True"
definition demo_b0 :: redp2p_stream_state_t where "demo_b0 = demo_open False"

definition demo_a1 :: redp2p_stream_state_t where
  "demo_a1 = demo_a0\<lparr>st_hello_sent := True\<rparr>"

definition demo_b1 :: redp2p_stream_state_t where
  "demo_b1 = demo_b0\<lparr>st_ready := True, st_last_tx_ms := 5\<rparr>"

definition demo_a2 :: redp2p_stream_state_t where
  "demo_a2 = demo_a1\<lparr>st_ready := True\<rparr>"

definition demo_kcp_a3 :: ikcpcb where
  "demo_kcp_a3 = demo_conn\<lparr>k_snd_queue := [new_segment 0 [104, 105]]\<rparr>"

definition demo_a3 :: redp2p_stream_state_t where
  "demo_a3 = demo_a2\<lparr>st_kcp := Some demo_kcp_a3, st_next_update_ms := 20\<rparr>"

definition demo_kcp_a4 :: ikcpcb where
  "demo_kcp_a4 = demo_kcp_a3\<lparr>k_cwnd := 1, k_current := 20, k_ts_flush := 40, k_updated := True, k_incr := 1376\<rparr>"

definition demo_a4 :: redp2p_stream_state_t where
  "demo_a4 = demo_a3\<lparr>st_kcp := Some demo_kcp_a4, st_next_update_ms := 40\<rparr>"

definition demo_kcp_a5 :: ikcpcb where
  "demo_kcp_a5 = demo_kcp_a4\<lparr>k_snd_nxt := 1, k_current := 40, k_ts_flush := 60, k_snd_queue := [], k_snd_buf :=
    [\<lparr>seg_conv = 7, seg_cmd = 81, seg_frg = 0, seg_wnd = 128, seg_ts = 40, seg_sn = 0, seg_una = 0, seg_resendts = 265,
    seg_rto = 200, seg_fastack = 0, seg_xmit = 1, seg_data = [104, 105]\<rparr>]\<rparr>"

definition demo_a5 :: redp2p_stream_state_t where
  "demo_a5 = demo_a4\<lparr>st_kcp := Some demo_kcp_a5, st_next_update_ms := 60\<rparr>"

definition demo_kcp_b2 :: ikcpcb where
  "demo_kcp_b2 = demo_conn\<lparr>k_rcv_nxt := 1, k_acklist := [(0, 40)]\<rparr>"

definition demo_b2 :: redp2p_stream_state_t where
  "demo_b2 = demo_b1\<lparr>st_kcp := Some demo_kcp_b2, st_next_update_ms := 50\<rparr>"

definition demo_kcp_b3 :: ikcpcb where
  "demo_kcp_b3 = demo_kcp_b2\<lparr>k_cwnd := 1, k_current := 50, k_ts_flush := 70, k_updated := True, k_incr := 1376,
    k_acklist := []\<rparr>"

definition demo_b3 :: redp2p_stream_state_t where
  "demo_b3 = demo_b2\<lparr>st_kcp := Some demo_kcp_b3, st_next_update_ms := 70\<rparr>"

definition demo_kcp_a6 :: ikcpcb where
  "demo_kcp_a6 = demo_kcp_a5\<lparr>k_snd_una := 1, k_rx_rto := 100, k_cwnd := 2, k_incr := 2752, k_snd_buf := []\<rparr>"

definition demo_a6 :: redp2p_stream_state_t where
  "demo_a6 = demo_a5\<lparr>st_kcp := Some demo_kcp_a6\<rparr>"

definition demo_a7 :: redp2p_stream_state_t where
  "demo_a7 = demo_a6\<lparr>st_local_eof := True\<rparr>"

definition demo_kcp_a8 :: ikcpcb where
  "demo_kcp_a8 = demo_kcp_a6\<lparr>k_current := 60, k_ts_flush := 80\<rparr>"

definition demo_a8 :: redp2p_stream_state_t where
  "demo_a8 = demo_a7\<lparr>st_close_sent := True, st_kcp := Some demo_kcp_a8, st_last_tx_ms := 60, st_last_close_ms := 60,
    st_next_update_ms := 80\<rparr>"

definition demo_b4 :: redp2p_stream_state_t where
  "demo_b4 = demo_b3\<lparr>st_remote_close := True, st_last_tx_ms := 70\<rparr>"

definition demo_b5 :: redp2p_stream_state_t where
  "demo_b5 = demo_b4\<lparr>st_local_eof := True\<rparr>"

definition demo_kcp_b6 :: ikcpcb where
  "demo_kcp_b6 = demo_kcp_b3\<lparr>k_current := 70, k_ts_flush := 90\<rparr>"

definition demo_b6 :: redp2p_stream_state_t where
  "demo_b6 = demo_b5\<lparr>st_close_sent := True, st_kcp := Some demo_kcp_b6, st_last_close_ms := 70, st_next_update_ms :=
    90\<rparr>"

definition demo_a9 :: redp2p_stream_state_t where
  "demo_a9 = demo_a8\<lparr>st_remote_close := True, st_last_tx_ms := 80\<rparr>"

definition demo_a10 :: redp2p_stream_state_t where
  "demo_a10 = demo_a9\<lparr>st_close_acked := True\<rparr>"

text \<open>Each operation of the run, from any library context.\<close>

lemma demo_inits:
  "redp2p_stream_init (demo_env 0) (True, True, True) True (SA_in 1 1) demo_sid None proto_tcp io = (0, demo_a0, io)"
  "redp2p_stream_init (demo_env 0) (True, True, True) False (SA_in 1 1) demo_sid None proto_tcp io = (0, demo_b0, io)"
proof -
  have k: "stream_kcp True True demo_sid = Some demo_conn"
    by code_simp
  show "redp2p_stream_init (demo_env 0) (True, True, True) True (SA_in 1 1) demo_sid None proto_tcp io = (0, demo_a0, io)"
    "redp2p_stream_init (demo_env 0) (True, True, True) False (SA_in 1 1) demo_sid None proto_tcp io = (0, demo_b0, io)"
    by (simp_all add: redp2p_stream_init_def k demo_a0_def demo_b0_def demo_open_def demo_env_def role_of_def zero_stream_def)
qed

lemma demo_run_a1:
  "redp2p_stream_tick (demo_env 0) demo_a0 \<lparr>io_ctx = ctx, io_log = []\<rparr> = (0, demo_a1, \<lparr>io_ctx = ctx, io_log = [Udp demo_hello]\<rparr>)"
  by code_simp

lemma demo_run_b1:
  "redp2p_stream_process_packet (demo_env 5) demo_hello demo_b0 \<lparr>io_ctx = ctx, io_log = []\<rparr> = (0, demo_b1, \<lparr>io_ctx = ctx, io_log = [Udp demo_hello_ack]\<rparr>)"
  by code_simp

lemma demo_run_a2:
  "redp2p_stream_process_packet (demo_env 10) demo_hello_ack demo_a1 \<lparr>io_ctx = ctx, io_log = []\<rparr> = (0, demo_a2, \<lparr>io_ctx = ctx, io_log = []\<rparr>)"
  by code_simp

lemma demo_run_a3:
  "redp2p_stream_pump_tcp (demo_env 20) (Data [104, 105]) demo_a2 \<lparr>io_ctx = ctx, io_log = []\<rparr> = (0, demo_a3, \<lparr>io_ctx = ctx, io_log = []\<rparr>)"
  by code_simp

lemma demo_run_a4:
  "redp2p_stream_tick (demo_env 20) demo_a3 \<lparr>io_ctx = ctx, io_log = []\<rparr> = (0, demo_a4, \<lparr>io_ctx = ctx, io_log = []\<rparr>)"
  by code_simp

lemma demo_run_a5:
  "redp2p_stream_tick (demo_env 40) demo_a4 \<lparr>io_ctx = ctx, io_log = []\<rparr> = (0, demo_a5, \<lparr>io_ctx = ctx, io_log = [Udp demo_push]\<rparr>)"
  by code_simp

lemma demo_run_b2:
  "redp2p_stream_process_packet (demo_env 50) demo_push demo_b1 \<lparr>io_ctx = ctx, io_log = []\<rparr> = (0, demo_b2, \<lparr>io_ctx = ctx, io_log = [Tcp [104, 105]]\<rparr>)"
  by code_simp

lemma demo_run_b3:
  "redp2p_stream_tick (demo_env 50) demo_b2 \<lparr>io_ctx = ctx, io_log = []\<rparr> = (0, demo_b3, \<lparr>io_ctx = ctx, io_log = [Udp demo_ack_frame]\<rparr>)"
  by code_simp

lemma demo_run_a6:
  "redp2p_stream_process_packet (demo_env 60) demo_ack_frame demo_a5 \<lparr>io_ctx = ctx, io_log = []\<rparr> = (0, demo_a6, \<lparr>io_ctx = ctx, io_log = []\<rparr>)"
  by code_simp

lemma demo_run_a7:
  "redp2p_stream_pump_tcp (demo_env 60) Eof demo_a6 \<lparr>io_ctx = ctx, io_log = []\<rparr> = (0, demo_a7, \<lparr>io_ctx = ctx, io_log = []\<rparr>)"
  by code_simp

lemma demo_run_a8:
  "redp2p_stream_tick (demo_env 60) demo_a7 \<lparr>io_ctx = ctx, io_log = []\<rparr> = (0, demo_a8, \<lparr>io_ctx = ctx, io_log = [Udp demo_close]\<rparr>)"
  by code_simp

lemma demo_run_b4:
  "redp2p_stream_process_packet (demo_env 70) demo_close demo_b3 \<lparr>io_ctx = ctx, io_log = []\<rparr> = (0, demo_b4, \<lparr>io_ctx = ctx, io_log = [Shut, Udp demo_close_ack]\<rparr>)"
  by code_simp

lemma demo_run_b5:
  "redp2p_stream_pump_tcp (demo_env 70) Eof demo_b4 \<lparr>io_ctx = ctx, io_log = []\<rparr> = (0, demo_b5, \<lparr>io_ctx = ctx, io_log = []\<rparr>)"
  by code_simp

lemma demo_run_b6:
  "redp2p_stream_tick (demo_env 70) demo_b5 \<lparr>io_ctx = ctx, io_log = []\<rparr> = (0, demo_b6, \<lparr>io_ctx = ctx, io_log = [Udp demo_close_back]\<rparr>)"
  by code_simp

lemma demo_run_a9:
  "redp2p_stream_process_packet (demo_env 80) demo_close_back demo_a8 \<lparr>io_ctx = ctx, io_log = []\<rparr> = (0, demo_a9, \<lparr>io_ctx = ctx, io_log = [Shut, Udp demo_close_back_ack]\<rparr>)"
  by code_simp

lemma demo_run_a10:
  "redp2p_stream_process_packet (demo_env 80) demo_close_ack demo_a9 \<lparr>io_ctx = ctx, io_log = []\<rparr> = (0, demo_a10, \<lparr>io_ctx = ctx, io_log = []\<rparr>)"
  by code_simp

definition demo_tunnel :: "redp2p \<Rightarrow> redp2p_stream_state_t \<Rightarrow> redp2p_stream_state_t \<Rightarrow> byte list set \<Rightarrow> byte list set
    \<Rightarrow> byte list \<Rightarrow> byte list \<Rightarrow> tunnel" where
  "demo_tunnel ctx a b na nb ra wb = \<lparr>tn_st = (\<lambda>s. if s then a else b), tn_ctx = (\<lambda>s. ctx), tn_net = (\<lambda>s. if s then na else nb),
     tn_read = (\<lambda>s. if s then ra else []), tn_written = (\<lambda>s. if s then [] else wb), tn_dead = (\<lambda>s. False)\<rparr>"

lemma demo_tunnel_fields [simp]:
  "tn_st (demo_tunnel ctx a b na nb ra wb) s = (if s then a else b)" "tn_ctx (demo_tunnel ctx a b na nb ra wb) s = ctx"
  "tn_net (demo_tunnel ctx a b na nb ra wb) s = (if s then na else nb)" "tn_read (demo_tunnel ctx a b na nb ra wb) s = (if s then ra else [])"
  "tn_written (demo_tunnel ctx a b na nb ra wb) s = (if s then [] else wb)" "\<not> tn_dead (demo_tunnel ctx a b na nb ra wb) s"
  by (simp_all add: demo_tunnel_def)

lemma demo_settle:
  "tcp_of es = [] \<Longrightarrow> settle env True c (0, st, \<lparr>io_ctx = ctx, io_log = es\<rparr>) (demo_tunnel ctx a b na nb ra wb) =
     demo_tunnel ctx st b (na \<union> udp_of es) nb (ra @ c) wb"
  "settle env False [] (0, st, \<lparr>io_ctx = ctx, io_log = es\<rparr>) (demo_tunnel ctx a b na nb ra wb) =
     demo_tunnel ctx a st na (nb \<union> udp_of es) ra (wb @ tcp_of es)"
  by (simp_all add: settle_def demo_tunnel_def fun_upd_def if_distrib cong: if_cong)

lemma demo_steps:
  "redp2p_stream_pump_tcp env input a \<lparr>io_ctx = ctx, io_log = []\<rparr> = (0, st, \<lparr>io_ctx = ctx, io_log = es\<rparr>) \<Longrightarrow> tcp_of es = [] \<Longrightarrow>
     tunnel_step (demo_tunnel ctx a b na nb ra wb) (demo_tunnel ctx st b (na \<union> udp_of es) nb (ra @ pumped input a) wb)"
  "redp2p_stream_pump_tcp env input b \<lparr>io_ctx = ctx, io_log = []\<rparr> = (0, st, \<lparr>io_ctx = ctx, io_log = es\<rparr>) \<Longrightarrow> pumped input b = [] \<Longrightarrow>
     tunnel_step (demo_tunnel ctx a b na nb ra wb) (demo_tunnel ctx a st na (nb \<union> udp_of es) ra (wb @ tcp_of es))"
  "redp2p_stream_tick env a \<lparr>io_ctx = ctx, io_log = []\<rparr> = (0, st, \<lparr>io_ctx = ctx, io_log = es\<rparr>) \<Longrightarrow> tcp_of es = [] \<Longrightarrow> seq_room a \<Longrightarrow>
     tunnel_step (demo_tunnel ctx a b na nb ra wb) (demo_tunnel ctx st b (na \<union> udp_of es) nb ra wb)"
  "redp2p_stream_tick env b \<lparr>io_ctx = ctx, io_log = []\<rparr> = (0, st, \<lparr>io_ctx = ctx, io_log = es\<rparr>) \<Longrightarrow> seq_room b \<Longrightarrow>
     tunnel_step (demo_tunnel ctx a b na nb ra wb) (demo_tunnel ctx a st na (nb \<union> udp_of es) ra (wb @ tcp_of es))"
  "redp2p_stream_process_packet env f a \<lparr>io_ctx = ctx, io_log = []\<rparr> = (0, st, \<lparr>io_ctx = ctx, io_log = es\<rparr>) \<Longrightarrow> tcp_of es = [] \<Longrightarrow> f \<in> nb \<Longrightarrow>
     tunnel_step (demo_tunnel ctx a b na nb ra wb) (demo_tunnel ctx st b (na \<union> udp_of es) nb ra wb)"
  "redp2p_stream_process_packet env f b \<lparr>io_ctx = ctx, io_log = []\<rparr> = (0, st, \<lparr>io_ctx = ctx, io_log = es\<rparr>) \<Longrightarrow> f \<in> na \<Longrightarrow>
     tunnel_step (demo_tunnel ctx a b na nb ra wb) (demo_tunnel ctx a st na (nb \<union> udp_of es) ra (wb @ tcp_of es))"
  using tunnel_step.pump [of "demo_tunnel ctx a b na nb ra wb" True env input] tunnel_step.pump [of "demo_tunnel ctx a b na nb ra wb" False env input]
    tunnel_step.tick [of "demo_tunnel ctx a b na nb ra wb" True env] tunnel_step.tick [of "demo_tunnel ctx a b na nb ra wb" False env]
    tunnel_step.packet [of "demo_tunnel ctx a b na nb ra wb" True f env] tunnel_step.packet [of "demo_tunnel ctx a b na nb ra wb" False f env]
  by (simp_all add: demo_settle)

lemma demo_kcp_room:
  "seq_room demo_a0" "seq_room demo_a3" "seq_room demo_a4" "seq_room demo_a7" "seq_room demo_b2" "seq_room demo_b5"
  by (simp_all add: seq_room_def demo_a0_def demo_a1_def demo_a2_def demo_a3_def demo_a4_def demo_a5_def demo_a6_def demo_a7_def demo_b0_def demo_b1_def demo_b2_def demo_b3_def demo_b4_def demo_b5_def demo_conn_def demo_kcp_a3_def demo_kcp_a4_def demo_kcp_a5_def demo_kcp_a6_def demo_kcp_a8_def demo_kcp_b2_def demo_kcp_b3_def demo_kcp_b6_def demo_open_def new_segment_def zero_stream_def)

definition demo_done :: "redp2p \<Rightarrow> tunnel" where
  "demo_done ctx = demo_tunnel ctx demo_a10 demo_b6 {demo_hello, demo_push, demo_close, demo_close_back_ack}
     {demo_hello_ack, demo_ack_frame, demo_close_ack, demo_close_back} [104, 105] [104, 105]"

lemma demo_pumped: "pumped (Data [104, 105]) demo_a2 = [104, 105]" "pumped Eof st = []"
  by (code_simp, simp add: pumped_def)

lemma demo_tunnelled: "tunnelled demo_sid (demo_done ctx)"
proof -
  have "length demo_sid = REDP2P_STREAM_SESSION_ID_SZ" by (simp add: demo_sid_def macros)
  from tunnelled.start [OF this demo_inits(1) demo_inits(2), of ctx ctx]
  have "tunnelled demo_sid (demo_tunnel ctx demo_a0 demo_b0 {} {} [] [])" by (simp add: demo_tunnel_def cong: if_cong)
  from tunnelled.step [OF this demo_steps(3) [OF demo_run_a1 _ demo_kcp_room(1)]]
  have "tunnelled demo_sid (demo_tunnel ctx demo_a1 demo_b0 {demo_hello} {} [] [])" by simp
  from tunnelled.step [OF this demo_steps(6) [OF demo_run_b1]]
  have "tunnelled demo_sid (demo_tunnel ctx demo_a1 demo_b1 {demo_hello} {demo_hello_ack} [] [])" by simp
  from tunnelled.step [OF this demo_steps(5) [OF demo_run_a2]]
  have "tunnelled demo_sid (demo_tunnel ctx demo_a2 demo_b1 {demo_hello} {demo_hello_ack} [] [])" by simp
  from tunnelled.step [OF this demo_steps(1) [OF demo_run_a3]]
  have "tunnelled demo_sid (demo_tunnel ctx demo_a3 demo_b1 {demo_hello} {demo_hello_ack} [104, 105] [])" by (simp add: demo_pumped)
  from tunnelled.step [OF this demo_steps(3) [OF demo_run_a4 _ demo_kcp_room(2)]]
  have "tunnelled demo_sid (demo_tunnel ctx demo_a4 demo_b1 {demo_hello} {demo_hello_ack} [104, 105] [])" by simp
  from tunnelled.step [OF this demo_steps(3) [OF demo_run_a5 _ demo_kcp_room(3)]]
  have "tunnelled demo_sid (demo_tunnel ctx demo_a5 demo_b1 {demo_hello, demo_push} {demo_hello_ack} [104, 105] [])"
    by (simp add: insert_commute)
  from tunnelled.step [OF this demo_steps(6) [OF demo_run_b2]]
  have "tunnelled demo_sid (demo_tunnel ctx demo_a5 demo_b2 {demo_hello, demo_push} {demo_hello_ack} [104, 105] [104, 105])" by simp
  from tunnelled.step [OF this demo_steps(4) [OF demo_run_b3 demo_kcp_room(5)]]
  have "tunnelled demo_sid (demo_tunnel ctx demo_a5 demo_b3 {demo_hello, demo_push} {demo_hello_ack, demo_ack_frame} [104, 105] [104, 105])"
    by (simp add: insert_commute)
  from tunnelled.step [OF this demo_steps(5) [OF demo_run_a6]]
  have "tunnelled demo_sid (demo_tunnel ctx demo_a6 demo_b3 {demo_hello, demo_push} {demo_hello_ack, demo_ack_frame} [104, 105] [104, 105])"
    by simp
  from tunnelled.step [OF this demo_steps(1) [OF demo_run_a7]]
  have "tunnelled demo_sid (demo_tunnel ctx demo_a7 demo_b3 {demo_hello, demo_push} {demo_hello_ack, demo_ack_frame} [104, 105] [104, 105])"
    by (simp add: demo_pumped)
  from tunnelled.step [OF this demo_steps(3) [OF demo_run_a8 _ demo_kcp_room(4)]]
  have "tunnelled demo_sid (demo_tunnel ctx demo_a8 demo_b3 {demo_hello, demo_push, demo_close} {demo_hello_ack, demo_ack_frame}
      [104, 105] [104, 105])" by (simp add: insert_commute)
  from tunnelled.step [OF this demo_steps(6) [OF demo_run_b4]]
  have "tunnelled demo_sid (demo_tunnel ctx demo_a8 demo_b4 {demo_hello, demo_push, demo_close}
      {demo_hello_ack, demo_ack_frame, demo_close_ack} [104, 105] [104, 105])" by (simp add: udp_of_def tcp_of_def insert_commute)
  from tunnelled.step [OF this demo_steps(2) [OF demo_run_b5 demo_pumped(2)]]
  have "tunnelled demo_sid (demo_tunnel ctx demo_a8 demo_b5 {demo_hello, demo_push, demo_close}
      {demo_hello_ack, demo_ack_frame, demo_close_ack} [104, 105] [104, 105])" by simp
  from tunnelled.step [OF this demo_steps(4) [OF demo_run_b6 demo_kcp_room(6)]]
  have "tunnelled demo_sid (demo_tunnel ctx demo_a8 demo_b6 {demo_hello, demo_push, demo_close}
      {demo_hello_ack, demo_ack_frame, demo_close_ack, demo_close_back} [104, 105] [104, 105])" by (simp add: insert_commute)
  from tunnelled.step [OF this demo_steps(5) [OF demo_run_a9]]
  have "tunnelled demo_sid (demo_tunnel ctx demo_a9 demo_b6 {demo_hello, demo_push, demo_close, demo_close_back_ack}
      {demo_hello_ack, demo_ack_frame, demo_close_ack, demo_close_back} [104, 105] [104, 105])"
    by (simp add: udp_of_def tcp_of_def insert_commute)
  from tunnelled.step [OF this demo_steps(5) [OF demo_run_a10]]
  show ?thesis by (simp add: demo_done_def)
qed

lemma demo_ends: "redp2p_stream_is_done demo_a10" "st_remote_close demo_b6"
  by code_simp+

section \<open>The tunnel carries bytes in order\<close>

text \<open>
  C6: The tunnel implements a KCP connection. Whatever the schedule of the two sides, whatever
  datagrams are lost, repeated, reordered or injected from outside the session, and wherever the
  operations fail, there is a KCP connection in a reachable state whose control blocks are the two
  sessions', which has accepted exactly the bytes read from the local sockets; what a side has
  written to its socket is a prefix of what the other side has read from its own.
\<close>

theorem stream_refines_link:
  assumes "tunnelled sid t"
  shows "\<exists>l. linked (redp2p_stream_conv sid) l
    \<and> (\<forall>s. st_kcp (tn_st t s) = Some (ep l s) \<and> tn_read t s = accepted l s \<and> prefix (tn_written t s) (delivered l s)
         \<and> prefix (tn_written t s) (tn_read t (\<not> s)))"
proof -
  obtain l where l: "tunnel_ok sid l t" using tunnelled_ok [OF assms] by blast
  note ts = tunnel_side [OF l]
  have "prefix (tn_written t s) (tn_read t (\<not> s))" for s
    using prefix_order.order_trans [OF ts(3) [of s] linked_prefix [OF ts(7), of s]] ts(2) [of "\<not> s"] by simp
  then show ?thesis using ts(1-3,7) by (intro exI [of _ l]) (auto simp: side_ok_def)
qed

theorem stream_refines_link_witness:
  "tunnelled demo_sid (demo_done demo_ctx) \<and> (\<exists>l. linked (redp2p_stream_conv demo_sid) l
    \<and> (\<forall>s. st_kcp (tn_st (demo_done demo_ctx) s) = Some (ep l s) \<and> tn_read (demo_done demo_ctx) s = accepted l s
         \<and> prefix (tn_written (demo_done demo_ctx) s) (delivered l s)
         \<and> prefix (tn_written (demo_done demo_ctx) s) (tn_read (demo_done demo_ctx) (\<not> s))))"
  using stream_refines_link [OF demo_tunnelled, of demo_ctx] demo_tunnelled by blast

text \<open>
  C7: Closing loses nothing. When a side has marked its peer closed, which is when it shuts its
  socket for writing, it has written every byte the peer ever read, and the peer has read its last.
  When a session is done, both directions are complete.
\<close>

theorem stream_close_lossless:
  assumes "tunnelled sid t" "st_remote_close (tn_st t s) \<or> redp2p_stream_is_done (tn_st t s)"
  shows "tn_written t s = tn_read t (\<not> s) \<and> st_local_eof (tn_st t (\<not> s))
    \<and> (redp2p_stream_is_done (tn_st t s) \<longrightarrow> tn_written t (\<not> s) = tn_read t s)"
proof -
  obtain l where l: "tunnel_ok sid l t" using tunnelled_ok [OF assms(1)] by blast
  note ts = tunnel_side [OF l]
  have "st_remote_close (tn_st t s)" using assms(2) by (auto simp: redp2p_stream_is_done_def)
  moreover have "tn_written t (\<not> s) = tn_read t s" if "redp2p_stream_is_done (tn_st t s)"
    using ts(6) [OF ts(5) [of s]] that by (simp add: redp2p_stream_is_done_def)
  ultimately show ?thesis using ts(6) by blast
qed

theorem stream_close_lossless_witness:
  "tunnelled demo_sid (demo_done demo_ctx) \<and> redp2p_stream_is_done (tn_st (demo_done demo_ctx) True)
   \<and> tn_written (demo_done demo_ctx) True = tn_read (demo_done demo_ctx) False
   \<and> tn_written (demo_done demo_ctx) False = tn_read (demo_done demo_ctx) True"
proof -
  have d: "redp2p_stream_is_done (tn_st (demo_done demo_ctx) True)" using demo_ends(1) by (simp add: demo_done_def)
  then show ?thesis using stream_close_lossless [OF demo_tunnelled, of demo_ctx True] demo_tunnelled by simp
qed

section \<open>Envelopes and waiting\<close>

text \<open>
  The envelope is unambiguous: a datagram is accepted exactly when it is the encoding of a
  well-formed envelope of at most \<^verbatim>\<open>REDP2P_STREAM_KCP_MTU\<close> payload bytes, and then the fields read
  are the ones written; only KCP envelopes carry a payload.
\<close>

theorem stream_envelope_exact:
  "redp2p_stream_unpack f = Some e \<longleftrightarrow>
     f = redp2p_stream_pack (en_type e) (en_role e) proto_tcp (en_session_id e) (en_payload e)
     \<and> valid_type (en_type e) \<and> valid_role (en_role e) \<and> en_protocol e = proto_tcp
     \<and> length (en_session_id e) = REDP2P_STREAM_SESSION_ID_SZ \<and> length (en_payload e) \<le> REDP2P_STREAM_KCP_MTU
     \<and> (en_type e = REDP2P_STREAM_TYPE_KCP \<or> en_payload e = [])"
  by (rule unpack_exact)

text \<open>
  The time a session asks the event loop to wait is at most one second, in every state and at
  every clock reading, wrap-around included.
\<close>

theorem stream_wait_bounded: "redp2p_stream_wait_ms sto now \<le> 1000"
  by (rule wait_ms_bound)

end
