(* ===== verification/Stun.thy ===== *)
theory Stun
  imports Registry
begin

text \<open>
  The STUN client (\<^verbatim>\<open>redp2p_stun_*\<close>): building a binding request, reading the header and the
  attributes of a reply, and the binding exchange that learns the reflexive address of a socket.
  Name resolution, randomness and the socket are parameters of \<open>redp2p_stun_binding\<close>.
\<close>

unbundle bit_operations_syntax

section \<open>Definitions\<close>

definition REDP2P_STUN_MAGIC :: u32 where [macros]: "REDP2P_STUN_MAGIC = 0x2112A442"
definition REDP2P_STUN_ATTR_XOR_MAPPED_ADDR :: int where [macros]: "REDP2P_STUN_ATTR_XOR_MAPPED_ADDR = 0x0020"
definition REDP2P_STUN_BINDING :: int where [macros]: "REDP2P_STUN_BINDING = 0x0001"
definition REDP2P_STUN_BINDING_RESP :: int where [macros]: "REDP2P_STUN_BINDING_RESP = 0x0101"

definition redp2p_stun_put16 :: "byte list \<Rightarrow> nat \<Rightarrow> int \<Rightarrow> byte list" where
  "redp2p_stun_put16 b off v = b[off := word_of_int (v div 256), off + 1 := word_of_int v]"

definition redp2p_stun_len :: "byte list \<Rightarrow> int \<Rightarrow> byte list" where
  "redp2p_stun_len buf off = redp2p_stun_put16 buf 2 (off - 20)"

definition redp2p_stun_gen_id :: "byte list option \<Rightarrow> byte list option" where
  "redp2p_stun_gen_id random = random"

text \<open>The twenty bytes of the header; the offset after it is their number.\<close>

definition redp2p_stun_build :: "int \<Rightarrow> byte list \<Rightarrow> byte list" where
  "redp2p_stun_build mt ident =
     (let buf = redp2p_stun_put16 (replicate 20 0) 0 mt;
          buf = (redp2p_stun_put16 buf 4 0x2112)[6 := 0xA4, 7 := 0x42]
      in take 8 buf @ ident)"

definition byte_int :: "byte list \<Rightarrow> nat \<Rightarrow> int" where
  "byte_int buf i = uint (buf ! i)"

definition get16 :: "byte list \<Rightarrow> nat \<Rightarrow> int" where
  "get16 buf i = byte_int buf i * 256 + byte_int buf (i + 1)"

definition get32 :: "byte list \<Rightarrow> nat \<Rightarrow> u32" where
  "get32 buf i = push_bit 24 (ucast (buf ! i)) OR push_bit 16 (ucast (buf ! (i + 1))) OR push_bit 8 (ucast (buf ! (i + 2))) OR
     ucast (buf ! (i + 3))"

definition redp2p_stun_hdr :: "byte list \<Rightarrow> (int \<times> byte list) option" where
  "redp2p_stun_hdr buf =
     (if length buf < 20 then None
      else if get32 buf 4 \<noteq> REDP2P_STUN_MAGIC then None
      else let msg_len = get16 buf 2
           in if msg_len mod 4 \<noteq> 0 then None
              else if 20 + msg_len > int (length buf) then None
              else Some (get16 buf 0, take 12 (drop 8 buf)))"

text \<open>The offset and length of the first attribute of a type, searched from offset \<open>off\<close>.\<close>

function find_loop :: "byte list \<Rightarrow> int \<Rightarrow> nat \<Rightarrow> (nat \<times> nat) option" where
  "find_loop buf ty off =
     (if off + 4 \<le> length buf
      then let aty = get16 buf off; av = nat (get16 buf (off + 2));
               pad = (if av mod 4 \<noteq> 0 then 4 - av mod 4 else 0)
           in if off + 4 + av > length buf then None
              else if aty = ty then Some (off + 4, av)
              else find_loop buf ty (off + 4 + av + pad)
      else None)"
  by pat_completeness auto
termination by (relation "measure (\<lambda>(buf, ty, off). length buf - off)") auto

declare find_loop.simps [simp del]

definition redp2p_stun_find :: "byte list \<Rightarrow> int \<Rightarrow> (nat \<times> nat) option" where
  "redp2p_stun_find buf ty = find_loop buf ty 20"

definition dotted :: "u32 \<Rightarrow> string" where
  "dotted a = dec_text (unat (drop_bit 24 a AND 0xff)) @ ''.'' @ dec_text (unat (drop_bit 16 a AND 0xff)) @ ''.'' @
     dec_text (unat (drop_bit 8 a AND 0xff)) @ ''.'' @ dec_text (unat (a AND 0xff))"

definition redp2p_stun_rd_xaddr :: "byte list \<Rightarrow> nat \<Rightarrow> nat \<Rightarrow> nat \<Rightarrow> (string \<times> 16 word) option" where
  "redp2p_stun_rd_xaddr buf off al acap =
     (if al < 8 then None
      else if buf ! (off + 1) \<noteq> 1 then None
      else let xp = (word_of_int (get16 buf (off + 2)) :: 16 word); xa = get32 buf (off + 4)
           in Some (take (acap - 1) (dotted (xa XOR REDP2P_STUN_MAGIC)), xp XOR ucast (drop_bit 16 REDP2P_STUN_MAGIC)))"

text \<open>The host and port of a \<^verbatim>\<open>stun:host:port\<close> URL.\<close>

definition parse_stun_url :: "string \<Rightarrow> (string \<times> 16 word) option" where
  "parse_stun_url url =
     (if take 5 url \<noteq> ''stun:'' then None
      else let p = drop 5 url; host = takeWhile (\<lambda>c. c \<noteq> CHR '':'') p; rest = dropWhile (\<lambda>c. c \<noteq> CHR '':'') p
           in if rest = [] \<or> host = [] then None
              else if length host \<ge> 256 then None
              else if tl rest = [] then None
              else case redp2p_parse_u (Some (tl rest)) 1 65535 of
                None \<Rightarrow> None
              | Some lport \<Rightarrow> Some (host, word_of_int lport))"

text \<open>
  \<^verbatim>\<open>getaddrinfo\<close> maps a family hint, a host and a service to the first address it finds.
\<close>

type_synonym getaddrinfo = "family \<Rightarrow> string option \<Rightarrow> string \<Rightarrow> sockaddr_storage option"

definition redp2p_resolve :: "getaddrinfo \<Rightarrow> string option \<Rightarrow> 16 word \<Rightarrow> sockaddr_storage option" where
  "redp2p_resolve gai host port = gai (if host \<noteq> None then AF_UNSPEC else AF_INET6) host (dec_text (unat port))"

record stun_env =
  stun_gai :: getaddrinfo
  stun_random :: "byte list option"
  stun_sendto :: "byte list \<Rightarrow> bool"
  stun_fits :: bool
  stun_recv :: "byte list \<Rightarrow> (byte list \<times> sockaddr_storage) option"

text \<open>The datagram sent is the argument of the reply, \<open>None\<close> when the wait of three seconds ends without one.\<close>

definition redp2p_stun_binding :: "stun_env \<Rightarrow> redp2p \<Rightarrow> nat \<Rightarrow> (string \<times> 16 word) option" where
  "redp2p_stun_binding env ctx out_cap =
     (if stun_url ctx = [] \<or> out_cap = 0 then None
      else case parse_stun_url (stun_url ctx) of
        None \<Rightarrow> None
      | Some (host, port) \<Rightarrow>
          (case redp2p_resolve (stun_gai env) (Some host) port of
             None \<Rightarrow> None
           | Some srv \<Rightarrow>
               if ss_family srv \<noteq> AF_INET then None
               else case redp2p_stun_gen_id (stun_random env) of
                 None \<Rightarrow> None
               | Some tx_id \<Rightarrow>
                   let tx = redp2p_stun_build REDP2P_STUN_BINDING tx_id; tx = redp2p_stun_len tx (int (length tx))
                   in if \<not> stun_sendto env tx \<or> \<not> stun_fits env then None
                      else case stun_recv env tx of
                        None \<Rightarrow> None
                      | Some (reply, from) \<Rightarrow>
                          let rx = take 4096 reply
                          in if length rx < 20 \<or> \<not> redp2p_sockaddr_equal from srv then None
                             else case redp2p_stun_hdr rx of
                               None \<Rightarrow> None
                             | Some (mt, rx_id) \<Rightarrow>
                                 if mt \<noteq> REDP2P_STUN_BINDING_RESP \<or> tx_id \<noteq> rx_id then None
                                 else case redp2p_stun_find rx REDP2P_STUN_ATTR_XOR_MAPPED_ADDR of
                                   None \<Rightarrow> None
                                 | Some (ao, al) \<Rightarrow> redp2p_stun_rd_xaddr rx ao al out_cap))"

section \<open>Replies as servers write them\<close>

text \<open>The layout of RFC 5389: a header and a list of attributes, each padded to four bytes.\<close>

definition enc16 :: "nat \<Rightarrow> byte list" where
  "enc16 n = [of_nat (n div 256), of_nat n]"

definition enc32 :: "u32 \<Rightarrow> byte list" where
  "enc32 a = [ucast (drop_bit 24 a), ucast (drop_bit 16 a), ucast (drop_bit 8 a), ucast a]"

definition enc_attr :: "nat \<times> byte list \<Rightarrow> byte list" where
  "enc_attr a = enc16 (fst a) @ enc16 (length (snd a)) @ snd a @
     replicate (if length (snd a) mod 4 \<noteq> 0 then 4 - length (snd a) mod 4 else 0) 0"

definition stun_reply :: "byte list \<Rightarrow> (nat \<times> byte list) list \<Rightarrow> byte list" where
  "stun_reply ident attrs = enc16 257 @ enc16 (length (concat (map enc_attr attrs))) @ enc32 REDP2P_STUN_MAGIC @ ident @
     concat (map enc_attr attrs)"

definition xor_mapped :: "u32 \<Rightarrow> 16 word \<Rightarrow> byte list" where
  "xor_mapped a port = [0, 1] @ enc16 (unat (port XOR ucast (drop_bit 16 REDP2P_STUN_MAGIC))) @ enc32 (a XOR REDP2P_STUN_MAGIC)"

lemma get16_enc: "n < 65536 \<Longrightarrow> get16 (p @ enc16 n @ r) (length p) = int n"
proof -
  assume n: "n < 65536"
  have "uint (of_nat (n div 256) :: byte) = int (n div 256)" using n by (simp add: uint_word_of_int_eq take_bit_int_eq_self_iff unsigned_of_nat take_bit_nat_eq_self_iff)
  moreover have "uint (of_nat n :: byte) = int (n mod 256)" by (simp add: unsigned_of_nat take_bit_eq_mod zmod_int)
  ultimately show ?thesis
    by (simp add: get16_def byte_int_def enc16_def nth_append) (metis div_mult_mod_eq mult.commute of_nat_add of_nat_mult of_nat_numeral)
qed

lemma get32_enc: "get32 (p @ enc32 a @ r) (length p) = a"
proof (rule bit_word_eqI)
  fix n assume n: "n < LENGTH(32)"
  consider "n < 8" | "8 \<le> n" "n < 16" | "16 \<le> n" "n < 24" | "24 \<le> n" by linarith
  then show "bit (get32 (p @ enc32 a @ r) (length p)) n = bit a n"
    using n by cases (auto simp: get32_def enc32_def nth_append bit_simps)
qed

lemma enc_lengths [simp]: "length (enc16 n) = 2" "length (enc32 a) = 4"
  by (simp_all add: enc16_def enc32_def)

lemma enc_attr_aligned: "length (enc_attr a) mod 4 = 0"
proof -
  have "(length v + (if length v mod 4 \<noteq> 0 then 4 - length v mod 4 else 0)) mod 4 = 0" for v :: "byte list"
    by (auto simp: mod_simps) presburger
  then show ?thesis by (simp add: enc_attr_def add.assoc mod_simps del: add.assoc)
qed

lemma find_step:
  assumes "fst a < 65536" "length (snd a) < 65536"
  shows "find_loop (p @ enc_attr a @ r) ty (length p) =
    (if int (fst a) = ty then Some (length p + 4, length (snd a)) else find_loop (p @ enc_attr a @ r) ty (length p + length (enc_attr a)))"
proof -
  let ?buf = "p @ enc_attr a @ r"
  have t: "get16 ?buf (length p) = int (fst a)" using get16_enc [OF assms(1)] by (simp add: enc_attr_def)
  have v: "get16 ?buf (length p + 2) = int (length (snd a))"
    using get16_enc [OF assms(2), of "p @ enc16 (fst a)"] by (simp add: enc_attr_def)
  have l: "length (enc_attr a) = 4 + length (snd a) + (if length (snd a) mod 4 \<noteq> 0 then 4 - length (snd a) mod 4 else 0)"
    by (simp add: enc_attr_def)
  have n: "nat (int (length (snd a))) = length (snd a)" by simp
  have f: "length p + 4 \<le> length ?buf" "\<not> length p + 4 + length (snd a) > length ?buf" using l by simp_all
  have e: "length p + 4 + length (snd a) + (if length (snd a) mod 4 \<noteq> 0 then 4 - length (snd a) mod 4 else 0) =
      length p + length (enc_attr a)" unfolding l by (simp only: add.assoc)
  show ?thesis
    by (subst find_loop.simps) (simp only: t v n f e Let_def if_True if_False simp_thms)
qed

lemma find_first:
  assumes "\<forall>a \<in> set pre. fst a \<noteq> ty \<and> fst a < 65536 \<and> length (snd a) < 65536" "ty < 65536" "length v < 65536"
  shows "find_loop (p @ concat (map enc_attr (pre @ (ty, v) # post))) (int ty) (length p) =
    Some (length p + length (concat (map enc_attr pre)) + 4, length v)"
  using assms(1)
proof (induction pre arbitrary: p)
  case Nil
  then show ?case using find_step [of "(ty, v)" p "concat (map enc_attr post)" "int ty"] assms(2,3) by simp
next
  case (Cons a pre)
  have "find_loop (p @ concat (map enc_attr ((a # pre) @ (ty, v) # post))) (int ty) (length p) =
      find_loop ((p @ enc_attr a) @ concat (map enc_attr (pre @ (ty, v) # post))) (int ty) (length (p @ enc_attr a))"
    using find_step [of a p "concat (map enc_attr (pre @ (ty, v) # post))" "int ty"] Cons.prems by simp
  also have "\<dots> = Some (length (p @ enc_attr a) + length (concat (map enc_attr pre)) + 4, length v)"
    by (rule Cons.IH) (use Cons.prems in simp)
  finally show ?case by (simp add: add.assoc)
qed

lemma concat_aligned: "length (concat (map enc_attr attrs)) mod 4 = 0"
  by (induction attrs) (simp_all add: enc_attr_aligned mod_add_eq [of "length (enc_attr _)", symmetric] del: length_concat)

lemma rd_xaddr_enc:
  assumes "3 \<le> acap"
  shows "redp2p_stun_rd_xaddr (p @ xor_mapped a port @ extra @ r) (length p) (length (xor_mapped a port @ extra)) acap =
    Some (take (acap - 1) (dotted a), port)"
proof -
  let ?x = "port XOR ucast (drop_bit 16 REDP2P_STUN_MAGIC)"
  let ?buf = "p @ xor_mapped a port @ extra @ r"
  have "get16 ((p @ [0, 1]) @ enc16 (unat ?x) @ enc32 (a XOR REDP2P_STUN_MAGIC) @ extra @ r) (length (p @ [0, 1])) = int (unat ?x)"
    by (rule get16_enc) (use unsigned_less [of ?x, where 'a = nat] in simp)
  then have 1: "word_of_int (get16 ?buf (length p + 2)) = ?x" by (simp add: xor_mapped_def)
  have "get32 ((p @ [0, 1] @ enc16 (unat ?x)) @ enc32 (a XOR REDP2P_STUN_MAGIC) @ extra @ r) (length (p @ [0, 1] @ enc16 (unat ?x))) =
      a XOR REDP2P_STUN_MAGIC"
    by (rule get32_enc)
  then have 2: "get32 ?buf (length p + 4) = a XOR REDP2P_STUN_MAGIC" by (simp add: xor_mapped_def)
  have 3: "?buf ! (length p + 1) = 1" by (simp add: xor_mapped_def nth_append)
  show ?thesis
    unfolding redp2p_stun_rd_xaddr_def 1 2 3 Let_def by (simp add: xor_mapped_def xor.assoc)
qed

lemma hdr_reply:
  assumes "length ident = 12" "length (concat (map enc_attr attrs)) < 65536"
  shows "redp2p_stun_hdr (stun_reply ident attrs) = Some (257, ident)"
proof -
  let ?b = "concat (map enc_attr attrs)"
  have 1: "get16 (stun_reply ident attrs) 0 = 257"
    using get16_enc [of 257 "[]"] by (simp add: stun_reply_def)
  have 2: "get16 (stun_reply ident attrs) 2 = int (length ?b)"
    using get16_enc [OF assms(2), of "enc16 257"] by (simp add: stun_reply_def del: length_concat)
  have 3: "get32 (stun_reply ident attrs) 4 = REDP2P_STUN_MAGIC"
    using get32_enc [of "enc16 257 @ enc16 (length ?b)"] by (simp add: stun_reply_def del: length_concat)
  have 4: "take 12 (drop 8 (stun_reply ident attrs)) = ident" using assms(1) by (simp add: stun_reply_def del: length_concat)
  have 5: "int (length ?b) mod 4 = 0" using arg_cong [OF concat_aligned [of attrs], of int] by (simp only: zmod_int of_nat_numeral of_nat_0)
  have 6: "length (stun_reply ident attrs) = 20 + length ?b" using assms(1) by (simp add: stun_reply_def del: length_concat)
  show ?thesis unfolding redp2p_stun_hdr_def 1 2 3 4 6 Let_def by (simp add: 5 del: length_concat)
qed

definition stun_request :: "byte list \<Rightarrow> byte list" where
  "stun_request ident = enc16 1 @ enc16 0 @ enc32 REDP2P_STUN_MAGIC @ ident"

lemma request_eq:
  assumes "length ident = 12"
  shows "redp2p_stun_len (redp2p_stun_build REDP2P_STUN_BINDING ident)
    (int (length (redp2p_stun_build REDP2P_STUN_BINDING ident))) = stun_request ident"
proof -
  let ?h = "[0, 1, 0, 0, 0x21, 0x12, 0xA4, 0x42] :: byte list"
  have "take 8 ((redp2p_stun_put16 (redp2p_stun_put16 (replicate 20 0) 0 1) 4 0x2112)[6 := 0xA4, 7 := 0x42]) = ?h" by code_simp
  then have b: "redp2p_stun_build REDP2P_STUN_BINDING ident = ?h @ ident"
    unfolding redp2p_stun_build_def REDP2P_STUN_BINDING_def Let_def by simp
  have "enc16 1 @ enc16 0 @ enc32 REDP2P_STUN_MAGIC = ?h" by code_simp
  then have r: "stun_request ident = ?h @ ident" unfolding stun_request_def by (metis append.assoc)
  show ?thesis unfolding b r using assms by (simp add: redp2p_stun_len_def redp2p_stun_put16_def)
qed

lemma dotted_length: "length (dotted a) \<le> 15"
proof -
  have b: "length (dec_text (unat (x AND 0xff))) \<le> 3" for x :: u32
  proof (rule length_dec_text_le)
    have "x AND 0xff \<le> 0xff" by (rule word_and_le1)
    then show "unat (x AND 0xff) < 10 ^ 3" by (simp add: word_le_nat_alt)
  qed simp
  show ?thesis unfolding dotted_def
    using b [of "drop_bit 24 a"] b [of "drop_bit 16 a"] b [of "drop_bit 8 a"] b [of a] by simp
qed

section \<open>The binding exchange\<close>

text \<open>
  C25: The reflexive address is learned: when the URL names a server that resolves to an IPv4
  address and the server answers the request with a binding response that carries the request's
  transaction identifier and, after any other attributes, an XOR-mapped address of the socket, the
  exchange returns exactly that address, in dotted form, and that port. Any other attributes, any
  padding and any bytes after the first eight of the attribute make no difference.
\<close>

theorem stun_binding_roundtrip:
  assumes "parse_stun_url (stun_url ctx) = Some (host, srv_port)" "redp2p_resolve (stun_gai env) (Some host) srv_port = Some srv" "ss_family srv = AF_INET"
    "stun_random env = Some ident" "length ident = 12" "stun_sendto env (stun_request ident)" "stun_fits env"
    "stun_recv env (stun_request ident) = Some (stun_reply ident (pre @ (32, xor_mapped a port @ extra) # post), srv)"
    "\<forall>b \<in> set pre. fst b \<noteq> 32 \<and> fst b < 65536 \<and> length (snd b) < 65536" "length extra < 60000"
    "length (stun_reply ident (pre @ (32, xor_mapped a port @ extra) # post)) \<le> 4096" "16 \<le> out_cap"
  shows "redp2p_stun_binding env ctx out_cap = Some (dotted a, port)"
proof -
  let ?attrs = "pre @ (32, xor_mapped a port @ extra) # post"
  let ?rx = "stun_reply ident ?attrs"
  let ?head = "enc16 257 @ enc16 (length (concat (map enc_attr ?attrs))) @ enc32 REDP2P_STUN_MAGIC @ ident"
  let ?off = "20 + length (concat (map enc_attr pre)) + 4"
  let ?v = "xor_mapped a port @ extra"
  have tx: "redp2p_stun_len (redp2p_stun_build REDP2P_STUN_BINDING ident) (int (length (redp2p_stun_build REDP2P_STUN_BINDING ident))) =
      stun_request ident"
    using assms(5) by (rule request_eq)
  have lh: "length ?head = 20" using assms(5) by simp
  have rx: "?rx = ?head @ concat (map enc_attr ?attrs)" by (simp add: stun_reply_def)
  have size: "20 + length (concat (map enc_attr ?attrs)) \<le> 4096" using assms(11) lh unfolding rx length_append by linarith
  have hdr: "redp2p_stun_hdr ?rx = Some (257, ident)" by (rule hdr_reply [OF assms(5)]) (use size in linarith)
  have find: "redp2p_stun_find ?rx REDP2P_STUN_ATTR_XOR_MAPPED_ADDR = Some (?off, length ?v)"
    using find_first [OF assms(9), of ?v ?head post] assms(10) lh unfolding rx redp2p_stun_find_def
    by (simp add: macros xor_mapped_def del: map_append concat_append)
  have body: "?rx = (?head @ concat (map enc_attr pre) @ enc16 32 @ enc16 (length ?v)) @ xor_mapped a port @ extra @
      (replicate (if length ?v mod 4 \<noteq> 0 then 4 - length ?v mod 4 else 0) 0 @ concat (map enc_attr post))"
    unfolding rx by (simp add: enc_attr_def)
  have "length (?head @ concat (map enc_attr pre) @ enc16 32 @ enc16 (length ?v)) = ?off" using lh by (simp del: length_concat)
  then have addr: "redp2p_stun_rd_xaddr ?rx ?off (length ?v) out_cap = Some (take (out_cap - 1) (dotted a), port)"
    using rd_xaddr_enc [of out_cap "?head @ concat (map enc_attr pre) @ enc16 32 @ enc16 (length ?v)" a port extra] assms(12)
    unfolding body by simp
  have all: "take (out_cap - 1) (dotted a) = dotted a" using dotted_length [of a] assms(12) by simp
  have url: "stun_url ctx \<noteq> []" using assms(1) by (auto simp: parse_stun_url_def)
  have same: "redp2p_sockaddr_equal srv srv" using assms(3) by (cases srv) (simp_all add: redp2p_sockaddr_equal_def)
  have short: "take 4096 ?rx = ?rx" "\<not> length ?rx < 20" using assms(11) lh rx by simp_all
  show ?thesis
    unfolding redp2p_stun_binding_def
    using assms(12) url
    by (simp only: assms(1-8) option.case prod.case redp2p_stun_gen_id_def tx Let_def short same hdr find addr all if_True if_False simp_thms REDP2P_STUN_BINDING_RESP_def) simp
qed

definition demo_stun :: stun_env where
  "demo_stun =
     \<lparr>stun_gai = (\<lambda>_ host service. if host = Some ''stun.example'' \<and> service = ''3478'' then Some (SA_in 3478 0x01020304) else None),
      stun_random = Some [1, 2, 3, 4, 5, 6, 7, 8, 9, 10, 11, 12], stun_sendto = (\<lambda>_. True), stun_fits = True,
      stun_recv = (\<lambda>req. Some (stun_reply (drop 8 req)
        [(0x8022, [65, 66, 67]), (32, xor_mapped 0xCB007107 40001), (1, [])], SA_in 3478 0x01020304))\<rparr>"

theorem stun_binding_roundtrip_witness:
  "redp2p_stun_binding demo_stun (demo_ctx\<lparr>stun_url := ''stun:stun.example:3478''\<rparr>) 64 = Some (''203.0.113.7'', 40001)"
proof -
  let ?id = "[1, 2, 3, 4, 5, 6, 7, 8, 9, 10, 11, 12] :: byte list"
  have r: "drop 8 (stun_request ?id) = ?id" by (simp add: stun_request_def enc16_def enc32_def)
  have l: "length (stun_reply ?id ([(0x8022, [65, 66, 67])] @ (32, xor_mapped 0xCB007107 40001 @ []) # [(1, [])])) \<le> 4096"
    by (simp add: stun_reply_def enc_attr_def xor_mapped_def)
  have u: "parse_stun_url ''stun:stun.example:3478'' = Some (''stun.example'', 3478)" by code_simp
  have d: "dec_text (unat (3478 :: 16 word)) = ''3478''" by (simp add: dec_text.simps) (simp add: char_of_def bit_simps)
  have "redp2p_stun_binding demo_stun (demo_ctx\<lparr>stun_url := ''stun:stun.example:3478''\<rparr>) 64 = Some (dotted 0xCB007107, 40001)"
    by (rule stun_binding_roundtrip [where host = "''stun.example''" and srv_port = 3478 and srv = "SA_in 3478 0x01020304" and ident = ?id
          and pre = "[(0x8022, [65, 66, 67])]" and extra = "[]" and post = "[(1, [])]"])
      (use u l d in \<open>simp_all add: demo_stun_def redp2p_resolve_def r\<close>)
  moreover have "dotted 0xCB007107 = ''203.0.113.7''" by code_simp
  ultimately show ?thesis by simp
qed

end
