(* ===== verification/Punch.thy ===== *)
theory Punch
  imports Registry
begin

text \<open>
  UDP hole punching (\<^verbatim>\<open>redp2p_punch_*\<close>). The network is a script of events, one per
  \<^verbatim>\<open>select\<close>; the monotonic clock is a function of the number of readings. What was sent
  and the counters of the source are the state the operations pass along.
\<close>

section \<open>Definitions\<close>

definition REDP2P_PUNCH_DIRECT_ROUNDS :: nat where [macros]: "REDP2P_PUNCH_DIRECT_ROUNDS = 3"
definition REDP2P_PUNCH_DIRECT_WAIT_MS :: u64 where [macros]: "REDP2P_PUNCH_DIRECT_WAIT_MS = 500"
definition REDP2P_PUNCH_SWEEP_WAIT_MS :: u64 where [macros]: "REDP2P_PUNCH_SWEEP_WAIT_MS = 20"
definition REDP2P_PUNCH_TOTAL_MS :: u64 where [macros]: "REDP2P_PUNCH_TOTAL_MS = 4000"

text \<open>
  A \<^verbatim>\<open>select\<close> ends without a readable descriptor, or the \<^verbatim>\<open>recvfrom\<close> after it fails or
  delivers a datagram.
\<close>

datatype punch_event = Quiet | Recv_failed | Datagram string sockaddr_storage

record punch_io =
  readings :: nat
  pending :: "punch_event list"
  sent :: "(sockaddr_storage \<times> string) list"
  waits :: "32 word list"
  malformed :: nat
  mismatched :: nat
  unsupported :: nat

record punch_env =
  p_net :: inet_ops
  p_clock :: "nat \<Rightarrow> u64"
  p_fits :: bool
  p_sendto :: "sockaddr_storage \<Rightarrow> string \<Rightarrow> bool"

definition redp2p_now_ms :: "punch_env \<Rightarrow> punch_io \<Rightarrow> u64 \<times> punch_io" where
  "redp2p_now_ms env io = (p_clock env (readings io), io\<lparr>readings := readings io + 1\<rparr>)"

definition redp2p_sendto_addr :: "punch_env \<Rightarrow> string \<Rightarrow> sockaddr_storage \<Rightarrow> punch_io \<Rightarrow> bool \<times> punch_io" where
  "redp2p_sendto_addr env buf addr io =
     (if redp2p_sockaddr_len addr = 0 then (False, io)
      else (p_sendto env addr buf, io\<lparr>sent := sent io @ [(addr, buf)]\<rparr>))"

definition redp2p_punch_send_candidate ::
  "punch_env \<Rightarrow> redp2p_candidate_t \<Rightarrow> string \<Rightarrow> punch_io \<Rightarrow> nat \<times> punch_io" where
  "redp2p_punch_send_candidate env candidate ping_msg io =
     (case redp2p_candidate_sockaddr (p_net env) candidate of
        None \<Rightarrow> (0, io\<lparr>unsupported := unsupported io + 1\<rparr>)
      | Some cand_sa \<Rightarrow>
          if redp2p_sockaddr_len cand_sa = 0 then (0, io\<lparr>unsupported := unsupported io + 1\<rparr>)
          else (if p_sendto env cand_sa ping_msg then 1 else 0, io\<lparr>sent := sent io @ [(cand_sa, ping_msg)]\<rparr>))"

text \<open>The text \<^verbatim>\<open>recvfrom\<close> leaves in the buffer of 1024 bytes: up to 1023 bytes, read as a C string.\<close>

definition recv_text :: "string \<Rightarrow> string" where
  "recv_text d = c_str (take 1023 d)"

datatype reading = Malformed | Mismatch | Ping | Pong

definition read_punch :: "string \<Rightarrow> string \<Rightarrow> string \<Rightarrow> string \<Rightarrow> reading" where
  "read_punch session_id from_id to_id recv_buf =
     (case redp2p_parse_punch_packet recv_buf REDP2P_CTRTOK_PUNCH_PONG of
        Some (rx_sess, rx_from, rx_to) \<Rightarrow>
          if rx_from = from_id \<and> rx_to = to_id \<and> rx_sess = session_id then Pong else Mismatch
      | None \<Rightarrow>
          (case redp2p_parse_punch_packet recv_buf REDP2P_CTRTOK_PUNCH_PING of
             Some (rx_sess, rx_from, rx_to) \<Rightarrow>
               if rx_from = to_id \<and> rx_to = from_id \<and> rx_sess = session_id then Ping else Mismatch
           | None \<Rightarrow> Malformed))"

text \<open>The loop consumes one event per round, so it recurses on the script; an empty script is a quiet network.\<close>

fun wait_loop ::
  "punch_env \<Rightarrow> string \<Rightarrow> string \<Rightarrow> string \<Rightarrow> u64 \<Rightarrow> punch_event list \<Rightarrow> punch_io \<Rightarrow> int \<times> sockaddr_storage option \<times> punch_io" where
  "wait_loop env session_id from_id to_id wait_deadline_ms evs io =
     (let (now, io) = redp2p_now_ms env io
      in if \<not> now < wait_deadline_ms then (REDP2P_ETIMEOUT, None, io\<lparr>pending := evs\<rparr>)
         else let (now, io) = redp2p_now_ms env io; remaining_ms = ucast (wait_deadline_ms - now)
              in if \<not> p_fits env then (REDP2P_ENET, None, io\<lparr>pending := evs\<rparr>)
                 else let io = io\<lparr>waits := waits io @ [remaining_ms]\<rparr>
                      in case evs of
                        [] \<Rightarrow> (REDP2P_ETIMEOUT, None, io\<lparr>pending := []\<rparr>)
                      | Quiet # rest \<Rightarrow> (REDP2P_ETIMEOUT, None, io\<lparr>pending := rest\<rparr>)
                      | Recv_failed # rest \<Rightarrow> wait_loop env session_id from_id to_id wait_deadline_ms rest io
                      | Datagram d src_addr # rest \<Rightarrow>
                          if take 1023 d = [] then wait_loop env session_id from_id to_id wait_deadline_ms rest io
                          else (case read_punch session_id from_id to_id (recv_text d) of
                                  Malformed \<Rightarrow> wait_loop env session_id from_id to_id wait_deadline_ms rest
                                    (io\<lparr>malformed := malformed io + 1\<rparr>)
                                | Mismatch \<Rightarrow> wait_loop env session_id from_id to_id wait_deadline_ms rest
                                    (io\<lparr>mismatched := mismatched io + 1\<rparr>)
                                | Pong \<Rightarrow> (REDP2P_OK, Some src_addr, io\<lparr>pending := rest\<rparr>)
                                | Ping \<Rightarrow> (REDP2P_OK, Some src_addr, io\<lparr>pending := rest,
                                    sent := sent io @ [(src_addr, punch_message REDP2P_CTRTOK_PUNCH_PONG session_id to_id from_id)]\<rparr>)))"

declare wait_loop.simps [simp del]

definition redp2p_punch_wait_response ::
  "punch_env \<Rightarrow> string \<Rightarrow> string \<Rightarrow> string \<Rightarrow> u64 \<Rightarrow> u64 \<Rightarrow> punch_io \<Rightarrow> int \<times> sockaddr_storage option \<times> punch_io" where
  "redp2p_punch_wait_response env session_id from_id to_id wait_ms deadline_ms io =
     (let (now, io) = redp2p_now_ms env io;
          wait_deadline_ms = now + wait_ms;
          wait_deadline_ms = (if wait_deadline_ms > deadline_ms then deadline_ms else wait_deadline_ms)
      in wait_loop env session_id from_id to_id wait_deadline_ms (pending io) io)"

definition direct :: "redp2p_candidate_t \<Rightarrow> bool" where
  "direct c \<longleftrightarrow> cand_priority c < 300"

fun send_direct :: "punch_env \<Rightarrow> string \<Rightarrow> redp2p_candidate_t list \<Rightarrow> nat \<times> punch_io \<Rightarrow> nat \<times> punch_io" where
  "send_direct env ping_msg [] (n, io) = (n, io)"
| "send_direct env ping_msg (c # cs) (n, io) =
     (if \<not> direct c then send_direct env ping_msg cs (n, io)
      else let (k, io) = redp2p_punch_send_candidate env c ping_msg io in send_direct env ping_msg cs (n + k, io))"

text \<open>The rounds of direct packets: the selected address, if one answers, and the number of packets sent.\<close>

fun direct_rounds ::
  "punch_env \<Rightarrow> string \<Rightarrow> string \<Rightarrow> string \<Rightarrow> string \<Rightarrow> redp2p_candidate_t list \<Rightarrow> u64 \<Rightarrow> nat \<Rightarrow> nat \<times> punch_io
     \<Rightarrow> sockaddr_storage option \<times> nat \<times> punch_io" where
  "direct_rounds env session_id from_id to_id ping_msg cs deadline_ms 0 (n, io) = (None, n, io)"
| "direct_rounds env session_id from_id to_id ping_msg cs deadline_ms (Suc i) (n, io) =
     (let (n, io) = send_direct env ping_msg cs (n, io)
      in case redp2p_punch_wait_response env session_id from_id to_id REDP2P_PUNCH_DIRECT_WAIT_MS deadline_ms io of
           (rc, found, io) \<Rightarrow>
             if rc = REDP2P_OK then (found, n, io)
             else direct_rounds env session_id from_id to_id ping_msg cs deadline_ms i (n, io))"

text \<open>The port a sweep tries next to a candidate's own: only IPv4 addresses seen from outside have neighbours.\<close>

definition sweep_target :: "punch_env \<Rightarrow> int \<Rightarrow> redp2p_candidate_t \<Rightarrow> sockaddr_storage option" where
  "sweep_target env offset c =
     (case redp2p_candidate_sockaddr (p_net env) c of
        None \<Rightarrow> None
      | Some exact_sa \<Rightarrow>
          if ss_family exact_sa \<noteq> AF_INET then None
          else if cand_type c \<noteq> CAND_SRFLX \<and> cand_type c \<noteq> CAND_PUBLIC then None
          else let test_port = uint (cand_port c) + offset
               in if test_port \<le> 0 \<or> test_port > 65535 then None
                  else redp2p_sockaddr_set_port exact_sa (word_of_int test_port))"

fun send_sweep :: "punch_env \<Rightarrow> string \<Rightarrow> int \<Rightarrow> redp2p_candidate_t list \<Rightarrow> nat \<times> punch_io \<Rightarrow> nat \<times> punch_io" where
  "send_sweep env ping_msg offset [] (n, io) = (n, io)"
| "send_sweep env ping_msg offset (c # cs) (n, io) =
     (let (k, io) = redp2p_punch_send_candidate env c ping_msg io; n = n + k
      in case sweep_target env offset c of
           None \<Rightarrow> send_sweep env ping_msg offset cs (n, io)
         | Some exact_sa \<Rightarrow>
             let (ok, io) = redp2p_sendto_addr env ping_msg exact_sa io
             in send_sweep env ping_msg offset cs (if ok then n + 1 else n, io))"

text \<open>
  The two nested loops of the sweep try the offsets \<open>-1, 1, -2, 2, \<dots>\<close>. Both loop conditions
  read the clock: before the negative offset the outer and then the inner one, before the positive
  one the inner one alone; when the inner loop ends on the clock, the outer condition is read once more.
\<close>

fun sweep_inner ::
  "punch_env \<Rightarrow> string \<Rightarrow> string \<Rightarrow> string \<Rightarrow> string \<Rightarrow> redp2p_candidate_t list \<Rightarrow> u64 \<Rightarrow> int list \<Rightarrow> nat \<times> punch_io
     \<Rightarrow> sockaddr_storage option \<times> nat \<times> punch_io" where
  "sweep_inner env session_id from_id to_id ping_msg cs deadline_ms [] (n, io) = (None, n, io)"
| "sweep_inner env session_id from_id to_id ping_msg cs deadline_ms (offset # offsets) (n, io) =
     (let (now, io) = redp2p_now_ms env io
      in if \<not> now < deadline_ms then (None, n, io)
         else let (n, io) = send_sweep env ping_msg offset cs (n, io)
              in case redp2p_punch_wait_response env session_id from_id to_id REDP2P_PUNCH_SWEEP_WAIT_MS deadline_ms io of
                   (rc, found, io) \<Rightarrow>
                     if rc = REDP2P_OK then (found, n, io)
                     else sweep_inner env session_id from_id to_id ping_msg cs deadline_ms offsets (n, io))"

fun sweep_outer ::
  "punch_env \<Rightarrow> string \<Rightarrow> string \<Rightarrow> string \<Rightarrow> string \<Rightarrow> redp2p_candidate_t list \<Rightarrow> u64 \<Rightarrow> int list \<Rightarrow> nat \<times> punch_io
     \<Rightarrow> sockaddr_storage option \<times> nat \<times> punch_io" where
  "sweep_outer env session_id from_id to_id ping_msg cs deadline_ms [] (n, io) = (None, n, io)"
| "sweep_outer env session_id from_id to_id ping_msg cs deadline_ms (sweep # sweeps) (n, io) =
     (let (now, io) = redp2p_now_ms env io
      in if \<not> now < deadline_ms then (None, n, io)
         else case sweep_inner env session_id from_id to_id ping_msg cs deadline_ms [- sweep, sweep] (n, io) of
           (Some found, n, io) \<Rightarrow> (Some found, n, io)
         | (None, n, io) \<Rightarrow> sweep_outer env session_id from_id to_id ping_msg cs deadline_ms sweeps (n, io))"

definition redp2p_punch_select ::
  "punch_env \<Rightarrow> int \<Rightarrow> string \<Rightarrow> string \<Rightarrow> string \<Rightarrow> redp2p_candidate_t list \<Rightarrow> redp2p \<Rightarrow> punch_io
     \<Rightarrow> int \<times> sockaddr_storage option \<times> redp2p \<times> punch_io" where
  "redp2p_punch_select env sweep_limit session_id from_id to_id remote_candidates ctx io =
     (if remote_candidates = [] then (REDP2P_ERROR, None, redp2p_set_error (Some ''punch: no candidates'') ctx, io)
      else let sweep_limit = (if sweep_limit < 0 then 0 else sweep_limit);
               (now, io) = redp2p_now_ms env io;
               deadline_ms = now + REDP2P_PUNCH_TOTAL_MS;
               io = io\<lparr>malformed := 0, mismatched := 0, unsupported := 0\<rparr>;
               direct_count = length [c \<leftarrow> remote_candidates. direct c];
               ping_msg = punch_message REDP2P_CTRTOK_PUNCH_PING session_id from_id to_id
           in case direct_rounds env session_id from_id to_id ping_msg remote_candidates deadline_ms
                     (if direct_count > 0 then REDP2P_PUNCH_DIRECT_ROUNDS else 0) (0, io) of
                (Some selected, n, io) \<Rightarrow> (REDP2P_OK, Some selected, ctx, io)
              | (None, n, io) \<Rightarrow>
                  (case sweep_outer env session_id from_id to_id ping_msg remote_candidates deadline_ms [1..sweep_limit] (n, io) of
                     (Some selected, n, io) \<Rightarrow> (REDP2P_OK, Some selected, ctx, io)
                   | (None, n, io) \<Rightarrow>
                       if n = 0 then (REDP2P_EPUNCH, None, redp2p_set_error (Some ''punch: no valid peer candidates'') ctx, io)
                       else if malformed io > 0 then (REDP2P_EPUNCH, None, redp2p_set_error (Some ''punch: malformed peer response'') ctx, io)
                       else if mismatched io > 0
                       then (REDP2P_EPUNCH, None, redp2p_set_error (Some ''punch: peer session identity mismatch'') ctx, io)
                       else if unsupported io > 0
                       then (REDP2P_EPUNCH, None, redp2p_set_error (Some ''punch: peer address family unsupported'') ctx, io)
                       else let (now, io) = redp2p_now_ms env io
                            in if now \<ge> deadline_ms
                               then (REDP2P_EPUNCH, None, redp2p_set_error (Some ''punch: direct connectivity timed out'') ctx, io)
                               else (REDP2P_EPUNCH, None, redp2p_set_error (Some ''punch: direct connectivity attempts exhausted'') ctx, io)))"

section \<open>What a run sends and selects\<close>

text \<open>
  A step that selects nothing adds packets that satisfy \<open>P\<close>; a step that selects an address
  has read there a packet of the session, and adds the pong that answers a ping.
\<close>

definition quiet_step :: "(sockaddr_storage \<times> string \<Rightarrow> bool) \<Rightarrow> punch_io \<Rightarrow> punch_io \<Rightarrow> bool" where
  "quiet_step P io io' \<longleftrightarrow> (\<exists>out. sent io' = sent io @ out \<and> list_all P out) \<and> set (pending io') \<subseteq> set (pending io)"

definition answer :: "string \<Rightarrow> string \<Rightarrow> string \<Rightarrow> punch_event list \<Rightarrow> sockaddr_storage \<Rightarrow> (sockaddr_storage \<times> string) list \<Rightarrow> bool" where
  "answer s f t evs a out \<longleftrightarrow> (\<exists>d. Datagram d a \<in> set evs \<and>
     (read_punch s f t (recv_text d) = Pong \<and> out = [] \<or>
      read_punch s f t (recv_text d) = Ping \<and> out = [(a, punch_message REDP2P_CTRTOK_PUNCH_PONG s t f)]))"

definition found_step ::
  "string \<Rightarrow> string \<Rightarrow> string \<Rightarrow> (sockaddr_storage \<times> string \<Rightarrow> bool) \<Rightarrow> punch_io \<Rightarrow> sockaddr_storage \<Rightarrow> punch_io \<Rightarrow> bool" where
  "found_step s f t P io a io' \<longleftrightarrow>
     (\<exists>out reply. sent io' = sent io @ out @ reply \<and> list_all P out \<and> answer s f t (pending io) a reply)"

definition outcome ::
  "string \<Rightarrow> string \<Rightarrow> string \<Rightarrow> (sockaddr_storage \<times> string \<Rightarrow> bool) \<Rightarrow> punch_io \<Rightarrow> sockaddr_storage option \<Rightarrow> punch_io \<Rightarrow> bool" where
  "outcome s f t P io found io' \<longleftrightarrow>
     (case found of None \<Rightarrow> quiet_step P io io' | Some a \<Rightarrow> found_step s f t P io a io')"

lemma quiet_step_refl: "sent io' = sent io \<Longrightarrow> pending io' = pending io \<Longrightarrow> quiet_step P io io'"
  by (simp add: quiet_step_def)

lemma quiet_send: "sent io' = sent io @ out \<Longrightarrow> pending io' = pending io \<Longrightarrow> list_all P out \<Longrightarrow> quiet_step P io io'"
  by (simp add: quiet_step_def)

lemma quiet_step_trans: "quiet_step P io io1 \<Longrightarrow> quiet_step P io1 io2 \<Longrightarrow> quiet_step P io io2"
  by (auto simp: quiet_step_def list_all_append)

lemma answer_mono: "answer s f t evs a out \<Longrightarrow> set evs \<subseteq> set evs' \<Longrightarrow> answer s f t evs' a out"
  by (auto simp: answer_def)

lemma quiet_outcome: "quiet_step P io io1 \<Longrightarrow> outcome s f t P io1 found io2 \<Longrightarrow> outcome s f t P io found io2"
proof (cases found)
  case (Some a)
  assume q: "quiet_step P io io1" and o: "outcome s f t P io1 found io2"
  obtain out where 1: "sent io1 = sent io @ out" "list_all P out" "set (pending io1) \<subseteq> set (pending io)"
    using q by (auto simp: quiet_step_def)
  obtain out' reply where 2: "sent io2 = sent io1 @ out' @ reply" "list_all P out'" "answer s f t (pending io1) a reply"
    using o Some by (auto simp: outcome_def found_step_def)
  have "sent io2 = sent io @ (out @ out') @ reply \<and> list_all P (out @ out') \<and> answer s f t (pending io) a reply"
    using 1 2 answer_mono by (auto simp: list_all_append)
  then show ?thesis unfolding outcome_def found_step_def Some option.case by blast
qed (auto simp: outcome_def intro: quiet_step_trans)

lemma now_fields [simp]:
  "fst (redp2p_now_ms env io) = p_clock env (readings io)"
  "snd (redp2p_now_ms env io) = io\<lparr>readings := readings io + 1\<rparr>"
  by (simp_all add: redp2p_now_ms_def)

text \<open>Events that do not end the wait, and the answer of one that does.\<close>

fun skipped :: "string \<Rightarrow> string \<Rightarrow> string \<Rightarrow> punch_event \<Rightarrow> bool" where
  "skipped s f t Quiet = False"
| "skipped s f t Recv_failed = True"
| "skipped s f t (Datagram d a) = (d = [] \<or> read_punch s f t (recv_text d) \<in> {Malformed, Mismatch})"

lemma wait_skipped:
  assumes "p_clock env (readings io) < dl" "p_fits env" "skipped s f t e"
  shows "\<exists>io2. wait_loop env s f t dl (e # rest) io = wait_loop env s f t dl rest io2 \<and> sent io2 = sent io \<and>
    readings io2 = readings io + 2 \<and> pending io2 = pending io"
proof (cases e)
  case (Datagram d a)
  then show ?thesis
    using assms by (cases "read_punch s f t (recv_text d)") (auto simp: wait_loop.simps [of _ _ _ _ _ "_ # _"] redp2p_now_ms_def Let_def
        intro!: exI [where x = "_ :: punch_io"] conjI refl)
next
  case Recv_failed
  then show ?thesis using assms by (auto simp: wait_loop.simps [of _ _ _ _ _ "_ # _"] redp2p_now_ms_def Let_def
        intro!: exI [where x = "_ :: punch_io"] conjI refl)
qed (use assms in simp)

lemma wait_answer:
  assumes "p_clock env (readings io) < dl" "p_fits env" "d \<noteq> []" "read_punch s f t (recv_text d) \<in> {Ping, Pong}"
  shows "\<exists>io2. wait_loop env s f t dl (Datagram d a # rest) io = (REDP2P_OK, Some a, io2) \<and> pending io2 = rest \<and>
    sent io2 = sent io @ (if read_punch s f t (recv_text d) = Ping then [(a, punch_message REDP2P_CTRTOK_PUNCH_PONG s t f)] else [])"
  using assms by (cases "read_punch s f t (recv_text d)") (auto simp: wait_loop.simps [of _ _ _ _ _ "_ # _"] redp2p_now_ms_def)

lemma wait_ends:
  assumes "\<not> p_clock env (readings io) < dl \<or> \<not> p_fits env \<or> evs = [] \<or> hd evs = Quiet"
  shows "\<exists>rc io2. wait_loop env s f t dl evs io = (rc, None, io2) \<and> rc \<noteq> REDP2P_OK \<and> sent io2 = sent io \<and>
    set (pending io2) \<subseteq> set evs"
  using assms
  by (cases evs; cases "hd evs")
    (simp_all (no_asm_simp) add: wait_loop.simps [of _ _ _ _ _ "[]"] wait_loop.simps [of _ _ _ _ _ "_ # _"] redp2p_now_ms_def macros Let_def,
      auto simp: macros)

lemma event_cases:
  obtains "e = Quiet" | "skipped s f t e" | d a where "e = Datagram d a" "d \<noteq> []" "read_punch s f t (recv_text d) \<in> {Ping, Pong}"
  by (cases e) (simp_all, metis insertCI reading.exhaust)

lemma wait_loop_outcome:
  assumes "wait_loop env s f t dl evs io = (rc, found, io')" "set evs \<subseteq> set (pending io)"
  shows "(rc = REDP2P_OK \<longleftrightarrow> found \<noteq> None) \<and> outcome s f t P io found io'"
  using assms
proof (induction evs arbitrary: io)
  case Nil
  then show ?case using wait_ends [of env io dl "[]" s f t] by (auto simp: outcome_def quiet_step_def)
next
  case (Cons e rest)
  show ?case
  proof (cases "\<not> p_clock env (readings io) < dl \<or> \<not> p_fits env \<or> e = Quiet")
    case True
    then show ?thesis using Cons.prems wait_ends [of env io dl "e # rest" s f t] by (auto simp: outcome_def quiet_step_def)
  next
    case False
    then have c: "p_clock env (readings io) < dl" "p_fits env" "e \<noteq> Quiet" by auto
    show ?thesis
    proof (rule event_cases [where e = e and s = s and f = f and t = t])
      assume "skipped s f t e"
      from wait_skipped [OF c(1,2) this] obtain io2
        where 2: "wait_loop env s f t dl (e # rest) io = wait_loop env s f t dl rest io2" "sent io2 = sent io" "pending io2 = pending io"
        by blast
      have "(rc = REDP2P_OK \<longleftrightarrow> found \<noteq> None) \<and> outcome s f t P io2 found io'"
        by (rule Cons.IH) (use Cons.prems 2 in auto)
      then show ?thesis using quiet_outcome [OF quiet_step_refl [OF 2(2,3)]] by blast
    next
      fix d a
      assume d: "e = Datagram d a" "d \<noteq> []" "read_punch s f t (recv_text d) \<in> {Ping, Pong}"
      from wait_answer [OF c(1,2) d(2,3), of a rest] obtain io2 where 2: "wait_loop env s f t dl (e # rest) io = (REDP2P_OK, Some a, io2)"
        "sent io2 = sent io @ (if read_punch s f t (recv_text d) = Ping then [(a, punch_message REDP2P_CTRTOK_PUNCH_PONG s t f)] else [])"
        unfolding d(1) by blast
      have "answer s f t (pending io) a (if read_punch s f t (recv_text d) = Ping then [(a, punch_message REDP2P_CTRTOK_PUNCH_PONG s t f)] else [])"
        using d Cons.prems(2) by (auto simp: answer_def)
      then have "found_step s f t P io a io2" unfolding found_step_def 2(2) by (metis append_Nil list.pred_inject(1))
      then show ?thesis using 2 Cons.prems(1) by (simp add: outcome_def)
    qed (use c in simp)
  qed
qed

lemma wait_response_outcome:
  assumes "redp2p_punch_wait_response env s f t ms dl io = (rc, found, io')"
  shows "(rc = REDP2P_OK \<longleftrightarrow> found \<noteq> None) \<and> outcome s f t P io found io'"
proof -
  let ?io = "io\<lparr>readings := readings io + 1\<rparr>"
  have "wait_loop env s f t (let w = p_clock env (readings io) + ms in if w > dl then dl else w) (pending io) ?io = (rc, found, io')"
    using assms by (simp add: redp2p_punch_wait_response_def redp2p_now_ms_def Let_def)
  from wait_loop_outcome [OF this] have "(rc = REDP2P_OK \<longleftrightarrow> found \<noteq> None) \<and> outcome s f t P ?io found io'" by simp
  then show ?thesis using quiet_outcome [OF quiet_step_refl [of ?io io P]] by simp
qed

text \<open>The packets a run may send besides the pong: pings to the candidates and to their neighbours.\<close>

definition ping_target :: "punch_env \<Rightarrow> int \<Rightarrow> redp2p_candidate_t list \<Rightarrow> sockaddr_storage \<Rightarrow> bool" where
  "ping_target env reach cs a \<longleftrightarrow>
     (\<exists>c \<in> set cs. redp2p_candidate_sockaddr (p_net env) c = Some a \<or>
        (\<exists>off. \<bar>off\<bar> \<le> reach \<and> sweep_target env off c = Some a))"

lemma send_candidate_quiet:
  assumes "c \<in> set cs"
  shows "quiet_step (\<lambda>x. ping_target env reach cs (fst x) \<and> snd x = m) io (snd (redp2p_punch_send_candidate env c m io))"
proof (cases "redp2p_candidate_sockaddr (p_net env) c")
  case (Some a)
  have "ping_target env reach cs a" using assms Some by (auto simp: ping_target_def)
  then show ?thesis using Some by (auto simp: redp2p_punch_send_candidate_def quiet_step_def)
qed (simp add: redp2p_punch_send_candidate_def quiet_step_def)

lemma send_direct_quiet:
  "set ds \<subseteq> set cs \<Longrightarrow>
    quiet_step (\<lambda>x. ping_target env reach cs (fst x) \<and> snd x = m) io (snd (send_direct env m ds (n, io)))"
proof (induction ds arbitrary: n io)
  case (Cons c ds)
  obtain k io1 where k: "redp2p_punch_send_candidate env c m io = (k, io1)" by fastforce
  show ?case
  proof (cases "direct c")
    case True
    have "quiet_step (\<lambda>x. ping_target env reach cs (fst x) \<and> snd x = m) io io1"
      using send_candidate_quiet [of c cs env reach m io] Cons.prems k by simp
    moreover have "quiet_step (\<lambda>x. ping_target env reach cs (fst x) \<and> snd x = m) io1 (snd (send_direct env m ds (n + k, io1)))"
      by (rule Cons.IH) (use Cons.prems in simp)
    ultimately show ?thesis using True k by (auto intro: quiet_step_trans)
  qed (use Cons in simp)
qed (simp add: quiet_step_refl)

lemma send_sweep_quiet:
  "set ds \<subseteq> set cs \<Longrightarrow> \<bar>off\<bar> \<le> reach \<Longrightarrow>
    quiet_step (\<lambda>x. ping_target env reach cs (fst x) \<and> snd x = m) io (snd (send_sweep env m off ds (n, io)))"
proof (induction ds arbitrary: n io)
  case (Cons c ds)
  let ?P = "\<lambda>x. ping_target env reach cs (fst x) \<and> snd x = m"
  obtain k io1 where k: "redp2p_punch_send_candidate env c m io = (k, io1)" by fastforce
  have 1: "quiet_step ?P io io1" using send_candidate_quiet [of c cs env reach m io] Cons.prems k by simp
  have IH: "quiet_step ?P io2 (snd (send_sweep env m off ds (n', io2)))" for n' io2
    by (rule Cons.IH) (use Cons.prems in simp_all)
  show ?case
  proof (cases "sweep_target env off c")
    case (Some a)
    obtain ok io2 where s: "redp2p_sendto_addr env m a io1 = (ok, io2)" by fastforce
    have "ping_target env reach cs a" using Cons.prems Some by (auto simp: ping_target_def)
    then have "quiet_step ?P io1 io2" using s by (auto simp: redp2p_sendto_addr_def quiet_step_def split: if_splits)
    then have "quiet_step ?P io io2" using 1 by (rule quiet_step_trans [rotated])
    then show ?thesis using quiet_step_trans [OF _ IH] k Some s by (simp add: Let_def)
  qed (use 1 IH k in \<open>auto intro: quiet_step_trans\<close>)
qed (simp add: quiet_step_refl)

lemma direct_rounds_outcome:
  "direct_rounds env s f t m cs dl i (n, io) = (found, n', io') \<Longrightarrow>
    outcome s f t (\<lambda>x. ping_target env reach cs (fst x) \<and> snd x = m) io found io'"
proof (induction i arbitrary: n io)
  case (Suc i)
  let ?P = "\<lambda>x. ping_target env reach cs (fst x) \<and> snd x = m"
  obtain n1 io1 where 1: "send_direct env m cs (n, io) = (n1, io1)" by fastforce
  obtain rc fnd io2 where 2: "redp2p_punch_wait_response env s f t REDP2P_PUNCH_DIRECT_WAIT_MS dl io1 = (rc, fnd, io2)"
    by (metis prod_cases3)
  have q: "quiet_step ?P io io1" using send_direct_quiet [of cs cs env reach m io n] 1 by simp
  have o: "(rc = REDP2P_OK \<longleftrightarrow> fnd \<noteq> None) \<and> outcome s f t ?P io1 fnd io2" by (rule wait_response_outcome [OF 2])
  show ?case
  proof (cases "rc = REDP2P_OK")
    case True
    then show ?thesis using Suc.prems 1 2 o quiet_outcome [OF q] by auto
  next
    case False
    then have "quiet_step ?P io1 io2" using o by (auto simp: outcome_def)
    moreover have "outcome s f t ?P io2 found io'" by (rule Suc.IH) (use Suc.prems 1 2 False in simp)
    ultimately show ?thesis using q by (blast intro: quiet_outcome)
  qed
qed (simp add: outcome_def quiet_step_refl)

lemma sweep_inner_outcome:
  "sweep_inner env s f t m cs dl offs (n, io) = (found, n', io') \<Longrightarrow> \<forall>off \<in> set offs. \<bar>off\<bar> \<le> reach \<Longrightarrow>
    outcome s f t (\<lambda>x. ping_target env reach cs (fst x) \<and> snd x = m) io found io'"
proof (induction offs arbitrary: n io)
  case (Cons off offs)
  let ?P = "\<lambda>x. ping_target env reach cs (fst x) \<and> snd x = m"
  let ?io = "io\<lparr>readings := readings io + 1\<rparr>"
  have z: "quiet_step ?P io ?io" by (rule quiet_step_refl) simp_all
  obtain n1 io1 where 1: "send_sweep env m off cs (n, ?io) = (n1, io1)" by fastforce
  obtain rc fnd io2 where 2: "redp2p_punch_wait_response env s f t REDP2P_PUNCH_SWEEP_WAIT_MS dl io1 = (rc, fnd, io2)"
    by (metis prod_cases3)
  have q: "quiet_step ?P ?io io1" using send_sweep_quiet [of cs cs off reach env m ?io n] 1 Cons.prems by simp
  have o: "(rc = REDP2P_OK \<longleftrightarrow> fnd \<noteq> None) \<and> outcome s f t ?P io1 fnd io2" by (rule wait_response_outcome [OF 2])
  consider "\<not> p_clock env (readings io) < dl" | "p_clock env (readings io) < dl" "rc = REDP2P_OK"
    | "p_clock env (readings io) < dl" "rc \<noteq> REDP2P_OK" by blast
  then show ?case
  proof cases
    case 1
    then show ?thesis using Cons.prems z by (auto simp: redp2p_now_ms_def outcome_def)
  next
    case r: 2
    then show ?thesis using Cons.prems 1 2 o quiet_outcome [OF quiet_step_trans [OF z q]] by (auto simp: redp2p_now_ms_def)
  next
    case r: 3
    then have "quiet_step ?P io1 io2" using o by (auto simp: outcome_def)
    moreover have "outcome s f t ?P io2 found io'" by (rule Cons.IH) (use Cons.prems 1 2 r in \<open>simp_all add: redp2p_now_ms_def\<close>)
    ultimately show ?thesis using z q by (blast intro: quiet_outcome)
  qed
qed (simp add: outcome_def quiet_step_refl)

lemma sweep_outer_outcome:
  "sweep_outer env s f t m cs dl sweeps (n, io) = (found, n', io') \<Longrightarrow> \<forall>k \<in> set sweeps. 0 < k \<and> k \<le> reach \<Longrightarrow>
    outcome s f t (\<lambda>x. ping_target env reach cs (fst x) \<and> snd x = m) io found io'"
proof (induction sweeps arbitrary: n io)
  case (Cons k sweeps)
  let ?P = "\<lambda>x. ping_target env reach cs (fst x) \<and> snd x = m"
  let ?io = "io\<lparr>readings := readings io + 1\<rparr>"
  have z: "quiet_step ?P io ?io" by (rule quiet_step_refl) simp_all
  obtain fnd n1 io1 where 1: "sweep_inner env s f t m cs dl [- k, k] (n, ?io) = (fnd, n1, io1)" by (metis prod_cases3)
  have o: "outcome s f t ?P ?io fnd io1" by (rule sweep_inner_outcome [OF 1]) (use Cons.prems in auto)
  show ?case
  proof (cases "p_clock env (readings io) < dl")
    case True
    show ?thesis
    proof (cases fnd)
      case None
      then have "quiet_step ?P ?io io1" using o by (simp add: outcome_def)
      moreover have "outcome s f t ?P io1 found io'"
        by (rule Cons.IH) (use Cons.prems 1 None True in \<open>simp_all add: redp2p_now_ms_def del: sweep_inner.simps\<close>)
      ultimately show ?thesis using z by (blast intro: quiet_outcome)
    qed (use Cons.prems 1 True o quiet_outcome [OF z] in \<open>auto simp: redp2p_now_ms_def simp del: sweep_inner.simps\<close>)
  qed (use Cons.prems z in \<open>auto simp: redp2p_now_ms_def outcome_def\<close>)
qed (simp add: outcome_def quiet_step_refl)

section \<open>Selection\<close>

lemma read_punch_pong: "read_punch s f t b = Pong \<Longrightarrow> redp2p_parse_punch_packet b REDP2P_CTRTOK_PUNCH_PONG = Some (s, f, t)"
  by (auto simp: read_punch_def split: option.splits if_splits)

lemma read_punch_ping: "read_punch s f t b = Ping \<Longrightarrow> redp2p_parse_punch_packet b REDP2P_CTRTOK_PUNCH_PING = Some (s, t, f)"
  by (auto simp: read_punch_def split: option.splits if_splits)

lemma answer_read:
  "answer s f t evs a reply \<Longrightarrow> \<exists>d. Datagram d a \<in> set evs \<and>
     (redp2p_parse_punch_packet (recv_text d) REDP2P_CTRTOK_PUNCH_PONG = Some (s, f, t) \<and> reply = [] \<or>
      redp2p_parse_punch_packet (recv_text d) REDP2P_CTRTOK_PUNCH_PING = Some (s, t, f) \<and>
        reply = [(a, punch_message REDP2P_CTRTOK_PUNCH_PONG s t f)])"
  unfolding answer_def using read_punch_pong read_punch_ping by blast

lemma select_outcome:
  assumes "redp2p_punch_select env sweep_limit s f t cs ctx io = (rc, sel, ctx', io')"
  shows "(rc = REDP2P_OK \<longleftrightarrow> sel \<noteq> None) \<and>
    outcome s f t (\<lambda>x. ping_target env (max 0 sweep_limit) cs (fst x) \<and> snd x = punch_message REDP2P_CTRTOK_PUNCH_PING s f t) io sel io'"
proof (cases "cs = []")
  case True
  then show ?thesis using assms by (auto simp: redp2p_punch_select_def outcome_def quiet_step_refl macros)
next
  case False
  let ?m = "punch_message REDP2P_CTRTOK_PUNCH_PING s f t"
  let ?P = "\<lambda>x. ping_target env (max 0 sweep_limit) cs (fst x) \<and> snd x = ?m"
  let ?io = "io\<lparr>readings := readings io + 1, malformed := 0, mismatched := 0, unsupported := 0\<rparr>"
  let ?dl = "p_clock env (readings io) + REDP2P_PUNCH_TOTAL_MS"
  let ?offs = "[1..if sweep_limit < 0 then 0 else sweep_limit]"
  have z: "quiet_step ?P io ?io" by (rule quiet_step_refl) simp_all
  obtain fnd n1 io1 where 1: "direct_rounds env s f t ?m cs ?dl
      (if length [c \<leftarrow> cs. direct c] > 0 then REDP2P_PUNCH_DIRECT_ROUNDS else 0) (0, ?io) = (fnd, n1, io1)" by (metis prod_cases3)
  obtain fnd2 n2 io2 where 2: "sweep_outer env s f t ?m cs ?dl ?offs (n1, io1) = (fnd2, n2, io2)" by (metis prod_cases3)
  have o1: "outcome s f t ?P ?io fnd io1" by (rule direct_rounds_outcome [OF 1])
  have o2: "outcome s f t ?P io1 fnd2 io2" by (rule sweep_outer_outcome [OF 2]) auto
  note sel = assms [unfolded redp2p_punch_select_def Let_def redp2p_now_ms_def prod.case]
  show ?thesis
  proof (cases fnd)
    case (Some a)
    then have "rc = REDP2P_OK" "sel = fnd" "io' = io1" using sel False 1 by auto
    then show ?thesis using Some quiet_outcome [OF z o1] by simp
  next
    case None
    then have q: "quiet_step ?P ?io io1" using o1 by (simp add: outcome_def)
    note o = quiet_outcome [OF quiet_step_trans [OF z q] o2]
    show ?thesis
    proof (cases fnd2)
      case (Some a)
      then have "rc = REDP2P_OK" "sel = fnd2" "io' = io2" using sel False 1 2 None by auto
      then show ?thesis using Some o by simp
    next
      case n2: None
      then have "rc = REDP2P_EPUNCH" "sel = None" "sent io' = sent io2" "pending io' = pending io2"
        using sel False 1 2 None by (auto split: if_splits)
      then show ?thesis using n2 o by (simp add: outcome_def quiet_step_def macros)
    qed
  qed
qed

section \<open>The handshake\<close>

text \<open>The clock advances by less than half a second while the first \<open>k\<close> events are read.\<close>

definition prompt :: "punch_env \<Rightarrow> nat \<Rightarrow> u64 \<Rightarrow> bool" where
  "prompt env k t \<longleftrightarrow> p_fits env \<and> t < 2 ^ 62 \<and> (\<forall>n \<le> 2 * k + 2. t \<le> p_clock env n \<and> p_clock env n < t + 500)"

lemma wait_noise:
  assumes "\<forall>e \<in> set noise. skipped s f t e" "p_fits env" "d \<noteq> []" "read_punch s f t (recv_text d) \<in> {Ping, Pong}"
    "\<forall>n. readings io \<le> n \<and> n \<le> readings io + 2 * length noise \<longrightarrow> p_clock env n < dl"
  shows "\<exists>io2. wait_loop env s f t dl (noise @ Datagram d a # rest) io = (REDP2P_OK, Some a, io2) \<and> pending io2 = rest \<and>
    sent io2 = sent io @ (if read_punch s f t (recv_text d) = Ping then [(a, punch_message REDP2P_CTRTOK_PUNCH_PONG s t f)] else [])"
  using assms(1,5)
proof (induction noise arbitrary: io)
  case Nil
  then show ?case using wait_answer [OF _ assms(2,3,4), of io dl a rest] by simp
next
  case (Cons e noise)
  obtain io1 where 1: "wait_loop env s f t dl (e # noise @ Datagram d a # rest) io = wait_loop env s f t dl (noise @ Datagram d a # rest) io1"
    "sent io1 = sent io" "readings io1 = readings io + 2"
    using wait_skipped [of env io dl s f t e "noise @ Datagram d a # rest"] Cons.prems assms(2) by auto
  have "\<forall>n. readings io1 \<le> n \<and> n \<le> readings io1 + 2 * length noise \<longrightarrow> p_clock env n < dl" using Cons.prems(2) 1(3) by simp
  from Cons.IH [OF _ this] show ?case using Cons.prems(1) 1 by simp
qed

lemma send_direct_io:
  "readings (snd (send_direct env m ds (n, io))) = readings io \<and> pending (snd (send_direct env m ds (n, io))) = pending io \<and>
   (\<exists>out. sent (snd (send_direct env m ds (n, io))) = sent io @ out \<and>
     (\<forall>c \<in> set ds. \<forall>a. direct c \<longrightarrow> redp2p_candidate_sockaddr (p_net env) c = Some a \<longrightarrow> (a, m) \<in> set out))"
proof (induction ds arbitrary: n io)
  case (Cons c ds)
  obtain k io1 where k: "redp2p_punch_send_candidate env c m io = (k, io1)" by fastforce
  have f: "readings io1 = readings io" "pending io1 = pending io"
    using k by (auto simp: redp2p_punch_send_candidate_def split: option.splits if_splits)
  have "\<exists>o1. sent io1 = sent io @ o1 \<and> (\<forall>a. redp2p_candidate_sockaddr (p_net env) c = Some a \<longrightarrow> (a, m) \<in> set o1)"
  proof (cases "redp2p_candidate_sockaddr (p_net env) c")
    case (Some a)
    then have "redp2p_sockaddr_len a \<noteq> 0" by (auto simp: redp2p_candidate_sockaddr_def split: option.splits if_splits)
    then show ?thesis using Some k by (auto simp: redp2p_punch_send_candidate_def)
  qed (use k in \<open>auto simp: redp2p_punch_send_candidate_def\<close>)
  then obtain o1 where o1: "sent io1 = sent io @ o1" "\<forall>a. redp2p_candidate_sockaddr (p_net env) c = Some a \<longrightarrow> (a, m) \<in> set o1" by blast
  show ?case
  proof (cases "direct c")
    case True
    obtain o2 where o2: "sent (snd (send_direct env m ds (n + k, io1))) = sent io1 @ o2"
      "\<forall>c \<in> set ds. \<forall>a. direct c \<longrightarrow> redp2p_candidate_sockaddr (p_net env) c = Some a \<longrightarrow> (a, m) \<in> set o2"
      using Cons.IH [of "n + k" io1] by blast
    have "sent (snd (send_direct env m (c # ds) (n, io))) = sent io @ (o1 @ o2)" using True k o1(1) o2(1) by simp
    moreover have "\<forall>c' \<in> set (c # ds). \<forall>a. direct c' \<longrightarrow> redp2p_candidate_sockaddr (p_net env) c' = Some a \<longrightarrow> (a, m) \<in> set (o1 @ o2)"
      using o1(2) o2(2) by auto
    moreover have "readings (snd (send_direct env m (c # ds) (n, io))) = readings io" "pending (snd (send_direct env m (c # ds) (n, io))) = pending io"
      using Cons.IH [of "n + k" io1] True k f by simp_all
    ultimately show ?thesis by blast
  qed (use Cons.IH [of n io] in auto)
qed simp

lemma select_answered:
  assumes "prompt env (length noise) now" "\<exists>c \<in> set cs. direct c" "readings io = 0"
    "\<forall>e \<in> set noise. skipped s f t e" "d \<noteq> []" "read_punch s f t (recv_text d) \<in> {Ping, Pong}"
    "pending io = noise @ Datagram d a # rest"
  shows "\<exists>io' pings. redp2p_punch_select env sweep_limit s f t cs ctx io = (REDP2P_OK, Some a, ctx, io') \<and> pending io' = rest \<and>
    sent io' = sent io @ pings @ (if read_punch s f t (recv_text d) = Ping then [(a, punch_message REDP2P_CTRTOK_PUNCH_PONG s t f)] else []) \<and>
    (\<forall>c \<in> set cs. \<forall>x. direct c \<longrightarrow> redp2p_candidate_sockaddr (p_net env) c = Some x \<longrightarrow>
      (x, punch_message REDP2P_CTRTOK_PUNCH_PING s f t) \<in> set pings)"
proof -
  let ?m = "punch_message REDP2P_CTRTOK_PUNCH_PING s f t"
  let ?io = "io\<lparr>readings := 1, malformed := 0, mismatched := 0, unsupported := 0\<rparr>"
  let ?dl = "p_clock env 0 + REDP2P_PUNCH_TOTAL_MS"
  obtain n1 io1 where 1: "send_direct env ?m cs (0, ?io) = (n1, io1)" by fastforce
  obtain pings where io1: "readings io1 = 1" "pending io1 = pending io" "sent io1 = sent io @ pings"
    "\<forall>c \<in> set cs. \<forall>x. direct c \<longrightarrow> redp2p_candidate_sockaddr (p_net env) c = Some x \<longrightarrow> (x, ?m) \<in> set pings"
    using send_direct_io [of env ?m cs 0 ?io] 1 by auto
  let ?w = "p_clock env 1 + REDP2P_PUNCH_DIRECT_WAIT_MS"
  let ?wd = "if ?w > ?dl then ?dl else ?w"
  have p: "p_fits env" "now < 2 ^ 62" and ck: "n \<le> 2 * length noise + 2 \<Longrightarrow> now \<le> p_clock env n \<and> p_clock env n < now + 500" for n
    using assms(1) by (auto simp: prompt_def)
  have late: "now + 500 \<le> ?wd"
    using ck [of 0] ck [of 1] p(2) by (auto simp: macros word_le_nat_alt word_less_nat_alt unat_word_ariths)
  have "\<forall>n. readings (io1\<lparr>readings := 2\<rparr>) \<le> n \<and> n \<le> readings (io1\<lparr>readings := 2\<rparr>) + 2 * length noise \<longrightarrow> p_clock env n < ?wd"
    using less_le_trans [OF conjunct2 [OF ck] late] by simp
  from wait_noise [OF assms(4) p(1) assms(5,6) this, of a rest] obtain io2 where
    2: "wait_loop env s f t ?wd (noise @ Datagram d a # rest) (io1\<lparr>readings := 2\<rparr>) = (REDP2P_OK, Some a, io2)" "pending io2 = rest"
      "sent io2 = sent io1 @ (if read_punch s f t (recv_text d) = Ping then [(a, punch_message REDP2P_CTRTOK_PUNCH_PONG s t f)] else [])"
    by auto
  have "redp2p_punch_wait_response env s f t REDP2P_PUNCH_DIRECT_WAIT_MS ?dl io1 = (REDP2P_OK, Some a, io2)"
    using 2(1) io1(1,2) assms(7)
    by (auto simp: redp2p_punch_wait_response_def redp2p_now_ms_def Let_def numeral_2_eq_2 split: if_splits)
  then have 3: "direct_rounds env s f t ?m cs ?dl (Suc i) (0, ?io) = (Some a, n1, io2)" for i using 1 by simp
  have 4: "0 < length [c \<leftarrow> cs. direct c]" "cs \<noteq> []" using assms(2) by (auto simp: filter_empty_conv)
  have 5: "direct_rounds env s f t ?m cs ?dl REDP2P_PUNCH_DIRECT_ROUNDS (0, ?io) = (Some a, n1, io2)"
    using 3 [of 2] by (simp add: REDP2P_PUNCH_DIRECT_ROUNDS_def numeral_3_eq_3 numeral_2_eq_2 del: direct_rounds.simps)
  have "redp2p_punch_select env sweep_limit s f t cs ctx io = (REDP2P_OK, Some a, ctx, io2)"
    unfolding redp2p_punch_select_def Let_def redp2p_now_ms_def assms(3) prod.case
    using 4 5 by (simp del: direct_rounds.simps)
  then show ?thesis using 2(2,3) io1(3,4) by auto
qed

lemma recv_message:
  assumes "redp2p_is_session_token s" "redp2p_is_punch_id f" "redp2p_is_punch_id t" "prefix \<in> {REDP2P_CTRTOK_PUNCH_PING, REDP2P_CTRTOK_PUNCH_PONG}"
  shows "recv_text (punch_message prefix s f t) = punch_message prefix s f t" "punch_message prefix s f t \<noteq> []"
proof -
  have l: "length prefix \<le> 32" using assms(4) by (auto simp: REDP2P_CTRTOK_PUNCH_PING_def REDP2P_CTRTOK_PUNCH_PONG_def)
  have z: "NUL \<notin> set prefix" using assms(4) by (auto simp: REDP2P_CTRTOK_PUNCH_PING_def REDP2P_CTRTOK_PUNCH_PONG_def NUL_def)
  have "\<not> is_alnum NUL" "NUL \<noteq> CHR ''-''" by (simp, simp add: NUL_def)
  then have "NUL \<notin> set s" "NUL \<notin> set f" "NUL \<notin> set t"
    using assms(1-3) by (auto simp: token_iffs list_all_iff)
  then have n: "NUL \<notin> set (punch_message prefix s f t)"
    using z by (simp add: punch_message_untruncated [OF assms(1-3) l] LF_def NUL_def)
  have "length (punch_message prefix s f t) \<le> 1023" by (simp add: punch_message_def)
  then show "recv_text (punch_message prefix s f t) = punch_message prefix s f t"
    unfolding recv_text_def by (simp add: c_str_id [OF n])
  show "punch_message prefix s f t \<noteq> []" by (simp add: punch_message_untruncated [OF assms(1-3) l])
qed

lemma packet_roundtrip:
  assumes "redp2p_is_session_token s" "redp2p_is_punch_id f" "redp2p_is_punch_id t" "length t \<le> 62" "length prefix \<le> 32"
  shows "redp2p_parse_punch_packet (punch_message prefix s f t) prefix = Some (s, f, t)"
  using assms punch_id_chars [OF assms(3)] parse_punch_packet_fields [OF assms(1,2), of prefix "t @ [LF]"]
  by (simp add: punch_message_untruncated strip_line_end_snoc)

lemma ping_is_no_pong: "redp2p_parse_punch_packet (punch_message REDP2P_CTRTOK_PUNCH_PING s f t) REDP2P_CTRTOK_PUNCH_PONG = None"
  by (simp add: redp2p_parse_punch_packet_def punch_message_def REDP2P_CTRTOK_PUNCH_PING_def REDP2P_CTRTOK_PUNCH_PONG_def)

lemma read_ping:
  assumes "redp2p_is_session_token s" "redp2p_is_punch_id f" "redp2p_is_punch_id t" "length f \<le> 62"
  shows "read_punch s f t (punch_message REDP2P_CTRTOK_PUNCH_PING s t f) = Ping"
  using packet_roundtrip [OF assms(1,3,2,4), of REDP2P_CTRTOK_PUNCH_PING] ping_is_no_pong
  by (simp add: read_punch_def) (simp add: REDP2P_CTRTOK_PUNCH_PING_def)

lemma read_pong:
  assumes "redp2p_is_session_token s" "redp2p_is_punch_id f" "redp2p_is_punch_id t" "length t \<le> 62"
  shows "read_punch s f t (punch_message REDP2P_CTRTOK_PUNCH_PONG s f t) = Pong"
  using packet_roundtrip [OF assms(1-4), of REDP2P_CTRTOK_PUNCH_PONG]
  by (simp add: read_punch_def) (simp add: REDP2P_CTRTOK_PUNCH_PONG_def)

definition demo_punch_env :: punch_env where
  "demo_punch_env = \<lparr>p_net = demo_net, p_clock = (\<lambda>n. 1000 + of_nat n), p_fits = True, p_sendto = (\<lambda>_ _. True)\<rparr>"

definition demo_punch_cs :: "redp2p_candidate_t list" where
  "demo_punch_cs = [\<lparr>cand_type = CAND_HOST, cand_addr = ''127.0.0.1'', cand_port = 4001, cand_priority = 200\<rparr>]"

definition demo_punch_io :: "punch_event list \<Rightarrow> punch_io" where
  "demo_punch_io evs = \<lparr>readings = 0, pending = evs, sent = [], waits = [], malformed = 0, mismatched = 0, unsupported = 0\<rparr>"

lemma demo_punch_facts: "prompt demo_punch_env 1 1000" "\<exists>c \<in> set demo_punch_cs. direct c" "readings (demo_punch_io evs) = 0"
  "skipped s f t (Datagram [] a)" "redp2p_is_session_token ''5e55'' \<and> redp2p_is_punch_id ''alice'' \<and> redp2p_is_punch_id ''bob''"
proof -
  have "n \<le> 4 \<Longrightarrow> (1000 :: u64) \<le> 1000 + of_nat n \<and> 1000 + of_nat n < (1500 :: u64)" for n
    by (simp add: word_le_nat_alt word_less_nat_alt unat_word_ariths unat_of_nat)
  then show "prompt demo_punch_env 1 1000" by (simp add: prompt_def demo_punch_env_def)
  show "redp2p_is_session_token ''5e55'' \<and> redp2p_is_punch_id ''alice'' \<and> redp2p_is_punch_id ''bob''" by code_simp
qed (simp_all add: demo_punch_cs_def demo_punch_io_def direct_def)

text \<open>
  C20: The handshake of two peers. For every session and identifiers of at most 62 characters, when
  both peers have a direct candidate of the other and the first ping of A reaches B from an address
  \<open>addr_a\<close> in B's first half second, after any datagrams that are not of the session, then B selects
  \<open>addr_a\<close> and sends its pong there, and when that pong reaches A from \<open>addr_b\<close> in A's first half
  second, A selects \<open>addr_b\<close>. A's pings went to every address of a direct candidate, so the premise
  only asks the network to deliver one of them.
\<close>

theorem punch_handshake:
  assumes "redp2p_is_session_token s" "redp2p_is_punch_id a" "redp2p_is_punch_id b" "length a \<le> 62" "length b \<le> 62"
    "prompt env_a (length noise_a) now_a" "\<exists>c \<in> set cs_a. direct c" "\<forall>e \<in> set noise_a. skipped s a b e" "readings io_a = 0"
    "prompt env_b (length noise_b) now_b" "\<exists>c \<in> set cs_b. direct c" "\<forall>e \<in> set noise_b. skipped s b a e" "readings io_b = 0"
    "pending io_b = noise_b @ Datagram (punch_message REDP2P_CTRTOK_PUNCH_PING s a b) addr_a # rest_b"
  shows "\<exists>io_b' pong. redp2p_punch_select env_b sweep_b s b a cs_b ctx_b io_b = (REDP2P_OK, Some addr_a, ctx_b, io_b') \<and>
    last (sent io_b') = (addr_a, pong) \<and>
    (pending io_a = noise_a @ Datagram pong addr_b # rest_a \<longrightarrow>
      (\<exists>io_a' pings. redp2p_punch_select env_a sweep_a s a b cs_a ctx_a io_a = (REDP2P_OK, Some addr_b, ctx_a, io_a') \<and>
        sent io_a' = sent io_a @ pings \<and>
        (\<forall>c \<in> set cs_a. \<forall>x. direct c \<longrightarrow> redp2p_candidate_sockaddr (p_net env_a) c = Some x \<longrightarrow>
          (x, punch_message REDP2P_CTRTOK_PUNCH_PING s a b) \<in> set pings)))"
proof -
  let ?ping = "punch_message REDP2P_CTRTOK_PUNCH_PING s a b" and ?pong = "punch_message REDP2P_CTRTOK_PUNCH_PONG s a b"
  note ping = recv_message [OF assms(1-3), of REDP2P_CTRTOK_PUNCH_PING] and pong = recv_message [OF assms(1-3), of REDP2P_CTRTOK_PUNCH_PONG]
  have rb: "read_punch s b a (recv_text ?ping) = Ping" using ping(1) read_ping [OF assms(1,3,2,5)] by simp
  have ra: "read_punch s a b (recv_text ?pong) = Pong" using pong(1) read_pong [OF assms(1,2,3,5)] by simp
  obtain io_b' where b: "redp2p_punch_select env_b sweep_b s b a cs_b ctx_b io_b = (REDP2P_OK, Some addr_a, ctx_b, io_b')"
    "last (sent io_b') = (addr_a, ?pong)"
    using select_answered [OF assms(10,11,13,12) _ _ assms(14), where sweep_limit = sweep_b and ctx = ctx_b] ping(2) rb by force
  show ?thesis
  proof (rule exI [of _ io_b'], rule exI [of _ ?pong], intro conjI impI)
    show "redp2p_punch_select env_b sweep_b s b a cs_b ctx_b io_b = (REDP2P_OK, Some addr_a, ctx_b, io_b')" by (fact b(1))
    show "last (sent io_b') = (addr_a, ?pong)" by (fact b(2))
    assume "pending io_a = noise_a @ Datagram ?pong addr_b # rest_a"
    from select_answered [OF assms(6,7,9,8) _ _ this, where sweep_limit = sweep_a and ctx = ctx_a] pong(2) ra
    show "\<exists>io_a' pings. redp2p_punch_select env_a sweep_a s a b cs_a ctx_a io_a = (REDP2P_OK, Some addr_b, ctx_a, io_a') \<and>
        sent io_a' = sent io_a @ pings \<and>
        (\<forall>c \<in> set cs_a. \<forall>x. direct c \<longrightarrow> redp2p_candidate_sockaddr (p_net env_a) c = Some x \<longrightarrow> (x, ?ping) \<in> set pings)"
      by fastforce
  qed
qed

theorem punch_handshake_witness:
  "\<exists>io_b' pong. redp2p_punch_select demo_punch_env 0 ''5e55'' ''bob'' ''alice'' demo_punch_cs demo_ctx
      (demo_punch_io [Datagram [] SA_other, Datagram (punch_message REDP2P_CTRTOK_PUNCH_PING ''5e55'' ''alice'' ''bob'') (SA_in 4001 0x7f000001)]) =
    (REDP2P_OK, Some (SA_in 4001 0x7f000001), demo_ctx, io_b') \<and> last (sent io_b') = (SA_in 4001 0x7f000001, pong)"
proof -
  note ids = demo_punch_facts(5)
  show ?thesis
    using punch_handshake [of "''5e55''" "''alice''" "''bob''" demo_punch_env "[Datagram [] SA_other]" 1000 demo_punch_cs "demo_punch_io []"
        demo_punch_env "[Datagram [] SA_other]" 1000 demo_punch_cs
        "demo_punch_io [Datagram [] SA_other, Datagram (punch_message REDP2P_CTRTOK_PUNCH_PING ''5e55'' ''alice'' ''bob'') (SA_in 4001 0x7f000001)]"
        "SA_in 4001 0x7f000001" "[]" 0 demo_ctx]
      ids demo_punch_facts(1-4) by (simp add: demo_punch_io_def)
qed

text \<open>
  C19: A run of hole punching is honest. It reports success exactly when it selects an address,
  and an address is selected only when a datagram from that very address was read as a pong of
  this session that names us as its asker and the peer as its answerer, or as a ping of this
  session from the peer to us. Every packet sent before goes to a candidate of the peer, or to a
  port at most the sweep limit away from the port of one of its outside IPv4 addresses, and is the
  ping of this session; the only other packet is the pong that answers a ping, to the selected
  address.
\<close>

theorem punch_select_sound:
  assumes "redp2p_punch_select env sweep_limit s f t cs ctx io = (rc, sel, ctx', io')"
  shows "(rc = REDP2P_OK) = (sel \<noteq> None) \<and>
    (\<exists>pings reply. sent io' = sent io @ pings @ reply \<and>
      (\<forall>(a, m) \<in> set pings. m = punch_message REDP2P_CTRTOK_PUNCH_PING s f t \<and>
         ping_target env (max 0 sweep_limit) cs a) \<and>
      (case sel of
         None \<Rightarrow> reply = []
       | Some a \<Rightarrow> \<exists>d. Datagram d a \<in> set (pending io) \<and>
           (redp2p_parse_punch_packet (recv_text d) REDP2P_CTRTOK_PUNCH_PONG = Some (s, f, t) \<and> reply = [] \<or>
            redp2p_parse_punch_packet (recv_text d) REDP2P_CTRTOK_PUNCH_PING = Some (s, t, f) \<and>
              reply = [(a, punch_message REDP2P_CTRTOK_PUNCH_PONG s t f)])))"
proof -
  let ?m = "punch_message REDP2P_CTRTOK_PUNCH_PING s f t"
  let ?P = "\<lambda>x. ping_target env (max 0 sweep_limit) cs (fst x) \<and> snd x = ?m"
  have "(rc = REDP2P_OK \<longleftrightarrow> sel \<noteq> None) \<and> outcome s f t ?P io sel io'" using assms by (rule select_outcome)
  then have rc: "(rc = REDP2P_OK) = (sel \<noteq> None)" and o: "outcome s f t ?P io sel io'" by simp_all
  show ?thesis
  proof (cases sel)
    case None
    then show ?thesis using rc o by (fastforce simp: outcome_def quiet_step_def list_all_iff)
  next
    case (Some a)
    then obtain out reply where 1: "sent io' = sent io @ out @ reply" "list_all ?P out" "answer s f t (pending io) a reply"
      using o by (auto simp: outcome_def found_step_def)
    then show ?thesis unfolding Some option.case
      by (intro conjI exI [of _ out] exI [of _ reply])
        (use rc Some in \<open>auto simp: list_all_iff dest: answer_read\<close>)
  qed
qed

theorem punch_select_sound_witness:
  "\<exists>io' pings. redp2p_punch_select demo_punch_env 0 ''5e55'' ''alice'' ''bob'' demo_punch_cs demo_ctx
      (demo_punch_io [Datagram [] SA_other, Datagram (punch_message REDP2P_CTRTOK_PUNCH_PONG ''5e55'' ''alice'' ''bob'') (SA_in 4002 0x7f000001)]) =
    (REDP2P_OK, Some (SA_in 4002 0x7f000001), demo_ctx, io') \<and>
    (\<forall>(a, m) \<in> set pings. ping_target demo_punch_env 0 demo_punch_cs a) \<and> (\<exists>reply. sent io' = pings @ reply)"
proof -
  let ?d = "punch_message REDP2P_CTRTOK_PUNCH_PONG ''5e55'' ''alice'' ''bob''"
  let ?io = "demo_punch_io ([Datagram [] SA_other] @ Datagram ?d (SA_in 4002 0x7f000001) # [])"
  have ids: "redp2p_is_session_token ''5e55''" "redp2p_is_punch_id ''alice''" "redp2p_is_punch_id ''bob''" using demo_punch_facts(5) by blast+
  have "read_punch ''5e55'' ''alice'' ''bob'' (recv_text ?d) = Pong" "?d \<noteq> []"
    using recv_message [OF ids, of REDP2P_CTRTOK_PUNCH_PONG] read_pong [OF ids] by simp_all
  then obtain io' where run: "redp2p_punch_select demo_punch_env 0 ''5e55'' ''alice'' ''bob'' demo_punch_cs demo_ctx ?io =
      (REDP2P_OK, Some (SA_in 4002 0x7f000001), demo_ctx, io')"
    using select_answered [of demo_punch_env "[Datagram [] SA_other]" 1000 demo_punch_cs ?io "''5e55''" "''alice''" "''bob''" ?d
        "SA_in 4002 0x7f000001" "[]" 0 demo_ctx] demo_punch_facts(1-4) by (auto simp: demo_punch_io_def)
  from punch_select_sound [OF run] obtain pings reply where "sent io' = sent ?io @ pings @ reply"
    "\<forall>(a, m) \<in> set pings. ping_target demo_punch_env 0 demo_punch_cs a" by (auto simp: case_prod_beta)
  then show ?thesis using run by (auto simp: demo_punch_io_def)
qed

end
