(* ===== verification/Key_Files.thy ===== *)
theory Key_Files
  imports Registry Register_Pow
begin

text \<open>
  The persisted registration keys (\<^verbatim>\<open>redp2p_key_*\<close>, \<^verbatim>\<open>redp2p_load_key_*\<close>,
  \<^verbatim>\<open>redp2p_save_key*\<close>, \<^verbatim>\<open>redp2p_remove_key\<close>), as a POSIX target compiles them. The file system is a
  map from paths to nodes; every system call may fail, as \<open>k_fail\<close> says, with the text of its error.
  An operation returns its result, the message it leaves in the context, if any, and the file system;
  the descriptors it works on are not modelled.
  The process-local lock of the source is held around whole operations here.
\<close>

section \<open>Paths\<close>

record redp2p_key_paths_t =
  kp_dir :: string
  kp_scoped :: string
  kp_legacy :: string

text \<open>The digest of a scope; the terminating NUL of each text is hashed with it.\<close>

definition redp2p_key_scope_hash :: "redp2p_sha256_t \<Rightarrow> string \<Rightarrow> 16 word \<Rightarrow> string \<Rightarrow> byte list" where
  "redp2p_key_scope_hash memory index_host index_port ident =
     (let port = [ucast (drop_bit 8 index_port), ucast index_port];
          hash = redp2p_sha256_init memory;
          hash = redp2p_sha256_update hash (bytes_of ''redp2p-key-v1'' @ [0]);
          hash = redp2p_sha256_update hash (bytes_of index_host @ [0]);
          hash = redp2p_sha256_update hash port;
          hash = redp2p_sha256_update hash (bytes_of ident @ [0])
      in snd (redp2p_sha256_final hash))"

definition redp2p_key_paths ::
  "redp2p_sha256_t \<Rightarrow> string option \<Rightarrow> string \<Rightarrow> string \<Rightarrow> 16 word \<Rightarrow> string \<Rightarrow> string + redp2p_key_paths_t" where
  "redp2p_key_paths memory home sdir index_host index_port ident =
     (let base = (if sdir \<noteq> [] then Some (sdir @ ''/keys'')
                  else case home of
                    None \<Rightarrow> None
                  | Some h \<Rightarrow> if h = [] then None else Some (h @ ''/.local/share/redp2p/keys''))
      in case base of
        None \<Rightarrow> Inl ''state: HOME is missing or empty''
      | Some dir \<Rightarrow>
          if length dir \<ge> 768 then Inl ''key: HOME path is too long''
          else case redp2p_hex_encode (redp2p_key_scope_hash memory index_host index_port ident) 65 of
            None \<Rightarrow> Inl ''key: scope encoding failed''
          | Some filename \<Rightarrow>
              let scoped = dir @ ''/'' @ filename; legacy = dir @ ''/'' @ ident
              in if length scoped \<ge> 848 then Inl ''key: scoped path is too long''
                 else if length legacy \<ge> 848 then Inl ''key: legacy path is too long''
                 else Inr \<lparr>kp_dir = dir, kp_scoped = scoped, kp_legacy = legacy\<rparr>)"

section \<open>The file system\<close>

datatype node = Regular string | Directory | Symlink | Special

type_synonym file_sys = "string \<Rightarrow> node option"

datatype key_call =
  Mkdir string | Chmod string | Open_read string | Fstat string | Close_read string | Create string | Fchmod string | Fsync string
| Close_written string | Rename string | Open_dir string | Fsync_dir string | Close_dir string | Unlink string

text \<open>
  The answers to the successive calls of a read or write loop: a number of bytes (at least one,
  where bytes are left), an interruption, or any other failure with the text of its error.
\<close>

datatype io_step = Moved nat | Interrupted | Io_failed string

record key_env =
  k_fail :: "key_call \<Rightarrow> string option"
  k_reads :: "string \<Rightarrow> io_step list"
  k_writes :: "io_step list"
  k_random :: "byte list option"

section \<open>Directories\<close>

text \<open>An existing node of any kind makes \<^verbatim>\<open>mkdir\<close> fail with \<^verbatim>\<open>EEXIST\<close>, which the code ignores.\<close>

definition make_dir :: "key_env \<Rightarrow> string \<Rightarrow> file_sys \<Rightarrow> string option \<times> file_sys" where
  "make_dir env path fs =
     (if fs path \<noteq> None then (None, fs)
      else case k_fail env (Mkdir path) of Some e \<Rightarrow> (Some e, fs) | None \<Rightarrow> (None, fs(path \<mapsto> Directory)))"

text \<open>The parents of a path: its prefixes before each separator but the first character.\<close>

fun mkdir_parents :: "key_env \<Rightarrow> string \<Rightarrow> string \<Rightarrow> file_sys \<Rightarrow> string option \<times> file_sys" where
  "mkdir_parents env pre [] fs = (None, fs)"
| "mkdir_parents env pre (c # rest) fs =
     (if c \<noteq> CHR ''/'' \<and> c \<noteq> char_of (92 :: nat) then mkdir_parents env (pre @ [c]) rest fs
      else case make_dir env pre fs of
        (Some e, fs) \<Rightarrow> (Some e, fs)
      | (None, fs) \<Rightarrow> mkdir_parents env (pre @ [CHR ''/'']) rest fs)"

text \<open>The copy of the path has every separator after the first character rewritten when the loop is over.\<close>

definition slashed :: "string \<Rightarrow> string" where
  "slashed path = take 1 path @ map (\<lambda>c. if c = char_of (92 :: nat) then CHR ''/'' else c) (drop 1 path)"

lemma length_slashed [simp]: "length (slashed path) = length path"
  by (cases path) (simp_all add: slashed_def)

definition redp2p_mkdir_p :: "key_env \<Rightarrow> string \<Rightarrow> file_sys \<Rightarrow> string option \<times> file_sys" where
  "redp2p_mkdir_p env path fs =
     (case mkdir_parents env (take 1 path) (drop 1 path) fs of
        (Some e, fs) \<Rightarrow> (Some e, fs)
      | (None, fs) \<Rightarrow>
          let path = slashed path
          in (case make_dir env path fs of
             (Some e, fs) \<Rightarrow> (Some e, fs)
           | (None, fs) \<Rightarrow> (k_fail env (Chmod path), fs)))"

section \<open>Loading\<close>

definition redp2p_key_parse :: "string \<Rightarrow> string option" where
  "redp2p_key_parse data =
     (let len = length data;
          data = (if len = REDP2P_KEY_SZ + 1 \<and> data ! (len - 1) = LF then take (len - 1) data
                  else if len = REDP2P_KEY_SZ + 2 \<and> data ! (len - 2) = CR \<and> data ! (len - 1) = LF then take (len - 2) data
                  else data)
      in if length data \<noteq> REDP2P_KEY_SZ then None
         else if \<not> list_all (\<lambda>c. redp2p_hex_decode_nibble c \<ge> 0) data then None
         else Some data)"

text \<open>The loop around \<^verbatim>\<open>read\<close>; once the script is over, reads return all they can.\<close>

fun read_loop :: "nat \<Rightarrow> string \<Rightarrow> io_step list \<Rightarrow> string \<Rightarrow> string + string" where
  "read_loop capacity got [] rest = Inr (got @ take (capacity - length got) rest)"
| "read_loop capacity got (s # ss) rest =
     (if \<not> length got < capacity \<or> rest = [] then Inr got
      else case s of
        Moved n \<Rightarrow> (let n = min (max 1 n) (capacity - length got) in read_loop capacity (got @ take n rest) ss (drop n rest))
      | Interrupted \<Rightarrow> read_loop capacity got ss rest
      | Io_failed e \<Rightarrow> Inl e)"

text \<open>A key file as it was found, or the result code and message.\<close>

definition redp2p_load_key_posix :: "key_env \<Rightarrow> string \<Rightarrow> nat \<Rightarrow> file_sys \<Rightarrow> (int \<times> string option) + string" where
  "redp2p_load_key_posix env path capacity fs =
     (case k_fail env (Open_read path) of
        Some e \<Rightarrow> Inl (REDP2P_ERROR, Some (''key: cannot open persisted key: '' @ e))
      | None \<Rightarrow>
          (case fs path of
             None \<Rightarrow> Inl (REDP2P_ENOENT, None)
           | Some n \<Rightarrow>
               if n = Symlink then Inl (REDP2P_ERROR, Some (''key: cannot open persisted key: Too many levels of symbolic links''))
               else case k_fail env (Fstat path) of
                 Some e \<Rightarrow> Inl (REDP2P_ERROR, Some (''key: cannot inspect persisted key: '' @ e))
               | None \<Rightarrow>
                   (case n of
                      Regular content \<Rightarrow>
                        if length content < REDP2P_KEY_SZ \<or> length content > REDP2P_KEY_SZ + 2
                        then Inl (REDP2P_EPROTO, Some ''key: persisted key has unexpected size'')
                        else (case read_loop capacity [] (k_reads env path) content of
                                Inl e \<Rightarrow> Inl (REDP2P_ERROR, Some (''key: persisted key read failed: '' @ e))
                              | Inr data \<Rightarrow>
                                  (case k_fail env (Close_read path) of
                                     Some e \<Rightarrow> Inl (REDP2P_ERROR, Some (''key: persisted key close failed: '' @ e))
                                   | None \<Rightarrow> Inr data))
                    | _ \<Rightarrow> Inl (REDP2P_ERROR, Some ''key: persisted key is not a regular file''))))"

definition redp2p_load_key_path :: "key_env \<Rightarrow> string \<Rightarrow> file_sys \<Rightarrow> (int \<times> string option) + string" where
  "redp2p_load_key_path env path fs =
     (case redp2p_load_key_posix env path (REDP2P_KEY_SZ + 3) fs of
        Inl e \<Rightarrow> Inl e
      | Inr data \<Rightarrow>
          (case redp2p_key_parse data of
             None \<Rightarrow> Inl (REDP2P_EPROTO, Some ''key: persisted key is malformed'')
           | Some key \<Rightarrow> Inr key))"

section \<open>Saving\<close>

text \<open>What the loop around \<^verbatim>\<open>write\<close> has written, and the error that ended it, if one did.\<close>

fun write_loop :: "string \<Rightarrow> io_step list \<Rightarrow> string \<Rightarrow> string \<times> string option" where
  "write_loop done [] rest = (done @ rest, None)"
| "write_loop done (s # ss) rest =
     (if rest = [] then (done, None)
      else case s of
        Moved n \<Rightarrow> (let n = max 1 n in write_loop (done @ take n rest) ss (drop n rest))
      | Interrupted \<Rightarrow> write_loop done ss rest
      | Io_failed e \<Rightarrow> (done, Some e))"

definition sync_dir :: "key_env \<Rightarrow> string \<Rightarrow> string option" where
  "sync_dir env dir =
     (case k_fail env (Open_dir dir) of
        Some e \<Rightarrow> Some (''key: key directory sync failed: '' @ e)
      | None \<Rightarrow>
          (case k_fail env (Fsync_dir dir) of
             Some e \<Rightarrow> Some (''key: key directory sync failed: '' @ e)
           | None \<Rightarrow> map_option (\<lambda>e. ''key: key directory close failed: '' @ e) (k_fail env (Close_dir dir))))"

text \<open>Writing the temporary file and renaming it: the message of the step that failed and the file system.\<close>

definition write_temp :: "key_env \<Rightarrow> string \<Rightarrow> string \<Rightarrow> file_sys \<Rightarrow> string option \<times> file_sys" where
  "write_temp env temp content fs =
     (case write_loop [] (k_writes env) content of (data, err) \<Rightarrow>
        let fs = fs(temp \<mapsto> Regular data);
            failed = (case err of
                        Some e \<Rightarrow> Some e
                      | None \<Rightarrow> (case k_fail env (Fchmod temp) of Some e \<Rightarrow> Some e | None \<Rightarrow> k_fail env (Fsync temp)))
        in case failed of
             Some e \<Rightarrow> (Some (''key: temporary key write failed: '' @ e), fs)
           | None \<Rightarrow> (map_option (\<lambda>e. ''key: temporary key close failed: '' @ e) (k_fail env (Close_written temp)), fs))"

definition replace_key :: "key_env \<Rightarrow> string \<Rightarrow> string \<Rightarrow> file_sys \<Rightarrow> string option \<times> file_sys" where
  "replace_key env temp scoped fs =
     (case k_fail env (Rename scoped) of
        Some e \<Rightarrow> (Some (''key: atomic replacement failed: '' @ e), fs)
      | None \<Rightarrow>
          if fs scoped = Some Directory then (Some ''key: atomic replacement failed: Is a directory'', fs)
          else (None, (fs(scoped := fs temp))(temp := None)))"

definition redp2p_save_key_posix ::
  "key_env \<Rightarrow> redp2p_key_paths_t \<Rightarrow> string \<Rightarrow> string \<Rightarrow> file_sys \<Rightarrow> int \<times> string option \<times> file_sys" where
  "redp2p_save_key_posix env paths temp content fs =
     (let (failed, fs) =
        (case (if fs temp \<noteq> None then Some ''File exists'' else k_fail env (Create temp)) of
           Some e \<Rightarrow> (Some (''key: temporary key create failed: '' @ e), fs)
         | None \<Rightarrow>
             (case write_temp env temp content fs of
                (Some e, fs) \<Rightarrow> (Some e, fs)
              | (None, fs) \<Rightarrow>
                  (case replace_key env temp (kp_scoped paths) fs of
                     (Some e, fs) \<Rightarrow> (Some e, fs)
                   | (None, fs) \<Rightarrow> (sync_dir env (kp_dir paths), fs))))
      in case failed of
           None \<Rightarrow> (REDP2P_OK, None, fs)
         | Some msg \<Rightarrow> (REDP2P_ERROR, Some msg, if k_fail env (Unlink temp) = None then fs(temp := None) else fs))"

definition redp2p_save_key ::
  "key_env \<Rightarrow> redp2p_key_paths_t \<Rightarrow> string \<Rightarrow> file_sys \<Rightarrow> int \<times> string option \<times> file_sys" where
  "redp2p_save_key env paths key fs =
     (case redp2p_mkdir_p env (kp_dir paths) fs of
        (Some e, fs) \<Rightarrow> (REDP2P_ERROR, Some (''key: cannot create key directory: '' @ e), fs)
      | (None, fs) \<Rightarrow>
          (case Option.bind (k_random env) (\<lambda>random. redp2p_hex_encode random 17) of
             None \<Rightarrow> (REDP2P_ERROR, Some ''key: cannot create temporary key name'', fs)
           | Some suffix \<Rightarrow>
               let temp = kp_dir paths @ ''/.'' @ suffix @ ''.tmp''
               in if length temp \<ge> 896 then (REDP2P_ERROR, Some ''key: cannot create temporary key name'', fs)
                  else redp2p_save_key_posix env paths temp (take REDP2P_KEY_SZ key @ [LF]) fs))"

section \<open>Removing\<close>

definition redp2p_remove_key :: "key_env \<Rightarrow> string \<Rightarrow> string \<Rightarrow> file_sys \<Rightarrow> int \<times> string option \<times> file_sys" where
  "redp2p_remove_key env path key fs =
     (case redp2p_load_key_path env path fs of
        Inl (rc, msg) \<Rightarrow> if rc = REDP2P_ENOENT then (REDP2P_OK, None, fs) else (REDP2P_ERROR, msg, fs)
      | Inr current \<Rightarrow>
          if current \<noteq> key then (REDP2P_ERROR, Some ''key: persisted key changed before removal'', fs)
          else case k_fail env (Unlink path) of
            Some e \<Rightarrow> (REDP2P_ERROR, Some (''key: persisted key removal failed: '' @ e), fs)
          | None \<Rightarrow> (REDP2P_OK, None, fs(path := None)))"

section \<open>Scopes\<close>

text \<open>The text that is hashed for a scope.\<close>

definition scope_text :: "string \<Rightarrow> 16 word \<Rightarrow> string \<Rightarrow> byte list" where
  "scope_text index_host index_port ident =
     bytes_of ''redp2p-key-v1'' @ [0] @ bytes_of index_host @ [0] @ [ucast (drop_bit 8 index_port), ucast index_port] @ bytes_of ident @ [0]"

lemma scope_hash_eq:
  assumes "length (sha_buf memory) = 64"
  shows "redp2p_key_scope_hash memory h p i = sha256_ref (scope_text h p i)"
proof -
  have u: "redp2p_sha256_update (redp2p_sha256_update c a) b = redp2p_sha256_update c (a @ b)" for c a b
    by (simp add: redp2p_sha256_update_def)
  show ?thesis
    unfolding redp2p_key_scope_hash_def Let_def u
    using sha_stream_ref(1) [OF assms] by (simp add: scope_text_def)
qed

lemma bytes_no_zero: "NUL \<notin> set s \<Longrightarrow> 0 \<notin> set (bytes_of s)"
proof -
  have "(of_nat (ord c) :: byte) = 0 \<longleftrightarrow> c = NUL" for c using char_byte_inj [of c NUL] by (simp add: NUL_def)
  then show "NUL \<notin> set s \<Longrightarrow> 0 \<notin> set (bytes_of s)" by (auto simp: bytes_of_def)
qed

lemma bytes_inj: "bytes_of a = bytes_of b \<longleftrightarrow> a = b"
  by (simp add: bytes_of_def inj_map_eq_map inj_on_def char_byte_inj del: of_nat_of_char)

lemma split_at_zero:
  assumes "0 \<notin> set a" "0 \<notin> set b" "a @ 0 # r = b @ 0 # r'"
  shows "a = b \<and> r = (r' :: byte list)"
  using assms by (induction a arbitrary: b) (auto simp: Cons_eq_append_conv append_eq_Cons_conv)

lemma port_bytes:
  assumes "ucast (drop_bit 8 p) = (ucast (drop_bit 8 q) :: byte)" "ucast p = (ucast q :: byte)"
  shows "p = (q :: 16 word)"
proof (rule bit_word_eqI)
  fix n assume n: "n < LENGTH(16)"
  have 1: "k < 8 \<Longrightarrow> bit p k = bit q k" for k using arg_cong [OF assms(2), of "\<lambda>w. bit w k"] by (simp add: bit_simps)
  have 2: "k < 8 \<Longrightarrow> bit p (k + 8) = bit q (k + 8)" for k
    using arg_cong [OF assms(1), of "\<lambda>w. bit w k"] by (simp add: bit_simps ac_simps)
  show "bit p n = bit q n" using 1 [of n] 2 [of "n - 8"] n by (cases "n < 8") auto
qed

lemma scope_text_inj:
  assumes "scope_text h p i = scope_text h' p' i'" "NUL \<notin> set h" "NUL \<notin> set h'" "NUL \<notin> set i" "NUL \<notin> set i'"
  shows "h = h' \<and> p = p' \<and> i = i'"
proof -
  let ?p = "[ucast (drop_bit 8 p), ucast p] :: byte list" and ?p' = "[ucast (drop_bit 8 p'), ucast p'] :: byte list"
  have 1: "bytes_of h @ 0 # (?p @ bytes_of i @ [0]) = bytes_of h' @ 0 # (?p' @ bytes_of i' @ [0])" using assms(1) by (simp add: scope_text_def)
  have h: "bytes_of h = bytes_of h'" "?p @ bytes_of i @ [0] = ?p' @ bytes_of i' @ [0]"
    using split_at_zero [OF bytes_no_zero bytes_no_zero 1] assms(2,3) by blast+
  then have "ucast (drop_bit 8 p) = (ucast (drop_bit 8 p') :: byte)" "ucast p = (ucast p' :: byte)" "bytes_of i = bytes_of i'" by simp_all
  then show ?thesis using h(1) port_bytes bytes_inj by blast
qed

lemma key_paths_scoped:
  assumes "length (sha_buf memory) = 64" "redp2p_key_paths memory home sdir h p i = Inr a"
  shows "kp_scoped a = kp_dir a @ ''/'' @ hex_pairs (sha256_ref (scope_text h p i))" "kp_legacy a = kp_dir a @ ''/'' @ i"
  using assms(2) by (auto simp: redp2p_key_paths_def Let_def scope_hash_eq [OF assms(1)] redp2p_hex_encode_def split: if_splits option.splits)

lemma key_paths_dir:
  assumes "redp2p_key_paths memory home sdir h p i = Inr a" "redp2p_key_paths memory home sdir h' p' i' = Inr b"
  shows "kp_dir a = kp_dir b"
  using assms by (auto simp: redp2p_key_paths_def Let_def split: if_splits option.splits)

text \<open>
  Publishers of different scopes share a key file only on a collision of SHA-256: for two
  scopes of one state directory that differ in host, port or identifier, the texts hashed for them
  differ, and their key files are the same exactly when the digests of those two texts are.
\<close>

theorem key_scope_separation:
  assumes "length (sha_buf memory) = 64" "redp2p_key_paths memory home sdir h p i = Inr a" "redp2p_key_paths memory home sdir h' p' i' = Inr b"
    "(h, p, i) \<noteq> (h', p', i')" "NUL \<notin> set h" "NUL \<notin> set h'" "NUL \<notin> set i" "NUL \<notin> set i'"
  shows "scope_text h p i \<noteq> scope_text h' p' i' \<and>
    (kp_scoped a = kp_scoped b) = (sha256_ref (scope_text h p i) = sha256_ref (scope_text h' p' i'))"
proof
  show "scope_text h p i \<noteq> scope_text h' p' i'" using scope_text_inj [OF _ assms(5-8)] assms(4) by blast
  show "(kp_scoped a = kp_scoped b) = (sha256_ref (scope_text h p i) = sha256_ref (scope_text h' p' i'))"
    using key_paths_scoped(1) [OF assms(1,2)] key_paths_scoped(1) [OF assms(1,3)] key_paths_dir [OF assms(2,3)]
    by (simp add: hex_pairs_inj)
qed

definition demo_sha :: redp2p_sha256_t where
  "demo_sha = \<lparr>sha_state = replicate 8 0, sha_count = 0, sha_buf = replicate 64 0\<rparr>"

lemma length_scope_hash: "length (sha_buf memory) = 64 \<Longrightarrow> length (redp2p_key_scope_hash memory h p i) = 32"
  by (simp add: scope_hash_eq length_sha256_ref)

lemma demo_paths:
  "redp2p_key_paths demo_sha None ''/s'' h p ''web'' =
    Inr \<lparr>kp_dir = ''/s/keys'', kp_scoped = ''/s/keys/'' @ hex_pairs (redp2p_key_scope_hash demo_sha h p ''web''), kp_legacy = ''/s/keys/web''\<rparr>"
  using length_scope_hash [of demo_sha h p "''web''"]
  by (simp add: redp2p_key_paths_def Let_def redp2p_hex_encode_def demo_sha_def)

theorem key_scope_separation_witness:
  "\<exists>a b. redp2p_key_paths demo_sha None ''/s'' ''a'' 80 ''web'' = Inr a \<and> redp2p_key_paths demo_sha None ''/s'' ''a'' 81 ''web'' = Inr b
    \<and> (kp_scoped a = kp_scoped b) = (sha256_ref (scope_text ''a'' 80 ''web'') = sha256_ref (scope_text ''a'' 81 ''web''))"
  using key_scope_separation [of demo_sha None "''/s''" "''a''" 80 "''web''" _ "''a''" 81 "''web''", OF _ demo_paths demo_paths] demo_paths
  by (simp add: demo_sha_def NUL_def)

section \<open>What saving does to the file system\<close>

definition only_new_dirs :: "nat \<Rightarrow> file_sys \<Rightarrow> file_sys \<Rightarrow> bool" where
  "only_new_dirs n fs fs' \<longleftrightarrow> (\<forall>p. fs' p = fs p \<or> fs p = None \<and> fs' p = Some Directory \<and> length p \<le> n)"

lemma new_dirs_trans: "only_new_dirs n fs fs1 \<Longrightarrow> only_new_dirs n fs1 fs2 \<Longrightarrow> only_new_dirs n fs fs2"
  unfolding only_new_dirs_def by metis

lemma make_dir_new: "length path \<le> n \<Longrightarrow> only_new_dirs n fs (snd (make_dir env path fs))"
  by (auto simp: make_dir_def only_new_dirs_def split: option.splits)

lemma mkdir_parents_new: "length pre + length rest \<le> n \<Longrightarrow> only_new_dirs n fs (snd (mkdir_parents env pre rest fs))"
proof (induction rest arbitrary: pre fs)
  case (Cons c rest)
  show ?case
  proof (cases "c \<noteq> CHR ''/'' \<and> c \<noteq> char_of (92 :: nat)")
    case True
    then show ?thesis using Cons.IH [of "pre @ [c]" fs] Cons.prems by simp
  next
    case False
    obtain e fs1 where m: "make_dir env pre fs = (e, fs1)" by fastforce
    have 1: "only_new_dirs n fs fs1" using make_dir_new [of pre n fs env] m Cons.prems by simp
    have 2: "only_new_dirs n fs1 (snd (mkdir_parents env (pre @ [CHR ''/'']) rest fs1))" by (rule Cons.IH) (use Cons.prems in simp)
    show ?thesis using False m 1 new_dirs_trans [OF 1 2] by (cases e) auto
  qed
qed (simp add: only_new_dirs_def)

lemma mkdir_p_new: "only_new_dirs (length path) fs (snd (redp2p_mkdir_p env path fs))"
proof -
  obtain e fs1 where m: "mkdir_parents env (take 1 path) (drop 1 path) fs = (e, fs1)" by fastforce
  have 1: "only_new_dirs (length path) fs fs1"
    using mkdir_parents_new [of "take 1 path" "drop 1 path" "length path" fs env] m by simp
  have 2: "only_new_dirs (length path) fs1 (snd (make_dir env (slashed path) fs1))" by (rule make_dir_new) simp
  show ?thesis
    using 1 new_dirs_trans [OF 1 2] m by (auto simp: redp2p_mkdir_p_def Let_def split: option.splits prod.splits)
qed

lemma write_loop_prefix: "\<exists>k. fst (write_loop d ss rest) = d @ take k rest"
proof (induction ss arbitrary: d rest)
  case (Cons s ss)
  show ?case
  proof (cases "rest = []")
    case False
    show ?thesis
    proof (cases s)
      case (Moved n)
      obtain k where "fst (write_loop (d @ take (max 1 n) rest) ss (drop (max 1 n) rest)) = (d @ take (max 1 n) rest) @ take k (drop (max 1 n) rest)"
        using Cons.IH by blast
      then have "fst (write_loop d (s # ss) rest) = d @ take (max 1 n + k) rest" using False Moved by (simp add: Let_def take_add)
      then show ?thesis by blast
    qed (use False Cons.IH in \<open>auto intro: exI [where x = 0]\<close>)
  qed simp
next
  case Nil
  show ?case by (rule exI [of _ "length rest"]) simp
qed

lemma write_loop_all: "snd (write_loop d ss rest) = None \<Longrightarrow> fst (write_loop d ss rest) = d @ rest"
proof (induction ss arbitrary: d rest)
  case (Cons s ss)
  then show ?case by (cases s) (auto simp: Let_def split: if_splits)
qed simp

lemma write_loop_ok: "\<forall>e. Io_failed e \<notin> set ss \<Longrightarrow> write_loop d ss rest = (d @ rest, None)"
proof (induction ss arbitrary: d rest)
  case (Cons s ss)
  then show ?case by (cases s) (auto simp: Let_def)
qed simp

lemma read_loop_all:
  assumes "\<forall>e. Io_failed e \<notin> set ss" "length got + length rest \<le> capacity"
  shows "read_loop capacity got ss rest = Inr (got @ rest)"
  using assms
proof (induction ss arbitrary: got rest)
  case (Cons s ss)
  show ?case
  proof (cases "rest = []")
    case False
    show ?thesis
    proof (cases s)
      case (Moved n)
      let ?n = "min (max 1 n) (capacity - length got)"
      have "read_loop capacity (got @ take ?n rest) ss (drop ?n rest) = Inr ((got @ take ?n rest) @ drop ?n rest)"
        by (rule Cons.IH) (use Cons.prems in auto)
      then show ?thesis using False Moved Cons.prems by (cases rest) (auto simp: Let_def)
    qed (use False Cons in \<open>cases rest; auto\<close>)+
  qed simp
qed simp

lemma write_temp_result:
  assumes "write_temp env temp content fs = (m, fs')"
  shows "(m = None \<longrightarrow> fs' temp = Some (Regular content)) \<and> (\<forall>p. p \<noteq> temp \<longrightarrow> fs' p = fs p)"
proof -
  obtain data err where w: "write_loop [] (k_writes env) content = (data, err)" by fastforce
  have "err = None \<longrightarrow> data = content" using write_loop_all [of "[]" "k_writes env" content] w by simp
  then show ?thesis using assms w by (auto simp: write_temp_def Let_def split: option.splits)
qed

lemma save_posix_result:
  assumes "redp2p_save_key_posix env paths temp content fs = (rc, msg, fs')" "temp \<noteq> kp_scoped paths"
  shows "(\<forall>p. p \<noteq> temp \<and> p \<noteq> kp_scoped paths \<longrightarrow> fs' p = fs p) \<and>
    (fs' (kp_scoped paths) = fs (kp_scoped paths) \<or> fs' (kp_scoped paths) = Some (Regular content)) \<and>
    (rc = REDP2P_OK \<and> fs' (kp_scoped paths) = Some (Regular content) \<and> fs' temp = None \<or>
     rc = REDP2P_ERROR \<and> msg \<noteq> None \<and> (k_fail env (Unlink temp) = None \<longrightarrow> fs' temp = None))"
proof (cases "(if fs temp \<noteq> None then Some ''File exists'' else k_fail env (Create temp))")
  case (Some e)
  then show ?thesis using assms by (auto simp: redp2p_save_key_posix_def)
next
  case n0: None
  obtain m1 fs1 where 1: "write_temp env temp content fs = (m1, fs1)" by fastforce
  obtain m2 fs2 where 2: "replace_key env temp (kp_scoped paths) fs1 = (m2, fs2)" by fastforce
  note w = write_temp_result [OF 1]
  have r: "(m2 = None \<longrightarrow> fs2 = (fs1(kp_scoped paths := fs1 temp))(temp := None)) \<and> (m2 \<noteq> None \<longrightarrow> fs2 = fs1)"
    using 2 by (auto simp: replace_key_def split: option.splits if_splits)
  note run = assms(1) [unfolded redp2p_save_key_posix_def n0 option.case 1 prod.case]
  show ?thesis
  proof (cases m1)
    case (Some e)
    then show ?thesis using run w assms(2) by auto
  next
    case n1: None
    show ?thesis
    proof (cases m2)
      case (Some e)
      then show ?thesis using run n1 2 w r assms(2) by auto
    next
      case n2: None
      then show ?thesis using run n1 2 w r assms(2) by (cases "sync_dir env (kp_dir paths)") auto
    qed
  qed
qed

text \<open>A call that meets no failure reading a path.\<close>

definition calm :: "key_env \<Rightarrow> string \<Rightarrow> bool" where
  "calm env p \<longleftrightarrow> k_fail env (Open_read p) = None \<and> k_fail env (Fstat p) = None \<and> k_fail env (Close_read p) = None \<and>
     (\<forall>e. Io_failed e \<notin> set (k_reads env p))"

lemma key_parse_line:
  assumes "redp2p_is_hex_token key REDP2P_KEY_SZ"
  shows "redp2p_key_parse (key @ [LF]) = Some key"
proof -
  have "redp2p_hex_decode_nibble c \<ge> 0" if "is_hex_digit c" for c
    using that by (auto simp: is_hex_digit_def redp2p_hex_decode_nibble_def between_def)
  then have "list_all (\<lambda>c. redp2p_hex_decode_nibble c \<ge> 0) key"
    using assms by (auto simp: redp2p_is_hex_token_def list_all_iff)
  then show ?thesis using assms by (simp add: redp2p_key_parse_def redp2p_is_hex_token_def Let_def nth_append)
qed

lemma load_saved:
  assumes "calm env p" "fs p = Some (Regular (key @ [LF]))" "redp2p_is_hex_token key REDP2P_KEY_SZ"
  shows "redp2p_load_key_path env p fs = Inr key"
proof -
  have l: "length key = REDP2P_KEY_SZ" using assms(3) by (simp add: redp2p_is_hex_token_def)
  have "read_loop (REDP2P_KEY_SZ + 3) [] (k_reads env p) (key @ [LF]) = Inr ([] @ (key @ [LF]))"
    by (rule read_loop_all) (use assms(1) l in \<open>auto simp: calm_def\<close>)
  then show ?thesis
    using assms(1,2) l key_parse_line [OF assms(3)] by (simp add: redp2p_load_key_path_def redp2p_load_key_posix_def calm_def)
qed

text \<open>
  C15: Saving a key is atomic, whatever system call fails and however reads and writes are split:
  the key file holds its old content or the new key followed by a line end, never a part; no other
  path changes, except directories created above it and one temporary name; success means that the
  new key is there, nothing temporary is left, and every later load that the system does not fail
  gives exactly that key; and a failure leaves a message.
\<close>

theorem key_save_atomic:
  assumes "length (sha_buf memory) = 64" "redp2p_key_paths memory home sdir h p i = Inr paths" "redp2p_is_hex_token key REDP2P_KEY_SZ"
    "redp2p_save_key env paths key fs = (rc, msg, fs')"
  shows "(fs' (kp_scoped paths) = fs (kp_scoped paths) \<or> fs' (kp_scoped paths) = Some (Regular (key @ [LF]))) \<and>
    (\<exists>temp. \<forall>q. q \<noteq> kp_scoped paths \<and> q \<noteq> temp \<longrightarrow> fs' q = fs q \<or> fs q = None \<and> fs' q = Some Directory \<and> length q \<le> length (kp_dir paths)) \<and>
    (if rc = REDP2P_OK
     then fs' (kp_scoped paths) = Some (Regular (key @ [LF])) \<and>
       (\<forall>q. fs' q \<noteq> None \<and> fs q = None \<longrightarrow> q = kp_scoped paths \<or> fs' q = Some Directory) \<and>
       (\<forall>env'. calm env' (kp_scoped paths) \<longrightarrow> redp2p_load_key_path env' (kp_scoped paths) fs' = Inr key)
     else rc = REDP2P_ERROR \<and> msg \<noteq> None)"
proof -
  let ?s = "kp_scoped paths" and ?d = "kp_dir paths" and ?c = "take REDP2P_KEY_SZ key @ [LF]"
  have key: "?c = key @ [LF]" using assms(3) by (simp add: redp2p_is_hex_token_def)
  have sc: "length ?d < length ?s" using key_paths_scoped(1) [OF assms(1,2)] by simp
  obtain m fs1 where 1: "redp2p_mkdir_p env ?d fs = (m, fs1)" by fastforce
  have d: "fs1 q = fs q \<or> fs q = None \<and> fs1 q = Some Directory \<and> length q \<le> length ?d" for q
    using mkdir_p_new [of ?d fs env] 1 by (simp add: only_new_dirs_def)
  then have s1: "fs1 ?s = fs ?s" using sc by (metis not_le)
  consider (early) "rc = REDP2P_ERROR" "msg \<noteq> None" "fs' = fs1"
    | (posix) suffix where "redp2p_save_key_posix env paths (?d @ ''/.'' @ suffix @ ''.tmp'') ?c fs1 = (rc, msg, fs')"
    using assms(4) 1 by (cases m) (auto simp: redp2p_save_key_def Let_def split: option.splits if_splits)
  then show ?thesis
  proof cases
    case early
    then show ?thesis using d s1 by (auto simp: macros)
  next
    case posix
    let ?t = "?d @ ''/.'' @ suffix @ ''.tmp''"
    let ?h = "hex_pairs (sha256_ref (scope_text h p i))"
    have "length ?h = 64" by (simp add: length_sha256_ref)
    then have "?h \<noteq> []" by (metis list.size(3) zero_neq_numeral)
    moreover have "list_all is_hex_digit ?h" by (rule list_all_hex_pairs)
    ultimately have "hd ?h \<noteq> CHR ''.''" by (cases ?h) (auto simp: is_hex_digit_def between_def)
    with \<open>?h \<noteq> []\<close> have t: "?t \<noteq> ?s" using key_paths_scoped(1) [OF assms(1,2)] by (cases ?h) auto
    note r = save_posix_result [OF posix t, unfolded key]
    have others: "q \<noteq> ?s \<Longrightarrow> q \<noteq> ?t \<Longrightarrow> fs' q = fs q \<or> fs q = None \<and> fs' q = Some Directory \<and> length q \<le> length ?d" for q
      using r d [of q] by auto
    show ?thesis
    proof (intro conjI)
      show "fs' ?s = fs ?s \<or> fs' ?s = Some (Regular (key @ [LF]))" using r s1 by auto
      show "\<exists>temp. \<forall>q. q \<noteq> ?s \<and> q \<noteq> temp \<longrightarrow> fs' q = fs q \<or> fs q = None \<and> fs' q = Some Directory \<and> length q \<le> length ?d"
        using others by (intro exI [of _ ?t]) blast
      show "if rc = REDP2P_OK
        then fs' ?s = Some (Regular (key @ [LF])) \<and> (\<forall>q. fs' q \<noteq> None \<and> fs q = None \<longrightarrow> q = ?s \<or> fs' q = Some Directory) \<and>
          (\<forall>env'. calm env' ?s \<longrightarrow> redp2p_load_key_path env' ?s fs' = Inr key)
        else rc = REDP2P_ERROR \<and> msg \<noteq> None"
      proof (cases "rc = REDP2P_OK")
        case True
        then have ok: "fs' ?s = Some (Regular (key @ [LF]))" "fs' ?t = None" using r by (simp_all add: macros)
        then have "fs' q \<noteq> None \<and> fs q = None \<longrightarrow> q = ?s \<or> fs' q = Some Directory" for q using others [of q] by metis
        then show ?thesis using True ok(1) load_saved [where fs = fs' and p = ?s and key = key] assms(3) by simp
      qed (use r in auto)
    qed
  qed
qed

lemma mkdir_parents_ok: "\<forall>c. k_fail env c = None \<Longrightarrow> fst (mkdir_parents env pre rest fs) = None"
  by (induction rest arbitrary: pre fs) (simp_all add: make_dir_def)

lemma mkdir_p_ok: "\<forall>c. k_fail env c = None \<Longrightarrow> fst (redp2p_mkdir_p env path fs) = None"
  using mkdir_parents_ok [of env "take 1 path" "drop 1 path" fs] by (auto simp: redp2p_mkdir_p_def make_dir_def Let_def split: prod.splits)

definition demo_key_env :: key_env where
  "demo_key_env = \<lparr>k_fail = (\<lambda>_. None), k_reads = (\<lambda>_. [Moved 3, Interrupted]), k_writes = [Moved 5, Interrupted, Moved 0],
     k_random = Some [1, 2, 3, 4, 5, 6, 7, 8]\<rparr>"

theorem key_save_atomic_witness:
  "\<exists>paths msg fs'. redp2p_key_paths demo_sha None ''/s'' ''a'' 80 ''web'' = Inr paths \<and>
    redp2p_save_key demo_key_env paths ''0123456789abcdef'' (\<lambda>_. None) = (REDP2P_OK, msg, fs') \<and>
    redp2p_load_key_path demo_key_env (kp_scoped paths) fs' = Inr ''0123456789abcdef''"
proof -
  obtain paths where p: "redp2p_key_paths demo_sha None ''/s'' ''a'' 80 ''web'' = Inr paths" "kp_dir paths = ''/s/keys''"
    using demo_paths [of "''a''" 80] by simp
  obtain rc msg fs' where s: "redp2p_save_key demo_key_env paths ''0123456789abcdef'' (\<lambda>_. None) = (rc, msg, fs')"
    by (metis prod_cases3)
  have h: "redp2p_is_hex_token ''0123456789abcdef'' REDP2P_KEY_SZ" by code_simp
  have c: "calm demo_key_env q" for q by (simp add: calm_def demo_key_env_def)
  obtain m fs1 where 1: "redp2p_mkdir_p demo_key_env (kp_dir paths) (\<lambda>_. None) = (m, fs1)" by fastforce
  have m: "m = None" using mkdir_p_ok [of demo_key_env "kp_dir paths" "\<lambda>_. None"] 1 by (simp add: demo_key_env_def)
  have new: "only_new_dirs (length (kp_dir paths)) (\<lambda>_. None) fs1" using mkdir_p_new [of "kp_dir paths" "\<lambda>_. None" demo_key_env] 1 by simp
  have long: "length (kp_dir paths) < length q \<Longrightarrow> fs1 q = None" for q using new by (metis only_new_dirs_def not_le)
  have sc: "fs1 (kp_scoped paths) = None" by (rule long) (simp add: key_paths_scoped(1) [OF _ p(1)] demo_sha_def)
  have t: "fs1 (''/s/keys/.'' @ suffix @ ''.tmp'') = None" for suffix by (rule long) (simp add: p(2))
  have e: "k_fail demo_key_env = (\<lambda>_. None)" "k_random demo_key_env = Some [1, 2, 3, 4, 5, 6, 7, 8]"
    "write_loop [] (k_writes demo_key_env) c = (c, None)" for c
    using write_loop_ok [of "k_writes demo_key_env" "[]" c] by (simp_all add: demo_key_env_def)
  obtain suffix where suffix: "redp2p_hex_encode [1, 2, 3, 4, 5, 6, 7, 8] 17 = Some suffix" "length suffix = 16"
    by (simp add: redp2p_hex_encode_def del: hex_pairs.simps)
  have "rc = REDP2P_OK"
    using s t sc suffix by (cases "kp_scoped paths = ''/s/keys/.'' @ suffix @ ''.tmp''") (auto simp: redp2p_save_key_def 1 [unfolded m p(2)] p(2) e Let_def redp2p_save_key_posix_def
        write_temp_def replace_key_def sync_dir_def)
  then show ?thesis using key_save_atomic [OF _ p(1) h s] p(1) s c by (auto simp: demo_sha_def)
qed

end
