(* ===== verification/Peer_World.thy ===== *)
theory Peer_World
  imports Index_Server Stream Stun Punch Key_Files
begin

text \<open>
  What publisher and consumer share: the world they run in and the calls that reach it. A world is
  the library context, the files of the key store and the log of everything the process has
  done to the system. The answers of the system are functions of that log, the record \<open>peer_env\<close>,
  so successive calls may be answered differently. A datagram is a list of bytes.
\<close>

section \<open>The world\<close>

datatype peer_event =
  Opened int | Closed int | Sent_to int sockaddr_storage "byte list" | Wrote int "byte list" | Shut_down int
| Request JSON_Value | Waited u32

record peer_world =
  pw_ctx :: redp2p
  pw_log :: "peer_event list"
  pw_fs :: file_sys

text \<open>What gathering candidates finds: the socket's name, the probe socket with the local address, and the STUN exchange.\<close>

record gather_env =
  ga_sockname :: "sockaddr_storage option"
  ga_probe :: "int \<times> string option"
  ga_stun :: stun_env

record peer_env =
  pe_net :: inet_ops
  pe_libc :: libc_ops
  pe_sha :: redp2p_sha256_t
  pe_home :: "string option"
  pe_now_ms :: "peer_event list \<Rightarrow> u64"
  pe_alloc :: "peer_event list \<Rightarrow> bool"
  pe_random :: "peer_event list \<Rightarrow> nat \<Rightarrow> byte list option"
  pe_platform :: "peer_event list \<Rightarrow> bool"
  pe_sockets :: "peer_event list \<Rightarrow> (int \<times> bool) list"
  pe_recv :: "peer_event list \<Rightarrow> int \<Rightarrow> (byte list \<times> sockaddr_storage) option"
  pe_accept :: "peer_event list \<Rightarrow> int \<Rightarrow> int"
  pe_tcp_read :: "peer_event list \<Rightarrow> int \<Rightarrow> tcp_read"
  pe_http :: "peer_event list \<Rightarrow> http_env"
  pe_gather :: "peer_event list \<Rightarrow> gather_env"
  pe_key :: "peer_event list \<Rightarrow> key_env"
  pe_pow_stop :: "peer_event list \<Rightarrow> u32 \<Rightarrow> bool"
  pe_stream :: "peer_event list \<Rightarrow> stream_env"
  pe_stream_alloc :: "peer_event list \<Rightarrow> bool \<times> bool \<times> bool"
  pe_punch :: "peer_event list \<Rightarrow> punch_env \<times> punch_event list"

definition did :: "peer_event list \<Rightarrow> peer_world \<Rightarrow> peer_world" where
  "did evs w = w\<lparr>pw_log := pw_log w @ evs\<rparr>"

definition note_error :: "string option \<Rightarrow> peer_world \<Rightarrow> peer_world" where
  "note_error msg w = (case msg of None \<Rightarrow> w | Some m \<Rightarrow> w\<lparr>pw_ctx := redp2p_set_error (Some m) (pw_ctx w)\<rparr>)"

abbreviation err :: "string \<Rightarrow> peer_world \<Rightarrow> peer_world" where
  "err m \<equiv> note_error (Some m)"

definition clear_error :: "peer_world \<Rightarrow> peer_world" where
  "clear_error w = w\<lparr>pw_ctx := redp2p_set_error None (pw_ctx w)\<rparr>"

definition now_ms :: "peer_env \<Rightarrow> peer_world \<Rightarrow> u64" where
  "now_ms env w = pe_now_ms env (pw_log w)"

definition redp2p_now_s :: "peer_env \<Rightarrow> peer_world \<Rightarrow> u64" where
  "redp2p_now_s env w = now_ms env w div 1000"

definition set_ctx :: "(redp2p \<Rightarrow> redp2p) \<Rightarrow> peer_world \<Rightarrow> peer_world" where
  "set_ctx f w = w\<lparr>pw_ctx := f (pw_ctx w)\<rparr>"

section \<open>Sockets\<close>

text \<open>
  The loop over the addresses of a host: each gives a descriptor, or a negative number, and the
  calls after it succeed or not; the first that succeeds is kept.
\<close>

fun open_first :: "(int \<times> bool) list \<Rightarrow> int \<times> peer_event list" where
  "open_first [] = (- 1, [])"
| "open_first ((fd, fine) # rest) =
     (if fd < 0 then open_first rest
      else if fine then (fd, [Opened fd])
      else let (fd', evs) = open_first rest in (fd', Opened fd # Closed fd # evs))"

definition open_socket :: "peer_env \<Rightarrow> peer_world \<Rightarrow> int \<times> peer_world" where
  "open_socket env w = (let (fd, evs) = open_first (pe_sockets env (pw_log w)) in (fd, did evs w))"

definition redp2p_create_socket :: "peer_env \<Rightarrow> peer_world \<Rightarrow> int \<times> peer_world" where
  "redp2p_create_socket env w = (if \<not> pe_platform env (pw_log w) then (- 1, w) else open_socket env w)"

definition redp2p_create_tcp_listener :: "peer_env \<Rightarrow> peer_world \<Rightarrow> int \<times> peer_world" where
  "redp2p_create_tcp_listener env w = open_socket env w"

text \<open>One socket, connected to the loopback address.\<close>

definition redp2p_connect_local_tcp :: "peer_env \<Rightarrow> peer_world \<Rightarrow> int \<times> peer_world" where
  "redp2p_connect_local_tcp env w =
     (let (fd, evs) = open_first (take 1 (pe_sockets env (pw_log w))) in (fd, did evs w))"

definition redp2p_host_is_ipv6_literal :: "peer_env \<Rightarrow> string \<Rightarrow> bool" where
  "redp2p_host_is_ipv6_literal env host \<longleftrightarrow> pton6 (pe_net env) host \<noteq> None"

definition any_host :: "peer_env \<Rightarrow> string \<Rightarrow> string" where
  "any_host env host = (if redp2p_host_is_ipv6_literal env host then ''::'' else ''0.0.0.0'')"

definition send_to :: "int \<Rightarrow> sockaddr_storage \<Rightarrow> byte list \<Rightarrow> peer_world \<Rightarrow> peer_world" where
  "send_to fd addr buf w = (if redp2p_sockaddr_len addr = 0 then w else did [Sent_to fd addr buf] w)"

definition close_fd :: "int \<Rightarrow> peer_world \<Rightarrow> peer_world" where
  "close_fd fd w = did [Closed fd] w"

section \<open>The components they call\<close>

text \<open>Sockets that a call obtains and closes itself.\<close>

fun sock_event_of :: "sock_event \<Rightarrow> peer_event" where
  "sock_event_of (Sock_opened fd) = Opened fd"
| "sock_event_of (Sock_closed fd) = Closed fd"

definition http_request ::
  "peer_env \<Rightarrow> string \<Rightarrow> string \<Rightarrow> 16 word \<Rightarrow> JSON_Object \<Rightarrow> peer_world \<Rightarrow> (int + JSON_Object) \<times> peer_world" where
  "http_request env phase host port req w =
     (let (r, evs) = redp2p_http_client (pe_http env (pw_log w)) (pe_libc env) phase (Some host) port (JSONObject req);
          w = did (Request (JSONObject req) # map sock_event_of evs) w
      in case r of
        Inl (rc, msg) \<Rightarrow> (Inl rc, note_error msg w)
      | Inr (JSONObject out) \<Rightarrow> (Inr out, w)
      | Inr _ \<Rightarrow> (Inl REDP2P_EPROTO, w))"

definition gather :: "peer_env \<Rightarrow> nat \<Rightarrow> peer_world \<Rightarrow> int \<times> redp2p_candidate_t list \<times> peer_world" where
  "gather env out_cap w =
     (let g = pe_gather env (pw_log w)
      in case redp2p_gather_candidates (pe_net env) (stun_url (pw_ctx w)) (ga_sockname g) (ga_probe g)
                (redp2p_stun_binding (ga_stun g) (pw_ctx w) (REDP2P_ADDR_MAX + 1)) out_cap of
           (rc, candidates, evs) \<Rightarrow> (rc, candidates, did (map sock_event_of evs) w))"

text \<open>A stream operation on the session whose peer is reached through \<open>udp\<close> and whose local end is \<open>tcp\<close>.\<close>

fun stream_event_of :: "int \<Rightarrow> sockaddr_storage \<Rightarrow> int \<Rightarrow> stream_event \<Rightarrow> peer_event" where
  "stream_event_of udp peer tcp (Udp b) = Sent_to udp peer b"
| "stream_event_of udp peer tcp (Tcp b) = Wrote tcp b"
| "stream_event_of udp peer tcp Shut = Shut_down tcp"

definition on_stream ::
  "peer_env \<Rightarrow> int \<Rightarrow> sockaddr_storage \<Rightarrow> int \<Rightarrow> (stream_env \<Rightarrow> stream_io \<Rightarrow> 'r \<times> stream_io) \<Rightarrow> peer_world \<Rightarrow> 'r \<times> peer_world" where
  "on_stream env udp peer tcp act w =
     (let (r, io) = act (pe_stream env (pw_log w)) \<lparr>io_ctx = pw_ctx w, io_log = []\<rparr>
      in (r, did (map (stream_event_of udp peer tcp) (io_log io)) (w\<lparr>pw_ctx := io_ctx io\<rparr>)))"

definition stream_act ::
  "peer_env \<Rightarrow> int \<Rightarrow> sockaddr_storage \<Rightarrow> int
   \<Rightarrow> (stream_env \<Rightarrow> redp2p_stream_state_t \<Rightarrow> stream_io \<Rightarrow> int \<times> redp2p_stream_state_t \<times> stream_io)
   \<Rightarrow> redp2p_stream_state_t \<Rightarrow> peer_world \<Rightarrow> int \<times> redp2p_stream_state_t \<times> peer_world" where
  "stream_act env udp peer tcp act st w =
     (case on_stream env udp peer tcp (\<lambda>senv io. case act senv st io of (r, st, io) \<Rightarrow> ((r, st), io)) w of
        ((r, st), w) \<Rightarrow> (r, st, w))"

definition stream_fail ::
  "peer_env \<Rightarrow> int \<Rightarrow> sockaddr_storage \<Rightarrow> int \<Rightarrow> redp2p_stream_state_t \<Rightarrow> peer_world \<Rightarrow> redp2p_stream_state_t \<times> peer_world" where
  "stream_fail env udp peer tcp st w = on_stream env udp peer tcp (\<lambda>senv io. redp2p_stream_fail senv st io) w"

definition stream_open ::
  "peer_env \<Rightarrow> int \<Rightarrow> sockaddr_storage \<Rightarrow> int \<Rightarrow> bool \<Rightarrow> byte list \<Rightarrow> string \<Rightarrow> peer_world
   \<Rightarrow> int \<times> redp2p_stream_state_t \<times> peer_world" where
  "stream_open env udp peer tcp initiator session_id session_hex w =
     stream_act env udp peer tcp
       (\<lambda>senv st io. redp2p_stream_init senv (pe_stream_alloc env (pw_log w)) initiator peer session_id (Some session_hex) proto_tcp io)
       zero_stream w"

definition punch ::
  "peer_env \<Rightarrow> int \<Rightarrow> string \<Rightarrow> string \<Rightarrow> string \<Rightarrow> redp2p_candidate_t list \<Rightarrow> peer_world
   \<Rightarrow> int \<times> sockaddr_storage option \<times> peer_world" where
  "punch env udp session_id from_id to_id candidates w =
     (let (penv, script) = pe_punch env (pw_log w);
          io = \<lparr>readings = 0, pending = script, sent = [], waits = [], malformed = 0, mismatched = 0, unsupported = 0\<rparr>
      in case redp2p_punch_select penv (ctx_sweep (pw_ctx w)) session_id from_id to_id candidates (pw_ctx w) io of
           (rc, found, ctx, io) \<Rightarrow> (rc, found, did (map (\<lambda>(a, m). Sent_to udp a (bytes_of m)) (sent io)) (w\<lparr>pw_ctx := ctx\<rparr>)))"

text \<open>Operations on the key store; the messages are dropped where the code passes no context.\<close>

definition key_paths :: "peer_env \<Rightarrow> string \<Rightarrow> 16 word \<Rightarrow> string \<Rightarrow> peer_world \<Rightarrow> redp2p_key_paths_t option \<times> peer_world" where
  "key_paths env host port ident w =
     (case redp2p_key_paths (pe_sha env) (pe_home env) (state_dir (pw_ctx w)) host port ident of
        Inl msg \<Rightarrow> (None, err msg w)
      | Inr paths \<Rightarrow> (Some paths, w))"

definition save_key :: "peer_env \<Rightarrow> redp2p_key_paths_t \<Rightarrow> string \<Rightarrow> peer_world \<Rightarrow> int \<times> peer_world" where
  "save_key env paths key w =
     (case redp2p_save_key (pe_key env (pw_log w)) paths key (pw_fs w) of
        (rc, msg, fs) \<Rightarrow> (rc, note_error msg (w\<lparr>pw_fs := fs\<rparr>)))"

definition load_key :: "peer_env \<Rightarrow> string \<Rightarrow> peer_world \<Rightarrow> (int + string) \<times> peer_world" where
  "load_key env path w =
     (case redp2p_load_key_path (pe_key env (pw_log w)) path (pw_fs w) of
        Inl (rc, msg) \<Rightarrow> (Inl rc, note_error msg w)
      | Inr key \<Rightarrow> (Inr key, w))"

definition remove_key :: "peer_env \<Rightarrow> bool \<Rightarrow> string \<Rightarrow> string \<Rightarrow> peer_world \<Rightarrow> int \<times> peer_world" where
  "remove_key env with_ctx path key w =
     (case redp2p_remove_key (pe_key env (pw_log w)) path key (pw_fs w) of
        (rc, msg, fs) \<Rightarrow> (rc, note_error (if with_ctx then msg else None) (w\<lparr>pw_fs := fs\<rparr>)))"

section \<open>Deregistering and listing\<close>

definition redp2p_deregister_with_key ::
  "peer_env \<Rightarrow> bool \<Rightarrow> string \<Rightarrow> 16 word \<Rightarrow> string \<Rightarrow> string \<Rightarrow> peer_world \<Rightarrow> int \<times> peer_world" where
  "redp2p_deregister_with_key env with_ctx host port ident key w =
     (if key = [] then (REDP2P_ENOENT, w)
      else let obj = json_object_set_string [] ''op'' ''deregister'';
               obj = json_object_set_string obj ''id'' ident;
               obj = json_object_set_string obj ''key'' key;
               ctx = pw_ctx w
           in case http_request env ''deregister'' host port obj w of
                (Inl rc, w) \<Rightarrow> (rc, if with_ctx then w else w\<lparr>pw_ctx := ctx\<rparr>)
              | (Inr _, w) \<Rightarrow> (REDP2P_OK, if with_ctx then clear_error w else w\<lparr>pw_ctx := ctx\<rparr>))"

definition redp2p_deregister :: "peer_env \<Rightarrow> string \<Rightarrow> 16 word \<Rightarrow> string \<Rightarrow> peer_world \<Rightarrow> int \<times> peer_world" where
  "redp2p_deregister env host port ident w =
     (let w = clear_error w
      in if host = [] then (REDP2P_EINVAL, err ''deregister: index host is missing'' w)
         else if port = 0 then (REDP2P_EINVAL, err ''deregister: index port must be nonzero'' w)
         else if \<not> redp2p_is_valid_id ident then (REDP2P_EINVAL, err ''deregister: publisher id is invalid'' w)
         else case key_paths env host port ident w of
           (None, w) \<Rightarrow> (REDP2P_ERROR, w)
         | (Some paths, w) \<Rightarrow>
             let ((result, w), loaded_path) =
                (case load_key env (kp_scoped paths) w of
                   (Inl rc, w) \<Rightarrow> if rc = REDP2P_ENOENT then (load_key env (kp_legacy paths) w, kp_legacy paths)
                                   else ((Inl rc, w), kp_scoped paths)
                 | (Inr key, w) \<Rightarrow> ((Inr key, w), kp_scoped paths))
             in (case result of
                   Inl rc \<Rightarrow> if rc = REDP2P_ENOENT
                             then (REDP2P_ENOENT, err ''deregister: no persisted key for publisher'' w) else (rc, w)
                 | Inr key \<Rightarrow>
                     (case redp2p_deregister_with_key env True host port ident key w of (rc, w) \<Rightarrow>
                        if rc = REDP2P_OK then remove_key env True loaded_path key w else (rc, w))))"

text \<open>The publishers the callback is called with, in order, and the result.\<close>

fun collect_ids :: "JSON_Value list \<Rightarrow> string list \<times> bool" where
  "collect_ids [] = ([], True)"
| "collect_ids (v # vs) =
     (case json_value_get_string v of
        None \<Rightarrow> ([], False)
      | Some ident \<Rightarrow>
          if \<not> redp2p_is_valid_id ident then ([], False)
          else let (ids, ok) = collect_ids vs in (ident # ids, ok))"

definition redp2p_list_publishers :: "peer_env \<Rightarrow> string \<Rightarrow> 16 word \<Rightarrow> peer_world \<Rightarrow> int \<times> string list \<times> peer_world" where
  "redp2p_list_publishers env host port w =
     (if host = [] then (REDP2P_ERROR, [], w)
      else case http_request env ''list'' host port (json_object_set_string [] ''op'' ''list'') (clear_error w) of
        (Inl rc, w) \<Rightarrow> (rc, [], w)
      | (Inr out, w) \<Rightarrow>
          (case json_object_get_array out ''ids'' of
             None \<Rightarrow> (REDP2P_EPROTO, [], err ''list: malformed index response'' w)
           | Some arr \<Rightarrow>
               let (ids, ok) = collect_ids arr
               in if ok then (REDP2P_OK, ids, clear_error w) else (REDP2P_EPROTO, ids, err ''list: malformed publisher id'' w)))"

section \<open>Datagrams and turns\<close>

definition REDP2P_DISCONNECT_S :: u64 where [macros]: "REDP2P_DISCONNECT_S = 10"
definition REDP2P_UDP_PAYLOAD_MAX :: nat where [macros]: "REDP2P_UDP_PAYLOAD_MAX = 1412"
definition REDP2P_CTRTOK_PUNCH :: string where "REDP2P_CTRTOK_PUNCH = ''REDP2P_CTRTOK_PUNCH:''"
definition REDP2P_CTRTOK_KA :: string where "REDP2P_CTRTOK_KA = ''REDP2P_CTRTOK_KA:''"

text \<open>One \<open>turn\<close> is what \<^verbatim>\<open>select\<close> and the stop requests of other threads do in one iteration.\<close>

record turn =
  tn_stop :: bool
  tn_selected :: int
  tn_ready :: "int list"
  tn_stop_after :: bool

abbreviation is_tcp_ctx :: "peer_world \<Rightarrow> bool" where
  "is_tcp_ctx w \<equiv> ctx_proto (pw_ctx w) = REDP2P_PROTO_TCP"

text \<open>A received datagram as the text the string functions see.\<close>

definition datagram_text :: "byte list \<Rightarrow> string" where
  "datagram_text b = c_str (map (\<lambda>x. char_of (unat x)) b)"

definition starts_with :: "string \<Rightarrow> string \<Rightarrow> bool" where
  "starts_with p t \<longleftrightarrow> take (length p) t = p"

definition punch_control :: "string \<Rightarrow> bool" where
  "punch_control buf \<longleftrightarrow> starts_with REDP2P_CTRTOK_PUNCH buf \<or> starts_with REDP2P_CTRTOK_PUNCH_PING buf \<or>
     starts_with REDP2P_CTRTOK_PUNCH_PONG buf"

definition stop_if :: "bool \<Rightarrow> peer_world \<Rightarrow> peer_world" where
  "stop_if stop w = (if stop then set_ctx (stop_requested_update (\<lambda>_. True)) w else w)"

section \<open>Passing over a table of sessions\<close>

fun each_session :: "('s \<Rightarrow> peer_world \<Rightarrow> 's \<times> peer_world) \<Rightarrow> 's list \<Rightarrow> peer_world \<Rightarrow> 's list \<times> peer_world" where
  "each_session f [] w = ([], w)"
| "each_session f (s # ss) w = (let (s, w) = f s w; (ss, w) = each_session f ss w in (s # ss, w))"

lemma length_each_session [simp]: "length (fst (each_session f ss w)) = length ss"
  by (induction ss arbitrary: w) (simp_all add: case_prod_beta Let_def)

section \<open>Accounts of descriptors\<close>

fun opened_fds :: "peer_event list \<Rightarrow> int list" where
  "opened_fds [] = []"
| "opened_fds (e # es) = (case e of Opened fd \<Rightarrow> fd # opened_fds es | _ \<Rightarrow> opened_fds es)"

fun closed_fds :: "peer_event list \<Rightarrow> int list" where
  "closed_fds [] = []"
| "closed_fds (e # es) = (case e of Closed fd \<Rightarrow> fd # closed_fds es | _ \<Rightarrow> closed_fds es)"

text \<open>Every descriptor obtained so far has been closed, except those that are hs.\<close>

definition holds :: "int multiset \<Rightarrow> peer_world \<Rightarrow> bool" where
  "holds hs w \<longleftrightarrow> mset (opened_fds (pw_log w)) = mset (closed_fds (pw_log w)) + hs"

lemma fds_append [simp]:
  "opened_fds (a @ b) = opened_fds a @ opened_fds b" "closed_fds (a @ b) = closed_fds a @ closed_fds b"
  by (induction a) (simp_all split: peer_event.splits)

lemma fds_stream [simp]:
  "opened_fds (map (stream_event_of u p t) es) = []" "closed_fds (map (stream_event_of u p t) es) = []"
proof -
  have "opened_fds (map (stream_event_of u p t) es) = [] \<and> closed_fds (map (stream_event_of u p t) es) = []"
  proof (induction es)
    case (Cons e es)
    then show ?case by (cases e) simp_all
  qed simp
  then show "opened_fds (map (stream_event_of u p t) es) = []" "closed_fds (map (stream_event_of u p t) es) = []" by simp_all
qed

lemma fds_sent [simp]:
  "opened_fds (map (\<lambda>(a, m). Sent_to u a (f m)) xs) = []" "closed_fds (map (\<lambda>(a, m). Sent_to u a (f m)) xs) = []"
  by (induction xs) (auto split: prod.splits)

lemma holds_log [simp]:
  "holds h (w\<lparr>pw_ctx := c\<rparr>) = holds h w" "holds h (w\<lparr>pw_fs := fs\<rparr>) = holds h w"
  "holds h (note_error m w) = holds h w" "holds h (clear_error w) = holds h w" "holds h (set_ctx f w) = holds h w"
  by (simp_all add: holds_def note_error_def clear_error_def set_ctx_def split: option.splits)

lemma holds_neutral: "opened_fds evs = [] \<Longrightarrow> closed_fds evs = [] \<Longrightarrow> holds h (did evs w) = holds h w"
  by (simp add: holds_def did_def)

lemma holds_close: "holds (add_mset fd h) w \<Longrightarrow> holds h (close_fd fd w)"
  by (simp add: close_fd_def did_def holds_def)

lemma holds_send [simp]: "holds h (send_to fd a b w) = holds h w"
  by (simp add: send_to_def holds_neutral)

lemma open_first_fds:
  "open_first xs = (fd, evs) \<Longrightarrow> mset (opened_fds evs) = mset (closed_fds evs) + (if fd < 0 then {#} else {#fd#})"
proof (induction xs arbitrary: fd evs)
  case (Cons x xs)
  obtain fd' evs' where 1: "open_first xs = (fd', evs')" by fastforce
  show ?case using Cons.IH [OF 1] Cons.prems 1 by (cases x) (auto split: if_splits)
qed simp

lemma open_socket_holds:
  assumes "holds h w" "open_socket env w = (fd, w')"
  shows "holds (if fd < 0 then h else add_mset fd h) w'"
proof -
  obtain fd' evs where 1: "open_first (pe_sockets env (pw_log w)) = (fd', evs)" by fastforce
  show ?thesis using assms open_first_fds [OF 1] 1 by (auto simp: open_socket_def did_def holds_def)
qed

lemma create_socket_holds:
  "holds h w \<Longrightarrow> redp2p_create_socket env w = (fd, w') \<Longrightarrow> holds (if fd < 0 then h else add_mset fd h) w'"
  using open_socket_holds [of h w env fd w'] by (auto simp: redp2p_create_socket_def split: if_splits)

lemma connect_local_holds:
  assumes "holds h w" "redp2p_connect_local_tcp env w = (fd, w')"
  shows "holds (if fd < 0 then h else add_mset fd h) w'"
proof -
  obtain fd' evs where 1: "open_first (take 1 (pe_sockets env (pw_log w))) = (fd', evs)" by fastforce
  show ?thesis using assms open_first_fds [OF 1] 1 by (auto simp: redp2p_connect_local_tcp_def did_def holds_def)
qed

lemma fds_sock [simp]:
  "opened_fds (map sock_event_of evs) = sock_opened evs" "closed_fds (map sock_event_of evs) = sock_closed evs"
proof (induction evs)
  case (Cons e evs)
  { case 1 then show ?case using Cons by (cases e) simp_all }
  { case 2 then show ?case using Cons by (cases e) simp_all }
qed simp_all

lemma holds_balanced: "opened_fds evs = closed_fds evs \<Longrightarrow> holds h (did evs w) = holds h w"
  by (simp add: holds_def did_def union_commute)

lemma http_request_holds [simp]: "holds h (snd (http_request env phase host port req w)) = holds h w"
proof -
  obtain r evs where 1: "redp2p_http_client (pe_http env (pw_log w)) (pe_libc env) phase (Some host) port (JSONObject req) = (r, evs)"
    by fastforce
  show ?thesis
    using http_client_account [OF 1]
    by (simp add: http_request_def Let_def 1 holds_balanced split: sum.splits prod.splits JSON_Value.splits)
qed

lemma gather_holds: "gather env cap w = (rc, cs, w') \<Longrightarrow> holds h w' = holds h w"
  by (auto simp: gather_def Let_def holds_balanced gather_candidates_balanced split: prod.splits)

lemma on_stream_holds [simp]: "holds h (snd (on_stream env u p t act w)) = holds h w"
  by (simp add: on_stream_def holds_neutral split: prod.splits)

lemma punch_holds [simp]: "holds h (snd (snd (punch env u s f t cs w))) = holds h w"
  by (simp add: punch_def holds_neutral Let_def split: prod.splits)

lemma key_holds [simp]:
  "holds h (snd (key_paths env a b c w)) = holds h w" "holds h (snd (save_key env p k w)) = holds h w"
  "holds h (snd (load_key env path w)) = holds h w" "holds h (snd (remove_key env wc path k w)) = holds h w"
  by (simp_all add: key_paths_def save_key_def load_key_def remove_key_def split: sum.splits prod.splits)

lemma deregister_with_key_holds [simp]: "holds h (snd (redp2p_deregister_with_key env b host port ident key w)) = holds h w"
proof -
  have "holds h w1 = holds h w" if "http_request env ''deregister'' host port obj w = (r, w1)" for obj r w1
    using http_request_holds [of h env "''deregister''" host port obj w] that by simp
  then show ?thesis by (simp add: redp2p_deregister_with_key_def Let_def split: prod.splits sum.splits)
qed

section \<open>What a session table keeps\<close>

text \<open>
  A step on one session of a table. \<open>holding s\<close> are the descriptors the session owns, \<open>proper s\<close>
  is what is kept of each session, \<open>same s s'\<close> relates a session to what the step makes of it. The
  transport the context is configured for never changes.
\<close>

abbreviation transport :: "peer_world \<Rightarrow> int" where
  "transport w \<equiv> ctx_proto (pw_ctx w)"

definition table_holding :: "('s \<Rightarrow> int multiset) \<Rightarrow> 's list \<Rightarrow> int multiset" where
  "table_holding holding ss = sum_list (map holding ss)"

locale session_step =
  fixes step :: "'s \<Rightarrow> peer_world \<Rightarrow> 's \<times> peer_world" and holding :: "'s \<Rightarrow> int multiset"
    and proper :: "'s \<Rightarrow> bool" and same :: "'s \<Rightarrow> 's \<Rightarrow> bool"
  assumes step_holds: "holds (holding s + h) w \<Longrightarrow> proper s \<Longrightarrow> holds (holding (fst (step s w)) + h) (snd (step s w))"
    and step_proper: "proper s \<Longrightarrow> proper (fst (step s w))"
    and step_same: "same s (fst (step s w))"
    and step_proto: "transport (snd (step s w)) = transport w"
begin

lemma table_holds:
  "holds (table_holding holding ss + h) w \<Longrightarrow> list_all proper ss \<Longrightarrow>
    holds (table_holding holding (fst (each_session step ss w)) + h) (snd (each_session step ss w))"
proof (induction ss arbitrary: w h)
  case (Cons s ss)
  obtain s' w1 where 1: "step s w = (s', w1)" by fastforce
  obtain ss' w2 where 2: "each_session step ss w1 = (ss', w2)" by fastforce
  have "holds (holding s' + (table_holding holding ss + h)) w1"
    using step_holds [of s "table_holding holding ss + h" w] Cons.prems 1 by (simp add: ac_simps table_holding_def)
  then have "holds (table_holding holding ss + (holding s' + h)) w1" by (simp add: ac_simps)
  from Cons.IH [OF this] show ?case using Cons.prems 1 2 by (simp add: ac_simps table_holding_def)
qed (simp add: table_holding_def)

lemma table_proper: "list_all proper ss \<Longrightarrow> list_all proper (fst (each_session step ss w))"
  by (induction ss arbitrary: w) (simp_all add: case_prod_beta Let_def step_proper)

lemma table_same: "list_all2 same ss (fst (each_session step ss w))"
  by (induction ss arbitrary: w) (simp_all add: case_prod_beta Let_def step_same)

lemma table_proto: "transport (snd (each_session step ss w)) = transport w"
  by (induction ss arbitrary: w) (simp_all add: case_prod_beta Let_def step_proto)

end

end
