(* ===== verification/Stream_Frame.thy ===== *)
theory Stream_Frame
  imports Stream
begin

text \<open>
  What no stream operation changes: the identifier of its session and the transport the library
  context is configured for. The tables of publisher and consumer rest on it.
\<close>

definition keeps :: "redp2p_stream_state_t \<Rightarrow> stream_io \<Rightarrow> redp2p_stream_state_t \<Rightarrow> stream_io \<Rightarrow> bool" where
  "keeps st io st' io' \<longleftrightarrow> st_session_id st' = st_session_id st \<and> ctx_proto (io_ctx io') = ctx_proto (io_ctx io)"

lemma keeps_refl [simp]: "keeps st io st io"
  by (simp add: keeps_def)

lemma keeps_trans: "keeps st io st1 io1 \<Longrightarrow> keeps st1 io1 st2 io2 \<Longrightarrow> keeps st io st2 io2"
  by (simp add: keeps_def)

lemma io_proto [simp]:
  "ctx_proto (redp2p_set_error m ctx) = ctx_proto ctx" "ctx_proto (io_ctx (emit e io)) = ctx_proto (io_ctx io)"
  "ctx_proto (io_ctx (io_error msg io)) = ctx_proto (io_ctx io)"
  by (simp_all add: redp2p_set_error_def emit_def io_error_def)

lemma send_datagram_proto: "redp2p_stream_send_datagram env a d io = (r, io') \<Longrightarrow> ctx_proto (io_ctx io') = ctx_proto (io_ctx io)"
  by (auto simp: redp2p_stream_send_datagram_def split: if_splits)

lemma fault_proto:
  "redp2p_stream_should_drop env ctx = (b, ctx') \<Longrightarrow> ctx_proto ctx' = ctx_proto ctx"
  "redp2p_stream_should_reorder env ctx = (b, ctx') \<Longrightarrow> ctx_proto ctx' = ctx_proto ctx"
  by (auto simp: redp2p_stream_should_drop_def redp2p_stream_should_reorder_def Let_def split: if_splits)

lemma kcp_output_proto: "redp2p_stream_kcp_output env buf (a, io) = (a', io') \<Longrightarrow> ctx_proto (io_ctx io') = ctx_proto (io_ctx io)"
  by (auto simp: redp2p_stream_kcp_output_def Let_def dest!: send_datagram_proto fault_proto split: if_splits prod.splits)

lemma kcp_outputs_proto: "fold (redp2p_stream_kcp_output env) outs (a, io) = (a', io') \<Longrightarrow> ctx_proto (io_ctx io') = ctx_proto (io_ctx io)"
proof (induction outs arbitrary: a io)
  case (Cons b outs)
  obtain a1 io1 where 1: "redp2p_stream_kcp_output env b (a, io) = (a1, io1)" by fastforce
  show ?case using Cons.IH [of a1 io1] Cons.prems 1 kcp_output_proto [OF 1] by simp
qed simp

lemma send_control_keeps: "redp2p_stream_send_control env ty st io = (r, st', io') \<Longrightarrow> keeps st io st' io'"
  by (auto simp: redp2p_stream_send_control_def keeps_def Let_def dest: send_datagram_proto split: if_splits prod.splits)

lemma fail_keeps: "redp2p_stream_fail env st io = (st', io') \<Longrightarrow> keeps st io st' io'"
  using send_control_keeps [of env REDP2P_STREAM_TYPE_RESET "st\<lparr>st_reset_sent := True\<rparr>" io]
  by (auto simp: redp2p_stream_fail_def keeps_def split: if_splits prod.splits) (metis prod.collapse)+

lemma drain_proto: "redp2p_stream_drain env kcp io = (r, kcp', io') \<Longrightarrow> ctx_proto (io_ctx io') = ctx_proto (io_ctx io)"
proof (induction env kcp io arbitrary: r kcp' io' rule: redp2p_stream_drain.induct)
  case (1 env kcp io)
  show ?case
    using "1.prems" by (subst (asm) redp2p_stream_drain.simps) (auto simp: Let_def dest!: "1.IH" [rotated -1] split: if_splits prod.splits)
qed

lemma kcp_packet_keeps: "stream_kcp_packet env payload st io = (r, st', io') \<Longrightarrow> keeps st io st' io'"
  by (auto simp: stream_kcp_packet_def keeps_def dest: drain_proto split: if_splits prod.splits)

lemma close_packet_keeps:
  assumes "stream_close_packet env st io = (r, st', io')"
  shows "keeps st io st' io'"
proof -
  obtain r1 kcp io1 where 1: "redp2p_stream_drain env (the (st_kcp st)) io = (r1, kcp, io1)" by (metis prod_cases3)
  note p = drain_proto [OF 1]
  show ?thesis
  proof (cases "r1 = 0")
    case True
    then have "keeps (st\<lparr>st_kcp := Some kcp, st_remote_close := True\<rparr>) (if \<not> st_remote_close st then emit Shut io1 else io1) st' io'"
      using assms 1 by (intro send_control_keeps) (simp add: stream_close_packet_def Let_def)
    then show ?thesis using p by (simp add: keeps_def split: if_splits)
  qed (use assms 1 p in \<open>auto simp: stream_close_packet_def keeps_def\<close>)
qed

lemma process_packet_keeps:
  assumes "redp2p_stream_process_packet env buf st io = (r, st', io')"
  shows "keeps st io st' io'"
proof (cases "redp2p_stream_unpack buf")
  case (Some e)
  show ?thesis
    using assms Some
    by (auto simp: redp2p_stream_process_packet_def Let_def keeps_def
        dest: send_control_keeps [unfolded keeps_def] kcp_packet_keeps [unfolded keeps_def] close_packet_keeps [unfolded keeps_def]
        split: if_splits prod.splits)
qed (use assms in \<open>simp add: redp2p_stream_process_packet_def\<close>)

lemma pump_keeps: "redp2p_stream_pump_tcp env input st io = (r, st', io') \<Longrightarrow> keeps st io st' io'"
  by (auto simp: redp2p_stream_pump_tcp_def keeps_def Let_def split: if_splits prod.splits tcp_read.splits)

lemma tick_parts_keep:
  "tick_hello env now st io = (r, st', io') \<Longrightarrow> keeps st io st' io'"
  "tick_update env now st io = (st', io') \<Longrightarrow> keeps st io st' io'"
  "tick_close env now st io = (r, st', io') \<Longrightarrow> keeps st io st' io'"
  "tick_keepalive env now st io = (r, st', io') \<Longrightarrow> keeps st io st' io'"
  by (auto simp: tick_hello_def tick_update_def tick_close_def tick_keepalive_def keeps_def Let_def
      dest: send_control_keeps [unfolded keeps_def] kcp_outputs_proto split: if_splits prod.splits)

lemma tick_keeps:
  assumes "redp2p_stream_tick env st io = (r, st', io')"
  shows "keeps st io st' io'"
proof (cases "st_enabled st")
  case True
  let ?now = "clock env io"
  obtain r1 st1 io1 where 1: "tick_hello env ?now st io = (r1, st1, io1)" by (metis prod_cases3)
  obtain st2 io2 where 2: "tick_update env ?now st1 io1 = (st2, io2)" by fastforce
  obtain r3 st3 io3 where 3: "tick_close env ?now st2 io2 = (r3, st3, io3)" by (metis prod_cases3)
  note k1 = tick_parts_keep(1) [OF 1]
  note k2 = keeps_trans [OF k1 tick_parts_keep(2) [OF 2]]
  note k3 = keeps_trans [OF k2 tick_parts_keep(3) [OF 3]]
  have k4: "tick_keepalive env ?now st3 io3 = (r, st', io') \<Longrightarrow> keeps st io st' io'"
    using keeps_trans [OF k3 tick_parts_keep(4)] .
  have e: "keeps st io st2 (io_error m io2)" for m using k2 by (simp add: keeps_def)
  show ?thesis
    using assms True 1 2 3 k1 k3 k4 e by (auto simp: redp2p_stream_tick_def Let_def split: if_splits)
qed (use assms in \<open>simp add: redp2p_stream_tick_def\<close>)

lemma init_keeps:
  "redp2p_stream_init env allocs initiator peer sid hex proto io = (r, st', io') \<Longrightarrow>
    ctx_proto (io_ctx io') = ctx_proto (io_ctx io) \<and> (r = 0 \<longrightarrow> st_session_id st' = sid)"
  by (auto simp: redp2p_stream_init_def Let_def split: if_splits prod.splits option.splits)

end
