(* ===== verification/Peer_Frame.thy ===== *)
theory Peer_Frame
  imports Peer_World Stream_Frame
begin

text \<open>
  What the calls of publisher and consumer leave alone: the transport of the context, the
  identifier of a session's stream and the account of descriptors.
\<close>

lemma transport_simps [simp]:
  "transport (note_error m w) = transport w" "transport (clear_error w) = transport w" "transport (did evs w) = transport w"
  "transport (w\<lparr>pw_fs := fs\<rparr>) = transport w" "transport (w\<lparr>pw_log := l\<rparr>) = transport w"
  "transport (close_fd fd w) = transport w" "transport (send_to fd a b w) = transport w" "transport (stop_if stop w) = transport w"
  by (simp_all add: note_error_def clear_error_def did_def close_fd_def send_to_def stop_if_def set_ctx_def
      split: option.splits)

lemma transport_set_ctx [simp]:
  "transport (set_ctx (bind_port_update f) w) = transport w" "transport (set_ctx (ctx_key_update g) w) = transport w"
  "transport (set_ctx (err_buf_update g) w) = transport w" "transport (set_ctx (stop_requested_update h) w) = transport w"
  by (simp_all add: set_ctx_def)

lemma open_transport [simp]:
  "transport (snd (redp2p_create_socket env w)) = transport w" "transport (snd (redp2p_create_tcp_listener env w)) = transport w"
  "transport (snd (redp2p_connect_local_tcp env w)) = transport w"
  by (simp_all add: redp2p_create_socket_def redp2p_create_tcp_listener_def redp2p_connect_local_tcp_def open_socket_def
      split: prod.splits)

lemma http_request_transport [simp]: "transport (snd (http_request env phase host port req w)) = transport w"
  by (simp add: http_request_def Let_def split: sum.splits prod.splits JSON_Value.splits)

lemma gather_transport: "gather env cap w = (rc, cs, w') \<Longrightarrow> transport w' = transport w"
  by (auto simp: gather_def Let_def split: prod.splits)

lemma key_transport [simp]:
  "transport (snd (key_paths env a b c w)) = transport w" "transport (snd (save_key env p k w)) = transport w"
  "transport (snd (load_key env path w)) = transport w" "transport (snd (remove_key env wc path k w)) = transport w"
  by (simp_all add: key_paths_def save_key_def load_key_def remove_key_def split: sum.splits prod.splits)

lemma deregister_with_key_transport [simp]: "transport (snd (redp2p_deregister_with_key env b host port ident key w)) = transport w"
proof -
  have "transport w1 = transport w" if "http_request env ''deregister'' host port obj w = (r, w1)" for obj r w1
    using http_request_transport [of env "''deregister''" host port obj w] that by simp
  then show ?thesis by (simp add: redp2p_deregister_with_key_def Let_def split: prod.splits sum.splits)
qed

lemma punch_select_proto:
  "redp2p_punch_select env limit s f t cs ctx io = (rc, found, ctx', io') \<Longrightarrow> ctx_proto ctx' = ctx_proto ctx"
  unfolding redp2p_punch_select_def
  by (simp add: Let_def split_beta del: direct_rounds.simps sweep_outer.simps split: option.splits if_splits)
    (auto simp del: direct_rounds.simps sweep_outer.simps)?

lemma punch_transport [simp]: "transport (snd (snd (punch env u s f t cs w))) = transport w"
  by (auto simp: punch_def Let_def dest: punch_select_proto split: prod.splits)

section \<open>Streams\<close>

lemma stream_act_holds: "stream_act env u p t act st w = (r, st', w') \<Longrightarrow> holds h w' = holds h w"
  by (auto simp: stream_act_def on_stream_def holds_neutral split: prod.splits)

lemma stream_fail_holds: "stream_fail env u p t st w = (st', w') \<Longrightarrow> holds h w' = holds h w"
  using on_stream_holds [of h env u p t "\<lambda>senv io. redp2p_stream_fail senv st io" w] by (simp add: stream_fail_def)

lemma stream_act_keeps:
  assumes "\<And>senv io r st' io'. act senv st io = (r, st', io') \<Longrightarrow> keeps st io st' io'"
    and "stream_act env u p t act st w = (r, st', w')"
  shows "transport w' = transport w \<and> st_session_id st' = st_session_id st"
  using assms by (auto simp: stream_act_def on_stream_def keeps_def split: prod.splits)

lemma stream_fail_keeps: "stream_fail env u p t st w = (st', w') \<Longrightarrow> transport w' = transport w \<and> st_session_id st' = st_session_id st"
  by (auto simp: stream_fail_def on_stream_def keeps_def dest!: fail_keeps split: prod.splits)

lemma stream_open_keeps:
  assumes "stream_open env u p t initiator sid hex w = (r, st, w')"
  shows "transport w' = transport w \<and> (r = 0 \<longrightarrow> st_session_id st = sid) \<and> holds h w' = holds h w"
  using assms stream_act_holds [OF assms [unfolded stream_open_def]]
  by (auto simp: stream_open_def stream_act_def on_stream_def dest!: init_keeps split: prod.splits)

section \<open>Steps on a session and passes over the table\<close>

text \<open>
  \<open>good_step s w s' w'\<close> is what every step of publisher and consumer on one session
  guarantees: descriptors are accounted for, the session stays proper and what it is stays the same.
\<close>

locale session_kind =
  fixes holding :: "'s \<Rightarrow> int multiset" and proper :: "'s \<Rightarrow> bool" and same :: "'s \<Rightarrow> 's \<Rightarrow> bool"
  assumes same_refl: "same s s" and same_trans: "same s s1 \<Longrightarrow> same s1 s2 \<Longrightarrow> same s s2"
begin

definition good_step :: "'s \<Rightarrow> peer_world \<Rightarrow> 's \<Rightarrow> peer_world \<Rightarrow> bool" where
  "good_step s w s' w' \<longleftrightarrow> (\<forall>h. holds (holding s + h) w \<longrightarrow> holds (holding s' + h) w') \<and>
     (proper s \<longrightarrow> proper s') \<and> same s s' \<and> transport w' = transport w"

definition good_pass :: "'s list \<Rightarrow> peer_world \<Rightarrow> 's list \<Rightarrow> peer_world \<Rightarrow> bool" where
  "good_pass ss w ss' w' \<longleftrightarrow> transport w' = transport w \<and> list_all2 same ss ss' \<and>
     (list_all proper ss \<longrightarrow> list_all proper ss' \<and>
       (\<forall>h. holds (table_holding holding ss + h) w \<longrightarrow> holds (table_holding holding ss' + h) w'))"

lemma good_step_refl [simp]: "good_step s w s w"
  by (simp add: good_step_def same_refl)

lemma good_step_trans: "good_step s w s1 w1 \<Longrightarrow> good_step s1 w1 s2 w2 \<Longrightarrow> good_step s w s2 w2"
  using same_trans by (auto simp: good_step_def)

lemma good_step_holds: "good_step s w s' w' \<Longrightarrow> holds (holding s + h) w \<Longrightarrow> holds (holding s' + h) w'"
  by (simp add: good_step_def)

lemma good_step_world [simp]:
  "good_step s w s' (send_to fd a b w') = good_step s w s' w'" "good_step s w s' (note_error m w') = good_step s w s' w'"
  "good_step s (send_to fd a b w) s' w' = good_step s w s' w'" "good_step s (note_error m w) s' w' = good_step s w s' w'"
  by (simp_all add: good_step_def)

lemma good_session_step:
  "(\<And>s w s' w'. f s w = (s', w') \<Longrightarrow> good_step s w s' w') \<Longrightarrow> session_step f holding proper same"
  unfolding good_step_def by unfold_locales (metis prod.collapse)+

lemma good_pass_refl [simp]: "good_pass ss w ss w"
  by (simp add: good_pass_def list_all2_refl same_refl)

lemma good_pass_Cons:
  assumes "good_step s w s1 w1" "good_pass ss w1 ss' w2"
  shows "good_pass (s # ss) w (s1 # ss') w2"
proof -
  have "holds (table_holding holding (s1 # ss') + h) w2"
    if "list_all proper (s # ss)" "holds (table_holding holding (s # ss) + h) w" for h
  proof -
    have "holds (holding s1 + (table_holding holding ss + h)) w1"
      using that good_step_holds [OF assms(1), of "table_holding holding ss + h"] by (simp add: table_holding_def ac_simps)
    then have "holds (table_holding holding ss + (holding s1 + h)) w1" by (simp add: ac_simps)
    then have "holds (table_holding holding ss' + (holding s1 + h)) w2" using that assms(2) by (simp add: good_pass_def)
    then show ?thesis by (simp add: table_holding_def ac_simps)
  qed
  then show ?thesis using assms by (auto simp: good_pass_def good_step_def)
qed

lemma good_pass_nth: "i < length ss \<Longrightarrow> good_step (ss ! i) w s' w' \<Longrightarrow> good_pass ss w (ss[i := s']) w'"
proof (induction ss arbitrary: i)
  case (Cons s ss)
  show ?case
  proof (cases i)
    case 0
    then show ?thesis using Cons.prems good_pass_Cons [of s w s' w' ss ss w'] by simp
  next
    case (Suc k)
    have "good_pass ss w (ss[k := s']) w'" using Cons Suc by simp
    then show ?thesis using Suc good_pass_Cons [of s w s w ss "ss[k := s']" w'] by simp
  qed
qed simp

end

lemma table_holding_simps [simp]:
  "table_holding f [] = {#}" "table_holding f (s # ss) = f s + table_holding f ss" "table_holding f (xs @ ys) = table_holding f xs + table_holding f ys"
  by (simp_all add: table_holding_def)

lemma table_holding_update:
  "i < length ss \<Longrightarrow> f (ss ! i) = {#} \<Longrightarrow> table_holding f (ss[i := x]) = f x + table_holding f ss"
proof (induction ss arbitrary: i)
  case (Cons s ss)
  then show ?case by (cases i) (simp_all add: ac_simps)
qed simp

lemma list_all_update: "list_all P xs \<Longrightarrow> P x \<Longrightarrow> list_all P (xs[i := x])"
  unfolding list_all_iff using set_update_subset_insert [of xs i x] by blast

section \<open>Calls that move no descriptor\<close>

definition still :: "peer_world \<Rightarrow> peer_world \<Rightarrow> bool" where
  "still w w' \<longleftrightarrow> transport w' = transport w \<and> (\<forall>h. holds h w' = holds h w)"

lemma still_refl [simp]: "still w w"
  by (simp add: still_def)

lemma still_trans: "still w w1 \<Longrightarrow> still w1 w2 \<Longrightarrow> still w w2"
  by (simp add: still_def)

lemma still_simps [simp]:
  "still w (note_error m w') = still w w'" "still w (clear_error w') = still w w'" "still w (send_to fd a b w') = still w w'"
  "still w (set_ctx (ctx_key_update f) w') = still w w'" "still w (set_ctx (stop_requested_update g) w') = still w w'"
  "still w (set_ctx (bind_port_update k) w') = still w w'" "still w (set_ctx (err_buf_update f) w') = still w w'"
  "still w (stop_if stop w') = still w w'" "still w (did [Waited n] w') = still w w'" "still w (did [Sent_to fd a b] w') = still w w'"
  by (simp_all add: still_def holds_neutral stop_if_def)

lemma still_snd [simp]:
  "still w0 (snd (http_request env phase host port req w)) = still w0 w" "still w0 (snd (snd (punch env u s f t cs w))) = still w0 w"
  "still w0 (snd (key_paths env a b c w)) = still w0 w" "still w0 (snd (save_key env p k w)) = still w0 w"
  "still w0 (snd (remove_key env wc path k w)) = still w0 w"
  "still w0 (snd (redp2p_deregister_with_key env told host port ident k w)) = still w0 w"
  by (simp_all add: still_def)

lemma still_rules:
  "http_request env phase host port req w = (r, w') \<Longrightarrow> still w0 w \<Longrightarrow> still w0 w'"
  "punch env u s f t cs w = (rc, found, w') \<Longrightarrow> still w0 w \<Longrightarrow> still w0 w'"
  "key_paths env a b c w = (kp, w') \<Longrightarrow> still w0 w \<Longrightarrow> still w0 w'"
  "save_key env p k w = (rc, w') \<Longrightarrow> still w0 w \<Longrightarrow> still w0 w'"
  "remove_key env wc path k w = (rc, w') \<Longrightarrow> still w0 w \<Longrightarrow> still w0 w'"
  "redp2p_deregister_with_key env told host port ident k w = (rc, w') \<Longrightarrow> still w0 w \<Longrightarrow> still w0 w'"
  by (metis still_snd snd_conv)+

lemma still_gather: "gather env cap w = (rc, cs, w') \<Longrightarrow> still w0 w \<Longrightarrow> still w0 w'"
  by (simp add: still_def gather_holds gather_transport)

section \<open>A concrete system\<close>

text \<open>
  The clock stands still, every allocation succeeds, the next socket is 5 after one address failed,
  every request opens a socket that the index refuses, and no candidate can be gathered; \<open>r\<close> is the datagram that waits.
\<close>

definition demo_peer_env :: "(byte list \<times> sockaddr_storage) option \<Rightarrow> peer_env" where
  "demo_peer_env r =
     \<lparr>pe_net = demo_net, pe_libc = demo_libc, pe_sha = demo_sha, pe_home = Some ''/home/u'', pe_now_ms = (\<lambda>_. 5000),
      pe_alloc = (\<lambda>_. True), pe_random = (\<lambda>_ n. Some (replicate n 7)), pe_platform = (\<lambda>_. True),
      pe_sockets = (\<lambda>_. [(- 1, False), (9, False), (5, True)]), pe_recv = (\<lambda>_ _. r), pe_accept = (\<lambda>_ _. - 1),
      pe_tcp_read = (\<lambda>_ _. Would_block),
      pe_http = (\<lambda>_. \<lparr>http_sockets = [(11, False)], http_fd_fits = True, http_sock_write = (\<lambda>t. int (length t)), http_reply = [],
                       http_end = sock_end.Closed\<rparr>),
      pe_gather = (\<lambda>_. \<lparr>ga_sockname = Some (SA_in 4000 0), ga_probe = (12, None), ga_stun = demo_stun\<rparr>), pe_key = (\<lambda>_. demo_key_env),
      pe_pow_stop = (\<lambda>_ _. False),
      pe_stream = (\<lambda>_. \<lparr>env_getenv = (\<lambda>_. None), env_sendto = (\<lambda>_ _. True), env_now_ms = (\<lambda>_. 5000),
                         env_tcp_write = (\<lambda>_ bs. int (length bs))\<rparr>),
      pe_stream_alloc = (\<lambda>_. (True, True, True)), pe_punch = (\<lambda>_. (demo_punch_env, []))\<rparr>"

definition demo_world :: "int \<Rightarrow> peer_world" where
  "demo_world p = \<lparr>pw_ctx = demo_ctx\<lparr>ctx_proto := p\<rparr>, pw_log = [Opened 3], pw_fs = (\<lambda>_. None)\<rparr>"

lemma demo_world_simps [simp]:
  "transport (demo_world p) = p" "pw_log (demo_world p) = [Opened 3]" "holds {#3#} (demo_world p)"
  by (simp_all add: demo_world_def holds_def)

lemma demo_peer_env_simps [simp]:
  "pe_recv (demo_peer_env r) l fd = r" "pe_now_ms (demo_peer_env r) l = 5000"
  by (simp_all add: demo_peer_env_def)

end
