(* ===== verification/Publisher.thy ===== *)
theory Publisher
  imports Peer_Frame
begin

text \<open>
  The publisher (\<^verbatim>\<open>redp2p_wait\<close> and \<^verbatim>\<open>redp2p_publisher_*\<close>): registration with its key file,
  heartbeats and punch polls, the table of sessions, and the loop that moves datagrams between
  peers and the local backend. The table is the list of its slots; the world holds the rest.
\<close>

section \<open>State\<close>

definition REDP2P_CTRTOK_PUNCH_SERVER :: string where "REDP2P_CTRTOK_PUNCH_SERVER = ''REDP2P_CTRTOK_PUNCH:server''"
definition REDP2P_IPV4_LOOPBACK :: u32 where [macros]: "REDP2P_IPV4_LOOPBACK = 0x7f000001"

record redp2p_udp_server_session_t =
  ss_backend_fd :: int
  ss_tcp_fd :: int
  ss_peer_addr :: sockaddr_storage
  ss_last_rx :: u64
  ss_last_ka :: u64
  ss_active :: bool
  ss_is_tcp :: bool
  ss_stream :: redp2p_stream_state_t

record redp2p_publisher_runtime_t =
  pr_index_host :: string
  pr_self_id :: string
  pr_udp_any_host :: string
  pr_index_port :: "16 word"
  pr_udp_fd :: int
  pr_sessions :: "redp2p_udp_server_session_t list"
  pr_session_capacity :: nat
  pr_last_heartbeat :: u64
  pr_last_punch_poll :: u64

section \<open>Sessions\<close>

definition redp2p_server_session_close ::
  "redp2p_udp_server_session_t \<Rightarrow> peer_world \<Rightarrow> redp2p_udp_server_session_t \<times> peer_world" where
  "redp2p_server_session_close s w =
     (let w = (if ss_backend_fd s \<noteq> - 1 then close_fd (ss_backend_fd s) w else w);
          w = (if ss_tcp_fd s \<noteq> - 1 then close_fd (ss_tcp_fd s) w else w)
      in (s\<lparr>ss_backend_fd := - 1, ss_tcp_fd := - 1,
            ss_stream := (if ss_is_tcp s then redp2p_stream_wipe (ss_stream s) else ss_stream s), ss_active := False\<rparr>, w))"

text \<open>A stream operation of a session, and the failing of a session's stream.\<close>

definition session_stream ::
  "peer_env \<Rightarrow> int \<Rightarrow> (stream_env \<Rightarrow> redp2p_stream_state_t \<Rightarrow> stream_io \<Rightarrow> int \<times> redp2p_stream_state_t \<times> stream_io)
   \<Rightarrow> redp2p_udp_server_session_t \<Rightarrow> peer_world \<Rightarrow> int \<times> redp2p_udp_server_session_t \<times> peer_world" where
  "session_stream env udp act s w =
     (case stream_act env udp (ss_peer_addr s) (ss_backend_fd s) act (ss_stream s) w of (r, st, w) \<Rightarrow> (r, s\<lparr>ss_stream := st\<rparr>, w))"

definition session_fail ::
  "peer_env \<Rightarrow> int \<Rightarrow> redp2p_udp_server_session_t \<Rightarrow> peer_world \<Rightarrow> redp2p_udp_server_session_t \<times> peer_world" where
  "session_fail env udp s w =
     (case stream_fail env udp (ss_peer_addr s) (ss_backend_fd s) (ss_stream s) w of (st, w) \<Rightarrow> (s\<lparr>ss_stream := st\<rparr>, w))"

definition fail_and_close ::
  "peer_env \<Rightarrow> int \<Rightarrow> redp2p_udp_server_session_t \<Rightarrow> peer_world \<Rightarrow> redp2p_udp_server_session_t \<times> peer_world" where
  "fail_and_close env udp s w = (case session_fail env udp s w of (s, w) \<Rightarrow> redp2p_server_session_close s w)"

definition redp2p_publisher_session_find ::
  "redp2p_publisher_runtime_t \<Rightarrow> sockaddr_storage \<Rightarrow> byte list option \<Rightarrow> nat option" where
  "redp2p_publisher_session_find rt peer_addr session_id =
     first_index (\<lambda>s. ss_active s \<and> redp2p_sockaddr_equal (ss_peer_addr s) peer_addr \<and>
       (\<not> ss_is_tcp s \<and> session_id = None \<or>
        ss_is_tcp s \<and> (case session_id of None \<Rightarrow> False | Some i \<Rightarrow> st_session_id (ss_stream s) = i))) (pr_sessions rt)"

definition redp2p_publisher_session_insert ::
  "peer_env \<Rightarrow> redp2p_publisher_runtime_t \<Rightarrow> redp2p_udp_server_session_t \<Rightarrow> peer_world
   \<Rightarrow> nat option \<times> redp2p_publisher_runtime_t \<times> peer_world" where
  "redp2p_publisher_session_insert env rt session w =
     (case first_index (\<lambda>s. \<not> ss_active s) (pr_sessions rt) of
        Some i \<Rightarrow> (Some i, rt\<lparr>pr_sessions := (pr_sessions rt)[i := session]\<rparr>, w)
      | None \<Rightarrow>
          let grow = length (pr_sessions rt) \<ge> pr_session_capacity rt;
              new_capacity = (if \<not> grow then pr_session_capacity rt
                              else if pr_session_capacity rt = 0 then 8 else pr_session_capacity rt * 2)
          in if grow \<and> \<not> pe_alloc env (pw_log w) then (None, rt, snd (redp2p_server_session_close session w))
             else (Some (length (pr_sessions rt)),
                   rt\<lparr>pr_session_capacity := new_capacity, pr_sessions := pr_sessions rt @ [session]\<rparr>, w))"

text \<open>Closing an active session; the stream of one that is not done is failed first.\<close>

definition close_session ::
  "peer_env \<Rightarrow> int \<Rightarrow> redp2p_udp_server_session_t \<Rightarrow> peer_world \<Rightarrow> redp2p_udp_server_session_t \<times> peer_world" where
  "close_session env udp s w =
     (if \<not> ss_active s then (s, w)
      else let (s, w) = (if ss_is_tcp s \<and> \<not> redp2p_stream_is_done (ss_stream s) then session_fail env udp s w else (s, w))
           in redp2p_server_session_close s w)"

definition redp2p_publisher_session_close_all ::
  "peer_env \<Rightarrow> redp2p_publisher_runtime_t \<Rightarrow> peer_world \<Rightarrow> redp2p_publisher_runtime_t \<times> peer_world" where
  "redp2p_publisher_session_close_all env rt w =
     (let (ss, w) = each_session (close_session env (pr_udp_fd rt)) (pr_sessions rt) w in (rt\<lparr>pr_sessions := ss\<rparr>, w))"

section \<open>Registration\<close>

definition redp2p_publisher_initialize ::
  "peer_env \<Rightarrow> string option \<Rightarrow> 16 word \<Rightarrow> string option \<Rightarrow> 16 word \<Rightarrow> peer_world \<Rightarrow> int \<times> redp2p_publisher_runtime_t \<times> peer_world" where
  "redp2p_publisher_initialize env index_host index_port self_id port w =
     (let rt = \<lparr>pr_index_host = (case index_host of None \<Rightarrow> [] | Some h \<Rightarrow> h), pr_self_id = (case self_id of None \<Rightarrow> [] | Some i \<Rightarrow> i),
                pr_udp_any_host = [], pr_index_port = index_port, pr_udp_fd = - 1, pr_sessions = [], pr_session_capacity = 0,
                pr_last_heartbeat = 0, pr_last_punch_poll = 0\<rparr>
      in if ctx_proto (pw_ctx w) \<noteq> REDP2P_PROTO_TCP \<and> ctx_proto (pw_ctx w) \<noteq> REDP2P_PROTO_UDP
         then (REDP2P_EINVAL, rt, err ''wait: invalid transport protocol'' w)
         else case redp2p_resolve_port (pw_ctx w) port of
           None \<Rightarrow> (REDP2P_EINVAL, rt, err ''wait: conflicting local ports'' w)
         | Some effective_port \<Rightarrow>
             if effective_port = 0 \<or> index_host = None \<or> self_id = None \<or> \<not> redp2p_is_valid_id (pr_self_id rt) \<or> index_port = 0
             then (REDP2P_EINVAL, rt, err ''wait: invalid index, service id, or local port'' w)
             else let w = set_ctx (bind_port_update (\<lambda>_. effective_port)) w;
                      rt = rt\<lparr>pr_udp_any_host := any_host env (pr_index_host rt)\<rparr>;
                      (fd, w) = redp2p_create_socket env w;
                      rt = rt\<lparr>pr_udp_fd := fd\<rparr>
                  in if fd < 0 then (REDP2P_ENET, rt, w) else (REDP2P_OK, rt, w))"

definition announcement :: "peer_world \<Rightarrow> redp2p_candidate_t list \<Rightarrow> JSON_Object \<Rightarrow> JSON_Object" where
  "announcement w candidates obj =
     (let obj = json_object_set_number obj ''proto'' (of_int (ctx_proto (pw_ctx w)));
          obj = json_object_set_number obj ''udp_port'' (of_int (uint (bind_port (pw_ctx w))))
      in redp2p_index_append_candidates obj ''candidates'' candidates)"

text \<open>The conversion of a \<^verbatim>\<open>double\<close> to \<^verbatim>\<open>int\<close> truncates.\<close>

definition truncated :: "rat \<Rightarrow> int" where
  "truncated q = (if q < 0 then \<lceil>q\<rceil> else \<lfloor>q\<rfloor>)"

definition redp2p_publisher_register :: "peer_env \<Rightarrow> redp2p_publisher_runtime_t \<Rightarrow> peer_world \<Rightarrow> int \<times> peer_world" where
  "redp2p_publisher_register env rt w =
     (case gather env REDP2P_PEER_CANDIDATES_MAX w of (rc, candidates, w) \<Rightarrow>
        if rc \<noteq> REDP2P_OK then (REDP2P_ENET, err ''wait: local candidate gather failed'' w)
        else let obj = json_object_set_string [] ''op'' ''challenge'';
                 obj = json_object_set_string obj ''id'' (pr_self_id rt)
             in case http_request env ''wait'' (pr_index_host rt) (pr_index_port rt) obj w of
                  (Inl rc, w) \<Rightarrow> (rc, w)
                | (Inr out, w) \<Rightarrow>
                    (case redp2p_index_require_hex out ''nonce'' 17 16 of
                       None \<Rightarrow> (REDP2P_EPROTO, err ''wait: malformed registration challenge'' w)
                     | Some nonce \<Rightarrow>
                         if \<not> json_object_has_value_of_type out ''bits'' TNumber
                         then (REDP2P_EPROTO, err ''wait: malformed registration challenge'' w)
                         else let bits = truncated (json_object_get_number out ''bits'')
                              in case redp2p_solve_register_pow (pe_sha env) (pe_pow_stop env (pw_log w)) (Some (ctx_pass (pw_ctx w)))
                                        nonce (pr_self_id rt) bits 17 65 of
                                   None \<Rightarrow> (REDP2P_ERROR, err ''wait: registration proof solve failed'' w)
                                 | Some (solution, proof) \<Rightarrow>
                                     let obj = json_object_set_string [] ''op'' ''register'';
                                         obj = json_object_set_string obj ''id'' (pr_self_id rt);
                                         obj = json_object_set_string obj ''nonce'' nonce;
                                         obj = json_object_set_string obj ''solution'' solution;
                                         obj = json_object_set_string obj ''proof'' proof;
                                         obj = announcement w candidates obj
                                     in case http_request env ''wait'' (pr_index_host rt) (pr_index_port rt) obj w of
                                          (Inl rc, w) \<Rightarrow> (rc, w)
                                        | (Inr out, w) \<Rightarrow>
                                            (case redp2p_index_require_hex out ''key'' REDP2P_KEY_STR_SZ REDP2P_KEY_SZ of
                                               None \<Rightarrow> (REDP2P_EPROTO, err ''wait: malformed registration response'' w)
                                             | Some key \<Rightarrow> (REDP2P_OK, set_ctx (ctx_key_update (\<lambda>_. key)) w))))"

definition redp2p_publisher_persist_registration :: "peer_env \<Rightarrow> redp2p_publisher_runtime_t \<Rightarrow> peer_world \<Rightarrow> int \<times> peer_world" where
  "redp2p_publisher_persist_registration env rt w =
     (if ctx_key (pw_ctx w) = [] then (REDP2P_EPROTO, err ''wait: registration returned no key'' w)
      else let (paths, w) = key_paths env (pr_index_host rt) (pr_index_port rt) (pr_self_id rt) w;
               (rc, w) = (case paths of None \<Rightarrow> (REDP2P_ERROR, w) | Some p \<Rightarrow> save_key env p (ctx_key (pw_ctx w)) w)
           in if rc = REDP2P_OK then (REDP2P_OK, w)
              else let (_, w) = redp2p_deregister_with_key env False (pr_index_host rt) (pr_index_port rt) (pr_self_id rt)
                                  (ctx_key (pw_ctx w)) w;
                       w = (case paths of None \<Rightarrow> w | Some p \<Rightarrow> snd (remove_key env False (kp_scoped p) (ctx_key (pw_ctx w)) w))
                   in (REDP2P_ERROR, set_ctx (ctx_key_update (\<lambda>_. [])) w))"

definition redp2p_publisher_reregister :: "peer_env \<Rightarrow> redp2p_publisher_runtime_t \<Rightarrow> peer_world \<Rightarrow> int \<times> peer_world" where
  "redp2p_publisher_reregister env rt w =
     (case redp2p_publisher_register env rt w of (rc, w) \<Rightarrow>
        if rc \<noteq> REDP2P_OK then (rc, w)
        else case key_paths env (pr_index_host rt) (pr_index_port rt) (pr_self_id rt) w of
          (None, w) \<Rightarrow> (REDP2P_OK, w)
        | (Some paths, w) \<Rightarrow>
            (case save_key env paths (ctx_key (pw_ctx w)) w of (rc, w) \<Rightarrow>
               if rc = REDP2P_OK then (REDP2P_OK, w)
               else let (_, w) = redp2p_deregister_with_key env False (pr_index_host rt) (pr_index_port rt) (pr_self_id rt)
                                   (ctx_key (pw_ctx w)) w
                    in (REDP2P_ERROR, set_ctx (ctx_key_update (\<lambda>_. [])) w)))"

section \<open>Heartbeats and punch polls\<close>

definition redp2p_publisher_heartbeat ::
  "peer_env \<Rightarrow> redp2p_publisher_runtime_t \<Rightarrow> peer_world \<Rightarrow> int \<times> redp2p_publisher_runtime_t \<times> peer_world" where
  "redp2p_publisher_heartbeat env rt w =
     (if redp2p_now_s env w - pr_last_heartbeat rt < heartbeat_s (pw_ctx w) then (REDP2P_OK, rt, w)
      else if ctx_key (pw_ctx w) = [] then (REDP2P_ENOENT, rt, w)
      else case gather env REDP2P_PEER_CANDIDATES_MAX w of (rc, candidates, w) \<Rightarrow>
        if rc \<noteq> REDP2P_OK then (REDP2P_ENET, rt, err ''wait: local candidate gather failed'' w)
        else let obj = json_object_set_string [] ''op'' ''heartbeat'';
                 obj = json_object_set_string obj ''id'' (pr_self_id rt);
                 obj = json_object_set_string obj ''key'' (ctx_key (pw_ctx w));
                 obj = announcement w candidates obj;
                 (reply, w) = http_request env ''wait'' (pr_index_host rt) (pr_index_port rt) obj w;
                 result = (case reply of Inl rc \<Rightarrow> rc | Inr _ \<Rightarrow> REDP2P_OK)
             in if result = REDP2P_OK \<or> result = REDP2P_ENOENT \<or> result = REDP2P_EAUTH
                then let (result, w) = (if result \<noteq> REDP2P_OK then redp2p_publisher_reregister env rt w else (result, w))
                     in (result, if result = REDP2P_OK then rt\<lparr>pr_last_heartbeat := redp2p_now_s env w\<rparr> else rt, w)
                else (result, rt, w))"

definition redp2p_publisher_select_peer ::
  "peer_env \<Rightarrow> redp2p_publisher_runtime_t \<Rightarrow> string \<Rightarrow> string \<Rightarrow> redp2p_candidate_t list \<Rightarrow> peer_world
   \<Rightarrow> sockaddr_storage option \<times> peer_world" where
  "redp2p_publisher_select_peer env rt connection_id session_token candidates w =
     (case punch env (pr_udp_fd rt) session_token (pr_self_id rt) connection_id candidates w of
        (rc, found, w) \<Rightarrow> (if rc = REDP2P_OK then found else None, w))"

definition new_session :: "bool \<Rightarrow> sockaddr_storage \<Rightarrow> u64 \<Rightarrow> redp2p_udp_server_session_t" where
  "new_session tcp peer_addr now =
     \<lparr>ss_backend_fd = - 1, ss_tcp_fd = - 1, ss_peer_addr = peer_addr, ss_last_rx = now, ss_last_ka = now, ss_active = False,
      ss_is_tcp = tcp, ss_stream = zero_stream\<rparr>"

definition redp2p_publisher_open_session ::
  "peer_env \<Rightarrow> redp2p_publisher_runtime_t \<Rightarrow> string \<Rightarrow> byte list \<Rightarrow> sockaddr_storage \<Rightarrow> peer_world
   \<Rightarrow> bool \<times> redp2p_publisher_runtime_t \<times> peer_world" where
  "redp2p_publisher_open_session env rt session_hex session_id peer_addr w =
     (if redp2p_publisher_session_find rt peer_addr (if is_tcp_ctx w then Some session_id else None) \<noteq> None then (True, rt, w)
      else let session = new_session (is_tcp_ctx w) peer_addr (redp2p_now_s env w)
           in if ss_is_tcp session
              then (case redp2p_connect_local_tcp env w of (fd, w) \<Rightarrow>
                      if fd < 0
                      then (False, rt, err (''local backend connect failed on port '' @ dec_text (unat (bind_port (pw_ctx w)))) w)
                      else case stream_open env (pr_udp_fd rt) peer_addr fd False session_id session_hex w of
                        (r, st, w) \<Rightarrow>
                          if r \<noteq> 0 then (False, rt, close_fd fd w)
                          else case redp2p_publisher_session_insert env rt
                                 (session\<lparr>ss_backend_fd := fd, ss_stream := st, ss_active := True\<rparr>) w of
                            (i, rt, w) \<Rightarrow> (i \<noteq> None, rt, w))
              else (case redp2p_create_socket env w of (fd, w) \<Rightarrow>
                      if fd < 0 then (False, rt, w)
                      else case redp2p_publisher_session_insert env rt (session\<lparr>ss_backend_fd := fd, ss_active := True\<rparr>) w of
                        (i, rt, w) \<Rightarrow> (i \<noteq> None, rt, w)))"

text \<open>One call of the reply: \<open>False\<close> when it is malformed.\<close>

definition process_call ::
  "peer_env \<Rightarrow> redp2p_publisher_runtime_t \<Rightarrow> JSON_Value \<Rightarrow> peer_world \<Rightarrow> bool \<times> redp2p_publisher_runtime_t \<times> peer_world" where
  "process_call env rt v w =
     (case v of
        JSONObject call \<Rightarrow>
          (case (json_object_get_string call ''self_id'', json_object_get_string call ''session'',
                 redp2p_index_parse_candidates (pe_net env) call ''candidates'') of
             (Some connection_id, Some remote_token, Some candidates) \<Rightarrow>
               if \<not> redp2p_is_valid_id connection_id \<or> \<not> redp2p_is_session_token remote_token then (False, rt, w)
               else let session =
                      (if is_tcp_ctx w
                       then (if \<not> redp2p_is_hex_token remote_token (REDP2P_STREAM_SESSION_ID_SZ * 2) then None
                             else map_option (Pair remote_token) (redp2p_hex_decode remote_token REDP2P_STREAM_SESSION_ID_SZ))
                       else Some (take (REDP2P_STREAM_SESSION_ID_SZ * 2) remote_token, replicate REDP2P_STREAM_SESSION_ID_SZ 0))
                    in (case session of
                          None \<Rightarrow> (True, rt, w)
                        | Some (session_hex, session_id) \<Rightarrow>
                            (case redp2p_publisher_select_peer env rt connection_id session_hex candidates w of
                               (None, w) \<Rightarrow> (True, rt, w)
                             | (Some peer_addr, w) \<Rightarrow>
                                 (case redp2p_publisher_open_session env rt session_hex session_id peer_addr w of
                                    (ok, rt, w) \<Rightarrow>
                                      (True, rt, if ok then send_to (pr_udp_fd rt) peer_addr (bytes_of REDP2P_CTRTOK_PUNCH_SERVER) w
                                                 else w))))
           | _ \<Rightarrow> (False, rt, w))
      | _ \<Rightarrow> (False, rt, w))"

fun process_calls ::
  "peer_env \<Rightarrow> redp2p_publisher_runtime_t \<Rightarrow> JSON_Value list \<Rightarrow> peer_world \<Rightarrow> int \<times> redp2p_publisher_runtime_t \<times> peer_world" where
  "process_calls env rt [] w = (REDP2P_OK, rt, w)"
| "process_calls env rt (v # vs) w =
     (case process_call env rt v w of (ok, rt, w) \<Rightarrow>
        if ok then process_calls env rt vs w else (REDP2P_EPROTO, rt, w))"

definition redp2p_publisher_process_punch_calls ::
  "peer_env \<Rightarrow> redp2p_publisher_runtime_t \<Rightarrow> JSON_Object \<Rightarrow> peer_world \<Rightarrow> int \<times> redp2p_publisher_runtime_t \<times> peer_world" where
  "redp2p_publisher_process_punch_calls env rt out w =
     (case json_object_get_array out ''calls'' of
        None \<Rightarrow> (REDP2P_EPROTO, rt, err ''wait: malformed punch poll response'' w)
      | Some calls \<Rightarrow> process_calls env rt calls w)"

definition redp2p_publisher_punch_poll ::
  "peer_env \<Rightarrow> redp2p_publisher_runtime_t \<Rightarrow> peer_world \<Rightarrow> int \<times> redp2p_publisher_runtime_t \<times> peer_world" where
  "redp2p_publisher_punch_poll env rt w =
     (if now_ms env w - pr_last_punch_poll rt < punch_poll_ms (pw_ctx w) then (REDP2P_OK, rt, w)
      else let obj = json_object_set_string [] ''op'' ''punch_poll'';
               obj = json_object_set_string obj ''id'' (pr_self_id rt)
           in case http_request env ''wait'' (pr_index_host rt) (pr_index_port rt) obj w of
                (Inl rc, w) \<Rightarrow>
                  (if rc = REDP2P_ETIMEOUT then REDP2P_OK else rc, rt\<lparr>pr_last_punch_poll := now_ms env w\<rparr>, w)
              | (Inr out, w) \<Rightarrow>
                  (case redp2p_publisher_process_punch_calls env rt out w of
                     (rc, rt, w) \<Rightarrow> (rc, rt\<lparr>pr_last_punch_poll := now_ms env w\<rparr>, w)))"

section \<open>Datagrams\<close>

definition set_session :: "nat \<Rightarrow> redp2p_udp_server_session_t \<Rightarrow> redp2p_publisher_runtime_t \<Rightarrow> redp2p_publisher_runtime_t" where
  "set_session i s rt = rt\<lparr>pr_sessions := (pr_sessions rt)[i := s]\<rparr>"

text \<open>A ping of an unknown peer is answered with the text the source prints.\<close>

definition stray_pong :: "string \<Rightarrow> string option" where
  "stray_pong buf =
     (if \<not> starts_with REDP2P_CTRTOK_PUNCH_PING buf then None
      else case redp2p_parse_punch_packet buf REDP2P_CTRTOK_PUNCH_PING of
        None \<Rightarrow> None
      | Some (ping_session, ping_from, ping_to) \<Rightarrow>
          Some (take 255 (REDP2P_CTRTOK_PUNCH_PONG @ ping_session @ '':'' @ ping_to @ '':'' @ ping_from)))"

text \<open>A datagram for the session at position \<open>i\<close>: the result of the stage, the runtime and the world.\<close>

definition session_datagram ::
  "peer_env \<Rightarrow> redp2p_publisher_runtime_t \<Rightarrow> nat \<Rightarrow> byte list \<Rightarrow> peer_world \<Rightarrow> int \<times> redp2p_publisher_runtime_t \<times> peer_world" where
  "session_datagram env rt i buf w =
     (let s = pr_sessions rt ! i
      in if \<not> ss_is_tcp s \<and> length buf > REDP2P_UDP_PAYLOAD_MAX
         then (1, rt, err ''UDP datagram exceeds maximum payload size'' w)
         else if \<not> ss_is_tcp s \<and> buf = bytes_of REDP2P_CTRTOK_KA
         then (0, set_session i (s\<lparr>ss_last_rx := redp2p_now_s env w\<rparr>) rt, w)
         else if punch_control (datagram_text buf) then (1, rt, w)
         else let (s, w) =
                (if ss_is_tcp s
                 then (if ss_backend_fd s = - 1 then (s, w)
                       else case session_stream env (pr_udp_fd rt) (\<lambda>senv. redp2p_stream_process_packet senv buf) s w of
                         (r, s, w) \<Rightarrow> if r \<noteq> 0 then fail_and_close env (pr_udp_fd rt) s w else (s, w))
                 else (s, did [Sent_to (ss_backend_fd s) (SA_in (bind_port (pw_ctx w)) REDP2P_IPV4_LOOPBACK) buf] w))
              in (0, set_session i (s\<lparr>ss_last_rx := redp2p_now_s env w\<rparr>) rt, w))"

definition redp2p_publisher_receive_peer ::
  "peer_env \<Rightarrow> redp2p_publisher_runtime_t \<Rightarrow> int list \<Rightarrow> peer_world \<Rightarrow> int \<times> redp2p_publisher_runtime_t \<times> peer_world" where
  "redp2p_publisher_receive_peer env rt read_fds w =
     (if pr_udp_fd rt \<notin> set read_fds then (0, rt, w)
      else case pe_recv env (pw_log w) (pr_udp_fd rt) of
        None \<Rightarrow> (0, rt, w)
      | Some (buf, from) \<Rightarrow>
          if length buf > REDP2P_BUF then (REDP2P_ENET, rt, err ''wait: oversized peer datagram'' w)
          else let found = (if is_tcp_ctx w
                            then (case redp2p_stream_unpack buf of
                                    None \<Rightarrow> None
                                  | Some envelope \<Rightarrow> redp2p_publisher_session_find rt from (Some (en_session_id envelope)))
                            else redp2p_publisher_session_find rt from None)
               in (case found of
                     None \<Rightarrow>
                       (0, rt, (case stray_pong (datagram_text buf) of
                                  None \<Rightarrow> w | Some pong \<Rightarrow> did [Sent_to (pr_udp_fd rt) from (bytes_of pong)] w))
                   | Some i \<Rightarrow> session_datagram env rt i buf w))"

section \<open>Backends and timers\<close>

definition process_backend ::
  "peer_env \<Rightarrow> int \<Rightarrow> int list \<Rightarrow> redp2p_udp_server_session_t \<Rightarrow> peer_world \<Rightarrow> redp2p_udp_server_session_t \<times> peer_world" where
  "process_backend env udp read_fds s w =
     (if \<not> ss_active s \<or> ss_backend_fd s = - 1 \<or> ss_backend_fd s \<notin> set read_fds then (s, w)
      else if ss_is_tcp s
      then (case session_stream env udp (\<lambda>senv. redp2p_stream_pump_tcp senv (pe_tcp_read env (pw_log w) (ss_backend_fd s))) s w of
              (r, s, w) \<Rightarrow> if r \<noteq> 0 then fail_and_close env udp s w else (s, w))
      else case pe_recv env (pw_log w) (ss_backend_fd s) of
        None \<Rightarrow> (s, w)
      | Some (buf, from) \<Rightarrow>
          if from \<noteq> SA_in (bind_port (pw_ctx w)) REDP2P_IPV4_LOOPBACK then (s, w)
          else let w = send_to udp (ss_peer_addr s) (take REDP2P_BUF buf) w
               in (s\<lparr>ss_last_rx := redp2p_now_s env w\<rparr>, w))"

definition maintain_session ::
  "peer_env \<Rightarrow> int \<Rightarrow> redp2p_udp_server_session_t \<Rightarrow> peer_world \<Rightarrow> redp2p_udp_server_session_t \<times> peer_world" where
  "maintain_session env udp s w =
     (if \<not> ss_active s then (s, w)
      else case (if ss_is_tcp s then session_stream env udp redp2p_stream_tick s w else (0, s, w)) of (r, s, w) \<Rightarrow>
        if r \<noteq> 0 then fail_and_close env udp s w
        else if ss_is_tcp s \<and> redp2p_stream_is_done (ss_stream s) then redp2p_server_session_close s w
        else let (s, w) =
               (if redp2p_now_s env w - ss_last_ka s > REDP2P_KEEPALIVE_S
                then let w = (if \<not> ss_is_tcp s then send_to udp (ss_peer_addr s) (bytes_of REDP2P_CTRTOK_KA) w else w)
                     in (s\<lparr>ss_last_ka := redp2p_now_s env w\<rparr>, w)
                else (s, w))
             in if redp2p_now_s env w - ss_last_rx s > REDP2P_DISCONNECT_S then redp2p_server_session_close s w else (s, w))"

definition redp2p_publisher_process_backends ::
  "peer_env \<Rightarrow> redp2p_publisher_runtime_t \<Rightarrow> int list \<Rightarrow> peer_world \<Rightarrow> redp2p_publisher_runtime_t \<times> peer_world" where
  "redp2p_publisher_process_backends env rt read_fds w =
     (let (ss, w) = each_session (process_backend env (pr_udp_fd rt) read_fds) (pr_sessions rt) w in (rt\<lparr>pr_sessions := ss\<rparr>, w))"

definition redp2p_publisher_maintain_sessions ::
  "peer_env \<Rightarrow> redp2p_publisher_runtime_t \<Rightarrow> peer_world \<Rightarrow> redp2p_publisher_runtime_t \<times> peer_world" where
  "redp2p_publisher_maintain_sessions env rt w =
     (let (ss, w) = each_session (maintain_session env (pr_udp_fd rt)) (pr_sessions rt) w in (rt\<lparr>pr_sessions := ss\<rparr>, w))"

definition redp2p_publisher_wait_ms :: "peer_env \<Rightarrow> redp2p_publisher_runtime_t \<Rightarrow> peer_world \<Rightarrow> u32" where
  "redp2p_publisher_wait_ms env rt w =
     (let now = now_ms env w;
          until_poll = max 1 (sint (pr_last_punch_poll rt + punch_poll_ms (pw_ctx w) - now));
          wait_ms = (if until_poll < 1000 then word_of_int until_poll else 1000)
      in fold (\<lambda>s wait_ms. if \<not> ss_active s \<or> \<not> ss_is_tcp s then wait_ms
                            else let session_wait = redp2p_stream_wait_ms (Some (ss_stream s)) now
                                 in if session_wait < wait_ms then session_wait else wait_ms) (pr_sessions rt) wait_ms)"

section \<open>The event loop\<close>

text \<open>The backend descriptor of one session; the session is closed when it cannot be represented.\<close>

definition fdset_session ::
  "peer_env \<Rightarrow> int \<Rightarrow> redp2p_udp_server_session_t \<Rightarrow> int list \<times> int \<Rightarrow> peer_world
   \<Rightarrow> redp2p_udp_server_session_t \<times> (int list \<times> int) \<times> bool \<times> peer_world" where
  "fdset_session env udp s fds w =
     (if \<not> ss_active s \<or> ss_backend_fd s = - 1 \<or> ss_is_tcp s \<and> \<not> redp2p_stream_can_send_data (ss_stream s)
      then (s, fds, False, w)
      else case redp2p_fdset_add (ss_backend_fd s) fds of
        Some fds \<Rightarrow> (s, fds, False, w)
      | None \<Rightarrow>
          let w = err ''wait: backend descriptor cannot be represented by fd_set'' w;
              (s, w) = (if ss_is_tcp s then session_fail env udp s w else (s, w));
              (s, w) = redp2p_server_session_close s w
          in (s, fds, True, w))"

fun fdset_sessions ::
  "peer_env \<Rightarrow> int \<Rightarrow> redp2p_udp_server_session_t list \<Rightarrow> int list \<times> int \<Rightarrow> peer_world
   \<Rightarrow> (redp2p_udp_server_session_t list \<times> (int list \<times> int) \<times> bool) \<times> peer_world" where
  "fdset_sessions env udp [] fds w = (([], fds, False), w)"
| "fdset_sessions env udp (s # ss) fds w =
     (let (s, fds, failed, w) = fdset_session env udp s fds w;
          ((ss, fds, failed'), w) = fdset_sessions env udp ss fds w
      in ((s # ss, fds, failed \<or> failed'), w))"

definition redp2p_publisher_build_fdset ::
  "peer_env \<Rightarrow> redp2p_publisher_runtime_t \<Rightarrow> peer_world \<Rightarrow> int \<times> (int list \<times> int) \<times> redp2p_publisher_runtime_t \<times> peer_world" where
  "redp2p_publisher_build_fdset env rt w =
     (case redp2p_fdset_add (pr_udp_fd rt) ([], - 1) of
        None \<Rightarrow> (REDP2P_ENET, ([], - 1), rt, err ''wait: essential descriptor cannot be represented by fd_set'' w)
      | Some fds \<Rightarrow>
          (case fdset_sessions env (pr_udp_fd rt) (pr_sessions rt) fds w of
             ((ss, fds, failed), w) \<Rightarrow> (if failed then 0 else 1, fds, rt\<lparr>pr_sessions := ss\<rparr>, w)))"

text \<open>One iteration: the result of the loop, if it ends.\<close>

definition publisher_turn ::
  "peer_env \<Rightarrow> turn \<Rightarrow> redp2p_publisher_runtime_t \<Rightarrow> peer_world \<Rightarrow> int option \<times> redp2p_publisher_runtime_t \<times> peer_world" where
  "publisher_turn env tn rt w =
     (let w = stop_if (tn_stop tn) w
      in if stop_requested (pw_ctx w) then (Some REDP2P_OK, rt, w)
         else case redp2p_publisher_build_fdset env rt w of (stage, fds, rt, w) \<Rightarrow>
           if stage < 0 then (Some stage, rt, w)
           else if stage = 0 then (None, rt, w)
           else let w = did [Waited (redp2p_publisher_wait_ms env rt w)] w
                in if tn_selected tn < 0 then (None, rt, w)
                   else let w = stop_if (tn_stop_after tn) w; ready = filter (\<lambda>fd. fd \<in> set (tn_ready tn)) (fst fds)
                        in if stop_requested (pw_ctx w) then (Some REDP2P_OK, rt, w)
                           else case redp2p_publisher_heartbeat env rt w of (r1, rt, w) \<Rightarrow>
                             if r1 \<noteq> REDP2P_OK \<and> r1 \<noteq> REDP2P_ETIMEOUT then (Some r1, rt, w)
                             else case redp2p_publisher_punch_poll env rt w of (r2, rt, w) \<Rightarrow>
                               if r2 \<noteq> REDP2P_OK \<and> r2 \<noteq> REDP2P_ETIMEOUT then (Some r2, rt, w)
                               else case redp2p_publisher_receive_peer env rt ready w of (r3, rt, w) \<Rightarrow>
                                 if r3 < 0 then (Some r3, rt, w)
                                 else let (rt, w) = (if r3 > 0 then (rt, w) else redp2p_publisher_process_backends env rt ready w);
                                          (rt, w) = redp2p_publisher_maintain_sessions env rt w
                                      in (None, rt, w))"

fun publisher_turns ::
  "peer_env \<Rightarrow> turn list \<Rightarrow> redp2p_publisher_runtime_t \<Rightarrow> peer_world \<Rightarrow> int option \<times> redp2p_publisher_runtime_t \<times> peer_world" where
  "publisher_turns env [] rt w = (None, rt, w)"
| "publisher_turns env (tn # tns) rt w =
     (case publisher_turn env tn rt w of
        (Some result, rt, w) \<Rightarrow> (Some result, rt, w)
      | (None, rt, w) \<Rightarrow> publisher_turns env tns rt w)"

text \<open>The loop ends on its own when it has a result; otherwise the script of turns is over.\<close>

definition redp2p_publisher_event_loop ::
  "peer_env \<Rightarrow> turn list \<Rightarrow> redp2p_publisher_runtime_t \<Rightarrow> peer_world \<Rightarrow> int option \<times> redp2p_publisher_runtime_t \<times> peer_world" where
  "redp2p_publisher_event_loop env tns rt w =
     (let rt = rt\<lparr>pr_last_heartbeat := redp2p_now_s env w, pr_last_punch_poll := now_ms env w\<rparr>
      in case publisher_turns env tns rt w of
        (None, rt, w) \<Rightarrow> (None, rt, w)
      | (Some result, rt, w) \<Rightarrow> let (rt, w) = redp2p_publisher_session_close_all env rt w in (Some result, rt, w))"

section \<open>The whole life\<close>

definition redp2p_publisher_remove_registration ::
  "peer_env \<Rightarrow> redp2p_publisher_runtime_t \<Rightarrow> int \<Rightarrow> peer_world \<Rightarrow> int \<times> peer_world" where
  "redp2p_publisher_remove_registration env rt wait_result w =
     (let (result, w) =
        (if ctx_key (pw_ctx w) \<noteq> []
         then let prior_error = err_buf (pw_ctx w);
                  (deregistered, w) = redp2p_deregister_with_key env True (pr_index_host rt) (pr_index_port rt) (pr_self_id rt)
                                        (ctx_key (pw_ctx w)) w;
                  (removed, w) =
                    (if deregistered \<noteq> REDP2P_OK then (REDP2P_OK, w)
                     else case key_paths env (pr_index_host rt) (pr_index_port rt) (pr_self_id rt) w of
                       (None, w) \<Rightarrow> (REDP2P_ERROR, w)
                     | (Some paths, w) \<Rightarrow>
                         (case remove_key env True (kp_scoped paths) (ctx_key (pw_ctx w)) w of
                            (rc, w) \<Rightarrow> (if rc \<noteq> REDP2P_OK then REDP2P_ERROR else REDP2P_OK, w)));
                  w = (if prior_error \<noteq> [] \<and> deregistered = REDP2P_OK \<and> removed = REDP2P_OK
                       then set_ctx (err_buf_update (\<lambda>_. prior_error)) w else w)
              in (if removed \<noteq> REDP2P_OK then REDP2P_ERROR else wait_result, w)
         else (wait_result, w))
      in (result, set_ctx (ctx_key_update (\<lambda>_. [])) w))"

definition redp2p_publisher_runtime_cleanup ::
  "peer_env \<Rightarrow> redp2p_publisher_runtime_t \<Rightarrow> bool \<Rightarrow> peer_world \<Rightarrow> redp2p_publisher_runtime_t \<times> peer_world" where
  "redp2p_publisher_runtime_cleanup env rt reset_stop w =
     (let (rt, w) = redp2p_publisher_session_close_all env rt w;
          w = (if pr_udp_fd rt \<ge> 0 then close_fd (pr_udp_fd rt) w else w);
          w = (if reset_stop then set_ctx (stop_requested_update (\<lambda>_. False)) w else w)
      in (rt\<lparr>pr_sessions := [], pr_udp_fd := - 1\<rparr>, w))"

definition redp2p_wait ::
  "peer_env \<Rightarrow> turn list \<Rightarrow> string option \<Rightarrow> 16 word \<Rightarrow> string option \<Rightarrow> 16 word \<Rightarrow> peer_world \<Rightarrow> int option \<times> peer_world" where
  "redp2p_wait env tns index_host index_port self_id port w =
     (let w = clear_error w
      in if stop_requested (pw_ctx w) then (Some REDP2P_OK, set_ctx (stop_requested_update (\<lambda>_. False)) w)
         else case redp2p_publisher_initialize env index_host index_port self_id port w of (r0, rt, w) \<Rightarrow>
           if r0 \<noteq> REDP2P_OK then (Some r0, w)
           else case redp2p_publisher_register env rt w of (r1, w) \<Rightarrow>
             if r1 \<noteq> REDP2P_OK then (Some r1, snd (redp2p_publisher_runtime_cleanup env rt False w))
             else case redp2p_publisher_persist_registration env rt w of (r2, w) \<Rightarrow>
               if r2 \<noteq> REDP2P_OK then (Some r2, snd (redp2p_publisher_runtime_cleanup env rt False w))
               else case redp2p_publisher_event_loop env tns rt (clear_error w) of
                 (None, rt, w) \<Rightarrow> (None, w)
               | (Some result, rt, w) \<Rightarrow>
                   (case redp2p_publisher_remove_registration env rt result w of (result, w) \<Rightarrow>
                      (Some result, snd (redp2p_publisher_runtime_cleanup env rt True w))))"

end
