(* ===== verification/Publisher_Safety.thy ===== *)
theory Publisher_Safety
  imports Publisher
begin

text \<open>
  The state of a running publisher: every descriptor is owned by one session or is the peer
  socket, closed sessions own nothing, all sessions have the configured transport and no two
  active sessions match the same datagram. Every operation of the event loop keeps this.
\<close>

section \<open>Steps of the world that move no descriptor\<close>

lemma register_still: "redp2p_publisher_register env rt w = (rc, w') \<Longrightarrow> still w0 w \<Longrightarrow> still w0 w'"
  by ((auto simp: redp2p_publisher_register_def Let_def split: prod.splits if_splits sum.splits option.splits);
      (meson still_rules still_gather)?)

lemma persist_still: "redp2p_publisher_persist_registration env rt w = (rc, w') \<Longrightarrow> still w0 w \<Longrightarrow> still w0 w'"
  by ((auto simp: redp2p_publisher_persist_registration_def Let_def split: prod.splits if_splits option.splits);
      (meson still_rules still_gather)?)

lemma reregister_still: "redp2p_publisher_reregister env rt w = (rc, w') \<Longrightarrow> still w0 w \<Longrightarrow> still w0 w'"
  by ((auto simp: redp2p_publisher_reregister_def Let_def split: prod.splits if_splits option.splits);
      (meson still_rules register_still)?)

lemma heartbeat_still:
  "redp2p_publisher_heartbeat env rt w = (rc, rt', w') \<Longrightarrow>
    still w w' \<and> pr_sessions rt' = pr_sessions rt \<and> pr_udp_fd rt' = pr_udp_fd rt"
  by ((auto simp: redp2p_publisher_heartbeat_def Let_def split: prod.splits if_splits sum.splits);
      (meson still_refl still_rules still_gather reregister_still)?)

lemma remove_registration_still: "redp2p_publisher_remove_registration env rt r w = (rc, w') \<Longrightarrow> still w0 w \<Longrightarrow> still w0 w'"
  by ((auto simp: redp2p_publisher_remove_registration_def Let_def split: prod.splits if_splits option.splits);
      (meson still_rules)?)

section \<open>Steps on one session\<close>

definition session_fds :: "redp2p_udp_server_session_t \<Rightarrow> int multiset" where
  "session_fds s = (if ss_backend_fd s \<noteq> - 1 then {#ss_backend_fd s#} else {#}) + (if ss_tcp_fd s \<noteq> - 1 then {#ss_tcp_fd s#} else {#})"

definition proper_session :: "redp2p_udp_server_session_t \<Rightarrow> bool" where
  "proper_session s \<longleftrightarrow> ss_active s \<or> session_fds s = {#}"

definition same_session :: "redp2p_udp_server_session_t \<Rightarrow> redp2p_udp_server_session_t \<Rightarrow> bool" where
  "same_session s s' \<longleftrightarrow> ss_peer_addr s' = ss_peer_addr s \<and> ss_is_tcp s' = ss_is_tcp s \<and>
     (ss_active s' \<longrightarrow> ss_active s \<and> st_session_id (ss_stream s') = st_session_id (ss_stream s))"

interpretation ps: session_kind session_fds proper_session same_session
  by unfold_locales (auto simp: same_session_def)

abbreviation good_step where "good_step \<equiv> ps.good_step"
abbreviation good_pass where "good_pass \<equiv> ps.good_pass"

lemma good_step_still: "still w w' \<Longrightarrow> good_step s w s w'"
  by (simp add: ps.good_step_def still_def same_session_def)

lemma good_step_clock [simp]:
  "good_step s w (s'\<lparr>ss_last_rx := t\<rparr>) w' = good_step s w s' w'" "good_step s w (s'\<lparr>ss_last_ka := t\<rparr>) w' = good_step s w s' w'"
  "good_step (s\<lparr>ss_last_rx := t\<rparr>) w s' w' = good_step s w s' w'" "good_step (s\<lparr>ss_last_ka := t\<rparr>) w s' w' = good_step s w s' w'"
  by (simp_all add: ps.good_step_def session_fds_def proper_session_def same_session_def)

lemma close_world:
  assumes "holds (session_fds s + h) w"
  shows "holds h (snd (redp2p_server_session_close s w))"
proof -
  let ?w = "if ss_backend_fd s \<noteq> - 1 then close_fd (ss_backend_fd s) w else w"
  have "holds ((if ss_tcp_fd s \<noteq> - 1 then {#ss_tcp_fd s#} else {#}) + h) ?w"
    using assms holds_close [of "ss_backend_fd s" "(if ss_tcp_fd s \<noteq> - 1 then {#ss_tcp_fd s#} else {#}) + h" w]
    by (simp add: session_fds_def add_mset_commute split: if_splits)
  then show ?thesis using holds_close [of "ss_tcp_fd s" h ?w] by (auto simp: redp2p_server_session_close_def Let_def)
qed

lemma close_session_facts:
  "redp2p_server_session_close s w = (s', w') \<Longrightarrow>
    \<not> ss_active s' \<and> session_fds s' = {#} \<and> ss_peer_addr s' = ss_peer_addr s \<and> ss_is_tcp s' = ss_is_tcp s \<and> transport w' = transport w"
  by (auto simp: redp2p_server_session_close_def session_fds_def Let_def split: if_splits)

lemma close_good: "redp2p_server_session_close s w = (s', w') \<Longrightarrow> good_step s w s' w'"
  using close_session_facts [of s w s' w'] close_world [of s _ w] by (auto simp: ps.good_step_def same_session_def proper_session_def)

lemma session_stream_good:
  assumes act: "\<And>senv io st r st' io'. act senv st io = (r, st', io') \<Longrightarrow> keeps st io st' io'"
    and run: "session_stream env udp act s w = (r, s', w')"
  shows "good_step s w s' w'"
proof -
  obtain st where 1: "stream_act env udp (ss_peer_addr s) (ss_backend_fd s) act (ss_stream s) w = (r, st, w')" and 2: "s' = s\<lparr>ss_stream := st\<rparr>"
    using run by (auto simp: session_stream_def split: prod.splits)
  note k = stream_act_keeps [OF act 1] and h = stream_act_holds [OF 1]
  show ?thesis using k h 2 by (auto simp: ps.good_step_def session_fds_def proper_session_def same_session_def)
qed

lemma session_fail_good: "session_fail env udp s w = (s', w') \<Longrightarrow> good_step s w s' w'"
  using stream_fail_keeps [of env udp "ss_peer_addr s" "ss_backend_fd s" "ss_stream s" w]
    stream_fail_holds [of env udp "ss_peer_addr s" "ss_backend_fd s" "ss_stream s" w]
  by (auto simp: session_fail_def ps.good_step_def session_fds_def proper_session_def same_session_def split: prod.splits)

lemma fail_and_close_good: "fail_and_close env udp s w = (s', w') \<Longrightarrow> good_step s w s' w'"
  by (auto simp: fail_and_close_def split: prod.splits intro: ps.good_step_trans dest!: session_fail_good close_good)

lemma fail_and_close_inactive: "fail_and_close env udp s w = (s', w') \<Longrightarrow> \<not> ss_active s'"
  by (auto simp: fail_and_close_def split: prod.splits dest!: close_session_facts)

lemma close_session_good: "close_session env udp s w = (s', w') \<Longrightarrow> good_step s w s' w' \<and> \<not> ss_active s'"
  by (auto simp: close_session_def Let_def split: prod.splits if_splits
      intro: ps.good_step_trans dest: session_fail_good close_good close_session_facts)

lemma pump_good:
  "session_stream env udp (\<lambda>senv. redp2p_stream_pump_tcp senv input) s w = (r, s', w') \<Longrightarrow> good_step s w s' w'"
  by (rule session_stream_good) (auto intro: pump_keeps)

lemma tick_good: "session_stream env udp redp2p_stream_tick s w = (r, s', w') \<Longrightarrow> good_step s w s' w'"
  by (rule session_stream_good) (auto intro: tick_keeps)

lemma packet_good:
  "session_stream env udp (\<lambda>senv. redp2p_stream_process_packet senv buf) s w = (r, s', w') \<Longrightarrow> good_step s w s' w'"
  by (rule session_stream_good) (auto intro: process_packet_keeps)

lemma process_backend_good: "process_backend env udp fds s w = (s', w') \<Longrightarrow> good_step s w s' w'"
  by (auto simp: process_backend_def Let_def split: prod.splits if_splits option.splits
      intro: ps.good_step_trans good_step_still dest!: fail_and_close_good pump_good)

lemma maintain_session_good:
  assumes "maintain_session env udp s w = (s', w')"
  shows "good_step s w s' w'"
proof (cases "ss_active s")
  case True
  obtain r s1 w1 where 1: "(if ss_is_tcp s then session_stream env udp redp2p_stream_tick s w else (0, s, w)) = (r, s1, w1)"
    by (metis prod_cases3)
  have g: "good_step s w s1 w1" using 1 tick_good [of env udp s w r s1 w1] by (auto split: if_splits)
  show ?thesis
    using assms True 1 g
    by (auto simp: maintain_session_def Let_def split: if_splits
        intro: ps.good_step_trans dest!: fail_and_close_good close_good)
qed (use assms in \<open>simp add: maintain_session_def\<close>)

section \<open>Passes over the table\<close>

text \<open>Two active sessions that the same datagram would match.\<close>

definition matches :: "redp2p_udp_server_session_t \<Rightarrow> redp2p_udp_server_session_t \<Rightarrow> bool" where
  "matches a b \<longleftrightarrow> ss_active a \<and> ss_active b \<and> redp2p_sockaddr_equal (ss_peer_addr a) (ss_peer_addr b) \<and>
     (\<not> ss_is_tcp a \<and> \<not> ss_is_tcp b \<or> ss_is_tcp a \<and> ss_is_tcp b \<and> st_session_id (ss_stream a) = st_session_id (ss_stream b))"

definition unique_sessions :: "redp2p_udp_server_session_t list \<Rightarrow> bool" where
  "unique_sessions ss \<longleftrightarrow> (\<forall>i < length ss. \<forall>j < length ss. i \<noteq> j \<longrightarrow> \<not> matches (ss ! i) (ss ! j))"

definition runtime_ok :: "int multiset \<Rightarrow> redp2p_publisher_runtime_t \<Rightarrow> peer_world \<Rightarrow> bool" where
  "runtime_ok h rt w \<longleftrightarrow> holds (table_holding session_fds (pr_sessions rt) + ({#pr_udp_fd rt#} + h)) w \<and>
     list_all proper_session (pr_sessions rt) \<and> unique_sessions (pr_sessions rt) \<and>
     list_all (\<lambda>s. ss_active s \<longrightarrow> ss_is_tcp s = is_tcp_ctx w) (pr_sessions rt)"

interpretation closing: session_step "close_session env udp" session_fds proper_session same_session for env udp
  by (rule ps.good_session_step) (simp add: close_session_good)

interpretation backends: session_step "process_backend env udp fds" session_fds proper_session same_session for env udp fds
  by (rule ps.good_session_step) (rule process_backend_good)

interpretation maintaining: session_step "maintain_session env udp" session_fds proper_session same_session for env udp
  by (rule ps.good_session_step) (rule maintain_session_good)

lemma passes:
  "good_pass ss w (fst (each_session (close_session env udp) ss w)) (snd (each_session (close_session env udp) ss w))"
  "good_pass ss w (fst (each_session (process_backend env udp fds) ss w)) (snd (each_session (process_backend env udp fds) ss w))"
  "good_pass ss w (fst (each_session (maintain_session env udp) ss w)) (snd (each_session (maintain_session env udp) ss w))"
  by (simp_all add: ps.good_pass_def closing.table_holds closing.table_proper closing.table_same closing.table_proto
      backends.table_holds backends.table_proper backends.table_same backends.table_proto
      maintaining.table_holds maintaining.table_proper maintaining.table_same maintaining.table_proto)

lemma fdset_session_good: "fdset_session env udp s fds w = (s', fds', failed, w') \<Longrightarrow> good_step s w s' w'"
  by (auto simp: fdset_session_def Let_def split: if_splits option.splits prod.splits
      dest!: session_fail_good close_good intro: ps.good_step_trans)

lemma fdset_pass: "fdset_sessions env udp ss fds w = ((ss', fds', failed), w') \<Longrightarrow> good_pass ss w ss' w'"
proof (induction ss arbitrary: fds w ss' fds' failed w')
  case Nil
  then show ?case by (simp add: ps.good_pass_def)
next
  case (Cons s ss)
  obtain s1 fds1 f1 w1 where 1: "fdset_session env udp s fds w = (s1, fds1, f1, w1)" by (metis prod_cases4)
  obtain ss2 fds2 f2 w2 where 2: "fdset_sessions env udp ss fds1 w1 = ((ss2, fds2, f2), w2)" by (metis prod.collapse)
  show ?case using Cons.prems 1 2 ps.good_pass_Cons [OF fdset_session_good [OF 1] Cons.IH [OF 2]] by simp
qed

section \<open>Operations of the runtime\<close>

definition safe :: "redp2p_publisher_runtime_t \<Rightarrow> peer_world \<Rightarrow> redp2p_publisher_runtime_t \<Rightarrow> peer_world \<Rightarrow> bool" where
  "safe rt w rt' w' \<longleftrightarrow>
     (\<forall>h. runtime_ok h rt w \<longrightarrow> pr_udp_fd rt' = pr_udp_fd rt \<and> transport w' = transport w \<and> runtime_ok h rt' w')"

lemma safe_refl [simp]: "safe rt w rt w"
  by (simp add: safe_def)

lemma safe_trans: "safe rt w rt1 w1 \<Longrightarrow> safe rt1 w1 rt2 w2 \<Longrightarrow> safe rt w rt2 w2"
  unfolding safe_def by metis

lemma safe_still:
  "still w w' \<Longrightarrow> pr_sessions rt' = pr_sessions rt \<Longrightarrow> pr_udp_fd rt' = pr_udp_fd rt \<Longrightarrow> safe rt w rt' w'"
  by (simp add: safe_def runtime_ok_def still_def)

lemma runtime_ok_fields [simp]:
  "runtime_ok h (rt\<lparr>pr_last_punch_poll := t\<rparr>) w = runtime_ok h rt w" "runtime_ok h (rt\<lparr>pr_last_heartbeat := t\<rparr>) w = runtime_ok h rt w"
  by (simp_all add: runtime_ok_def)

lemma safe_fields [simp]:
  "safe rt w (rt'\<lparr>pr_last_punch_poll := t\<rparr>) w' = safe rt w rt' w'" "safe rt w (rt'\<lparr>pr_last_heartbeat := t\<rparr>) w' = safe rt w rt' w'"
  by (simp_all add: safe_def)

lemma safe_sent [simp]: "safe rt w rt' (send_to fd a b w') = safe rt w rt' w'"
  by (simp add: safe_def runtime_ok_def)

lemma matches_same:
  "same_session a a' \<Longrightarrow> same_session b b' \<Longrightarrow> matches a' b' \<Longrightarrow> matches a b"
  by (auto simp: matches_def same_session_def)

lemma unique_same: "list_all2 same_session ss ss' \<Longrightarrow> unique_sessions ss \<Longrightarrow> unique_sessions ss'"
  unfolding unique_sessions_def list_all2_conv_all_nth
proof (elim conjE, intro allI impI notI)
  fix i j
  assume "length ss = length ss'" "\<forall>i < length ss. same_session (ss ! i) (ss' ! i)"
    and "\<forall>i < length ss. \<forall>j < length ss. i \<noteq> j \<longrightarrow> \<not> matches (ss ! i) (ss ! j)"
    and "i < length ss'" "j < length ss'" "i \<noteq> j" "matches (ss' ! i) (ss' ! j)"
  then show False using matches_same [of "ss ! i" "ss' ! i" "ss ! j" "ss' ! j"] by simp
qed

lemma kind_same:
  "list_all2 same_session ss ss' \<Longrightarrow> list_all (\<lambda>s. ss_active s \<longrightarrow> ss_is_tcp s = k) ss \<Longrightarrow> list_all (\<lambda>s. ss_active s \<longrightarrow> ss_is_tcp s = k) ss'"
  by (auto simp: list_all2_conv_all_nth list_all_length same_session_def)

lemma pass_safe: "good_pass (pr_sessions rt) w ss' w' \<Longrightarrow> safe rt w (rt\<lparr>pr_sessions := ss'\<rparr>) w'"
  using unique_same [of "pr_sessions rt" ss'] kind_same [of "pr_sessions rt" ss']
  by (simp add: safe_def runtime_ok_def ps.good_pass_def del: union_mset_add_mset_right)

lemma set_session_safe:
  "i < length (pr_sessions rt) \<Longrightarrow> good_step (pr_sessions rt ! i) w s' w' \<Longrightarrow> safe rt w (set_session i s' rt) w'"
  unfolding set_session_def by (rule pass_safe) (rule ps.good_pass_nth)

lemma close_all_safe:
  assumes "redp2p_publisher_session_close_all env rt w = (rt', w')"
  shows "safe rt w rt' w' \<and> list_all (\<lambda>s. \<not> ss_active s) (pr_sessions rt')"
proof -
  have "list_all (\<lambda>s. \<not> ss_active s) (fst (each_session (close_session env udp) ss w))" for udp ss
  proof (induction ss arbitrary: w)
    case (Cons s ss)
    show ?case using Cons.IH close_session_good [of env udp s w "fst (close_session env udp s w)" "snd (close_session env udp s w)"]
      by (simp add: case_prod_beta Let_def)
  qed simp
  then show ?thesis
    using assms pass_safe [OF passes(1), of rt w env "pr_udp_fd rt"]
    by (auto simp: redp2p_publisher_session_close_all_def split: prod.splits) (metis fst_conv)
qed

lemma backends_safe: "redp2p_publisher_process_backends env rt fds w = (rt', w') \<Longrightarrow> safe rt w rt' w'"
  using pass_safe [OF passes(2), of rt w env "pr_udp_fd rt" fds]
  by (auto simp: redp2p_publisher_process_backends_def split: prod.splits)

lemma maintain_safe: "redp2p_publisher_maintain_sessions env rt w = (rt', w') \<Longrightarrow> safe rt w rt' w'"
  using pass_safe [OF passes(3), of rt w env "pr_udp_fd rt"]
  by (auto simp: redp2p_publisher_maintain_sessions_def split: prod.splits)

lemma build_fdset_safe: "redp2p_publisher_build_fdset env rt w = (stage, fds, rt', w') \<Longrightarrow> safe rt w rt' w'"
  by (auto simp: redp2p_publisher_build_fdset_def split: option.splits prod.splits dest!: fdset_pass intro: pass_safe safe_still)

section \<open>Opening and finding sessions\<close>

lemma find_none:
  assumes "redp2p_publisher_session_find rt addr (if is_tcp_ctx w then Some sid else None) = None"
    "list_all (\<lambda>s. ss_active s \<longrightarrow> ss_is_tcp s = is_tcp_ctx w) (pr_sessions rt)"
    "ss_peer_addr session = addr" "ss_is_tcp session = is_tcp_ctx w" "ss_is_tcp session \<Longrightarrow> st_session_id (ss_stream session) = sid"
  shows "\<forall>s \<in> set (pr_sessions rt). \<not> matches s session"
  using assms by (auto simp: redp2p_publisher_session_find_def first_index_None matches_def list_all_iff split: if_splits)

lemma sockaddr_equal_sym: "redp2p_sockaddr_equal a b = redp2p_sockaddr_equal b a"
  by (cases a; cases b) (auto simp: redp2p_sockaddr_equal_def)

lemma matches_sym: "matches a b = matches b a"
  by (auto simp: matches_def sockaddr_equal_sym)

lemma unique_update:
  assumes "unique_sessions ss" "\<forall>s \<in> set ss. \<not> matches s x"
  shows "unique_sessions (ss[i := x])"
proof -
  have e: "(ss[i := x]) ! k = (if k = i then x else ss ! k)" if "k < length ss" for k
    using that by (simp add: nth_list_update)
  have "\<forall>s \<in> set ss. \<not> matches x s" using assms(2) matches_sym by blast
  then show ?thesis using assms by (simp add: unique_sessions_def e)
qed

lemma unique_append:
  "unique_sessions ss \<Longrightarrow> \<forall>s \<in> set ss. \<not> matches s x \<Longrightarrow> unique_sessions (ss @ [x])"
  unfolding unique_sessions_def by (auto simp: nth_append less_Suc_eq) (metis matches_sym nth_mem)

lemma insert_ok:
  assumes run: "redp2p_publisher_session_insert env rt session w = (i, rt', w')"
    and ok: "runtime_ok (session_fds session + h) rt w"
    and new: "ss_is_tcp session = is_tcp_ctx w" "ss_active session" "\<forall>s \<in> set (pr_sessions rt). \<not> matches s session"
  shows "runtime_ok h rt' w' \<and> pr_udp_fd rt' = pr_udp_fd rt \<and> transport w' = transport w"
proof (cases "first_index (\<lambda>s. \<not> ss_active s) (pr_sessions rt)")
  case (Some k)
  note k = first_index_Some [OF Some]
  have e: "session_fds (pr_sessions rt ! k) = {#}"
    using ok k by (auto simp: runtime_ok_def proper_session_def list_all_length)
  have r: "rt' = rt\<lparr>pr_sessions := (pr_sessions rt)[k := session]\<rparr>" "w' = w"
    using run Some by (auto simp: redp2p_publisher_session_insert_def)
  have "table_holding session_fds (pr_sessions rt') = session_fds session + table_holding session_fds (pr_sessions rt)"
    using k e r by (simp add: table_holding_update)
  then show ?thesis
    using ok new r unique_update [of "pr_sessions rt" session k]
    by (auto simp: runtime_ok_def proper_session_def ac_simps intro: list_all_update)
next
  case None
  show ?thesis
  proof (cases "length (pr_sessions rt) \<ge> pr_session_capacity rt \<and> \<not> pe_alloc env (pw_log w)")
    case True
    obtain s1 w1 where c: "redp2p_server_session_close session w = (s1, w1)" by fastforce
    have "holds (session_fds session + (table_holding session_fds (pr_sessions rt) + ({#pr_udp_fd rt#} + h))) w"
      using ok by (simp add: runtime_ok_def ac_simps)
    then have "holds (table_holding session_fds (pr_sessions rt) + ({#pr_udp_fd rt#} + h)) w1" using close_world c by (metis snd_conv)
    then show ?thesis
      using run ok True None c close_session_facts [OF c] by (auto simp: redp2p_publisher_session_insert_def runtime_ok_def)
  next
    case False
    then show ?thesis
      using run ok new None unique_append [of "pr_sessions rt" session]
      by (auto simp: redp2p_publisher_session_insert_def Let_def runtime_ok_def proper_session_def ac_simps split: if_splits)
  qed
qed

lemma runtime_ok_world:
  "runtime_ok h rt w \<Longrightarrow> holds (table_holding session_fds (pr_sessions rt) + ({#pr_udp_fd rt#} + h')) w' \<Longrightarrow>
    transport w' = transport w \<Longrightarrow> runtime_ok h' rt w'"
  by (simp add: runtime_ok_def)

lemma open_session_safe:
  assumes "redp2p_publisher_open_session env rt hex sid addr w = (ok, rt', w')"
  shows "safe rt w rt' w'"
proof (cases "redp2p_publisher_session_find rt addr (if is_tcp_ctx w then Some sid else None)")
  case (Some k)
  then show ?thesis using assms by (simp add: redp2p_publisher_open_session_def)
next
  case None
  note new = find_none [OF None]
  have d: "holds (add_mset fd (table_holding session_fds (pr_sessions rt) + ({#pr_udp_fd rt#} + h))) w1 =
      holds (table_holding session_fds (pr_sessions rt) + ({#pr_udp_fd rt#} + ({#fd#} + h))) w1" for fd h w1
    by (simp add: ac_simps add_mset_commute)
  have "pr_udp_fd rt' = pr_udp_fd rt \<and> transport w' = transport w \<and> runtime_ok h rt' w'" if ok: "runtime_ok h rt w" for h
  proof (cases "is_tcp_ctx w")
    case True
    obtain fd w1 where 1: "redp2p_connect_local_tcp env w = (fd, w1)" by fastforce
    have t1: "transport w1 = transport w" using open_transport(3) [of env w] 1 by simp
    have h1: "holds (if fd < 0 then (table_holding session_fds (pr_sessions rt) + ({#pr_udp_fd rt#} + h))
        else add_mset fd (table_holding session_fds (pr_sessions rt) + ({#pr_udp_fd rt#} + h))) w1"
      using ok connect_local_holds [OF _ 1] unfolding runtime_ok_def by blast
    show ?thesis
    proof (cases "fd < 0")
      case True
      then show ?thesis
        using assms None 1 \<open>is_tcp_ctx w\<close> t1 h1 runtime_ok_world [OF ok]
        by (auto simp: redp2p_publisher_open_session_def new_session_def runtime_ok_def)
    next
      case False
      obtain r st w2 where 2: "stream_open env (pr_udp_fd rt) addr fd False sid hex w1 = (r, st, w2)" by (metis prod_cases3)
      note k2 = stream_open_keeps [OF 2]
      have h2: "holds (add_mset fd (table_holding session_fds (pr_sessions rt) + ({#pr_udp_fd rt#} + h))) w2" using h1 k2 False by simp
      let ?s = "(new_session True addr (redp2p_now_s env w))\<lparr>ss_backend_fd := fd, ss_stream := st, ss_active := True\<rparr>"
      have f: "session_fds ?s = {#fd#}" using False by (simp add: session_fds_def new_session_def)
      have ok2: "runtime_ok (session_fds ?s + h) rt w2" unfolding f
        by (rule runtime_ok_world [OF ok]) (use h2 [unfolded d] k2 t1 in auto)
      show ?thesis
      proof (cases "r = 0")
        case True
        have "\<forall>s \<in> set (pr_sessions rt). \<not> matches s ?s"
          using new [of ?s] ok True k2 \<open>is_tcp_ctx w\<close> by (auto simp: runtime_ok_def new_session_def)
        then show ?thesis
          using insert_ok [OF _ ok2] assms None 1 2 False True \<open>is_tcp_ctx w\<close> t1 k2
          by (auto simp: redp2p_publisher_open_session_def new_session_def split: prod.splits)
      next
        case False
        then show ?thesis
          using holds_close [OF h2] assms None 1 2 \<open>\<not> fd < 0\<close> \<open>is_tcp_ctx w\<close> t1 k2 ok
          by (auto simp: redp2p_publisher_open_session_def new_session_def runtime_ok_def)
      qed
    qed
  next
    case False
    obtain fd w1 where 1: "redp2p_create_socket env w = (fd, w1)" by fastforce
    have t1: "transport w1 = transport w" using open_transport(1) [of env w] 1 by simp
    have h1: "holds (if fd < 0 then (table_holding session_fds (pr_sessions rt) + ({#pr_udp_fd rt#} + h))
        else add_mset fd (table_holding session_fds (pr_sessions rt) + ({#pr_udp_fd rt#} + h))) w1"
      using ok create_socket_holds [OF _ 1] unfolding runtime_ok_def by blast
    let ?s = "(new_session False addr (redp2p_now_s env w))\<lparr>ss_backend_fd := fd, ss_active := True\<rparr>"
    show ?thesis
    proof (cases "fd < 0")
      case True
      then show ?thesis
        using assms None 1 \<open>\<not> is_tcp_ctx w\<close> t1 h1 ok
        by (auto simp: redp2p_publisher_open_session_def new_session_def runtime_ok_def)
    next
      case fd: False
      have f: "session_fds ?s = {#fd#}" using fd by (simp add: session_fds_def new_session_def)
      have ok2: "runtime_ok (session_fds ?s + h) rt w1" unfolding f
        by (rule runtime_ok_world [OF ok]) (use h1 t1 fd d in auto)
      have "\<forall>s \<in> set (pr_sessions rt). \<not> matches s ?s"
        using new [of ?s] ok False by (auto simp: runtime_ok_def new_session_def)
      then show ?thesis
        using insert_ok [OF _ ok2] assms None 1 fd False t1
        by (auto simp: redp2p_publisher_open_session_def new_session_def split: prod.splits)
    qed
  qed
  then show ?thesis
    by (auto simp: safe_def)
qed

section \<open>The event loop\<close>

lemma safe_err [simp]: "safe rt w rt' (note_error m w') = safe rt w rt' w'"
  by (simp add: safe_def runtime_ok_def)

lemma select_peer_still: "redp2p_publisher_select_peer env rt cid tok cs w = (found, w') \<Longrightarrow> still w w'"
  by (auto simp: redp2p_publisher_select_peer_def split: prod.splits dest: still_rules(2) [OF _ still_refl])

lemma process_call_safe:
  assumes "process_call env rt v w = (ok, rt', w')"
  shows "safe rt w rt' w'"
  using assms
  by (auto simp: process_call_def Let_def split: JSON_Value.splits option.splits if_splits prod.splits
      dest!: select_peer_still open_session_safe intro: safe_still safe_trans)

lemma process_calls_safe: "process_calls env rt vs w = (r, rt', w') \<Longrightarrow> safe rt w rt' w'"
proof (induction vs arbitrary: rt w)
  case (Cons v vs)
  obtain ok rt1 w1 where 1: "process_call env rt v w = (ok, rt1, w1)" by (metis prod_cases3)
  show ?case using Cons.prems Cons.IH [of rt1 w1] 1 process_call_safe [OF 1] by (auto split: if_splits intro: safe_trans)
qed simp

lemma punch_poll_safe:
  assumes "redp2p_publisher_punch_poll env rt w = (r, rt', w')"
  shows "safe rt w rt' w'"
proof -
  have "safe rt w1 rt2 w2" if "redp2p_publisher_process_punch_calls env rt out w1 = (rc, rt2, w2)" for out w1 rc rt2 w2
    using that by (auto simp: redp2p_publisher_process_punch_calls_def split: option.splits dest: process_calls_safe)
  then show ?thesis
    using assms
    by (auto simp: redp2p_publisher_punch_poll_def Let_def split: if_splits prod.splits sum.splits
        dest!: still_rules(1) [OF _ still_refl] intro: safe_still safe_trans)
qed

lemma session_datagram_safe:
  assumes "session_datagram env rt i buf w = (r, rt', w')" "i < length (pr_sessions rt)"
  shows "safe rt w rt' w'"
proof -
  let ?s = "pr_sessions rt ! i"
  have rx: "safe rt w (set_session i (s2\<lparr>ss_last_rx := t\<rparr>) rt) w2" if "good_step ?s w s1 w1" "good_step s1 w1 s2 w2" for s1 w1 s2 w2 t
    by (rule set_session_safe [OF assms(2)]) (use ps.good_step_trans [OF that] in simp)
  have sent: "good_step ?s w ?s (did [Sent_to fd a b] w)" for fd a b by (rule good_step_still) simp
  show ?thesis
    using assms(1) sent
    by (auto simp: session_datagram_def Let_def split: if_splits prod.splits
        dest!: packet_good fail_and_close_good intro: set_session_safe [OF assms(2)] rx)
qed

lemma find_bound: "redp2p_publisher_session_find rt a sid = Some i \<Longrightarrow> i < length (pr_sessions rt)"
  using first_index_Some by (fastforce simp: redp2p_publisher_session_find_def)

lemma receive_peer_safe:
  assumes "redp2p_publisher_receive_peer env rt fds w = (r, rt', w')"
  shows "safe rt w rt' w'"
proof -
  have p: "safe rt w rt (did [Sent_to fd a b] w)" for fd a b by (rule safe_still) simp_all
  show ?thesis
    using assms p
    by (auto simp: redp2p_publisher_receive_peer_def Let_def split: if_splits option.splits
        dest!: session_datagram_safe find_bound)
qed

lemma turn_safe:
  assumes "publisher_turn env tn rt w = (r, rt', w')"
  shows "safe rt w rt' w'"
proof -
  let ?w = "stop_if (tn_stop tn) w"
  have 0: "safe rt w rt ?w" by (rule safe_still) simp_all
  obtain stage fds rt1 w1 where 1: "redp2p_publisher_build_fdset env rt ?w = (stage, fds, rt1, w1)" by (metis prod_cases4)
  let ?w1 = "stop_if (tn_stop_after tn) (did [Waited (redp2p_publisher_wait_ms env rt1 w1)] w1)"
  let ?ready = "filter (\<lambda>fd. fd \<in> set (tn_ready tn)) (fst fds)"
  have s1: "safe rt w rt1 w1" using safe_trans [OF 0 build_fdset_safe [OF 1]] .
  have w1: "safe rt w rt1 (did [Waited (redp2p_publisher_wait_ms env rt1 w1)] w1)" "safe rt w rt1 ?w1"
    by (rule safe_trans [OF s1 safe_still]; simp)+
  obtain r2 rt2 w2 where 2: "redp2p_publisher_heartbeat env rt1 ?w1 = (r2, rt2, w2)" by (metis prod_cases3)
  have s2: "safe rt w rt2 w2" using safe_trans [OF w1(2) safe_still] heartbeat_still [OF 2] by blast
  obtain r3 rt3 w3 where 3: "redp2p_publisher_punch_poll env rt2 w2 = (r3, rt3, w3)" by (metis prod_cases3)
  have s3: "safe rt w rt3 w3" using safe_trans [OF s2 punch_poll_safe [OF 3]] .
  obtain r4 rt4 w4 where 4: "redp2p_publisher_receive_peer env rt3 ?ready w3 = (r4, rt4, w4)" by (metis prod_cases3)
  have s4: "safe rt w rt4 w4" using safe_trans [OF s3 receive_peer_safe [OF 4]] .
  show ?thesis
    using assms 0 1 s1 w1 2 s2 3 s3 4 s4
    by (auto simp: publisher_turn_def Let_def split: if_splits prod.splits
        dest!: backends_safe maintain_safe intro: safe_trans)
qed

lemma turns_safe: "publisher_turns env tns rt w = (r, rt', w') \<Longrightarrow> safe rt w rt' w'"
proof (induction tns arbitrary: rt w)
  case (Cons tn tns)
  obtain r1 rt1 w1 where 1: "publisher_turn env tn rt w = (r1, rt1, w1)" by (metis prod_cases3)
  show ?case using Cons.prems Cons.IH [of rt1 w1] 1 turn_safe [OF 1] by (auto split: option.splits intro: safe_trans)
qed simp

end
