(* ===== verification/Publisher_Behaviour.thy ===== *)
theory Publisher_Behaviour
  imports Publisher_Safety
begin

text \<open>
  What the publisher promises: it returns when it is asked to stop and then owns no descriptor,
  its session table stays unambiguous, and a datagram reaches only the session it belongs to.
  Two of its reactions to datagrams of strangers are shown to be wrong.
\<close>

section \<open>Descriptors over the whole life\<close>

lemma inactive_holding:
  "list_all proper_session ss \<Longrightarrow> list_all (\<lambda>s. \<not> ss_active s) ss \<Longrightarrow> table_holding session_fds ss = {#}"
  by (induction ss) (auto simp: proper_session_def)

lemma cleanup_holds:
  assumes "runtime_ok h rt w" "pr_udp_fd rt \<ge> 0"
  shows "holds h (snd (redp2p_publisher_runtime_cleanup env rt reset w))"
proof -
  obtain rt1 w1 where 1: "redp2p_publisher_session_close_all env rt w = (rt1, w1)" by fastforce
  have 2: "runtime_ok h rt1 w1 \<and> pr_udp_fd rt1 = pr_udp_fd rt" "list_all (\<lambda>s. \<not> ss_active s) (pr_sessions rt1)"
    using close_all_safe [OF 1] assms(1) by (auto simp: safe_def)
  then have "holds (add_mset (pr_udp_fd rt) h) w1"
    using inactive_holding [of "pr_sessions rt1"] by (auto simp: runtime_ok_def)
  from holds_close [OF this] show ?thesis
    using 1 2 assms(2) by (simp add: redp2p_publisher_runtime_cleanup_def Let_def)
qed

lemma initialize_ok:
  assumes "redp2p_publisher_initialize env host iport ident port w = (r, rt, w')" "holds h w"
  shows "if r = REDP2P_OK then runtime_ok h rt w' \<and> pr_udp_fd rt \<ge> 0 else holds h w'"
proof -
  have "holds h w2" if "redp2p_create_socket env (set_ctx (bind_port_update f) w) = (fd, w2)" "fd < 0" for f fd w2
    using create_socket_holds [OF _ that(1), of h] that(2) assms(2) by simp
  moreover have "holds (add_mset fd h) w2" if "redp2p_create_socket env (set_ctx (bind_port_update f) w) = (fd, w2)" "\<not> fd < 0" for f fd w2
    using create_socket_holds [OF _ that(1), of h] that(2) assms(2) by simp
  moreover have "REDP2P_EINVAL \<noteq> REDP2P_OK" "REDP2P_ENET \<noteq> REDP2P_OK" by (simp_all add: macros)
  ultimately show ?thesis
    using assms
    by (auto simp: redp2p_publisher_initialize_def Let_def runtime_ok_def unique_sessions_def
        split: if_splits option.splits prod.splits)
qed

lemma still_ok: "still w w' \<Longrightarrow> runtime_ok h rt w \<Longrightarrow> runtime_ok h rt w'"
  using safe_still [of w w' rt rt] by (simp add: safe_def)

lemma event_loop_ok:
  assumes "redp2p_publisher_event_loop env tns rt w = (r, rt', w')" "runtime_ok h rt w"
  shows "runtime_ok h rt' w' \<and> pr_udp_fd rt' = pr_udp_fd rt"
proof -
  let ?rt = "rt\<lparr>pr_last_heartbeat := redp2p_now_s env w, pr_last_punch_poll := now_ms env w\<rparr>"
  obtain r1 rt1 w1 where 1: "publisher_turns env tns ?rt w = (r1, rt1, w1)" by (metis prod_cases3)
  have 2: "runtime_ok h rt1 w1 \<and> pr_udp_fd rt1 = pr_udp_fd rt" using turns_safe [OF 1] assms(2) by (auto simp: safe_def)
  show ?thesis
    using assms(1) 1 2 close_all_safe [of env rt1 w1]
    by (auto simp: redp2p_publisher_event_loop_def Let_def safe_def split: option.splits prod.splits)
qed

section \<open>Stopping\<close>

lemma stop_turn: "tn_stop tn \<Longrightarrow> \<exists>w'. publisher_turn env tn rt w = (Some REDP2P_OK, rt, w')"
  by (simp add: publisher_turn_def stop_if_def set_ctx_def Let_def)

lemma stop_turns:
  assumes "tn_stop tn"
  shows "publisher_turns env (before @ tn # after) rt w = publisher_turns env (before @ [tn]) rt w \<and>
    fst (publisher_turns env (before @ [tn]) rt w) \<noteq> None"
proof (induction before arbitrary: rt w)
  case Nil
  obtain w' where "publisher_turn env tn rt w = (Some REDP2P_OK, rt, w')" using stop_turn [OF assms] by metis
  then show ?case by simp
next
  case (Cons t before)
  obtain r1 rt1 w1 where "publisher_turn env t rt w = (r1, rt1, w1)" by (metis prod_cases3)
  then show ?case using Cons by (cases r1) auto
qed

lemma stop_event_loop:
  assumes "tn_stop tn"
  shows "redp2p_publisher_event_loop env (before @ tn # after) rt w = redp2p_publisher_event_loop env (before @ [tn]) rt w \<and>
    fst (redp2p_publisher_event_loop env (before @ [tn]) rt w) \<noteq> None"
  using stop_turns [OF assms, of env before after "rt\<lparr>pr_last_heartbeat := redp2p_now_s env w, pr_last_punch_poll := now_ms env w\<rparr>" w]
  by (auto simp: redp2p_publisher_event_loop_def Let_def split: prod.splits option.splits)

lemma stop_returns:
  assumes "tn_stop tn"
  shows "\<exists>r w'. redp2p_wait env (before @ [tn]) host iport ident port w = (Some r, w')"
proof -
  have "redp2p_publisher_event_loop env (before @ [tn]) rt w \<noteq> (None, rt', w')" for rt w rt' w'
    using stop_event_loop [OF assms, of env before] by (metis fst_conv)
  then have "fst (redp2p_wait env (before @ [tn]) host iport ident port w) \<noteq> None"
    by (auto simp: redp2p_wait_def Let_def split: prod.splits option.splits)
  then show ?thesis by (metis option.exhaust prod.collapse)
qed

text \<open>
  A publisher that is asked to stop stops: if another thread requests it before some iteration
  of the event loop, \<^verbatim>\<open>redp2p_wait\<close> returns, whatever the index, the peers, the backend and
  the system did before, and nothing that would happen afterwards has any influence.
\<close>

theorem wait_stops:
  assumes "tn_stop tn"
  shows "\<exists>r w'. redp2p_wait env (before @ tn # after) host iport ident port w = (Some r, w') \<and>
    redp2p_wait env (before @ [tn]) host iport ident port w = (Some r, w')"
proof -
  have e: "redp2p_publisher_event_loop env (before @ tn # after) = redp2p_publisher_event_loop env (before @ [tn])"
    using stop_event_loop [OF assms] by (intro ext) blast
  have "redp2p_wait env (before @ tn # after) host iport ident port w = redp2p_wait env (before @ [tn]) host iport ident port w"
    unfolding redp2p_wait_def e by (rule refl)
  then show ?thesis using stop_returns [OF assms, of env before host iport ident port w] by simp
qed

definition demo_turn :: "bool \<Rightarrow> turn" where
  "demo_turn stop = \<lparr>tn_stop = stop, tn_selected = 1, tn_ready = [3], tn_stop_after = False\<rparr>"

theorem wait_stops_witness:
  "\<exists>r w'. redp2p_wait (demo_peer_env None) [demo_turn False, demo_turn True, demo_turn False] (Some ''h'') 7777 (Some ''web'') 80
    (demo_world REDP2P_PROTO_UDP) = (Some r, w')"
  using wait_stops [of "demo_turn True" "demo_peer_env None" "[demo_turn False]" "[demo_turn False]" "Some ''h''" 7777 "Some ''web''" 80
    "demo_world REDP2P_PROTO_UDP"]
  by (auto simp: demo_turn_def)

text \<open>
  C3: However its life goes, \<^verbatim>\<open>redp2p_wait\<close> gives back every socket: when it returns, with
  success or an error at any stage, each socket it opened has been closed exactly once, and descriptors
  held before are still held. The account covers the peer socket, the backend connections, the socket of every
  HTTP request to the index (challenge, register, heartbeat, poll, deregister), the probe socket of
  gathering candidates, and sockets that were tried and dropped. The descriptors of key files and of
  \<^verbatim>\<open>/dev/urandom\<close> are not part of it.
\<close>

theorem wait_releases_descriptors:
  assumes "holds h w" "redp2p_wait env tns host iport ident port w = (Some r, w')"
  shows "holds h w'"
proof -
  let ?w = "clear_error w"
  obtain r0 rt w0 where 0: "redp2p_publisher_initialize env host iport ident port ?w = (r0, rt, w0)" by (metis prod_cases3)
  obtain r1 w1 where 1: "redp2p_publisher_register env rt w0 = (r1, w1)" by fastforce
  obtain r2 w2 where 2: "redp2p_publisher_persist_registration env rt w1 = (r2, w2)" by fastforce
  obtain r3 rt3 w3 where 3: "redp2p_publisher_event_loop env tns rt (clear_error w2) = (r3, rt3, w3)" by (metis prod_cases3)
  obtain r4 w4 where 4: "redp2p_publisher_remove_registration env rt3 (the r3) w3 = (r4, w4)" by fastforce
  show ?thesis
  proof (cases "stop_requested (pw_ctx ?w) \<or> r0 \<noteq> REDP2P_OK")
    case True
    then show ?thesis
      using assms initialize_ok [OF 0, of h] 0 by (auto simp: redp2p_wait_def Let_def split: if_splits)
  next
    case False
    then have ok0: "runtime_ok h rt w0" "pr_udp_fd rt \<ge> 0" using initialize_ok [OF 0, of h] assms(1) by auto
    have ok1: "runtime_ok h rt w1" using still_ok [OF register_still [OF 1 still_refl] ok0(1)] .
    have ok2: "runtime_ok h rt w2" using still_ok [OF persist_still [OF 2 still_refl] ok1] .
    have ok3: "runtime_ok h rt3 w3 \<and> pr_udp_fd rt3 = pr_udp_fd rt"
      using event_loop_ok [OF 3 still_ok [OF _ ok2]] by simp
    have ok4: "runtime_ok h rt3 w4" using still_ok [OF remove_registration_still [OF 4 still_refl]] ok3 by blast
    show ?thesis
      using False assms(2) 0 1 2 3 4 ok0(2) cleanup_holds [OF ok1 ok0(2)] cleanup_holds [OF ok2 ok0(2)] cleanup_holds [OF ok4] ok3
      by (auto simp: redp2p_wait_def Let_def split: if_splits option.splits)
  qed
qed

theorem wait_releases_descriptors_witness:
  "\<exists>r w'. redp2p_wait (demo_peer_env None) [demo_turn False, demo_turn True] (Some ''h'') 7777 (Some ''web'') 80
    (demo_world REDP2P_PROTO_UDP) = (Some r, w') \<and> holds {#3#} w'"
proof -
  obtain r w' where run: "redp2p_wait (demo_peer_env None) ([demo_turn False] @ [demo_turn True]) (Some ''h'') 7777 (Some ''web'') 80
      (demo_world REDP2P_PROTO_UDP) = (Some r, w')"
    using stop_returns [of "demo_turn True"] by (metis demo_turn_def turn.select_convs(1))
  then show ?thesis using wait_releases_descriptors [OF demo_world_simps(3) run] by (simp only: append_Cons append_Nil) blast
qed

section \<open>A running publisher\<close>

text \<open>
  C4: In every state the event loop reaches, however many peers call, vanish or misbehave: the
  process holds the peer socket and exactly the descriptors of the active sessions, every session
  has the configured transport, and no two active sessions would take the same datagram, so that
  the table look-up of \<^verbatim>\<open>redp2p_publisher_session_find\<close> is never ambiguous.
\<close>

theorem publisher_table_invariant:
  assumes "pr_sessions rt = []" "holds {#pr_udp_fd rt#} w" "publisher_turns env tns rt w = (r, rt', w')"
  shows "holds (table_holding session_fds (filter ss_active (pr_sessions rt')) + {#pr_udp_fd rt#}) w' \<and>
    unique_sessions (pr_sessions rt') \<and>
    (\<forall>s \<in> set (pr_sessions rt'). ss_active s \<longrightarrow> ss_is_tcp s = is_tcp_ctx w)"
proof -
  have "runtime_ok {#} rt w" using assms(1,2) by (simp add: runtime_ok_def unique_sessions_def)
  then have ok: "runtime_ok {#} rt' w'" "pr_udp_fd rt' = pr_udp_fd rt" "transport w' = transport w"
    using turns_safe [OF assms(3)] by (auto simp: safe_def)
  have "list_all proper_session ss \<Longrightarrow> table_holding session_fds (filter ss_active ss) = table_holding session_fds ss" for ss
    by (induction ss) (auto simp: proper_session_def)
  then show ?thesis using ok by (simp add: runtime_ok_def list_all_iff)
qed

definition demo_session :: "32 word \<Rightarrow> int \<Rightarrow> redp2p_udp_server_session_t" where
  "demo_session ip fd = (new_session False (SA_in 4000 ip) 0)\<lparr>ss_backend_fd := fd, ss_active := True\<rparr>"

definition demo_runtime :: "redp2p_udp_server_session_t list \<Rightarrow> redp2p_publisher_runtime_t" where
  "demo_runtime ss = \<lparr>pr_index_host = ''h'', pr_self_id = ''web'', pr_udp_any_host = ''0.0.0.0'', pr_index_port = 7777, pr_udp_fd = 3,
     pr_sessions = ss, pr_session_capacity = 8, pr_last_heartbeat = 5, pr_last_punch_poll = 5000\<rparr>"

theorem publisher_table_invariant_witness:
  "\<exists>r rt' w'. publisher_turns (demo_peer_env (Some ([65], SA_in 4000 1))) [demo_turn False, demo_turn False] (demo_runtime [])
      (demo_world REDP2P_PROTO_UDP) = (r, rt', w') \<and>
    holds (table_holding session_fds (filter ss_active (pr_sessions rt')) + {#3#}) w' \<and> unique_sessions (pr_sessions rt')"
proof -
  obtain r rt' w' where run: "publisher_turns (demo_peer_env (Some ([65], SA_in 4000 1))) [demo_turn False, demo_turn False]
      (demo_runtime []) (demo_world REDP2P_PROTO_UDP) = (r, rt', w')"
    by (metis prod_cases3)
  then show ?thesis using publisher_table_invariant [OF _ _ run] by (simp add: demo_runtime_def)
qed

section \<open>Datagrams of peers\<close>

text \<open>The session a datagram belongs to, and the events on its descriptors.\<close>

definition owns :: "peer_world \<Rightarrow> byte list \<Rightarrow> sockaddr_storage \<Rightarrow> redp2p_udp_server_session_t \<Rightarrow> bool" where
  "owns w buf from s \<longleftrightarrow> ss_active s \<and> redp2p_sockaddr_equal (ss_peer_addr s) from \<and>
     (if is_tcp_ctx w then ss_is_tcp s \<and> (case redp2p_stream_unpack buf of None \<Rightarrow> False
                                        | Some e \<Rightarrow> st_session_id (ss_stream s) = en_session_id e)
      else \<not> ss_is_tcp s)"

fun own_event :: "int \<Rightarrow> redp2p_udp_server_session_t \<Rightarrow> peer_event \<Rightarrow> bool" where
  "own_event udp s (Closed fd) = (fd \<in> {ss_backend_fd s, ss_tcp_fd s})"
| "own_event udp s (Wrote fd b) = (fd = ss_backend_fd s)"
| "own_event udp s (Shut_down fd) = (fd = ss_backend_fd s)"
| "own_event udp s (Sent_to fd a b) = (fd = ss_backend_fd s \<or> fd = udp \<and> a = ss_peer_addr s)"
| "own_event udp s _ = False"

definition adds :: "(peer_event \<Rightarrow> bool) \<Rightarrow> peer_world \<Rightarrow> peer_world \<Rightarrow> bool" where
  "adds P w w' \<longleftrightarrow> (\<exists>evs. pw_log w' = pw_log w @ evs \<and> list_all P evs)"

lemma adds_refl: "pw_log w' = pw_log w \<Longrightarrow> adds P w w'"
  by (simp add: adds_def)

lemma adds_trans: "adds P w w1 \<Longrightarrow> adds P w1 w2 \<Longrightarrow> adds P w w2"
  by (auto simp: adds_def)

lemma adds_did: "list_all P evs \<Longrightarrow> adds P w (did evs w)"
  by (simp add: adds_def did_def)

lemma adds_mono: "adds P w w' \<Longrightarrow> (\<And>e. P e \<Longrightarrow> Q e) \<Longrightarrow> adds Q w w'"
  by (auto simp: adds_def list_all_iff)

lemma note_error_log [simp]: "pw_log (note_error m w) = pw_log w"
  by (simp add: note_error_def split: option.splits)

lemma stream_events_own: "list_all (own_event udp s) (map (stream_event_of udp (ss_peer_addr s) (ss_backend_fd s)) es)"
proof (induction es)
  case (Cons e es)
  then show ?case by (cases e) simp_all
qed simp

lemma session_stream_adds: "session_stream env udp act s w = (r, s', w') \<Longrightarrow> adds (own_event udp s) w w'"
  by (auto simp: session_stream_def stream_act_def on_stream_def adds_def did_def stream_events_own split: prod.splits)

lemma session_fail_adds:
  "session_fail env udp s w = (s', w') \<Longrightarrow> adds (own_event udp s) w w' \<and>
    ss_backend_fd s' = ss_backend_fd s \<and> ss_tcp_fd s' = ss_tcp_fd s \<and> ss_peer_addr s' = ss_peer_addr s"
  by (auto simp: session_fail_def stream_fail_def on_stream_def adds_def did_def stream_events_own split: prod.splits)

lemma close_adds: "redp2p_server_session_close s w = (s', w') \<Longrightarrow> adds (own_event udp s) w w'"
  by (auto simp: redp2p_server_session_close_def Let_def close_fd_def did_def adds_def split: if_splits)

lemma own_event_fields:
  "ss_backend_fd s' = ss_backend_fd s \<Longrightarrow> ss_tcp_fd s' = ss_tcp_fd s \<Longrightarrow> ss_peer_addr s' = ss_peer_addr s \<Longrightarrow>
    own_event udp s' = own_event udp s"
proof (rule ext)
  fix e assume "ss_backend_fd s' = ss_backend_fd s" "ss_tcp_fd s' = ss_tcp_fd s" "ss_peer_addr s' = ss_peer_addr s"
  then show "own_event udp s' e = own_event udp s e" by (cases e) simp_all
qed

lemma fail_and_close_adds:
  assumes "fail_and_close env udp s w = (s', w')"
  shows "adds (own_event udp s) w w'"
proof -
  obtain s1 w1 where 1: "session_fail env udp s w = (s1, w1)" by fastforce
  have 2: "redp2p_server_session_close s1 w1 = (s', w')" using assms 1 by (simp add: fail_and_close_def)
  have e: "own_event udp s1 = own_event udp s" using session_fail_adds [OF 1] by (intro own_event_fields) simp_all
  show ?thesis using adds_trans [of "own_event udp s" w w1 w'] session_fail_adds [OF 1] close_adds [OF 2, of udp] e by simp
qed

lemma session_stream_fields:
  "session_stream env udp act s w = (r, s', w') \<Longrightarrow>
    ss_backend_fd s' = ss_backend_fd s \<and> ss_tcp_fd s' = ss_tcp_fd s \<and> ss_peer_addr s' = ss_peer_addr s"
  by (auto simp: session_stream_def split: prod.splits)

lemma session_datagram_adds:
  assumes "session_datagram env rt i buf w = (r, rt', w')"
  shows "adds (own_event (pr_udp_fd rt) (pr_sessions rt ! i)) w w' \<and> (\<exists>s'. rt' = rt\<lparr>pr_sessions := (pr_sessions rt)[i := s']\<rparr>)"
proof -
  let ?s = "pr_sessions rt ! i" and ?udp = "pr_udp_fd rt"
  have self: "\<exists>s'. rt = rt\<lparr>pr_sessions := (pr_sessions rt)[i := s']\<rparr>" by (rule exI [of _ ?s]) simp
  have two: "adds (own_event ?udp ?s) w w2"
    if "session_stream env ?udp act ?s w = (k, s1, w1)" "fail_and_close env ?udp s1 w1 = (s2, w2)" for act k s1 w1 s2 w2
    using adds_trans [OF session_stream_adds [OF that(1)]] fail_and_close_adds [OF that(2)]
      session_stream_fields [OF that(1)] own_event_fields [of s1 ?s] by metis
  have sent: "adds (own_event ?udp ?s) w (did [Sent_to (ss_backend_fd ?s) a b] w)" for a b by (rule adds_did) simp
  have table: "\<exists>s'. rt' = rt\<lparr>pr_sessions := (pr_sessions rt)[i := s']\<rparr>"
    using assms self by (auto simp: session_datagram_def Let_def set_session_def split: if_splits prod.splits)
  have "adds (own_event ?udp ?s) w w'"
  proof (cases "ss_is_tcp ?s \<and> ss_backend_fd ?s \<noteq> - 1 \<and> \<not> punch_control (datagram_text buf)")
    case False
    then show ?thesis
      using assms sent by (auto simp: session_datagram_def Let_def split: if_splits intro: adds_refl)
  next
    case True
    obtain k s1 w1 where 1: "session_stream env ?udp (\<lambda>senv. redp2p_stream_process_packet senv buf) ?s w = (k, s1, w1)"
      by (metis prod_cases3)
    obtain s2 w2 where 2: "fail_and_close env ?udp s1 w1 = (s2, w2)" by fastforce
    have "w' = (if k \<noteq> 0 then w2 else w1)"
      using assms True 1 2 by (auto simp: session_datagram_def Let_def split: if_splits)
    then show ?thesis using two [OF 1 2] session_stream_adds [OF 1] by simp
  qed
  then show ?thesis using table by blast
qed

lemma find_owns:
  assumes "(if is_tcp_ctx w then (case redp2p_stream_unpack buf of None \<Rightarrow> None
             | Some e \<Rightarrow> redp2p_publisher_session_find rt from (Some (en_session_id e)))
           else redp2p_publisher_session_find rt from None) = Some i"
  shows "i < length (pr_sessions rt) \<and> owns w buf from (pr_sessions rt ! i)"
  using assms first_index_Some
  by (fastforce simp: redp2p_publisher_session_find_def owns_def split: if_splits option.splits)

text \<open>
  C13: A datagram reaches one session only. Whatever bytes arrive from whatever address, every
  session that does not own the datagram (same peer address and, for streams, same session
  identifier) is left as it was, and the process does nothing but act on the descriptors of the one
  owner, or send one datagram back to the sender.
\<close>

theorem publisher_datagram_isolation:
  assumes "redp2p_publisher_receive_peer env rt fds w = (r, rt', w')"
    "pe_recv env (pw_log w) (pr_udp_fd rt) = Some (buf, from)"
  shows "length (pr_sessions rt') = length (pr_sessions rt) \<and>
    (\<forall>j < length (pr_sessions rt). \<not> owns w buf from (pr_sessions rt ! j) \<longrightarrow> pr_sessions rt' ! j = pr_sessions rt ! j) \<and>
    ((\<exists>i < length (pr_sessions rt). owns w buf from (pr_sessions rt ! i) \<and> adds (own_event (pr_udp_fd rt) (pr_sessions rt ! i)) w w') \<or>
     (\<exists>out. length out \<le> 1 \<and> pw_log w' = pw_log w @ map (Sent_to (pr_udp_fd rt) from) out))"
proof -
  define found where "found =
    (if is_tcp_ctx w then (case redp2p_stream_unpack buf of None \<Rightarrow> None
       | Some e \<Rightarrow> redp2p_publisher_session_find rt from (Some (en_session_id e)))
     else redp2p_publisher_session_find rt from None)"
  have none: "\<exists>out. length out \<le> 1 \<and> pw_log w2 = pw_log w @ map (Sent_to (pr_udp_fd rt) from) out" if "pw_log w2 = pw_log w" for w2
    using that by (intro exI [of _ "[]"]) simp
  have one: "\<exists>out. length out \<le> 1 \<and> pw_log (did [Sent_to (pr_udp_fd rt) from b] w) = pw_log w @ map (Sent_to (pr_udp_fd rt) from) out" for b
    by (intro exI [of _ "[b]"]) (simp add: did_def)
  show ?thesis
  proof (cases "pr_udp_fd rt \<in> set fds \<and> \<not> length buf > REDP2P_BUF")
    case False
    then show ?thesis using assms none by (auto simp: redp2p_publisher_receive_peer_def split: if_splits)
  next
    case True
    show ?thesis
    proof (cases found)
      case None
      then show ?thesis
        using assms True none one
        by (auto simp: redp2p_publisher_receive_peer_def Let_def found_def [symmetric] split: option.splits)
    next
      case (Some i)
      note o = find_owns [OF Some [unfolded found_def]]
      have d: "session_datagram env rt i buf w = (r, rt', w')"
        using assms True Some by (simp add: redp2p_publisher_receive_peer_def Let_def found_def [symmetric])
      obtain s' where s': "rt' = rt\<lparr>pr_sessions := (pr_sessions rt)[i := s']\<rparr>"
        and a: "adds (own_event (pr_udp_fd rt) (pr_sessions rt ! i)) w w'"
        using session_datagram_adds [OF d] by blast
      show ?thesis using o a s' by (auto simp: nth_list_update)
    qed
  qed
qed

theorem publisher_datagram_isolation_witness:
  "\<exists>r rt' w'. redp2p_publisher_receive_peer (demo_peer_env (Some ([65], SA_in 4000 1))) (demo_runtime [demo_session 1 5, demo_session 2 6])
      [3] (demo_world REDP2P_PROTO_UDP) = (r, rt', w') \<and> pr_sessions rt' ! 1 = demo_session 2 6"
proof -
  let ?rt = "demo_runtime [demo_session 1 5, demo_session 2 6]"
  obtain r rt' w' where run: "redp2p_publisher_receive_peer (demo_peer_env (Some ([65], SA_in 4000 1))) ?rt [3]
      (demo_world REDP2P_PROTO_UDP) = (r, rt', w')"
    by (metis prod_cases3)
  have "\<not> owns (demo_world REDP2P_PROTO_UDP) [65] (SA_in 4000 1) (demo_session 2 6)"
    by (simp add: owns_def demo_session_def new_session_def redp2p_sockaddr_equal_def)
  then show ?thesis using run publisher_datagram_isolation [OF run, of "[65]" "SA_in 4000 1"] by (auto simp: demo_runtime_def)
qed

section \<open>Datagrams of strangers\<close>

text \<open>
  The receive stage ends the event loop, and with it the publisher, exactly when a datagram of
  more than \<^verbatim>\<open>REDP2P_BUF\<close> bytes is waiting, whoever sent it: no session and no knowledge of one is
  needed. Every other datagram leaves the loop running.
\<close>

theorem publisher_receive_fatal:
  "fst (redp2p_publisher_receive_peer env rt fds w) < 0 \<longleftrightarrow>
    pr_udp_fd rt \<in> set fds \<and> (\<exists>buf from. pe_recv env (pw_log w) (pr_udp_fd rt) = Some (buf, from) \<and> length buf > REDP2P_BUF)"
proof -
  have "\<not> fst (session_datagram env rt i buf w) < 0" for i buf
    by (simp add: session_datagram_def Let_def split: prod.splits)
  then show ?thesis
    by (auto simp: redp2p_publisher_receive_peer_def Let_def REDP2P_ENET_def split: option.splits)
qed

text \<open>
  The pong with which the event loop answers a late ping names source and destination the wrong
  way round: the peer that sent the ping counts it as a mismatch, where the pong that
  \<^verbatim>\<open>redp2p_punch_wait_response\<close> prints for the same ping would have completed the punch.
\<close>

theorem late_pong_rejected:
  assumes "redp2p_is_session_token s" "redp2p_is_punch_id f" "redp2p_is_punch_id t" "length t \<le> 62" "f \<noteq> t"
  shows "(\<exists>pong. stray_pong (punch_message REDP2P_CTRTOK_PUNCH_PING s f t) = Some pong \<and> read_punch s f t (recv_text pong) = Mismatch) \<and>
    read_punch s f t (recv_text (punch_message REDP2P_CTRTOK_PUNCH_PONG s f t)) = Pong"
proof -
  let ?pong = "REDP2P_CTRTOK_PUNCH_PONG @ s @ '':'' @ t @ '':'' @ f"
  have l: "length REDP2P_CTRTOK_PUNCH_PING \<le> 32" "length REDP2P_CTRTOK_PUNCH_PONG \<le> 32"
    by (simp_all add: REDP2P_CTRTOK_PUNCH_PING_def REDP2P_CTRTOK_PUNCH_PONG_def)
  have p: "redp2p_parse_punch_packet (punch_message REDP2P_CTRTOK_PUNCH_PING s f t) REDP2P_CTRTOK_PUNCH_PING = Some (s, f, t)"
    using packet_roundtrip [OF assms(1-4) l(1)] .
  have starts: "starts_with REDP2P_CTRTOK_PUNCH_PING (punch_message REDP2P_CTRTOK_PUNCH_PING s f t)"
    by (simp add: starts_with_def punch_message_untruncated [OF assms(1-3) l(1)])
  have len: "length ?pong \<le> 255" using assms(1-3) l(2) by (simp add: token_iffs)
  have m: "punch_message REDP2P_CTRTOK_PUNCH_PONG s t f = ?pong @ [LF]"
    using punch_message_untruncated [OF assms(1,3,2) l(2)] by simp
  have z: "NUL \<notin> set (punch_message REDP2P_CTRTOK_PUNCH_PONG s t f)"
    using recv_message(1) [OF assms(1,3,2), of REDP2P_CTRTOK_PUNCH_PONG] c_str_no_NUL
    by (metis insertCI recv_text_def)
  have r: "recv_text ?pong = ?pong"
    using z len unfolding recv_text_def m by (simp add: c_str_id)
  have id_kept: "strip_line_end f = f"
    using punch_id_chars [OF assms(2)] by (cases f rule: rev_cases) (auto simp: strip_line_end_def)
  have fl: "f \<noteq> []" "length f < 64" using assms(2) by (simp_all add: token_iffs)
  have "redp2p_parse_punch_packet ?pong REDP2P_CTRTOK_PUNCH_PONG = Some (s, t, f)"
    using parse_punch_packet_fields [OF assms(1,3), of REDP2P_CTRTOK_PUNCH_PONG f] assms(2) fl
    by (simp only: id_kept append_assoc) (simp add: not_le)
  then have "read_punch s f t (recv_text ?pong) = Mismatch" unfolding r using assms(5) by (simp add: read_punch_def)
  moreover have "stray_pong (punch_message REDP2P_CTRTOK_PUNCH_PING s f t) = Some ?pong"
    using p starts len by (simp add: stray_pong_def)
  moreover have "read_punch s f t (recv_text (punch_message REDP2P_CTRTOK_PUNCH_PONG s f t)) = Pong"
    using read_pong [OF assms(1-4)] recv_message(1) [OF assms(1-3), of REDP2P_CTRTOK_PUNCH_PONG] by simp
  ultimately show ?thesis by blast
qed

theorem late_pong_rejected_witness:
  "\<exists>pong. stray_pong (punch_message REDP2P_CTRTOK_PUNCH_PING ''5e55'' ''alice'' ''bob'') = Some pong \<and>
    read_punch ''5e55'' ''alice'' ''bob'' (recv_text pong) = Mismatch"
  using late_pong_rejected [of "''5e55''" "''alice''" "''bob''"] demo_punch_facts(5) by simp

end
