(* ===== verification/Consumer.thy ===== *)
theory Consumer
  imports Peer_Frame
begin

text \<open>
  The consumer (\<^verbatim>\<open>redp2p_connect\<close> and \<^verbatim>\<open>redp2p_consumer_*\<close>): the lookup of the publisher, the
  opening of one punched path per local client, the table of sessions and the loop that moves
  data between local clients and their peers.
\<close>

section \<open>State\<close>

record redp2p_udp_consumer_session_t =
  cs_fd :: int
  cs_tcp_fd :: int
  cs_client_addr :: sockaddr_storage
  cs_peer_addr :: sockaddr_storage
  cs_last_rx :: u64
  cs_last_ka :: u64
  cs_active :: bool
  cs_is_tcp :: bool
  cs_stream :: redp2p_stream_state_t

record redp2p_consumer_runtime_t =
  cr_index_host :: string
  cr_self_id :: string
  cr_target_id :: string
  cr_udp_any_host :: string
  cr_index_port :: "16 word"
  cr_local_fd :: int
  cr_tcp_listen_fd :: int
  cr_sessions :: "redp2p_udp_consumer_session_t list"
  cr_cap_sessions :: nat
  cr_peer_candidates :: "redp2p_candidate_t list"

section \<open>The session table\<close>

definition redp2p_consumer_session_close ::
  "redp2p_udp_consumer_session_t \<Rightarrow> peer_world \<Rightarrow> redp2p_udp_consumer_session_t \<times> peer_world" where
  "redp2p_consumer_session_close s w =
     (let w = (if cs_tcp_fd s \<noteq> - 1 then close_fd (cs_tcp_fd s) w else w);
          w = (if cs_fd s \<ge> 0 then close_fd (cs_fd s) w else w)
      in (s\<lparr>cs_tcp_fd := - 1, cs_fd := (if cs_fd s \<ge> 0 then - 1 else cs_fd s),
            cs_stream := (if cs_is_tcp s then redp2p_stream_wipe (cs_stream s) else cs_stream s), cs_active := False\<rparr>, w))"

definition client_stream ::
  "peer_env \<Rightarrow> (stream_env \<Rightarrow> redp2p_stream_state_t \<Rightarrow> stream_io \<Rightarrow> int \<times> redp2p_stream_state_t \<times> stream_io)
   \<Rightarrow> redp2p_udp_consumer_session_t \<Rightarrow> peer_world \<Rightarrow> int \<times> redp2p_udp_consumer_session_t \<times> peer_world" where
  "client_stream env act s w =
     (case stream_act env (cs_fd s) (cs_peer_addr s) (cs_tcp_fd s) act (cs_stream s) w of (r, st, w) \<Rightarrow> (r, s\<lparr>cs_stream := st\<rparr>, w))"

definition client_fail ::
  "peer_env \<Rightarrow> redp2p_udp_consumer_session_t \<Rightarrow> peer_world \<Rightarrow> redp2p_udp_consumer_session_t \<times> peer_world" where
  "client_fail env s w =
     (case stream_fail env (cs_fd s) (cs_peer_addr s) (cs_tcp_fd s) (cs_stream s) w of (st, w) \<Rightarrow> (s\<lparr>cs_stream := st\<rparr>, w))"

definition client_fail_and_close ::
  "peer_env \<Rightarrow> redp2p_udp_consumer_session_t \<Rightarrow> peer_world \<Rightarrow> redp2p_udp_consumer_session_t \<times> peer_world" where
  "client_fail_and_close env s w = (case client_fail env s w of (s, w) \<Rightarrow> redp2p_consumer_session_close s w)"

definition redp2p_consumer_session_find :: "redp2p_consumer_runtime_t \<Rightarrow> sockaddr_storage \<Rightarrow> nat option" where
  "redp2p_consumer_session_find rt client_addr =
     first_index (\<lambda>s. cs_active s \<and> redp2p_sockaddr_equal (cs_client_addr s) client_addr) (cr_sessions rt)"

definition redp2p_consumer_session_insert ::
  "peer_env \<Rightarrow> redp2p_consumer_runtime_t \<Rightarrow> redp2p_udp_consumer_session_t \<Rightarrow> peer_world
   \<Rightarrow> nat option \<times> redp2p_consumer_runtime_t \<times> peer_world" where
  "redp2p_consumer_session_insert env rt session w =
     (case first_index (\<lambda>s. \<not> cs_active s) (cr_sessions rt) of
        Some i \<Rightarrow> (Some i, rt\<lparr>cr_sessions := (cr_sessions rt)[i := session]\<rparr>, w)
      | None \<Rightarrow>
          let grow = length (cr_sessions rt) \<ge> cr_cap_sessions rt;
              new_cap = (if \<not> grow then cr_cap_sessions rt else if cr_cap_sessions rt = 0 then 8 else cr_cap_sessions rt * 2)
          in if grow \<and> \<not> pe_alloc env (pw_log w) then (None, rt, snd (redp2p_consumer_session_close session w))
             else (Some (length (cr_sessions rt)), rt\<lparr>cr_cap_sessions := new_cap, cr_sessions := cr_sessions rt @ [session]\<rparr>, w))"

definition client_close_session ::
  "peer_env \<Rightarrow> redp2p_udp_consumer_session_t \<Rightarrow> peer_world \<Rightarrow> redp2p_udp_consumer_session_t \<times> peer_world" where
  "client_close_session env s w =
     (if \<not> cs_active s then (s, w)
      else let (s, w) = (if cs_is_tcp s \<and> \<not> redp2p_stream_is_done (cs_stream s) then client_fail env s w else (s, w))
           in redp2p_consumer_session_close s w)"

definition redp2p_consumer_session_close_all ::
  "peer_env \<Rightarrow> redp2p_consumer_runtime_t \<Rightarrow> peer_world \<Rightarrow> redp2p_consumer_runtime_t \<times> peer_world" where
  "redp2p_consumer_session_close_all env rt w =
     (let (ss, w) = each_session (client_close_session env) (cr_sessions rt) w in (rt\<lparr>cr_sessions := ss\<rparr>, w))"

section \<open>Establishing a path\<close>

definition redp2p_send_punch_req_cands ::
  "peer_env \<Rightarrow> redp2p_consumer_runtime_t \<Rightarrow> string \<Rightarrow> redp2p_candidate_t list \<Rightarrow> peer_world \<Rightarrow> int \<times> peer_world" where
  "redp2p_send_punch_req_cands env rt session_hex cands w =
     (if cands = [] \<or> length cands > REDP2P_PEER_CANDIDATES_MAX then (REDP2P_EPROTO, w)
      else let obj = json_object_set_string [] ''op'' ''punch_req'';
               obj = json_object_set_string obj ''self_id'' (cr_self_id rt);
               obj = json_object_set_string obj ''target_id'' (cr_target_id rt);
               obj = json_object_set_string obj ''session'' session_hex;
               obj = redp2p_index_append_candidates obj ''candidates'' cands
           in case http_request env ''connect'' (cr_index_host rt) (cr_index_port rt) obj w of
                (Inl rc, w) \<Rightarrow> (rc, w)
              | (Inr _, w) \<Rightarrow> (REDP2P_OK, w))"

text \<open>
  The descriptor, the peer's address and the session identifier, or the error code with the flag
  that ends the iteration.
\<close>

definition redp2p_consumer_establish_peer ::
  "peer_env \<Rightarrow> redp2p_consumer_runtime_t \<Rightarrow> bool \<Rightarrow> peer_world
   \<Rightarrow> (int \<times> bool + int \<times> sockaddr_storage \<times> byte list \<times> string) \<times> peer_world" where
  "redp2p_consumer_establish_peer env rt is_tcp w =
     (case (if is_tcp then redp2p_stream_make_session_id (pe_random env (pw_log w) REDP2P_STREAM_SESSION_ID_SZ)
            else (case pe_random env (pw_log w) 8 of
                    None \<Rightarrow> None
                  | Some bin \<Rightarrow> map_option (Pair bin) (redp2p_hex_encode bin 17))) of
        None \<Rightarrow> (Inl (REDP2P_ENET, True), w)
      | Some (session_bin, session_hex) \<Rightarrow>
          (case redp2p_create_socket env w of (peer_fd, w) \<Rightarrow>
             if peer_fd < 0 then (Inl (REDP2P_ENET, True), w)
             else case gather env REDP2P_PEER_CANDIDATES_MAX w of (rc, candidates, w) \<Rightarrow>
               if rc \<noteq> REDP2P_OK then (Inl (REDP2P_ENET, True), close_fd peer_fd w)
               else case redp2p_send_punch_req_cands env rt session_hex candidates w of (rc, w) \<Rightarrow>
                 if rc \<noteq> REDP2P_OK then (Inl (rc, True), close_fd peer_fd w)
                 else case punch env peer_fd session_hex (cr_self_id rt) (cr_target_id rt) (cr_peer_candidates rt) w of
                   (rc, found, w) \<Rightarrow>
                     if rc \<noteq> REDP2P_OK then (Inl (rc, False), close_fd peer_fd w)
                     else (Inr (peer_fd, case found of None \<Rightarrow> SA_other | Some a \<Rightarrow> a, session_bin, session_hex), w)))"

definition redp2p_consumer_tcp_session_init ::
  "peer_env \<Rightarrow> int \<Rightarrow> sockaddr_storage \<Rightarrow> int \<Rightarrow> byte list \<Rightarrow> string \<Rightarrow> peer_world
   \<Rightarrow> redp2p_udp_consumer_session_t option \<times> peer_world" where
  "redp2p_consumer_tcp_session_init env peer_fd peer_addr client_fd session_bin session_hex w =
     (case stream_open env peer_fd peer_addr client_fd True session_bin session_hex w of (r, st, w) \<Rightarrow>
        if r \<noteq> 0 then (None, w)
        else (Some \<lparr>cs_fd = peer_fd, cs_tcp_fd = client_fd, cs_client_addr = SA_other, cs_peer_addr = peer_addr,
                    cs_last_rx = redp2p_now_s env w, cs_last_ka = redp2p_now_s env w, cs_active = True, cs_is_tcp = True,
                    cs_stream = st\<rparr>, w))"

definition redp2p_consumer_udp_session_init ::
  "peer_env \<Rightarrow> int \<Rightarrow> sockaddr_storage \<Rightarrow> sockaddr_storage \<Rightarrow> peer_world \<Rightarrow> redp2p_udp_consumer_session_t" where
  "redp2p_consumer_udp_session_init env peer_fd peer_addr client_addr w =
     \<lparr>cs_fd = peer_fd, cs_tcp_fd = - 1, cs_client_addr = client_addr, cs_peer_addr = peer_addr,
      cs_last_rx = redp2p_now_s env w, cs_last_ka = redp2p_now_s env w, cs_active = True, cs_is_tcp = False,
      cs_stream = zero_stream\<rparr>"

section \<open>Start\<close>

text \<open>The local descriptors: the adapter's UDP socket, or a peer socket and the TCP listener.\<close>

definition local_descriptors ::
  "peer_env \<Rightarrow> redp2p_consumer_runtime_t \<Rightarrow> peer_world \<Rightarrow> int \<times> redp2p_consumer_runtime_t \<times> peer_world" where
  "local_descriptors env rt w =
     (let (fd, w) = redp2p_create_socket env w;
          rt = rt\<lparr>cr_local_fd := fd\<rparr>
      in if ctx_proto (pw_ctx w) = REDP2P_PROTO_UDP
         then (if fd < 0 then (REDP2P_ENET, rt, err ''connect: local UDP bind failed'' w) else (REDP2P_OK, rt, w))
         else if fd < 0 then (REDP2P_ENET, rt, err ''connect: peer UDP socket setup failed'' w)
         else let (lfd, w) = redp2p_create_tcp_listener env w;
                  rt = rt\<lparr>cr_tcp_listen_fd := lfd\<rparr>
              in if lfd < 0 then (REDP2P_ENET, rt, err ''connect: local TCP bind/listen failed'' w) else (REDP2P_OK, rt, w))"

text \<open>The result, whether the loop should run, the runtime and the world.\<close>

definition redp2p_consumer_runtime_init ::
  "peer_env \<Rightarrow> string option \<Rightarrow> 16 word \<Rightarrow> string option \<Rightarrow> string option \<Rightarrow> 16 word \<Rightarrow> peer_world
   \<Rightarrow> int \<times> bool \<times> redp2p_consumer_runtime_t \<times> peer_world" where
  "redp2p_consumer_runtime_init env index_host index_port self_id target port w =
     (let text_of = (\<lambda>t. case t of None \<Rightarrow> [] | Some t \<Rightarrow> t);
          rt = \<lparr>cr_index_host = text_of index_host, cr_self_id = text_of self_id, cr_target_id = text_of target,
                cr_udp_any_host = [], cr_index_port = index_port, cr_local_fd = - 1, cr_tcp_listen_fd = - 1, cr_sessions = [],
                cr_cap_sessions = 0, cr_peer_candidates = []\<rparr>;
          w = clear_error w
      in if stop_requested (pw_ctx w) then (REDP2P_OK, False, rt, set_ctx (stop_requested_update (\<lambda>_. False)) w)
         else case redp2p_resolve_port (pw_ctx w) port of
           None \<Rightarrow> (REDP2P_EINVAL, False, rt, err ''connect: conflicting local ports'' w)
         | Some effective_port \<Rightarrow>
             if effective_port = 0 \<or> index_host = None \<or> self_id = None \<or> target = None \<or>
                \<not> redp2p_is_valid_id (cr_self_id rt) \<or> \<not> redp2p_is_valid_id (cr_target_id rt) \<or> index_port = 0 \<or>
                ctx_proto (pw_ctx w) \<noteq> REDP2P_PROTO_TCP \<and> ctx_proto (pw_ctx w) \<noteq> REDP2P_PROTO_UDP
             then (REDP2P_EINVAL, False, rt, err ''connect: invalid index, identity, protocol, or local port'' w)
             else let w = set_ctx (bind_port_update (\<lambda>_. effective_port)) w
                  in if \<not> pe_platform env (pw_log w) then (REDP2P_ENET, False, rt, err ''connect: platform init failed'' w)
                     else case local_descriptors env (rt\<lparr>cr_udp_any_host := any_host env (cr_index_host rt)\<rparr>) w of
                       (rc, rt, w) \<Rightarrow> (rc, rc = REDP2P_OK, rt, w))"

definition redp2p_consumer_initial_lookup ::
  "peer_env \<Rightarrow> redp2p_consumer_runtime_t \<Rightarrow> peer_world \<Rightarrow> int \<times> redp2p_consumer_runtime_t \<times> peer_world" where
  "redp2p_consumer_initial_lookup env rt w =
     (let obj = json_object_set_string [] ''op'' ''lookup'';
          obj = json_object_set_string obj ''id'' (cr_target_id rt)
      in case http_request env ''connect'' (cr_index_host rt) (cr_index_port rt) obj w of
           (Inl rc, w) \<Rightarrow> (rc, rt, if rc = REDP2P_ENOENT then err ''connect: target publisher not found'' w else w)
         | (Inr out, w) \<Rightarrow>
             (case redp2p_index_parse_candidates (pe_net env) out ''candidates'' of
                None \<Rightarrow> (REDP2P_EPROTO, rt, err ''connect: malformed lookup response'' w)
              | Some candidates \<Rightarrow> (REDP2P_OK, rt\<lparr>cr_peer_candidates := candidates\<rparr>, clear_error w)))"

section \<open>The phases of an iteration\<close>

text \<open>The descriptors of one session; it is closed when one cannot be represented.\<close>

definition fdset_client ::
  "peer_env \<Rightarrow> redp2p_udp_consumer_session_t \<Rightarrow> int list \<times> int \<Rightarrow> peer_world
   \<Rightarrow> redp2p_udp_consumer_session_t \<times> (int list \<times> int) \<times> bool \<times> peer_world" where
  "fdset_client env s fds w =
     (if \<not> cs_active s then (s, fds, False, w)
      else case redp2p_fdset_add (cs_fd s) fds of
        None \<Rightarrow>
          let w = err ''connect: peer descriptor cannot be represented by fd_set'' w;
              (s, w) = (if cs_is_tcp s then client_fail env s w else (s, w));
              (s, w) = redp2p_consumer_session_close s w
          in (s, fds, True, w)
      | Some fds \<Rightarrow>
          if \<not> cs_is_tcp s \<or> cs_tcp_fd s = - 1 \<or> \<not> redp2p_stream_can_send_data (cs_stream s) then (s, fds, False, w)
          else case redp2p_fdset_add (cs_tcp_fd s) fds of
            Some fds \<Rightarrow> (s, fds, False, w)
          | None \<Rightarrow>
              let w = err ''connect: client descriptor cannot be represented by fd_set'' w;
                  (s, w) = client_fail_and_close env s w
              in (s, fds, True, w))"

fun client_fdset ::
  "peer_env \<Rightarrow> redp2p_udp_consumer_session_t list \<Rightarrow> int list \<times> int \<Rightarrow> peer_world
   \<Rightarrow> (redp2p_udp_consumer_session_t list \<times> (int list \<times> int) \<times> bool) \<times> peer_world" where
  "client_fdset env [] fds w = (([], fds, False), w)"
| "client_fdset env (s # ss) fds w =
     (let (s, fds, failed, w) = fdset_client env s fds w;
          ((ss, fds, failed'), w) = client_fdset env ss fds w
      in ((s # ss, fds, failed \<or> failed'), w))"

definition redp2p_consumer_fdset_build ::
  "peer_env \<Rightarrow> redp2p_consumer_runtime_t \<Rightarrow> peer_world \<Rightarrow> int \<times> (int list \<times> int) \<times> redp2p_consumer_runtime_t \<times> peer_world" where
  "redp2p_consumer_fdset_build env rt w =
     (case redp2p_fdset_add (cr_local_fd rt) ([], - 1) of
        None \<Rightarrow> (- 1, ([], - 1), rt, err ''connect: local descriptor cannot be represented by fd_set'' w)
      | Some fds \<Rightarrow>
          (case (if cr_tcp_listen_fd rt < 0 then Some fds else redp2p_fdset_add (cr_tcp_listen_fd rt) fds) of
             None \<Rightarrow> (- 1, fds, rt, err ''connect: listener cannot be represented by fd_set'' w)
           | Some fds \<Rightarrow>
               (case client_fdset env (cr_sessions rt) fds w of
                  ((ss, fds, failed), w) \<Rightarrow> (if failed then 0 else 1, fds, rt\<lparr>cr_sessions := ss\<rparr>, w))))"

definition redp2p_consumer_tcp_accept ::
  "peer_env \<Rightarrow> redp2p_consumer_runtime_t \<Rightarrow> int list \<Rightarrow> peer_world \<Rightarrow> bool \<times> redp2p_consumer_runtime_t \<times> peer_world" where
  "redp2p_consumer_tcp_accept env rt fds w =
     (if cr_tcp_listen_fd rt < 0 \<or> cr_tcp_listen_fd rt \<notin> set fds then (False, rt, w)
      else let client_fd = pe_accept env (pw_log w) (cr_tcp_listen_fd rt)
           in if client_fd < 0 then (False, rt, w)
              else case redp2p_consumer_establish_peer env rt True (did [Opened client_fd] w) of
                (Inl (rc, skip_iteration), w) \<Rightarrow> (skip_iteration, rt, close_fd client_fd w)
              | (Inr (peer_fd, peer_addr, session_bin, session_hex), w) \<Rightarrow>
                  (case redp2p_consumer_tcp_session_init env peer_fd peer_addr client_fd session_bin session_hex w of
                     (None, w) \<Rightarrow> (True, rt, close_fd client_fd (close_fd peer_fd w))
                   | (Some session, w) \<Rightarrow>
                       (case redp2p_consumer_session_insert env rt session w of (i, rt, w) \<Rightarrow> (i = None, rt, w))))"

definition client_set_session ::
  "nat \<Rightarrow> redp2p_udp_consumer_session_t \<Rightarrow> redp2p_consumer_runtime_t \<Rightarrow> redp2p_consumer_runtime_t" where
  "client_set_session i s rt = rt\<lparr>cr_sessions := (cr_sessions rt)[i := s]\<rparr>"

text \<open>The session of a local client, which is opened when there is none.\<close>

definition udp_session_for ::
  "peer_env \<Rightarrow> redp2p_consumer_runtime_t \<Rightarrow> sockaddr_storage \<Rightarrow> peer_world \<Rightarrow> nat option \<times> redp2p_consumer_runtime_t \<times> peer_world" where
  "udp_session_for env rt from w =
     (case redp2p_consumer_session_find rt from of
        Some i \<Rightarrow> (Some i, rt, w)
      | None \<Rightarrow>
          (case redp2p_consumer_establish_peer env rt False w of
             (Inl _, w) \<Rightarrow> (None, rt, w)
           | (Inr (peer_fd, peer_addr, _, _), w) \<Rightarrow>
               redp2p_consumer_session_insert env rt (redp2p_consumer_udp_session_init env peer_fd peer_addr from w) w))"

definition redp2p_consumer_udp_receive ::
  "peer_env \<Rightarrow> redp2p_consumer_runtime_t \<Rightarrow> int list \<Rightarrow> peer_world \<Rightarrow> bool \<times> redp2p_consumer_runtime_t \<times> peer_world" where
  "redp2p_consumer_udp_receive env rt fds w =
     (if cr_tcp_listen_fd rt \<ge> 0 \<or> cr_local_fd rt \<notin> set fds then (True, rt, w)
      else case pe_recv env (pw_log w) (cr_local_fd rt) of
        None \<Rightarrow> (True, rt, w)
      | Some (datagram, from) \<Rightarrow>
          let buf = take REDP2P_BUF datagram
          in if length buf > REDP2P_UDP_PAYLOAD_MAX
             then (False, rt, err ''UDP datagram exceeds maximum payload size'' w)
             else (case udp_session_for env rt from w of
                     (None, rt, w) \<Rightarrow> (True, rt, w)
                   | (Some i, rt, w) \<Rightarrow>
                       let s = cr_sessions rt ! i;
                           w = send_to (cs_fd s) (cs_peer_addr s) buf w
                       in (True, client_set_session i (s\<lparr>cs_last_rx := redp2p_now_s env w\<rparr>) rt, w)))"

definition pump_session ::
  "peer_env \<Rightarrow> int list \<Rightarrow> redp2p_udp_consumer_session_t \<Rightarrow> peer_world \<Rightarrow> redp2p_udp_consumer_session_t \<times> peer_world" where
  "pump_session env fds s w =
     (if \<not> cs_active s \<or> cs_tcp_fd s \<notin> set fds then (s, w)
      else case client_stream env (\<lambda>senv. redp2p_stream_pump_tcp senv (pe_tcp_read env (pw_log w) (cs_tcp_fd s))) s w of
        (r, s, w) \<Rightarrow> if r \<noteq> 0 then client_fail_and_close env s w else (s, w))"

definition redp2p_consumer_tcp_pump ::
  "peer_env \<Rightarrow> redp2p_consumer_runtime_t \<Rightarrow> int list \<Rightarrow> peer_world \<Rightarrow> redp2p_consumer_runtime_t \<times> peer_world" where
  "redp2p_consumer_tcp_pump env rt fds w =
     (if cr_tcp_listen_fd rt < 0 then (rt, w)
      else let (ss, w) = each_session (pump_session env fds) (cr_sessions rt) w in (rt\<lparr>cr_sessions := ss\<rparr>, w))"

definition receive_session ::
  "peer_env \<Rightarrow> int \<Rightarrow> int list \<Rightarrow> redp2p_udp_consumer_session_t \<Rightarrow> peer_world \<Rightarrow> redp2p_udp_consumer_session_t \<times> peer_world" where
  "receive_session env local fds s w =
     (if \<not> cs_active s \<or> cs_fd s \<notin> set fds then (s, w)
      else case pe_recv env (pw_log w) (cs_fd s) of
        None \<Rightarrow> (s, w)
      | Some (datagram, from) \<Rightarrow>
          let buf = take REDP2P_BUF datagram
          in if \<not> cs_is_tcp s \<and> length buf > REDP2P_UDP_PAYLOAD_MAX
             then (s, err ''UDP datagram exceeds maximum payload size'' w)
             else if \<not> redp2p_sockaddr_equal from (cs_peer_addr s) then (s, w)
             else if \<not> cs_is_tcp s \<and> buf = bytes_of REDP2P_CTRTOK_KA then (s\<lparr>cs_last_rx := redp2p_now_s env w\<rparr>, w)
             else if punch_control (datagram_text buf) then (s, w)
             else let (s, w) =
                    (if cs_is_tcp s
                     then (if cs_tcp_fd s = - 1 then (s, w)
                           else case client_stream env (\<lambda>senv. redp2p_stream_process_packet senv buf) s w of
                             (r, s, w) \<Rightarrow> if r \<noteq> 0 then client_fail_and_close env s w else (s, w))
                     else (s, send_to local (cs_client_addr s) buf w))
                  in (s\<lparr>cs_last_rx := redp2p_now_s env w\<rparr>, w))"

definition redp2p_consumer_peer_receive ::
  "peer_env \<Rightarrow> redp2p_consumer_runtime_t \<Rightarrow> int list \<Rightarrow> peer_world \<Rightarrow> redp2p_consumer_runtime_t \<times> peer_world" where
  "redp2p_consumer_peer_receive env rt fds w =
     (let (ss, w) = each_session (receive_session env (cr_local_fd rt) fds) (cr_sessions rt) w in (rt\<lparr>cr_sessions := ss\<rparr>, w))"

definition client_maintain_session ::
  "peer_env \<Rightarrow> redp2p_udp_consumer_session_t \<Rightarrow> peer_world \<Rightarrow> redp2p_udp_consumer_session_t \<times> peer_world" where
  "client_maintain_session env s w =
     (if \<not> cs_active s then (s, w)
      else case (if cs_is_tcp s then client_stream env redp2p_stream_tick s w else (0, s, w)) of (r, s, w) \<Rightarrow>
        if r \<noteq> 0 then client_fail_and_close env s w
        else if cs_is_tcp s \<and> redp2p_stream_is_done (cs_stream s) then redp2p_consumer_session_close s w
        else let (s, w) =
               (if redp2p_now_s env w - cs_last_ka s > REDP2P_KEEPALIVE_S
                then let w = (if \<not> cs_is_tcp s then send_to (cs_fd s) (cs_peer_addr s) (bytes_of REDP2P_CTRTOK_KA) w else w)
                     in (s\<lparr>cs_last_ka := redp2p_now_s env w\<rparr>, w)
                else (s, w))
             in if redp2p_now_s env w - cs_last_rx s > REDP2P_DISCONNECT_S then redp2p_consumer_session_close s w else (s, w))"

definition redp2p_consumer_session_maintain ::
  "peer_env \<Rightarrow> redp2p_consumer_runtime_t \<Rightarrow> peer_world \<Rightarrow> redp2p_consumer_runtime_t \<times> peer_world" where
  "redp2p_consumer_session_maintain env rt w =
     (let (ss, w) = each_session (client_maintain_session env) (cr_sessions rt) w in (rt\<lparr>cr_sessions := ss\<rparr>, w))"

definition redp2p_consumer_wait_ms :: "peer_env \<Rightarrow> redp2p_consumer_runtime_t \<Rightarrow> peer_world \<Rightarrow> u32" where
  "redp2p_consumer_wait_ms env rt w =
     fold (\<lambda>s wait_ms. if \<not> cs_active s \<or> \<not> cs_is_tcp s then wait_ms
                        else let session_wait = redp2p_stream_wait_ms (Some (cs_stream s)) (now_ms env w)
                             in if session_wait < wait_ms then session_wait else wait_ms) (cr_sessions rt) 1000"

section \<open>The loop and the whole life\<close>

text \<open>The phases between accepting and maintaining.\<close>

definition consumer_phases ::
  "peer_env \<Rightarrow> int list \<Rightarrow> redp2p_consumer_runtime_t \<Rightarrow> peer_world \<Rightarrow> redp2p_consumer_runtime_t \<times> peer_world" where
  "consumer_phases env ready rt w =
     (if cr_tcp_listen_fd rt \<ge> 0
      then (case redp2p_consumer_tcp_pump env rt ready w of (rt, w) \<Rightarrow> redp2p_consumer_peer_receive env rt ready w)
      else case redp2p_consumer_udp_receive env rt ready w of
        (go, rt, w) \<Rightarrow> if go then redp2p_consumer_peer_receive env rt ready w else (rt, w))"

definition consumer_turn ::
  "peer_env \<Rightarrow> turn \<Rightarrow> redp2p_consumer_runtime_t \<Rightarrow> peer_world \<Rightarrow> int option \<times> redp2p_consumer_runtime_t \<times> peer_world" where
  "consumer_turn env tn rt w =
     (let w = stop_if (tn_stop tn) w
      in if stop_requested (pw_ctx w) then (Some REDP2P_OK, rt, w)
         else case redp2p_consumer_fdset_build env rt w of (stage, fds, rt, w) \<Rightarrow>
           if stage < 0 then (Some REDP2P_ENET, rt, w)
           else if stage = 0 then (None, rt, w)
           else let w = did [Waited (redp2p_consumer_wait_ms env rt w)] w
                in if tn_selected tn < 0 then (None, rt, w)
                   else let w = stop_if (tn_stop_after tn) w; ready = filter (\<lambda>fd. fd \<in> set (tn_ready tn)) (fst fds)
                        in if stop_requested (pw_ctx w) then (Some REDP2P_OK, rt, w)
                           else case redp2p_consumer_tcp_accept env rt ready w of (skip, rt, w) \<Rightarrow>
                             let (rt, w) = (if skip then (rt, w) else consumer_phases env ready rt w);
                                 (rt, w) = redp2p_consumer_session_maintain env rt w
                             in (None, rt, w))"

fun redp2p_consumer_loop ::
  "peer_env \<Rightarrow> turn list \<Rightarrow> redp2p_consumer_runtime_t \<Rightarrow> peer_world \<Rightarrow> int option \<times> redp2p_consumer_runtime_t \<times> peer_world" where
  "redp2p_consumer_loop env [] rt w = (None, rt, w)"
| "redp2p_consumer_loop env (tn # tns) rt w =
     (case consumer_turn env tn rt w of
        (Some result, rt, w) \<Rightarrow> (Some result, rt, w)
      | (None, rt, w) \<Rightarrow> redp2p_consumer_loop env tns rt w)"

definition redp2p_consumer_runtime_cleanup ::
  "peer_env \<Rightarrow> redp2p_consumer_runtime_t \<Rightarrow> bool \<Rightarrow> peer_world \<Rightarrow> redp2p_consumer_runtime_t \<times> peer_world" where
  "redp2p_consumer_runtime_cleanup env rt reset_stop w =
     (let (rt, w) = redp2p_consumer_session_close_all env rt w;
          w = (if cr_local_fd rt \<ge> 0 then close_fd (cr_local_fd rt) w else w);
          w = (if cr_tcp_listen_fd rt \<ge> 0 then close_fd (cr_tcp_listen_fd rt) w else w);
          w = (if reset_stop then set_ctx (stop_requested_update (\<lambda>_. False)) w else w)
      in (rt\<lparr>cr_sessions := [], cr_cap_sessions := 0, cr_local_fd := - 1, cr_tcp_listen_fd := - 1\<rparr>, w))"

definition redp2p_connect ::
  "peer_env \<Rightarrow> turn list \<Rightarrow> string option \<Rightarrow> 16 word \<Rightarrow> string option \<Rightarrow> string option \<Rightarrow> 16 word \<Rightarrow> peer_world
   \<Rightarrow> int option \<times> peer_world" where
  "redp2p_connect env tns index_host index_port self_id target port w =
     (case redp2p_consumer_runtime_init env index_host index_port self_id target port w of (r0, should_run, rt, w) \<Rightarrow>
        if r0 \<noteq> REDP2P_OK \<or> \<not> should_run then (Some r0, snd (redp2p_consumer_runtime_cleanup env rt False w))
        else case redp2p_consumer_initial_lookup env rt w of (r1, rt, w) \<Rightarrow>
          if r1 \<noteq> REDP2P_OK then (Some r1, snd (redp2p_consumer_runtime_cleanup env rt False w))
          else case redp2p_consumer_loop env tns rt w of
            (None, rt, w) \<Rightarrow> (None, w)
          | (Some result, rt, w) \<Rightarrow> (Some result, snd (redp2p_consumer_runtime_cleanup env rt True w)))"

end
