(* ===== verification/Consumer_Safety.thy ===== *)
theory Consumer_Safety
  imports Consumer
begin

text \<open>
  The state of a running consumer: each descriptor belongs to the local adapter or to one session,
  closed sessions own nothing, all sessions are of the adapter's kind and every local client has at
  most one session. Every operation of the loop keeps this; from it follows that
  \<^verbatim>\<open>redp2p_connect\<close> returns all descriptors.
\<close>

section \<open>Steps on one session\<close>

definition client_fds :: "redp2p_udp_consumer_session_t \<Rightarrow> int multiset" where
  "client_fds s = (if cs_tcp_fd s \<noteq> - 1 then {#cs_tcp_fd s#} else {#}) + (if cs_fd s \<ge> 0 then {#cs_fd s#} else {#})"

definition proper_client :: "redp2p_udp_consumer_session_t \<Rightarrow> bool" where
  "proper_client s \<longleftrightarrow> cs_active s \<or> client_fds s = {#}"

definition same_client :: "redp2p_udp_consumer_session_t \<Rightarrow> redp2p_udp_consumer_session_t \<Rightarrow> bool" where
  "same_client s s' \<longleftrightarrow> cs_client_addr s' = cs_client_addr s \<and> cs_peer_addr s' = cs_peer_addr s \<and> cs_is_tcp s' = cs_is_tcp s \<and>
     (cs_active s' \<longrightarrow> cs_active s \<and> st_session_id (cs_stream s') = st_session_id (cs_stream s))"

interpretation cl: session_kind client_fds proper_client same_client
  by unfold_locales (auto simp: same_client_def)

lemma cl_clock [simp]:
  "cl.good_step s w (s'\<lparr>cs_last_rx := t\<rparr>) w' = cl.good_step s w s' w'" "cl.good_step s w (s'\<lparr>cs_last_ka := t\<rparr>) w' = cl.good_step s w s' w'"
  "cl.good_step (s\<lparr>cs_last_rx := t\<rparr>) w s' w' = cl.good_step s w s' w'" "cl.good_step (s\<lparr>cs_last_ka := t\<rparr>) w s' w' = cl.good_step s w s' w'"
  by (simp_all add: cl.good_step_def client_fds_def proper_client_def same_client_def)

lemma client_close_world:
  assumes "holds (client_fds s + h) w"
  shows "holds h (snd (redp2p_consumer_session_close s w))"
proof -
  let ?w = "if cs_tcp_fd s \<noteq> - 1 then close_fd (cs_tcp_fd s) w else w"
  have "holds ((if cs_fd s \<ge> 0 then {#cs_fd s#} else {#}) + h) ?w"
    using assms holds_close [of "cs_tcp_fd s" "(if cs_fd s \<ge> 0 then {#cs_fd s#} else {#}) + h" w]
    by (simp add: client_fds_def add_mset_commute split: if_splits)
  then show ?thesis using holds_close [of "cs_fd s" h ?w] by (auto simp: redp2p_consumer_session_close_def Let_def)
qed

lemma client_close_facts:
  "redp2p_consumer_session_close s w = (s', w') \<Longrightarrow>
    \<not> cs_active s' \<and> client_fds s' = {#} \<and> same_client s s' \<and> transport w' = transport w"
  by (auto simp: redp2p_consumer_session_close_def client_fds_def same_client_def Let_def split: if_splits)

lemma client_close_good: "redp2p_consumer_session_close s w = (s', w') \<Longrightarrow> cl.good_step s w s' w'"
  using client_close_facts [of s w s' w'] client_close_world [of s _ w] by (auto simp: cl.good_step_def proper_client_def)

lemma client_stream_good:
  assumes act: "\<And>senv io st r st' io'. act senv st io = (r, st', io') \<Longrightarrow> keeps st io st' io'"
    and run: "client_stream env act s w = (r, s', w')"
  shows "cl.good_step s w s' w'"
proof -
  obtain st where 1: "stream_act env (cs_fd s) (cs_peer_addr s) (cs_tcp_fd s) act (cs_stream s) w = (r, st, w')" and 2: "s' = s\<lparr>cs_stream := st\<rparr>"
    using run by (auto simp: client_stream_def split: prod.splits)
  note k = stream_act_keeps [OF act 1] and h = stream_act_holds [OF 1]
  show ?thesis using k h 2 by (auto simp: cl.good_step_def client_fds_def proper_client_def same_client_def)
qed

lemma client_pump_good: "client_stream env (\<lambda>senv. redp2p_stream_pump_tcp senv input) s w = (r, s', w') \<Longrightarrow> cl.good_step s w s' w'"
  by (rule client_stream_good) (auto intro: pump_keeps)

lemma client_tick_good: "client_stream env redp2p_stream_tick s w = (r, s', w') \<Longrightarrow> cl.good_step s w s' w'"
  by (rule client_stream_good) (auto intro: tick_keeps)

lemma client_packet_good:
  "client_stream env (\<lambda>senv. redp2p_stream_process_packet senv buf) s w = (r, s', w') \<Longrightarrow> cl.good_step s w s' w'"
  by (rule client_stream_good) (auto intro: process_packet_keeps)

lemma client_fail_good: "client_fail env s w = (s', w') \<Longrightarrow> cl.good_step s w s' w'"
  using stream_fail_keeps [of env "cs_fd s" "cs_peer_addr s" "cs_tcp_fd s" "cs_stream s" w]
    stream_fail_holds [of env "cs_fd s" "cs_peer_addr s" "cs_tcp_fd s" "cs_stream s" w]
  by (auto simp: client_fail_def cl.good_step_def client_fds_def proper_client_def same_client_def split: prod.splits)

lemma client_fail_and_close_good: "client_fail_and_close env s w = (s', w') \<Longrightarrow> cl.good_step s w s' w'"
  by (auto simp: client_fail_and_close_def split: prod.splits intro: cl.good_step_trans dest!: client_fail_good client_close_good)

lemma client_close_session_good: "client_close_session env s w = (s', w') \<Longrightarrow> cl.good_step s w s' w' \<and> \<not> cs_active s'"
  by (auto simp: client_close_session_def Let_def split: prod.splits if_splits
      intro: cl.good_step_trans dest: client_fail_good client_close_good client_close_facts)

lemma pump_session_good: "pump_session env fds s w = (s', w') \<Longrightarrow> cl.good_step s w s' w'"
  by (auto simp: pump_session_def split: prod.splits if_splits
      intro: cl.good_step_trans dest!: client_fail_and_close_good client_pump_good)

lemma client_packet_step:
  assumes "client_stream env (\<lambda>senv. redp2p_stream_process_packet senv buf) s w = (r, s1, w1)"
    "(if r \<noteq> 0 then client_fail_and_close env s1 w1 else (s1, w1)) = (s2, w2)"
  shows "cl.good_step s w s2 w2"
  using cl.good_step_trans [OF client_packet_good [OF assms(1)]] client_packet_good [OF assms(1)] assms(2)
    client_fail_and_close_good [of env s1 w1 s2 w2]
  by (auto split: if_splits)

lemma receive_session_good:
  assumes "receive_session env udp fds s w = (s', w')"
  shows "cl.good_step s w s' w'"
proof (cases "cs_active s \<and> cs_fd s \<in> set fds \<and> cs_is_tcp s \<and> cs_tcp_fd s \<noteq> - 1")
  case True
  obtain buf r s1 w1 where 1: "client_stream env (\<lambda>senv. redp2p_stream_process_packet senv buf) s w = (r, s1, w1)"
    "buf = take REDP2P_BUF (fst (the (pe_recv env (pw_log w) (cs_fd s))))"
    by (metis prod_cases3)
  obtain s2 w2 where 2: "(if r \<noteq> 0 then client_fail_and_close env s1 w1 else (s1, w1)) = (s2, w2)" by fastforce
  show ?thesis
    using assms True 1 client_packet_step [OF 1(1) 2] 2
    by (auto simp: receive_session_def Let_def split: if_splits option.splits prod.splits)
next
  case False
  then show ?thesis
    using assms by (auto simp: receive_session_def Let_def split: if_splits option.splits)
qed

lemma client_maintain_good:
  assumes "client_maintain_session env s w = (s', w')"
  shows "cl.good_step s w s' w'"
proof (cases "cs_active s")
  case True
  obtain r s1 w1 where 1: "(if cs_is_tcp s then client_stream env redp2p_stream_tick s w else (0, s, w)) = (r, s1, w1)"
    by (metis prod_cases3)
  have g: "cl.good_step s w s1 w1" using 1 client_tick_good [of env s w r s1 w1] by (auto split: if_splits)
  show ?thesis
    using assms True 1 g
    by (auto simp: client_maintain_session_def Let_def split: if_splits
        intro: cl.good_step_trans dest!: client_fail_and_close_good client_close_good)
qed (use assms in \<open>simp add: client_maintain_session_def\<close>)

section \<open>Passes over the table\<close>

interpretation client_closing: session_step "client_close_session env" client_fds proper_client same_client for env
  by (rule cl.good_session_step) (simp add: client_close_session_good)

interpretation client_pumping: session_step "pump_session env fds" client_fds proper_client same_client for env fds
  by (rule cl.good_session_step) (rule pump_session_good)

interpretation client_receiving: session_step "receive_session env udp fds" client_fds proper_client same_client for env udp fds
  by (rule cl.good_session_step) (rule receive_session_good)

interpretation client_maintaining: session_step "client_maintain_session env" client_fds proper_client same_client for env
  by (rule cl.good_session_step) (rule client_maintain_good)

lemma client_passes:
  "cl.good_pass ss w (fst (each_session (client_close_session env) ss w)) (snd (each_session (client_close_session env) ss w))"
  "cl.good_pass ss w (fst (each_session (pump_session env fds) ss w)) (snd (each_session (pump_session env fds) ss w))"
  "cl.good_pass ss w (fst (each_session (receive_session env udp fds) ss w)) (snd (each_session (receive_session env udp fds) ss w))"
  "cl.good_pass ss w (fst (each_session (client_maintain_session env) ss w)) (snd (each_session (client_maintain_session env) ss w))"
  by (simp_all add: cl.good_pass_def client_closing.table_holds client_closing.table_proper client_closing.table_same
      client_closing.table_proto client_pumping.table_holds client_pumping.table_proper client_pumping.table_same
      client_pumping.table_proto client_receiving.table_holds client_receiving.table_proper client_receiving.table_same
      client_receiving.table_proto client_maintaining.table_holds client_maintaining.table_proper client_maintaining.table_same
      client_maintaining.table_proto)

lemma fdset_client_good: "fdset_client env s fds w = (s', fds', failed, w') \<Longrightarrow> cl.good_step s w s' w'"
  by (auto simp: fdset_client_def Let_def split: if_splits option.splits prod.splits
      dest!: client_fail_good client_close_good client_fail_and_close_good intro: cl.good_step_trans)

lemma client_fdset_pass: "client_fdset env ss fds w = ((ss', fds', failed), w') \<Longrightarrow> cl.good_pass ss w ss' w'"
proof (induction ss arbitrary: fds w ss' fds' failed w')
  case Nil
  then show ?case by (simp add: cl.good_pass_def)
next
  case (Cons s ss)
  obtain s1 fds1 f1 w1 where 1: "fdset_client env s fds w = (s1, fds1, f1, w1)" by (metis prod_cases4)
  obtain ss2 fds2 f2 w2 where 2: "client_fdset env ss fds1 w1 = ((ss2, fds2, f2), w2)" by (metis prod.collapse)
  show ?case using Cons.prems 1 2 cl.good_pass_Cons [OF fdset_client_good [OF 1] Cons.IH [OF 2]] by simp
qed

section \<open>The runtime\<close>

definition local_fds :: "redp2p_consumer_runtime_t \<Rightarrow> int multiset" where
  "local_fds rt = (if cr_local_fd rt \<ge> 0 then {#cr_local_fd rt#} else {#}) +
     (if cr_tcp_listen_fd rt \<ge> 0 then {#cr_tcp_listen_fd rt#} else {#})"

text \<open>Two active sessions of the same local UDP client.\<close>

definition same_origin :: "redp2p_udp_consumer_session_t \<Rightarrow> redp2p_udp_consumer_session_t \<Rightarrow> bool" where
  "same_origin a b \<longleftrightarrow> cs_active a \<and> cs_active b \<and> \<not> cs_is_tcp a \<and> \<not> cs_is_tcp b \<and>
     redp2p_sockaddr_equal (cs_client_addr a) (cs_client_addr b)"

definition one_per_client :: "redp2p_udp_consumer_session_t list \<Rightarrow> bool" where
  "one_per_client ss \<longleftrightarrow> (\<forall>i < length ss. \<forall>j < length ss. i \<noteq> j \<longrightarrow> \<not> same_origin (ss ! i) (ss ! j))"

definition consumer_ok :: "int multiset \<Rightarrow> redp2p_consumer_runtime_t \<Rightarrow> peer_world \<Rightarrow> bool" where
  "consumer_ok h rt w \<longleftrightarrow> holds (table_holding client_fds (cr_sessions rt) + (local_fds rt + h)) w \<and>
     list_all proper_client (cr_sessions rt) \<and> one_per_client (cr_sessions rt) \<and>
     list_all (\<lambda>s. cs_active s \<longrightarrow> cs_is_tcp s = (cr_tcp_listen_fd rt \<ge> 0)) (cr_sessions rt)"

definition sound :: "redp2p_consumer_runtime_t \<Rightarrow> peer_world \<Rightarrow> redp2p_consumer_runtime_t \<Rightarrow> peer_world \<Rightarrow> bool" where
  "sound rt w rt' w' \<longleftrightarrow> cr_local_fd rt' = cr_local_fd rt \<and> cr_tcp_listen_fd rt' = cr_tcp_listen_fd rt \<and>
     (\<forall>h. consumer_ok h rt w \<longrightarrow> consumer_ok h rt' w')"

lemma sound_refl [simp]: "sound rt w rt w"
  by (simp add: sound_def)

lemma sound_trans: "sound rt w rt1 w1 \<Longrightarrow> sound rt1 w1 rt2 w2 \<Longrightarrow> sound rt w rt2 w2"
  by (simp add: sound_def)

lemma sound_still: "still w w' \<Longrightarrow> sound rt w rt w'"
  by (simp add: sound_def consumer_ok_def still_def)

lemma sound_world [simp]:
  "sound rt w rt' (send_to fd a b w') = sound rt w rt' w'" "sound rt w rt' (note_error m w') = sound rt w rt' w'"
  by (simp_all add: sound_def consumer_ok_def)

lemma one_per_client_same: "list_all2 same_client ss ss' \<Longrightarrow> one_per_client ss \<Longrightarrow> one_per_client ss'"
  by (auto simp: one_per_client_def list_all2_conv_all_nth same_origin_def same_client_def)

lemma client_kind_same:
  "list_all2 same_client ss ss' \<Longrightarrow> list_all (\<lambda>s. cs_active s \<longrightarrow> cs_is_tcp s = k) ss \<Longrightarrow> list_all (\<lambda>s. cs_active s \<longrightarrow> cs_is_tcp s = k) ss'"
  by (auto simp: list_all2_conv_all_nth list_all_length same_client_def)

lemma pass_sound: "cl.good_pass (cr_sessions rt) w ss' w' \<Longrightarrow> sound rt w (rt\<lparr>cr_sessions := ss'\<rparr>) w'"
  using one_per_client_same [of "cr_sessions rt" ss'] client_kind_same [of "cr_sessions rt" ss']
  by (simp add: sound_def consumer_ok_def local_fds_def cl.good_pass_def del: union_mset_add_mset_right)

lemma client_set_sound:
  "i < length (cr_sessions rt) \<Longrightarrow> cl.good_step (cr_sessions rt ! i) w s' w' \<Longrightarrow> sound rt w (client_set_session i s' rt) w'"
  unfolding client_set_session_def by (rule pass_sound) (rule cl.good_pass_nth)

lemma client_close_all_sound:
  assumes "redp2p_consumer_session_close_all env rt w = (rt', w')"
  shows "sound rt w rt' w' \<and> list_all (\<lambda>s. \<not> cs_active s) (cr_sessions rt')"
proof -
  have "list_all (\<lambda>s. \<not> cs_active s) (fst (each_session (client_close_session env) ss w))" for ss
  proof (induction ss arbitrary: w)
    case (Cons s ss)
    show ?case
      using Cons.IH client_close_session_good [of env s w "fst (client_close_session env s w)" "snd (client_close_session env s w)"]
      by (simp add: case_prod_beta Let_def)
  qed simp
  then show ?thesis
    using assms pass_sound [OF client_passes(1), of rt w env]
    by (auto simp: redp2p_consumer_session_close_all_def split: prod.splits) (metis fst_conv)
qed

lemma pump_sound: "redp2p_consumer_tcp_pump env rt fds w = (rt', w') \<Longrightarrow> sound rt w rt' w'"
  using pass_sound [OF client_passes(2), of rt w env fds]
  by (auto simp: redp2p_consumer_tcp_pump_def split: prod.splits if_splits)

lemma peer_receive_sound: "redp2p_consumer_peer_receive env rt fds w = (rt', w') \<Longrightarrow> sound rt w rt' w'"
  using pass_sound [OF client_passes(3), of rt w env "cr_local_fd rt" fds]
  by (auto simp: redp2p_consumer_peer_receive_def split: prod.splits)

lemma client_maintain_sound: "redp2p_consumer_session_maintain env rt w = (rt', w') \<Longrightarrow> sound rt w rt' w'"
  using pass_sound [OF client_passes(4), of rt w env]
  by (auto simp: redp2p_consumer_session_maintain_def split: prod.splits)

lemma fdset_build_sound: "redp2p_consumer_fdset_build env rt w = (stage, fds, rt', w') \<Longrightarrow> sound rt w rt' w'"
  by (auto simp: redp2p_consumer_fdset_build_def split: option.splits prod.splits if_splits dest!: client_fdset_pass intro: pass_sound)

section \<open>New sessions\<close>

lemma punch_req_still: "redp2p_send_punch_req_cands env rt hex cs w = (rc, w') \<Longrightarrow> still w0 w \<Longrightarrow> still w0 w'"
  by (auto simp: redp2p_send_punch_req_cands_def Let_def split: if_splits prod.splits sum.splits intro: still_rules)

lemma still_holds: "still w w' \<Longrightarrow> holds h w' = holds h w"
  by (simp add: still_def)

lemma establish_holds:
  assumes "redp2p_consumer_establish_peer env rt tcp w = (r, w')" "holds h w"
  shows "case r of Inl _ \<Rightarrow> holds h w' | Inr (fd, _) \<Rightarrow> fd \<ge> 0 \<and> holds (add_mset fd h) w'"
proof -
  obtain fd w1 where 1: "redp2p_create_socket env w = (fd, w1)" by fastforce
  have h1: "fd < 0 \<Longrightarrow> holds h w1" "\<not> fd < 0 \<Longrightarrow> holds (add_mset fd h) w1"
    using create_socket_holds [OF assms(2) 1] by (auto split: if_splits)
  have open1: "holds (add_mset fd h) w2 \<and> holds h (close_fd fd w2)" if "still w1 w2" "\<not> fd < 0" for w2
    using still_holds [OF that(1)] h1 that holds_close by blast
  have g: "gather env cap w1 = (rc, cs, w2) \<Longrightarrow> still w1 w2" for cap rc cs w2 using still_gather still_refl by blast
  have q: "redp2p_send_punch_req_cands env rt hex cs w2 = (rc, w3) \<Longrightarrow> still w1 w2 \<Longrightarrow> still w1 w3" for hex cs rc w2 w3
    by (rule punch_req_still)
  have p: "punch env fd hex f t cs w2 = (rc, found, w3) \<Longrightarrow> still w1 w2 \<Longrightarrow> still w1 w3" for hex f t cs w2 rc found w3
    by (rule still_rules(2))
  show ?thesis
    using assms 1 h1 open1 g q p
    by (fastforce simp: redp2p_consumer_establish_peer_def split: option.splits if_splits prod.splits)
qed

lemma same_origin_sym: "same_origin a b = same_origin b a"
proof -
  have "redp2p_sockaddr_equal x y = redp2p_sockaddr_equal y x" for x y
    by (cases x; cases y) (auto simp: redp2p_sockaddr_equal_def)
  then show ?thesis by (auto simp: same_origin_def)
qed

lemma one_per_client_update:
  assumes "one_per_client ss" "\<forall>s \<in> set ss. \<not> same_origin s x"
  shows "one_per_client (ss[i := x])"
proof -
  have e: "(ss[i := x]) ! k = (if k = i then x else ss ! k)" if "k < length ss" for k
    using that by (simp add: nth_list_update)
  have "\<forall>s \<in> set ss. \<not> same_origin x s" using assms(2) same_origin_sym by blast
  then show ?thesis using assms by (simp add: one_per_client_def e)
qed

lemma one_per_client_append:
  "one_per_client ss \<Longrightarrow> \<forall>s \<in> set ss. \<not> same_origin s x \<Longrightarrow> one_per_client (ss @ [x])"
  unfolding one_per_client_def by (auto simp: nth_append less_Suc_eq) (metis same_origin_sym nth_mem)

lemma client_insert_ok:
  assumes run: "redp2p_consumer_session_insert env rt session w = (i, rt', w')"
    and ok: "consumer_ok (client_fds session + h) rt w"
    and new: "cs_is_tcp session = (cr_tcp_listen_fd rt \<ge> 0)" "cs_active session" "\<forall>s \<in> set (cr_sessions rt). \<not> same_origin s session"
  shows "consumer_ok h rt' w' \<and> cr_local_fd rt' = cr_local_fd rt \<and> cr_tcp_listen_fd rt' = cr_tcp_listen_fd rt \<and>
    (\<forall>k. i = Some k \<longrightarrow> k < length (cr_sessions rt') \<and> cr_sessions rt' ! k = session)"
proof (cases "first_index (\<lambda>s. \<not> cs_active s) (cr_sessions rt)")
  case (Some k)
  note k = first_index_Some [OF Some]
  have e: "client_fds (cr_sessions rt ! k) = {#}"
    using ok k by (auto simp: consumer_ok_def proper_client_def list_all_length)
  have r: "rt' = rt\<lparr>cr_sessions := (cr_sessions rt)[k := session]\<rparr>" "w' = w" "i = Some k"
    using run Some by (auto simp: redp2p_consumer_session_insert_def)
  have "table_holding client_fds (cr_sessions rt') = client_fds session + table_holding client_fds (cr_sessions rt)"
    using k e r by (simp add: table_holding_update)
  then show ?thesis
    using ok new r k one_per_client_update [of "cr_sessions rt" session k]
    by (auto simp: consumer_ok_def local_fds_def proper_client_def ac_simps intro: list_all_update)
next
  case None
  show ?thesis
  proof (cases "length (cr_sessions rt) \<ge> cr_cap_sessions rt \<and> \<not> pe_alloc env (pw_log w)")
    case True
    have "holds (client_fds session + (table_holding client_fds (cr_sessions rt) + (local_fds rt + h))) w"
      using ok by (simp add: consumer_ok_def ac_simps)
    from client_close_world [OF this] show ?thesis
      using run ok True None by (auto simp: redp2p_consumer_session_insert_def consumer_ok_def)
  next
    case False
    then show ?thesis
      using run ok new None one_per_client_append [of "cr_sessions rt" session]
      by (auto simp: redp2p_consumer_session_insert_def Let_def consumer_ok_def local_fds_def proper_client_def ac_simps split: if_splits)
  qed
qed

end
