(* ===== verification/Consumer_Behaviour.thy ===== *)
theory Consumer_Behaviour
  imports Consumer_Safety
begin

text \<open>
  What the consumer promises: \<^verbatim>\<open>redp2p_connect\<close> returns when it is asked to stop and gives back
  every descriptor; every local client keeps one session of its own; and what arrives from anyone
  but the punched peer of a session is dropped.
\<close>

section \<open>The phases that open sessions\<close>

lemma consumer_ok_world:
  "consumer_ok h rt w \<Longrightarrow> holds (table_holding client_fds (cr_sessions rt) + (local_fds rt + h')) w' \<Longrightarrow> consumer_ok h' rt w'"
  by (simp add: consumer_ok_def)

lemma consumer_ok_holds: "consumer_ok h rt w \<Longrightarrow> holds (table_holding client_fds (cr_sessions rt) + (local_fds rt + h)) w"
  by (simp add: consumer_ok_def)

lemma holds_opened: "holds h w \<Longrightarrow> holds (add_mset fd h) (did [Opened fd] w)"
  by (simp add: holds_def did_def)

lemma touch_sound:
  assumes "i < length (cr_sessions rt)"
  shows "sound rt w (client_set_session i ((cr_sessions rt ! i)\<lparr>cs_last_rx := t\<rparr>) rt) (send_to fd a b w)"
  by (rule client_set_sound [OF assms]) simp

lemma udp_session_ok:
  assumes est: "redp2p_consumer_establish_peer env rt False w = (Inr (fd, addr, bin, hex), w1)"
    and ins: "redp2p_consumer_session_insert env rt (redp2p_consumer_udp_session_init env fd addr from w1) w1 = (i, rt', w')"
    and none: "redp2p_consumer_session_find rt from = None" and udp: "\<not> cr_tcp_listen_fd rt \<ge> 0" and ok: "consumer_ok h rt w"
  shows "consumer_ok h rt' w' \<and> cr_local_fd rt' = cr_local_fd rt \<and> cr_tcp_listen_fd rt' = cr_tcp_listen_fd rt \<and>
    (\<forall>k. i = Some k \<longrightarrow> k < length (cr_sessions rt') \<and> cr_sessions rt' ! k = redp2p_consumer_udp_session_init env fd addr from w1)"
proof -
  let ?s = "redp2p_consumer_udp_session_init env fd addr from w1"
  have fd: "fd \<ge> 0" "holds (add_mset fd (table_holding client_fds (cr_sessions rt) + (local_fds rt + h))) w1"
    using establish_holds [OF est consumer_ok_holds [OF ok]] by simp_all
  have f: "client_fds ?s = {#fd#}" using fd(1) by (simp add: client_fds_def redp2p_consumer_udp_session_init_def)
  have ok1: "consumer_ok (client_fds ?s + h) rt w1" unfolding f
    by (rule consumer_ok_world [OF ok]) (use fd(2) in \<open>simp add: add_mset_commute\<close>)
  have new: "\<forall>s \<in> set (cr_sessions rt). \<not> same_origin s ?s"
    using none by (auto simp: redp2p_consumer_session_find_def first_index_None same_origin_def redp2p_consumer_udp_session_init_def)
  show ?thesis
    by (rule client_insert_ok [OF ins ok1 _ _ new]) (use udp in \<open>simp_all add: redp2p_consumer_udp_session_init_def\<close>)
qed

lemma udp_session_for_ok:
  assumes "udp_session_for env rt src w = (i, rt', w')" "consumer_ok h rt w" "\<not> cr_tcp_listen_fd rt \<ge> 0"
  shows "consumer_ok h rt' w' \<and> cr_local_fd rt' = cr_local_fd rt \<and> cr_tcp_listen_fd rt' = cr_tcp_listen_fd rt \<and>
    (\<forall>k. i = Some k \<longrightarrow> k < length (cr_sessions rt'))"
proof (cases "redp2p_consumer_session_find rt src")
  case (Some k)
  then show ?thesis using assms first_index_Some by (fastforce simp: udp_session_for_def redp2p_consumer_session_find_def)
next
  case None
  obtain e w1 where 1: "redp2p_consumer_establish_peer env rt False w = (e, w1)" by fastforce
  show ?thesis
  proof (cases e)
    case (Inl x)
    then show ?thesis
      using assms None 1 establish_holds [OF 1 consumer_ok_holds [OF assms(2)]] consumer_ok_world [OF assms(2), of h w1]
      by (simp add: udp_session_for_def)
  next
    case (Inr y)
    obtain fd addr bin hex where y: "y = (fd, addr, bin, hex)" by (metis prod_cases4)
    have 2: "redp2p_consumer_session_insert env rt (redp2p_consumer_udp_session_init env fd addr src w1) w1 = (i, rt', w')"
      using assms(1) None 1 Inr y by (simp add: udp_session_for_def)
    show ?thesis using udp_session_ok [OF 1 [unfolded Inr y] 2 None assms(3,2)] by blast
  qed
qed

lemma udp_receive_sound:
  assumes "redp2p_consumer_udp_receive env rt fds w = (go, rt', w')" "consumer_ok h rt w"
  shows "consumer_ok h rt' w' \<and> cr_local_fd rt' = cr_local_fd rt \<and> cr_tcp_listen_fd rt' = cr_tcp_listen_fd rt"
proof (cases "cr_tcp_listen_fd rt \<ge> 0 \<or> cr_local_fd rt \<notin> set fds \<or> pe_recv env (pw_log w) (cr_local_fd rt) = None")
  case True
  then show ?thesis using assms by (auto simp: redp2p_consumer_udp_receive_def split: if_splits)
next
  case False
  then obtain datagram src where r: "pe_recv env (pw_log w) (cr_local_fd rt) = Some (datagram, src)" by auto
  let ?buf = "take REDP2P_BUF datagram"
  obtain i rt1 w1 where 1: "udp_session_for env rt src w = (i, rt1, w1)" by (metis prod_cases3)
  have ok1: "consumer_ok h rt1 w1" "cr_local_fd rt1 = cr_local_fd rt" "cr_tcp_listen_fd rt1 = cr_tcp_listen_fd rt"
    "\<And>k. i = Some k \<Longrightarrow> k < length (cr_sessions rt1)"
    using udp_session_for_ok [OF 1 assms(2)] False by auto
  show ?thesis
  proof (cases "length ?buf > REDP2P_UDP_PAYLOAD_MAX \<or> i = None")
    case True
    then show ?thesis
      using assms False r 1 ok1 by (auto simp: redp2p_consumer_udp_receive_def Let_def consumer_ok_def split: if_splits)
  next
    case short: False
    then obtain k where k: "i = Some k" by auto
    let ?s = "cr_sessions rt1 ! k" and ?w = "send_to (cs_fd (cr_sessions rt1 ! k)) (cs_peer_addr (cr_sessions rt1 ! k)) ?buf w1"
    have "rt' = client_set_session k (?s\<lparr>cs_last_rx := redp2p_now_s env ?w\<rparr>) rt1" "w' = ?w"
      using assms(1) False r short 1 k by (auto simp: redp2p_consumer_udp_receive_def Let_def split: if_splits)
    then show ?thesis using touch_sound [OF ok1(4) [OF k], of w1] ok1(1-3) by (simp add: sound_def)
  qed
qed

lemma tcp_accept_sound:
  assumes "redp2p_consumer_tcp_accept env rt fds w = (skip, rt', w')" "consumer_ok h rt w"
  shows "consumer_ok h rt' w' \<and> cr_local_fd rt' = cr_local_fd rt \<and> cr_tcp_listen_fd rt' = cr_tcp_listen_fd rt"
proof (cases "cr_tcp_listen_fd rt < 0 \<or> cr_tcp_listen_fd rt \<notin> set fds \<or> pe_accept env (pw_log w) (cr_tcp_listen_fd rt) < 0")
  case True
  then show ?thesis using assms by (auto simp: redp2p_consumer_tcp_accept_def Let_def split: if_splits)
next
  case False
  let ?c = "pe_accept env (pw_log w) (cr_tcp_listen_fd rt)" and ?H = "table_holding client_fds (cr_sessions rt) + (local_fds rt + h)"
  obtain e w1 where 1: "redp2p_consumer_establish_peer env rt True (did [Opened ?c] w) = (e, w1)" by fastforce
  note h1 = establish_holds [OF 1 holds_opened [OF consumer_ok_holds [OF assms(2)]]]
  show ?thesis
  proof (cases e)
    case (Inl x)
    then have "holds ?H (close_fd ?c w1)" using h1 holds_close by simp
    then show ?thesis
      using assms False 1 Inl consumer_ok_world [OF assms(2), of h]
      by (cases x) (auto simp: redp2p_consumer_tcp_accept_def Let_def)
  next
    case (Inr y)
    obtain fd addr bin hex where y: "y = (fd, addr, bin, hex)" by (metis prod_cases4)
    have fd: "fd \<ge> 0" "holds (add_mset fd (add_mset ?c ?H)) w1" using h1 Inr y by simp_all
    obtain r st w2 where 2: "stream_open env fd addr ?c True bin hex w1 = (r, st, w2)" by (metis prod_cases3)
    have h2: "holds (add_mset fd (add_mset ?c ?H)) w2" using stream_open_keeps [OF 2] fd(2) by simp
    show ?thesis
    proof (cases "r = 0")
      case False
      have "holds ?H (close_fd ?c (close_fd fd w2))" using h2 by (intro holds_close)
      then show ?thesis
        using assms \<open>\<not> (cr_tcp_listen_fd rt < 0 \<or> _)\<close> 1 Inr y 2 False consumer_ok_world [OF assms(2), of h]
        by (auto simp: redp2p_consumer_tcp_accept_def redp2p_consumer_tcp_session_init_def Let_def)
    next
      case True
      define s where "s = \<lparr>cs_fd = fd, cs_tcp_fd = ?c, cs_client_addr = SA_other, cs_peer_addr = addr,
        cs_last_rx = redp2p_now_s env w2, cs_last_ka = redp2p_now_s env w2, cs_active = True, cs_is_tcp = True, cs_stream = st\<rparr>"
      obtain i rt2 w3 where 3: "redp2p_consumer_session_insert env rt s w2 = (i, rt2, w3)" by (metis prod_cases3)
      have f: "client_fds s = {#?c, fd#}" using fd(1) False by (simp add: client_fds_def s_def)
      have ok2: "consumer_ok (client_fds s + h) rt w2" unfolding f
        by (rule consumer_ok_world [OF assms(2)]) (use h2 in \<open>simp add: add_mset_commute\<close>)
      have "consumer_ok h rt2 w3 \<and> cr_local_fd rt2 = cr_local_fd rt \<and> cr_tcp_listen_fd rt2 = cr_tcp_listen_fd rt"
        using client_insert_ok [OF 3 ok2] False by (simp add: s_def same_origin_def)
      then show ?thesis
        using assms False 1 Inr y 2 True 3
        by (auto simp: redp2p_consumer_tcp_accept_def redp2p_consumer_tcp_session_init_def Let_def s_def)
    qed
  qed
qed

section \<open>The loop\<close>

lemma phases_sound:
  assumes "consumer_phases env ready rt w = (rt', w')" "consumer_ok h rt w"
  shows "consumer_ok h rt' w' \<and> cr_local_fd rt' = cr_local_fd rt \<and> cr_tcp_listen_fd rt' = cr_tcp_listen_fd rt"
proof (cases "cr_tcp_listen_fd rt \<ge> 0")
  case True
  obtain rt1 w1 where 1: "redp2p_consumer_tcp_pump env rt ready w = (rt1, w1)" by fastforce
  then show ?thesis
    using assms True pump_sound [OF 1] peer_receive_sound [of env rt1 ready w1 rt' w'] by (simp add: consumer_phases_def sound_def)
next
  case False
  obtain go rt1 w1 where 1: "redp2p_consumer_udp_receive env rt ready w = (go, rt1, w1)" by (metis prod_cases3)
  show ?thesis
    using assms False 1 udp_receive_sound [OF 1 assms(2)] peer_receive_sound [of env rt1 ready w1 rt' w']
    by (auto simp: consumer_phases_def sound_def split: if_splits)
qed

lemma consumer_turn_sound:
  assumes "consumer_turn env tn rt w = (r, rt', w')" "consumer_ok h rt w"
  shows "consumer_ok h rt' w' \<and> cr_local_fd rt' = cr_local_fd rt \<and> cr_tcp_listen_fd rt' = cr_tcp_listen_fd rt"
proof -
  let ?w = "stop_if (tn_stop tn) w"
  have ok0: "consumer_ok h rt ?w" using sound_still [of w ?w rt] assms(2) by (simp add: sound_def)
  obtain stage fds rt1 w1 where 1: "redp2p_consumer_fdset_build env rt ?w = (stage, fds, rt1, w1)" by (metis prod_cases4)
  note s1 = fdset_build_sound [OF 1]
  let ?wait = "did [Waited (redp2p_consumer_wait_ms env rt1 w1)] w1" and ?ready = "filter (\<lambda>fd. fd \<in> set (tn_ready tn)) (fst fds)"
  have ok1: "consumer_ok h rt1 ?wait" "consumer_ok h rt1 (stop_if (tn_stop_after tn) ?wait)" "consumer_ok h rt1 w1"
    using s1 ok0 sound_still [of w1 ?wait rt1] sound_still [of w1 "stop_if (tn_stop_after tn) ?wait" rt1] by (simp_all add: sound_def)
  obtain skip rt2 w2 where 2: "redp2p_consumer_tcp_accept env rt1 ?ready (stop_if (tn_stop_after tn) ?wait) = (skip, rt2, w2)"
    by (metis prod_cases3)
  note ok2 = tcp_accept_sound [OF 2 ok1(2)]
  obtain rt4 w4 where 4: "(if skip then (rt2, w2) else consumer_phases env ?ready rt2 w2) = (rt4, w4)" by fastforce
  have ok4: "consumer_ok h rt4 w4 \<and> cr_local_fd rt4 = cr_local_fd rt2 \<and> cr_tcp_listen_fd rt4 = cr_tcp_listen_fd rt2"
    using 4 ok2 phases_sound [of env ?ready rt2 w2 rt4 w4 h] by (auto split: if_splits)
  obtain rt5 w5 where 5: "redp2p_consumer_session_maintain env rt4 w4 = (rt5, w5)" by fastforce
  have ok5: "consumer_ok h rt5 w5 \<and> cr_local_fd rt5 = cr_local_fd rt4 \<and> cr_tcp_listen_fd rt5 = cr_tcp_listen_fd rt4"
    using client_maintain_sound [OF 5] ok4 by (simp add: sound_def)
  have "(rt', w') \<in> {(rt, ?w), (rt1, w1), (rt1, ?wait), (rt1, stop_if (tn_stop_after tn) ?wait), (rt5, w5)}"
    using assms(1) 1 2 5 by (auto simp: consumer_turn_def Let_def 4 split: if_splits)
  then show ?thesis using ok0 s1 ok1 ok2 ok4 ok5 by (auto simp: sound_def)
qed

lemma consumer_loop_sound:
  "redp2p_consumer_loop env tns rt w = (r, rt', w') \<Longrightarrow> consumer_ok h rt w \<Longrightarrow>
    consumer_ok h rt' w' \<and> cr_local_fd rt' = cr_local_fd rt \<and> cr_tcp_listen_fd rt' = cr_tcp_listen_fd rt"
proof (induction tns arbitrary: rt w)
  case (Cons tn tns)
  obtain r1 rt1 w1 where 1: "consumer_turn env tn rt w = (r1, rt1, w1)" by (metis prod_cases3)
  show ?case using Cons 1 consumer_turn_sound [OF 1 Cons.prems(2)] by (cases r1) auto
qed simp

section \<open>The whole life\<close>

lemma client_inactive_holding:
  "list_all proper_client ss \<Longrightarrow> list_all (\<lambda>s. \<not> cs_active s) ss \<Longrightarrow> table_holding client_fds ss = {#}"
  by (induction ss) (auto simp: proper_client_def)

lemma client_cleanup_holds:
  assumes "consumer_ok h rt w"
  shows "holds h (snd (redp2p_consumer_runtime_cleanup env rt reset w))"
proof -
  obtain rt1 w1 where 1: "redp2p_consumer_session_close_all env rt w = (rt1, w1)" by fastforce
  note c = client_close_all_sound [OF 1]
  have ok1: "consumer_ok h rt1 w1" "cr_local_fd rt1 = cr_local_fd rt" "cr_tcp_listen_fd rt1 = cr_tcp_listen_fd rt"
    using c assms by (auto simp: sound_def)
  then have "holds (local_fds rt1 + h) w1" using client_inactive_holding [of "cr_sessions rt1"] c by (simp add: consumer_ok_def)
  then have h1: "holds ((if cr_local_fd rt1 \<ge> 0 then {#cr_local_fd rt1#} else {#}) +
      ((if cr_tcp_listen_fd rt1 \<ge> 0 then {#cr_tcp_listen_fd rt1#} else {#}) + h)) w1"
    by (simp add: local_fds_def ac_simps)
  let ?w2 = "if cr_local_fd rt1 \<ge> 0 then close_fd (cr_local_fd rt1) w1 else w1"
  have h2: "holds ((if cr_tcp_listen_fd rt1 \<ge> 0 then {#cr_tcp_listen_fd rt1#} else {#}) + h) ?w2"
    using h1 by (auto split: if_splits intro: holds_close)
  let ?w3 = "if cr_tcp_listen_fd rt1 \<ge> 0 then close_fd (cr_tcp_listen_fd rt1) ?w2 else ?w2"
  have "holds h ?w3" using h2 holds_close [of "cr_tcp_listen_fd rt1" h ?w2] by (auto split: if_splits)
  then show ?thesis using 1 by (simp add: redp2p_consumer_runtime_cleanup_def Let_def)
qed

lemma fresh_ok:
  "holds (local_fds rt + h) w \<Longrightarrow> cr_sessions rt = [] \<Longrightarrow> consumer_ok h rt w"
  by (simp add: consumer_ok_def one_per_client_def)

lemma local_descriptors_ok:
  assumes "local_descriptors env rt w = (rc, rt', w')" "holds h w" "cr_sessions rt = []" "cr_tcp_listen_fd rt = - 1"
  shows "consumer_ok h rt' w'"
proof -
  obtain fd w1 where 1: "redp2p_create_socket env w = (fd, w1)" by fastforce
  have h1: "holds (if fd < 0 then h else add_mset fd h) w1" using create_socket_holds [OF assms(2) 1] .
  obtain lfd w2 where 2: "redp2p_create_tcp_listener env w1 = (lfd, w2)" by fastforce
  have h2: "holds (if lfd < 0 then k else add_mset lfd k) w2" if "holds k w1" for k
    using open_socket_holds [OF that, of env lfd w2] 2 by (simp add: redp2p_create_tcp_listener_def)
  have r: "cr_sessions rt' = []" using assms(1,3) 1 2 by (auto simp: local_descriptors_def Let_def split: if_splits)
  have "holds (local_fds rt' + h) w'"
    using assms(1,4) 1 2 h1 h2 [of "add_mset fd h"]
    by (auto simp: local_descriptors_def Let_def local_fds_def add_mset_commute split: if_splits)
  then show ?thesis using r by (rule fresh_ok)
qed

lemma init_ok:
  assumes "redp2p_consumer_runtime_init env host iport self target port w = (r, run, rt, w')" "holds h w"
  shows "consumer_ok h rt w'"
proof -
  have none: "consumer_ok h rt1 w1" if "holds h w1" "cr_sessions rt1 = []" "cr_local_fd rt1 = - 1" "cr_tcp_listen_fd rt1 = - 1" for rt1 w1
    by (rule fresh_ok) (use that in \<open>simp_all add: local_fds_def\<close>)
  show ?thesis
    using assms
    by (auto simp: redp2p_consumer_runtime_init_def Let_def split: if_splits option.splits prod.splits
        intro: none dest!: local_descriptors_ok)
qed

lemma lookup_still:
  "redp2p_consumer_initial_lookup env rt w = (rc, rt', w') \<Longrightarrow>
    still w w' \<and> cr_sessions rt' = cr_sessions rt \<and> cr_local_fd rt' = cr_local_fd rt \<and> cr_tcp_listen_fd rt' = cr_tcp_listen_fd rt"
  by (auto simp: redp2p_consumer_initial_lookup_def Let_def split: prod.splits sum.splits option.splits
      dest!: still_rules(1) [OF _ still_refl])

text \<open>
  C5: However its life goes, \<^verbatim>\<open>redp2p_connect\<close> gives back every descriptor: when it returns, with
  success or an error at any stage, the local sockets, every accepted client, every peer socket, the
  sockets of the requests to the index and the probe sockets of gathering candidates
  have been closed exactly once, and descriptors held before are still held.
\<close>

theorem connect_releases_descriptors:
  assumes "holds h w" "redp2p_connect env tns host iport self target port w = (Some r, w')"
  shows "holds h w'"
proof -
  obtain r0 run rt w0 where 0: "redp2p_consumer_runtime_init env host iport self target port w = (r0, run, rt, w0)" by (metis prod_cases4)
  have ok0: "consumer_ok h rt w0" using init_ok [OF 0 assms(1)] .
  obtain r1 rt1 w1 where 1: "redp2p_consumer_initial_lookup env rt w0 = (r1, rt1, w1)" by (metis prod_cases3)
  have ok1: "consumer_ok h rt1 w1"
  proof -
    have "local_fds rt1 = local_fds rt" using lookup_still [OF 1] by (simp add: local_fds_def)
    then show ?thesis using ok0 lookup_still [OF 1] by (simp add: consumer_ok_def still_def)
  qed
  obtain r2 rt2 w2 where 2: "redp2p_consumer_loop env tns rt1 w1 = (r2, rt2, w2)" by (metis prod_cases3)
  have ok2: "consumer_ok h rt2 w2" using consumer_loop_sound [OF 2 ok1] by simp
  show ?thesis
    using assms(2) 0 1 2 client_cleanup_holds [OF ok0] client_cleanup_holds [OF ok1] client_cleanup_holds [OF ok2]
    by (auto simp: redp2p_connect_def split: if_splits option.splits)
qed

section \<open>Stopping\<close>

lemma consumer_stop_turn: "tn_stop tn \<Longrightarrow> \<exists>w'. consumer_turn env tn rt w = (Some REDP2P_OK, rt, w')"
  by (simp add: consumer_turn_def stop_if_def set_ctx_def Let_def)

lemma consumer_stop_loop:
  assumes "tn_stop tn"
  shows "redp2p_consumer_loop env (before @ tn # after) rt w = redp2p_consumer_loop env (before @ [tn]) rt w \<and>
    fst (redp2p_consumer_loop env (before @ [tn]) rt w) \<noteq> None"
proof (induction before arbitrary: rt w)
  case Nil
  obtain w' where "consumer_turn env tn rt w = (Some REDP2P_OK, rt, w')" using consumer_stop_turn [OF assms] by metis
  then show ?case by simp
next
  case (Cons t before)
  obtain r1 rt1 w1 where "consumer_turn env t rt w = (r1, rt1, w1)" by (metis prod_cases3)
  then show ?case using Cons by (cases r1) auto
qed

lemma connect_returns:
  assumes "tn_stop tn"
  shows "\<exists>r w'. redp2p_connect env (before @ [tn]) host iport self target port w = (Some r, w')"
proof -
  have "redp2p_consumer_loop env (before @ [tn]) rt w \<noteq> (None, rt', w')" for rt w rt' w'
    using consumer_stop_loop [OF assms, of env before] by (metis fst_conv)
  then have "fst (redp2p_connect env (before @ [tn]) host iport self target port w) \<noteq> None"
    by (auto simp: redp2p_connect_def split: prod.splits option.splits)
  then show ?thesis by (metis option.exhaust prod.collapse)
qed

text \<open>
  A consumer that is asked to stop stops: if another thread requests it before some iteration of
  its loop, \<^verbatim>\<open>redp2p_connect\<close> returns, whatever clients, peers and the index did before, and
  nothing that would happen afterwards has any influence.
\<close>

theorem connect_stops:
  assumes "tn_stop tn"
  shows "\<exists>r w'. redp2p_connect env (before @ tn # after) host iport self target port w = (Some r, w') \<and>
    redp2p_connect env (before @ [tn]) host iport self target port w = (Some r, w')"
proof -
  have e: "redp2p_consumer_loop env (before @ tn # after) = redp2p_consumer_loop env (before @ [tn])"
    using consumer_stop_loop [OF assms] by (intro ext) blast
  have "redp2p_connect env (before @ tn # after) host iport self target port w = redp2p_connect env (before @ [tn]) host iport self target port w"
    unfolding redp2p_connect_def e by (rule refl)
  then show ?thesis using connect_returns [OF assms] by metis
qed

definition client_turn :: "bool \<Rightarrow> turn" where
  "client_turn stop = \<lparr>tn_stop = stop, tn_selected = 1, tn_ready = [3], tn_stop_after = False\<rparr>"

theorem connect_stops_witness:
  "\<exists>r w'. redp2p_connect (demo_peer_env None) [client_turn False, client_turn True, client_turn False] (Some ''h'') 7777 (Some ''me'')
    (Some ''web'') 80 (demo_world REDP2P_PROTO_UDP) = (Some r, w')"
  using connect_stops [of "client_turn True" "demo_peer_env None" "[client_turn False]" "[client_turn False]" "Some ''h''" 7777 "Some ''me''"
    "Some ''web''" 80 "demo_world REDP2P_PROTO_UDP"]
  by (auto simp: client_turn_def)

theorem connect_releases_descriptors_witness:
  "\<exists>r w'. redp2p_connect (demo_peer_env None) [client_turn False, client_turn True] (Some ''h'') 7777 (Some ''me'') (Some ''web'') 80
    (demo_world REDP2P_PROTO_UDP) = (Some r, w') \<and> holds {#3#} w'"
proof -
  obtain r w' where run: "redp2p_connect (demo_peer_env None) ([client_turn False] @ [client_turn True]) (Some ''h'') 7777 (Some ''me'')
      (Some ''web'') 80 (demo_world REDP2P_PROTO_UDP) = (Some r, w')"
    using connect_returns [of "client_turn True"] by (metis client_turn_def turn.select_convs(1))
  then show ?thesis using connect_releases_descriptors [OF demo_world_simps(3) run] by (simp only: append_Cons append_Nil) blast
qed

section \<open>Clients and peers\<close>

text \<open>Whatever waits at the socket of the session is from another address than its peer's.\<close>

definition only_strangers :: "peer_env \<Rightarrow> redp2p_udp_consumer_session_t \<Rightarrow> bool" where
  "only_strangers env s \<longleftrightarrow>
     (\<forall>log d src. pe_recv env log (cs_fd s) = Some (d, src) \<longrightarrow> \<not> redp2p_sockaddr_equal src (cs_peer_addr s))"

lemma receive_session_stranger: "only_strangers env s \<Longrightarrow> fst (receive_session env udp fds s w) = s"
  by (auto simp: receive_session_def only_strangers_def Let_def split: option.splits prod.splits)

lemma each_receive_stranger:
  "i < length ss \<Longrightarrow> only_strangers env (ss ! i) \<Longrightarrow> fst (each_session (receive_session env udp fds) ss w) ! i = ss ! i"
proof (induction ss arbitrary: i w)
  case (Cons s ss)
  then show ?case using receive_session_stranger [of env s udp fds w] by (cases i) (simp_all add: case_prod_beta Let_def)
qed simp

text \<open>
  C14: A consumer keeps its clients apart and hears only the punched peers. In every state its loop
  reaches, each descriptor belongs to the adapter or to one active session, no two active sessions
  serve the same local UDP client, and a session whose socket receives nothing but datagrams of
  addresses other than its peer is left exactly as it was by \<^verbatim>\<open>redp2p_consumer_peer_receive\<close>.
\<close>

theorem consumer_sessions_separate:
  assumes "cr_sessions rt = []" "holds (local_fds rt) w" "redp2p_consumer_loop env tns rt w = (r, rt', w')"
  shows "holds (table_holding client_fds (filter cs_active (cr_sessions rt')) + local_fds rt) w' \<and>
    one_per_client (cr_sessions rt') \<and>
    (\<forall>i < length (cr_sessions rt'). only_strangers env (cr_sessions rt' ! i) \<longrightarrow>
      cr_sessions (fst (redp2p_consumer_peer_receive env rt' fds w')) ! i = cr_sessions rt' ! i)"
proof -
  have "consumer_ok {#} rt w" using assms(1,2) by (intro fresh_ok) simp_all
  from consumer_loop_sound [OF assms(3) this]
  have ok: "consumer_ok {#} rt' w'" "local_fds rt' = local_fds rt" by (simp_all add: local_fds_def)
  have "list_all proper_client ss \<Longrightarrow> table_holding client_fds (filter cs_active ss) = table_holding client_fds ss" for ss
    by (induction ss) (auto simp: proper_client_def)
  moreover have "cr_sessions (fst (redp2p_consumer_peer_receive env rt' fds w')) =
      fst (each_session (receive_session env (cr_local_fd rt') fds) (cr_sessions rt') w')"
    by (simp add: redp2p_consumer_peer_receive_def split: prod.splits)
  ultimately show ?thesis using ok each_receive_stranger [where env = env] by (simp add: consumer_ok_def)
qed

definition demo_adapter :: "redp2p_udp_consumer_session_t list \<Rightarrow> redp2p_consumer_runtime_t" where
  "demo_adapter ss = \<lparr>cr_index_host = ''h'', cr_self_id = ''me'', cr_target_id = ''web'', cr_udp_any_host = ''0.0.0.0'',
     cr_index_port = 7777, cr_local_fd = 3, cr_tcp_listen_fd = - 1, cr_sessions = ss, cr_cap_sessions = 8, cr_peer_candidates = []\<rparr>"

theorem consumer_sessions_separate_witness:
  "\<exists>r rt' w'. redp2p_consumer_loop (demo_peer_env (Some ([65], SA_in 4000 1))) [client_turn False, client_turn False] (demo_adapter [])
      (demo_world REDP2P_PROTO_UDP) = (r, rt', w') \<and>
    holds (table_holding client_fds (filter cs_active (cr_sessions rt')) + {#3#}) w' \<and> one_per_client (cr_sessions rt')"
proof -
  obtain r rt' w' where run: "redp2p_consumer_loop (demo_peer_env (Some ([65], SA_in 4000 1))) [client_turn False, client_turn False]
      (demo_adapter []) (demo_world REDP2P_PROTO_UDP) = (r, rt', w')"
    by (metis prod_cases3)
  have l: "local_fds (demo_adapter []) = {#3#}" by (simp add: local_fds_def demo_adapter_def)
  then show ?thesis using run consumer_sessions_separate [OF _ _ run] by (simp add: demo_adapter_def)
qed

end
