(* ===== verification/Runner.thy ===== *)
theory Runner
  imports Publisher_Behaviour Consumer_Behaviour
begin

text \<open>
  The runner of \<^verbatim>\<open>src/src/libredp2p.c\<close> (\<^verbatim>\<open>kc_redp2p_run\<close> and \<^verbatim>\<open>redp2p_runner_*\<close>): JSON
  commands that start publishers, consumers and indexes in threads and watch, stop and release
  them through handles into a growing table of slots.

  Contexts and threads are addresses into stores of the state \<open>runner\<close>, so that a slot and a thread
  can share a context. A thread keeps the pointer to the slot it was started with: the number of
  the memory block the table was in and the position. \<^verbatim>\<open>realloc\<close> may move the table to a new
  block; what a thread then stores through its pointer does not reach the table, and \<open>rn_lost\<close>
  records that a thread used a pointer into released memory (its reads are shown as finding what
  the memory held, which is the best that can happen). The run of a thread is one step, which takes
  place when it ends: either on its own or while a command waits for it. Allocations of JSON
  values succeed, and the table has fewer than 2^30 slots.
\<close>

section \<open>Slots and the table\<close>

definition REDP2P_RUNNER_STATE_FREE :: int where [macros]: "REDP2P_RUNNER_STATE_FREE = 0"
definition REDP2P_RUNNER_STATE_RUNNING :: int where [macros]: "REDP2P_RUNNER_STATE_RUNNING = 1"
definition REDP2P_RUNNER_STATE_FINISHED :: int where [macros]: "REDP2P_RUNNER_STATE_FINISHED = 2"
definition REDP2P_RUNNER_OP_PUB :: int where [macros]: "REDP2P_RUNNER_OP_PUB = 1"
definition REDP2P_RUNNER_OP_CON :: int where [macros]: "REDP2P_RUNNER_OP_CON = 2"
definition REDP2P_RUNNER_OP_IDX :: int where [macros]: "REDP2P_RUNNER_OP_IDX = 3"
definition REDP2P_PORT_MIN :: int where [macros]: "REDP2P_PORT_MIN = 1"
definition REDP2P_PORT_MAX :: int where [macros]: "REDP2P_PORT_MAX = 65535"
definition REDP2P_PORT_DEFAULT :: "16 word" where [macros]: "REDP2P_PORT_DEFAULT = 9876"

record kc_redp2p_runner_slot_t =
  sl_ctx :: "nat option"
  sl_thread :: nat
  sl_state :: int
  sl_result :: int
  sl_op :: int
  sl_index_host :: string
  sl_index_port :: "16 word"
  sl_self_id :: string
  sl_target_id :: string
  sl_bind_port :: "16 word"
  sl_host :: string
  sl_port :: "16 word"

definition zero_slot :: kc_redp2p_runner_slot_t where
  "zero_slot = \<lparr>sl_ctx = None, sl_thread = 0, sl_state = 0, sl_result = 0, sl_op = 0, sl_index_host = [], sl_index_port = 0,
     sl_self_id = [], sl_target_id = [], sl_bind_port = 0, sl_host = [], sl_port = 0\<rparr>"

record runner_thread =
  th_block :: nat
  th_index :: nat
  th_slot :: kc_redp2p_runner_slot_t

record runner =
  rn_slots :: "kc_redp2p_runner_slot_t list"
  rn_count :: nat
  rn_block :: nat
  rn_ctxs :: "nat \<Rightarrow> redp2p option"
  rn_next_ctx :: nat
  rn_threads :: "nat \<Rightarrow> runner_thread option"
  rn_next_thread :: nat
  rn_log :: "peer_event list"
  rn_fs :: file_sys
  rn_served :: "server_event list"
  rn_lost :: bool

text \<open>
  What happens to a thread: what the system does during its operation, and whether it sees a stop
  request that was made before it ended already at its start; otherwise the turns say when.
\<close>

record thread_env =
  te_peer :: peer_env
  te_turns :: "turn list"
  te_listen :: listen_env
  te_servers :: "server_env list"
  te_early :: bool

text \<open>
  What happens to one command: environment variables, the allocation of a context and of a table
  (which may move), the start of a thread, and the end of the thread it waits for.
\<close>

record runner_env =
  re_libc :: libc_ops
  re_getenv :: "string \<Rightarrow> string option"
  re_calloc :: bool
  re_realloc :: "bool option"
  re_create :: bool
  re_alloc :: "nat \<Rightarrow> bool"
  re_version :: nat
  re_peer :: peer_env
  re_join :: thread_env

definition set_slot :: "nat \<Rightarrow> kc_redp2p_runner_slot_t \<Rightarrow> runner \<Rightarrow> runner" where
  "set_slot i s st = st\<lparr>rn_slots := (rn_slots st)[i := s]\<rparr>"

abbreviation slot_at :: "runner \<Rightarrow> nat \<Rightarrow> kc_redp2p_runner_slot_t" where
  "slot_at st i \<equiv> rn_slots st ! i"

definition grow_table :: "runner_env \<Rightarrow> runner \<Rightarrow> runner option" where
  "grow_table env st =
     (let cap = length (rn_slots st); new_cap = (if cap \<noteq> 0 then cap * 2 else 8)
      in case re_realloc env of
           None \<Rightarrow> None
         | Some moved \<Rightarrow> Some (st\<lparr>rn_slots := rn_slots st @ replicate (new_cap - cap) zero_slot,
                                  rn_block := (if moved then rn_block st + 1 else rn_block st)\<rparr>))"

definition claim_slot :: "kc_redp2p_runner_slot_t \<Rightarrow> kc_redp2p_runner_slot_t" where
  "claim_slot s = s\<lparr>sl_state := REDP2P_RUNNER_STATE_RUNNING, sl_result := 0, sl_thread := 0\<rparr>"

definition kc_redp2p_runner_slot_alloc :: "runner_env \<Rightarrow> runner \<Rightarrow> nat option \<times> runner" where
  "kc_redp2p_runner_slot_alloc env st =
     (case first_index (\<lambda>s. sl_state s = REDP2P_RUNNER_STATE_FREE) (take (rn_count st) (rn_slots st)) of
        Some i \<Rightarrow> (Some (i + 1), set_slot i (claim_slot (slot_at st i)) st)
      | None \<Rightarrow>
          (case (if rn_count st \<ge> length (rn_slots st) then grow_table env st else Some st) of
             None \<Rightarrow> (None, st)
           | Some st \<Rightarrow>
               let i = rn_count st
               in (Some (i + 1), (set_slot i (claim_slot (slot_at st i)) st)\<lparr>rn_count := i + 1\<rparr>)))"

definition kc_redp2p_runner_slot_get :: "runner \<Rightarrow> int \<Rightarrow> nat option" where
  "kc_redp2p_runner_slot_get st handle = (if handle < 1 \<or> handle > int (rn_count st) then None else Some (nat (handle - 1)))"

section \<open>Arguments\<close>

text \<open>
  The conversion of a double to \<^verbatim>\<open>long\<close> cuts the fraction off. C leaves it undefined when
  the value does not fit; the model gives it the result of the x86-64 instruction.
\<close>

definition c_long :: "rat \<Rightarrow> int" where
  "c_long q =
     (let n = (if q < 0 then \<lceil>q\<rceil> else \<lfloor>q\<rfloor>) in if - (2 ^ 63) \<le> n \<and> n < 2 ^ 63 then n else - (2 ^ 63))"

definition c_int :: "int \<Rightarrow> int" where
  "c_int n = sint (word_of_int n :: 32 word)"

definition redp2p_runner_port :: "JSON_Object \<Rightarrow> string \<Rightarrow> 16 word option" where
  "redp2p_runner_port obj key =
     (case json_object_get_value obj key of
        Some (JSONNumber q) \<Rightarrow>
          if q < of_int REDP2P_PORT_MIN \<or> q > of_int REDP2P_PORT_MAX then None
          else if q \<noteq> of_int (c_long q) then None
          else Some (word_of_int (c_long q))
      | _ \<Rightarrow> None)"

text \<open>The text before and after the last occurrence of a character.\<close>

definition split_last :: "char \<Rightarrow> string \<Rightarrow> (string \<times> string) option" where
  "split_last c t =
     (case dropWhile (\<lambda>x. x \<noteq> c) (rev t) of
        [] \<Rightarrow> None
      | _ # before \<Rightarrow> Some (rev before, rev (takeWhile (\<lambda>x. x \<noteq> c) (rev t))))"

text \<open>A failing call leaves parts in the output buffers; its callers discard them.\<close>

definition redp2p_runner_parse_addr :: "string \<Rightarrow> nat \<Rightarrow> nat \<Rightarrow> (string \<times> string \<times> 16 word) option" where
  "redp2p_runner_parse_addr t hn_sz ia_sz =
     (if t = [] \<or> hn_sz = 0 \<or> ia_sz = 0 then None
      else case split_last (CHR ''@'') t of
        None \<Rightarrow> None
      | Some (hostname, addr) \<Rightarrow>
          if hostname = [] \<or> length hostname \<ge> hn_sz then None
          else let whole = (if addr = [] \<or> length addr \<ge> ia_sz then None else Some (hostname, addr, REDP2P_PORT_DEFAULT))
               in case split_last (CHR '':'') addr of
                    None \<Rightarrow> whole
                  | Some (idx, port) \<Rightarrow>
                      if CHR '':'' \<in> set idx then whole
                      else if idx = [] \<or> port = [] then None
                      else if length idx \<ge> ia_sz then None
                      else case redp2p_parse_u (Some port) REDP2P_PORT_MIN REDP2P_PORT_MAX of
                             None \<Rightarrow> None
                           | Some v \<Rightarrow> Some (hostname, idx, word_of_int v))"

text \<open>A context that cannot be configured is closed by the callers.\<close>

definition succeeded :: "int \<times> redp2p \<Rightarrow> redp2p option" where
  "succeeded r = (if fst r = REDP2P_OK then Some (snd r) else None)"

definition setup_pass :: "JSON_Object \<Rightarrow> redp2p \<Rightarrow> redp2p option" where
  "setup_pass obj ctx =
     (case json_object_get_string obj ''pass'' of None \<Rightarrow> Some ctx | Some t \<Rightarrow> succeeded (redp2p_set_pass ctx (Some t)))"

definition setup_sweep :: "JSON_Object \<Rightarrow> int option" where
  "setup_sweep obj =
     (case json_object_get_value obj ''sweep'' of
        None \<Rightarrow> Some 0
      | Some (JSONNumber q) \<Rightarrow>
          if q < 0 \<or> q > of_int REDP2P_SWEEP_MAX then None else if q \<noteq> of_int (c_long q) then None else Some (c_long q)
      | Some _ \<Rightarrow> None)"

definition redp2p_runner_setup_client :: "redp2p \<Rightarrow> JSON_Object \<Rightarrow> redp2p option" where
  "redp2p_runner_setup_client ctx obj =
     (case setup_pass obj ctx of
        None \<Rightarrow> None
      | Some ctx \<Rightarrow>
          (case (case redp2p_runner_port obj ''tcp'' of
                   Some p \<Rightarrow> Some (p, REDP2P_PROTO_TCP)
                 | None \<Rightarrow> map_option (\<lambda>p. (p, REDP2P_PROTO_UDP)) (redp2p_runner_port obj ''udp'')) of
             None \<Rightarrow> None
           | Some (service_port, proto) \<Rightarrow>
               (case Option.bind (succeeded (redp2p_set_protocol ctx proto)) (\<lambda>ctx. succeeded (redp2p_set_port ctx service_port)) of
                  None \<Rightarrow> None
                | Some ctx \<Rightarrow>
                    (case setup_sweep obj of
                       None \<Rightarrow> None
                     | Some sweep \<Rightarrow>
                         let ctx = snd (redp2p_set_sweep ctx sweep)
                         in case json_object_get_string obj ''stun'' of
                              None \<Rightarrow> Some ctx
                            | Some t \<Rightarrow> if t = [] then Some ctx else succeeded (redp2p_set_stun_url ctx (Some t))))))"

section \<open>Replies\<close>

definition json_serialize_to_string :: "libc_ops \<Rightarrow> JSON_Value \<Rightarrow> string option" where
  "json_serialize_to_string libc v = json_serialize_to_buffer libc v (json_serialization_size libc v)"

definition redp2p_run_wrap :: "libc_ops \<Rightarrow> JSON_Object \<Rightarrow> int \<Rightarrow> string option" where
  "redp2p_run_wrap libc result_json handle =
     (let root = json_object_set_value [] ''result'' (JSONObject result_json);
          root = json_object_set_number root ''handle'' (of_int handle)
      in json_serialize_to_string libc (JSONObject root))"

section \<open>The commands\<close>

text \<open>The options of the three operations; \<open>None\<close> when one is missing or wrong.\<close>

definition open_pub :: "JSON_Object \<Rightarrow> kc_redp2p_runner_slot_t \<Rightarrow> redp2p \<Rightarrow> (kc_redp2p_runner_slot_t \<times> redp2p) option" where
  "open_pub obj s ctx =
     (case Option.bind (json_object_get_string obj ''addr'') (\<lambda>addr. redp2p_runner_parse_addr addr (REDP2P_ID_MAX + 1) 256) of
        None \<Rightarrow> None
      | Some (self_id, index_host, index_port) \<Rightarrow>
          if \<not> redp2p_is_valid_id self_id then None
          else case redp2p_runner_setup_client ctx obj of
            None \<Rightarrow> None
          | Some ctx \<Rightarrow> Some (s\<lparr>sl_self_id := self_id, sl_index_host := index_host, sl_index_port := index_port,
                               sl_bind_port := bind_port ctx, sl_op := REDP2P_RUNNER_OP_PUB\<rparr>, ctx))"

definition open_con :: "nat \<Rightarrow> JSON_Object \<Rightarrow> kc_redp2p_runner_slot_t \<Rightarrow> redp2p \<Rightarrow> (kc_redp2p_runner_slot_t \<times> redp2p) option" where
  "open_con handle obj s ctx =
     (case Option.bind (json_object_get_string obj ''addr'') (\<lambda>addr. redp2p_runner_parse_addr addr (REDP2P_ID_MAX + 1) 256) of
        None \<Rightarrow> None
      | Some (t, index_host, index_port) \<Rightarrow>
          if \<not> redp2p_is_valid_id t then None
          else case redp2p_runner_setup_client ctx obj of
            None \<Rightarrow> None
          | Some ctx \<Rightarrow> Some (s\<lparr>sl_target_id := t, sl_index_host := index_host, sl_index_port := index_port,
                               sl_self_id := take REDP2P_ID_MAX (CHR ''c'' # dec_text handle),
                               sl_bind_port := bind_port ctx, sl_op := REDP2P_RUNNER_OP_CON\<rparr>, ctx))"

definition setup_seats :: "JSON_Object \<Rightarrow> redp2p \<Rightarrow> redp2p option" where
  "setup_seats obj ctx =
     (case json_object_get_value obj ''seats'' of
        None \<Rightarrow> Some ctx
      | Some (JSONNumber q) \<Rightarrow> if c_long q < 0 then None else succeeded (redp2p_set_seats ctx (nat (c_long q)))
      | Some _ \<Rightarrow> None)"

definition setup_pow :: "JSON_Object \<Rightarrow> redp2p \<Rightarrow> redp2p option" where
  "setup_pow obj ctx =
     (case json_object_get_value obj ''pow'' of
        None \<Rightarrow> Some ctx
      | Some (JSONNumber q) \<Rightarrow>
          if c_long q < 0 \<or> c_long q > REDP2P_POW_MAX then None else Some (snd (redp2p_set_pow ctx (c_long q)))
      | Some _ \<Rightarrow> None)"

definition open_idx ::
  "(nat \<Rightarrow> bool) \<Rightarrow> JSON_Object \<Rightarrow> kc_redp2p_runner_slot_t \<Rightarrow> redp2p \<Rightarrow> (kc_redp2p_runner_slot_t \<times> redp2p) option" where
  "open_idx alloc obj s ctx =
     (let host = (case json_object_get_string obj ''host'' of None \<Rightarrow> [] | Some h \<Rightarrow> take 255 h)
      in case redp2p_runner_port obj ''port'' of
           None \<Rightarrow> None
         | Some port \<Rightarrow>
             (case Option.bind (Option.bind (setup_pass obj ctx) (setup_seats obj)) (setup_pow obj) of
                None \<Rightarrow> None
              | Some ctx \<Rightarrow>
                  map_option (\<lambda>ctx. (s\<lparr>sl_host := host, sl_port := port, sl_op := REDP2P_RUNNER_OP_IDX\<rparr>, ctx))
                    (succeeded (redp2p_set_vip alloc ctx (json_object_get_string obj ''vip'')))))"

text \<open>A thread starts with a pointer to its slot.\<close>

definition redp2p_runner_thread_start :: "nat \<Rightarrow> kc_redp2p_runner_slot_t \<Rightarrow> redp2p \<Rightarrow> runner \<Rightarrow> runner" where
  "redp2p_runner_thread_start i s ctx st =
     (let a = rn_next_ctx st; t = rn_next_thread st; s = s\<lparr>sl_ctx := Some a, sl_thread := t\<rparr>;
          st = set_slot i s st
      in st\<lparr>rn_ctxs := (rn_ctxs st)(a \<mapsto> ctx), rn_next_ctx := a + 1,
            rn_threads := (rn_threads st)(t \<mapsto> \<lparr>th_block = rn_block st, th_index = i, th_slot = s\<rparr>), rn_next_thread := t + 1\<rparr>)"

definition open_context :: "runner_env \<Rightarrow> JSON_Object \<Rightarrow> redp2p option" where
  "open_context env obj =
     map_option (\<lambda>ctx. case json_object_get_string obj ''state_dir'' of
                         None \<Rightarrow> ctx
                       | Some sd \<Rightarrow> if sd = [] then ctx else snd (redp2p_set_state_dir ctx (Some sd)))
       (redp2p_open (re_getenv env) (re_calloc env))"

text \<open>The configured slot and context of a new operation.\<close>

definition configure ::
  "runner_env \<Rightarrow> string \<Rightarrow> nat \<Rightarrow> JSON_Object \<Rightarrow> kc_redp2p_runner_slot_t \<Rightarrow> (kc_redp2p_runner_slot_t \<times> redp2p) option" where
  "configure env op handle obj s =
     Option.bind (open_context env obj)
       (if op = ''pub'' then open_pub obj s else if op = ''con'' then open_con handle obj s else open_idx (re_alloc env) obj s)"

text \<open>Starting the thread of a claimed slot, or giving the slot back.\<close>

definition launch ::
  "runner_env \<Rightarrow> nat \<Rightarrow> kc_redp2p_runner_slot_t \<Rightarrow> (kc_redp2p_runner_slot_t \<times> redp2p) option \<Rightarrow> runner \<Rightarrow> string option \<times> runner" where
  "launch env handle s configured st =
     (case configured of
        None \<Rightarrow> (None, set_slot (handle - 1) (s\<lparr>sl_state := REDP2P_RUNNER_STATE_FREE\<rparr>) st)
      | Some (s, ctx) \<Rightarrow>
          if \<not> re_create env then (None, set_slot (handle - 1) (s\<lparr>sl_state := REDP2P_RUNNER_STATE_FREE\<rparr>) st)
          else (redp2p_run_wrap (re_libc env) (json_object_set_number [] ''handle'' (of_nat handle)) (int handle),
                redp2p_runner_thread_start (handle - 1) s ctx st))"

definition redp2p_runner_open :: "runner_env \<Rightarrow> JSON_Object \<Rightarrow> runner \<Rightarrow> string option \<times> runner" where
  "redp2p_runner_open env obj st =
     (case json_object_get_string obj ''op'' of
        None \<Rightarrow> (None, st)
      | Some op \<Rightarrow>
          if op \<noteq> ''pub'' \<and> op \<noteq> ''con'' \<and> op \<noteq> ''idx'' then (None, st)
          else case kc_redp2p_runner_slot_alloc env st of
            (None, st) \<Rightarrow> (None, st)
          | (Some handle, st) \<Rightarrow>
              let s = zero_slot\<lparr>sl_state := REDP2P_RUNNER_STATE_RUNNING\<rparr>
              in launch env handle s (configure env op handle obj s) st)"

definition handle_slot :: "JSON_Object \<Rightarrow> runner \<Rightarrow> (int \<times> nat) option" where
  "handle_slot obj st =
     (case json_object_get_value obj ''handle'' of
        Some (JSONNumber q) \<Rightarrow> map_option (\<lambda>i. (c_int (c_long q), i)) (kc_redp2p_runner_slot_get st (c_int (c_long q)))
      | _ \<Rightarrow> None)"

definition slot_error :: "runner \<Rightarrow> kc_redp2p_runner_slot_t \<Rightarrow> string" where
  "slot_error st s = (case Option.bind (sl_ctx s) (rn_ctxs st) of None \<Rightarrow> [] | Some ctx \<Rightarrow> err_buf ctx)"

definition redp2p_runner_status :: "libc_ops \<Rightarrow> JSON_Object \<Rightarrow> runner \<Rightarrow> string option" where
  "redp2p_runner_status libc obj st =
     (case handle_slot obj st of
        None \<Rightarrow> None
      | Some (handle, i) \<Rightarrow>
          let s = slot_at st i; out = json_object_set_string [] ''error'' (slot_error st s)
          in redp2p_run_wrap libc
               (if sl_state s = REDP2P_RUNNER_STATE_RUNNING then json_object_set_string out ''state'' ''running''
                else json_object_set_number (json_object_set_string out ''state'' ''finished'') ''result'' (of_int (sl_result s)))
               handle)"

text \<open>The operation of a thread: its result, if it ends, and what it leaves.\<close>

definition run_operation ::
  "thread_env \<Rightarrow> kc_redp2p_runner_slot_t \<Rightarrow> redp2p \<Rightarrow> runner \<Rightarrow> (int \<times> redp2p \<times> runner) option" where
  "run_operation te s ctx st =
     (let w = \<lparr>pw_ctx = ctx, pw_log = rn_log st, pw_fs = rn_fs st\<rparr>;
          after = (\<lambda>r w. map_option (\<lambda>rc. (rc, pw_ctx w, st\<lparr>rn_log := pw_log w, rn_fs := pw_fs w\<rparr>)) r)
      in if sl_op s = REDP2P_RUNNER_OP_PUB
         then (case redp2p_wait (te_peer te) (te_turns te) (Some (sl_index_host s)) (sl_index_port s) (Some (sl_self_id s))
                      (sl_bind_port s) w of (r, w) \<Rightarrow> after r w)
         else if sl_op s = REDP2P_RUNNER_OP_CON
         then (case redp2p_connect (te_peer te) (te_turns te) (Some (sl_index_host s)) (sl_index_port s) (Some (sl_self_id s))
                      (Some (sl_target_id s)) (sl_bind_port s) w of (r, w) \<Rightarrow> after r w)
         else case redp2p_serve_index (te_listen te) (te_servers te) ctx (if sl_host s \<noteq> [] then Some (sl_host s) else None) (sl_port s) of
           (r, ctx, evs) \<Rightarrow> map_option (\<lambda>rc. (rc, ctx, st\<lparr>rn_served := rn_served st @ evs\<rparr>)) r)"

text \<open>A thread runs to its end; \<open>None\<close> when it does not end.\<close>

definition redp2p_runner_thread :: "thread_env \<Rightarrow> nat \<Rightarrow> runner \<Rightarrow> runner option" where
  "redp2p_runner_thread te t st =
     (case rn_threads st t of
        None \<Rightarrow> Some st
      | Some th \<Rightarrow>
          (case Option.bind (sl_ctx (th_slot th)) (\<lambda>a. map_option (Pair a) (rn_ctxs st a)) of
             None \<Rightarrow> None
           | Some (a, ctx) \<Rightarrow>
               (case run_operation te (th_slot th) (if te_early te then ctx else ctx\<lparr>stop_requested := False\<rparr>) st of
                  None \<Rightarrow> None
                | Some (result, ctx, st) \<Rightarrow>
                    let st = st\<lparr>rn_ctxs := (rn_ctxs st)(a \<mapsto> ctx), rn_threads := (rn_threads st)(t := None)\<rparr>
                    in Some (if th_block th = rn_block st
                             then set_slot (th_index th)
                               ((slot_at st (th_index th))\<lparr>sl_result := result, sl_state := REDP2P_RUNNER_STATE_FINISHED\<rparr>) st
                             else st\<lparr>rn_lost := True\<rparr>))))"

definition redp2p_runner_thread_join :: "thread_env \<Rightarrow> nat \<Rightarrow> runner \<Rightarrow> runner option" where
  "redp2p_runner_thread_join te i st =
     (if sl_thread (slot_at st i) = 0 then Some st
      else map_option (\<lambda>st. set_slot i ((slot_at st i)\<lparr>sl_thread := 0\<rparr>) st) (redp2p_runner_thread te (sl_thread (slot_at st i)) st))"

definition stop_running :: "nat \<Rightarrow> runner \<Rightarrow> runner" where
  "stop_running i st =
     (if sl_state (slot_at st i) = REDP2P_RUNNER_STATE_RUNNING
      then (case sl_ctx (slot_at st i) of
              None \<Rightarrow> st
            | Some a \<Rightarrow> st\<lparr>rn_ctxs := (rn_ctxs st)(a := map_option redp2p_stop (rn_ctxs st a))\<rparr>)
      else st)"

text \<open>\<open>None\<close> when the command never returns, because the thread it waits for does not end.\<close>

definition redp2p_runner_stop :: "runner_env \<Rightarrow> JSON_Object \<Rightarrow> runner \<Rightarrow> (string option \<times> runner) option" where
  "redp2p_runner_stop env obj st =
     (case handle_slot obj st of
        None \<Rightarrow> Some (None, st)
      | Some (handle, i) \<Rightarrow>
          map_option (\<lambda>st. (redp2p_run_wrap (re_libc env) (json_object_set_boolean [] ''stopped'' True) handle,
                            set_slot i ((slot_at st i)\<lparr>sl_state := REDP2P_RUNNER_STATE_FINISHED\<rparr>) st))
            (redp2p_runner_thread_join (re_join env) i (stop_running i st)))"

definition release_slot :: "nat \<Rightarrow> runner \<Rightarrow> runner" where
  "release_slot i st =
     (let st = (case sl_ctx (slot_at st i) of None \<Rightarrow> st | Some a \<Rightarrow> st\<lparr>rn_ctxs := (rn_ctxs st)(a := None)\<rparr>)
      in set_slot i ((slot_at st i)\<lparr>sl_ctx := None, sl_state := REDP2P_RUNNER_STATE_FREE\<rparr>) st)"

definition redp2p_runner_close :: "runner_env \<Rightarrow> JSON_Object \<Rightarrow> runner \<Rightarrow> (string option \<times> runner) option" where
  "redp2p_runner_close env obj st =
     (case handle_slot obj st of
        None \<Rightarrow> Some (None, st)
      | Some (handle, i) \<Rightarrow>
          map_option (\<lambda>st. (redp2p_run_wrap (re_libc env) (json_object_set_boolean [] ''closed'' True) handle, release_slot i st))
            (redp2p_runner_thread_join (re_join env) i (stop_running i st)))"

text \<open>The one-shot commands use a context of their own.\<close>

definition redp2p_runner_del :: "runner_env \<Rightarrow> JSON_Object \<Rightarrow> runner \<Rightarrow> string option \<times> runner" where
  "redp2p_runner_del env obj st =
     (case Option.bind (json_object_get_string obj ''addr'') (\<lambda>addr. redp2p_runner_parse_addr addr (REDP2P_ID_MAX + 1) 256) of
        None \<Rightarrow> (None, st)
      | Some (hostname, idx_host, idx_port) \<Rightarrow>
          if \<not> redp2p_is_valid_id hostname then (None, st)
          else case open_context env obj of
            None \<Rightarrow> (None, st)
          | Some ctx \<Rightarrow>
              (case redp2p_deregister (re_peer env) idx_host idx_port hostname \<lparr>pw_ctx = ctx, pw_log = rn_log st, pw_fs = rn_fs st\<rparr> of
                 (rc, w) \<Rightarrow>
                   (if rc \<noteq> REDP2P_OK then None else redp2p_run_wrap (re_libc env) (json_object_set_boolean [] ''ok'' True) 0,
                    st\<lparr>rn_log := pw_log w, rn_fs := pw_fs w\<rparr>)))"

definition redp2p_runner_list :: "runner_env \<Rightarrow> JSON_Object \<Rightarrow> runner \<Rightarrow> string option \<times> runner" where
  "redp2p_runner_list env obj st =
     (let host = (case json_object_get_string obj ''host'' of None \<Rightarrow> ''127.0.0.1'' | Some h \<Rightarrow> h)
      in case redp2p_runner_port obj ''port'' of
           None \<Rightarrow> (None, st)
         | Some port \<Rightarrow>
             (case redp2p_open (re_getenv env) (re_calloc env) of
                None \<Rightarrow> (None, st)
              | Some ctx \<Rightarrow>
                  (case redp2p_list_publishers (re_peer env) host port \<lparr>pw_ctx = ctx, pw_log = rn_log st, pw_fs = rn_fs st\<rparr> of
                     (rc, ids, w) \<Rightarrow>
                       let publishers = foldl json_array_append_string [] ids
                       in (if rc \<noteq> REDP2P_OK then None
                           else redp2p_run_wrap (re_libc env) (json_object_set_value [] ''publishers'' (JSONArray publishers)) 0,
                           st\<lparr>rn_log := pw_log w, rn_fs := pw_fs w\<rparr>))))"

definition json_object_get_object :: "JSON_Object \<Rightarrow> string \<Rightarrow> JSON_Object option" where
  "json_object_get_object obj name = Option.bind (json_object_get_value obj name) json_value_get_object"

text \<open>A command whose name is none of these has no result.\<close>

definition run_command :: "runner_env \<Rightarrow> string \<Rightarrow> JSON_Object \<Rightarrow> runner \<Rightarrow> (string option \<times> runner) option" where
  "run_command env cmd args st =
     (if cmd = ''version''
      then Some (redp2p_run_wrap (re_libc env) (json_object_set_number [] ''version'' (of_nat (re_version env))) 0, st)
      else if cmd = ''open'' then Some (redp2p_runner_open env args st)
      else if cmd = ''status'' then Some (redp2p_runner_status (re_libc env) args st, st)
      else if cmd = ''stop'' then redp2p_runner_stop env args st
      else if cmd = ''close'' then redp2p_runner_close env args st
      else if cmd = ''del'' then Some (redp2p_runner_del env args st)
      else if cmd = ''list'' then Some (redp2p_runner_list env args st)
      else Some (None, st))"

text \<open>The result or the error message.\<close>

definition kc_redp2p_run :: "runner_env \<Rightarrow> string option \<Rightarrow> runner \<Rightarrow> ((string + string) \<times> runner) option" where
  "kc_redp2p_run env payload st =
     (case payload of
        None \<Rightarrow> Some (Inl ''missing payload'', st)
      | Some t \<Rightarrow>
          (case Option.bind (json_parse_string (re_libc env) t) json_value_get_object of
             None \<Rightarrow> Some (Inl ''missing or invalid \"cmd\"'', st)
           | Some obj \<Rightarrow>
               (case json_object_get_string obj ''cmd'' of
                  None \<Rightarrow> Some (Inl ''missing or invalid \"cmd\"'', st)
                | Some cmd \<Rightarrow>
                    (case json_object_get_object obj ''args'' of
                       None \<Rightarrow> Some (Inl ''missing \"args\"'', st)
                     | Some args \<Rightarrow>
                         map_option (\<lambda>(result, st).
                             (case result of None \<Rightarrow> Inl ''unknown command or invalid arguments'' | Some r \<Rightarrow> Inr r, st))
                           (run_command env cmd args st)))))"

end
