(* ===== verification/Command_Line.thy ===== *)
theory Command_Line
  imports Runner
begin

text \<open>
  The command line program (\<^verbatim>\<open>src/src/redp2p.c\<close>) and the options of the library
  (\<^verbatim>\<open>redp2p_options_*\<close>): parsing of arguments and environment, the JSON requests the program
  makes of the runner, the loop that waits for an operation, and the PID files of background
  instances. The POSIX branch is modelled. Text that is printed is logged line by line; the page of
  \<^verbatim>\<open>print_help\<close> is one entry of the log. Allocations succeed except where \<open>ce_malloc\<close> says no.
  Numbers of requests are exact: a number of seats beyond 2^53 is not rounded to a double.
\<close>

section \<open>Options\<close>

record redp2p_options_t =
  op_seats :: nat
  op_pow :: int
  op_pass :: string
  op_vip :: "string option"
  op_sweep :: int
  op_stun_url :: string

definition redp2p_options_default :: redp2p_options_t where
  "redp2p_options_default = \<lparr>op_seats = 0, op_pow = 0, op_pass = [], op_vip = None, op_sweep = 20, op_stun_url = []\<rparr>"

definition redp2p_options_load_env :: "(string \<Rightarrow> string option) \<Rightarrow> bool \<Rightarrow> redp2p_options_t \<Rightarrow> redp2p_options_t" where
  "redp2p_options_load_env getenv malloc_ok opts =
     (let opts = (case redp2p_parse_size (getenv ''REDP2P_SEATS'') of
                    None \<Rightarrow> opts
                  | Some seats \<Rightarrow> if seats \<le> SIZE_MAX div sizeof_peer then opts\<lparr>op_seats := seats\<rparr> else opts);
          opts = (case redp2p_parse_env (getenv ''REDP2P_POW'') 0 REDP2P_POW_MAX of None \<Rightarrow> opts | Some num \<Rightarrow> opts\<lparr>op_pow := num\<rparr>);
          opts = (case redp2p_parse_env (getenv ''REDP2P_SWEEP'') 0 REDP2P_SWEEP_MAX of None \<Rightarrow> opts | Some num \<Rightarrow> opts\<lparr>op_sweep := num\<rparr>);
          opts = (case getenv ''REDP2P_PASS'' of None \<Rightarrow> opts | Some val \<Rightarrow> opts\<lparr>op_pass := take REDP2P_PASS_MAX val\<rparr>);
          opts = (case getenv ''REDP2P_VIP'' of None \<Rightarrow> opts | Some val \<Rightarrow> opts\<lparr>op_vip := if malloc_ok then Some val else None\<rparr>)
      in case getenv ''REDP2P_STUN'' of None \<Rightarrow> opts | Some val \<Rightarrow> opts\<lparr>op_stun_url := take 255 val\<rparr>)"

definition redp2p_options_free :: "redp2p_options_t \<Rightarrow> redp2p_options_t" where
  "redp2p_options_free opts = opts\<lparr>op_pass := [], op_vip := None\<rparr>"

section \<open>Parsing\<close>

definition parse_decimal :: "string option \<Rightarrow> int \<Rightarrow> int \<Rightarrow> int option" where
  "parse_decimal text lo hi =
     (case text of
        None \<Rightarrow> None
      | Some t \<Rightarrow>
          if t = [] \<or> lo < 0 \<or> hi < lo then None
          else (case parse_u_loop (word_of_int hi) t 0 of
                  None \<Rightarrow> None
                | Some v \<Rightarrow> if v < word_of_int lo then None else Some (sint v)))"

definition parse_size :: "string option \<Rightarrow> nat option" where
  "parse_size text =
     (case text of None \<Rightarrow> None | Some t \<Rightarrow> if t = [] then None else map_option unat (parse_size_loop t 0))"

definition parse_port :: "string \<Rightarrow> 16 word option" where
  "parse_port t = map_option word_of_int (parse_decimal (Some t) 1 65535)"

definition parse_int :: "string \<Rightarrow> int \<Rightarrow> int \<Rightarrow> int option" where
  "parse_int t lo hi = parse_decimal (Some t) lo hi"

definition parse_addr :: "string \<Rightarrow> nat \<Rightarrow> (string \<times> 16 word) option" where
  "parse_addr t host_sz =
     (if t = [] \<or> host_sz = 0 then None
      else if hd t = CHR ''[''
      then (if CHR '']'' \<notin> set t then None
            else let host = takeWhile (\<lambda>c. c \<noteq> CHR '']'') (tl t); rest = tl (dropWhile (\<lambda>c. c \<noteq> CHR '']'') t)
                 in if host = [] \<or> length host \<ge> host_sz then None
                    else if rest = [] then Some (host, REDP2P_PORT_DEFAULT)
                    else if hd rest \<noteq> CHR '':'' \<or> tl rest = [] then None
                    else map_option (\<lambda>v. (host, word_of_int v)) (parse_decimal (Some (tl rest)) 1 65535))
      else let whole = (if length t \<ge> host_sz then None else Some (t, REDP2P_PORT_DEFAULT))
           in case split_last (CHR '':'') t of
                None \<Rightarrow> whole
              | Some (host, port) \<Rightarrow>
                  if CHR '':'' \<in> set host then whole
                  else if host = [] \<or> port = [] then None
                  else if length host \<ge> host_sz then None
                  else map_option (\<lambda>v. (host, word_of_int v)) (parse_decimal (Some port) 1 65535))"

definition parse_hostspec :: "string \<Rightarrow> nat \<Rightarrow> nat \<Rightarrow> (string \<times> string \<times> 16 word) option" where
  "parse_hostspec spec hn_sz ia_sz =
     (if spec = [] then None
      else case split_last (CHR ''@'') spec of
        None \<Rightarrow> None
      | Some (hostname, addr) \<Rightarrow>
          if hostname = [] \<or> length hostname \<ge> hn_sz then None else map_option (Pair hostname) (parse_addr addr ia_sz))"

text \<open>The options and whether seats are set; \<open>None\<close> on a failure.\<close>

definition load_index_options ::
  "(string \<Rightarrow> string option) \<Rightarrow> bool \<Rightarrow> redp2p_options_t \<Rightarrow> bool \<Rightarrow> (redp2p_options_t \<times> bool) option" where
  "load_index_options getenv malloc_ok opts seated =
     (case (case getenv ''REDP2P_SEATS'' of
              None \<Rightarrow> Some (opts, seated)
            | Some v \<Rightarrow> (case parse_size (Some v) of
                           None \<Rightarrow> None
                         | Some seats \<Rightarrow> if seats > SIZE_MAX div sizeof_peer then None else Some (opts\<lparr>op_seats := seats\<rparr>, True))) of
        None \<Rightarrow> None
      | Some (opts, seated) \<Rightarrow>
          let opts = (case parse_decimal (getenv ''REDP2P_POW'') 0 32 of None \<Rightarrow> opts | Some number \<Rightarrow> opts\<lparr>op_pow := number\<rparr>);
              opts = (case getenv ''REDP2P_PASS'' of None \<Rightarrow> opts | Some v \<Rightarrow> opts\<lparr>op_pass := take REDP2P_PASS_MAX v\<rparr>)
          in case getenv ''REDP2P_VIP'' of
               None \<Rightarrow> Some (opts, seated)
             | Some v \<Rightarrow> if \<not> malloc_ok then None else Some (opts\<lparr>op_vip := Some v\<rparr>, seated))"

section \<open>The state of the program\<close>

datatype cli_call = Make_dir string | Open_write string | Remove string

datatype cli_event = Help string | Stdout string | Stderr string | Signalled int

text \<open>
  One round of the waiting loop: threads that end before it, and whether a signal has arrived.
\<close>

record cli_round =
  rd_ends :: "(nat \<times> thread_env) list"
  rd_signal :: bool

text \<open>
  What the program finds: the C library, the environment variables, what happens to the n-th call
  of the runner, failing calls of the file system, its own process number, processes that exist and
  those it may signal, whether output succeeds, and the value an uninitialised variable has.
\<close>

record cli_env =
  ce_libc :: libc_ops
  ce_getenv :: "string \<Rightarrow> string option"
  ce_malloc :: bool
  ce_runner :: "nat \<Rightarrow> runner_env"
  ce_fail :: "cli_call \<Rightarrow> bool"
  ce_pid :: nat
  ce_alive :: "int \<Rightarrow> bool"
  ce_kill :: "int \<Rightarrow> bool"
  ce_output :: bool
  ce_garbage :: int

record cli =
  cl_runner :: runner
  cl_calls :: nat
  cl_log :: "cli_event list"

definition say :: "cli_event \<Rightarrow> cli \<Rightarrow> cli" where
  "say e st = st\<lparr>cl_log := cl_log st @ [e]\<rparr>"

abbreviation complain :: "string \<Rightarrow> cli \<Rightarrow> cli" where
  "complain t \<equiv> say (Stderr (''redp2p: '' @ t))"

definition cl_fs :: "cli \<Rightarrow> file_sys" where
  "cl_fs st = rn_fs (cl_runner st)"

definition set_fs :: "file_sys \<Rightarrow> cli \<Rightarrow> cli" where
  "set_fs fs st = st\<lparr>cl_runner := (cl_runner st)\<lparr>rn_fs := fs\<rparr>\<rparr>"

section \<open>Files of background instances\<close>

definition cli_sanitize_addr :: "string \<Rightarrow> nat \<Rightarrow> string option" where
  "cli_sanitize_addr addr out_sz =
     (if out_sz = 0 \<or> length addr \<ge> out_sz then None
      else Some (map (\<lambda>c. if c = CHR ''.'' \<or> c = CHR '':'' \<or> c = CHR ''@'' then CHR ''_'' else c) addr))"

definition given :: "string option \<Rightarrow> bool" where
  "given t \<longleftrightarrow> t \<noteq> None \<and> t \<noteq> Some []"

definition cli_state_dir :: "(string \<Rightarrow> string option) \<Rightarrow> string option \<Rightarrow> nat \<Rightarrow> string option" where
  "cli_state_dir getenv cli_flag buf_sz =
     (if given cli_flag then Some (take (buf_sz - 1) (the cli_flag))
      else if given (getenv ''REDP2P_STATE_DIR'') then Some (take (buf_sz - 1) (the (getenv ''REDP2P_STATE_DIR'')))
      else if \<not> given (getenv ''HOME'') then None
      else Some (take (buf_sz - 1) (the (getenv ''HOME'') @ ''/.local/share/redp2p'')))"

definition cli_pid_path :: "string \<Rightarrow> string \<Rightarrow> string \<Rightarrow> nat \<Rightarrow> string option" where
  "cli_pid_path sdir cmd addr buf_sz =
     map_option (\<lambda>safe. take (buf_sz - 1) (sdir @ ''/pids/'' @ cmd @ ''_'' @ safe @ ''.pid''))
       (if cmd = ''idx'' then Some addr else cli_sanitize_addr addr 256)"

text \<open>A call of \<^verbatim>\<open>mkdir\<close> whose result is ignored, for each prefix that ends before a separator.\<close>

definition try_mkdir :: "cli_env \<Rightarrow> string \<Rightarrow> file_sys \<Rightarrow> file_sys" where
  "try_mkdir env path fs = (if fs path \<noteq> None \<or> ce_fail env (Make_dir path) then fs else fs(path \<mapsto> Directory))"

fun mkdir_prefixes :: "cli_env \<Rightarrow> string \<Rightarrow> string \<Rightarrow> file_sys \<Rightarrow> file_sys" where
  "mkdir_prefixes env pre [] fs = fs"
| "mkdir_prefixes env pre (c # rest) fs = mkdir_prefixes env (pre @ [c]) rest (if c = CHR ''/'' then try_mkdir env pre fs else fs)"

definition cli_mkdir_p :: "cli_env \<Rightarrow> string \<Rightarrow> file_sys \<Rightarrow> int \<times> file_sys" where
  "cli_mkdir_p env path fs =
     (if length path \<ge> 1024 then (- 1, fs)
      else (0, try_mkdir env path (mkdir_prefixes env (take 1 path) (drop 1 path) fs)))"

text \<open>A link or a device stands for something outside the map, which stays as it is.\<close>

definition cli_pid_write :: "cli_env \<Rightarrow> string \<Rightarrow> file_sys \<Rightarrow> int \<times> file_sys" where
  "cli_pid_write env pid_path fs =
     (let fs = snd (cli_mkdir_p env pid_path fs); content = dec_text (ce_pid env) @ [LF]
      in if ce_fail env (Open_write pid_path) then (1, fs)
         else case fs pid_path of
           Some Directory \<Rightarrow> (1, fs)
         | Some Symlink \<Rightarrow> (0, fs)
         | Some Special \<Rightarrow> (0, fs)
         | _ \<Rightarrow> (0, fs(pid_path \<mapsto> Regular content)))"

definition remove_path :: "cli_env \<Rightarrow> string \<Rightarrow> file_sys \<Rightarrow> file_sys" where
  "remove_path env path fs = (if ce_fail env (Remove path) then fs else fs(path := None))"

definition cli_pid_remove :: "cli_env \<Rightarrow> string \<Rightarrow> file_sys \<Rightarrow> file_sys" where
  "cli_pid_remove env pid_path fs = (if pid_path \<noteq> [] then remove_path env pid_path fs else fs)"

text \<open>\<^verbatim>\<open>fscanf\<close> with \<^verbatim>\<open>%ld\<close>: white space, a sign and digits; a number that does not fit is the limit.\<close>

definition scan_long :: "string \<Rightarrow> int option" where
  "scan_long t =
     (let t = dropWhile isspace t; neg = (t \<noteq> [] \<and> hd t = CHR ''-''); t = (if t \<noteq> [] \<and> (neg \<or> hd t = CHR ''+'') then tl t else t);
          ds = takeWhile is_digit t
      in if ds = [] then None
         else let v = (if neg then - int (dec_from 0 ds) else int (dec_from 0 ds)) in Some (max (- (2 ^ 63)) (min (2 ^ 63 - 1) v)))"

definition cli_pid_stop :: "cli_env \<Rightarrow> string \<Rightarrow> cli \<Rightarrow> int \<times> cli" where
  "cli_pid_stop env pid_path st =
     (case cl_fs st pid_path of
        None \<Rightarrow> (1, complain ''no background instance found'' st)
      | Some n \<Rightarrow>
          (case (case n of Regular content \<Rightarrow> scan_long content | _ \<Rightarrow> None) of
             None \<Rightarrow> (1, complain ''invalid PID file'' (set_fs (remove_path env pid_path (cl_fs st)) st))
           | Some pid \<Rightarrow>
               if pid \<le> 0 then (1, complain ''invalid PID file'' (set_fs (remove_path env pid_path (cl_fs st)) st))
               else let p = sint (word_of_int pid :: 32 word)
                    in if \<not> ce_alive env p then (1, complain ''process not running'' (set_fs (remove_path env pid_path (cl_fs st)) st))
                       else if \<not> ce_kill env p then (1, complain ''failed to signal process'' st)
                       else let st = say (Signalled p) st
                            in (0, complain ''stopped'' (set_fs (remove_path env pid_path (cl_fs st)) st))))"

section \<open>Requests to the runner\<close>

definition runner_env_at :: "cli_env \<Rightarrow> nat \<Rightarrow> runner_env" where
  "runner_env_at env n = (ce_runner env n)\<lparr>re_libc := ce_libc env, re_getenv := ce_getenv env\<rparr>"

definition cli_runner_root :: "string \<Rightarrow> JSON_Object \<Rightarrow> JSON_Value" where
  "cli_runner_root cmd args = JSONObject (json_object_set_value (json_object_set_string [] ''cmd'' cmd) ''args'' (JSONObject args))"

text \<open>The result, or the error message if there is one; \<open>None\<close> when the call does not return.\<close>

definition cli_runner_call :: "cli_env \<Rightarrow> JSON_Value \<Rightarrow> cli \<Rightarrow> ((string option + string) \<times> cli) option" where
  "cli_runner_call env req st =
     (case json_serialize_to_string (ce_libc env) req of
        None \<Rightarrow> Some (Inl None, st)
      | Some payload \<Rightarrow>
          map_option (\<lambda>(r, rn). (case r of Inl e \<Rightarrow> Inl (Some e) | Inr t \<Rightarrow> Inr t, st\<lparr>cl_runner := rn, cl_calls := cl_calls st + 1\<rparr>))
            (kc_redp2p_run (runner_env_at env (cl_calls st)) (Some payload) (cl_runner st)))"

definition c_int_of :: "rat \<Rightarrow> int" where
  "c_int_of q = (let n = c_long q in if - (2 ^ 31) \<le> n \<and> n < 2 ^ 31 then n else - (2 ^ 31))"

definition cli_runner_open :: "cli_env \<Rightarrow> JSON_Value \<Rightarrow> cli \<Rightarrow> ((string option + int) \<times> cli) option" where
  "cli_runner_open env req st =
     map_option (\<lambda>(r, st). (case r of
         Inl e \<Rightarrow> Inl e
       | Inr result \<Rightarrow>
           (case Option.bind (json_parse_string (ce_libc env) result) json_value_get_object of
              None \<Rightarrow> Inl None
            | Some obj \<Rightarrow> (case json_object_get_value obj ''handle'' of Some (JSONNumber q) \<Rightarrow> Inr (c_int_of q) | _ \<Rightarrow> Inl None)), st))
       (cli_runner_call env req st)"

definition handle_args :: "int \<Rightarrow> JSON_Object" where
  "handle_args handle = json_object_set_number [] ''handle'' (of_int handle)"

definition cli_runner_stop :: "cli_env \<Rightarrow> int \<Rightarrow> cli \<Rightarrow> cli option" where
  "cli_runner_stop env handle st = map_option snd (cli_runner_call env (cli_runner_root ''stop'' (handle_args handle)) st)"

definition cli_runner_close :: "cli_env \<Rightarrow> int \<Rightarrow> cli \<Rightarrow> cli option" where
  "cli_runner_close env handle st = map_option snd (cli_runner_call env (cli_runner_root ''close'' (handle_args handle)) st)"

text \<open>What a status reply says.\<close>

datatype wait_state = Bad_status | Pending | Done int "string option"

definition read_status :: "libc_ops \<Rightarrow> string \<Rightarrow> wait_state" where
  "read_status libc result =
     (case Option.bind (json_parse_string libc result) json_value_get_object of
        None \<Rightarrow> Bad_status
      | Some parsed \<Rightarrow>
          (case json_object_get_object parsed ''result'' of
             None \<Rightarrow> Bad_status
           | Some res \<Rightarrow>
               if json_object_get_string res ''state'' = Some ''finished''
               then Done (c_int_of (json_object_get_number res ''result'')) (json_object_get_string res ''error'')
               else Pending))"

fun end_threads :: "(nat \<times> thread_env) list \<Rightarrow> cli \<Rightarrow> cli option" where
  "end_threads [] st = Some st"
| "end_threads ((t, te) # ends) st =
     (case redp2p_runner_thread te t (cl_runner st) of None \<Rightarrow> None | Some rn \<Rightarrow> end_threads ends (st\<lparr>cl_runner := rn\<rparr>))"

text \<open>
  The result of waiting, the operation's result if it was set, and the message; \<open>None\<close> when the
  rounds are over and the operation is not, or when the program hangs.
\<close>

fun cli_runner_wait :: "cli_env \<Rightarrow> cli_round list \<Rightarrow> int \<Rightarrow> cli \<Rightarrow> (int \<times> int option \<times> string option \<times> cli) option" where
  "cli_runner_wait env [] handle st = None"
| "cli_runner_wait env (rd # rds) handle st =
     (case end_threads (rd_ends rd) st of
        None \<Rightarrow> None
      | Some st \<Rightarrow>
          if rd_signal rd
          then (case cli_runner_stop env handle st of
                  None \<Rightarrow> None
                | Some st \<Rightarrow> map_option (\<lambda>st. (2, None, None, st)) (cli_runner_close env handle st))
          else case cli_runner_call env (cli_runner_root ''status'' (handle_args handle)) st of
            None \<Rightarrow> None
          | Some (Inl e, st) \<Rightarrow> Some (1, None, e, st)
          | Some (Inr result, st) \<Rightarrow>
              (case read_status (ce_libc env) result of
                 Bad_status \<Rightarrow> Some (1, None, None, st)
               | Done rc detail \<Rightarrow> Some (0, Some rc, if rc \<noteq> REDP2P_OK \<and> given detail then detail else None, st)
               | Pending \<Rightarrow> cli_runner_wait env rds handle st))"

section \<open>The three commands\<close>

definition quoted :: "string \<Rightarrow> string" where
  "quoted t = CHR 0x27 # t @ [CHR 0x27]"

definition message :: "string option \<Rightarrow> string \<Rightarrow> string" where
  "message e other = (case e of Some t \<Rightarrow> t | None \<Rightarrow> other)"

text \<open>Opening, waiting and closing, which the three commands do in the same way.\<close>

definition follow ::
  "cli_env \<Rightarrow> cli_round list \<Rightarrow> bool \<Rightarrow> string \<Rightarrow> string \<Rightarrow> int \<Rightarrow> cli \<Rightarrow> (int \<times> cli) option" where
  "follow env rounds always label pidfile handle st =
     (case cli_runner_wait env rounds handle st of
        None \<Rightarrow> None
      | Some (wait_rc, exit_result, run_err, st) \<Rightarrow>
          let st = set_fs (cli_pid_remove env pidfile (cl_fs st)) st
          in if wait_rc = 1
             then map_option (Pair 1) (cli_runner_close env handle (complain (label @ message run_err ''unknown error'') st))
             else let rc = (case exit_result of None \<Rightarrow> ce_garbage env | Some rc \<Rightarrow> rc)
                  in map_option (\<lambda>st. (if rc = REDP2P_OK then 0 else 1,
                         if always \<or> rc \<noteq> REDP2P_OK then complain (label @ message run_err (redp2p_strerror rc)) st else st))
                       (cli_runner_close env handle st))"

definition operate ::
  "cli_env \<Rightarrow> cli_round list \<Rightarrow> bool \<Rightarrow> string \<Rightarrow> string \<Rightarrow> string \<Rightarrow> string \<Rightarrow> JSON_Object \<Rightarrow> cli \<Rightarrow> (int \<times> cli) option" where
  "operate env rounds always failed label greeting pidfile args st =
     (case cli_runner_open env (cli_runner_root ''open'' args) st of
        None \<Rightarrow> None
      | Some (Inl e, st) \<Rightarrow> Some (1, complain (failed @ message e ''unknown error'') st)
      | Some (Inr handle, st) \<Rightarrow>
          let st = (if pidfile \<noteq> [] then set_fs (snd (cli_pid_write env pidfile (cl_fs st))) st else st)
          in follow env rounds always label pidfile handle (complain greeting st))"

text \<open>The state directory and the PID file of an instance; both may be empty.\<close>

definition instance_files :: "cli_env \<Rightarrow> string \<Rightarrow> string \<Rightarrow> string \<times> string" where
  "instance_files env cmd addr =
     (case cli_state_dir (ce_getenv env) None 1024 of
        None \<Rightarrow> ([], [])
      | Some sdir \<Rightarrow> (sdir, case cli_pid_path sdir cmd addr 1280 of None \<Rightarrow> [] | Some p \<Rightarrow> p))"

definition bring_down :: "cli_env \<Rightarrow> string \<Rightarrow> string \<Rightarrow> cli \<Rightarrow> int \<times> cli" where
  "bring_down env cmd addr st =
     (case cli_state_dir (ce_getenv env) None 1024 of
        None \<Rightarrow> (1, complain ''cannot resolve state directory'' st)
      | Some sdir \<Rightarrow>
          (case cli_pid_path sdir cmd addr 1280 of
             None \<Rightarrow> (1, complain ''path too long'' st)
           | Some pidfile \<Rightarrow> cli_pid_stop env pidfile st))"

definition add_text :: "string \<Rightarrow> string \<Rightarrow> JSON_Object \<Rightarrow> JSON_Object" where
  "add_text name t obj = (if t = [] then obj else json_object_set_string obj name t)"

text \<open>The index: its arguments, the rules on their combination, and what it does.\<close>

record index_args =
  ia_list :: bool
  ia_prune :: bool
  ia_down :: bool
  ia_seats :: nat
  ia_seats_option :: bool
  ia_pow :: int
  ia_pow_option :: bool
  ia_port :: "16 word"

fun index_options :: "string list \<Rightarrow> index_args \<Rightarrow> string + index_args" where
  "index_options [] a = Inr a"
| "index_options (arg # rest) a =
     (if arg = ''--list'' \<or> arg = ''-l'' then index_options rest (a\<lparr>ia_list := True\<rparr>)
      else if arg = ''--prune'' \<or> arg = ''-p'' then index_options rest (a\<lparr>ia_prune := True\<rparr>)
      else if arg = ''--down'' \<or> arg = ''-d'' then index_options rest (a\<lparr>ia_down := True\<rparr>)
      else if arg = ''--seats''
      then (case rest of
              [] \<Rightarrow> Inl ''--seats requires an argument''
            | v # rest \<Rightarrow>
                (case parse_size (Some v) of
                   None \<Rightarrow> Inl (''invalid --seats '' @ quoted v)
                 | Some n \<Rightarrow> index_options rest (a\<lparr>ia_seats := n, ia_seats_option := True\<rparr>)))
      else if arg = ''--pow''
      then (case rest of
              [] \<Rightarrow> Inl ''--pow requires an argument''
            | v # rest \<Rightarrow>
                (case parse_int v 0 32 of
                   None \<Rightarrow> Inl (''invalid --pow '' @ quoted v)
                 | Some n \<Rightarrow> index_options rest (a\<lparr>ia_pow := n, ia_pow_option := True\<rparr>)))
      else if ia_port a = 0
      then (case parse_port arg of
              Some port \<Rightarrow> index_options rest (a\<lparr>ia_port := port\<rparr>)
            | None \<Rightarrow> Inl (''unknown option '' @ quoted arg))
      else Inl (''unknown option '' @ quoted arg))"

definition index_conflict :: "index_args \<Rightarrow> string option" where
  "index_conflict a =
     (if ia_list a \<and> (ia_seats_option a \<or> ia_pow_option a) then Some ''--list cannot be combined with --seats or --pow''
      else if ia_prune a \<and> (ia_list a \<or> ia_seats_option a \<or> ia_pow_option a)
      then Some ''--prune cannot be combined with --list, --seats, or --pow''
      else if ia_down a \<and> (ia_list a \<or> ia_prune a \<or> ia_seats_option a \<or> ia_pow_option a)
      then Some ''--down cannot be combined with --list, --prune, --seats, or --pow''
      else None)"

definition kc_redp2p_print_publishers :: "cli_env \<Rightarrow> string \<Rightarrow> cli \<Rightarrow> bool \<times> cli" where
  "kc_redp2p_print_publishers env result st =
     (case Option.bind (Option.bind (Option.bind (json_parse_string (ce_libc env) result) json_value_get_object)
              (\<lambda>obj. json_object_get_object obj ''result'')) (\<lambda>res. json_object_get_array res ''publishers'') of
        None \<Rightarrow> (False, st)
      | Some publishers \<Rightarrow>
          foldl (\<lambda>(fine, st) v. case json_value_get_string v of
                   None \<Rightarrow> (False, st)
                 | Some ident \<Rightarrow> if ce_output env then (fine, say (Stdout ident) st) else (False, st))
            (True, st) publishers)"

definition list_publishers :: "cli_env \<Rightarrow> 16 word \<Rightarrow> cli \<Rightarrow> (int \<times> cli) option" where
  "list_publishers env port st =
     (let args = json_object_set_string [] ''host'' ''127.0.0.1'';
          args = json_object_set_number args ''port'' (of_int (uint port))
      in case cli_runner_call env (cli_runner_root ''list'' args) st of
           None \<Rightarrow> None
         | Some (Inl e, st) \<Rightarrow> Some (1, complain (''list failed: '' @ message e ''unknown error'') st)
         | Some (Inr result, st) \<Rightarrow>
             (case kc_redp2p_print_publishers env result st of (fine, st) \<Rightarrow>
                if \<not> fine \<or> \<not> ce_output env then Some (1, complain ''failed to write publisher list'' st) else Some (0, st)))"

definition index_request :: "index_args \<Rightarrow> bool \<Rightarrow> redp2p_options_t \<Rightarrow> string \<Rightarrow> JSON_Object" where
  "index_request a seated opts sdir =
     (let args = json_object_set_string [] ''op'' ''idx'';
          args = json_object_set_number args ''port'' (of_int (uint (ia_port a)));
          args = (if seated then json_object_set_number args ''seats'' (of_nat (ia_seats a)) else args);
          args = (if ia_pow_option a then json_object_set_number args ''pow'' (of_int (ia_pow a)) else args);
          args = add_text ''pass'' (op_pass opts) args;
          args = (case op_vip opts of None \<Rightarrow> args | Some vip \<Rightarrow> json_object_set_string args ''vip'' vip)
      in add_text ''state_dir'' sdir args)"

definition main_idx :: "cli_env \<Rightarrow> cli_round list \<Rightarrow> string \<Rightarrow> string list \<Rightarrow> cli \<Rightarrow> (int \<times> cli) option" where
  "main_idx env rounds name argv st =
     (let opts = redp2p_options_default
      in case index_options argv \<lparr>ia_list = False, ia_prune = False, ia_down = False, ia_seats = op_seats opts, ia_seats_option = False,
                                  ia_pow = op_pow opts, ia_pow_option = False, ia_port = 0\<rparr> of
           Inl e \<Rightarrow> Some (1, complain e st)
         | Inr a \<Rightarrow>
             if ia_port a = 0
             then Some (1, complain (''usage: '' @ name @ '' idx <port> [--list|-l] [--prune|-p] [--seats N] [--pow N]'') st)
             else case load_index_options (ce_getenv env) (ce_malloc env) opts (ia_seats_option a) of
               None \<Rightarrow> Some (1, complain ''failed to load index options'' st)
             | Some (opts, seated) \<Rightarrow>
                 (case index_conflict a of
                    Some e \<Rightarrow> Some (1, complain e st)
                  | None \<Rightarrow>
                      let port = dec_text (unat (ia_port a))
                      in if ia_down a then Some (bring_down env ''idx'' port st)
                         else if ia_list a then list_publishers env (ia_port a) st
                         else if ia_prune a then Some (0, complain ''index pruning runs automatically every 60 seconds'' st)
                         else let (sdir, pidfile) = instance_files env ''idx'' port
                              in operate env rounds True ''failed to create context: '' ''index exited: ''
                                   (''index server listening on port '' @ port) pidfile (index_request a seated opts sdir) st))"

text \<open>Publisher and consumer take the same arguments.\<close>

record client_args =
  ca_down :: bool
  ca_port :: "16 word"
  ca_proto :: int
  ca_sweep :: int
  ca_stun :: string

definition service_option :: "string \<Rightarrow> int \<Rightarrow> string \<Rightarrow> client_args \<Rightarrow> string + client_args" where
  "service_option opt proto v a =
     (case parse_port v of
        None \<Rightarrow> Inl (''invalid '' @ opt @ '' port '' @ quoted v)
      | Some port \<Rightarrow> Inr (a\<lparr>ca_port := port, ca_proto := proto\<rparr>))"

fun client_options :: "string list \<Rightarrow> client_args \<Rightarrow> string + client_args" where
  "client_options [] a = Inr a"
| "client_options (arg # rest) a =
     (if arg = ''--down'' \<or> arg = ''-d'' then client_options rest (a\<lparr>ca_down := True\<rparr>)
      else if arg = ''--tcp'' \<or> arg = ''--udp''
      then (if ca_proto a \<noteq> 0 then Inl ''choose only one of --tcp or --udp''
            else case rest of
              [] \<Rightarrow> Inl (arg @ '' requires a port'')
            | v # rest \<Rightarrow>
                (case service_option arg (if arg = ''--tcp'' then REDP2P_PROTO_TCP else REDP2P_PROTO_UDP) v a of
                   Inl e \<Rightarrow> Inl e
                 | Inr a \<Rightarrow> client_options rest a))
      else if arg = ''--sweep''
      then (case rest of
              [] \<Rightarrow> Inl ''--sweep requires a number''
            | v # rest \<Rightarrow>
                (case parse_int v 0 1024 of
                   None \<Rightarrow> Inl (''invalid --sweep '' @ quoted v)
                 | Some n \<Rightarrow> client_options rest (a\<lparr>ca_sweep := n\<rparr>)))
      else if arg = ''--stun''
      then (case rest of
              [] \<Rightarrow> Inl ''--stun requires a URL''
            | v # rest \<Rightarrow> client_options rest (a\<lparr>ca_stun := take 255 v\<rparr>))
      else Inl (''unknown option '' @ quoted arg))"

definition down_conflict :: "client_args \<Rightarrow> bool" where
  "down_conflict a \<longleftrightarrow> ca_down a \<and> (ca_proto a \<noteq> 0 \<or> ca_port a \<noteq> 0 \<or> ca_sweep a \<noteq> 0 \<or> ca_stun a \<noteq> [])"

definition client_request :: "string \<Rightarrow> string \<Rightarrow> client_args \<Rightarrow> string \<Rightarrow> string \<Rightarrow> JSON_Object" where
  "client_request cmd spec a pass sdir =
     (let args = json_object_set_string [] ''op'' cmd;
          args = json_object_set_string args ''addr'' spec;
          args = json_object_set_number args (if ca_proto a = REDP2P_PROTO_TCP then ''tcp'' else ''udp'') (of_int (uint (ca_port a)));
          args = json_object_set_number args ''sweep'' (of_int (ca_sweep a));
          args = add_text ''stun'' (ca_stun a) args;
          args = add_text ''pass'' pass args
      in add_text ''state_dir'' sdir args)"

definition client_main ::
  "cli_env \<Rightarrow> string \<Rightarrow> string \<Rightarrow> string list \<Rightarrow> (client_args \<Rightarrow> redp2p_options_t \<Rightarrow> string \<Rightarrow> cli \<Rightarrow> (int \<times> cli) option)
   \<Rightarrow> cli \<Rightarrow> (int \<times> cli) option" where
  "client_main env name cmd argv go st =
     (let opts = redp2p_options_load_env (ce_getenv env) (ce_malloc env) redp2p_options_default
      in case argv of
           [] \<Rightarrow> Some (1, complain (''usage: '' @ name @ '' '' @ cmd @ '' <host>@<index[:port]>'') st)
         | spec # rest \<Rightarrow>
             (case parse_hostspec spec (REDP2P_ID_MAX + 1) 256 of
                None \<Rightarrow> Some (1, complain (''invalid spec '' @ quoted spec @ '' (expected host@index:port)'') st)
              | Some (host, idx_host, idx_port) \<Rightarrow>
                  if \<not> redp2p_is_valid_id host then Some (1, complain (''invalid host id '' @ quoted host) st)
                  else case client_options rest \<lparr>ca_down = False, ca_port = 0, ca_proto = 0, ca_sweep = op_sweep opts,
                                                 ca_stun = op_stun_url opts\<rparr> of
                    Inl e \<Rightarrow> Some (1, complain e st)
                  | Inr a \<Rightarrow>
                      if down_conflict a
                      then Some (1, complain ''--down cannot be combined with --tcp, --udp, --sweep, or --stun'' st)
                      else if ca_down a then Some (bring_down env cmd spec st)
                      else if ca_proto a = 0 \<or> ca_port a = 0
                      then Some (1, complain (cmd @ '' requires --tcp <port> or --udp <port>'') st)
                      else go a opts spec st))"

definition main_pub :: "cli_env \<Rightarrow> cli_round list \<Rightarrow> string \<Rightarrow> string list \<Rightarrow> cli \<Rightarrow> (int \<times> cli) option" where
  "main_pub env rounds name argv st =
     client_main env name ''pub'' argv
       (\<lambda>a opts spec st.
          let (sdir, pidfile) = instance_files env ''pub'' spec
          in operate env rounds False ''failed to create context: '' ''pub exited: '' ''waiting for connections...'' pidfile
               (client_request ''pub'' spec a (op_pass opts) sdir) st) st"

definition main_con :: "cli_env \<Rightarrow> cli_round list \<Rightarrow> string \<Rightarrow> string list \<Rightarrow> cli \<Rightarrow> (int \<times> cli) option" where
  "main_con env rounds name argv st =
     client_main env name ''con'' argv
       (\<lambda>a opts spec st.
          let (sdir, pidfile) = instance_files env ''con'' spec
          in operate env rounds False ''connect failed: '' ''connect failed: '' (''connecting to '' @ spec @ ''...'') pidfile
               (client_request ''con'' spec a [] sdir) st) st"

text \<open>The exit code and the final state; \<open>None\<close> when the program does not end within the given rounds.\<close>

definition main_program :: "cli_env \<Rightarrow> cli_round list \<Rightarrow> string list \<Rightarrow> cli \<Rightarrow> (int \<times> cli) option" where
  "main_program env rounds argv st =
     (case argv of
        name # cmd # rest \<Rightarrow>
          if cmd = ''-h'' \<or> cmd = ''--help'' then Some (0, say (Help name) st)
          else if cmd = ''-v'' \<or> cmd = ''--version''
          then Some (0, say (Stdout (''redp2p build '' @ dec_text (re_version (runner_env_at env (cl_calls st))))) st)
          else if cmd = ''idx'' then main_idx env rounds name rest st
          else if cmd = ''pub'' then main_pub env rounds name rest st
          else if cmd = ''con'' then main_con env rounds name rest st
          else Some (1, complain (''try '' @ quoted (name @ '' --help'')) (complain (''unknown command '' @ quoted cmd) st))
      | [name] \<Rightarrow> Some (1, say (Help name) st)
      | [] \<Rightarrow> Some (1, say (Help []) st))"

end
