(* ===== verification/Runner_Safety.thy ===== *)
theory Runner_Safety
  imports Runner
begin

text \<open>
  The slot table under every sequence of commands and thread ends: what the handles own, that
  nothing leaks, that a stop returns, and what goes wrong when the table moves.
\<close>

section \<open>Histories\<close>

text \<open>A history is a list of commands of the caller and of threads that end on their own.\<close>

datatype runner_action = Command runner_env "string option" | Ends nat thread_env

fun runner_step :: "runner_action \<Rightarrow> runner \<Rightarrow> runner option" where
  "runner_step (Command env payload) st = map_option snd (kc_redp2p_run env payload st)"
| "runner_step (Ends t te) st = redp2p_runner_thread te t st"

text \<open>A sequence of steps, and what every step keeps.\<close>

fun step_run :: "('a \<Rightarrow> 's \<Rightarrow> 's option) \<Rightarrow> 'a list \<Rightarrow> 's \<Rightarrow> 's option" where
  "step_run step [] st = Some st"
| "step_run step (a # as) st = Option.bind (step a st) (step_run step as)"

locale kept_by_steps =
  fixes step :: "'a \<Rightarrow> 's \<Rightarrow> 's option" and keep :: "'s \<Rightarrow> bool"
  assumes step_keeps: "keep st \<Longrightarrow> step a st = Some st' \<Longrightarrow> keep st'"
begin

lemma run_keeps: "keep st \<Longrightarrow> step_run step as st = Some st' \<Longrightarrow> keep st'"
  by (induction as arbitrary: st) (auto simp: bind_eq_Some_conv dest: step_keeps)

end

abbreviation runner_run :: "runner_action list \<Rightarrow> runner \<Rightarrow> runner option" where
  "runner_run \<equiv> step_run runner_step"

definition first_runner :: "file_sys \<Rightarrow> runner" where
  "first_runner fs = \<lparr>rn_slots = [], rn_count = 0, rn_block = 0, rn_ctxs = (\<lambda>_. None), rn_next_ctx = 0, rn_threads = (\<lambda>_. None),
     rn_next_thread = 1, rn_log = [], rn_fs = fs, rn_served = [], rn_lost = False\<rparr>"

section \<open>The invariant\<close>

definition slot_ok :: "runner \<Rightarrow> kc_redp2p_runner_slot_t \<Rightarrow> bool" where
  "slot_ok st s \<longleftrightarrow>
     (sl_ctx s = None \<longrightarrow> sl_thread s = 0 \<and> sl_state s \<noteq> REDP2P_RUNNER_STATE_RUNNING) \<and>
     (sl_state s = REDP2P_RUNNER_STATE_FREE \<longrightarrow> sl_ctx s = None) \<and>
     (\<forall>a. sl_ctx s = Some a \<longrightarrow> rn_ctxs st a \<noteq> None \<and> a < rn_next_ctx st) \<and>
     sl_thread s < rn_next_thread st \<and>
     (sl_state s = REDP2P_RUNNER_STATE_RUNNING \<longrightarrow> sl_result s = 0 \<and> (rn_threads st (sl_thread s) = None \<longrightarrow> rn_lost st))"

definition thread_ok :: "runner \<Rightarrow> nat \<Rightarrow> runner_thread \<Rightarrow> bool" where
  "thread_ok st t th \<longleftrightarrow>
     th_index th < rn_count st \<and> t \<noteq> 0 \<and> th_block th \<le> rn_block st \<and>
     sl_thread (slot_at st (th_index th)) = t \<and> sl_ctx (th_slot th) \<noteq> None \<and>
     sl_ctx (slot_at st (th_index th)) = sl_ctx (th_slot th) \<and>
     sl_state (slot_at st (th_index th)) = REDP2P_RUNNER_STATE_RUNNING"

definition apart :: "runner \<Rightarrow> bool" where
  "apart st \<longleftrightarrow> (\<forall>i < rn_count st. \<forall>j < rn_count st. i \<noteq> j \<longrightarrow>
     (sl_ctx (slot_at st i) = None \<or> sl_ctx (slot_at st i) \<noteq> sl_ctx (slot_at st j)) \<and>
     (sl_thread (slot_at st i) = 0 \<or> sl_thread (slot_at st i) \<noteq> sl_thread (slot_at st j)))"

definition runner_ok :: "runner \<Rightarrow> bool" where
  "runner_ok st \<longleftrightarrow> rn_count st \<le> length (rn_slots st) \<and> 0 < rn_next_thread st \<and>
     (\<forall>i < rn_count st. slot_ok st (slot_at st i)) \<and> apart st \<and>
     (\<forall>a. rn_ctxs st a \<noteq> None \<longrightarrow> (\<exists>i < rn_count st. sl_ctx (slot_at st i) = Some a)) \<and>
     (\<forall>t th. rn_threads st t = Some th \<longrightarrow> thread_ok st t th)"

lemma runner_okD:
  assumes "runner_ok st"
  shows "rn_count st \<le> length (rn_slots st)" "0 < rn_next_thread st" "apart st"
    "j < rn_count st \<Longrightarrow> slot_ok st (slot_at st j)"
    "rn_ctxs st a \<noteq> None \<Longrightarrow> \<exists>i < rn_count st. sl_ctx (slot_at st i) = Some a"
    "rn_threads st t = Some th \<Longrightarrow> thread_ok st t th"
  using assms by (simp_all add: runner_ok_def)

lemma runner_okI:
  assumes "rn_count st \<le> length (rn_slots st)" "0 < rn_next_thread st" "apart st"
    "\<And>j. j < rn_count st \<Longrightarrow> slot_ok st (slot_at st j)"
    "\<And>a. rn_ctxs st a \<noteq> None \<Longrightarrow> \<exists>i < rn_count st. sl_ctx (slot_at st i) = Some a"
    "\<And>t th. rn_threads st t = Some th \<Longrightarrow> thread_ok st t th"
  shows "runner_ok st"
  using assms by (simp add: runner_ok_def)

lemma apartD:
  assumes "apart st" "i < rn_count st" "j < rn_count st" "i \<noteq> j"
  shows "sl_ctx (slot_at st i) = None \<or> sl_ctx (slot_at st i) \<noteq> sl_ctx (slot_at st j)"
    "sl_thread (slot_at st i) = 0 \<or> sl_thread (slot_at st i) \<noteq> sl_thread (slot_at st j)"
  using assms by (simp_all add: apart_def)

lemma first_runner_ok: "runner_ok (first_runner fs)"
  by (simp add: runner_ok_def first_runner_def apart_def)

lemma set_slot_simps [simp]:
  "rn_count (set_slot i s st) = rn_count st" "rn_block (set_slot i s st) = rn_block st" "rn_ctxs (set_slot i s st) = rn_ctxs st"
  "rn_next_ctx (set_slot i s st) = rn_next_ctx st" "rn_threads (set_slot i s st) = rn_threads st"
  "rn_next_thread (set_slot i s st) = rn_next_thread st" "rn_lost (set_slot i s st) = rn_lost st"
  "rn_log (set_slot i s st) = rn_log st" "rn_fs (set_slot i s st) = rn_fs st" "rn_served (set_slot i s st) = rn_served st"
  "rn_slots (set_slot i s st) = (rn_slots st)[i := s]"
  by (simp_all add: set_slot_def)

text \<open>Effects on the world do not touch the table.\<close>

definition same_table :: "runner \<Rightarrow> runner \<Rightarrow> bool" where
  "same_table st st' \<longleftrightarrow>
     rn_slots st' = rn_slots st \<and> rn_count st' = rn_count st \<and> rn_block st' = rn_block st \<and> rn_ctxs st' = rn_ctxs st \<and>
     rn_next_ctx st' = rn_next_ctx st \<and> rn_threads st' = rn_threads st \<and> rn_next_thread st' = rn_next_thread st \<and>
     rn_lost st' = rn_lost st"

lemma same_table_refl [simp]: "same_table st st"
  by (simp add: same_table_def)

lemma same_table_ok: "same_table st st' \<Longrightarrow> runner_ok st' = runner_ok st"
  by (simp add: same_table_def runner_ok_def slot_ok_def thread_ok_def apart_def)

lemma run_operation_table: "run_operation te s ctx st = Some (r, ctx', st') \<Longrightarrow> same_table st st'"
  by (auto simp: run_operation_def Let_def same_table_def split: if_splits prod.splits)

lemma one_shot_table:
  "same_table st (snd (redp2p_runner_del env obj st))" "same_table st (snd (redp2p_runner_list env obj st))"
  by (auto simp: redp2p_runner_del_def redp2p_runner_list_def Let_def same_table_def split: option.splits prod.splits)

text \<open>One slot changes, and the others do not have its context or thread.\<close>

lemma apart_update:
  assumes pos: "\<And>j. j < rn_count st' \<Longrightarrow> slot_at st' j = (if j = i then s else slot_at st j)"
    and old: "\<And>j. j < rn_count st' \<Longrightarrow> j \<noteq> i \<Longrightarrow> j < rn_count st" "apart st"
    and new: "\<And>j. j < rn_count st \<Longrightarrow> j \<noteq> i \<Longrightarrow>
      (sl_ctx s = None \<or> sl_ctx s \<noteq> sl_ctx (slot_at st j)) \<and> (sl_thread s = 0 \<or> sl_thread s \<noteq> sl_thread (slot_at st j))"
  shows "apart st'"
  unfolding apart_def
proof (intro allI impI)
  fix j k
  assume jk: "j < rn_count st'" "k < rn_count st'" "j \<noteq> k"
  note p = pos [OF jk(1)] pos [OF jk(2)]
  consider "j = i" | "k = i" "j \<noteq> i" | "j \<noteq> i" "k \<noteq> i" by blast
  then show "(sl_ctx (slot_at st' j) = None \<or> sl_ctx (slot_at st' j) \<noteq> sl_ctx (slot_at st' k)) \<and>
    (sl_thread (slot_at st' j) = 0 \<or> sl_thread (slot_at st' j) \<noteq> sl_thread (slot_at st' k))"
  proof cases
    case 1
    then show ?thesis using new [of k] old(1) [of k] p jk by simp
  next
    case 2
    then show ?thesis using new [of j] old(1) [of j] p jk by auto
  next
    case 3
    then show ?thesis using old(1) [of j] old(1) [of k] old(2) p jk by (simp add: apart_def)
  qed
qed

text \<open>
  Every operation on the table changes one slot. The invariant survives when the new slot is sound
  and shares nothing, the other slots stay sound, and contexts and threads keep their owners.
\<close>

lemma update_ok:
  assumes ok: "runner_ok st"
    and shape: "i < rn_count st'" "rn_count st' \<le> length (rn_slots st')" "rn_count st \<le> rn_count st'"
      "rn_block st \<le> rn_block st'" "rn_next_thread st \<le> rn_next_thread st'"
    and pos: "\<And>j. j < rn_count st' \<Longrightarrow> slot_at st' j = (if j = i then s else slot_at st j)"
    and old: "\<And>j. j < rn_count st' \<Longrightarrow> j \<noteq> i \<Longrightarrow> j < rn_count st"
    and new: "slot_ok st' s" "\<And>j. j < rn_count st \<Longrightarrow> j \<noteq> i \<Longrightarrow>
      (sl_ctx s = None \<or> sl_ctx s \<noteq> sl_ctx (slot_at st j)) \<and> (sl_thread s = 0 \<or> sl_thread s \<noteq> sl_thread (slot_at st j))"
    and others: "\<And>j. j < rn_count st \<Longrightarrow> j \<noteq> i \<Longrightarrow> slot_ok st (slot_at st j) \<Longrightarrow> slot_ok st' (slot_at st j)"
    and ctxs: "\<And>a. rn_ctxs st' a \<noteq> None \<Longrightarrow> sl_ctx s = Some a \<or> (\<exists>j < rn_count st. j \<noteq> i \<and> sl_ctx (slot_at st j) = Some a)"
    and threads: "\<And>t th. rn_threads st' t = Some th \<Longrightarrow>
      th_index th \<noteq> i \<and> rn_threads st t = Some th \<or> th_index th = i \<and> thread_ok st' t th"
  shows "runner_ok st'"
proof (rule runner_okI)
  show "rn_count st' \<le> length (rn_slots st')" by (rule shape(2))
  show "0 < rn_next_thread st'" using runner_okD(2) [OF ok] shape(5) by simp
  show "apart st'" by (rule apart_update [OF pos old runner_okD(3) [OF ok] new(2)])
  show "slot_ok st' (slot_at st' j)" if j: "j < rn_count st'" for j
    using pos [OF j] new(1) others [of j] old [OF j] runner_okD(4) [OF ok, of j] by simp
  show "\<exists>j < rn_count st'. sl_ctx (slot_at st' j) = Some a" if a: "rn_ctxs st' a \<noteq> None" for a
    using ctxs [OF a]
  proof (elim disjE exE conjE)
    assume "sl_ctx s = Some a"
    then show ?thesis using pos [OF shape(1)] shape(1) by (intro exI [of _ i]) simp
  next
    fix j assume "j < rn_count st" "j \<noteq> i" "sl_ctx (slot_at st j) = Some a"
    then show ?thesis using pos [of j] shape(3) by (intro exI [of _ j]) simp
  qed
  show "thread_ok st' t th" if t: "rn_threads st' t = Some th" for t th
    using threads [OF t]
  proof (elim disjE conjE)
    assume "th_index th \<noteq> i" "rn_threads st t = Some th"
    moreover from this have "thread_ok st t th" using runner_okD(6) [OF ok] by blast
    ultimately show ?thesis using pos [of "th_index th"] shape(3,4) by (simp add: thread_ok_def)
  qed
qed

text \<open>A context has one owner.\<close>

lemma ctx_owner:
  assumes "runner_ok st" "rn_ctxs st a \<noteq> None" "sl_ctx (slot_at st i) \<noteq> Some a"
  shows "\<exists>j < rn_count st. j \<noteq> i \<and> sl_ctx (slot_at st j) = Some a"
  using runner_okD(5) [OF assms(1,2)] assms(3) by blast

section \<open>Opening\<close>

text \<open>A position has been claimed: all other slots in use are as before.\<close>

definition claimed :: "nat \<Rightarrow> runner \<Rightarrow> runner \<Rightarrow> bool" where
  "claimed i st st' \<longleftrightarrow>
     i < rn_count st' \<and> rn_count st' = max (rn_count st) (i + 1) \<and> rn_count st' \<le> length (rn_slots st') \<and> i \<le> rn_count st \<and>
     (\<forall>j < rn_count st. j \<noteq> i \<longrightarrow> slot_at st' j = slot_at st j) \<and>
     (i < rn_count st \<longrightarrow> sl_state (slot_at st i) = REDP2P_RUNNER_STATE_FREE) \<and>
     rn_block st \<le> rn_block st' \<and> rn_ctxs st' = rn_ctxs st \<and> rn_next_ctx st' = rn_next_ctx st \<and>
     rn_threads st' = rn_threads st \<and> rn_next_thread st' = rn_next_thread st \<and> rn_lost st' = rn_lost st"

lemma grow_table_facts:
  assumes "grow_table env st = Some st'" "rn_count st = length (rn_slots st)"
  shows "rn_count st' = rn_count st \<and> rn_count st < length (rn_slots st') \<and> (\<forall>j < rn_count st. slot_at st' j = slot_at st j) \<and>
    rn_block st \<le> rn_block st' \<and> rn_ctxs st' = rn_ctxs st \<and> rn_next_ctx st' = rn_next_ctx st \<and>
    rn_threads st' = rn_threads st \<and> rn_next_thread st' = rn_next_thread st \<and> rn_lost st' = rn_lost st"
  using assms by (auto simp: grow_table_def Let_def nth_append split: option.splits if_splits)

lemma slot_alloc_claimed:
  assumes "kc_redp2p_runner_slot_alloc env st = (Some h, st')" "rn_count st \<le> length (rn_slots st)"
  shows "h \<noteq> 0 \<and> claimed (h - 1) st st'"
proof (cases "first_index (\<lambda>s. sl_state s = REDP2P_RUNNER_STATE_FREE) (take (rn_count st) (rn_slots st))")
  case (Some i)
  then show ?thesis using first_index_Some [OF Some] assms
    by (auto simp: kc_redp2p_runner_slot_alloc_def claimed_def)
next
  case None
  obtain st1 where 1: "(if rn_count st \<ge> length (rn_slots st) then grow_table env st else Some st) = Some st1"
    "h = rn_count st1 + 1" "st' = (set_slot (rn_count st1) (claim_slot (slot_at st1 (rn_count st1))) st1)\<lparr>rn_count := rn_count st1 + 1\<rparr>"
    using assms(1) None by (auto simp: kc_redp2p_runner_slot_alloc_def Let_def split: option.splits)
  have "rn_count st1 = rn_count st \<and> rn_count st < length (rn_slots st1) \<and> (\<forall>j < rn_count st. slot_at st1 j = slot_at st j) \<and>
    rn_block st \<le> rn_block st1 \<and> rn_ctxs st1 = rn_ctxs st \<and> rn_next_ctx st1 = rn_next_ctx st \<and>
    rn_threads st1 = rn_threads st \<and> rn_next_thread st1 = rn_next_thread st \<and> rn_lost st1 = rn_lost st"
    using 1(1) grow_table_facts [of env st st1] assms(2) by (auto split: if_splits)
  then show ?thesis using 1 by (auto simp: claimed_def)
qed

lemma slot_alloc_none: "kc_redp2p_runner_slot_alloc env st = (None, st') \<Longrightarrow> st' = st"
  by (auto simp: kc_redp2p_runner_slot_alloc_def Let_def split: option.splits if_splits)

text \<open>The threads and the other slots do not notice.\<close>

lemma claimed_thread:
  assumes "runner_ok st" "claimed i st st'" "rn_threads st t = Some th"
  shows "th_index th \<noteq> i \<and> th_index th < rn_count st"
proof -
  have ok: "thread_ok st t th" using assms(1,3) by (simp add: runner_ok_def)
  then show ?thesis using assms(2) by (auto simp: thread_ok_def claimed_def macros)
qed

lemma claimed_empty:
  assumes "runner_ok st" "claimed i st st'" "i < rn_count st"
  shows "sl_ctx (slot_at st i) = None"
  using assms by (auto simp: runner_ok_def slot_ok_def claimed_def)

lemma claimed_ctx:
  assumes "runner_ok st" "claimed i st st'" "rn_ctxs st a \<noteq> None"
  shows "\<exists>j < rn_count st. j \<noteq> i \<and> sl_ctx (slot_at st j) = Some a"
  using runner_okD(5) [OF assms(1,3)] claimed_empty [OF assms(1,2)] by force

lemma claimed_free_ok:
  assumes "runner_ok st" "claimed i st st'" "sl_ctx s = None" "sl_thread s = 0" "sl_state s = REDP2P_RUNNER_STATE_FREE"
  shows "runner_ok (set_slot i s st')"
proof (rule update_ok [OF assms(1), where i = i and s = s])
  show "slot_ok (set_slot i s st') s"
    using assms runner_okD(2) [OF assms(1)] by (simp add: slot_ok_def claimed_def macros)
  show "slot_ok (set_slot i s st') (slot_at st j)" if "slot_ok st (slot_at st j)" for j
    using assms(2) that by (simp add: slot_ok_def claimed_def)
  show "sl_ctx s = Some a \<or> (\<exists>j < rn_count st. j \<noteq> i \<and> sl_ctx (slot_at st j) = Some a)"
    if "rn_ctxs (set_slot i s st') a \<noteq> None" for a
    using claimed_ctx [OF assms(1,2)] assms(2) that by (simp add: claimed_def)
  show "th_index th \<noteq> i \<and> rn_threads st t = Some th \<or> th_index th = i \<and> thread_ok (set_slot i s st') t th"
    if "rn_threads (set_slot i s st') t = Some th" for t th
    using claimed_thread [OF assms(1,2)] assms(2) that by (simp add: claimed_def)
qed (use assms in \<open>auto simp: claimed_def nth_list_update\<close>)

lemma claimed_start_ok:
  assumes ok: "runner_ok st" and c: "claimed i st st'" and s: "sl_state s = REDP2P_RUNNER_STATE_RUNNING" "sl_result s = 0"
  shows "runner_ok (redp2p_runner_thread_start i s ctx st')"
proof -
  let ?s = "s\<lparr>sl_ctx := Some (rn_next_ctx st), sl_thread := rn_next_thread st\<rparr>" and ?st = "redp2p_runner_thread_start i s ctx st'"
  have parts: "rn_count ?st = rn_count st'" "rn_next_ctx ?st = rn_next_ctx st + 1" "rn_next_thread ?st = rn_next_thread st + 1"
    "rn_block ?st = rn_block st'" "rn_lost ?st = rn_lost st" "rn_ctxs ?st = (rn_ctxs st)(rn_next_ctx st \<mapsto> ctx)"
    "rn_threads ?st = (rn_threads st)(rn_next_thread st \<mapsto> \<lparr>th_block = rn_block st', th_index = i, th_slot = ?s\<rparr>)"
    "rn_slots ?st = (rn_slots st')[i := ?s]"
    using c by (simp_all add: redp2p_runner_thread_start_def Let_def claimed_def)
  have pos: "slot_at ?st j = (if j = i then ?s else slot_at st j)" if "j < rn_count st'" for j
    using c that by (auto simp: parts claimed_def nth_list_update)
  show ?thesis
  proof (rule update_ok [OF ok, where i = i and s = ?s])
    show "slot_ok ?st ?s" using s by (simp add: slot_ok_def parts macros)
    show "(sl_ctx ?s = None \<or> sl_ctx ?s \<noteq> sl_ctx (slot_at st j)) \<and> (sl_thread ?s = 0 \<or> sl_thread ?s \<noteq> sl_thread (slot_at st j))"
      if "j < rn_count st" for j
      using runner_okD(4) [OF ok that] by (auto simp: slot_ok_def dest: sym)
    show "slot_ok ?st (slot_at st j)" if "slot_ok st (slot_at st j)" for j
      using that by (auto simp: slot_ok_def parts)
    show "sl_ctx ?s = Some a \<or> (\<exists>j < rn_count st. j \<noteq> i \<and> sl_ctx (slot_at st j) = Some a)" if "rn_ctxs ?st a \<noteq> None" for a
      using claimed_ctx [OF ok c, of a] that by (auto simp: parts split: if_splits)
    show "th_index th \<noteq> i \<and> rn_threads st t = Some th \<or> th_index th = i \<and> thread_ok ?st t th" if t: "rn_threads ?st t = Some th" for t th
    proof (cases "t = rn_next_thread st")
      case True
      then have "th = \<lparr>th_block = rn_block st', th_index = i, th_slot = ?s\<rparr>" using t by (simp add: parts)
      then show ?thesis using True c s pos [of i] runner_okD(2) [OF ok] by (simp add: thread_ok_def parts claimed_def)
    next
      case False
      then show ?thesis using t claimed_thread [OF ok c] by (simp add: parts)
    qed
  qed (use c pos in \<open>auto simp: parts claimed_def\<close>)
qed

lemma configured_state:
  assumes "configure env op h obj s = Some (s', ctx)"
  shows "sl_state s' = sl_state s \<and> sl_result s' = sl_result s \<and> sl_ctx s' = sl_ctx s \<and> sl_thread s' = sl_thread s"
proof -
  obtain ctx0 where "(if op = ''pub'' then open_pub obj s else if op = ''con'' then open_con h obj s else open_idx (re_alloc env) obj s) ctx0
      = Some (s', ctx)"
    using assms unfolding configure_def bind_eq_Some_conv by blast
  then consider "open_pub obj s ctx0 = Some (s', ctx)" | "open_con h obj s ctx0 = Some (s', ctx)"
    | "open_idx (re_alloc env) obj s ctx0 = Some (s', ctx)" by (auto split: if_splits)
  then show ?thesis
    by cases (auto simp: open_pub_def open_con_def open_idx_def Let_def split: option.splits if_splits)
qed

text \<open>What opening does: nothing, a claimed slot left free, or a claimed slot with a thread.\<close>

lemma open_cases:
  assumes "redp2p_runner_open env obj st = (r, st')" "rn_count st \<le> length (rn_slots st)"
  obtains (refused) "r = None" "st' = st"
  | (failed) i s st1 where "r = None" "claimed i st st1" "st' = set_slot i s st1" "sl_ctx s = None" "sl_thread s = 0"
      "sl_state s = REDP2P_RUNNER_STATE_FREE"
  | (started) i s st1 ctx where "claimed i st st1" "st' = redp2p_runner_thread_start i s ctx st1"
      "kc_redp2p_runner_slot_alloc env st = (Some (i + 1), st1)"
      "sl_state s = REDP2P_RUNNER_STATE_RUNNING" "sl_result s = 0"
      "r = redp2p_run_wrap (re_libc env) (json_object_set_number [] ''handle'' (of_nat (i + 1))) (int (i + 1))"
proof -
  consider "r = None" "st' = st"
    | (alloc) op h st1 where "json_object_get_string obj ''op'' = Some op" "op = ''pub'' \<or> op = ''con'' \<or> op = ''idx''"
      "kc_redp2p_runner_slot_alloc env st = (Some h, st1)"
    using assms(1) slot_alloc_none [of env st] by (auto simp: redp2p_runner_open_def split: option.splits if_splits prod.splits)
  then show thesis
  proof cases
    case alloc
    have h: "h \<noteq> 0" "claimed (h - 1) st st1" using slot_alloc_claimed [OF alloc(3) assms(2)] by auto
    let ?s = "zero_slot\<lparr>sl_state := REDP2P_RUNNER_STATE_RUNNING\<rparr>"
    have r: "(r, st') = launch env h ?s (configure env op h obj ?s) st1"
      using assms(1) alloc by (auto simp: redp2p_runner_open_def Let_def)
    show thesis
    proof (cases "configure env op h obj ?s")
      case None
      then show thesis using r h by (intro failed [of "h - 1" st1]) (auto simp: zero_slot_def launch_def)
    next
      case (Some sc)
      obtain s ctx where sc: "sc = (s, ctx)" by fastforce
      have s: "sl_state s = REDP2P_RUNNER_STATE_RUNNING \<and> sl_result s = 0 \<and> sl_ctx s = None \<and> sl_thread s = 0"
        using configured_state [OF Some [unfolded sc]] by (simp add: zero_slot_def)
      show thesis
      proof (cases "re_create env")
        case True
        then show thesis using r Some sc s h alloc(3) by (intro started [of "h - 1" st1 s ctx]) (auto simp: launch_def)
      next
        case False
        then show thesis using r Some sc s h by (intro failed [of "h - 1" st1]) (auto simp: launch_def)
      qed
    qed
  qed (rule refused)
qed

lemma open_ok:
  assumes "runner_ok st" "redp2p_runner_open env obj st = (r, st')"
  shows "runner_ok st'"
proof -
  have "rn_count st \<le> length (rn_slots st)" using assms(1) by (simp add: runner_ok_def)
  with assms(2) show ?thesis
  proof (cases rule: open_cases)
    case (failed i s st1)
    then show ?thesis using claimed_free_ok [OF assms(1)] by blast
  next
    case (started i s st1 ctx)
    then show ?thesis using claimed_start_ok [OF assms(1)] by blast
  qed (use assms in simp)
qed

section \<open>Ending, joining, stopping, closing\<close>

text \<open>A change of a slot no thread points to, which keeps its context or gives it back.\<close>

lemma slot_update_ok:
  assumes ok: "runner_ok st" and i: "i < rn_count st" and quiet: "\<And>t th. rn_threads st t = Some th \<Longrightarrow> th_index th \<noteq> i"
    and s: "sl_ctx s = sl_ctx (slot_at st i)" "sl_thread s = 0 \<or> sl_thread s = sl_thread (slot_at st i)" "slot_ok st s"
  shows "runner_ok (set_slot i s st)"
proof (rule update_ok [OF ok, where i = i and s = s])
  show "slot_ok (set_slot i s st) s" using s(3) by (simp add: slot_ok_def)
  show "(sl_ctx s = None \<or> sl_ctx s \<noteq> sl_ctx (slot_at st j)) \<and> (sl_thread s = 0 \<or> sl_thread s \<noteq> sl_thread (slot_at st j))"
    if "j < rn_count st" "j \<noteq> i" for j
    using apartD [OF runner_okD(3) [OF ok] i that(1)] that(2) s(1,2) by auto
  show "sl_ctx s = Some a \<or> (\<exists>j < rn_count st. j \<noteq> i \<and> sl_ctx (slot_at st j) = Some a)" if "rn_ctxs (set_slot i s st) a \<noteq> None" for a
    using ctx_owner [OF ok, of a i] that s(1) by auto
qed (use runner_okD(1) [OF ok] i quiet in \<open>auto simp: nth_list_update slot_ok_def\<close>)

text \<open>The end of a thread: its slot is finished, or it has lost its slot.\<close>

lemma thread_ends_ok:
  assumes ok: "runner_ok st" and run: "redp2p_runner_thread te t st = Some st'"
  shows "runner_ok st'" "rn_threads st' t = None" "rn_count st' = rn_count st"
    "j < rn_count st \<Longrightarrow> sl_ctx (slot_at st' j) = sl_ctx (slot_at st j) \<and> sl_thread (slot_at st' j) = sl_thread (slot_at st j)"
proof -
  have all: "runner_ok st' \<and> rn_threads st' t = None \<and> rn_count st' = rn_count st \<and>
    (\<forall>j < rn_count st. sl_ctx (slot_at st' j) = sl_ctx (slot_at st j) \<and> sl_thread (slot_at st' j) = sl_thread (slot_at st j))"
  proof (cases "rn_threads st t")
    case None
    then show ?thesis using assms by (simp add: redp2p_runner_thread_def)
  next
    case (Some th)
    have th: "thread_ok st t th" using ok Some by (simp add: runner_ok_def)
    obtain a ctx r ctx' st1 where a: "sl_ctx (th_slot th) = Some a" and c: "rn_ctxs st a = Some ctx"
      and op: "run_operation te (th_slot th) (if te_early te then ctx else ctx\<lparr>stop_requested := False\<rparr>) st = Some (r, ctx', st1)"
      and st': "st' = (let st1 = st1\<lparr>rn_ctxs := (rn_ctxs st1)(a \<mapsto> ctx'), rn_threads := (rn_threads st1)(t := None)\<rparr>
        in if th_block th = rn_block st1
           then set_slot (th_index th) ((slot_at st1 (th_index th))\<lparr>sl_result := r, sl_state := REDP2P_RUNNER_STATE_FINISHED\<rparr>) st1
           else st1\<lparr>rn_lost := True\<rparr>)"
      using run Some unfolding redp2p_runner_thread_def Let_def by (auto simp: bind_eq_Some_conv split: option.splits if_splits prod.splits)
    have tab: "rn_slots st1 = rn_slots st" "rn_count st1 = rn_count st" "rn_block st1 = rn_block st" "rn_ctxs st1 = rn_ctxs st"
      "rn_next_ctx st1 = rn_next_ctx st" "rn_threads st1 = rn_threads st" "rn_next_thread st1 = rn_next_thread st" "rn_lost st1 = rn_lost st"
      using run_operation_table [OF op] by (simp_all add: same_table_def)
    define k where "k = th_index th"
    define s where "s = (if th_block th = rn_block st
      then (slot_at st k)\<lparr>sl_result := r, sl_state := REDP2P_RUNNER_STATE_FINISHED\<rparr> else slot_at st k)"
    have k: "k < rn_count st" "sl_thread (slot_at st k) = t" "t \<noteq> 0" "sl_ctx (slot_at st k) = Some a"
      using th a by (auto simp: thread_ok_def k_def)
    have len: "rn_count st \<le> length (rn_slots st)" using ok by (simp add: runner_ok_def)
    have parts: "rn_count st' = rn_count st" "rn_block st' = rn_block st" "rn_ctxs st' = (rn_ctxs st)(a \<mapsto> ctx')"
      "rn_next_ctx st' = rn_next_ctx st" "rn_threads st' = (rn_threads st)(t := None)" "rn_next_thread st' = rn_next_thread st"
      "rn_lost st' = (rn_lost st \<or> th_block th \<noteq> rn_block st)" "length (rn_slots st') = length (rn_slots st)"
      by (auto simp: st' tab Let_def)
    have pos: "slot_at st' j = (if j = k then s else slot_at st j)" if "j < rn_count st" for j
      using that len by (simp add: st' tab s_def k_def nth_list_update Let_def)
    have s: "sl_ctx s = Some a" "sl_thread s = t" using k by (simp_all add: s_def)
    note own = apartD [OF runner_okD(3) [OF ok] k(1)]
    have "runner_ok st'"
    proof (rule update_ok [OF ok, where i = k and s = s])
      show "slot_ok st' s" using runner_okD(4) [OF ok k(1)] k by (auto simp: s_def slot_ok_def parts macros)
      show "(sl_ctx s = None \<or> sl_ctx s \<noteq> sl_ctx (slot_at st j)) \<and> (sl_thread s = 0 \<or> sl_thread s \<noteq> sl_thread (slot_at st j))"
        if "j < rn_count st" "j \<noteq> k" for j
        using own [OF that(1)] that(2) s k by auto
      show "slot_ok st' (slot_at st j)" if "j < rn_count st" "j \<noteq> k" "slot_ok st (slot_at st j)" for j
        using own(2) [OF that(1)] that(2,3) k by (auto simp: slot_ok_def parts)
      show "sl_ctx s = Some b \<or> (\<exists>j < rn_count st. j \<noteq> k \<and> sl_ctx (slot_at st j) = Some b)" if "rn_ctxs st' b \<noteq> None" for b
        using ctx_owner [OF ok, of b k] that s k by (cases "b = a") (auto simp: parts)
      show "th_index uh \<noteq> k \<and> rn_threads st u = Some uh \<or> th_index uh = k \<and> thread_ok st' u uh" if "rn_threads st' u = Some uh" for u uh
      proof -
        have u: "rn_threads st u = Some uh" "u \<noteq> t" using that by (auto simp: parts split: if_splits)
        then show ?thesis using runner_okD(6) [OF ok u(1)] k(2) by (auto simp: thread_ok_def)
      qed
    qed (use k len pos in \<open>auto simp: parts\<close>)
    then show ?thesis using pos s k by (auto simp: parts)
  qed
  then show "runner_ok st'" "rn_threads st' t = None" "rn_count st' = rn_count st"
    "j < rn_count st \<Longrightarrow> sl_ctx (slot_at st' j) = sl_ctx (slot_at st j) \<and> sl_thread (slot_at st' j) = sl_thread (slot_at st j)" by auto
qed

lemma join_ok:
  assumes ok: "runner_ok st" and run: "redp2p_runner_thread_join te i st = Some st'" and i: "i < rn_count st"
  shows "runner_ok st'" "rn_count st' = rn_count st" "sl_thread (slot_at st' i) = 0" "rn_threads st' t = Some th \<Longrightarrow> th_index th \<noteq> i"
    "j < rn_count st \<Longrightarrow> sl_ctx (slot_at st' j) = sl_ctx (slot_at st j)"
proof -
  have quiet: "th_index th \<noteq> i" if "runner_ok s" "sl_thread (slot_at s i) = 0 \<or> rn_threads s (sl_thread (slot_at s i)) = None"
      "rn_threads s t = Some th" for s t th
    using runner_okD(6) [OF that(1,3)] that(2,3) by (auto simp: thread_ok_def)
  have all: "runner_ok st' \<and> rn_count st' = rn_count st \<and> sl_thread (slot_at st' i) = 0 \<and>
    (\<forall>j < rn_count st. sl_ctx (slot_at st' j) = sl_ctx (slot_at st j))"
  proof (cases "sl_thread (slot_at st i) = 0")
    case True
    then show ?thesis using assms by (simp add: redp2p_runner_thread_join_def)
  next
    case False
    obtain st1 where 1: "redp2p_runner_thread te (sl_thread (slot_at st i)) st = Some st1"
      "st' = set_slot i ((slot_at st1 i)\<lparr>sl_thread := 0\<rparr>) st1"
      using run False by (auto simp: redp2p_runner_thread_join_def)
    note e = thread_ends_ok [OF ok 1(1)]
    have i1: "i < rn_count st1" "i < length (rn_slots st1)" using e(1,3) i by (auto simp: runner_ok_def)
    have "rn_threads st1 (sl_thread (slot_at st1 i)) = None" using e(2) e(4) [OF i] by simp
    moreover have "rn_threads st1 0 = None"
      using runner_okD(6) [OF e(1), of 0] by (cases "rn_threads st1 0") (auto simp: thread_ok_def)
    moreover have "slot_ok st1 (slot_at st1 i)" using e(1) i1 by (simp add: runner_ok_def)
    moreover have "0 < rn_next_thread st1" using e(1) by (simp add: runner_ok_def)
    ultimately have "runner_ok st'"
      unfolding 1(2) by (intro slot_update_ok [OF e(1) i1(1)] quiet [OF e(1)]) (auto simp: slot_ok_def)
    then show ?thesis using e i1 by (auto simp: 1(2) nth_list_update)
  qed
  then show "runner_ok st'" "rn_count st' = rn_count st" "sl_thread (slot_at st' i) = 0"
    "j < rn_count st \<Longrightarrow> sl_ctx (slot_at st' j) = sl_ctx (slot_at st j)" by auto
  with quiet show "rn_threads st' t = Some th \<Longrightarrow> th_index th \<noteq> i" by blast
qed

lemma stop_running_table:
  "rn_slots (stop_running i st) = rn_slots st" "rn_count (stop_running i st) = rn_count st" "rn_block (stop_running i st) = rn_block st"
  "rn_next_ctx (stop_running i st) = rn_next_ctx st" "rn_threads (stop_running i st) = rn_threads st"
  "rn_next_thread (stop_running i st) = rn_next_thread st" "rn_lost (stop_running i st) = rn_lost st"
  "(rn_ctxs (stop_running i st) a = None) = (rn_ctxs st a = None)"
  by (auto simp: stop_running_def split: option.splits)

lemma stop_running_ok: "runner_ok st \<Longrightarrow> runner_ok (stop_running i st)"
  by (simp add: runner_ok_def slot_ok_def thread_ok_def apart_def stop_running_table)

lemma release_slot_ok:
  assumes ok: "runner_ok st" and i: "i < rn_count st" and t: "sl_thread (slot_at st i) = 0"
  shows "runner_ok (release_slot i st)"
proof -
  define c where "c = sl_ctx (slot_at st i)"
  let ?st = "release_slot i st" and ?s = "(slot_at st i)\<lparr>sl_ctx := None, sl_state := REDP2P_RUNNER_STATE_FREE\<rparr>"
  have len: "rn_count st \<le> length (rn_slots st)" using ok by (simp add: runner_ok_def)
  have parts: "rn_count ?st = rn_count st" "rn_block ?st = rn_block st" "rn_next_ctx ?st = rn_next_ctx st"
    "rn_ctxs ?st = (\<lambda>a. if c = Some a then None else rn_ctxs st a)" "rn_threads ?st = rn_threads st"
    "rn_next_thread ?st = rn_next_thread st" "rn_lost ?st = rn_lost st" "length (rn_slots ?st) = length (rn_slots st)"
    by (auto simp: release_slot_def Let_def c_def fun_eq_iff split: option.splits)
  have pos: "slot_at ?st j = (if j = i then ?s else slot_at st j)" if "j < rn_count st" for j
    using that len by (auto simp: release_slot_def Let_def nth_list_update split: option.splits)
  note own = apartD [OF runner_okD(3) [OF ok] i]
  show ?thesis
  proof (rule update_ok [OF ok, where i = i and s = ?s])
    show "slot_ok ?st ?s" using t runner_okD(2) [OF ok] by (simp add: slot_ok_def parts macros)
    show "slot_ok ?st (slot_at st j)" if "j < rn_count st" "j \<noteq> i" "slot_ok st (slot_at st j)" for j
      using own(1) [OF that(1)] that(2,3) by (auto simp: slot_ok_def parts c_def)
    show "sl_ctx ?s = Some a \<or> (\<exists>j < rn_count st. j \<noteq> i \<and> sl_ctx (slot_at st j) = Some a)" if "rn_ctxs ?st a \<noteq> None" for a
      using ctx_owner [OF ok, of a i] that by (auto simp: parts c_def split: if_splits)
    show "th_index th \<noteq> i \<and> rn_threads st u = Some th \<or> th_index th = i \<and> thread_ok ?st u th" if "rn_threads ?st u = Some th" for u th
      using runner_okD(6) [OF ok, of u th] that t by (auto simp: parts thread_ok_def)
  qed (use i len pos t in \<open>auto simp: parts\<close>)
qed

lemma handle_slot_count: "handle_slot obj st = Some (h, i) \<Longrightarrow> i < rn_count st"
  by (auto simp: handle_slot_def kc_redp2p_runner_slot_get_def split: option.splits JSON_Value.splits if_splits)

lemma stop_ok:
  assumes "runner_ok st" "redp2p_runner_stop env obj st = Some (r, st')"
  shows "runner_ok st'"
proof (cases "handle_slot obj st")
  case (Some hi)
  obtain h i where hi: "hi = (h, i)" by fastforce
  have i: "i < rn_count (stop_running i st)" using handle_slot_count Some by (simp add: hi stop_running_table)
  obtain st1 where 1: "redp2p_runner_thread_join (re_join env) i (stop_running i st) = Some st1"
    "st' = set_slot i ((slot_at st1 i)\<lparr>sl_state := REDP2P_RUNNER_STATE_FINISHED\<rparr>) st1"
    using assms(2) Some by (auto simp: redp2p_runner_stop_def hi)
  note j = join_ok [OF stop_running_ok [OF assms(1)] 1(1) i]
  have "slot_ok st1 (slot_at st1 i)" using j(1,2) i by (simp add: runner_ok_def)
  then show ?thesis unfolding 1(2)
    by (intro slot_update_ok [OF j(1)] j(4)) (use i j(2,3) in \<open>auto simp: slot_ok_def macros\<close>)
qed (use assms in \<open>simp add: redp2p_runner_stop_def\<close>)

lemma close_ok:
  assumes "runner_ok st" "redp2p_runner_close env obj st = Some (r, st')"
  shows "runner_ok st'"
proof (cases "handle_slot obj st")
  case (Some hi)
  obtain h i where hi: "hi = (h, i)" by fastforce
  have i: "i < rn_count (stop_running i st)" using handle_slot_count Some by (simp add: hi stop_running_table)
  obtain st1 where 1: "redp2p_runner_thread_join (re_join env) i (stop_running i st) = Some st1" "st' = release_slot i st1"
    using assms(2) Some by (auto simp: redp2p_runner_close_def hi)
  note j = join_ok [OF stop_running_ok [OF assms(1)] 1(1) i]
  show ?thesis unfolding 1(2) by (rule release_slot_ok [OF j(1)]) (use i j(2,3) in auto)
qed (use assms in \<open>simp add: redp2p_runner_close_def\<close>)

lemma run_ok:
  assumes "runner_ok st" "kc_redp2p_run env payload st = Some (r, st')"
  shows "runner_ok st'"
proof -
  have cmd: "runner_ok st1" if "run_command env cmd args st = Some (x, st1)" for cmd args x st1
    using that assms(1) open_ok [OF assms(1)] stop_ok [OF assms(1)] close_ok [OF assms(1)]
      same_table_ok [OF one_shot_table(1)] same_table_ok [OF one_shot_table(2)]
    by (auto simp: run_command_def split: if_splits) (metis prod.collapse snd_conv)+
  show ?thesis using assms cmd by (auto simp: kc_redp2p_run_def split: option.splits)
qed

interpretation history: kept_by_steps runner_step runner_ok
proof unfold_locales
  fix a st st'
  assume ok: "runner_ok st" and "runner_step a st = Some st'"
  then show "runner_ok st'" using run_ok [OF ok] thread_ends_ok(1) [OF ok] by (cases a) auto
qed

lemmas runner_run_ok = history.run_keeps

end
