(* ===== verification/Runner_Behaviour.thy ===== *)
theory Runner_Behaviour
  imports Runner_Safety
begin

text \<open>
  What a caller of the runner can rely on: what its handles own after any history, that a stop returns,
  that addresses are read back, and which results are lost when the table of slots moves.
\<close>

section \<open>Addresses\<close>

lemma split_at_first: "c \<notin> set b \<Longrightarrow> takeWhile (\<lambda>x. x \<noteq> c) (b @ c # a) = b \<and> dropWhile (\<lambda>x. x \<noteq> c) (b @ c # a) = c # a"
  by (induction b) auto

lemma split_last_append: "c \<notin> set b \<Longrightarrow> split_last c (a @ c # b) = Some (a, b)"
  using split_at_first [of c "rev b" "rev a"] by (simp add: split_last_def)

lemma split_last_absent: "c \<notin> set t \<Longrightarrow> split_last c t = None"
proof -
  assume "c \<notin> set t"
  then have none: "dropWhile (\<lambda>x. x \<noteq> c) (rev t) = []" by (auto simp: dropWhile_eq_Nil_conv)
  show ?thesis unfolding split_last_def none by simp
qed

text \<open>
  An identifier and the address of an index, with or without a port, are read back from the text
  that joins them; the default port stands for a missing one.
\<close>

theorem runner_addr_roundtrip:
  assumes "ident \<noteq> []" "length ident < hn_sz" "CHR ''@'' \<notin> set host" "CHR '':'' \<notin> set host" "host \<noteq> []" "length host < ia_sz"
    "0 < port" "port \<le> 65535"
  shows "redp2p_runner_parse_addr (ident @ ''@'' @ host @ '':'' @ dec_text port) hn_sz ia_sz = Some (ident, host, word_of_nat port) \<and>
    redp2p_runner_parse_addr (ident @ ''@'' @ host) hn_sz ia_sz = Some (ident, host, REDP2P_PORT_DEFAULT)"
proof -
  have plain: "CHR ''@'' \<notin> set (dec_text port)" "CHR '':'' \<notin> set (dec_text port)"
    by (rule dec_text_no, simp add: between_def)+
  have at1: "split_last (CHR ''@'') (ident @ ''@'' @ host @ '':'' @ dec_text port) = Some (ident, host @ '':'' @ dec_text port)"
    using assms(3) plain by (simp add: split_last_append)
  have colon: "split_last (CHR '':'') (host @ '':'' @ dec_text port) = Some (host, dec_text port)"
    using plain by (simp add: split_last_append)
  have at2: "split_last (CHR ''@'') (ident @ ''@'' @ host) = Some (ident, host)" using assms(3) by (simp add: split_last_append)
  have nocolon: "split_last (CHR '':'') host = None" using assms(4) by (rule split_last_absent)
  have num: "redp2p_parse_u (Some (dec_text port)) REDP2P_PORT_MIN REDP2P_PORT_MAX = Some (int port)"
    using assms(7,8) dec_text_digits [of port]
    by (subst redp2p_parse_u_exact) (simp_all add: dec_from_text REDP2P_PORT_MIN_def REDP2P_PORT_MAX_def)
  show ?thesis
    using assms by (simp add: redp2p_runner_parse_addr_def at1 colon at2 nocolon num Let_def del: append_Cons)
qed

section \<open>What the handles own\<close>

text \<open>
  C11: Whatever commands a caller gives, in whatever order, well-formed or not, and whenever threads
  end: no context is leaked and none is shared, for the contexts in memory are exactly those of the
  slots, one each; every thread that runs is recorded in the one slot that is running it, whose
  context is alive; and as long as the table has not been moved under a thread, a slot that says it
  is running has a thread that is.
\<close>

theorem runner_resources:
  assumes "runner_run as (first_runner fs) = Some st"
  shows "(\<forall>a. rn_ctxs st a \<noteq> None \<longleftrightarrow> (\<exists>i < rn_count st. sl_ctx (slot_at st i) = Some a)) \<and>
    (\<forall>i < rn_count st. \<forall>j < rn_count st. i \<noteq> j \<longrightarrow> sl_ctx (slot_at st i) = None \<or> sl_ctx (slot_at st i) \<noteq> sl_ctx (slot_at st j)) \<and>
    (\<forall>t th. rn_threads st t = Some th \<longrightarrow> th_index th < rn_count st \<and> sl_thread (slot_at st (th_index th)) = t \<and>
       sl_state (slot_at st (th_index th)) = REDP2P_RUNNER_STATE_RUNNING \<and>
       sl_ctx (slot_at st (th_index th)) = sl_ctx (th_slot th) \<and> sl_ctx (th_slot th) \<noteq> None) \<and>
    (\<forall>i < rn_count st. sl_state (slot_at st i) = REDP2P_RUNNER_STATE_RUNNING \<and> \<not> rn_lost st \<longrightarrow>
       rn_threads st (sl_thread (slot_at st i)) \<noteq> None)"
proof (intro conjI allI impI)
  have ok: "runner_ok st" using runner_run_ok [OF first_runner_ok assms] .
  note D = runner_okD [OF ok]
  show "rn_ctxs st a \<noteq> None \<longleftrightarrow> (\<exists>i < rn_count st. sl_ctx (slot_at st i) = Some a)" for a
    using D(4,5) by (auto simp: slot_ok_def)
  show "sl_ctx (slot_at st i) = None \<or> sl_ctx (slot_at st i) \<noteq> sl_ctx (slot_at st j)"
    if "i < rn_count st" "j < rn_count st" "i \<noteq> j" for i j
    using apartD(1) [OF D(3) that] .
  show "rn_threads st (sl_thread (slot_at st i)) \<noteq> None"
    if "i < rn_count st" "sl_state (slot_at st i) = REDP2P_RUNNER_STATE_RUNNING \<and> \<not> rn_lost st" for i
    using D(4) [OF that(1)] that(2) by (auto simp: slot_ok_def)
qed (use runner_okD(6) [OF runner_run_ok [OF first_runner_ok assms]] in \<open>auto simp: thread_ok_def\<close>)

section \<open>Stopping\<close>

lemma stopped_at_start:
  assumes "stop_requested ctx"
  shows "run_operation te s ctx st \<noteq> None"
  using assms
  by (auto simp: run_operation_def Let_def redp2p_wait_def redp2p_connect_def redp2p_consumer_runtime_init_def redp2p_serve_index_def
      clear_error_def redp2p_set_error_def split: prod.split)

lemma wait_with_stop:
  assumes "tn_stop tn"
  shows "\<exists>r w'. redp2p_wait env (before @ tn # after) host iport ident port w = (Some r, w')"
proof -
  have e: "redp2p_publisher_event_loop env (before @ tn # after) = redp2p_publisher_event_loop env (before @ [tn])"
    using stop_event_loop [OF assms] by (intro ext) blast
  have "redp2p_wait env (before @ tn # after) host iport ident port w = redp2p_wait env (before @ [tn]) host iport ident port w"
    unfolding redp2p_wait_def e by (rule refl)
  then show ?thesis using stop_returns [OF assms] by simp
qed

lemma connect_with_stop:
  assumes "tn_stop tn"
  shows "\<exists>r w'. redp2p_connect env (before @ tn # after) host iport self target port w = (Some r, w')"
proof -
  have e: "redp2p_consumer_loop env (before @ tn # after) = redp2p_consumer_loop env (before @ [tn])"
    using consumer_stop_loop [OF assms] by (intro ext) blast
  have "redp2p_connect env (before @ tn # after) host iport self target port w =
      redp2p_connect env (before @ [tn]) host iport self target port w"
    unfolding redp2p_connect_def e by (rule refl)
  then show ?thesis using connect_returns [OF assms] by simp
qed

lemma stopped_by_turn:
  assumes "sl_op s = REDP2P_RUNNER_OP_PUB \<or> sl_op s = REDP2P_RUNNER_OP_CON" "\<exists>tn \<in> set (te_turns te). tn_stop tn"
  shows "run_operation te s ctx st \<noteq> None"
proof -
  obtain before tn after where t: "te_turns te = before @ tn # after" "tn_stop tn" using assms(2) by (meson split_list)
  let ?w = "\<lparr>pw_ctx = ctx, pw_log = rn_log st, pw_fs = rn_fs st\<rparr>"
  obtain r w r' w' where
    "redp2p_wait (te_peer te) (te_turns te) (Some (sl_index_host s)) (sl_index_port s) (Some (sl_self_id s)) (sl_bind_port s) ?w = (Some r, w)"
    "redp2p_connect (te_peer te) (te_turns te) (Some (sl_index_host s)) (sl_index_port s) (Some (sl_self_id s)) (Some (sl_target_id s))
      (sl_bind_port s) ?w = (Some r', w')"
    using wait_with_stop [OF t(2)] connect_with_stop [OF t(2)] unfolding t(1) by metis
  then show ?thesis using assms(1) by (auto simp: run_operation_def Let_def)
qed

text \<open>A thread whose operation ends is gone afterwards.\<close>

lemma thread_ends:
  assumes "runner_ok st" "rn_threads st t = Some th"
    "\<And>ctx. rn_ctxs st (the (sl_ctx (th_slot th))) = Some ctx \<Longrightarrow>
      run_operation te (th_slot th) (if te_early te then ctx else ctx\<lparr>stop_requested := False\<rparr>) st \<noteq> None"
  shows "redp2p_runner_thread te t st \<noteq> None"
proof -
  have th: "thread_ok st t th" using runner_okD(6) [OF assms(1,2)] .
  then obtain a where a: "sl_ctx (th_slot th) = Some a" "sl_ctx (slot_at st (th_index th)) = Some a" by (auto simp: thread_ok_def)
  then obtain ctx where c: "rn_ctxs st a = Some ctx"
    using runner_okD(4) [OF assms(1), of "th_index th"] th by (auto simp: slot_ok_def thread_ok_def)
  obtain r ctx' st1 where "run_operation te (th_slot th) (if te_early te then ctx else ctx\<lparr>stop_requested := False\<rparr>) st = Some (r, ctx', st1)"
    using assms(3) [of ctx] a c by auto
  then show ?thesis using a c assms(2) by (simp add: redp2p_runner_thread_def Let_def)
qed

text \<open>A stop of a handle whose thread will see it.\<close>

lemma stop_ends_thread:
  assumes "runner_ok st" "handle_slot obj st = Some (h, i)"
    "rn_threads st (sl_thread (slot_at st i)) = Some th"
    "te_early (re_join env) \<or>
     (sl_op (th_slot th) = REDP2P_RUNNER_OP_PUB \<or> sl_op (th_slot th) = REDP2P_RUNNER_OP_CON) \<and> (\<exists>tn \<in> set (te_turns (re_join env)). tn_stop tn)"
  shows "\<exists>r st'. redp2p_runner_stop env obj st = Some (r, st') \<and> rn_threads st' (sl_thread (slot_at st i)) = None \<and>
    sl_state (slot_at st' i) = REDP2P_RUNNER_STATE_FINISHED \<and> sl_thread (slot_at st' i) = 0"
proof -
  let ?t = "sl_thread (slot_at st i)" and ?st = "stop_running i st"
  note ok = assms(1)
  have ok': "runner_ok ?st" using stop_running_ok [OF ok] .
  have i: "i < rn_count st" using handle_slot_count [OF assms(2)] .
  have th: "thread_ok st ?t th" using runner_okD(6) [OF ok assms(3)] .
  have "th_index th = i"
    using apartD(2) [OF runner_okD(3) [OF ok] i, of "th_index th"] th by (cases "th_index th = i") (auto simp: thread_ok_def)
  then have slot: "sl_state (slot_at st i) = REDP2P_RUNNER_STATE_RUNNING" "?t \<noteq> 0" "sl_ctx (slot_at st i) = sl_ctx (th_slot th)"
    "sl_ctx (th_slot th) \<noteq> None" using th by (auto simp: thread_ok_def)
  have "redp2p_runner_thread (re_join env) ?t ?st \<noteq> None"
  proof (rule thread_ends [OF ok'])
    show "rn_threads ?st ?t = Some th" using assms(3) by (simp add: stop_running_table)
    fix ctx assume "rn_ctxs ?st (the (sl_ctx (th_slot th))) = Some ctx"
    then have "stop_requested ctx" using slot by (auto simp: stop_running_def redp2p_stop_def)
    then show "run_operation (re_join env) (th_slot th) (if te_early (re_join env) then ctx else ctx\<lparr>stop_requested := False\<rparr>) ?st \<noteq> None"
      using assms(4) stopped_at_start stopped_by_turn by metis
  qed
  then obtain st1 where 1: "redp2p_runner_thread (re_join env) ?t ?st = Some st1" by blast
  note e = thread_ends_ok [OF ok' 1]
  have "i < length (rn_slots st1)" using runner_okD(1) [OF e(1)] e(3) i by (simp add: stop_running_table)
  then show ?thesis
    using 1 e(2) slot(2) assms(2) by (simp add: redp2p_runner_stop_def redp2p_runner_thread_join_def stop_running_table)
qed

text \<open>
  C16: Stopping a publisher or a consumer through its handle returns, in every state the commands lead
  to: when the thread sees the request at its start, or when some iteration of its loop does, the
  command comes back, the thread has ended and its slot says so.
\<close>

theorem runner_stop_returns:
  assumes "runner_run as (first_runner fs) = Some st" "handle_slot obj st = Some (h, i)"
    "rn_threads st (sl_thread (slot_at st i)) = Some th"
    "te_early (re_join env) \<or>
     (sl_op (th_slot th) = REDP2P_RUNNER_OP_PUB \<or> sl_op (th_slot th) = REDP2P_RUNNER_OP_CON) \<and> (\<exists>tn \<in> set (te_turns (re_join env)). tn_stop tn)"
  shows "\<exists>r st'. redp2p_runner_stop env obj st = Some (r, st') \<and> rn_threads st' (sl_thread (slot_at st i)) = None \<and>
    sl_state (slot_at st' i) = REDP2P_RUNNER_STATE_FINISHED \<and> sl_thread (slot_at st' i) = 0"
  by (rule stop_ends_thread [OF runner_run_ok [OF first_runner_ok assms(1)] assms(2-4)])

section \<open>A table that moves\<close>

lemma moved_block:
  assumes "kc_redp2p_runner_slot_alloc env st = (Some h, st')" "rn_count st = length (rn_slots st)" "re_realloc env = Some True"
    "\<forall>i < rn_count st. sl_state (slot_at st i) \<noteq> REDP2P_RUNNER_STATE_FREE"
  shows "rn_block st' = rn_block st + 1"
proof -
  have "first_index (\<lambda>s. sl_state s = REDP2P_RUNNER_STATE_FREE) (take (rn_count st) (rn_slots st)) = None"
    using assms(2,4) by (auto simp: first_index_None in_set_conv_nth)
  then show ?thesis
    using assms(1-3) by (auto simp: kc_redp2p_runner_slot_alloc_def grow_table_def Let_def split: if_splits)
qed

text \<open>
  C40: When opening an operation makes the table move, the operations that run lose their slots:
  after a thread that was running has ended, whatever its result, its slot still says that it is
  running, a status command on its handle says so for ever, and a stop reports the result 0; the
  thread has stored into memory that was released.
\<close>

theorem moved_table_loses_results:
  assumes "runner_run as (first_runner fs) = Some st" "rn_count st = length (rn_slots st)"
    "\<forall>i < rn_count st. sl_state (slot_at st i) \<noteq> REDP2P_RUNNER_STATE_FREE" "re_realloc env = Some True"
    "redp2p_runner_open env obj st = (Some reply, st1)" "rn_threads st t = Some th" "redp2p_runner_thread te t st1 = Some st2"
  shows "rn_lost st2 \<and> rn_threads st2 t = None \<and> sl_state (slot_at st2 (th_index th)) = REDP2P_RUNNER_STATE_RUNNING \<and>
    (\<forall>env' obj' h. handle_slot obj' st2 = Some (h, th_index th) \<longrightarrow>
      redp2p_runner_status (re_libc env') obj' st2 =
        redp2p_run_wrap (re_libc env') (json_object_set_string (json_object_set_string [] ''error'' (slot_error st2 (slot_at st2 (th_index th))))
          ''state'' ''running'') h \<and>
      (\<exists>r st3. redp2p_runner_stop env' obj' st2 = Some (r, st3) \<and>
        sl_state (slot_at st3 (th_index th)) = REDP2P_RUNNER_STATE_FINISHED \<and> sl_result (slot_at st3 (th_index th)) = 0))"
proof -
  let ?k = "th_index th"
  have ok: "runner_ok st" using runner_run_ok [OF first_runner_ok assms(1)] .
  have th: "thread_ok st t th" using runner_okD(6) [OF ok assms(6)] .
  then have k: "?k < rn_count st" "sl_thread (slot_at st ?k) = t" "t \<noteq> 0" "sl_state (slot_at st ?k) = REDP2P_RUNNER_STATE_RUNNING"
    by (auto simp: thread_ok_def)
  have s: "slot_ok st (slot_at st ?k)" using runner_okD(4) [OF ok k(1)] .
  obtain i sl stA ctx where o: "claimed i st stA" "st1 = redp2p_runner_thread_start i sl ctx stA"
    "kc_redp2p_runner_slot_alloc env st = (Some (i + 1), stA)"
    using open_cases [OF assms(5) runner_okD(1) [OF ok]] by (metis option.distinct(1))
  have "rn_block stA = rn_block st + 1" using moved_block [OF o(3) assms(2,4,3)] .
  then have block: "th_block th \<noteq> rn_block st1"
    using th by (simp add: o(2) redp2p_runner_thread_start_def Let_def thread_ok_def)
  have "t < rn_next_thread st" using s k(2) by (simp add: slot_ok_def)
  then have t1: "rn_threads st1 t = Some th"
    using o(1) assms(6) by (simp add: o(2) redp2p_runner_thread_start_def Let_def claimed_def)
  have slot1: "slot_at st1 ?k = slot_at st ?k" "?k < length (rn_slots st1)"
    using o(1) claimed_thread [OF ok o(1) assms(6)] by (auto simp: o(2) redp2p_runner_thread_start_def Let_def claimed_def)
  have 2: "rn_lost st2" "rn_threads st2 t = None" "rn_slots st2 = rn_slots st1"
    using assms(7) t1 block run_operation_table
    by (auto simp: redp2p_runner_thread_def Let_def same_table_def bind_eq_Some_conv split: option.splits prod.splits)
  have slot2: "slot_at st2 ?k = slot_at st ?k" "sl_result (slot_at st ?k) = 0" using slot1 2(3) s k(4) by (simp_all add: slot_ok_def)
  have "redp2p_runner_thread te' t st2 = Some st2" for te' using 2(2) by (simp add: redp2p_runner_thread_def)
  moreover have "redp2p_runner_thread te' t (stop_running ?k st2) = Some (stop_running ?k st2)" for te'
    using 2(2) by (simp add: redp2p_runner_thread_def stop_running_table)
  ultimately show ?thesis
    using 2 slot2 k slot1(2)
    by (auto simp: redp2p_runner_status_def redp2p_runner_stop_def redp2p_runner_thread_join_def stop_running_table)
qed

section \<open>Examples\<close>

definition demo_open_args :: JSON_Object where
  "demo_open_args = [(''op'', JSONString ''idx''), (''port'', JSONNumber 7777)]"

definition demo_open :: string where
  "demo_open = ser demo_libc (JSONObject [(''cmd'', JSONString ''open''), (''args'', JSONObject demo_open_args)])"

definition demo_thread :: "bool \<Rightarrow> thread_env" where
  "demo_thread up = \<lparr>te_peer = demo_peer_env None, te_turns = [demo_turn True], te_listen = demo_listen\<lparr>ls_platform := up\<rparr>,
     te_servers = [], te_early = False\<rparr>"

definition demo_runner_env :: runner_env where
  "demo_runner_env = \<lparr>re_libc = demo_libc, re_getenv = (\<lambda>_. None), re_calloc = True, re_realloc = Some True, re_create = True,
     re_alloc = (\<lambda>_. True), re_version = 1, re_peer = demo_peer_env None, re_join = demo_thread True\<rparr>"

lemma demo_runner_env_simps [simp]:
  "re_libc demo_runner_env = demo_libc" "re_create demo_runner_env" "re_realloc demo_runner_env = Some True"
  by (simp_all add: demo_runner_env_def)

lemma run_wrap_Some: "\<exists>t. redp2p_run_wrap libc v h = Some t"
  by (simp add: redp2p_run_wrap_def json_serialize_to_string_def json_serialize_to_buffer_def json_serialization_size_def Let_def)

lemma demo_open_parse:
  "json_parse_string demo_libc demo_open = Some (JSONObject [(''cmd'', JSONString ''open''), (''args'', JSONObject demo_open_args)])"
proof -
  have "number_ok demo_libc 7777" using demo_number_ok [of 7777] by simp
  then have "json_ok demo_libc 0 (JSONObject [(''cmd'', JSONString ''open''), (''args'', JSONObject demo_open_args)])"
    by (simp add: demo_open_args_def MAX_NESTING_def NUL_def)
  then show ?thesis unfolding demo_open_def by (rule parse_text_serialized)
qed

lemma demo_command:
  "kc_redp2p_run demo_runner_env (Some demo_open) st =
     (case redp2p_runner_open demo_runner_env demo_open_args st of
        (r, st) \<Rightarrow> Some (case r of None \<Rightarrow> Inl ''unknown command or invalid arguments'' | Some t \<Rightarrow> Inr t, st))"
  by (simp add: kc_redp2p_run_def demo_runner_env_def demo_open_parse json_object_get_object_def json_object_get_string_def
      json_object_get_value_def run_command_def c_str_def NUL_def split: prod.split)

lemma demo_configured:
  "\<exists>s' ctx. configure demo_runner_env ''idx'' h demo_open_args s = Some (s', ctx) \<and> sl_op s' = REDP2P_RUNNER_OP_IDX \<and> sl_port s' = 7777"
  by (simp add: configure_def open_context_def demo_runner_env_def demo_open_args_def json_object_get_string_def json_object_get_value_def
      redp2p_open_def open_idx_def setup_pass_def setup_seats_def setup_pow_def redp2p_runner_port_def c_long_def redp2p_set_vip_def
      clear_vips_def succeeded_def c_str_def NUL_def macros)

text \<open>The state after a number of operations have been opened, none of which has ended.\<close>

definition opened_runner :: "nat \<Rightarrow> nat \<Rightarrow> runner \<Rightarrow> bool" where
  "opened_runner n cap st \<longleftrightarrow>
     rn_count st = n \<and> length (rn_slots st) = cap \<and> n \<le> cap \<and> rn_next_thread st = n + 1 \<and>
     (\<forall>i < n. sl_state (slot_at st i) = REDP2P_RUNNER_STATE_RUNNING) \<and>
     (0 < n \<longrightarrow> (\<exists>th. rn_threads st 1 = Some th \<and> th_index th = 0 \<and> sl_op (th_slot th) = REDP2P_RUNNER_OP_IDX \<and> sl_port (th_slot th) = 7777))"

lemma demo_open_step:
  assumes "opened_runner n cap st" "n < cap \<or> n = cap \<and> cap' = (if cap = 0 then 8 else 2 * cap)" "n < cap \<Longrightarrow> cap' = cap"
  shows "\<exists>reply st'. redp2p_runner_open demo_runner_env demo_open_args st = (Some reply, st') \<and>
    runner_step (Command demo_runner_env (Some demo_open)) st = Some st' \<and> opened_runner (n + 1) cap' st'"
proof -
  have st: "rn_count st = n" "length (rn_slots st) = cap" "n \<le> cap" "\<And>i. i < n \<Longrightarrow> sl_state (slot_at st i) = REDP2P_RUNNER_STATE_RUNNING"
    using assms(1) by (auto simp: opened_runner_def)
  have busy: "first_index (\<lambda>s. sl_state s = REDP2P_RUNNER_STATE_FREE) (take (rn_count st) (rn_slots st)) = None"
    using st by (auto simp: first_index_None in_set_conv_nth macros)
  obtain st0 where 0: "(if rn_count st \<ge> length (rn_slots st) then grow_table demo_runner_env st else Some st) = Some st0"
    by (cases "rn_count st \<ge> length (rn_slots st)") (auto simp: grow_table_def demo_runner_env_def Let_def)
  have len: "length (rn_slots st0) = cap'" "rn_count st0 = n"
    using 0 assms(2,3) st by (auto simp: grow_table_def demo_runner_env_def Let_def split: if_splits)
  obtain st1 where alloc: "kc_redp2p_runner_slot_alloc demo_runner_env st = (Some (n + 1), st1)" "length (rn_slots st1) = cap'"
    using busy 0 len by (simp add: kc_redp2p_runner_slot_alloc_def Let_def)
  have c: "claimed n st st1" using slot_alloc_claimed [OF alloc(1)] st by simp
  let ?s = "zero_slot\<lparr>sl_state := REDP2P_RUNNER_STATE_RUNNING\<rparr>"
  obtain s ctx where s: "configure demo_runner_env ''idx'' (n + 1) demo_open_args ?s = Some (s, ctx)" "sl_op s = REDP2P_RUNNER_OP_IDX"
    "sl_port s = 7777"
    using demo_configured by blast
  have run: "sl_state s = REDP2P_RUNNER_STATE_RUNNING" using configured_state [OF s(1)] by simp
  obtain reply where o: "redp2p_runner_open demo_runner_env demo_open_args st = (Some reply, redp2p_runner_thread_start n s ctx st1)"
    using alloc s(1) run_wrap_Some [of demo_libc "json_object_set_number [] ''handle'' (1 + rat_of_nat n)" "1 + int n"]
    by (auto simp: redp2p_runner_open_def launch_def demo_open_args_def json_object_get_string_def json_object_get_value_def c_str_def NUL_def)
  have "opened_runner (n + 1) cap' (redp2p_runner_thread_start n s ctx st1)"
    using c assms(1) alloc(2) run s(2,3)
    by (auto simp: opened_runner_def redp2p_runner_thread_start_def Let_def claimed_def nth_list_update less_Suc_eq)
  then show ?thesis using o by (simp add: demo_command)
qed

lemma demo_open_steps:
  assumes "n \<le> 8" "0 < n"
  shows "\<exists>st. runner_run (replicate n (Command demo_runner_env (Some demo_open))) (first_runner (\<lambda>_. None)) = Some st \<and> opened_runner n 8 st"
proof -
  have more: "runner_run (as @ bs) st = Option.bind (runner_run as st) (runner_run bs)" for as bs st
    by (induction as arbitrary: st) (auto split: bind_split)
  have first: "opened_runner 0 0 (first_runner (\<lambda>_. None))" by (simp add: opened_runner_def first_runner_def)
  show ?thesis
    using assms
  proof (induction n)
    case (Suc n)
    show ?case
    proof (cases "n = 0")
      case True
      then show ?thesis using demo_open_step [OF first, of 8] by auto
    next
      case False
      then obtain st where st: "runner_run (replicate n (Command demo_runner_env (Some demo_open))) (first_runner (\<lambda>_. None)) = Some st"
        "opened_runner n 8 st" using Suc by auto
      then obtain st' where "runner_step (Command demo_runner_env (Some demo_open)) st = Some st'" "opened_runner (n + 1) 8 st'"
        using demo_open_step [OF st(2), of 8] Suc.prems by auto
      then show ?thesis using st(1) by (simp only: replicate_append_same [symmetric] replicate_Suc more) (simp del: runner_step.simps)
    qed
  qed simp
qed

theorem runner_resources_witness:
  "\<exists>st. runner_run (replicate 2 (Command demo_runner_env (Some demo_open))) (first_runner (\<lambda>_. None)) = Some st \<and> rn_count st = 2 \<and>
    sl_ctx (slot_at st 0) \<noteq> sl_ctx (slot_at st 1) \<and> rn_threads st (sl_thread (slot_at st 0)) \<noteq> None"
proof -
  obtain st where run: "runner_run (replicate 2 (Command demo_runner_env (Some demo_open))) (first_runner (\<lambda>_. None)) = Some st"
    and st: "opened_runner 2 8 st" using demo_open_steps [of 2] by auto
  obtain th where th: "rn_threads st 1 = Some th" "th_index th = 0" using st by (auto simp: opened_runner_def)
  note r = runner_resources [OF run]
  have c: "rn_count st = 2" using st by (simp add: opened_runner_def)
  from r have "\<forall>t th. rn_threads st t = Some th \<longrightarrow> th_index th < rn_count st \<and> sl_thread (slot_at st (th_index th)) = t \<and>
     sl_state (slot_at st (th_index th)) = REDP2P_RUNNER_STATE_RUNNING \<and>
     sl_ctx (slot_at st (th_index th)) = sl_ctx (th_slot th) \<and> sl_ctx (th_slot th) \<noteq> None" by blast
  from this [rule_format, OF th(1)]
  have t: "sl_thread (slot_at st 0) = 1" "sl_ctx (slot_at st 0) = sl_ctx (th_slot th)" "sl_ctx (th_slot th) \<noteq> None"
    unfolding th(2) by blast+
  have "sl_ctx (slot_at st 0) = None \<or> sl_ctx (slot_at st 0) \<noteq> sl_ctx (slot_at st 1)" using r c by simp
  then show ?thesis using run c t th by auto
qed

theorem moved_table_loses_results_witness:
  "\<exists>st reply st1 st2. runner_run (replicate 8 (Command demo_runner_env (Some demo_open))) (first_runner (\<lambda>_. None)) = Some st \<and>
    redp2p_runner_open demo_runner_env demo_open_args st = (Some reply, st1) \<and>
    redp2p_runner_thread (demo_thread False) 1 st1 = Some st2 \<and> rn_lost st2 \<and>
    sl_state (slot_at st2 0) = REDP2P_RUNNER_STATE_RUNNING"
proof -
  obtain st where run: "runner_run (replicate 8 (Command demo_runner_env (Some demo_open))) (first_runner (\<lambda>_. None)) = Some st"
    and st: "opened_runner 8 8 st" using demo_open_steps [of 8] by auto
  obtain th where th: "rn_threads st 1 = Some th" "th_index th = 0" "sl_op (th_slot th) = REDP2P_RUNNER_OP_IDX" "sl_port (th_slot th) = 7777"
    using st by (auto simp: opened_runner_def)
  obtain reply st1 where o: "redp2p_runner_open demo_runner_env demo_open_args st = (Some reply, st1)"
    and step: "runner_step (Command demo_runner_env (Some demo_open)) st = Some st1" and st1: "opened_runner 9 16 st1"
    using demo_open_step [OF st, of 16] by auto
  have ok: "runner_ok st1" using open_ok [OF runner_run_ok [OF first_runner_ok run] o] .
  obtain th1 where th1: "rn_threads st1 1 = Some th1" "sl_op (th_slot th1) = REDP2P_RUNNER_OP_IDX" "sl_port (th_slot th1) = 7777"
    using st1 by (auto simp: opened_runner_def)
  have "redp2p_runner_thread (demo_thread False) 1 st1 \<noteq> None"
    using th1(2,3) by (intro thread_ends [OF ok th1(1)])
      (auto simp: run_operation_def demo_thread_def redp2p_serve_index_def redp2p_index_runtime_initialize_def Let_def macros redp2p_set_error_def)
  then obtain st2 where e: "redp2p_runner_thread (demo_thread False) 1 st1 = Some st2" by blast
  have "rn_lost st2 \<and> sl_state (slot_at st2 0) = REDP2P_RUNNER_STATE_RUNNING"
    using moved_table_loses_results [OF run _ _ _ o th(1) e] st th(2) by (simp add: opened_runner_def demo_runner_env_def macros)
  then show ?thesis using run o e by blast
qed

text \<open>A publisher that is stopped, its thread in the middle of its loop.\<close>

definition demo_pub_args :: JSON_Object where
  "demo_pub_args = [(''op'', JSONString ''pub''), (''addr'', JSONString ''web@h:7777''), (''udp'', JSONNumber 80)]"

definition demo_pub :: string where
  "demo_pub = ser demo_libc (JSONObject [(''cmd'', JSONString ''open''), (''args'', JSONObject demo_pub_args)])"

theorem runner_addr_roundtrip_witness:
  "redp2p_runner_parse_addr (''web'' @ ''@'' @ ''idx.example'' @ '':'' @ dec_text 7777) 64 256 = Some (''web'', ''idx.example'', word_of_nat 7777)"
  using runner_addr_roundtrip [of "''web''" 64 "''idx.example''" 256 7777] by simp

lemma demo_addr: "redp2p_runner_parse_addr ''web@h:7777'' 64 256 = Some (''web'', ''h'', 7777)"
proof -
  have "redp2p_parse_u (Some ''7777'') 1 65535 = Some 7777" by (subst redp2p_parse_u_exact) (simp_all add: between_def)
  then show ?thesis by (simp add: redp2p_runner_parse_addr_def split_last_def macros)
qed

lemma demo_pub_configured:
  "\<exists>s' ctx. configure demo_runner_env ''pub'' h demo_pub_args s = Some (s', ctx) \<and> sl_op s' = REDP2P_RUNNER_OP_PUB"
  by (simp add: configure_def open_context_def demo_runner_env_def demo_pub_args_def json_object_get_string_def json_object_get_value_def
      redp2p_open_def open_pub_def demo_addr redp2p_runner_setup_client_def setup_pass_def setup_sweep_def redp2p_runner_port_def c_long_def
      redp2p_set_protocol_def redp2p_set_port_def redp2p_is_valid_id_def is_alnum_def between_def succeeded_def c_str_def NUL_def macros)

lemma demo_pub_open:
  "\<exists>st th. runner_run [Command demo_runner_env (Some demo_pub)] (first_runner (\<lambda>_. None)) = Some st \<and> rn_count st = 1 \<and>
    rn_threads st (sl_thread (slot_at st 0)) = Some th \<and> sl_op (th_slot th) = REDP2P_RUNNER_OP_PUB"
proof -
  let ?st = "first_runner (\<lambda>_. None)" and ?s = "zero_slot\<lparr>sl_state := REDP2P_RUNNER_STATE_RUNNING\<rparr>"
  have "number_ok demo_libc 80" using demo_number_ok [of 80] by simp
  then have "json_ok demo_libc 0 (JSONObject [(''cmd'', JSONString ''open''), (''args'', JSONObject demo_pub_args)])"
    by (simp add: demo_pub_args_def MAX_NESTING_def NUL_def)
  then have p: "json_parse_string demo_libc demo_pub = Some (JSONObject [(''cmd'', JSONString ''open''), (''args'', JSONObject demo_pub_args)])"
    unfolding demo_pub_def by (rule parse_text_serialized)
  obtain s ctx where s: "configure demo_runner_env ''pub'' 1 demo_pub_args ?s = Some (s, ctx)" "sl_op s = REDP2P_RUNNER_OP_PUB"
    using demo_pub_configured by blast
  obtain st1 where a: "kc_redp2p_runner_slot_alloc demo_runner_env ?st = (Some 1, st1)" "rn_next_thread st1 = 1" "rn_count st1 = 1"
    "length (rn_slots st1) = 8"
    by (simp add: kc_redp2p_runner_slot_alloc_def first_runner_def grow_table_def demo_runner_env_def Let_def)
  have o: "snd (redp2p_runner_open demo_runner_env demo_pub_args ?st) = redp2p_runner_thread_start 0 s ctx st1"
    using a(1) s(1)
    by (simp add: redp2p_runner_open_def launch_def demo_pub_args_def json_object_get_string_def json_object_get_value_def c_str_def NUL_def)
  obtain r where o': "redp2p_runner_open demo_runner_env demo_pub_args ?st = (r, redp2p_runner_thread_start 0 s ctx st1)"
    using o by (metis prod.collapse)
  have "runner_run [Command demo_runner_env (Some demo_pub)] ?st = Some (redp2p_runner_thread_start 0 s ctx st1)"
    by (simp add: kc_redp2p_run_def o' p json_object_get_object_def json_object_get_string_def json_object_get_value_def
        run_command_def c_str_def NUL_def)
  then show ?thesis
    using a s(2) by (auto simp: redp2p_runner_thread_start_def Let_def)
qed

theorem runner_stop_returns_witness:
  "\<exists>st r st'. runner_run [Command demo_runner_env (Some demo_pub)] (first_runner (\<lambda>_. None)) = Some st \<and>
    redp2p_runner_stop demo_runner_env [(''handle'', JSONNumber 1)] st = Some (r, st') \<and>
    sl_state (slot_at st' 0) = REDP2P_RUNNER_STATE_FINISHED"
proof -
  obtain st th where st: "runner_run [Command demo_runner_env (Some demo_pub)] (first_runner (\<lambda>_. None)) = Some st" "rn_count st = 1"
    "rn_threads st (sl_thread (slot_at st 0)) = Some th" "sl_op (th_slot th) = REDP2P_RUNNER_OP_PUB"
    using demo_pub_open by blast
  have h: "handle_slot [(''handle'', JSONNumber 1)] st = Some (1, 0)"
    using st(2) by (simp add: handle_slot_def json_object_get_value_def kc_redp2p_runner_slot_get_def c_long_def c_int_def)
  have "tn_stop (demo_turn True)" by (simp add: demo_turn_def)
  then have "te_early (re_join demo_runner_env) \<or>
     (sl_op (th_slot th) = REDP2P_RUNNER_OP_PUB \<or> sl_op (th_slot th) = REDP2P_RUNNER_OP_CON) \<and> (\<exists>tn \<in> set (te_turns (re_join demo_runner_env)). tn_stop tn)"
    using st(4) by (simp add: demo_runner_env_def demo_thread_def)
  then show ?thesis using runner_stop_returns [OF st(1) h st(3)] st(1) by blast
qed

end
