(* ===== verification/Command_Line_Behaviour.thy ===== *)
theory Command_Line_Behaviour
  imports Command_Line Runner_Behaviour
begin

text \<open>
  What the command line asks of the runner and what becomes of it: the parsers of the program and
  of the library agree, the request of a command is the one the runner reads, and what the options
  and files of background instances really do.
\<close>

section \<open>Parsers\<close>

lemma parse_decimal_u: "parse_decimal = redp2p_parse_u"
  by (intro ext) (simp add: parse_decimal_def redp2p_parse_u_def)

lemma parse_size_u: "parse_size = redp2p_parse_size"
  by (intro ext) (simp add: parse_size_def redp2p_parse_size_def)

lemma port_decimal: "0 < n \<Longrightarrow> n \<le> 65535 \<Longrightarrow> parse_decimal (Some (dec_text n)) 1 65535 = Some (int n)"
  unfolding parse_decimal_u using dec_text_digits [of n] by (subst redp2p_parse_u_exact) (simp_all add: dec_from_text)

lemma port_parsed: "0 < n \<Longrightarrow> n \<le> 65535 \<Longrightarrow> parse_port (dec_text n) = Some (word_of_nat n)"
  by (simp add: parse_port_def port_decimal)

lemma port_word: "0 < n \<Longrightarrow> n \<le> 65535 \<Longrightarrow> (word_of_nat n :: 16 word) \<noteq> 0 \<and> uint (word_of_nat n :: 16 word) = int n"
  by (simp add: unsigned_of_nat take_bit_nat_eq_self word_of_nat_eq_0_iff nat_dvd_not_less)

text \<open>A well-formed address of a peer at an index.\<close>

definition peer_spec :: "string \<Rightarrow> string \<Rightarrow> nat \<Rightarrow> string" where
  "peer_spec ident host port = ident @ ''@'' @ host @ '':'' @ dec_text port"

definition plain_spec :: "string \<Rightarrow> string \<Rightarrow> nat \<Rightarrow> bool" where
  "plain_spec ident host port \<longleftrightarrow> redp2p_is_valid_id ident \<and> host \<noteq> [] \<and> hd host \<noteq> CHR ''['' \<and> length host < 256 \<and>
     CHR ''@'' \<notin> set host \<and> CHR '':'' \<notin> set host \<and> NUL \<notin> set host \<and> is_valid_utf8 (peer_spec ident host port) \<and>
     0 < port \<and> port \<le> 65535"

lemma hostspec_parsed:
  assumes "plain_spec ident host port"
  shows "parse_hostspec (peer_spec ident host port) (REDP2P_ID_MAX + 1) 256 = Some (ident, host, word_of_nat port)"
    "redp2p_runner_parse_addr (peer_spec ident host port) (REDP2P_ID_MAX + 1) 256 = Some (ident, host, word_of_nat port)"
proof -
  have plain: "CHR ''@'' \<notin> set (dec_text port)" "CHR '':'' \<notin> set (dec_text port)"
    by (rule dec_text_no, simp add: between_def)+
  have ident: "ident \<noteq> []" "length ident \<le> REDP2P_ID_MAX"
    using assms by (auto simp: plain_spec_def token_iffs macros)
  have 1: "split_last (CHR ''@'') (ident @ ''@'' @ host @ '':'' @ dec_text port) = Some (ident, host @ '':'' @ dec_text port)"
    and 2: "split_last (CHR '':'') (host @ '':'' @ dec_text port) = Some (host, dec_text port)"
    using assms plain by (simp_all add: split_last_append plain_spec_def)
  show "parse_hostspec (peer_spec ident host port) (REDP2P_ID_MAX + 1) 256 = Some (ident, host, word_of_nat port)"
    using assms ident unfolding peer_spec_def parse_hostspec_def 1
    by (simp add: parse_addr_def plain_spec_def 2 [simplified] port_decimal)
  show "redp2p_runner_parse_addr (peer_spec ident host port) (REDP2P_ID_MAX + 1) 256 = Some (ident, host, word_of_nat port)"
    using assms ident unfolding peer_spec_def plain_spec_def by (intro runner_addr_roundtrip [THEN conjunct1]) simp_all
qed

section \<open>Requests and replies\<close>

text \<open>Numbers that fit an \<^verbatim>\<open>int\<close> survive being printed and read by the C library.\<close>

definition prints_integers :: "libc_ops \<Rightarrow> bool" where
  "prints_integers libc \<longleftrightarrow> (\<forall>n. - (2 ^ 31) \<le> n \<and> n < 2 ^ 31 \<longrightarrow> number_ok libc (of_int n))"

lemma prints_int: "prints_integers libc \<Longrightarrow> - (2 ^ 31) \<le> n \<Longrightarrow> n < 2 ^ 31 \<Longrightarrow> number_ok libc (of_int n)"
  by (simp add: prints_integers_def)

lemma prints_nat: "prints_integers libc \<Longrightarrow> n < 2 ^ 31 \<Longrightarrow> number_ok libc (of_nat n)"
  using prints_int [of libc "int n"] by simp

lemma serialized: "json_serialize_to_string libc v = Some (ser libc v)"
  by (simp add: json_serialize_to_string_def json_serialize_to_buffer_def json_serialization_size_def)

lemma set_plain_string: "is_valid_utf8 t \<Longrightarrow> json_object_set_string obj name t = json_object_set_value obj name (JSONString t)"
  by (simp add: json_object_set_string_def json_value_init_string_def)

lemma request_received:
  assumes "json_ok (ce_libc env) 0 (cli_runner_root cmd args)" "is_valid_utf8 cmd" "NUL \<notin> set cmd"
  shows "cli_runner_call env (cli_runner_root cmd args) st =
    map_option (\<lambda>(r, rn). (case r of None \<Rightarrow> Inl (Some ''unknown command or invalid arguments'') | Some t \<Rightarrow> Inr t,
                           st\<lparr>cl_runner := rn, cl_calls := cl_calls st + 1\<rparr>))
      (run_command (runner_env_at env (cl_calls st)) cmd args (cl_runner st))"
proof -
  have fields: "cli_runner_root cmd args = JSONObject [(''cmd'', JSONString cmd), (''args'', JSONObject args)]"
    using assms(2) by (simp add: cli_runner_root_def set_plain_string)
  have "re_libc (runner_env_at env n) = ce_libc env" for n by (simp add: runner_env_at_def)
  then show ?thesis
    using parse_text_serialized [OF assms(1)] assms(3)
    by (simp add: cli_runner_call_def serialized kc_redp2p_run_def fields json_object_get_object_def json_object_get_string_def
        json_object_get_value_def c_str_id option.map_comp comp_def)
      (auto intro!: option.map_cong0 split: option.split)
qed

lemma handle_reply:
  assumes "prints_integers libc" "h < 2 ^ 31"
  shows "\<exists>t. redp2p_run_wrap libc (json_object_set_number [] ''handle'' (of_nat h)) (int h) = Some t \<and>
    json_parse_string libc t = Some (JSONObject [(''result'', JSONObject [(''handle'', JSONNumber (of_nat h))]), (''handle'', JSONNumber (of_nat h))])"
proof -
  have "json_ok libc 0 (JSONObject [(''result'', JSONObject [(''handle'', JSONNumber (of_nat h))]), (''handle'', JSONNumber (of_nat h))])"
    using prints_nat [OF assms] by (simp add: MAX_NESTING_def NUL_def)
  from parse_text_serialized [OF this] show ?thesis
    by (intro exI conjI) (simp_all add: redp2p_run_wrap_def serialized json_object_set_number_def)
qed

lemma c_int_of_nat: "h < 2 ^ 31 \<Longrightarrow> c_int_of (of_nat h) = int h"
  by (simp add: c_int_of_def c_long_def)

text \<open>Opening an operation whose request the runner accepts.\<close>

lemma open_accepted:
  assumes "prints_integers (ce_libc env)" "json_ok (ce_libc env) 0 (cli_runner_root ''open'' args)"
    "json_object_get_string args ''op'' = Some op" "op \<in> {''pub'', ''con'', ''idx''}"
    "kc_redp2p_runner_slot_alloc (runner_env_at env (cl_calls st)) (cl_runner st) = (Some h, rn)" "h < 2 ^ 31"
    "configure (runner_env_at env (cl_calls st)) op h args (zero_slot\<lparr>sl_state := REDP2P_RUNNER_STATE_RUNNING\<rparr>) = Some (s, ctx)"
    "re_create (ce_runner env (cl_calls st))"
  shows "cli_runner_open env (cli_runner_root ''open'' args) st =
    Some (Inr (int h), st\<lparr>cl_runner := redp2p_runner_thread_start (h - 1) s ctx rn, cl_calls := cl_calls st + 1\<rparr>)"
proof -
  obtain t where t: "redp2p_run_wrap (ce_libc env) (json_object_set_number [] ''handle'' (of_nat h)) (int h) = Some t"
    "json_parse_string (ce_libc env) t =
       Some (JSONObject [(''result'', JSONObject [(''handle'', JSONNumber (of_nat h))]), (''handle'', JSONNumber (of_nat h))])"
    using handle_reply [OF assms(1,6)] by blast
  have env: "re_libc (runner_env_at env n) = ce_libc env" "re_create (runner_env_at env n) = re_create (ce_runner env n)" for n
    by (simp_all add: runner_env_at_def)
  have "redp2p_runner_open (runner_env_at env (cl_calls st)) args (cl_runner st) = (Some t, redp2p_runner_thread_start (h - 1) s ctx rn)"
    using assms(3,4,5,7,8) t(1) by (auto simp: redp2p_runner_open_def launch_def env)
  moreover have "is_valid_utf8 ''open''" by (rule ascii_valid_utf8) simp
  moreover have "NUL \<notin> set ''open''" by (simp add: NUL_def)
  
  ultimately have "cli_runner_call env (cli_runner_root ''open'' args) st =
      Some (Inr t, st\<lparr>cl_runner := redp2p_runner_thread_start (h - 1) s ctx rn, cl_calls := cl_calls st + 1\<rparr>)"
    by (simp add: request_received [OF assms(2)] run_command_def)
  then show ?thesis using t(2) c_int_of_nat [OF assms(6)] by (simp add: cli_runner_open_def json_object_get_value_def)
qed

section \<open>Starting a publisher\<close>

definition protocol_option :: "int \<Rightarrow> string" where
  "protocol_option proto = (if proto = REDP2P_PROTO_TCP then ''--tcp'' else ''--udp'')"

definition pub_fields :: "string \<Rightarrow> int \<Rightarrow> nat \<Rightarrow> JSON_Object" where
  "pub_fields spec proto service =
     [(''op'', JSONString ''pub''), (''addr'', JSONString spec),
      (if proto = REDP2P_PROTO_TCP then ''tcp'' else ''udp'', JSONNumber (of_nat service)), (''sweep'', JSONNumber 20)]"

lemma service_parsed:
  assumes "proto \<in> {REDP2P_PROTO_TCP, REDP2P_PROTO_UDP}" "0 < service" "service \<le> 65535" "ca_proto a = 0"
  shows "client_options [protocol_option proto, dec_text service] a = Inr (a\<lparr>ca_port := word_of_nat service, ca_proto := proto\<rparr>)"
  using assms by (elim insertE emptyE) (simp_all add: protocol_option_def service_option_def port_parsed macros)

lemma pub_request:
  assumes "is_valid_utf8 spec" "proto \<in> {REDP2P_PROTO_TCP, REDP2P_PROTO_UDP}" "0 < service" "service \<le> 65535"
  shows "client_request ''pub'' spec \<lparr>ca_down = False, ca_port = word_of_nat service, ca_proto = proto, ca_sweep = 20, ca_stun = []\<rparr> [] [] =
    pub_fields spec proto service"
proof -
  have "is_valid_utf8 ''pub''" by (rule ascii_valid_utf8) simp
  then show ?thesis
    using assms port_word [OF assms(3,4)]
    by (simp add: client_request_def pub_fields_def set_plain_string json_object_set_number_def add_text_def)
qed

lemma pub_fields_ok:
  assumes "prints_integers libc" "service \<le> 65535"
  shows "json_ok libc 0 (cli_runner_root ''open'' (pub_fields spec proto service))"
proof -
  have "is_valid_utf8 ''open''" by (rule ascii_valid_utf8) simp
  moreover have "number_ok libc 20" "number_ok libc (of_nat service)"
    using assms(2) prints_nat [OF assms(1), of 20] prints_nat [OF assms(1), of service] by simp_all
  ultimately show ?thesis
    by (simp add: cli_runner_root_def set_plain_string pub_fields_def MAX_NESTING_def NUL_def)
qed

lemma no_variables:
  assumes "ce_getenv env = (\<lambda>_. None)"
  shows "redp2p_options_load_env (ce_getenv env) m redp2p_options_default = redp2p_options_default" "instance_files env cmd addr = ([], [])"
  using assms by (simp_all add: redp2p_options_load_env_def redp2p_parse_size_def redp2p_parse_env_def instance_files_def cli_state_dir_def given_def)

text \<open>What is left of a client command once its first argument is well-formed.\<close>

lemma client_main_spec:
  assumes "plain_spec ident host port" "redp2p_options_load_env (ce_getenv env) (ce_malloc env) redp2p_options_default = opts"
  shows "client_main env name cmd (peer_spec ident host port # rest) go st =
    (case client_options rest \<lparr>ca_down = False, ca_port = 0, ca_proto = 0, ca_sweep = op_sweep opts, ca_stun = op_stun_url opts\<rparr> of
       Inl e \<Rightarrow> Some (1, complain e st)
     | Inr a \<Rightarrow>
         if down_conflict a
         then Some (1, complain ''--down cannot be combined with --tcp, --udp, --sweep, or --stun'' st)
         else if ca_down a then Some (bring_down env cmd (peer_spec ident host port) st)
         else if ca_proto a = 0 \<or> ca_port a = 0
         then Some (1, complain (cmd @ '' requires --tcp <port> or --udp <port>'') st)
         else go a opts (peer_spec ident host port) st)"
proof -
  have "redp2p_is_valid_id ident" using assms(1) by (simp add: plain_spec_def)
  then show ?thesis unfolding client_main_def assms(2) by (simp only: Let_def list.case hostspec_parsed(1) [OF assms(1)]) simp
qed

lemma main_pub_started:
  assumes "plain_spec ident host port" "proto \<in> {REDP2P_PROTO_TCP, REDP2P_PROTO_UDP}" "0 < service" "service \<le> 65535"
    "ce_getenv env = (\<lambda>_. None)"
  shows "main_program env rounds [name, ''pub'', peer_spec ident host port, protocol_option proto, dec_text service] st =
    operate env rounds False ''failed to create context: '' ''pub exited: '' ''waiting for connections...'' []
      (pub_fields (peer_spec ident host port) proto service) st"
proof -
  have "is_valid_utf8 (peer_spec ident host port)" using assms(1) by (simp add: plain_spec_def)
  note r = pub_request [OF this assms(2-4)]
  have "proto \<noteq> 0" using assms(2) by (auto simp: macros)
  then show ?thesis
    using port_word [OF assms(3,4)]
    by (simp add: main_program_def main_pub_def client_main_spec [OF assms(1) no_variables(1) [OF assms(5)]] down_conflict_def
        service_parsed [OF assms(2-4)] no_variables(2) [OF assms(5)] redp2p_options_default_def r del: client_options.simps)
qed

lemma configure_pub:
  assumes "plain_spec ident host port" "proto \<in> {REDP2P_PROTO_TCP, REDP2P_PROTO_UDP}" "0 < service" "service \<le> 65535"
    "re_calloc env"
  shows "\<exists>ctx. configure env ''pub'' h (pub_fields (peer_spec ident host port) proto service) s =
      Some (s\<lparr>sl_self_id := ident, sl_index_host := host, sl_index_port := word_of_nat port,
              sl_bind_port := word_of_nat service, sl_op := REDP2P_RUNNER_OP_PUB\<rparr>, ctx) \<and>
    ctx_proto ctx = proto \<and> bind_port ctx = word_of_nat service \<and> ctx_sweep ctx = 20 \<and> ctx_pass ctx = [] \<and> \<not> stop_requested ctx"
proof -
  have id: "redp2p_is_valid_id ident" using assms(1) by (simp add: plain_spec_def)
  have "NUL \<notin> set ident" using id alnum_no_NUL by (auto simp: token_iffs)
  moreover have "NUL \<notin> set (dec_text port)" by (rule dec_text_no) (simp add: between_def NUL_def)
  ultimately have c: "c_str (peer_spec ident host port) = peer_spec ident host port"
    using assms(1) by (intro c_str_id) (auto simp: peer_spec_def plain_spec_def NUL_def)
  let ?f = "pub_fields (peer_spec ident host port) proto service"
  have p: "redp2p_runner_port ?f (if proto = REDP2P_PROTO_TCP then ''tcp'' else ''udp'') = Some (word_of_nat service)"
    "proto = REDP2P_PROTO_UDP \<Longrightarrow> redp2p_runner_port ?f ''tcp'' = None"
    using assms(2-4) by (auto simp: redp2p_runner_port_def pub_fields_def json_object_get_value_def c_long_def macros)
  let ?g = "\<lambda>pr. pub_fields (peer_spec ident host port) pr service"
  have g: "json_object_get_string (?g pr) ''state_dir'' = None" "json_object_get_string (?g pr) ''pass'' = None"
    "json_object_get_string (?g pr) ''stun'' = None" "json_object_get_string (?g pr) ''addr'' = Some (peer_spec ident host port)"
    "setup_sweep (?g pr) = Some 20" for pr
    by (simp_all add: json_object_get_string_def json_object_get_value_def pub_fields_def c setup_sweep_def c_long_def macros)
  have addr: "redp2p_runner_parse_addr (peer_spec ident host port) 64 256 = Some (ident, host, word_of_nat port)"
    using hostspec_parsed(2) [OF assms(1)] by (simp add: REDP2P_ID_MAX_def)
  show ?thesis
    using assms(2,5) p id port_word [OF assms(3,4)]
    by (auto simp: configure_def open_context_def g redp2p_open_def open_pub_def addr redp2p_runner_setup_client_def
        setup_pass_def redp2p_set_protocol_def redp2p_set_port_def redp2p_set_sweep_def redp2p_set_error_def succeeded_def macros)
qed

lemma publisher_opened:
  assumes "plain_spec ident host port" "proto \<in> {REDP2P_PROTO_TCP, REDP2P_PROTO_UDP}" "0 < service" "service \<le> 65535"
    and "prints_integers (ce_libc env)" "runner_ok (cl_runner st)"
    and "re_calloc (ce_runner env (cl_calls st))" "re_create (ce_runner env (cl_calls st))"
    and "kc_redp2p_runner_slot_alloc (runner_env_at env (cl_calls st)) (cl_runner st) = (Some h, rn)" "h < 2 ^ 31"
  obtains s ctx where "cli_runner_open env (cli_runner_root ''open'' (pub_fields (peer_spec ident host port) proto service)) st =
      Some (Inr (int h), st\<lparr>cl_runner := redp2p_runner_thread_start (h - 1) s ctx rn, cl_calls := cl_calls st + 1\<rparr>)"
    "s = zero_slot\<lparr>sl_state := REDP2P_RUNNER_STATE_RUNNING, sl_self_id := ident, sl_index_host := host, sl_index_port := word_of_nat port,
              sl_bind_port := word_of_nat service, sl_op := REDP2P_RUNNER_OP_PUB\<rparr>"
    "ctx_proto ctx = proto" "bind_port ctx = word_of_nat service" "ctx_sweep ctx = 20" "\<not> stop_requested ctx"
    "0 < h" "h - 1 < rn_count rn" "rn_count rn \<le> length (rn_slots rn)"
proof -
  let ?f = "pub_fields (peer_spec ident host port) proto service" and ?z = "zero_slot\<lparr>sl_state := REDP2P_RUNNER_STATE_RUNNING\<rparr>"
  have "re_calloc (runner_env_at env (cl_calls st))" using assms(7) by (simp add: runner_env_at_def)
  from configure_pub [OF assms(1-4) this, of h ?z] obtain ctx where
    c: "configure (runner_env_at env (cl_calls st)) ''pub'' h ?f ?z =
      Some (?z\<lparr>sl_self_id := ident, sl_index_host := host, sl_index_port := word_of_nat port,
              sl_bind_port := word_of_nat service, sl_op := REDP2P_RUNNER_OP_PUB\<rparr>, ctx)"
    "ctx_proto ctx = proto" "bind_port ctx = word_of_nat service" "ctx_sweep ctx = 20" "\<not> stop_requested ctx"
    by blast
  have op: "json_object_get_string ?f ''op'' = Some ''pub''"
    by (simp add: pub_fields_def json_object_get_string_def json_object_get_value_def c_str_def NUL_def)
  have "h \<noteq> 0 \<and> claimed (h - 1) (cl_runner st) rn" using slot_alloc_claimed [OF assms(9)] runner_okD(1) [OF assms(6)] by simp
  then have h: "0 < h" "h - 1 < rn_count rn" "rn_count rn \<le> length (rn_slots rn)" by (auto simp: claimed_def)
  show thesis
    by (rule that [OF open_accepted [OF assms(5) pub_fields_ok [OF assms(5,4)] op _ assms(9,10) c(1) assms(8)] _ c(2-5) h]) simp_all
qed

text \<open>
  C17: \<^verbatim>\<open>redp2p pub id@host:port --tcp N\<close> (or \<^verbatim>\<open>--udp N\<close>), with no environment variables,
  starts exactly that publisher: the request it prints is parsed by the runner, the slot the runner
  allocates holds the identifier, the index's host and port and the service port, its context the
  protocol and the default sweep of 20, its thread runs on that slot and context, and the program
  goes on with the handle of that slot.
\<close>

theorem command_line_starts_publisher:
  assumes "plain_spec ident host port" "proto \<in> {REDP2P_PROTO_TCP, REDP2P_PROTO_UDP}" "0 < service" "service \<le> 65535"
    and "ce_getenv env = (\<lambda>_. None)" "prints_integers (ce_libc env)" "runner_ok (cl_runner st)"
    and "re_calloc (ce_runner env (cl_calls st))" "re_create (ce_runner env (cl_calls st))"
    and "kc_redp2p_runner_slot_alloc (runner_env_at env (cl_calls st)) (cl_runner st) = (Some h, rn)" "h < 2 ^ 31"
  shows "\<exists>args st' ctx s.
    main_program env rounds [name, ''pub'', peer_spec ident host port, protocol_option proto, dec_text service] st =
      operate env rounds False ''failed to create context: '' ''pub exited: '' ''waiting for connections...'' [] args st \<and>
    cli_runner_open env (cli_runner_root ''open'' args) st = Some (Inr (int h), st') \<and>
    slot_at (cl_runner st') (h - 1) = s \<and> sl_state s = REDP2P_RUNNER_STATE_RUNNING \<and> sl_op s = REDP2P_RUNNER_OP_PUB \<and>
    sl_self_id s = ident \<and> sl_index_host s = host \<and> sl_index_port s = word_of_nat port \<and> sl_bind_port s = word_of_nat service \<and>
    Option.bind (sl_ctx s) (rn_ctxs (cl_runner st')) = Some ctx \<and> ctx_proto ctx = proto \<and> bind_port ctx = word_of_nat service \<and>
    ctx_sweep ctx = 20 \<and> \<not> stop_requested ctx \<and>
    map_option th_slot (rn_threads (cl_runner st') (sl_thread s)) = Some s"
proof (rule publisher_opened [OF assms(1-4,6-11)])
  fix s ctx
  assume o: "cli_runner_open env (cli_runner_root ''open'' (pub_fields (peer_spec ident host port) proto service)) st =
      Some (Inr (int h), st\<lparr>cl_runner := redp2p_runner_thread_start (h - 1) s ctx rn, cl_calls := cl_calls st + 1\<rparr>)"
    and s: "s = zero_slot\<lparr>sl_state := REDP2P_RUNNER_STATE_RUNNING, sl_self_id := ident, sl_index_host := host,
              sl_index_port := word_of_nat port, sl_bind_port := word_of_nat service, sl_op := REDP2P_RUNNER_OP_PUB\<rparr>"
    and c: "ctx_proto ctx = proto" "bind_port ctx = word_of_nat service" "ctx_sweep ctx = 20" "\<not> stop_requested ctx"
    and h: "0 < h" "h - 1 < rn_count rn" "rn_count rn \<le> length (rn_slots rn)"
  have l: "h - 1 < length (rn_slots rn)" using h by simp
  show ?thesis
    by (rule exI, rule exI, rule exI [of _ ctx], rule exI, intro conjI, rule main_pub_started [OF assms(1-5)], rule o, rule refl)
      (use l c s in \<open>simp_all add: redp2p_runner_thread_start_def Let_def nth_list_update\<close>)
qed

section \<open>Stopping a background instance\<close>

lemma loaded_sweep: "getenv ''REDP2P_SWEEP'' = None \<Longrightarrow> op_sweep (redp2p_options_load_env getenv m redp2p_options_default) = 20"
  by (simp add: redp2p_options_load_env_def redp2p_parse_env_def redp2p_options_default_def Let_def split: option.split)

lemma loaded_stun: "getenv ''REDP2P_STUN'' = None \<Longrightarrow> op_stun_url (redp2p_options_load_env getenv m redp2p_options_default) = []"
  by (simp add: redp2p_options_load_env_def redp2p_options_default_def Let_def split: option.split)

lemma zero_parsed: "parse_int ''0'' 0 1024 = Some 0"
  by (simp add: parse_int_def parse_decimal_def between_def)

text \<open>
  C38: \<^verbatim>\<open>pub <id>@<index> --down\<close> and \<^verbatim>\<open>con <id>@<index> --down\<close> never stop anything
  unless the sweep is switched off by hand: the default sweep of 20 counts as a \<^verbatim>\<open>--sweep\<close> option, with
  which \<^verbatim>\<open>--down\<close> may not be combined. With \<^verbatim>\<open>--sweep 0\<close> added, and no
  \<^verbatim>\<open>REDP2P_STUN\<close>, the PID file is looked for.
\<close>

theorem down_refused_by_default:
  assumes "plain_spec ident host port" "cmd \<in> {''pub'', ''con''}" "down \<in> {''--down'', ''-d''}"
    and "ce_getenv env ''REDP2P_SWEEP'' = None"
  shows "main_program env rounds [name, cmd, peer_spec ident host port, down] st =
      Some (1, complain ''--down cannot be combined with --tcp, --udp, --sweep, or --stun'' st) \<and>
    (ce_getenv env ''REDP2P_STUN'' = None \<longrightarrow>
       main_program env rounds [name, cmd, peer_spec ident host port, down, ''--sweep'', ''0''] st =
         Some (bring_down env cmd (peer_spec ident host port) st))"
proof -
  have o: "client_options [down] a = Inr (a\<lparr>ca_down := True\<rparr>)"
    "client_options [down, ''--sweep'', ''0''] a = Inr (a\<lparr>ca_down := True, ca_sweep := 0\<rparr>)" for a
    using assms(3) by (auto simp: zero_parsed)
  have m: "main_program env rounds (name # ''pub'' # rest) st = main_pub env rounds name rest st"
    "main_program env rounds (name # ''con'' # rest) st = main_con env rounds name rest st" for rest
    by (simp_all add: main_program_def)
  show ?thesis
    using assms(2)
    by (elim insertE emptyE)
      (simp_all add: m main_pub_def main_con_def client_main_spec [OF assms(1) refl] o down_conflict_def loaded_sweep [where getenv = "ce_getenv env", OF assms(4)] loaded_stun
        del: client_options.simps)
qed

lemma mkdir_prefixes_other: "mkdir_prefixes env pre rest fs q = fs q \<or> fs q = None \<and> mkdir_prefixes env pre rest fs q = Some Directory"
proof (induction rest arbitrary: pre fs)
  case (Cons c rest)
  show ?case using Cons [of "pre @ [c]" "if c = CHR ''/'' then try_mkdir env pre fs else fs"]
    by (auto simp: try_mkdir_def split: if_splits)
qed simp

lemma pid_file_created:
  assumes "length p < 1024" "fs p = None" "\<not> ce_fail env (Make_dir p)"
  shows "fst (cli_pid_write env p fs) = 1 \<and> snd (cli_pid_write env p fs) p = Some Directory"
  using assms mkdir_prefixes_other [of env "take 1 p" "drop 1 p" fs p]
  by (auto simp: cli_pid_write_def cli_mkdir_p_def try_mkdir_def Let_def)

lemma not_option: "dec_text n \<noteq> CHR ''-'' # t"
proof -
  have "CHR ''-'' \<notin> set (dec_text n)" by (rule dec_text_no) (simp add: between_def)
  then show ?thesis by auto
qed

lemma index_port_parsed: "0 < port \<Longrightarrow> port \<le> 65535 \<Longrightarrow> ia_port a = 0 \<Longrightarrow>
    index_options (dec_text port # rest) a = index_options rest (a\<lparr>ia_port := word_of_nat port\<rparr>)"
  using not_option by (simp add: port_parsed)

lemma down_option: "index_options [''--down''] a = Inr (a\<lparr>ia_down := True\<rparr>)"
  by simp

text \<open>
  C37: A background index cannot be stopped with \<^verbatim>\<open>idx <port> --down\<close>: when it starts, the
  directory its PID file should be in is created together with a directory in place of the file itself, so that
  writing the process number fails; a later \<^verbatim>\<open>--down\<close> finds an \<^verbatim>\<open>invalid PID file\<close>,
  signals no process and fails.
\<close>

theorem background_index_not_stopped:
  assumes "ce_getenv env = (\<lambda>x. if x = ''REDP2P_STATE_DIR'' then Some dir else None)" "ce_getenv env' = ce_getenv env"
    and "dir \<noteq> []" "length dir \<le> 900" "0 < port" "port \<le> 65535"
    and "p = dir @ ''/pids/idx_'' @ dec_text port @ ''.pid''" "fs p = None" "\<not> ce_fail env (Make_dir p)"
    and "cl_fs st = snd (cli_pid_write env p fs)"
  shows "instance_files env ''idx'' (dec_text port) = (dir, p) \<and> fst (cli_pid_write env p fs) = 1 \<and>
    main_program env' rounds [name, ''idx'', dec_text port, ''--down''] st =
      Some (1, complain ''invalid PID file'' (set_fs (remove_path env' p (cl_fs st)) st))"
proof -
  have len: "length (dec_text port) \<le> 5" by (rule length_dec_text_le) (use assms(6) in simp_all)
  then have p: "length p < 1024" using assms(4,7) by simp
  note w = pid_file_created [of p fs env, OF p assms(8,9)]
  have d: "cli_state_dir (ce_getenv e) None 1024 = Some dir" "cli_pid_path dir ''idx'' (dec_text port) 1280 = Some p"
    if "ce_getenv e = ce_getenv env" for e
    using that assms(1,3,4,7) p by (simp_all add: cli_state_dir_def given_def cli_pid_path_def)
  have l: "load_index_options (ce_getenv env') m opts b = Some (opts, b)" for m opts b
    by (simp add: assms(1,2) load_index_options_def parse_decimal_def)
  have "cli_pid_stop env' p st = (1, complain ''invalid PID file'' (set_fs (remove_path env' p (cl_fs st)) st))"
    using w assms(10) by (simp add: cli_pid_stop_def)
  moreover have "unat (word_of_nat port :: 16 word) = port" using assms(6) by (simp add: unsigned_of_nat take_bit_nat_eq_self)
  ultimately show ?thesis
    using w d(1) [OF refl] d(2) [OF refl] port_word [OF assms(5,6)]
    by (simp add: instance_files_def main_program_def main_idx_def index_port_parsed [OF assms(5,6)] down_option redp2p_options_default_def l
        index_conflict_def bring_down_def d [OF assms(2)] del: index_options.simps(2))
qed

section \<open>The seats of an index\<close>

definition idx_fields :: "nat \<Rightarrow> nat \<Rightarrow> JSON_Object" where
  "idx_fields port n = [(''op'', JSONString ''idx''), (''port'', JSONNumber (of_nat port)), (''seats'', JSONNumber (of_nat n))]"

lemma seats_option: "parse_size (Some v) = Some n \<Longrightarrow> index_options [''--seats'', v] a = Inr (a\<lparr>ia_seats := n, ia_seats_option := True\<rparr>)"
  by simp

lemma idx_request:
  assumes "0 < port" "port \<le> 65535" "ia_port a = word_of_nat port" "\<not> ia_pow_option a" "op_pass opts = []" "op_vip opts = None"
  shows "index_request a True opts [] = idx_fields port (ia_seats a)"
proof -
  have "is_valid_utf8 ''idx''" by (rule ascii_valid_utf8) simp
  then show ?thesis
    using assms port_word [OF assms(1,2)]
    by (simp add: index_request_def idx_fields_def set_plain_string json_object_set_number_def add_text_def)
qed

lemma configure_idx:
  assumes "re_calloc env" "0 < port" "port \<le> 65535" "n \<le> SIZE_MAX div sizeof_peer"
  shows "\<exists>s' ctx. configure env ''idx'' h (idx_fields port n) s = Some (s', ctx) \<and> sl_port s' = word_of_nat port \<and>
    peers ctx = [] \<and> seats_set ctx \<and> n_peers_cap ctx = n"
proof -
  have "int n < 2 ^ 63" using assms(4) by (simp add: macros)
  then have c: "c_long (of_nat n) = int n" "c_long (of_nat port) = int port" using assms(3) by (simp_all add: c_long_def)
  have g: "json_object_get_string (idx_fields port n) k = None" if "k \<in> {''state_dir'', ''host'', ''pass'', ''vip''}" for k
    using that by (auto simp: json_object_get_string_def json_object_get_value_def idx_fields_def)
  have v: "json_object_get_value (idx_fields port n) ''seats'' = Some (JSONNumber (of_nat n))"
    "json_object_get_value (idx_fields port n) ''pow'' = None" "redp2p_runner_port (idx_fields port n) ''port'' = Some (word_of_nat port)"
    using assms(2,3) c(2) by (simp_all add: json_object_get_value_def idx_fields_def redp2p_runner_port_def REDP2P_PORT_MIN_def REDP2P_PORT_MAX_def)
  show ?thesis
    using assms(1,4) by (simp add: configure_def open_context_def g redp2p_open_def open_idx_def setup_pass_def setup_seats_def setup_pow_def v c
        redp2p_set_seats_def redp2p_update_nonvip_cap_def redp2p_set_vip_def clear_vips_def succeeded_def redp2p_set_error_def Let_def)
qed

lemma seats_variable_rejected:
  assumes "ce_getenv env = (\<lambda>x. if x = ''REDP2P_SEATS'' then Some v else None)"
    and "\<forall>n. parse_size (Some v) = Some n \<longrightarrow> n > SIZE_MAX div sizeof_peer" "0 < port" "port \<le> 65535"
  shows "main_program env rounds [name, ''idx'', dec_text port] st = Some (1, complain ''failed to load index options'' st)"
proof -
  have l: "load_index_options (ce_getenv env) m opts b = None" for m opts b
    using assms(2) by (auto simp add: assms(1) load_index_options_def split: option.split)
  show ?thesis
    using port_word [OF assms(3,4)]
    by (simp add: main_program_def main_idx_def index_port_parsed [OF assms(3,4)] redp2p_options_default_def l del: index_options.simps(2))
qed

lemma seats_variable_runs:
  assumes "ce_getenv env = (\<lambda>x. if x = ''REDP2P_SEATS'' then Some v else None)"
    and "parse_size (Some v) = Some n" "n \<le> SIZE_MAX div sizeof_peer" "0 < port" "port \<le> 65535"
  shows "main_program env rounds [name, ''idx'', dec_text port] st = operate env rounds True ''failed to create context: '' ''index exited: ''
      (''index server listening on port '' @ dec_text port) [] (idx_fields port 0) st"
    "main_program env rounds [name, ''idx'', dec_text port, ''--seats'', v] st = operate env rounds True ''failed to create context: ''
      ''index exited: '' (''index server listening on port '' @ dec_text port) [] (idx_fields port n) st"
proof -
  have l: "load_index_options (ce_getenv env) m opts b = Some (opts\<lparr>op_seats := n\<rparr>, True)" for m opts b
    using assms(2,3) by (simp add: assms(1) load_index_options_def parse_decimal_def)
  have f: "instance_files env cmd addr = ([], [])" for cmd addr
    by (simp add: instance_files_def cli_state_dir_def given_def assms(1))
  have u: "unat (word_of_nat port :: 16 word) = port" using assms(5) by (simp add: unsigned_of_nat take_bit_nat_eq_self)
  show "main_program env rounds [name, ''idx'', dec_text port] st = operate env rounds True ''failed to create context: '' ''index exited: ''
      (''index server listening on port '' @ dec_text port) [] (idx_fields port 0) st"
    using port_word [OF assms(4,5)]
    by (simp add: main_program_def main_idx_def index_port_parsed [OF assms(4,5)] redp2p_options_default_def l f u index_conflict_def
        idx_request [OF assms(4,5)] del: index_options.simps(2))
  show "main_program env rounds [name, ''idx'', dec_text port, ''--seats'', v] st = operate env rounds True ''failed to create context: ''
      ''index exited: '' (''index server listening on port '' @ dec_text port) [] (idx_fields port n) st"
    using port_word [OF assms(4,5)]
    by (simp add: main_program_def main_idx_def index_port_parsed [OF assms(4,5)] seats_option [OF assms(2)] redp2p_options_default_def l f u
        index_conflict_def idx_request [OF assms(4,5)] del: index_options.simps(2))
qed

text \<open>
  C36: The variable \<^verbatim>\<open>REDP2P_SEATS\<close> never sets the number of seats. With a value that is
  not a number, or a number of seats too large for the table, the program ends with exit code 1
  and no index is started. With any other value the program asks for an index with 0 seats, which
  refuses every publisher; with \<^verbatim>\<open>--seats\<close> the same text gives that number of seats.
\<close>

theorem seats_variable_admits_nobody:
  assumes "ce_getenv env = (\<lambda>x. if x = ''REDP2P_SEATS'' then Some v else None)"
    and "0 < port" "port \<le> 65535" "re_calloc renv"
  shows "case parse_size (Some v) of
      None \<Rightarrow> main_program env rounds [name, ''idx'', dec_text port] st = Some (1, complain ''failed to load index options'' st)
    | Some n \<Rightarrow>
       if n > SIZE_MAX div sizeof_peer
       then main_program env rounds [name, ''idx'', dec_text port] st = Some (1, complain ''failed to load index options'' st)
       else \<exists>args args' s' ctx ctx'.
    main_program env rounds [name, ''idx'', dec_text port] st = operate env rounds True ''failed to create context: '' ''index exited: ''
      (''index server listening on port '' @ dec_text port) [] args st \<and>
    main_program env rounds [name, ''idx'', dec_text port, ''--seats'', v] st = operate env rounds True ''failed to create context: ''
      ''index exited: '' (''index server listening on port '' @ dec_text port) [] args' st \<and>
    map_option snd (configure renv ''idx'' h args s) = Some ctx \<and> fst (redp2p_add_peer alloc random_bytes now ctx pid) = REDP2P_EFULL \<and>
    map_option snd (configure renv ''idx'' h args' s) = Some ctx' \<and> seats_set ctx' \<and> n_peers_cap ctx' = n"
proof (cases "\<exists>n. parse_size (Some v) = Some n \<and> n \<le> SIZE_MAX div sizeof_peer")
  case True
  then obtain n where n: "parse_size (Some v) = Some n" "n \<le> SIZE_MAX div sizeof_peer" by blast
  note runs = seats_variable_runs [OF assms(1) n assms(2,3), of rounds name st]
  obtain s0 ctx where c0: "configure renv ''idx'' h (idx_fields port 0) s = Some (s0, ctx)" "peers ctx = []" "seats_set ctx" "n_peers_cap ctx = 0"
    using configure_idx [OF assms(4,2,3), of 0 h s] by auto
  obtain s1 ctx' where c1: "configure renv ''idx'' h (idx_fields port n) s = Some (s1, ctx')" "seats_set ctx'" "n_peers_cap ctx' = n"
    using configure_idx [OF assms(4,2,3) n(2), of h s] by auto
  have "redp2p_find_peer ctx pid = None" using c0(2) by (simp add: redp2p_find_peer_def)
  then have "fst (redp2p_add_peer alloc random_bytes now ctx pid) = REDP2P_EFULL" using c0 by (simp add: redp2p_add_peer_def)
  then show ?thesis using runs c0(1) c1 n by fastforce
next
  case False
  then have "main_program env rounds [name, ''idx'', dec_text port] st = Some (1, complain ''failed to load index options'' st)"
    by (intro seats_variable_rejected [OF assms(1) _ assms(2,3)]) (auto split: option.splits)
  with False show ?thesis by (auto split: option.splits)
qed

section \<open>Addresses in brackets, and the exit code after a signal\<close>

text \<open>
  An IPv6 address in brackets with a port is accepted by the command line as that address and port;
  the runner, which gets the whole text, takes the brackets and the port for the host name and the
  default port for the port.
\<close>

theorem bracketed_index_misread:
  assumes "redp2p_is_valid_id ident" "CHR '']'' \<notin> set v6" "CHR ''@'' \<notin> set v6" "CHR '':'' \<in> set v6" "length v6 \<le> 240"
    and "0 < port" "port \<le> 65535" "spec = ident @ ''@'' @ ''['' @ v6 @ '']:'' @ dec_text port"
  shows "parse_hostspec spec (REDP2P_ID_MAX + 1) 256 = Some (ident, v6, word_of_nat port) \<and>
    redp2p_runner_parse_addr spec (REDP2P_ID_MAX + 1) 256 = Some (ident, ''['' @ v6 @ '']:'' @ dec_text port, REDP2P_PORT_DEFAULT)"
proof -
  have plain: "CHR ''@'' \<notin> set (dec_text port)" "CHR '':'' \<notin> set (dec_text port)"
    by (rule dec_text_no, simp add: between_def)+
  have len: "length (dec_text port) \<le> 5" by (rule length_dec_text_le) (use assms(7) in simp_all)
  have ident: "ident \<noteq> []" "length ident \<le> REDP2P_ID_MAX" using assms(1) by (auto simp: token_iffs macros)
  let ?addr = "''['' @ v6 @ '']:'' @ dec_text port"
  have v: "v6 \<noteq> []" using assms(4) by auto
  have split: "split_last (CHR ''@'') spec = Some (ident, ?addr)"
    using split_last_append [of "CHR ''@''" ?addr ident] assms(3) plain by (simp add: assms(8))
  have colon: "split_last (CHR '':'') ?addr = Some (''['' @ v6 @ '']'', dec_text port)"
    using split_last_append [of "CHR '':''" "dec_text port" "''['' @ v6 @ '']''"] plain by simp
  have br: "takeWhile (\<lambda>c. c \<noteq> CHR '']'') (v6 @ '']:'' @ dec_text port) = v6"
    "dropWhile (\<lambda>c. c \<noteq> CHR '']'') (v6 @ '']:'' @ dec_text port) = '']:'' @ dec_text port"
    using split_at_first [of "CHR '']''" v6 "CHR '':'' # dec_text port"] assms(2) by simp_all
  have "parse_addr ?addr 256 = Some (v6, word_of_nat port)"
    using v br assms(5) by (simp add: parse_addr_def port_decimal [OF assms(6,7)] Let_def)
  moreover have "spec \<noteq> []" by (simp add: assms(8))
  ultimately show ?thesis
    using ident len assms(4,5) colon by (simp add: parse_hostspec_def redp2p_runner_parse_addr_def split Let_def)
qed

text \<open>When a signal ends the waiting, the exit code is that of a variable that was never set.\<close>

theorem signalled_exit_unset:
  assumes "rd_signal rd" "follow env (rd # rds) always label pidfile handle st = Some (code, st')"
  shows "code = (if ce_garbage env = REDP2P_OK then 0 else 1)"
  using assms by (auto simp: follow_def Let_def split: option.splits if_splits prod.splits)

section \<open>Examples\<close>

text \<open>The number conversion of the JSON examples, with a sign.\<close>

definition signed_libc :: libc_ops where
  "signed_libc = \<lparr>
     strtod = (\<lambda>t. if t \<noteq> [] \<and> hd t = CHR ''-'' then map_option (\<lambda>(q, n). (- q, Suc n)) (strtod demo_libc (tl t)) else strtod demo_libc t),
     num_fmt = (\<lambda>q. if q < 0 then CHR ''-'' # num_fmt demo_libc (- q) else num_fmt demo_libc q)\<rparr>"

lemma signed_prints: "prints_integers signed_libc"
  unfolding prints_integers_def
proof (intro allI impI)
  fix n :: int
  define m where "m = nat (if n < 0 then - n else n)"
  have d: "num_fmt demo_libc (of_nat m) = dec_text m" by (simp add: demo_libc_def)
  note m = demo_number_ok [of m, unfolded number_ok_def d]
  have hd: "is_digit (hd (dec_text m))" using dec_text_digits [of m] by (simp add: list_all_iff)
  then have plus: "hd (dec_text m @ r) \<noteq> CHR ''-''" for r by (auto simp: between_def)
  show "number_ok signed_libc (of_int n)"
  proof (cases "n < 0")
    case True
    then have n: "- rat_of_int n = of_nat m" "m \<noteq> 0" by (simp_all add: m_def of_nat_nat)
    then have "dec_text m ! 0 \<noteq> CHR ''0''" using dec_text_no_lead_zero [of m] by (simp add: hd_conv_nth)
    then have "take 2 (CHR ''-'' # dec_text m) \<noteq> ''-0''" by (cases "dec_text m") auto
    moreover have "\<not> list_ex (\<lambda>c. c = CHR ''x'' \<or> c = CHR ''X'') (dec_text m)"
      using m unfolding is_decimal_def by (simp split: if_splits)
    ultimately have "is_decimal (CHR ''-'' # dec_text m)" by (simp add: is_decimal_def)
    then show ?thesis using True m n(1) d by (auto simp: number_ok_def signed_libc_def)
  next
    case False
    then have "rat_of_int n = of_nat m" by (simp add: m_def of_nat_nat)
    then show ?thesis using False m d plus by (simp add: number_ok_def signed_libc_def)
  qed
qed

definition demo_cli_env :: "(string \<Rightarrow> string option) \<Rightarrow> cli_env" where
  "demo_cli_env getenv = \<lparr>ce_libc = signed_libc, ce_getenv = getenv, ce_malloc = True, ce_runner = (\<lambda>_. demo_runner_env), ce_fail = (\<lambda>_. False),
     ce_pid = 4711, ce_alive = (\<lambda>_. True), ce_kill = (\<lambda>_. True), ce_output = True, ce_garbage = 0\<rparr>"

definition demo_cli :: "file_sys \<Rightarrow> cli" where
  "demo_cli fs = \<lparr>cl_runner = first_runner fs, cl_calls = 0, cl_log = []\<rparr>"

lemma demo_plain: "plain_spec ''web'' ''h'' 7777"
proof -
  have "list_all (\<lambda>c. ord c < 0x80) (dec_text 7777)" using dec_text_digits [of 7777] by (auto simp: list_all_iff between_def)
  then have "is_valid_utf8 (peer_spec ''web'' ''h'' 7777)" unfolding peer_spec_def by (intro ascii_valid_utf8) simp
  then show ?thesis by (simp add: plain_spec_def token_iffs is_alnum_def between_def NUL_def macros)
qed

lemma demo_slot: "\<exists>rn. kc_redp2p_runner_slot_alloc (runner_env_at (demo_cli_env getenv) 0) (first_runner fs) = (Some 1, rn) \<and> length (rn_slots rn) = 8"
  by (simp add: runner_env_at_def demo_cli_env_def kc_redp2p_runner_slot_alloc_def first_runner_def grow_table_def Let_def)

theorem command_line_starts_publisher_witness:
  "\<exists>args st'. main_program (demo_cli_env (\<lambda>_. None)) [] [''redp2p'', ''pub'', peer_spec ''web'' ''h'' 7777, protocol_option REDP2P_PROTO_UDP, dec_text 80]
      (demo_cli (\<lambda>_. None)) = operate (demo_cli_env (\<lambda>_. None)) [] False ''failed to create context: '' ''pub exited: ''
      ''waiting for connections...'' [] args (demo_cli (\<lambda>_. None)) \<and>
    cli_runner_open (demo_cli_env (\<lambda>_. None)) (cli_runner_root ''open'' args) (demo_cli (\<lambda>_. None)) = Some (Inr 1, st') \<and>
    sl_self_id (slot_at (cl_runner st') 0) = ''web'' \<and> sl_index_host (slot_at (cl_runner st') 0) = ''h''"
proof -
  let ?env = "demo_cli_env (\<lambda>_. None)" and ?st = "demo_cli (\<lambda>_. None)"
  have d: "cl_calls ?st = 0" "cl_runner ?st = first_runner (\<lambda>_. None)" by (simp_all add: demo_cli_def)
  obtain rn where rn: "kc_redp2p_runner_slot_alloc (runner_env_at ?env (cl_calls ?st)) (cl_runner ?st) = (Some 1, rn)" "length (rn_slots rn) = 8"
    using demo_slot [of "\<lambda>_. None" "\<lambda>_. None"] unfolding d by blast
  have e: "ce_getenv ?env = (\<lambda>_. None)" "prints_integers (ce_libc ?env)" "runner_ok (cl_runner ?st)" "re_calloc (ce_runner ?env (cl_calls ?st))"
    "re_create (ce_runner ?env (cl_calls ?st))"
    by (simp_all add: demo_cli_env_def signed_prints demo_runner_env_def demo_cli_def first_runner_ok)
  note t = command_line_starts_publisher [OF demo_plain _ _ _ e rn(1), of REDP2P_PROTO_UDP 80 "[]" "''redp2p''"]
  show ?thesis using t rn(2) by auto
qed

theorem down_refused_by_default_witness:
  "main_program (demo_cli_env (\<lambda>_. None)) [] [''redp2p'', ''pub'', peer_spec ''web'' ''h'' 7777, ''--down''] (demo_cli (\<lambda>_. None)) =
      Some (1, complain ''--down cannot be combined with --tcp, --udp, --sweep, or --stun'' (demo_cli (\<lambda>_. None))) \<and>
    main_program (demo_cli_env (\<lambda>_. None)) [] [''redp2p'', ''pub'', peer_spec ''web'' ''h'' 7777, ''--down'', ''--sweep'', ''0''] (demo_cli (\<lambda>_. None)) =
      Some (bring_down (demo_cli_env (\<lambda>_. None)) ''pub'' (peer_spec ''web'' ''h'' 7777) (demo_cli (\<lambda>_. None)))"
  using down_refused_by_default [OF demo_plain, of "''pub''" "''--down''" "demo_cli_env (\<lambda>_. None)" "[]" "''redp2p''" "demo_cli (\<lambda>_. None)"]
  by (simp add: demo_cli_env_def)

definition demo_state_dir :: "string \<Rightarrow> string option" where
  "demo_state_dir = (\<lambda>x. if x = ''REDP2P_STATE_DIR'' then Some ''/s'' else None)"

theorem background_index_not_stopped_witness:
  "\<exists>p st. fst (cli_pid_write (demo_cli_env demo_state_dir) p (\<lambda>_. None)) = 1 \<and>
    main_program (demo_cli_env demo_state_dir) [] [''redp2p'', ''idx'', dec_text 9876, ''--down''] st =
      Some (1, complain ''invalid PID file'' (set_fs (remove_path (demo_cli_env demo_state_dir) p (cl_fs st)) st))"
proof -
  let ?env = "demo_cli_env demo_state_dir" and ?p = "''/s'' @ ''/pids/idx_'' @ dec_text 9876 @ ''.pid''"
  have e: "ce_getenv ?env = (\<lambda>x. if x = ''REDP2P_STATE_DIR'' then Some ''/s'' else None)" "\<not> ce_fail ?env (Make_dir ?p)"
    by (simp_all add: demo_cli_env_def demo_state_dir_def)
  have f: "cl_fs (demo_cli (snd (cli_pid_write ?env ?p (\<lambda>_. None)))) = snd (cli_pid_write ?env ?p (\<lambda>_. None))"
    by (simp add: cl_fs_def demo_cli_def first_runner_def)
  have "length ''/s'' \<le> 900" "''/s'' \<noteq> []" "(0::nat) < 9876" "(9876::nat) \<le> 65535" by simp_all
  from background_index_not_stopped [OF e(1) refl this(2,1,3,4) refl refl e(2) f, of "[]" "''redp2p''"] show ?thesis by blast
qed

definition demo_seats :: "string \<Rightarrow> string option" where
  "demo_seats = (\<lambda>x. if x = ''REDP2P_SEATS'' then Some ''5'' else None)"

theorem seats_variable_admits_nobody_witness:
  "(\<exists>args ctx. main_program (demo_cli_env demo_seats) [] [''redp2p'', ''idx'', dec_text 9876] (demo_cli (\<lambda>_. None)) =
      operate (demo_cli_env demo_seats) [] True ''failed to create context: '' ''index exited: ''
        (''index server listening on port '' @ dec_text 9876) [] args (demo_cli (\<lambda>_. None)) \<and>
    map_option snd (configure demo_runner_env ''idx'' 1 args zero_slot) = Some ctx \<and>
    fst (redp2p_add_peer (\<lambda>_. True) None 0 ctx ''web'') = REDP2P_EFULL) \<and>
   main_program (demo_cli_env (\<lambda>x. if x = ''REDP2P_SEATS'' then Some ''many'' else None)) [] [''redp2p'', ''idx'', dec_text 9876]
     (demo_cli (\<lambda>_. None)) = Some (1, complain ''failed to load index options'' (demo_cli (\<lambda>_. None)))"
proof
  have e: "ce_getenv (demo_cli_env demo_seats) = (\<lambda>x. if x = ''REDP2P_SEATS'' then Some ''5'' else None)"
    "ce_getenv (demo_cli_env (\<lambda>x. if x = ''REDP2P_SEATS'' then Some ''many'' else None)) =
      (\<lambda>x. if x = ''REDP2P_SEATS'' then Some ''many'' else None)"
    by (simp_all add: demo_cli_env_def demo_seats_def)
  have v: "parse_size (Some ''5'') = Some 5" "parse_size (Some ''many'') = None" by (simp_all add: parse_size_def between_def)
  have c: "(5::nat) \<le> SIZE_MAX div sizeof_peer" "re_calloc demo_runner_env" by (simp_all add: macros demo_runner_env_def)
  from seats_variable_admits_nobody [OF e(1) _ _ c(2), of 9876 "[]" "''redp2p''" "demo_cli (\<lambda>_. None)" 1 zero_slot
      "\<lambda>_. True" None 0 "''web''"]
  show "\<exists>args ctx. main_program (demo_cli_env demo_seats) [] [''redp2p'', ''idx'', dec_text 9876] (demo_cli (\<lambda>_. None)) =
      operate (demo_cli_env demo_seats) [] True ''failed to create context: '' ''index exited: ''
        (''index server listening on port '' @ dec_text 9876) [] args (demo_cli (\<lambda>_. None)) \<and>
    map_option snd (configure demo_runner_env ''idx'' 1 args zero_slot) = Some ctx \<and>
    fst (redp2p_add_peer (\<lambda>_. True) None 0 ctx ''web'') = REDP2P_EFULL"
    using v(1) c(1) by auto
  from seats_variable_admits_nobody [OF e(2) _ _ c(2), of 9876 "[]" "''redp2p''" "demo_cli (\<lambda>_. None)"]
  show "main_program (demo_cli_env (\<lambda>x. if x = ''REDP2P_SEATS'' then Some ''many'' else None)) [] [''redp2p'', ''idx'', dec_text 9876]
     (demo_cli (\<lambda>_. None)) = Some (1, complain ''failed to load index options'' (demo_cli (\<lambda>_. None)))"
    using v(2) by simp
qed

end
