(* ===== verification/Command_Line_Safety.thy ===== *)
theory Command_Line_Safety
  imports Command_Line_Behaviour
begin

text \<open>
  What the program leaves behind: whatever its arguments, its environment and what happens while it
  waits, every operation it has started has ended and been released when it exits.
\<close>

section \<open>What a handle holds\<close>

text \<open>No slot has a context, and only the slot of one handle has one.\<close>

definition idle :: "runner \<Rightarrow> bool" where
  "idle rn \<longleftrightarrow> (\<forall>i < rn_count rn. sl_ctx (slot_at rn i) = None)"

definition held :: "int \<Rightarrow> runner \<Rightarrow> bool" where
  "held h rn \<longleftrightarrow> runner_ok rn \<and> (\<forall>i < rn_count rn. sl_ctx (slot_at rn i) \<noteq> None \<longrightarrow> h = int i + 1)"

definition same_contexts :: "runner \<Rightarrow> runner \<Rightarrow> bool" where
  "same_contexts rn rn' \<longleftrightarrow> rn_count rn' = rn_count rn \<and> (\<forall>i < rn_count rn. sl_ctx (slot_at rn' i) = sl_ctx (slot_at rn i))"

lemma idle_nothing:
  assumes "runner_ok rn" "idle rn"
  shows "rn_ctxs rn a = None" "rn_threads rn t = None"
proof -
  show "rn_ctxs rn a = None" using runner_okD(5) [OF assms(1), of a] assms(2) by (force simp: idle_def)
  show "rn_threads rn t = None"
    using runner_okD(6) [OF assms(1), of t] assms(2) by (cases "rn_threads rn t") (auto simp: idle_def thread_ok_def)
qed

lemma idle_held: "runner_ok rn \<Longrightarrow> idle rn \<Longrightarrow> held h rn"
  by (simp add: held_def idle_def)

lemma held_same: "held h rn \<Longrightarrow> runner_ok rn' \<Longrightarrow> same_contexts rn rn' \<Longrightarrow> held h rn'"
  by (simp add: held_def same_contexts_def)

lemma same_table_contexts: "same_table rn rn' \<Longrightarrow> same_contexts rn rn'"
  by (simp add: same_table_def same_contexts_def)

lemma idle_same: "same_contexts rn rn' \<Longrightarrow> idle rn' = idle rn"
  by (simp add: same_contexts_def idle_def)

interpretation ending: kept_by_steps "\<lambda>(t, te). redp2p_runner_thread te t" "held h" for h
proof unfold_locales
  fix a :: "nat \<times> thread_env" and rn rn'
  assume h: "held h rn" and step: "(case a of (t, te) \<Rightarrow> redp2p_runner_thread te t) rn = Some rn'"
  then obtain t te where "redp2p_runner_thread te t rn = Some rn'" by (cases a) auto
  from thread_ends_ok [OF _ this] h show "held h rn'" by (intro held_same [OF h]) (auto simp: held_def same_contexts_def)
qed

lemma end_threads_run:
  "end_threads ends st = map_option (\<lambda>rn. st\<lparr>cl_runner := rn\<rparr>) (step_run (\<lambda>(t, te). redp2p_runner_thread te t) ends (cl_runner st))"
  by (induction ends st rule: end_threads.induct) (auto split: option.split)

lemma stop_same:
  assumes "runner_ok st" "redp2p_runner_stop env obj st = Some (r, st')"
  shows "same_contexts st st'"
proof (cases "handle_slot obj st")
  case (Some hi)
  obtain h i where hi: "hi = (h, i)" by fastforce
  have i: "i < rn_count (stop_running i st)" using handle_slot_count Some by (simp add: hi stop_running_table)
  obtain st1 where 1: "redp2p_runner_thread_join (re_join env) i (stop_running i st) = Some st1"
    "st' = set_slot i ((slot_at st1 i)\<lparr>sl_state := REDP2P_RUNNER_STATE_FINISHED\<rparr>) st1"
    using assms(2) Some by (auto simp: redp2p_runner_stop_def hi)
  note j = join_ok [OF stop_running_ok [OF assms(1)] 1(1) i]
  show ?thesis using i j(2,5) runner_okD(1) [OF j(1)] by (simp add: 1(2) same_contexts_def stop_running_table nth_list_update)
qed (use assms in \<open>simp add: redp2p_runner_stop_def same_contexts_def\<close>)

lemma close_same:
  assumes "runner_ok st" "redp2p_runner_close env obj st = Some (r, st')"
  shows "rn_count st' = rn_count st \<and>
    (\<forall>j < rn_count st. sl_ctx (slot_at st' j) = (if map_option snd (handle_slot obj st) = Some j then None else sl_ctx (slot_at st j)))"
proof (cases "handle_slot obj st")
  case (Some hi)
  obtain h i where hi: "hi = (h, i)" by fastforce
  have i: "i < rn_count (stop_running i st)" using handle_slot_count Some by (simp add: hi stop_running_table)
  obtain st1 where 1: "redp2p_runner_thread_join (re_join env) i (stop_running i st) = Some st1" "st' = release_slot i st1"
    using assms(2) Some by (auto simp: redp2p_runner_close_def hi)
  note j = join_ok [OF stop_running_ok [OF assms(1)] 1(1) i]
  show ?thesis using j(2,5) runner_okD(1) [OF j(1)]
    by (auto simp: 1(2) Some hi release_slot_def Let_def stop_running_table nth_list_update split: option.split)
qed (use assms in \<open>simp add: redp2p_runner_close_def\<close>)

section \<open>The calls of the program\<close>

lemma c_int_id: "- (2 ^ 31) \<le> h \<Longrightarrow> h < 2 ^ 31 \<Longrightarrow> c_int h = h"
  by (simp add: c_int_def signed_of_int signed_take_bit_int_eq_self)

lemma c_int_of_range: "- (2 ^ 31) \<le> c_int_of q \<and> c_int_of q < 2 ^ 31"
  by (simp add: c_int_of_def Let_def)

lemma handle_args_slot:
  assumes "- (2 ^ 31) \<le> h" "h < 2 ^ 31"
  shows "handle_slot (handle_args h) rn = (if h < 1 \<or> h > int (rn_count rn) then None else Some (h, nat (h - 1)))"
  using assms c_int_id [OF assms]
  by (simp add: handle_slot_def handle_args_def json_object_set_number_def json_object_get_value_def kc_redp2p_runner_slot_get_def c_long_def)

lemma handle_call:
  assumes "prints_integers (ce_libc env)" "- (2 ^ 31) \<le> h" "h < 2 ^ 31" "cmd \<in> {''status'', ''stop'', ''close''}"
  shows "cli_runner_call env (cli_runner_root cmd (handle_args h)) st =
    map_option (\<lambda>(r, rn). (case r of None \<Rightarrow> Inl (Some ''unknown command or invalid arguments'') | Some t \<Rightarrow> Inr t,
                           st\<lparr>cl_runner := rn, cl_calls := cl_calls st + 1\<rparr>))
      (run_command (runner_env_at env (cl_calls st)) cmd (handle_args h) (cl_runner st))"
proof (rule request_received)
  show "is_valid_utf8 cmd" using assms(4) by (intro ascii_valid_utf8) auto
  then show "json_ok (ce_libc env) 0 (cli_runner_root cmd (handle_args h))"
    using prints_int [OF assms(1-3)]
    by (simp add: cli_runner_root_def handle_args_def set_plain_string json_object_set_number_def MAX_NESTING_def NUL_def)
  show "NUL \<notin> set cmd" using assms(4) by (auto simp: NUL_def)
qed

lemma call_held:
  assumes "prints_integers (ce_libc env)" "- (2 ^ 31) \<le> h" "h < 2 ^ 31" "held h (cl_runner st)"
    and "cli_runner_call env (cli_runner_root cmd (handle_args h)) st = Some (r, st')" "cmd \<in> {''status'', ''stop'', ''close''}"
  shows "held h (cl_runner st') \<and> (cmd = ''close'' \<longrightarrow> idle (cl_runner st'))"
proof -
  let ?e = "runner_env_at env (cl_calls st)" and ?rn = "cl_runner st"
  obtain x rn' where run: "run_command ?e cmd (handle_args h) ?rn = Some (x, rn')" and st': "cl_runner st' = rn'"
    using assms(5) unfolding handle_call [OF assms(1-3,6)] by auto
  have ok: "runner_ok ?rn" using assms(4) by (simp add: held_def)
  consider "rn' = ?rn" "cmd = ''status''" | "redp2p_runner_stop ?e (handle_args h) ?rn = Some (x, rn')" "cmd = ''stop''"
    | "redp2p_runner_close ?e (handle_args h) ?rn = Some (x, rn')" "cmd = ''close''"
    using run assms(6) by (auto simp: run_command_def)
  then show ?thesis
  proof cases
    case 2
    then show ?thesis using held_same [OF assms(4) stop_ok [OF ok 2(1)] stop_same [OF ok 2(1)]] by (simp add: st')
  next
    case 3
    have "idle rn'"
      using close_same [OF ok 3(1)] assms(4) by (auto simp: idle_def held_def handle_args_slot [OF assms(2,3)])
    then show ?thesis using idle_held close_ok [OF ok 3(1)] by (simp add: st')
  qed (use assms(4) st' in simp)
qed

lemma wait_held:
  assumes "prints_integers (ce_libc env)" "- (2 ^ 31) \<le> h" "h < 2 ^ 31"
  shows "held h (cl_runner st) \<Longrightarrow> cli_runner_wait env rds h st = Some (rc, er, e, st') \<Longrightarrow> held h (cl_runner st')"
proof (induction rds arbitrary: st)
  case (Cons rd rds)
  note call = call_held [OF assms]
  obtain st1 where 1: "end_threads (rd_ends rd) st = Some st1" using Cons.prems(2) by (auto split: option.splits)
  have h: "held h (cl_runner st1)" using 1 ending.run_keeps [OF Cons.prems(1)] by (auto simp: end_threads_run)
  show ?case
  proof (cases "rd_signal rd")
    case True
    obtain r2 r3 st2 where "cli_runner_call env (cli_runner_root ''stop'' (handle_args h)) st1 = Some (r2, st2)"
      "cli_runner_call env (cli_runner_root ''close'' (handle_args h)) st2 = Some (r3, st')"
      using Cons.prems(2) 1 True by (auto simp: cli_runner_stop_def cli_runner_close_def split: option.splits)
    then show ?thesis using call [OF h] call by blast
  next
    case False
    obtain r st2 where 2: "cli_runner_call env (cli_runner_root ''status'' (handle_args h)) st1 = Some (r, st2)"
      using Cons.prems(2) 1 False by (auto split: option.splits)
    have "held h (cl_runner st2)" using call [OF h 2] by simp
    then show ?thesis using Cons.prems(2) 1 2 False Cons.IH by (auto split: sum.splits wait_state.splits)
  qed
qed simp

section \<open>Opening\<close>

lemma open_from_idle:
  assumes "runner_ok rn" "idle rn" "redp2p_runner_open env args rn = (r, rn')"
  shows "runner_ok rn' \<and> (idle rn' \<or> (\<exists>i \<le> rn_count rn. held (int i + 1) rn' \<and>
    r = redp2p_run_wrap (re_libc env) (json_object_set_number [] ''handle'' (of_nat (i + 1))) (int (i + 1))))"
proof -
  have ok: "runner_ok rn'" using open_ok [OF assms(1,3)] .
  have others: "sl_ctx (slot_at st1 j) = None" if "claimed i rn st1" "j < rn_count st1" "j \<noteq> i" for i j st1
    using that assms(2) by (auto simp: claimed_def idle_def)
  from assms(3) runner_okD(1) [OF assms(1)] show ?thesis
  proof (cases rule: open_cases)
    case (failed i s st1)
    then have "idle rn'" using others by (auto simp: idle_def nth_list_update claimed_def)
    then show ?thesis using ok by simp
  next
    case (started i s st1 ctx)
    have "held (int i + 1) rn'"
      using ok others [OF started(1)] started(1,2)
      by (auto simp: held_def redp2p_runner_thread_start_def Let_def nth_list_update claimed_def)
    then show ?thesis using ok started(1,6) by (auto simp: claimed_def)
  qed (use ok assms(2) in simp)
qed

text \<open>Whatever a request is, a runner without operations has at most one after it, and then replies with its handle.\<close>

lemma run_from_idle:
  assumes "runner_ok rn" "idle rn" "kc_redp2p_run env payload rn = Some (r, rn')"
  shows "runner_ok rn' \<and> (idle rn' \<or> (\<exists>i \<le> rn_count rn. \<exists>t. held (int i + 1) rn' \<and> r = Inr t \<and>
    redp2p_run_wrap (re_libc env) (json_object_set_number [] ''handle'' (of_nat (i + 1))) (int (i + 1)) = Some t))"
proof -
  have ok: "runner_ok rn'" using run_ok [OF assms(1,3)] .
  consider "rn' = rn" | cmd args x where "run_command env cmd args rn = Some (x, rn')"
    "r = (case x of None \<Rightarrow> Inl ''unknown command or invalid arguments'' | Some t \<Rightarrow> Inr t)"
    using assms(3) by (auto simp: kc_redp2p_run_def split: option.splits)
  then show ?thesis
  proof cases
    case 2
    consider "rn' = rn" | "redp2p_runner_open env args rn = (x, rn')" | "redp2p_runner_stop env args rn = Some (x, rn')"
      | "redp2p_runner_close env args rn = Some (x, rn')" | "redp2p_runner_del env args rn = (x, rn')" | "redp2p_runner_list env args rn = (x, rn')"
      using 2(1) by (auto simp: run_command_def split: if_splits)
    then show ?thesis
    proof cases
      case opened: 2
      note o = open_from_idle [OF assms(1,2) opened]
      show ?thesis
      proof (cases "idle rn'")
        case False
        then obtain i where i: "i \<le> rn_count rn" "held (int i + 1) rn'"
          "x = redp2p_run_wrap (re_libc env) (json_object_set_number [] ''handle'' (of_nat (i + 1))) (int (i + 1))"
          using o by blast
        moreover obtain t where t: "redp2p_run_wrap (re_libc env) (json_object_set_number [] ''handle'' (of_nat (i + 1))) (int (i + 1)) = Some t"
          using run_wrap_Some by blast
        ultimately have "r = Inr t" using 2(2) by simp
        then show ?thesis using ok i(1,2) t by blast
      qed (use ok in simp)
    next
      case 3
      then show ?thesis using ok idle_same [OF stop_same [OF assms(1) 3]] assms(2) by simp
    next
      case 4
      then show ?thesis using ok close_same [OF assms(1) 4] assms(2) by (auto simp: idle_def)
    next
      case 5
      then show ?thesis using ok idle_same [OF same_table_contexts [OF one_shot_table(1)]] assms(2) by (metis snd_conv)
    next
      case 6
      then show ?thesis using ok idle_same [OF same_table_contexts [OF one_shot_table(2)]] assms(2) by (metis snd_conv)
    qed (use assms(2) ok in simp)
  qed (use assms(2) ok in simp)
qed

definition clean :: "cli \<Rightarrow> bool" where
  "clean st \<longleftrightarrow> runner_ok (cl_runner st) \<and> idle (cl_runner st)"

lemma open_held:
  assumes "prints_integers (ce_libc env)" "clean st" "rn_count (cl_runner st) < 2 ^ 31 - 1"
    and "cli_runner_open env req st = Some (r, st')"
  shows "case r of Inl e \<Rightarrow> clean st' | Inr h \<Rightarrow> held h (cl_runner st') \<and> - (2 ^ 31) \<le> h \<and> h < 2 ^ 31"
proof -
  let ?e = "runner_env_at env (cl_calls st)"
  have libc: "re_libc ?e = ce_libc env" by (simp add: runner_env_at_def)
  obtain x rn' where run: "kc_redp2p_run ?e (Some (ser (ce_libc env) req)) (cl_runner st) = Some (x, rn')"
    using assms(4) by (auto simp: cli_runner_open_def cli_runner_call_def serialized)
  have st': "cl_runner st' = rn'"
    and r: "r = (case x of Inl e \<Rightarrow> Inl (Some e) | Inr result \<Rightarrow>
           (case Option.bind (json_parse_string (ce_libc env) result) json_value_get_object of
              None \<Rightarrow> Inl None
            | Some obj \<Rightarrow> (case json_object_get_value obj ''handle'' of Some (JSONNumber q) \<Rightarrow> Inr (c_int_of q) | _ \<Rightarrow> Inl None)))"
    using assms(4) run by (cases x; auto simp: cli_runner_open_def cli_runner_call_def serialized)+
  have ok: "runner_ok (cl_runner st)" "idle (cl_runner st)" using assms(2) by (simp_all add: clean_def)
  from run_from_idle [OF ok run] consider "runner_ok rn'" "idle rn'"
    | i t where "i \<le> rn_count (cl_runner st)" "held (int i + 1) rn'" "x = Inr t"
        "redp2p_run_wrap (ce_libc env) (json_object_set_number [] ''handle'' (of_nat (i + 1))) (int (i + 1)) = Some t"
    unfolding libc by blast
  then show ?thesis
  proof cases
    case 1
    then show ?thesis
      using idle_held c_int_of_range by (auto simp: r st' clean_def split: sum.splits option.splits JSON_Value.splits)
  next
    case 2
    have i: "i + 1 < 2 ^ 31" using 2(1) assms(3) by simp
    have "json_parse_string (ce_libc env) t =
       Some (JSONObject [(''result'', JSONObject [(''handle'', JSONNumber (of_nat (i + 1)))]), (''handle'', JSONNumber (of_nat (i + 1)))])"
      using handle_reply [OF assms(1) i] 2(4) by auto
    then have "r = Inr (int i + 1)" using c_int_of_nat [OF i] by (simp add: r 2(3) json_object_get_value_def)
    then show ?thesis using 2(2) i st' by simp
  qed
qed

section \<open>The program\<close>

lemma quiet_runner [simp]:
  "cl_runner (say e st) = cl_runner st" "runner_ok (cl_runner (set_fs fs st)) = runner_ok (cl_runner st)"
  "idle (cl_runner (set_fs fs st)) = idle (cl_runner st)" "held h (cl_runner (set_fs fs st)) = held h (cl_runner st)"
proof -
  have t: "same_table (cl_runner st) (cl_runner (set_fs fs st))" by (simp add: set_fs_def same_table_def)
  show "runner_ok (cl_runner (set_fs fs st)) = runner_ok (cl_runner st)" by (rule same_table_ok [OF t])
  then show "held h (cl_runner (set_fs fs st)) = held h (cl_runner st)"
    using same_table_contexts [OF t] by (auto simp: held_def same_contexts_def)
  show "idle (cl_runner (set_fs fs st)) = idle (cl_runner st)" by (rule idle_same [OF same_table_contexts [OF t]])
qed (simp add: say_def)

lemma quiet_clean [simp]: "clean (say e st) = clean st" "clean (set_fs fs st) = clean st"
  by (simp_all add: clean_def)

lemma closed_clean:
  assumes "prints_integers (ce_libc env)" "- (2 ^ 31) \<le> h" "h < 2 ^ 31" "held h (cl_runner st)" "cli_runner_close env h st = Some st'"
  shows "clean st'"
  using assms(5) call_held [OF assms(1-4)] by (auto simp: cli_runner_close_def clean_def held_def)

lemma follow_clean:
  assumes "prints_integers (ce_libc env)" "- (2 ^ 31) \<le> h" "h < 2 ^ 31" "held h (cl_runner st)"
    and "follow env rounds always label pidfile h st = Some (code, st')"
  shows "clean st'"
proof -
  obtain rc er e st1 where w: "cli_runner_wait env rounds h st = Some (rc, er, e, st1)"
    using assms(5) by (auto simp: follow_def split: option.splits)
  have h: "held h (cl_runner st1)" using wait_held [OF assms(1-4) w] .
  show ?thesis using assms(5) h by (auto simp: follow_def w Let_def dest!: closed_clean [OF assms(1-3), rotated] split: if_splits)
qed

lemma operate_clean:
  assumes "prints_integers (ce_libc env)" "clean st" "rn_count (cl_runner st) < 2 ^ 31 - 1"
    and "operate env rounds always failed label greeting pidfile args st = Some (code, st')"
  shows "clean st'"
proof -
  obtain r st1 where o: "cli_runner_open env (cli_runner_root ''open'' args) st = Some (r, st1)"
    using assms(4) by (auto simp: operate_def split: option.splits)
  note h = open_held [OF assms(1-3) o]
  show ?thesis
  proof (cases r)
    case (Inl e)
    then show ?thesis using assms(4) o h by (auto simp: operate_def)
  next
    case (Inr handle)
    then show ?thesis using assms(4) o h
      by (auto simp: operate_def Let_def elim!: follow_clean [OF assms(1), rotated -1] split: if_splits)
  qed
qed

lemma bring_down_clean: "clean (snd (bring_down env cmd addr st)) = clean st"
  by (simp add: bring_down_def cli_pid_stop_def Let_def split: option.split)

lemma print_publishers_runner: "cl_runner (snd (kc_redp2p_print_publishers env result st)) = cl_runner st"
proof -
  have "cl_runner (snd (foldl (\<lambda>(fine, st) v. case json_value_get_string v of
                   None \<Rightarrow> (False, st)
                 | Some ident \<Rightarrow> if ce_output env then (fine, say (Stdout ident) st) else (False, st)) (b, st) vs)) = cl_runner st" for b vs
    by (induction vs arbitrary: b st) (auto split: option.split)
  then show ?thesis by (simp add: kc_redp2p_print_publishers_def split: option.split)
qed

lemma list_clean:
  assumes "prints_integers (ce_libc env)" "clean st" "list_publishers env port st = Some (code, st')"
  shows "clean st'"
proof -
  let ?args = "[(''host'', JSONString ''127.0.0.1''), (''port'', JSONNumber (of_int (uint port)))]"
  have u: "is_valid_utf8 ''127.0.0.1''" "is_valid_utf8 ''list''" by (rule ascii_valid_utf8, simp)+
  have "- (2 ^ 31) \<le> uint port" by (rule order.trans [of _ 0]) simp_all
  moreover have "uint port < 2 ^ 31" using uint_lt2p [of port] by simp
  ultimately have n: "number_ok (ce_libc env) (of_int (uint port))" by (rule prints_int [OF assms(1)])
  have "json_ok (ce_libc env) 0 (cli_runner_root ''list'' ?args)"
    using n u by (simp add: cli_runner_root_def set_plain_string MAX_NESTING_def NUL_def)
  from request_received [OF this u(2), of st] obtain r st1 where
    c: "cli_runner_call env (cli_runner_root ''list'' ?args) st = Some (r, st1)"
      "cl_runner st1 = snd (redp2p_runner_list (runner_env_at env (cl_calls st)) ?args (cl_runner st))"
    by (auto simp: run_command_def NUL_def split: prod.splits)
  have t: "same_table (cl_runner st) (cl_runner st1)" unfolding c(2) by (rule one_shot_table(2))
  have c1: "clean st1" using assms(2) same_table_ok [OF t] idle_same [OF same_table_contexts [OF t]] by (simp add: clean_def)
  have "clean x" if "kc_redp2p_print_publishers env result st1 = (b, x)" for result b x
    using print_publishers_runner [of env result st1] that c1 by (simp add: clean_def)
  then show ?thesis
    using assms(3) c(1) u c1
    by (auto simp: list_publishers_def set_plain_string json_object_set_number_def split: sum.splits prod.splits if_splits)
qed

lemma client_main_clean:
  assumes "clean st" "client_main env name cmd argv go st = Some (code, st')"
    and "\<And>a opts spec. go a opts spec st = Some (code, st') \<Longrightarrow> clean st'"
  shows "clean st'"
  using assms bring_down_clean [of env cmd _ st]
  by (auto simp: client_main_def Let_def split: list.splits option.splits sum.splits if_splits prod.splits) (metis snd_conv)+

lemma main_idx_clean:
  assumes "prints_integers (ce_libc env)" "clean st" "rn_count (cl_runner st) < 2 ^ 31 - 1" "main_idx env rounds name argv st = Some (code, st')"
  shows "clean st'"
proof -
  have down: "clean st'" if "bring_down env cmd addr st = (code, st')" for cmd addr
    using bring_down_clean [of env cmd addr st] assms(2) that by simp
  show ?thesis
    using assms(2,4) down list_clean [OF assms(1,2)] operate_clean [OF assms(1-3)]
    by (auto simp: main_idx_def Let_def split: sum.splits option.splits if_splits prod.splits)
qed

text \<open>
  C12: Whatever the arguments, the environment, the operations of the runner and the signals: when the
  program ends, on any path, the runner has no context and no thread left: every operation it
  started has ended, was joined and its context released, exactly once.
\<close>

theorem program_leaves_nothing:
  assumes "prints_integers (ce_libc env)" "cl_runner st = first_runner fs" "main_program env rounds argv st = Some (code, st')"
  shows "rn_ctxs (cl_runner st') a = None \<and> rn_threads (cl_runner st') t = None"
proof -
  have c: "clean st" "rn_count (cl_runner st) < 2 ^ 31 - 1"
    using first_runner_ok [of fs] by (simp_all add: assms(2) clean_def idle_def first_runner_def)
  note o = operate_clean [OF assms(1) c] and i = main_idx_clean [OF assms(1) c]
  have p: "clean st'" if "main_pub env rounds name rest st = Some (code, st')" for name rest
    using that unfolding main_pub_def by (rule client_main_clean [OF c(1)]) (auto split: prod.splits intro: o)
  have k: "clean st'" if "main_con env rounds name rest st = Some (code, st')" for name rest
    using that unfolding main_con_def by (rule client_main_clean [OF c(1)]) (auto split: prod.splits intro: o)
  have "clean st'" using assms(3) c(1) i p k by (auto simp: main_program_def split: list.splits if_splits)
  then show ?thesis using idle_nothing by (simp add: clean_def)
qed

section \<open>A signal\<close>

text \<open>A thread environment under which a publisher or consumer ends, whatever its slot and context.\<close>

definition runs_out :: "thread_env \<Rightarrow> bool" where
  "runs_out te \<longleftrightarrow> (\<forall>s ctx rn. sl_op s = REDP2P_RUNNER_OP_PUB \<or> sl_op s = REDP2P_RUNNER_OP_CON \<longrightarrow> run_operation te s ctx rn \<noteq> None)"

lemma stop_runs_out: "\<exists>tn \<in> set (te_turns te). tn_stop tn \<Longrightarrow> runs_out te"
  unfolding runs_out_def by (intro allI impI stopped_by_turn)

text \<open>A runner that has a first slot and runs only publishers and consumers.\<close>

definition serving :: "runner \<Rightarrow> bool" where
  "serving rn \<longleftrightarrow> runner_ok rn \<and> 0 < rn_count rn \<and>
     (\<forall>t th. rn_threads rn t = Some th \<longrightarrow> sl_op (th_slot th) = REDP2P_RUNNER_OP_PUB \<or> sl_op (th_slot th) = REDP2P_RUNNER_OP_CON)"

lemma thread_gone: "redp2p_runner_thread te t rn = Some rn' \<Longrightarrow> rn_threads rn' = (rn_threads rn)(t := None)"
proof (cases "rn_threads rn t")
  case (Some th)
  assume "redp2p_runner_thread te t rn = Some rn'"
  moreover have "run_operation te s ctx rn = Some (r, ctx', rn1) \<Longrightarrow> rn_threads rn1 = rn_threads rn" for s ctx r ctx' rn1
    by (auto simp: run_operation_def Let_def split: if_splits prod.splits)
  ultimately show ?thesis using Some
    by (auto simp: redp2p_runner_thread_def Let_def split: option.splits prod.splits if_splits)
qed (auto simp: redp2p_runner_thread_def)

lemma serving_thread:
  assumes "serving rn" "runs_out te"
  shows "\<exists>rn'. redp2p_runner_thread te t rn = Some rn' \<and> serving rn'"
proof -
  have "redp2p_runner_thread te t rn \<noteq> None"
  proof (cases "rn_threads rn t")
    case (Some th)
    then have "sl_op (th_slot th) = REDP2P_RUNNER_OP_PUB \<or> sl_op (th_slot th) = REDP2P_RUNNER_OP_CON" "runner_ok rn"
      using assms(1) unfolding serving_def by blast+
    then show ?thesis using assms(2) unfolding runs_out_def by (intro thread_ends [OF _ Some]) blast+
  qed (simp add: redp2p_runner_thread_def)
  then obtain rn' where 1: "redp2p_runner_thread te t rn = Some rn'" by blast
  have "serving rn'"
    using thread_ends_ok(1,3) [OF _ 1] thread_gone [OF 1] assms(1) by (auto simp: serving_def split: if_splits)
  with 1 show ?thesis by blast
qed

lemma serving_ends:
  "serving (cl_runner st) \<Longrightarrow> \<forall>(t, te) \<in> set es. runs_out te \<Longrightarrow> \<exists>st'. end_threads es st = Some st' \<and> serving (cl_runner st')"
proof (induction es arbitrary: st)
  case (Cons e es)
  obtain t te where e: "e = (t, te)" by fastforce
  obtain rn' where "redp2p_runner_thread te t (cl_runner st) = Some rn'" "serving rn'"
    using serving_thread [OF Cons.prems(1), of te t] Cons.prems(2) e by auto
  then show ?case using Cons.IH [of "st\<lparr>cl_runner := rn'\<rparr>"] Cons.prems(2) e by simp
qed simp

lemma serving_join:
  assumes "serving rn" "runs_out (re_join env)" "handle_slot obj rn = Some (h, i)"
  shows "\<exists>rn'. redp2p_runner_thread_join (re_join env) i (stop_running i rn) = Some rn' \<and>
    (\<forall>t th. rn_threads rn' t = Some th \<longrightarrow> rn_threads rn t = Some th) \<and> rn_count rn' = rn_count rn"
proof -
  have s: "serving (stop_running i rn)"
    using assms(1) stop_running_ok by (auto simp: serving_def stop_running_table)
  obtain rn1 where 1: "redp2p_runner_thread (re_join env) (sl_thread (slot_at (stop_running i rn) i)) (stop_running i rn) = Some rn1"
    using serving_thread [OF s assms(2)] by blast
  have "runner_ok (stop_running i rn)" using s by (simp add: serving_def)
  with 1 thread_gone [OF 1] thread_ends_ok(3) [OF _ 1] show ?thesis
    by (auto simp: redp2p_runner_thread_join_def stop_running_table split: if_splits)
qed

lemma serving_stop:
  assumes "serving rn" "runs_out (re_join env)" "handle_slot obj rn = Some (h, i)"
  shows "\<exists>x rn'. redp2p_runner_stop env obj rn = Some (x, rn') \<and> serving rn'"
proof -
  obtain rn1 where 1: "redp2p_runner_thread_join (re_join env) i (stop_running i rn) = Some rn1"
    "\<forall>t th. rn_threads rn1 t = Some th \<longrightarrow> rn_threads rn t = Some th" "rn_count rn1 = rn_count rn"
    using serving_join [OF assms] by blast
  obtain x rn' where 2: "redp2p_runner_stop env obj rn = Some (x, rn')" "rn_threads rn' = rn_threads rn1" "rn_count rn' = rn_count rn1"
    using 1(1) assms(3) by (simp add: redp2p_runner_stop_def)
  have "runner_ok rn'" using stop_ok [OF _ 2(1)] assms(1) by (simp add: serving_def)
  with 1 2 assms(1) show ?thesis by (auto simp: serving_def)
qed

lemma serving_close:
  assumes "serving rn" "runs_out (re_join env)" "handle_slot obj rn = Some (h, i)"
  shows "\<exists>x rn'. redp2p_runner_close env obj rn = Some (x, rn') \<and> serving rn'"
proof -
  obtain rn1 where 1: "redp2p_runner_thread_join (re_join env) i (stop_running i rn) = Some rn1"
    "\<forall>t th. rn_threads rn1 t = Some th \<longrightarrow> rn_threads rn t = Some th" "rn_count rn1 = rn_count rn"
    using serving_join [OF assms] by blast
  have r: "rn_threads (release_slot i rn1) = rn_threads rn1" "rn_count (release_slot i rn1) = rn_count rn1"
    by (simp_all add: release_slot_def Let_def split: option.split)
  obtain x rn' where 2: "redp2p_runner_close env obj rn = Some (x, rn')" "rn' = release_slot i rn1"
    using 1(1) assms(3) by (simp add: redp2p_runner_close_def)
  have "runner_ok rn'" using close_ok [OF _ 2(1)] assms(1) by (simp add: serving_def)
  with 1 2 r assms(1) show ?thesis by (auto simp: serving_def)
qed

text \<open>The calls on the first handle, in a program whose joined threads come to see a stop request.\<close>

lemma serving_call:
  assumes "prints_integers (ce_libc env)" "\<And>k. runs_out (re_join (ce_runner env k))" "serving (cl_runner st)"
    "cmd \<in> {''status'', ''stop'', ''close''}"
  shows "\<exists>r st'. cli_runner_call env (cli_runner_root cmd (handle_args 1)) st = Some (r, st') \<and> serving (cl_runner st')"
proof -
  have r: "- (2 ^ 31) \<le> (1::int)" "(1::int) < 2 ^ 31" by simp_all
  have h: "handle_slot (handle_args 1) (cl_runner st) = Some (1, 0)"
    using assms(3) by (simp add: handle_args_slot [OF r] serving_def)
  have j: "runs_out (re_join (runner_env_at env k))" for k using assms(2) by (simp add: runner_env_at_def)
  have "\<exists>x rn'. run_command (runner_env_at env (cl_calls st)) cmd (handle_args 1) (cl_runner st) = Some (x, rn') \<and> serving rn'"
    using assms(3,4) serving_stop [OF assms(3) j h] serving_close [OF assms(3) j h] by (auto simp: run_command_def)
  then show ?thesis unfolding handle_call [OF assms(1) r assms(4)] by auto
qed

lemma signal_seen:
  assumes "prints_integers (ce_libc env)" "\<And>k. runs_out (re_join (ce_runner env k))"
  shows "serving (cl_runner st) \<Longrightarrow> \<forall>r \<in> set (before @ [rd]). \<forall>(t, te) \<in> set (rd_ends r). runs_out te \<Longrightarrow> rd_signal rd \<Longrightarrow>
    \<exists>rc er e st'. cli_runner_wait env (before @ rd # after) 1 st = Some (rc, er, e, st') \<and> serving (cl_runner st')"
proof (induction before arbitrary: st)
  note call = serving_call [OF assms]
  have signalled: "\<exists>st'. Option.bind (cli_runner_stop env 1 st) (cli_runner_close env 1) = Some st' \<and> serving (cl_runner st')"
    if s: "serving (cl_runner st)" for st
  proof -
    obtain r1 st1 where 1: "cli_runner_call env (cli_runner_root ''stop'' (handle_args 1)) st = Some (r1, st1)" "serving (cl_runner st1)"
      using call [OF s, of "''stop''"] by auto
    obtain r2 st2 where "cli_runner_call env (cli_runner_root ''close'' (handle_args 1)) st1 = Some (r2, st2)" "serving (cl_runner st2)"
      using call [OF 1(2), of "''close''"] by auto
    with 1 show ?thesis by (simp add: cli_runner_stop_def cli_runner_close_def)
  qed
  { case Nil
    obtain st1 where 1: "end_threads (rd_ends rd) st = Some st1" "serving (cl_runner st1)"
      using serving_ends [OF Nil.prems(1), of "rd_ends rd"] Nil.prems(2) by auto
    then show ?case using signalled [OF 1(2)] Nil.prems(3) by (auto split: option.splits simp: bind_eq_Some_conv)
  next
    case (Cons r before)
    obtain st1 where 1: "end_threads (rd_ends r) st = Some st1" "serving (cl_runner st1)"
      using serving_ends [OF Cons.prems(1), of "rd_ends r"] Cons.prems(2) by auto
    obtain x st2 where 2: "cli_runner_call env (cli_runner_root ''status'' (handle_args 1)) st1 = Some (x, st2)" "serving (cl_runner st2)"
      using call [OF 1(2), of "''status''"] by auto
    have "\<exists>rc er e st'. cli_runner_wait env (before @ rd # after) 1 st2 = Some (rc, er, e, st') \<and> serving (cl_runner st')"
      using Cons.IH [OF 2(2)] Cons.prems(2,3) by simp
    then show ?case using 1(1) 2 signalled [OF 1(2)]
      by (cases x) (auto split: option.splits wait_state.splits simp: bind_eq_Some_conv)
  }
qed

lemma signalled_returns:
  assumes "plain_spec ident host port" "proto \<in> {REDP2P_PROTO_TCP, REDP2P_PROTO_UDP}" "0 < service" "service \<le> 65535"
    and "ce_getenv env = (\<lambda>_. None)" "prints_integers (ce_libc env)" "cl_runner st = first_runner fs"
    and "re_calloc (ce_runner env (cl_calls st))" "re_create (ce_runner env (cl_calls st))" "re_realloc (ce_runner env (cl_calls st)) \<noteq> None"
    and "\<forall>r \<in> set (before @ [rd]). \<forall>(t, te) \<in> set (rd_ends r). runs_out te" "rd_signal rd"
    and "\<forall>k. \<exists>tn \<in> set (te_turns (re_join (ce_runner env k))). tn_stop tn"
  shows "\<exists>code st'. main_program env (before @ rd # after)
      [name, ''pub'', peer_spec ident host port, protocol_option proto, dec_text service] st = Some (code, st')"
proof -
  have ok: "runner_ok (cl_runner st)" "clean st" "rn_count (cl_runner st) < 2 ^ 31 - 1"
    using first_runner_ok [of fs] by (simp_all add: assms(7) clean_def idle_def first_runner_def)
  obtain rn where a: "kc_redp2p_runner_slot_alloc (runner_env_at env (cl_calls st)) (cl_runner st) = (Some 1, rn)" "rn_threads rn = (\<lambda>_. None)"
    using assms(10) by (auto simp: assms(7) runner_env_at_def kc_redp2p_runner_slot_alloc_def first_runner_def grow_table_def Let_def)
  obtain s ctx where o: "cli_runner_open env (cli_runner_root ''open'' (pub_fields (peer_spec ident host port) proto service)) st =
      Some (Inr (int 1), st\<lparr>cl_runner := redp2p_runner_thread_start 0 s ctx rn, cl_calls := cl_calls st + 1\<rparr>)"
    "sl_op s = REDP2P_RUNNER_OP_PUB" "0 < rn_count rn" "rn_count rn \<le> length (rn_slots rn)"
    by (rule publisher_opened [OF assms(1-4,6) ok(1) assms(8,9) a(1)]) simp_all
  define st1 where "st1 = complain ''waiting for connections...'' (st\<lparr>cl_runner := redp2p_runner_thread_start 0 s ctx rn, cl_calls := cl_calls st + 1\<rparr>)"
  have "held 1 (cl_runner st1)" using open_held [OF assms(6) ok(2,3) o(1)] by (simp add: st1_def)
  then have s1: "serving (cl_runner st1)"
    using o(2,3) by (auto simp: serving_def held_def st1_def redp2p_runner_thread_start_def Let_def a(2) split: if_splits)
  have j: "runs_out (re_join (ce_runner env k))" for k using assms(13) stop_runs_out by blast
  obtain rc er e st2 where 2: "cli_runner_wait env (before @ rd # after) 1 st1 = Some (rc, er, e, st2)" "serving (cl_runner st2)"
    using signal_seen [OF assms(6) j s1 assms(11,12)] by blast
  have "\<exists>st4. cli_runner_close env 1 st3 = Some st4" if "serving (cl_runner st3)" for st3
    using serving_call [OF assms(6) j that, of "''close''"] by (auto simp: cli_runner_close_def)
  moreover have "serving (cl_runner (complain m st3)) = serving (cl_runner st3)" "serving (cl_runner (set_fs fs' st3)) = serving (cl_runner st3)" for m st3 fs'
    by (simp add: say_def) (simp add: serving_def quiet_runner, simp add: set_fs_def)
  ultimately have "\<exists>code st'. follow env (before @ rd # after) False ''pub exited: '' [] 1 st1 = Some (code, st')"
    using 2 by (simp add: follow_def Let_def)
  then show ?thesis
    by (simp add: main_pub_started [OF assms(1-5)] operate_def o(1) [simplified] st1_def)
qed

text \<open>
  C18: A signal ends the program while it runs a publisher, in whichever round of its waiting the
  signal arrives: after any number of rounds in which the publisher keeps running or ends, and when
  the loop of a thread that is joined comes to see the stop request, the program exits, through stop
  and close of the handle if the publisher still runs then.
\<close>

theorem signal_ends_publisher:
  assumes "plain_spec ident host port" "proto \<in> {REDP2P_PROTO_TCP, REDP2P_PROTO_UDP}" "0 < service" "service \<le> 65535"
    and "ce_getenv env = (\<lambda>_. None)" "prints_integers (ce_libc env)" "cl_runner st = first_runner fs"
    and "re_calloc (ce_runner env (cl_calls st))" "re_create (ce_runner env (cl_calls st))" "re_realloc (ce_runner env (cl_calls st)) \<noteq> None"
    and "\<forall>r \<in> set (before @ [rd]). \<forall>(t, te) \<in> set (rd_ends r). runs_out te" "rd_signal rd"
    and "\<forall>k. \<exists>tn \<in> set (te_turns (re_join (ce_runner env k))). tn_stop tn"
  shows "\<exists>code st'. main_program env (before @ rd # after)
      [name, ''pub'', peer_spec ident host port, protocol_option proto, dec_text service] st = Some (code, st')"
  by (rule signalled_returns [OF assms])

section \<open>Examples\<close>

definition demo_signal :: cli_round where
  "demo_signal = \<lparr>rd_ends = [], rd_signal = True\<rparr>"

text \<open>The signal arrives in the third round.\<close>

definition demo_quiet :: cli_round where
  "demo_quiet = \<lparr>rd_ends = [], rd_signal = False\<rparr>"

theorem signal_ends_publisher_witness:
  "\<exists>code st'. main_program (demo_cli_env (\<lambda>_. None)) [demo_quiet, demo_quiet, demo_signal]
      [''redp2p'', ''pub'', peer_spec ''web'' ''h'' 7777, protocol_option REDP2P_PROTO_UDP, dec_text 80] (demo_cli (\<lambda>_. None)) = Some (code, st')"
  using signal_ends_publisher [OF demo_plain, of REDP2P_PROTO_UDP 80 "demo_cli_env (\<lambda>_. None)" "demo_cli (\<lambda>_. None)" "\<lambda>_. None"
      "[demo_quiet, demo_quiet]" demo_signal "[]" "''redp2p''"]
  by (simp add: demo_cli_env_def demo_cli_def signed_prints demo_runner_env_def demo_signal_def demo_quiet_def demo_thread_def demo_turn_def)

theorem program_leaves_nothing_witness:
  "\<exists>code st'. main_program (demo_cli_env (\<lambda>_. None)) [demo_signal]
      [''redp2p'', ''pub'', peer_spec ''web'' ''h'' 7777, protocol_option REDP2P_PROTO_UDP, dec_text 80] (demo_cli (\<lambda>_. None)) = Some (code, st') \<and>
    rn_ctxs (cl_runner st') 0 = None \<and> rn_threads (cl_runner st') 1 = None"
proof -
  let ?env = "demo_cli_env (\<lambda>_. None)"
  obtain code st' where run: "main_program ?env [demo_signal]
      [''redp2p'', ''pub'', peer_spec ''web'' ''h'' 7777, protocol_option REDP2P_PROTO_UDP, dec_text 80] (demo_cli (\<lambda>_. None)) = Some (code, st')"
    using signalled_returns [OF demo_plain, of REDP2P_PROTO_UDP 80 ?env "demo_cli (\<lambda>_. None)" "\<lambda>_. None" "[]" demo_signal "[]" "''redp2p''"]
    by (auto simp: demo_cli_env_def demo_cli_def signed_prints demo_runner_env_def demo_signal_def demo_thread_def demo_turn_def)
  have "prints_integers (ce_libc ?env)" "cl_runner (demo_cli (\<lambda>_. None)) = first_runner (\<lambda>_. None)"
    by (simp_all add: demo_cli_env_def demo_cli_def signed_prints)
  from program_leaves_nothing [OF this run] run show ?thesis by blast
qed

end
