(* ===== verification/Spec2Isabelle.thy ===== *)
theory Spec2Isabelle
  imports Http_Reply Index_Server Stream_Behaviour Stun Punch Key_Files Command_Line_Safety
begin

text \<open>
  A verification development for redp2p: a program with which a publisher offers a local TCP or UDP
  service under an identifier, an index (rendezvous server) keeps the published endpoints, and a
  consumer finds the publisher through the index, punches a hole through the firewalls between them
  and talks to it directly over UDP.

  The parts and how they interact. The command line (\<^verbatim>\<open>src/src/redp2p.c\<close>) parses its
  arguments and asks the runner of the library, in JSON, to open, watch, stop and close an operation;
  the runner (\<^verbatim>\<open>kc_redp2p_run\<close>) runs it in a thread on a slot of its table. An operation is
  an index (\<^verbatim>\<open>redp2p_serve_index\<close>), a publisher (\<^verbatim>\<open>redp2p_wait\<close>) or a consumer
  (\<^verbatim>\<open>redp2p_connect\<close>), on a context (\<^verbatim>\<open>struct redp2p\<close>). Publisher and consumer send
  the index requests in JSON over HTTP, find their public address with STUN, punch, and then carry
  datagrams as they are or TCP connections as streams over KCP. All of that is in
  \<^verbatim>\<open>src/src/libredp2p.c\<close> except KCP (\<^verbatim>\<open>src/lib/kcp\<close>) and JSON (\<^verbatim>\<open>src/lib/parson\<close>).

  The model. Every function modelled is a HOL function of the same name, every struct a
  record with the fields of the struct, enums and tagged unions are datatypes; loops and long
  branches are functions of their own, named after what they do. Machine integers are words where
  they can wrap around (the clock and all of KCP, SHA-256, the random and numeric parsers), result
  codes are integers, strings are lists of characters without the final NUL, buffers with a bound
  keep the bound as a test or a \<^verbatim>\<open>take\<close>. State is passed explicitly. Errors are values: a
  result code, \<^verbatim>\<open>None\<close>, or the left side of a sum. What the program asks of the system is an
  argument: one field of an environment record per call, a function of what has been done so far,
  or a script (a list of loop turns, of network events, of waiting rounds). A script that is used up
  stands for a program that is still running; then the result is \<^verbatim>\<open>None\<close>, and the theorems
  on termination say when it is not.

  Theories, bottom up.

  Prelude, Text_Util: the macros of the headers, list and word lemmas; number, token, field and packet
  parsers. The 64-bit accumulators are proved never to wrap.

  Sha256, Register_Pow: the streaming hash, HMAC and the proof of work of a registration, equal to
  reference definitions by blocks; the search loop is sound and complete.

  Json, Json_Roundtrip: the parser (recursion bounded by the nesting limit, which the source counts),
  the serialiser and the object operations of parson; parsing what was serialised gives the value
  back.

  Candidate, Registry: endpoints and their normalisation; the context record with publishers, reserved
  seats, keys, time-outs and pending calls. The locale \<^verbatim>\<open>expiring_table\<close> is what lookups promise
  while records expire.

  Index, Index_Safety, Index_Behaviour: the nine request handlers and the dispatcher. The locale
  \<^verbatim>\<open>index_operation\<close> states what a handler owes (a well-formed index and its frame), its extension
  \<^verbatim>\<open>index_query\<close> that it only evicts; both are interpreted for every handler and for the dispatcher.
  The properties: only a password or a key changes a live record, a registration stores what was
  announced, candidates survive the wire, and what becomes of a reply that does not fit its buffer.

  Http, Http_Wire, Http_Reply, Index_Server: the HTTP carrier on both sides and the server loop. The
  locale \<^verbatim>\<open>table_pass\<close> is a pass over the table of connections that may remove entries; it is
  interpreted for closing, preparing the descriptor sets and processing. The properties: descriptors are
  given back, a request of the client closes every socket it opened, requests and replies arrive as they
  were sent however the bytes are cut, a punch request is read by its target from the reply to its
  poll, and an idle connection is never closed, so that enough of them block the server.

  Kcp, Kcp_Wire, Kcp_Channel, Kcp_Delivery, Kcp_Link: the KCP engine on 32-bit words and two control
  blocks joined by a network that loses, duplicates and reorders (an inductive step relation).
  The abstract specification is the list of payloads a direction has numbered; the bytes read are
  a prefix of the bytes sent. The bound of a direction is 2^30 segments, half the range in which the
  signed comparison of 32-bit sequence numbers is an order.

  Stream, Stream_Wire, Stream_Frame, Stream_Tunnel, Stream_Behaviour: one TCP connection over KCP. The
  tunnel of two sessions is a refinement of the connection of Kcp_Link, from which delivery and a
  lossless close follow.

  Stun, Punch, Key_Files: the binding exchange; the hole punching run and its handshake; the key files
  over a map from paths to files in which every system call may fail.

  Peer_World, Peer_Frame: the world of publisher and consumer, a context, a log of effects and
  the key files. The log has every socket that is opened or closed: those of the loops, those of the
  requests to the index and the probe sockets of gathering candidates. Their common interfaces are the
  locales \<^verbatim>\<open>session_kind\<close> (a session's descriptors and which sessions are the same peer's) and
  \<^verbatim>\<open>session_step\<close> (an operation on one session, lifted to the table), interpreted for both programs.

  Publisher, Publisher_Safety, Publisher_Behaviour and Consumer, Consumer_Safety, Consumer_Behaviour: the
  two event loops with everything they call. Invariants of the session tables, the account of
  descriptors over the whole run, isolation of sessions, termination after a stop request.

  Runner, Runner_Safety, Runner_Behaviour: slots, contexts and threads as stores with addresses, so
  that aliasing and the moved table are visible. The invariant \<^verbatim>\<open>runner_ok\<close> is kept by every command
  and thread end (locale \<^verbatim>\<open>kept_by_steps\<close>); a history is a list of them.

  Command_Line, Command_Line_Behaviour, Command_Line_Safety: the whole program from its arguments to its
  exit code over the runner. The second locale interpretation of \<^verbatim>\<open>kept_by_steps\<close> carries the runner's
  invariant through the waiting loop, so that a program that ends leaves no context and no thread; a
  signal in any round of the waiting ends a program that runs a publisher.

  Bounds and fuel. There is no fuel: loops over data are structural or have a measure, endless loops
  consume scripts. The table of the runner has fewer than 2^30 slots,
  and the theorems on the command line assume that the C library prints and reads back numbers that
  fit an int (\<^verbatim>\<open>prints_integers\<close>), as the round trip of JSON assumes of the numbers in the value.

  Not modelled, and why. The Windows branches: the development follows the POSIX ones. The platform
  layer (clocks, random bytes, locks, sockets) is only calls of the system and is an argument of
  what uses it; the locks have no effect in a model in which a command or a thread is one step. The key files are paths and contents: their descriptors, and that of \<^verbatim>\<open>/dev/urandom\<close>, are not in any account of descriptors.
  \<^verbatim>\<open>src/lib/monocypher\<close> is used for \<^verbatim>\<open>crypto_wipe\<close> alone, which clears memory that is not
  used again. Functions of parson and KCP that the program does not call (files, dotted paths, schemas,
  copies, the debug log), allocation failures inside them, and the wording of the help page.
\<close>

end
